(* ===== verification/CsPrelude.thy ===== *)
theory CsPrelude
  imports Main "HOL-Library.Multiset" "HOL-Library.Sublist"
begin

text \<open>
  Shared notions of the whole development: the wrap-around of Go's 64-bit \<open>int\<close>, Go's
  truncating integer division, slicing of lists, and the stable descending sort that
  \<open>sort.SliceStable\<close> performs with a ``greater score first'' comparison. The collections
  below carry the facts that the component proofs share.
\<close>

named_theorems str_simps \<open>characteristic equations of the string functions\<close>
named_theorems path_simps \<open>characteristic equations of the path functions\<close>
named_theorems rank_simps \<open>facts about stable ranking\<close>

type_synonym go_error = string
type_synonym 'a go_result = "go_error + 'a"

section \<open>Go integers\<close>

text \<open>The value that a mathematical integer has after wrapping to Go's 64-bit \<open>int\<close>.\<close>

definition i64 :: "int \<Rightarrow> int" where
  "i64 x = (x + 2 ^ 63) mod 2 ^ 64 - 2 ^ 63"

lemma i64_id [simp]: "- (2 ^ 63) \<le> x \<Longrightarrow> x < 2 ^ 63 \<Longrightarrow> i64 x = x"
  by (simp add: i64_def)

lemma i64_lower: "- (2 ^ 63) \<le> i64 x"
  by (simp add: i64_def)

lemma i64_upper: "i64 x < 2 ^ 63"
proof -
  have "(x + 2 ^ 63) mod 2 ^ 64 < 2 ^ 64" by (rule pos_mod_bound) simp
  then show ?thesis by (simp add: i64_def)
qed

text \<open>Go's \<open>/\<close> on integers truncates towards zero.\<close>

definition go_quot :: "int \<Rightarrow> int \<Rightarrow> int" where
  "go_quot a b = sgn a * sgn b * (\<bar>a\<bar> div \<bar>b\<bar>)"

lemma go_quot_pos: "0 \<le> a \<Longrightarrow> 0 < b \<Longrightarrow> go_quot a b = a div b"
  by (cases "a = 0") (auto simp: go_quot_def)

section \<open>Slices\<close>

text \<open>\<open>slice xs a b\<close> is Go's \<open>xs[a:b]\<close> for bounds \<open>a \<le> b \<le> len(xs)\<close>.\<close>

definition slice :: "'a list \<Rightarrow> nat \<Rightarrow> nat \<Rightarrow> 'a list" where
  "slice xs a b = take (b - a) (drop a xs)"

lemma length_slice: "length (slice xs a b) = min (b - a) (length xs - a)"
  by (simp add: slice_def min.commute)

lemma length_slice_exact [simp]:
  "a \<le> b \<Longrightarrow> b \<le> length xs \<Longrightarrow> length (slice xs a b) = b - a"
  by (simp add: length_slice)

lemma slice_full [simp]: "slice xs 0 (length xs) = xs"
  by (simp add: slice_def)

lemma nth_slice: "a \<le> b \<Longrightarrow> b \<le> length xs \<Longrightarrow> i < b - a \<Longrightarrow> slice xs a b ! i = xs ! (a + i)"
  by (simp add: slice_def)

lemma slice_append_slice:
  "a \<le> b \<Longrightarrow> b \<le> c \<Longrightarrow> slice xs a b @ slice xs b c = slice xs a c"
proof -
  assume ab: "a \<le> b" and bc: "b \<le> c"
  then have "take (c - a) (drop a xs) = take ((b - a) + (c - b)) (drop a xs)" by simp
  also have "\<dots> = take (b - a) (drop a xs) @ take (c - b) (drop (b - a) (drop a xs))"
    by (rule take_add)
  finally show ?thesis using ab by (simp add: slice_def)
qed

lemma set_slice: "set (slice xs a b) \<subseteq> set xs"
  by (auto simp: slice_def dest: in_set_takeD in_set_dropD)

section \<open>Stable ranking\<close>

text \<open>
  \<open>sort.SliceStable\<close> with the comparison ``the key of the first is greater'': descending by
  key, equal keys in their original order. The interface \<open>stable_ranker\<close> states what the
  three rankings of the program promise; its lemmas say what a truncated ranking keeps.
\<close>

definition stable_desc :: "('a \<Rightarrow> 'k::linordered_ab_group_add) \<Rightarrow> 'a list \<Rightarrow> 'a list" where
  "stable_desc key xs = sort_key (\<lambda>x. - key x) xs"

locale stable_ranker =
  fixes key :: "'a \<Rightarrow> 'k::linordered_ab_group_add"
    and rank :: "'a list \<Rightarrow> 'a list"
  assumes rank_perm: "mset (rank xs) = mset xs"
    and rank_desc: "sorted_wrt (\<lambda>x y. key y \<le> key x) (rank xs)"
    and rank_stable: "filter (\<lambda>x. key x = k) (rank xs) = filter (\<lambda>x. key x = k) xs"
begin

lemma rank_length: "length (rank xs) = length xs"
  using arg_cong [OF rank_perm [of xs], of size] by simp

lemma rank_set: "set (rank xs) = set xs"
  using arg_cong [OF rank_perm [of xs], of set_mset] by simp

lemma rank_top:
  assumes "x \<in> set (take n (rank xs))" and "y \<in> set (drop n (rank xs))"
  shows "key y \<le> key x"
proof -
  have "sorted_wrt (\<lambda>x y. key y \<le> key x) (take n (rank xs) @ drop n (rank xs))"
    using rank_desc [of xs] by simp
  with assms show ?thesis by (auto simp only: sorted_wrt_append)
qed

lemma rank_take_desc: "sorted_wrt (\<lambda>x y. key y \<le> key x) (take n (rank xs))"
  using rank_desc [of xs] by (rule sorted_wrt_take)

text \<open>The contract determines the ranking: there is one stable descending arrangement.\<close>

lemma rank_unique: "rank xs = stable_desc key xs"
proof -
  have "sort_key (\<lambda>x. - key x) xs = rank xs"
  proof (rule properties_for_sort_key)
    show "mset (rank xs) = mset xs" by (rule rank_perm)
    show "sorted (map (\<lambda>x. - key x) (rank xs))"
      using rank_desc [of xs] by (auto simp: sorted_map elim: sorted_wrt_mono_rel [rotated])
  next
    fix k
    have "(\<lambda>x. - key k = - key x) = (\<lambda>x. key x = key k)" by (auto simp: fun_eq_iff)
    then show "filter (\<lambda>x. - key k = - key x) (rank xs) = filter (\<lambda>x. - key k = - key x) xs"
      using rank_stable [of "key k" xs] by simp
  qed
  then show ?thesis by (simp add: stable_desc_def)
qed

end

lemma stable_desc_ranker: "stable_ranker key (stable_desc key)"
proof
  fix xs :: "'a list" and k
  show "mset (stable_desc key xs) = mset xs" by (simp add: stable_desc_def)
  have "sorted (map (\<lambda>x. - key x) (stable_desc key xs))" by (simp add: stable_desc_def)
  then show "sorted_wrt (\<lambda>x y. key y \<le> key x) (stable_desc key xs)"
    by (auto simp: sorted_map elim: sorted_wrt_mono_rel [rotated])
  have "filter (\<lambda>x. - key x = - k) (sort_key (\<lambda>x. - key x) xs) = filter (\<lambda>x. - key x = - k) xs"
    by (rule sort_key_stable)
  then show "filter (\<lambda>x. key x = k) (stable_desc key xs) = filter (\<lambda>x. key x = k) xs"
    by (simp add: stable_desc_def)
qed

text \<open>Sorting decorated pairs and projecting them back is the same ranking.\<close>

lemma stable_desc_decorated:
  "map fst (stable_desc snd (map (\<lambda>x. (x, key x)) xs)) = stable_desc key xs"
proof -
  have "insort_key (\<lambda>p. - snd p) (x, key x) (map (\<lambda>x. (x, key x)) ys) =
      map (\<lambda>x. (x, key x)) (insort_key (\<lambda>x. - key x) x ys)" for x ys
    by (induction ys) auto
  then have "sort_key (\<lambda>p. - snd p) (map (\<lambda>x. (x, key x)) xs) =
      map (\<lambda>x. (x, key x)) (sort_key (\<lambda>x. - key x) xs)"
    by (induction xs) simp_all
  then show ?thesis by (simp add: stable_desc_def comp_def)
qed

end
