(* ===== verification/GoStrings.thy ===== *)
theory GoStrings
  imports CsPrelude
begin

text \<open>
  The functions of Go's \<open>strings\<close> and \<open>unicode/utf8\<close> packages that the program uses. A Go
  string is a sequence of bytes, so it is a \<open>string\<close> here, one \<open>char\<close> per byte.
  \<open>TrimSpace\<close> and \<open>Fields\<close> know every Unicode space in its UTF-8 encoding. \<open>to_lower\<close> is
  \<open>strings.ToLower\<close> on every character whose lower case is ASCII (the ASCII letters, the
  dotted capital I, the Kelvin sign) and leaves the other bytes alone; the program only
  compares lowered strings with ASCII constants or looks for ASCII substrings in them, except in
  \<open>rankMethods\<close>, whose lowered query is empty in every call. The
  Unicode tables above the ASCII range are a parameter, \<open>unicode_tables\<close>.
\<close>

section \<open>Prefixes, suffixes, substrings\<close>

fun has_prefix :: "'a list \<Rightarrow> 'a list \<Rightarrow> bool" where
  "has_prefix s [] = True"
| "has_prefix [] (p # ps) = False"
| "has_prefix (x # xs) (p # ps) = (x = p \<and> has_prefix xs ps)"

definition has_suffix :: "'a list \<Rightarrow> 'a list \<Rightarrow> bool" where
  "has_suffix s p = has_prefix (rev s) (rev p)"

fun contains :: "'a list \<Rightarrow> 'a list \<Rightarrow> bool" where
  "contains [] t = (t = [])"
| "contains (x # xs) t = (has_prefix (x # xs) t \<or> contains xs t)"

definition contains_any :: "string \<Rightarrow> string \<Rightarrow> bool" where
  "contains_any s cs = list_ex (\<lambda>c. c \<in> set cs) s"

definition trim_prefix :: "string \<Rightarrow> string \<Rightarrow> string" where
  "trim_prefix s p = (if has_prefix s p then drop (length p) s else s)"

definition trim_suffix :: "string \<Rightarrow> string \<Rightarrow> string" where
  "trim_suffix s p = (if has_suffix s p then take (length s - length p) s else s)"

lemma has_prefix_iff: "has_prefix s p \<longleftrightarrow> (\<exists>t. s = p @ t)"
  by (induction s p rule: has_prefix.induct) auto

lemma has_prefix_Nil_iff [simp]: "has_prefix [] p \<longleftrightarrow> p = []"
  by (cases p) auto

lemma has_prefix_prefix: "has_prefix s p \<longleftrightarrow> prefix p s"
  by (auto simp: has_prefix_iff prefix_def)

lemma has_suffix_iff: "has_suffix s p \<longleftrightarrow> (\<exists>t. s = t @ p)"
proof -
  have "has_suffix s p \<longleftrightarrow> (\<exists>t. rev s = rev p @ t)" by (simp add: has_suffix_def has_prefix_iff)
  also have "\<dots> \<longleftrightarrow> (\<exists>t. s = t @ p)" by (metis rev_append rev_rev_ident)
  finally show ?thesis .
qed

lemma has_prefix_append [simp]: "has_prefix (p @ t) p"
  by (auto simp: has_prefix_iff)

lemma has_suffix_append [simp]: "has_suffix (t @ p) p"
  by (auto simp: has_suffix_iff)

lemma has_prefix_length: "has_prefix s p \<Longrightarrow> length p \<le> length s"
  by (auto simp: has_prefix_iff)

lemma contains_iff: "contains s t \<longleftrightarrow> (\<exists>u v. s = u @ t @ v)"
proof (induction s)
  case Nil
  then show ?case by auto
next
  case (Cons x xs)
  have "(\<exists>u v. x # xs = u @ t @ v) \<longleftrightarrow> (\<exists>v. x # xs = t @ v) \<or> (\<exists>u v. xs = u @ t @ v)"
    by (auto simp: Cons_eq_append_conv)
  with Cons show ?case by (auto simp: has_prefix_iff)
qed

lemma contains_singleton: "contains s [c] \<longleftrightarrow> c \<in> set s"
  by (auto simp: contains_iff in_set_conv_decomp)

section \<open>Splitting and joining\<close>

text \<open>\<open>strings.Split\<close> with a one-byte separator, \<open>strings.Join\<close>, \<open>strings.Count\<close> of a byte.\<close>

fun split_on :: "char \<Rightarrow> string \<Rightarrow> string list" where
  "split_on c [] = [[]]"
| "split_on c (x # xs) =
     (if x = c then [] # split_on c xs
      else (case split_on c xs of [] \<Rightarrow> [[x]] | y # ys \<Rightarrow> (x # y) # ys))"

fun join :: "string \<Rightarrow> string list \<Rightarrow> string" where
  "join sep [] = []"
| "join sep [x] = x"
| "join sep (x # y # ys) = x @ sep @ join sep (y # ys)"

definition count_byte :: "char \<Rightarrow> string \<Rightarrow> nat" where
  "count_byte c s = length (filter (\<lambda>x. x = c) s)"

abbreviation newline :: char where
  "newline \<equiv> CHR 0x0A"

lemma split_on_not_Nil [simp]: "split_on c s \<noteq> []"
  by (induction s) (auto split: list.splits)

lemma join_split [str_simps]: "join [c] (split_on c s) = s"
proof (induction s)
  case Nil
  then show ?case by simp
next
  case (Cons x xs)
  obtain y ys where y: "split_on c xs = y # ys" by (cases "split_on c xs") auto
  with Cons show ?case by (cases ys) auto
qed

lemma length_split_on [str_simps]: "length (split_on c s) = count_byte c s + 1"
  by (induction s) (auto simp: count_byte_def split: list.splits)

lemma split_on_parts: "p \<in> set (split_on c s) \<Longrightarrow> c \<notin> set p"
proof (induction s arbitrary: p)
  case Nil
  then show ?case by simp
next
  case (Cons x s)
  then show ?case by (cases "split_on c s") (auto split: if_splits)
qed

lemma split_on_free: "c \<notin> set s \<Longrightarrow> split_on c s = [s]"
  by (induction s) auto

lemma split_on_append_sep: "c \<notin> set p \<Longrightarrow> split_on c (p @ c # s) = p # split_on c s"
  by (induction p) auto

lemma split_join:
  "xs \<noteq> [] \<Longrightarrow> \<forall>x \<in> set xs. c \<notin> set x \<Longrightarrow> split_on c (join [c] xs) = xs"
proof (induction "[c]" xs rule: join.induct)
  case 1
  then show ?case by simp
next
  case (2 x)
  then show ?case by (simp add: split_on_free)
next
  case (3 x y ys)
  then show ?case by (simp add: split_on_append_sep)
qed

lemma count_byte_append [simp]: "count_byte c (s @ t) = count_byte c s + count_byte c t"
  by (simp add: count_byte_def)

lemma count_byte_join:
  "xs \<noteq> [] \<Longrightarrow> \<forall>x \<in> set xs. c \<notin> set x \<Longrightarrow> count_byte c (join [c] xs) + 1 = length xs"
  using split_join length_split_on by metis

section \<open>Trimming\<close>

text \<open>The UTF-8 encodings of the runes for which \<open>unicode.IsSpace\<close> holds.\<close>

definition space_runes :: "string list" where
  "space_runes =
    [[CHR 0x20], [CHR 0x0A], [CHR 0x09], [CHR 0x0D], [CHR 0x0B], [CHR 0x0C],
     [CHR 0xC2, CHR 0x85], [CHR 0xC2, CHR 0xA0], [CHR 0xE1, CHR 0x9A, CHR 0x80],
     [CHR 0xE2, CHR 0x80, CHR 0x80], [CHR 0xE2, CHR 0x80, CHR 0x81],
     [CHR 0xE2, CHR 0x80, CHR 0x82], [CHR 0xE2, CHR 0x80, CHR 0x83],
     [CHR 0xE2, CHR 0x80, CHR 0x84], [CHR 0xE2, CHR 0x80, CHR 0x85],
     [CHR 0xE2, CHR 0x80, CHR 0x86], [CHR 0xE2, CHR 0x80, CHR 0x87],
     [CHR 0xE2, CHR 0x80, CHR 0x88], [CHR 0xE2, CHR 0x80, CHR 0x89],
     [CHR 0xE2, CHR 0x80, CHR 0x8A], [CHR 0xE2, CHR 0x80, CHR 0xA8],
     [CHR 0xE2, CHR 0x80, CHR 0xA9], [CHR 0xE2, CHR 0x80, CHR 0xAF],
     [CHR 0xE2, CHR 0x81, CHR 0x9F], [CHR 0xE3, CHR 0x80, CHR 0x80]]"

text \<open>Strip, as long as one of them matches, the given pieces from the front.\<close>

function trim_by :: "string list \<Rightarrow> string \<Rightarrow> string" where
  "trim_by ps s =
     (case find (\<lambda>p. p \<noteq> [] \<and> has_prefix s p) ps of
        None \<Rightarrow> s | Some p \<Rightarrow> trim_by ps (drop (length p) s))"
  by pat_completeness auto
termination
  by (relation "measure (\<lambda>(ps, s). length s)")
     (auto simp: find_Some_iff has_prefix_iff)

declare trim_by.simps [simp del]

definition trim_space :: "string \<Rightarrow> string" where
  "trim_space s = rev (trim_by (map rev space_runes) (rev (trim_by space_runes s)))"

definition trim_right_set :: "string \<Rightarrow> string \<Rightarrow> string" where
  "trim_right_set s cutset = rev (dropWhile (\<lambda>c. c \<in> set cutset) (rev s))"

lemma trim_by_stuck:
  "p \<in> set ps \<Longrightarrow> p \<noteq> [] \<Longrightarrow> \<not> has_prefix (trim_by ps s) p"
proof (induction ps s rule: trim_by.induct)
  case (1 ps s)
  show ?case
  proof (cases "find (\<lambda>p. p \<noteq> [] \<and> has_prefix s p) ps")
    case None
    then have "trim_by ps s = s" by (simp add: trim_by.simps [of ps s])
    with None 1 show ?thesis by (auto simp: find_None_iff)
  next
    case (Some q)
    with 1 show ?thesis by (simp add: trim_by.simps [of ps s])
  qed
qed

lemma trim_by_suffix: "suffix (trim_by ps s) s"
proof (induction ps s rule: trim_by.induct)
  case (1 ps s)
  show ?case
  proof (cases "find (\<lambda>p. p \<noteq> [] \<and> has_prefix s p) ps")
    case None
    then show ?thesis by (simp add: trim_by.simps [of ps s])
  next
    case (Some q)
    with 1 have "suffix (trim_by ps (drop (length q) s)) (drop (length q) s)" by blast
    then have "suffix (trim_by ps (drop (length q) s)) s"
      using suffix_drop suffix_order.trans by blast
    with Some show ?thesis by (simp add: trim_by.simps [of ps s])
  qed
qed

lemma trim_by_id: "\<forall>p \<in> set ps. p \<noteq> [] \<longrightarrow> \<not> has_prefix s p \<Longrightarrow> trim_by ps s = s"
proof -
  assume "\<forall>p \<in> set ps. p \<noteq> [] \<longrightarrow> \<not> has_prefix s p"
  then have "find (\<lambda>p. p \<noteq> [] \<and> has_prefix s p) ps = None" by (auto simp: find_None_iff)
  then show ?thesis by (simp add: trim_by.simps [of ps s])
qed

lemma trim_by_idem [simp]: "trim_by ps (trim_by ps s) = trim_by ps s"
  by (rule trim_by_id) (auto simp: trim_by_stuck)

lemma trim_by_Nil [simp]: "trim_by ps [] = []"
  using trim_by_suffix [of ps "[]"] by simp

lemma trim_space_Nil [simp]: "trim_space [] = []"
  by (simp add: trim_space_def)

lemma trim_space_sublist: "sublist (trim_space s) s"
proof -
  let ?l = "trim_by space_runes s"
  have "suffix (trim_by (map rev space_runes) (rev ?l)) (rev ?l)" by (rule trim_by_suffix)
  then have "prefix (trim_space s) ?l" by (simp add: trim_space_def suffix_to_prefix)
  moreover have "suffix ?l s" by (rule trim_by_suffix)
  ultimately show ?thesis
    by (meson prefix_imp_sublist suffix_imp_sublist sublist_order.order_trans)
qed

lemma set_trim_space: "set (trim_space s) \<subseteq> set s"
  using trim_space_sublist by (auto dest: set_mono_sublist)

text \<open>Nothing is left to trim at the end of a trimmed string.\<close>

lemma trim_space_end: "p \<in> set space_runes \<Longrightarrow> p \<noteq> [] \<Longrightarrow> \<not> has_suffix (trim_space s) p"
  using trim_by_stuck [of "rev p" "map rev space_runes" "rev (trim_by space_runes s)"]
  by (simp add: trim_space_def has_suffix_def)

lemma trim_space_idem [simp]: "trim_space (trim_space s) = trim_space s"
proof -
  let ?l = "trim_by space_runes s"
  have "suffix (trim_by (map rev space_runes) (rev ?l)) (rev ?l)" by (rule trim_by_suffix)
  then obtain u where u: "?l = trim_space s @ u"
    by (metis prefix_def rev_rev_ident suffix_to_prefix trim_space_def)
  have "trim_by space_runes (trim_space s) = trim_space s"
  proof (rule trim_by_id, intro ballI impI)
    fix p assume "p \<in> set space_runes" "p \<noteq> []"
    then have "\<not> has_prefix ?l p" by (rule trim_by_stuck)
    then show "\<not> has_prefix (trim_space s) p" unfolding u by (auto simp: has_prefix_iff)
  qed
  then have "trim_space (trim_space s) = rev (trim_by (map rev space_runes) (rev (trim_space s)))"
    by (subst trim_space_def) simp
  also have "rev (trim_space s) = trim_by (map rev space_runes) (rev ?l)"
    by (simp add: trim_space_def)
  finally show ?thesis by (simp add: trim_space_def)
qed

text \<open>A string is trimmed away completely iff it is a sequence of spaces, and then so is each line.\<close>

definition blank :: "string \<Rightarrow> bool" where
  "blank s \<longleftrightarrow> (\<exists>ps. set ps \<subseteq> set space_runes \<and> s = concat ps)"

lemma blank_Nil [simp]: "blank []"
  unfolding blank_def by (rule exI [of _ "[]"]) simp

lemma blank_append: "p \<in> set space_runes \<Longrightarrow> blank s \<Longrightarrow> blank (p @ s)"
  unfolding blank_def by (metis concat.simps(2) insert_subset list.simps(15))

lemma trim_by_concat:
  "\<exists>qs. set qs \<subseteq> set ps \<and> s = concat qs @ trim_by ps s"
proof (induction ps s rule: trim_by.induct)
  case (1 ps s)
  show ?case
  proof (cases "find (\<lambda>p. p \<noteq> [] \<and> has_prefix s p) ps")
    case None
    then have "trim_by ps s = s" by (simp add: trim_by.simps [of ps s])
    then show ?thesis by (intro exI [of _ "[]"]) simp
  next
    case (Some p)
    then have p: "p \<in> set ps" "has_prefix s p" by (auto simp: find_Some_iff)
    obtain qs where "set qs \<subseteq> set ps" "drop (length p) s = concat qs @ trim_by ps (drop (length p) s)"
      using "1.IH" [OF Some] by blast
    moreover from p have "s = p @ drop (length p) s" by (auto simp: has_prefix_iff)
    ultimately have "set (p # qs) \<subseteq> set ps \<and> s = concat (p # qs) @ trim_by ps s"
      using Some p by (simp add: trim_by.simps [of ps s])
    then show ?thesis by blast
  qed
qed

text \<open>The first byte of an encoding determines its length, so no encoding is a prefix of another.\<close>

definition rune_length :: "char \<Rightarrow> nat" where
  "rune_length c = (if (of_char c :: nat) < 128 then 1 else if (of_char c :: nat) < 224 then 2 else 3)"

lemma space_runes_shape: "p \<in> set space_runes \<Longrightarrow> p \<noteq> [] \<and> length p = rune_length (hd p)"
proof -
  have "list_all (\<lambda>p. p \<noteq> [] \<and> length p = rune_length (hd p)) space_runes"
    by (simp add: space_runes_def rune_length_def)
  then show "p \<in> set space_runes \<Longrightarrow> p \<noteq> [] \<and> length p = rune_length (hd p)"
    by (simp add: list_all_iff)
qed

lemma space_runes_prefix_free:
  assumes "p \<in> set space_runes" "q \<in> set space_runes" "has_prefix q p"
  shows "p = q"
proof -
  obtain t where t: "q = p @ t" using assms(3) by (auto simp: has_prefix_iff)
  have "hd q = hd p" using space_runes_shape [OF assms(1)] t by simp
  then have "length q = length p" using space_runes_shape assms(1,2) by simp
  with t show ?thesis by simp
qed

lemma space_runes_nonempty: "p \<in> set space_runes \<Longrightarrow> p \<noteq> []"
  using space_runes_shape by blast

lemma trim_by_blank: "blank s \<Longrightarrow> trim_by space_runes s = []"
proof -
  assume "blank s"
  then obtain ps where "set ps \<subseteq> set space_runes" "s = concat ps" unfolding blank_def by blast
  then show ?thesis
  proof (induction ps arbitrary: s)
    case Nil
    then show ?case by simp
  next
    case (Cons p ps)
    then have p: "p \<in> set space_runes" "p \<noteq> []" "has_prefix s p"
      using space_runes_nonempty by auto
    obtain q where q: "find (\<lambda>p. p \<noteq> [] \<and> has_prefix s p) space_runes = Some q"
      using p by (cases "find (\<lambda>p. p \<noteq> [] \<and> has_prefix s p) space_runes") (auto simp: find_None_iff)
    then have "q \<in> set space_runes" "has_prefix s q" by (auto simp: find_Some_iff)
    moreover have "has_prefix p q \<or> has_prefix q p"
      using \<open>has_prefix s q\<close> p(3) by (metis has_prefix_prefix prefix_same_cases)
    ultimately have "q = p" using space_runes_prefix_free p(1) by metis
    with q Cons show ?case by (simp add: trim_by.simps [of space_runes "p @ concat ps"])
  qed
qed

lemma trim_space_blank: "trim_space s = [] \<longleftrightarrow> blank s"
proof
  assume "trim_space s = []"
  define l where "l = trim_by space_runes s"
  have "trim_by (map rev space_runes) (rev l) = []"
    using \<open>trim_space s = []\<close> by (simp add: trim_space_def l_def)
  then obtain qs where qs: "set qs \<subseteq> rev ` set space_runes" "rev l = concat qs"
    using trim_by_concat [of "map rev space_runes" "rev l"] by auto
  then have "l = concat (map rev (rev qs))" by (metis rev_concat rev_map rev_rev_ident)
  moreover have "set (map rev (rev qs)) \<subseteq> set space_runes" using qs(1) by auto
  ultimately have "blank l" unfolding blank_def by blast
  then have "trim_by space_runes l = []" by (rule trim_by_blank)
  then have "l = []" by (simp add: l_def)
  then show "blank s"
    using trim_by_concat [of space_runes s] unfolding blank_def l_def by auto
next
  assume "blank s"
  then show "trim_space s = []" by (simp add: trim_space_def trim_by_blank)
qed

lemma space_rune_newline: "p \<in> set space_runes \<Longrightarrow> newline \<in> set p \<Longrightarrow> p = [newline]"
  by (auto simp: space_runes_def)

lemma split_on_append_free:
  "c \<notin> set p \<Longrightarrow> split_on c (p @ s) = (p @ hd (split_on c s)) # tl (split_on c s)"
  by (induction p) (auto split: list.splits)

lemma blank_lines: "blank s \<Longrightarrow> line \<in> set (split_on newline s) \<Longrightarrow> blank line"
proof -
  assume "blank s" and line: "line \<in> set (split_on newline s)"
  then obtain ps where "set ps \<subseteq> set space_runes" "s = concat ps" unfolding blank_def by blast
  then show ?thesis using line
  proof (induction ps arbitrary: s line)
    case Nil
    then show ?case by simp
  next
    case (Cons p ps)
    then have p: "p \<in> set space_runes" and ps: "set ps \<subseteq> set space_runes" by auto
    have IH: "\<And>l. l \<in> set (split_on newline (concat ps)) \<Longrightarrow> blank l"
      using Cons.IH ps by blast
    show ?case
    proof (cases "newline \<in> set p")
      case True
      then have "p = [newline]" using p space_rune_newline by blast
      with Cons.prems IH show ?thesis by auto
    next
      case False
      have "hd (split_on newline (concat ps)) \<in> set (split_on newline (concat ps))"
        by (rule hd_in_set) simp
      moreover have "set (tl (split_on newline (concat ps))) \<subseteq> set (split_on newline (concat ps))"
        by (meson list.set_sel(2) split_on_not_Nil subsetI)
      ultimately show ?thesis
        using Cons.prems IH blank_append [OF p] by (auto simp: split_on_append_free [OF False])
    qed
  qed
qed

section \<open>Fields\<close>

text \<open>\<open>strings.Fields\<close>: the maximal pieces between runs of Unicode spaces.\<close>

fun word_len :: "string \<Rightarrow> nat" where
  "word_len [] = 0"
| "word_len (c # s) = (if list_ex (\<lambda>p. has_prefix (c # s) p) space_runes then 0 else Suc (word_len s))"

function str_fields :: "string \<Rightarrow> string list" where
  "str_fields s =
     (let t = trim_by space_runes s; n = word_len t
      in if t = [] \<or> n = 0 then [] else take n t # str_fields (drop n t))"
  by pat_completeness auto
termination
proof (relation "measure length")
  fix s t n
  assume t: "t = trim_by space_runes s" and "n = word_len t" and ne: "\<not> (t = [] \<or> n = 0)"
  have "length t \<le> length s" unfolding t using trim_by_suffix suffix_length_le by blast
  moreover have "0 < length t" "0 < n" using ne by auto
  ultimately have "length (drop n t) < length s" by (simp only: length_drop)
  then show "(drop n t, s) \<in> measure length" by simp
qed simp

declare str_fields.simps [simp del]

lemma str_fields_Nil [simp]: "str_fields [] = []"
  by (simp add: str_fields.simps)

section \<open>Case\<close>

definition lower_byte :: "char \<Rightarrow> char" where
  "lower_byte c =
     (if 65 \<le> (of_char c :: nat) \<and> (of_char c :: nat) \<le> 90 then char_of ((of_char c :: nat) + 32) else c)"

fun to_lower :: "string \<Rightarrow> string" where
  "to_lower [] = []"
| "to_lower (c # s) =
     (case s of
        [] \<Rightarrow> [lower_byte c]
      | d # t \<Rightarrow>
          if c = CHR 0xC4 \<and> d = CHR 0xB0 then CHR ''i'' # to_lower t
          else if c = CHR 0xE2 \<and> d = CHR 0x84 \<and> has_prefix t [CHR 0xAA]
          then (case t of [] \<Rightarrow> [] | e # u \<Rightarrow> CHR ''k'' # to_lower u)
          else lower_byte c # to_lower s)"

section \<open>Runes\<close>

record unicode_tables =
  uni_letter :: "nat \<Rightarrow> bool"
  uni_digit :: "nat \<Rightarrow> bool"
  uni_upper :: "nat \<Rightarrow> bool"

definition is_letter :: "unicode_tables \<Rightarrow> nat \<Rightarrow> bool" where
  "is_letter U r =
     (if r < 128 then (65 \<le> r \<and> r \<le> 90) \<or> (97 \<le> r \<and> r \<le> 122) else uni_letter U r)"

definition is_digit :: "unicode_tables \<Rightarrow> nat \<Rightarrow> bool" where
  "is_digit U r = (if r < 128 then 48 \<le> r \<and> r \<le> 57 else uni_digit U r)"

definition is_upper :: "unicode_tables \<Rightarrow> nat \<Rightarrow> bool" where
  "is_upper U r = (if r < 128 then 65 \<le> r \<and> r \<le> 90 else uni_upper U r)"

definition cont_byte :: "nat \<Rightarrow> bool" where
  "cont_byte b \<longleftrightarrow> 128 \<le> b \<and> b \<le> 191"

text \<open>The encodings of two, three and four bytes, given the first byte.\<close>

fun decode2 :: "nat \<Rightarrow> nat list \<Rightarrow> (nat \<times> nat) option" where
  "decode2 b (c # bs) =
     (if 194 \<le> b \<and> b \<le> 223 \<and> cont_byte c then Some ((b - 192) * 64 + (c - 128), 2) else None)"
| "decode2 b bs = None"

fun decode3 :: "nat \<Rightarrow> nat list \<Rightarrow> (nat \<times> nat) option" where
  "decode3 b (c # d # bs) =
     (if 224 \<le> b \<and> b \<le> 239 \<and> cont_byte c \<and> cont_byte d \<and> (b = 224 \<longrightarrow> 160 \<le> c) \<and> (b = 237 \<longrightarrow> c \<le> 159)
      then Some ((b - 224) * 4096 + (c - 128) * 64 + (d - 128), 3) else None)"
| "decode3 b bs = None"

fun decode4 :: "nat \<Rightarrow> nat list \<Rightarrow> (nat \<times> nat) option" where
  "decode4 b (c # d # e # bs) =
     (if 240 \<le> b \<and> b \<le> 244 \<and> cont_byte c \<and> cont_byte d \<and> cont_byte e
         \<and> (b = 240 \<longrightarrow> 144 \<le> c) \<and> (b = 244 \<longrightarrow> c \<le> 143)
      then Some ((b - 240) * 262144 + (c - 128) * 4096 + (d - 128) * 64 + (e - 128), 4) else None)"
| "decode4 b bs = None"

text \<open>
  \<open>utf8.DecodeRune\<close> on the byte values: the rune and its width. An invalid or truncated
  encoding is the replacement rune \<open>U+FFFD\<close> of width one.
\<close>

fun decode_rune :: "nat list \<Rightarrow> nat \<times> nat" where
  "decode_rune [] = (65533, 0)"
| "decode_rune (b # bs) =
     (if b < 128 then (b, 1)
      else case decode2 b bs of Some r \<Rightarrow> r
        | None \<Rightarrow> (case decode3 b bs of Some r \<Rightarrow> r
        | None \<Rightarrow> (case decode4 b bs of Some r \<Rightarrow> r | None \<Rightarrow> (65533, 1))))"

lemma decode2_cont: "decode2 b bs = Some (r, w) \<Longrightarrow> w = 2 \<and> (\<forall>x \<in> set (take 1 bs). 128 \<le> x)"
  by (cases "(b, bs)" rule: decode2.cases) (auto simp: cont_byte_def split: if_splits)

lemma decode3_cont: "decode3 b bs = Some (r, w) \<Longrightarrow> w = 3 \<and> (\<forall>x \<in> set (take 2 bs). 128 \<le> x)"
  by (cases "(b, bs)" rule: decode3.cases) (auto simp: cont_byte_def split: if_splits)

lemma decode4_cont: "decode4 b bs = Some (r, w) \<Longrightarrow> w = 4 \<and> (\<forall>x \<in> set (take 3 bs). 128 \<le> x)"
  by (cases "(b, bs)" rule: decode4.cases) (auto simp: cont_byte_def split: if_splits)

text \<open>A rune is an ASCII byte, or it swallows only bytes above the ASCII range.\<close>

lemma decode_rune_cases:
  assumes "decode_rune (b # bs) = (r, w)"
  shows "0 < w \<and> (b < 128 \<and> r = b \<and> w = 1 \<or> 128 \<le> b \<and> (\<forall>x \<in> set (take (w - 1) bs). 128 \<le> x))"
proof (cases "b < 128")
  case True
  with assms show ?thesis by simp
next
  case False
  with assms consider "decode2 b bs = Some (r, w)" | "decode3 b bs = Some (r, w)"
    | "decode4 b bs = Some (r, w)" | "w = 1"
    by (auto split: option.splits)
  then show ?thesis
    using False by cases (auto dest: decode2_cont decode3_cont decode4_cont)
qed

lemma decode_rune_width: "bs \<noteq> [] \<Longrightarrow> 0 < snd (decode_rune bs)"
  using decode_rune_cases by (cases bs; cases "decode_rune bs") force+

function runes_of :: "nat list \<Rightarrow> nat list" where
  "runes_of bs = (if bs = [] then [] else
     (case decode_rune bs of (r, w) \<Rightarrow> r # runes_of (drop w bs)))"
  by pat_completeness auto
termination
proof (relation "measure length")
  fix bs r w assume "bs \<noteq> []" and "(r, w) = decode_rune bs"
  then show "(drop w bs, bs) \<in> measure length"
    using decode_rune_width [of bs] by (cases "decode_rune bs") auto
qed simp

declare runes_of.simps [simp del]

text \<open>Every ASCII byte of the input is a rune of the output: only continuation bytes are swallowed.\<close>

lemma decode_rune_ascii:
  assumes "decode_rune bs = (r, w)" and "b \<in> set (take w bs)" and "b < 128"
  shows "r = b"
proof (cases bs)
  case Nil
  with assms show ?thesis by simp
next
  case (Cons c cs)
  from decode_rune_cases [OF assms(1) [unfolded Cons]] assms(2,3) Cons show ?thesis
    by (cases w) auto
qed

lemma runes_of_ascii_mem: "b \<in> set bs \<Longrightarrow> b < 128 \<Longrightarrow> b \<in> set (runes_of bs)"
proof (induction bs rule: runes_of.induct)
  case (1 bs)
  obtain r w where rw: "decode_rune bs = (r, w)" by (cases "decode_rune bs")
  have ne: "bs \<noteq> []" using "1.prems" by auto
  have "b \<in> set (take w bs) \<or> b \<in> set (drop w bs)"
    using "1.prems"(1) by (metis append_take_drop_id set_append Un_iff)
  then show ?case
  proof
    assume "b \<in> set (take w bs)"
    then have "r = b" using decode_rune_ascii [OF rw] "1.prems"(2) by simp
    then show ?thesis using ne rw by (simp add: runes_of.simps [of bs])
  next
    assume "b \<in> set (drop w bs)"
    then have "b \<in> set (runes_of (drop w bs))"
      using "1.IH" [OF ne rw [symmetric]] "1.prems"(2) by simp
    then show ?thesis using ne rw by (simp add: runes_of.simps [of bs])
  qed
qed

definition runes :: "string \<Rightarrow> nat list" where
  "runes s = runes_of (map of_char s)"

lemma runes_Nil [simp]: "runes [] = []"
  by (simp add: runes_def runes_of.simps)

lemma runes_ascii_mem: "c \<in> set s \<Longrightarrow> (of_char c :: nat) < 128 \<Longrightarrow> of_char c \<in> set (runes s)"
  by (simp add: runes_def runes_of_ascii_mem)

lemma runes_of_ascii:
  "\<forall>b \<in> set bs. b < 128 \<Longrightarrow> runes_of bs = bs"
  by (induction bs) (auto simp: runes_of.simps)

lemma runes_ascii:
  "\<forall>c \<in> set s. (of_char c :: nat) < 128 \<Longrightarrow> runes s = map of_char s"
  by (simp add: runes_def runes_of_ascii)

text \<open>\<open>string(rune(n))\<close>: the UTF-8 encoding of the code point, U+FFFD where there is none.\<close>

definition encode_rune :: "int \<Rightarrow> string" where
  "encode_rune n =
     (let r = (n + 2 ^ 31) mod 2 ^ 32 - 2 ^ 31;
          bad = (r < 0 \<or> r > 1114111 \<or> 55296 \<le> r \<and> r \<le> 57343);
          c = (if bad then 65533 else nat r)
      in map char_of
           (if c < 128 then [c]
            else if c < 2048 then [192 + c div 64, 128 + c mod 64]
            else if c < 65536 then [224 + c div 4096, 128 + c div 64 mod 64, 128 + c mod 64]
            else [240 + c div 262144, 128 + c div 4096 mod 64, 128 + c div 64 mod 64, 128 + c mod 64]))"

lemma encode_rune_ascii: "c < 128 \<Longrightarrow> encode_rune (int c) = [char_of c]"
  by (simp add: encode_rune_def Let_def)

text \<open>A string that has been through JSON: bytes that are not UTF-8 become U+FFFD.\<close>

definition json_string :: "string \<Rightarrow> string" where
  "json_string s = concat (map (\<lambda>r. encode_rune (int r)) (runes s))"

lemma json_string_ascii [simp]:
  assumes "\<forall>c \<in> set s. (of_char c :: nat) < 128"
  shows "json_string s = s"
proof -
  have "json_string s = concat (map (\<lambda>c. encode_rune (int (of_char c))) s)"
    using assms by (simp add: json_string_def runes_ascii comp_def)
  also have "\<dots> = concat (map (\<lambda>c. [c]) s)"
    using assms by (intro arg_cong [where f = concat] map_cong) (auto simp: encode_rune_ascii)
  finally show ?thesis by simp
qed

section \<open>Decimal numerals\<close>

definition digit_char :: "nat \<Rightarrow> char" where
  "digit_char d = char_of (48 + d)"

fun nat_str :: "nat \<Rightarrow> string" where
  "nat_str n = (if n < 10 then [digit_char n] else nat_str (n div 10) @ [digit_char (n mod 10)])"

declare nat_str.simps [simp del]

text \<open>The verb \<open>%d\<close>.\<close>

definition int_str :: "int \<Rightarrow> string" where
  "int_str i = (if i < 0 then CHR ''-'' # nat_str (nat (- i)) else nat_str (nat i))"

definition parse_digits :: "string \<Rightarrow> nat" where
  "parse_digits s = foldl (\<lambda>a c. a * 10 + ((of_char c :: nat) - 48)) 0 s"

lemma of_digit_char [simp]: "d < 10 \<Longrightarrow> (of_char (digit_char d) :: nat) = 48 + d"
  by (simp add: digit_char_def)

lemma parse_nat_str [simp]: "parse_digits (nat_str n) = n"
proof (induction n rule: nat_str.induct)
  case (1 n)
  then show ?case
    by (cases "n < 10") (simp_all add: nat_str.simps [of n] parse_digits_def)
qed

lemma nat_str_digits: "c \<in> set (nat_str n) \<Longrightarrow> 48 \<le> (of_char c :: nat) \<and> (of_char c :: nat) \<le> 57"
proof (induction n arbitrary: c rule: nat_str.induct)
  case (1 n)
  then show ?case
    by (cases "n < 10") (auto simp: nat_str.simps [of n])
qed

lemma nat_str_inj [simp]: "nat_str m = nat_str n \<longleftrightarrow> m = n"
  by (metis parse_nat_str)

lemma nat_str_not_minus: "CHR ''-'' \<notin> set (nat_str n)"
  using nat_str_digits [of "CHR ''-''" n] by auto

lemma nat_str_not_Nil [simp]: "nat_str n \<noteq> []"
  by (simp add: nat_str.simps [of n])

lemma int_str_inj [simp]: "int_str i = int_str j \<longleftrightarrow> i = j"
proof
  assume eq: "int_str i = int_str j"
  have hd: "CHR ''-'' # t \<noteq> nat_str n" for t n
    using nat_str_not_minus [of n] by (metis list.set_intros(1))
  show "i = j"
    using eq hd hd [THEN not_sym] by (auto simp: int_str_def split: if_splits)
qed simp

end
