(* ===== verification/GoFloat.thy ===== *)
theory GoFloat
  imports Complex_Main "HOL-Library.Log_Nat" GoStrings
begin

text \<open>
  Go's \<open>float64\<close> on the finite values that the program computes: a \<open>float64\<close> is a rational
  number, and every operation rounds its exact result to 53 significant bits, ties to even
  (\<open>f64\<close>). No computed score or budget comes near the overflow or the subnormal range, so the
  exponent is unbounded. \<open>%.0f\<close> and \<open>%.2f\<close> round the exact value to the printed decimals,
  ties to even, as \<open>strconv\<close> does.
\<close>

definition round_even :: "rat \<Rightarrow> int" where
  "round_even x =
     (let f = \<lfloor>x\<rfloor>; d = x - of_int f
      in if d < 1 / 2 then f else if 1 / 2 < d then f + 1 else if even f then f else f + 1)"

text \<open>The exponent \<open>k\<close> with \<open>2 ^ k \<le> x < 2 ^ (k + 1)\<close>, for a positive \<open>x\<close>.\<close>

definition bin_exp :: "rat \<Rightarrow> int" where
  "bin_exp x =
     (case quotient_of x of (p, q) \<Rightarrow>
        let k = bitlen p - bitlen q
        in if 2 powi k \<le> x then k else k - 1)"

definition f64_pos :: "rat \<Rightarrow> rat" where
  "f64_pos x = (let u = 2 powi (bin_exp x - 52) in of_int (round_even (x / u)) * u)"

definition f64 :: "rat \<Rightarrow> rat" where
  "f64 x = (if x = 0 then 0 else if 0 < x then f64_pos x else - f64_pos (- x))"

text \<open>Conversion \<open>int(f)\<close> truncates towards zero.\<close>

definition f64_to_int :: "rat \<Rightarrow> int" where
  "f64_to_int x = (if 0 \<le> x then \<lfloor>x\<rfloor> else - \<lfloor>- x\<rfloor>)"

definition f64_add :: "rat \<Rightarrow> rat \<Rightarrow> rat" where "f64_add x y = f64 (x + y)"
definition f64_sub :: "rat \<Rightarrow> rat \<Rightarrow> rat" where "f64_sub x y = f64 (x - y)"
definition f64_mul :: "rat \<Rightarrow> rat \<Rightarrow> rat" where "f64_mul x y = f64 (x * y)"
definition f64_div :: "rat \<Rightarrow> rat \<Rightarrow> rat" where "f64_div x y = f64 (x / y)"

section \<open>Rounding\<close>

lemma round_even_bounds: "\<lfloor>x\<rfloor> \<le> round_even x \<and> round_even x \<le> \<lfloor>x\<rfloor> + 1"
  by (simp add: round_even_def Let_def)

lemma round_even_int [simp]: "round_even (of_int n) = n"
  by (simp add: round_even_def)

lemma round_even_mono:
  assumes "x \<le> y"
  shows "round_even x \<le> round_even y"
proof (cases "\<lfloor>x\<rfloor> = \<lfloor>y\<rfloor>")
  case True
  with assms show ?thesis by (auto simp: round_even_def Let_def)
next
  case False
  with assms floor_mono [OF assms] have "\<lfloor>x\<rfloor> + 1 \<le> \<lfloor>y\<rfloor>" by linarith
  with round_even_bounds [of x] round_even_bounds [of y] show ?thesis by linarith
qed

lemma bitlen_powi:
  assumes "0 < p"
  shows "(2::rat) powi (bitlen p - 1) \<le> of_int p \<and> of_int p < (2::rat) powi (bitlen p)"
proof -
  have pos: "0 < bitlen p" using assms bitlen_nonneg [of p] bitlen_eq_zero_iff [of p] by linarith
  have b: "2 ^ nat (bitlen p - 1) \<le> p \<and> p < 2 ^ nat (bitlen p)"
    using assms by (rule bitlen_bounds)
  then have "(of_int (2 ^ nat (bitlen p - 1)) :: rat) \<le> of_int p"
    and "(of_int p :: rat) < of_int (2 ^ nat (bitlen p))"
    by (simp_all only: of_int_le_iff of_int_less_iff)
  with pos show ?thesis by (simp add: power_int_def)
qed

lemma bin_exp_bounds:
  assumes "0 < x"
  shows "2 powi (bin_exp x) \<le> x" and "x < 2 powi (bin_exp x + 1)"
proof -
  obtain p q where pq: "quotient_of x = (p, q)" by (cases "quotient_of x")
  have q: "0 < q" using pq by (rule quotient_of_denom_pos)
  have x: "x = of_int p / of_int q" using pq by (rule quotient_of_div)
  with assms q have p: "0 < p" by (simp add: zero_less_divide_iff)
  define a b where "a = bitlen p" and "b = bitlen q"
  have pb: "(2::rat) powi (a - 1) \<le> of_int p \<and> of_int p < (2::rat) powi a"
    unfolding a_def using p by (rule bitlen_powi)
  have qb: "(2::rat) powi (b - 1) \<le> of_int q \<and> of_int q < (2::rat) powi b"
    unfolding b_def using q by (rule bitlen_powi)
  have be: "bin_exp x = (if 2 powi (a - b) \<le> x then a - b else a - b - 1)"
    by (simp add: bin_exp_def pq a_def b_def Let_def)
  have "x < 2 powi a / 2 powi (b - 1)"
    unfolding x using pb qb p q by (intro frac_less) auto
  also have "\<dots> = 2 powi (a - b + 1)"
    using power_int_diff [of "2::rat" a "b - 1"] by (simp add: algebra_simps)
  finally have up: "x < 2 powi (a - b + 1)" .
  have "2 powi (a - b - 1) = 2 powi (a - 1) / (2::rat) powi b"
    using power_int_diff [of "2::rat" "a - 1" b] by (simp add: algebra_simps)
  also have "\<dots> \<le> x"
    unfolding x using pb qb p q by (intro frac_le) auto
  finally have low: "2 powi (a - b - 1) \<le> x" .
  show "2 powi (bin_exp x) \<le> x" using be low by simp
  show "x < 2 powi (bin_exp x + 1)" using be up by (auto simp: not_le)
qed

lemma bin_exp_mono:
  assumes "0 < x" and "x \<le> y"
  shows "bin_exp x \<le> bin_exp y"
proof -
  have "0 < y" using assms by linarith
  then have "(2::rat) powi (bin_exp x) < 2 powi (bin_exp y + 1)"
    using bin_exp_bounds [of x] bin_exp_bounds [of y] assms by linarith
  then have "bin_exp x < bin_exp y + 1"
    using power_int_increasing [of "bin_exp y + 1" "bin_exp x" "2::rat"] by (cases "bin_exp x < bin_exp y + 1") auto
  then show ?thesis by simp
qed

lemma bin_exp_eqI:
  assumes "2 powi k \<le> x" and "x < 2 powi (k + 1)"
  shows "bin_exp x = k"
proof -
  have "0 < x" using assms(1) zero_less_power_int [of "2::rat" k] by linarith
  note b = bin_exp_bounds [OF this]
  have "(2::rat) powi (bin_exp x) < 2 powi (k + 1)" and "(2::rat) powi k < 2 powi (bin_exp x + 1)"
    using assms b by linarith+
  then have "bin_exp x < k + 1" and "k < bin_exp x + 1"
    using power_int_increasing [of "k + 1" "bin_exp x" "2::rat"]
      power_int_increasing [of "bin_exp x + 1" k "2::rat"] by (meson leI leD one_le_numeral)+
  then show ?thesis by simp
qed

lemma round_even_near:
  assumes near: "\<bar>x - of_int n\<bar> < 1 / 2"
  shows "round_even x = n"
proof -
  define f where "f = \<lfloor>x\<rfloor>"
  have f: "of_int f \<le> x" "x < of_int f + 1" unfolding f_def by linarith+
  have lower: "x - of_int n < 1 / 2" and upper: "of_int n - x < 1 / 2" using near by linarith+
  show ?thesis
  proof (cases "x - of_int f < 1 / 2")
    case True
    have "(of_int f :: rat) < of_int (n + 1)" "(of_int n :: rat) < of_int (f + 1)"
      using f lower upper True by simp_all
    then have "f = n" by (simp only: of_int_less_iff)
    with True show ?thesis by (simp add: round_even_def Let_def flip: f_def)
  next
    case False
    have "(of_int f :: rat) < of_int n" "(of_int n :: rat) < of_int (f + 2)"
      using f lower upper False by simp_all
    then have "f + 1 = n" by (simp only: of_int_less_iff)
    moreover have "x - of_int f \<noteq> 1 / 2"
      using lower upper \<open>f + 1 = n\<close> by auto
    ultimately show ?thesis using False by (simp add: round_even_def Let_def flip: f_def)
  qed
qed

text \<open>A value within half a unit in the last place of an integer rounds to that integer.\<close>

lemma f64_near_int:
  assumes "2 powi k \<le> x" and "x < 2 powi (k + 1)" and "k \<le> 52"
    and "\<bar>x - of_int n\<bar> < 2 powi (k - 53)"
  shows "f64 x = of_int n"
proof -
  define u where "u = (2::rat) powi (k - 52)"
  have u: "0 < u" by (simp add: u_def)
  have pos: "0 < x" using assms(1) zero_less_power_int [of "2::rat" k] by linarith
  have n: "of_int n / u = of_int (n * 2 ^ nat (52 - k))"
    using assms(3) by (simp add: u_def power_int_def field_simps)
  have "2 powi (k - 53) = u / 2"
    using power_int_add [of "2::rat" "k - 53" 1] by (simp add: u_def)
  then have "\<bar>x - of_int n\<bar> / u < 1 / 2" using assms(4) u by (simp add: pos_divide_less_eq)
  then have "\<bar>x / u - of_int n / u\<bar> < 1 / 2" using u by (simp add: abs_divide flip: diff_divide_distrib)
  then have "round_even (x / u) = n * 2 ^ nat (52 - k)"
    unfolding n by (rule round_even_near)
  then have "f64_pos x = of_int n / u * u"
    by (simp only: f64_pos_def Let_def bin_exp_eqI [OF assms(1,2)] n flip: u_def)
  with u pos show ?thesis by (simp add: f64_def)
qed

text \<open>Rounding stays inside the binade, so it is monotone across binades as well.\<close>

lemma f64_pos_binade:
  assumes "0 < x"
  shows "2 powi (bin_exp x) \<le> f64_pos x" and "f64_pos x \<le> 2 powi (bin_exp x + 1)"
proof -
  define k u where "k = bin_exp x" and "u = (2::rat) powi (k - 52)"
  have u: "0 < u" by (simp add: u_def)
  have k52: "2 powi k = of_int (2 ^ 52) * u" and k53: "2 powi (k + 1) = of_int (2 ^ 53) * u"
    using power_int_add [of "2::rat" 52 "k - 52"] power_int_add [of "2::rat" 53 "k - 52"]
    by (simp_all add: u_def add.commute)
  have "of_int (2 ^ 52) \<le> x / u" and "x / u \<le> of_int (2 ^ 53)"
    using bin_exp_bounds [OF assms] u k52 k53
    by (simp_all add: k_def pos_le_divide_eq pos_divide_le_eq)
  then have "2 ^ 52 \<le> round_even (x / u)" and "round_even (x / u) \<le> 2 ^ 53"
    using round_even_mono [of "of_int (2 ^ 52)" "x / u"] round_even_mono [of "x / u" "of_int (2 ^ 53)"]
    by (simp_all only: round_even_int)
  then have "(of_int (2 ^ 52) :: rat) \<le> of_int (round_even (x / u))"
    and "(of_int (round_even (x / u)) :: rat) \<le> of_int (2 ^ 53)"
    by (simp_all only: of_int_le_iff)
  then have "of_int (2 ^ 52) * u \<le> of_int (round_even (x / u)) * u"
    and "of_int (round_even (x / u)) * u \<le> of_int (2 ^ 53) * u"
    using u by (simp_all only: mult_le_cancel_right) simp_all
  then show "2 powi (bin_exp x) \<le> f64_pos x" and "f64_pos x \<le> 2 powi (bin_exp x + 1)"
    by (simp_all add: f64_pos_def Let_def k52 k53 flip: k_def u_def)
qed

lemma f64_pos_positive: "0 < x \<Longrightarrow> 0 < f64_pos x"
  using f64_pos_binade(1) [of x] zero_less_power_int [of "2::rat" "bin_exp x"] by linarith

lemma f64_pos_mono:
  assumes "0 < x" and "x \<le> y"
  shows "f64_pos x \<le> f64_pos y"
proof (cases "bin_exp x = bin_exp y")
  case True
  define u where "u = (2::rat) powi (bin_exp x - 52)"
  have u: "0 < u" by (simp add: u_def)
  have "round_even (x / u) \<le> round_even (y / u)"
    using assms u by (intro round_even_mono divide_right_mono) auto
  then have "(of_int (round_even (x / u)) :: rat) * u \<le> of_int (round_even (y / u)) * u"
    using u by simp
  with True show ?thesis by (simp add: f64_pos_def Let_def u_def)
next
  case False
  with bin_exp_mono [OF assms] have "bin_exp x + 1 \<le> bin_exp y" by simp
  then have "(2::rat) powi (bin_exp x + 1) \<le> 2 powi (bin_exp y)"
    by (intro power_int_increasing) auto
  with f64_pos_binade(2) [OF assms(1)] f64_pos_binade(1) [of y] assms show ?thesis by linarith
qed

lemma f64_mono: "x \<le> y \<Longrightarrow> f64 x \<le> f64 y"
  using f64_pos_mono [of x y] f64_pos_mono [of "- y" "- x"]
    f64_pos_positive [of y] f64_pos_positive [of "- x"]
  by (auto simp: f64_def)

lemma f64_0 [simp]: "f64 0 = 0"
  by (simp add: f64_def)

lemma f64_minus: "f64 (- x) = - f64 x"
  by (simp add: f64_def)

lemma f64_pos_exact:
  assumes "0 < x" and "x = of_int n" and "n < 2 ^ 53"
  shows "f64_pos x = x"
proof -
  define k where "k = bin_exp x"
  have "(2::rat) powi k < 2 powi 53"
    using bin_exp_bounds(1) [OF assms(1)] assms(2,3) unfolding k_def
    by (metis of_int_less_iff of_int_numeral of_int_power order_le_less_trans power_int_numeral)
  then have k: "k \<le> 52"
    using power_int_increasing [of 53 k "2::rat"] by (cases "k \<le> 52") auto
  have "x / 2 powi (k - 52) = of_int (n * 2 ^ nat (52 - k))"
    using k assms(2) power_int_minus [of "2::rat" "52 - k"]
    by (simp add: power_int_def field_simps)
  then have "f64_pos x = x / 2 powi (k - 52) * 2 powi (k - 52)"
    by (simp only: f64_pos_def Let_def round_even_int flip: k_def)
  also have "\<dots> = x" by simp
  finally show ?thesis .
qed

lemma f64_int [simp]: "\<bar>n\<bar> < 2 ^ 53 \<Longrightarrow> f64 (of_int n) = of_int n"
proof (cases n "0::int" rule: linorder_cases)
  case less
  assume "\<bar>n\<bar> < 2 ^ 53"
  with less f64_pos_exact [of "of_int (- n)" "- n"] show ?thesis by (simp add: f64_def)
next
  case greater
  assume "\<bar>n\<bar> < 2 ^ 53"
  with greater f64_pos_exact [of "of_int n" n] show ?thesis by (simp add: f64_def)
qed simp

lemma f64_numeral [simp]: "numeral n < (2 ^ 53 :: int) \<Longrightarrow> f64 (numeral n) = numeral n"
  using f64_int [of "numeral n"] by simp

lemma f64_1 [simp]: "f64 1 = 1"
  using f64_int [of 1] by simp

lemma f64_nonneg: "0 \<le> x \<Longrightarrow> 0 \<le> f64 x"
  using f64_mono [of 0 x] by simp

lemma f64_le_int: "x \<le> of_int n \<Longrightarrow> \<bar>n\<bar> < 2 ^ 53 \<Longrightarrow> f64 x \<le> of_int n"
  using f64_mono [of x "of_int n"] by simp

lemma f64_ge_int: "of_int n \<le> x \<Longrightarrow> \<bar>n\<bar> < 2 ^ 53 \<Longrightarrow> of_int n \<le> f64 x"
  using f64_mono [of "of_int n" x] by simp

section \<open>Printing\<close>

text \<open>The verbs \<open>%.0f\<close> and \<open>%.2f\<close>.\<close>

definition pad2 :: "nat \<Rightarrow> string" where
  "pad2 n = [digit_char (n div 10 mod 10), digit_char (n mod 10)]"

definition fmt_f0 :: "rat \<Rightarrow> string" where
  "fmt_f0 x = (if x < 0 then ''-'' else []) @ nat_str (nat (round_even \<bar>x\<bar>))"

definition fmt_f2 :: "rat \<Rightarrow> string" where
  "fmt_f2 x =
     (let h = nat (round_even (\<bar>x\<bar> * 100))
      in (if x < 0 then ''-'' else []) @ nat_str (h div 100) @ ''.'' @ pad2 (h mod 100))"

lemma fmt_f0_int: "fmt_f0 (of_int n) = int_str n"
proof -
  have "round_even \<bar>of_int n\<bar> = \<bar>n\<bar>" using round_even_int [of "\<bar>n\<bar>"] by simp
  then show ?thesis by (auto simp: fmt_f0_def int_str_def)
qed

end
