(* ===== verification/GoPath.thy ===== *)
theory GoPath
  imports GoStrings
begin

text \<open>
  Go's \<open>path/filepath\<close> on a Unix system (separator \<open>/\<close>, no volume names, \<open>ToSlash\<close> the
  identity): \<open>Clean\<close>, \<open>Dir\<close>, \<open>Base\<close>, \<open>Ext\<close>, \<open>Join\<close>, \<open>IsAbs\<close>, \<open>Abs\<close> (given the working
  directory) and \<open>Rel\<close>.
\<close>

abbreviation slash :: char where
  "slash \<equiv> CHR ''/''"

text \<open>
  The element loop of \<open>Clean\<close>: \<open>out\<close> is the output so far, last element first; \<open>rooted\<close> says
  whether the path starts with a slash, so that \<open>..\<close> at the root is dropped.
\<close>

fun clean_segs :: "bool \<Rightarrow> string list \<Rightarrow> string list \<Rightarrow> string list" where
  "clean_segs rooted out [] = rev out"
| "clean_segs rooted out (s # ss) =
     (if s = [] \<or> s = ''.'' then clean_segs rooted out ss
      else if s = ''..'' then
        (case out of
           [] \<Rightarrow> clean_segs rooted (if rooted then [] else [''..'']) ss
         | q # qs \<Rightarrow> if q = ''..'' then clean_segs rooted (''..'' # out) ss
                     else clean_segs rooted qs ss)
      else clean_segs rooted (s # out) ss)"

definition path_clean :: "string \<Rightarrow> string" where
  "path_clean p =
     (let rooted = has_prefix p ''/'';
          segs = clean_segs rooted [] (split_on slash p)
      in if rooted then slash # join ''/'' segs
         else if segs = [] then ''.'' else join ''/'' segs)"

definition path_dir :: "string \<Rightarrow> string" where
  "path_dir p = path_clean (rev (dropWhile (\<lambda>c. c \<noteq> slash) (rev p)))"

definition path_base :: "string \<Rightarrow> string" where
  "path_base p =
     (if p = [] then ''.''
      else let e = rev (takeWhile (\<lambda>c. c \<noteq> slash) (dropWhile (\<lambda>c. c = slash) (rev p)))
           in if e = [] then ''/'' else e)"

definition path_ext :: "string \<Rightarrow> string" where
  "path_ext p =
     (let r = takeWhile (\<lambda>c. c \<noteq> slash) (rev p)
      in if CHR ''.'' \<in> set r then CHR ''.'' # rev (takeWhile (\<lambda>c. c \<noteq> CHR ''.'') r) else [])"

definition path_join :: "string list \<Rightarrow> string" where
  "path_join elems =
     (case dropWhile (\<lambda>e. e = []) elems of [] \<Rightarrow> [] | es \<Rightarrow> path_clean (join ''/'' es))"

definition path_is_abs :: "string \<Rightarrow> bool" where
  "path_is_abs p = has_prefix p ''/''"

definition path_abs :: "string \<Rightarrow> string \<Rightarrow> string" where
  "path_abs cwd p = (if path_is_abs p then path_clean p else path_join [cwd, p])"

text \<open>The elements of a cleaned path, and what is left of two lists after their common prefix.\<close>

definition rel_segs :: "string \<Rightarrow> string list" where
  "rel_segs p = (if p = [] \<or> p = ''/'' then [] else split_on slash (trim_prefix p ''/''))"

fun strip_common :: "'a list \<Rightarrow> 'a list \<Rightarrow> 'a list \<times> 'a list" where
  "strip_common (x # xs) (y # ys) = (if x = y then strip_common xs ys else (x # xs, y # ys))"
| "strip_common xs ys = (xs, ys)"

definition path_rel :: "string \<Rightarrow> string \<Rightarrow> string go_result" where
  "path_rel basepath targpath =
     (let b0 = path_clean basepath; targ = path_clean targpath;
          err = Inl (''Rel: can't make '' @ targpath @ '' relative to '' @ basepath)
      in if targ = b0 then Inr ''.''
         else let base = (if b0 = ''.'' then [] else b0)
         in if path_is_abs base \<noteq> path_is_abs targ then err
         else (case strip_common (rel_segs base) (rel_segs targ) of
           (bs, ts) \<Rightarrow>
             if bs \<noteq> [] \<and> ts \<noteq> [] \<and> hd bs = ''..'' then err
             else Inr (join ''/'' (replicate (length bs) ''..'' @ ts))))"

section \<open>Cleaned paths\<close>

text \<open>An element list that \<open>Clean\<close> leaves alone: names, after leading \<open>..\<close>s if not rooted.\<close>

definition is_name :: "string \<Rightarrow> bool" where
  "is_name t \<longleftrightarrow> t \<noteq> [] \<and> t \<noteq> ''.'' \<and> t \<noteq> ''..'' \<and> slash \<notin> set t"

definition clean_form :: "bool \<Rightarrow> string list \<Rightarrow> bool" where
  "clean_form rooted ss \<longleftrightarrow>
     (\<exists>n names. ss = replicate n ''..'' @ names \<and> (\<forall>t \<in> set names. is_name t) \<and> (rooted \<longrightarrow> n = 0))"

lemma clean_form_Nil [simp]: "clean_form rooted []"
  by (auto simp: clean_form_def)

lemma clean_form_names: "\<forall>t \<in> set ss. is_name t \<Longrightarrow> clean_form rooted ss"
  unfolding clean_form_def by (rule exI [of _ 0]) auto

lemma clean_form_snoc_name:
  assumes "clean_form rooted ss" and "is_name t"
  shows "clean_form rooted (ss @ [t])"
proof -
  from assms(1) obtain n names where
    "ss = replicate n ''..'' @ names" "\<forall>t \<in> set names. is_name t" "rooted \<longrightarrow> n = 0"
    unfolding clean_form_def by blast
  with assms(2) have "ss @ [t] = replicate n ''..'' @ (names @ [t])"
    and "\<forall>t \<in> set (names @ [t]). is_name t" by auto
  with \<open>rooted \<longrightarrow> n = 0\<close> show ?thesis unfolding clean_form_def by blast
qed

lemma clean_form_butlast:
  assumes "clean_form rooted (ss @ [t])"
  shows "clean_form rooted ss"
proof -
  from assms obtain n names where
    eq: "ss @ [t] = replicate n ''..'' @ names" and names: "\<forall>t \<in> set names. is_name t"
    and r: "rooted \<longrightarrow> n = 0"
    unfolding clean_form_def by blast
  show ?thesis
  proof (cases names rule: rev_cases)
    case Nil
    then obtain m where "n = Suc m" using eq by (cases n) auto
    with eq Nil have "ss = replicate m ''..'' @ []" by (simp add: replicate_append_same [symmetric])
    with r \<open>n = Suc m\<close> show ?thesis unfolding clean_form_def by fastforce
  next
    case (snoc ns u)
    with eq have "ss = replicate n ''..'' @ ns" by simp
    with names snoc r show ?thesis unfolding clean_form_def by auto
  qed
qed

lemma clean_form_last_dotdot:
  assumes "clean_form rooted (ss @ [''..''])"
  shows "\<not> rooted \<and> clean_form rooted (ss @ [''..'', ''..'']) \<and> set ss \<subseteq> {''..''}"
proof -
  from assms obtain n names where
    eq: "ss @ [''..''] = replicate n ''..'' @ names" and names: "\<forall>t \<in> set names. is_name t"
    and r: "rooted \<longrightarrow> n = 0"
    unfolding clean_form_def by blast
  have "names = []"
  proof (rule ccontr)
    assume "names \<noteq> []"
    then have "last names = ''..''" and "last names \<in> set names"
      using eq by (metis last_appendR last_snoc, simp)
    with names show False by (auto simp: is_name_def)
  qed
  with eq have ss: "ss @ [''..''] = replicate n ''..''" by simp
  then have "n \<noteq> 0" by (cases n) auto
  have "set (ss @ [''..'']) \<subseteq> {''..''}" unfolding ss by auto
  moreover have "ss @ [''..'', ''..''] = replicate (Suc n) ''..'' @ []"
  proof -
    have "ss @ [''..'', ''..''] = (ss @ [''..'']) @ [''..'']" by simp
    also have "\<dots> = replicate n ''..'' @ [''..'']" by (simp only: ss)
    finally show ?thesis by (simp add: replicate_append_same)
  qed
  moreover have "\<not> rooted" using r \<open>n \<noteq> 0\<close> by blast
  ultimately show ?thesis
    unfolding clean_form_def by (metis empty_iff empty_set set_append le_sup_iff)
qed

lemma clean_form_middle:
  assumes "clean_form rooted (xs @ s # ss)"
  shows "is_name s \<or> s = ''..'' \<and> \<not> rooted \<and> set xs \<subseteq> {''..''}"
  using assms
proof (induction ss rule: rev_induct)
  case Nil
  then obtain n names where
    eq: "xs @ [s] = replicate n ''..'' @ names" and names: "\<forall>t \<in> set names. is_name t"
    unfolding clean_form_def by blast
  show ?case
  proof (cases names rule: rev_cases)
    case Nil
    with eq have "last (xs @ [s]) = ''..''" by (cases n) (auto simp: last_replicate)
    with clean_form_last_dotdot [of rooted xs] \<open>clean_form rooted (xs @ [s])\<close> show ?thesis by simp
  next
    case (snoc ns u)
    with eq names show ?thesis by auto
  qed
next
  case (snoc t ts)
  then show ?case using clean_form_butlast [of rooted "xs @ s # ts" t] by simp
qed

lemma clean_segs_form:
  "clean_form rooted (rev out) \<Longrightarrow> \<forall>s \<in> set ss. slash \<notin> set s \<Longrightarrow>
   clean_form rooted (clean_segs rooted out ss)"
proof (induction ss arbitrary: out)
  case Nil
  then show ?case by simp
next
  case (Cons s ss)
  consider "s = [] \<or> s = ''.''" | "s = ''..''" | "is_name s"
    using Cons.prems by (auto simp: is_name_def)
  then show ?case
  proof cases
    case 1
    with Cons show ?thesis by auto
  next
    case 3
    then have "clean_form rooted (rev (s # out))" using Cons.prems by (simp add: clean_form_snoc_name)
    with 3 Cons show ?thesis by (simp add: is_name_def)
  next
    case 2
    show ?thesis
    proof (cases out)
      case Nil
      have "clean_form False [''..'']" unfolding clean_form_def by (rule exI [of _ 1]) auto
      with 2 Nil Cons show ?thesis by (cases rooted) auto
    next
      case (Cons q qs)
      show ?thesis
      proof (cases "q = ''..''")
        case True
        have "clean_form rooted (rev (''..'' # out))"
          using clean_form_last_dotdot [of rooted "rev qs"] Cons.prems Cons True
            \<open>clean_form rooted (rev out)\<close> by auto
        with 2 True Cons Cons.IH [of "''..'' # out"] \<open>\<forall>s \<in> set (s # ss). slash \<notin> set s\<close>
        show ?thesis by simp
      next
        case False
        have "clean_form rooted (rev qs)"
          using \<open>clean_form rooted (rev out)\<close> Cons clean_form_butlast [of rooted "rev qs" q] by simp
        with 2 False Cons Cons.IH [of qs] \<open>\<forall>s \<in> set (s # ss). slash \<notin> set s\<close>
        show ?thesis by simp
      qed
    qed
  qed
qed

lemma clean_segs_id:
  "clean_form rooted (rev out @ ss) \<Longrightarrow> clean_segs rooted out ss = rev out @ ss"
proof (induction ss arbitrary: out)
  case Nil
  then show ?case by simp
next
  case (Cons s ss)
  from clean_form_middle [OF Cons.prems] show ?case
  proof
    assume "is_name s"
    with Cons.IH [of "s # out"] Cons.prems show ?thesis by (simp add: is_name_def)
  next
    assume *: "s = ''..'' \<and> \<not> rooted \<and> set (rev out) \<subseteq> {''..''}"
    with Cons.IH [of "s # out"] Cons.prems show ?thesis by (cases out) auto
  qed
qed

lemma clean_form_elem: "clean_form rooted ss \<Longrightarrow> s \<in> set ss \<Longrightarrow> s \<noteq> [] \<and> slash \<notin> set s"
proof -
  assume form: "clean_form rooted ss" and s: "s \<in> set ss"
  obtain n names where ss: "ss = replicate n ''..'' @ names" and names: "\<forall>t \<in> set names. is_name t"
    using form unfolding clean_form_def by blast
  from s ss consider "s = ''..''" | "s \<in> set names" by (auto split: if_splits)
  then show ?thesis
  proof cases
    case 1
    then show ?thesis by simp
  next
    case 2
    with names have "is_name s" by blast
    then show ?thesis by (simp add: is_name_def)
  qed
qed

lemma clean_form_slash_free: "clean_form rooted ss \<Longrightarrow> \<forall>s \<in> set ss. slash \<notin> set s"
  by (simp add: clean_form_elem)

lemma join_head: "s \<noteq> [] \<Longrightarrow> join sep (s # ss) \<noteq> [] \<and> hd (join sep (s # ss)) = hd s"
  by (cases ss) auto

lemma join_slash_head:
  assumes "clean_form rooted ss" and "ss \<noteq> []"
  shows "join ''/'' ss \<noteq> [] \<and> \<not> has_prefix (join ''/'' ss) ''/''"
proof -
  obtain t ts where ss: "ss = t # ts" using assms(2) by (cases ss) auto
  then have t: "t \<noteq> []" "slash \<notin> set t" using clean_form_elem [OF assms(1)] by auto
  then have "hd t \<noteq> slash" by (cases t) auto
  with join_head [OF t(1), of "''/''" ts] ss show ?thesis
    by (cases "join ''/'' ss") auto
qed

text \<open>\<open>Clean\<close> is idempotent.\<close>

lemma path_clean_idem: "path_clean (path_clean p) = path_clean p"
proof -
  define segs where "segs = clean_segs (has_prefix p ''/'') [] (split_on slash p)"
  have form: "clean_form (has_prefix p ''/'') segs"
    unfolding segs_def by (rule clean_segs_form) (auto dest: split_on_parts)
  note free = clean_form_slash_free [OF form]
  have keep: "clean_segs (has_prefix p ''/'') [] segs = segs"
    using form clean_segs_id [of "has_prefix p ''/''" "[]"] by simp
  show ?thesis
  proof (cases "has_prefix p ''/''")
    case True
    have "clean_segs True [] (split_on slash (slash # join ''/'' segs)) = segs"
      using True keep free by (cases "segs = []") (simp_all add: split_join)
    then have "path_clean (slash # join ''/'' segs) = slash # join ''/'' segs"
      by (simp add: path_clean_def)
    with True show ?thesis by (simp add: path_clean_def segs_def)
  next
    case False
    show ?thesis
    proof (cases "segs = []")
      case True
      with False show ?thesis by (simp add: path_clean_def segs_def)
    next
      case ne: False
      with form have "\<not> has_prefix (join ''/'' segs) ''/''" by (simp add: join_slash_head)
      with False keep free ne have "path_clean (join ''/'' segs) = join ''/'' segs"
        by (simp add: path_clean_def split_join)
      with False ne show ?thesis by (simp add: path_clean_def segs_def)
    qed
  qed
qed

lemma path_clean_not_Nil [simp]: "path_clean p \<noteq> []"
proof -
  have form: "clean_form (has_prefix p ''/'') (clean_segs (has_prefix p ''/'') [] (split_on slash p))"
    by (rule clean_segs_form) (auto dest: split_on_parts)
  then show ?thesis using join_slash_head [OF form] by (auto simp: path_clean_def Let_def)
qed

end
