(* ===== verification/EngineTypes.thy ===== *)
theory EngineTypes
  imports GoFloat GoPath
begin

text \<open>
  The data model of the query engine, \<open>pkg/engine/types.go\<close>: one record per struct, fields in
  the order of the source, prefixed by the struct. Line numbers and counts are \<open>int\<close>, scores
  and confidences are \<open>float64\<close> values (\<open>rat\<close>, see \<open>GoFloat\<close>), a nil pointer is \<open>None\<close>.
\<close>

record SymBudget =
  bud_TotalLines :: int
  bud_DefinitionLines :: int
  bud_ReferenceLines :: int
  bud_CallerLines :: int
  bud_MetaLines :: int

record SymReference =
  ref_File :: string
  ref_Line :: int
  ref_Snippet :: string
  ref_Score :: rat
  ref_Reason :: string

record SymCaller =
  cal_Symbol :: string
  cal_File :: string
  cal_Line :: int
  cal_Depth :: int
  cal_Score :: rat
  cal_Reason :: string

record SymImpl =
  imp_Name :: string
  imp_File :: string
  imp_Line :: int

record SymCandidate =
  cand_Name :: string
  cand_Type :: string
  cand_File :: string
  cand_Reason :: string

record CodeSlice =
  sl_Label :: string
  sl_StartLine :: int
  sl_EndLine :: int
  sl_Reason :: string
  sl_Code :: string

record OutlineEntry =
  oe_Name :: string
  oe_Kind :: string
  oe_Line :: int
  oe_EndLine :: int
  oe_Signature :: string
  oe_Visibility :: string

record SymDefinitionRef =
  dref_File :: string
  dref_Line :: int
  dref_EndLine :: int
  dref_Type :: string

record SymDefinition =
  def_File :: string
  def_Line :: int
  def_EndLine :: int
  def_Type :: string
  def_Signature :: string
  def_Docstring :: string
  def_Body :: string
  def_Slices :: "CodeSlice list"
  def_Outline :: "OutlineEntry list"
  def_ViewStrategy :: string
  def_Language :: string

record SymMeta =
  meta_Mode :: string
  meta_SearchChain :: "string list"
  meta_Confidence :: rat
  meta_Budget :: SymBudget
  meta_RefsSource :: string
  meta_RefsShown :: int
  meta_RefsTotal :: int
  meta_Errors :: "string list"
  meta_NextHint :: string

record SymbolIntelligence =
  si_Query :: string
  si_Mode :: string
  si_Status :: string
  si_Symbol :: string
  si_Definition :: "SymDefinition option"
  si_OtherDefinitions :: "SymDefinitionRef list"
  si_Ambiguous :: "SymCandidate list"
  si_References :: "SymReference list"
  si_Callers :: "SymCaller list"
  si_Implementations :: "SymImpl list"
  si_Meta :: SymMeta

end
