(* ===== verification/EngineBudget.thy ===== *)
theory EngineBudget
  imports EngineTypes
begin

text \<open>
  \<open>pkg/engine/budget.go\<close>: the line budget of a query. \<open>ComputeBudget\<close> adds twenty lines per
  extra level of depth in Go's 64-bit \<open>int\<close>, caps the total at 240 and splits it by float64
  percentages. The lemmas show that the split is exact on every reachable total.
\<close>

definition budgetSmallTotal :: int where "budgetSmallTotal = 80"
definition budgetMediumTotal :: int where "budgetMediumTotal = 120"
definition budgetLargeTotal :: int where "budgetLargeTotal = 160"
definition budgetHardCap :: int where "budgetHardCap = 240"
definition depthBonusLines :: int where "depthBonusLines = 20"

definition allocDefinition :: rat where "allocDefinition = f64 (50 / 100)"
definition allocReferences :: rat where "allocReferences = f64 (25 / 100)"
definition allocCallers :: rat where "allocCallers = f64 (15 / 100)"

lemmas budget_consts = budgetSmallTotal_def budgetMediumTotal_def budgetLargeTotal_def
  budgetHardCap_def depthBonusLines_def

definition baseTotal :: "string \<Rightarrow> int \<Rightarrow> int" where
  "baseTotal flag depth =
     (if flag = ''small'' then budgetSmallTotal
      else if flag = ''medium'' then budgetMediumTotal
      else if flag = ''large'' then budgetLargeTotal
      else if depth > 1 then budgetMediumTotal
      else budgetSmallTotal)"

definition allocate :: "int \<Rightarrow> SymBudget" where
  "allocate tot =
     (let def = f64_to_int (f64_mul (f64 (of_int tot)) allocDefinition);
          refs = f64_to_int (f64_mul (f64 (of_int tot)) allocReferences);
          callers = f64_to_int (f64_mul (f64 (of_int tot)) allocCallers);
          meta = i64 (tot - def - refs - callers)
      in \<lparr>bud_TotalLines = tot, bud_DefinitionLines = def, bud_ReferenceLines = refs,
          bud_CallerLines = callers, bud_MetaLines = meta\<rparr>)"

definition ComputeBudget :: "string \<Rightarrow> int \<Rightarrow> SymBudget" where
  "ComputeBudget budgetFlag depth =
     (let total0 = baseTotal budgetFlag depth;
          total1 = (if depth > 1 then i64 (total0 + i64 (depthBonusLines * i64 (depth - 1))) else total0);
          total2 = (if total1 > budgetHardCap then budgetHardCap else total1)
      in allocate total2)"

section \<open>Reachable totals\<close>

lemma allocate_total [simp]: "bud_TotalLines (allocate t) = t"
  by (simp add: allocate_def Let_def)

lemma alloc_values:
  "allocDefinition = 1 / 2" "allocReferences = 1 / 4"
  "allocCallers = 5404319552844595 / 36028797018963968"
  by code_simp+

lemma f64_half: "f64_to_int (f64_mul (of_int (2 * n)) (1 / 2)) = n" if "0 \<le> n" "n < 2 ^ 53"
  using that by (simp add: f64_mul_def f64_to_int_def)

lemma f64_quarter: "f64_to_int (f64_mul (of_int (4 * n)) (1 / 4)) = n" if "0 \<le> n" "n < 2 ^ 53"
  using that by (simp add: f64_mul_def f64_to_int_def)

text \<open>
  \<open>0.15\<close> is not a binary fraction; on the reachable totals (total, share, binary exponent of the
  share) the product is within half a unit in the last place of the exact share.
\<close>

definition callers_shares :: "(int \<times> int \<times> int) list" where
  "callers_shares = [(80, 12, 3), (100, 15, 3), (120, 18, 4), (140, 21, 4), (160, 24, 4),
     (180, 27, 4), (200, 30, 4), (220, 33, 5), (240, 36, 5)]"

lemma callers_shares_near:
  assumes "(t, n, k) \<in> set callers_shares"
  shows "2 powi k \<le> of_int t * allocCallers \<and> of_int t * allocCallers < 2 powi (k + 1) \<and> k \<le> 52 \<and>
    \<bar>of_int t * allocCallers - of_int n\<bar> < 2 powi (k - 53)"
  using assms unfolding callers_shares_def alloc_values
  by (auto simp: power_int_def power_one_over)

lemma f64_callers:
  assumes "(t, n, k) \<in> set callers_shares"
  shows "f64_to_int (f64_mul (of_int t) allocCallers) = n"
proof -
  have "f64 (of_int t * allocCallers) = of_int n"
    using callers_shares_near [OF assms] by (intro f64_near_int [of k]) auto
  then show ?thesis using assms by (auto simp: f64_mul_def f64_to_int_def callers_shares_def)
qed

text \<open>The totals that a depth without overflow can reach are split exactly.\<close>

lemma allocate_reachable:
  assumes "(t, n, k) \<in> set callers_shares"
  shows "allocate t = \<lparr>bud_TotalLines = t, bud_DefinitionLines = t div 2, bud_ReferenceLines = t div 4,
           bud_CallerLines = n, bud_MetaLines = t div 10\<rparr>"
proof -
  have t: "\<bar>t\<bar> < 2 ^ 53" "0 \<le> t" "t = 2 * (t div 2)" "t = 4 * (t div 4)" "t div 2 < 2 ^ 53" "t div 4 < 2 ^ 53"
    and m: "i64 (t - t div 2 - t div 4 - n) = t div 10"
    using assms by (auto simp: callers_shares_def)
  have "f64_to_int (f64_mul (of_int t) (1 / 2)) = t div 2"
    using f64_half [of "t div 2"] t by simp
  moreover have "f64_to_int (f64_mul (of_int t) (1 / 4)) = t div 4"
    using f64_quarter [of "t div 4"] t by simp
  ultimately show ?thesis
    using t m f64_callers [OF assms] by (simp add: allocate_def Let_def alloc_values(1,2))
qed

text \<open>The total before the cap, when nothing overflows: small enough depths.\<close>

lemma ComputeBudget_total:
  assumes "depth \<le> 2 ^ 58"
  shows "ComputeBudget flag depth =
    allocate (min 240 (baseTotal flag depth + 20 * max 0 (depth - 1)))"
proof (cases "depth > 1")
  case False
  then show ?thesis by (auto simp: ComputeBudget_def baseTotal_def budget_consts)
next
  case True
  then have "i64 (depth - 1) = depth - 1" using assms by simp
  moreover have "i64 (20 * (depth - 1)) = 20 * (depth - 1)" using True assms by simp
  moreover have "80 \<le> baseTotal flag depth" "baseTotal flag depth \<le> 160"
    by (auto simp: baseTotal_def budget_consts)
  moreover from this have "i64 (baseTotal flag depth + 20 * (depth - 1)) = baseTotal flag depth + 20 * (depth - 1)"
    using True assms by simp
  ultimately show ?thesis using True by (simp add: ComputeBudget_def budget_consts)
qed

lemma reachable_total:
  assumes "depth \<le> 2 ^ 58"
  obtains t n k where "(t, n, k) \<in> set callers_shares" and "ComputeBudget flag depth = allocate t"
    and "t = min 240 (baseTotal flag depth + 20 * max 0 (depth - 1))"
proof -
  define t where "t = min 240 (baseTotal flag depth + 20 * max 0 (depth - 1))"
  have base: "baseTotal flag depth \<in> {80, 120, 160}" by (simp add: baseTotal_def budget_consts)
  have "t \<in> {80, 100, 120, 140, 160, 180, 200, 220, 240}"
  proof (cases "depth \<le> 9")
    case True
    then consider "depth \<le> 1" | "depth \<in> {2, 3, 4, 5, 6, 7, 8, 9}" by force
    then show ?thesis using base by cases (auto simp: t_def)
  next
    case False
    with base show ?thesis by (auto simp: t_def)
  qed
  then have "\<exists>n k. (t, n, k) \<in> set callers_shares" by (auto simp: callers_shares_def)
  then show ?thesis
    using that ComputeBudget_total [OF assms, of flag] t_def by metis
qed

lemma ComputeBudget_parts:
  fixes flag :: string
  assumes "depth \<le> 2 ^ 58"
  defines "b \<equiv> ComputeBudget flag depth"
  shows "80 \<le> bud_TotalLines b" "bud_TotalLines b \<le> 240"
    "2 * bud_DefinitionLines b = bud_TotalLines b" "4 * bud_ReferenceLines b = bud_TotalLines b"
    "20 * bud_CallerLines b = 3 * bud_TotalLines b" "10 * bud_MetaLines b = bud_TotalLines b"
proof -
  obtain t n k where "(t, n, k) \<in> set callers_shares" "ComputeBudget flag depth = allocate t"
    using reachable_total [OF assms(1)] by metis
  then show "80 \<le> bud_TotalLines b" "bud_TotalLines b \<le> 240"
    "2 * bud_DefinitionLines b = bud_TotalLines b" "4 * bud_ReferenceLines b = bud_TotalLines b"
    "20 * bud_CallerLines b = 3 * bud_TotalLines b" "10 * bud_MetaLines b = bud_TotalLines b"
    unfolding b_def using allocate_reachable [of t n k] by (auto simp: callers_shares_def)
qed

section \<open>Properties\<close>

text \<open>
  For every flag and every depth up to \<open>2 ^ 58\<close> the total is between 80 and 240 lines and
  the float64 percentages split it exactly: half for the definition, a quarter for the
  references, 15\% for the callers, 10\% for the metadata, with no line lost.
\<close>

theorem ComputeBudget_exact_split:
  assumes "depth \<le> 2 ^ 58"
  shows "let b = ComputeBudget flag depth; t = bud_TotalLines b
    in 80 \<le> t \<and> t \<le> 240 \<and> 2 * bud_DefinitionLines b = t \<and> 4 * bud_ReferenceLines b = t \<and>
       20 * bud_CallerLines b = 3 * t \<and> 10 * bud_MetaLines b = t"
  using ComputeBudget_parts [OF assms, of flag] by (simp add: Let_def)

theorem ComputeBudget_exact_split_witness:
  "(3::int) \<le> 2 ^ 58 \<and> bud_TotalLines (ComputeBudget ''small'' 3) = 120 \<and>
   20 * bud_CallerLines (ComputeBudget ''small'' 3) = 360"
proof -
  have h: "(3::int) \<le> 2 ^ 58" by simp
  have "bud_TotalLines (ComputeBudget ''small'' 3) = 120"
    by (simp add: ComputeBudget_total [OF h] baseTotal_def budget_consts)
  then show ?thesis using ComputeBudget_exact_split [OF h, of "''small''"] by (simp add: Let_def)
qed

text \<open>
  With the same flag a deeper query never gets a smaller section: total, definition,
  references and callers are monotone in the depth.
\<close>

theorem ComputeBudget_mono_depth:
  assumes "d \<le> e" and "e \<le> 2 ^ 58"
  shows "bud_TotalLines (ComputeBudget flag d) \<le> bud_TotalLines (ComputeBudget flag e) \<and>
    bud_DefinitionLines (ComputeBudget flag d) \<le> bud_DefinitionLines (ComputeBudget flag e) \<and>
    bud_ReferenceLines (ComputeBudget flag d) \<le> bud_ReferenceLines (ComputeBudget flag e) \<and>
    bud_CallerLines (ComputeBudget flag d) \<le> bud_CallerLines (ComputeBudget flag e)"
proof -
  have d: "d \<le> 2 ^ 58" using assms by linarith
  have "baseTotal flag d + 20 * max 0 (d - 1) \<le> baseTotal flag e + 20 * max 0 (e - 1)"
    using assms(1) by (auto simp: baseTotal_def budget_consts)
  then have "bud_TotalLines (ComputeBudget flag d) \<le> bud_TotalLines (ComputeBudget flag e)"
    using assms by (simp add: ComputeBudget_total d)
  then show ?thesis
    using ComputeBudget_parts [OF d, of flag] ComputeBudget_parts [OF assms(2), of flag] by linarith
qed

theorem ComputeBudget_mono_depth_witness:
  "(1::int) \<le> 4 \<and> bud_TotalLines (ComputeBudget ''auto'' 1) = 80 \<and>
   bud_TotalLines (ComputeBudget ''auto'' 4) = 180 \<and>
   bud_CallerLines (ComputeBudget ''auto'' 1) \<le> bud_CallerLines (ComputeBudget ''auto'' 4)"
proof -
  have "bud_TotalLines (ComputeBudget ''auto'' 1) = 80" "bud_TotalLines (ComputeBudget ''auto'' 4) = 180"
    by (simp_all add: ComputeBudget_total baseTotal_def budget_consts)
  then show ?thesis using ComputeBudget_mono_depth [of 1 4 "''auto''"] by simp
qed

text \<open>
  The cap has a hole: at depth \<open>461168601842738792\<close> the depth bonus wraps around Go's 64-bit
  \<open>int\<close>, the total is negative and the definition section gets a negative number of lines, so
  the lower bound of the exact split needs its hypothesis on the depth.
\<close>

theorem ComputeBudget_overflow:
  "bud_TotalLines (ComputeBudget ''auto'' 461168601842738792) < 0 \<and>
   bud_DefinitionLines (ComputeBudget ''auto'' 461168601842738792) < 0"
proof -
  have t: "ComputeBudget ''auto'' 461168601842738792 = allocate (- 9223372036854775676)"
    by (simp add: ComputeBudget_def baseTotal_def budget_consts i64_def)
  have "f64 (- 9223372036854775676) \<le> of_int (- (2 ^ 52))"
    by (rule f64_le_int) simp_all
  then have "f64_mul (f64 (- 9223372036854775676)) (1 / 2) \<le> of_int (- (2 ^ 51))"
    unfolding f64_mul_def by (intro f64_le_int) simp_all
  then have "f64_to_int (f64_mul (f64 (- 9223372036854775676)) (1 / 2)) < 0"
    by (simp add: f64_to_int_def)
  then show ?thesis by (simp add: t allocate_def Let_def alloc_values(1))
qed

end
