(* ===== verification/EngineRouter.thy ===== *)
theory EngineRouter
  imports EngineTypes
begin

text \<open>
  \<open>pkg/engine/router.go\<close>: the deterministic classification of a query. \<open>Classify\<close> follows the
  source's order of tests; the Unicode tables of \<open>looksLikeQualifiedName\<close> are the parameter
  \<open>U\<close>. The lemmas characterise each intent by what the trimmed query contains.
\<close>

datatype QueryIntent = IntentSymbol | IntentPath | IntentText | IntentAST

fun intent_string :: "QueryIntent \<Rightarrow> string" where
  "intent_string IntentSymbol = ''symbol''"
| "intent_string IntentPath = ''path''"
| "intent_string IntentText = ''text''"
| "intent_string IntentAST = ''ast''"

definition knownExtensions :: "string list" where
  "knownExtensions =
     [''.go'', ''.ts'', ''.tsx'', ''.js'', ''.jsx'',
      ''.py'', ''.java'', ''.rs'', ''.c'', ''.h'',
      ''.cpp'', ''.cc'', ''.hpp'', ''.rb'', ''.php'',
      ''.cs'', ''.swift'', ''.kt'', ''.scala'', ''.sh'',
      ''.sql'', ''.yaml'', ''.yml'', ''.json'', ''.toml'',
      ''.xml'', ''.html'', ''.css'', ''.md'']"

definition looksLikeQualifiedName :: "unicode_tables \<Rightarrow> string \<Rightarrow> bool" where
  "looksLikeQualifiedName U s =
     (let parts = split_on (CHR ''.'') s
      in if length parts < 2 then False
         else list_all (\<lambda>part. let p = trim_space part
                in p \<noteq> [] \<and> list_all (\<lambda>r. is_letter U r \<or> is_digit U r \<or> r = 95) (runes p)) parts)"

text \<open>The switch on \<open>--mode\<close>: a known intent is returned as it is.\<close>

definition mode_override :: "string \<Rightarrow> QueryIntent option" where
  "mode_override m =
     (if m \<noteq> [] \<and> m \<noteq> ''auto''
      then find (\<lambda>i. intent_string i = m) [IntentSymbol, IntentPath, IntentText, IntentAST]
      else None)"

definition classify_trimmed :: "unicode_tables \<Rightarrow> string \<Rightarrow> QueryIntent" where
  "classify_trimmed U trimmed =
     (if trimmed = [] then IntentText
      else if contains trimmed ''/'' then IntentPath
      else if path_ext trimmed \<noteq> [] \<and> to_lower (path_ext trimmed) \<in> set knownExtensions then IntentPath
      else if has_prefix trimmed [CHR 0x22] \<or> has_prefix trimmed [CHR 0x27] then IntentText
      else if contains_any trimmed ''{}'' then IntentAST
      else if contains trimmed '' '' \<and> \<not> looksLikeQualifiedName U trimmed then IntentText
      else IntentSymbol)"

definition Classify :: "unicode_tables \<Rightarrow> string \<Rightarrow> string \<Rightarrow> QueryIntent" where
  "Classify U query modeOverride =
     (case mode_override modeOverride of
        Some i \<Rightarrow> i
      | None \<Rightarrow> classify_trimmed U (trim_space query))"

section \<open>Facts\<close>

lemma mode_override_intent [simp]: "mode_override (intent_string i) = Some i"
  by (cases i) (simp_all add: mode_override_def)

lemma mode_override_SomeD: "mode_override m = Some i \<Longrightarrow> m = intent_string i"
  by (auto simp: mode_override_def split: if_splits)

lemma mode_override_auto [simp]: "mode_override ''auto'' = None" "mode_override [] = None"
  by (simp_all add: mode_override_def)

lemma classify_symbol_iff:
  "classify_trimmed U t = IntentSymbol \<longleftrightarrow>
     t \<noteq> [] \<and> slash \<notin> set t \<and> \<not> (path_ext t \<noteq> [] \<and> to_lower (path_ext t) \<in> set knownExtensions) \<and>
     hd t \<noteq> CHR 0x22 \<and> hd t \<noteq> CHR 0x27 \<and> CHR ''{'' \<notin> set t \<and> CHR ''}'' \<notin> set t \<and>
     (CHR '' '' \<in> set t \<longrightarrow> looksLikeQualifiedName U t)"
  by (cases t) (auto simp: classify_trimmed_def contains_singleton contains_any_def list_ex_iff)

lemma space_not_identifier: "\<not> (is_letter U 32 \<or> is_digit U 32 \<or> (32::nat) = 95)"
  by (simp add: is_letter_def is_digit_def)

lemma qualified_parts:
  assumes "looksLikeQualifiedName U t" and "part \<in> set (split_on (CHR ''.'') t)"
  shows "trim_space part \<noteq> []" and "CHR '' '' \<notin> set (trim_space part)"
proof -
  from assms have ne: "trim_space part \<noteq> []"
    and runes: "\<forall>r \<in> set (runes (trim_space part)). is_letter U r \<or> is_digit U r \<or> r = 95"
    by (auto simp: looksLikeQualifiedName_def Let_def list_all_iff split: if_splits)
  show "trim_space part \<noteq> []" by (rule ne)
  show "CHR '' '' \<notin> set (trim_space part)"
  proof
    assume "CHR '' '' \<in> set (trim_space part)"
    then have "32 \<in> set (runes (trim_space part))"
      using runes_ascii_mem [of "CHR '' ''" "trim_space part"] by simp
    with runes space_not_identifier show False by blast
  qed
qed

text \<open>Tables without any character above the ASCII range, for the examples.\<close>

definition ascii_tables :: unicode_tables where
  "ascii_tables = \<lparr>uni_letter = (\<lambda>_. False), uni_digit = (\<lambda>_. False), uni_upper = (\<lambda>_. False)\<rparr>"

section \<open>Properties\<close>

text \<open>
  The mode flag wins when it names an intent, any other flag means automatic
  classification, and the automatic classification only sees the trimmed query: surrounding
  white space never changes the route.
\<close>

theorem Classify_override_and_trim:
  "Classify U q (intent_string i) = i \<and>
   ((\<nexists>j. m = intent_string j) \<longrightarrow> Classify U q m = Classify U q ''auto'') \<and>
   Classify U (trim_space q) m = Classify U q m"
proof -
  have "Classify U q m = Classify U q ''auto''" if "\<nexists>j. m = intent_string j"
  proof -
    have "mode_override m = None" using that mode_override_SomeD by (cases "mode_override m") auto
    then show ?thesis by (simp add: Classify_def)
  qed
  then show ?thesis by (simp add: Classify_def split: option.split)
qed

theorem Classify_override_and_trim_witness:
  "(\<nexists>j. ''fuzzy'' = intent_string j) \<and>
   Classify ascii_tables ''  a/b.go '' ''fuzzy'' = Classify ascii_tables ''  a/b.go '' ''auto''"
proof -
  have "''fuzzy'' \<noteq> intent_string j" for j by (cases j) simp_all
  then show ?thesis
    using Classify_override_and_trim [of ascii_tables "''  a/b.go ''" IntentSymbol "''fuzzy''"] by blast
qed

text \<open>
  What the symbol route may rely on: an automatically classified symbol query is, after
  trimming, a non-empty string without path separators and braces that does not start with a
  quote; if it contains a space it is a dotted name whose parts are non-empty, without inner
  spaces. In particular no multi-word phrase is ever looked up as a symbol.
\<close>

theorem Classify_symbol_shape:
  assumes "Classify U q ''auto'' = IntentSymbol"
  shows "trim_space q \<noteq> [] \<and> slash \<notin> set (trim_space q) \<and>
    CHR ''{'' \<notin> set (trim_space q) \<and> CHR ''}'' \<notin> set (trim_space q) \<and>
    hd (trim_space q) \<noteq> CHR 0x22 \<and> hd (trim_space q) \<noteq> CHR 0x27 \<and>
    (CHR '' '' \<in> set (trim_space q) \<longrightarrow>
      2 \<le> length (split_on (CHR ''.'') (trim_space q)) \<and>
      (\<forall>part \<in> set (split_on (CHR ''.'') (trim_space q)).
         trim_space part \<noteq> [] \<and> CHR '' '' \<notin> set (trim_space part)))"
proof -
  from assms have "classify_trimmed U (trim_space q) = IntentSymbol"
    by (simp add: Classify_def)
  note shape = this [unfolded classify_symbol_iff]
  moreover have "2 \<le> length (split_on (CHR ''.'') t)" if "looksLikeQualifiedName U t" for t
    using that by (auto simp: looksLikeQualifiedName_def Let_def split: if_splits)
  ultimately show ?thesis using qualified_parts [of U "trim_space q"] by blast
qed

theorem Classify_symbol_shape_witness:
  "Classify ascii_tables '' auth . Login'' ''auto'' = IntentSymbol \<and>
   2 \<le> length (split_on (CHR ''.'') (trim_space '' auth . Login''))"
proof -
  have h: "Classify ascii_tables '' auth . Login'' ''auto'' = IntentSymbol" by code_simp
  have "CHR '' '' \<in> set (trim_space '' auth . Login'')" by code_simp
  then show ?thesis using h Classify_symbol_shape [OF h] by blast
qed

end
