(* ===== verification/EngineScoring.thy ===== *)
theory EngineScoring
  imports EngineTypes
begin

text \<open>
  \<open>pkg/engine/scoring.go\<close>: scores of references and callers and the truncated stable rankings.
  A Go slice that is sorted in place is a list that is returned; every addition rounds as
  float64 does. The rankings are interpretations of the \<open>stable_ranker\<close> interface.
\<close>

definition weightDirectCall :: rat where "weightDirectCall = 3"
definition weightSameFileOrPkg :: rat where "weightSameFileOrPkg = 2"
definition weightPathProximity :: rat where "weightPathProximity = 2"
definition weightDiversityBonus :: rat where "weightDiversityBonus = 1"
definition penaltyNearDuplicate :: rat where "penaltyNearDuplicate = 2"
definition duplicateThresholdFile :: nat where "duplicateThresholdFile = 2"

lemmas weights = weightDirectCall_def weightSameFileOrPkg_def weightPathProximity_def
  weightDiversityBonus_def penaltyNearDuplicate_def duplicateThresholdFile_def

definition appendReason :: "string \<Rightarrow> string \<Rightarrow> string" where
  "appendReason existing addition =
     (if existing = [] then addition else existing @ '' + '' @ addition)"

definition isTestFile :: "string \<Rightarrow> bool" where
  "isTestFile p =
     (let base = path_base p
      in has_suffix base ''_test.go'' \<or> has_suffix base ''.test.ts'' \<or>
         has_suffix base ''.test.js'' \<or> has_suffix base ''_test.py'' \<or>
         has_prefix base ''test_'' \<or> contains p ''/test/'' \<or> contains p ''/tests/'')"

definition countByFile :: "SymReference list \<Rightarrow> string \<Rightarrow> nat" where
  "countByFile refs f = length (filter (\<lambda>r. ref_File r = f) refs)"

text \<open>The loop over the path elements: how many leading elements agree.\<close>

fun shared_count :: "string list \<Rightarrow> string list \<Rightarrow> nat" where
  "shared_count (x # xs) (y # ys) = (if x \<noteq> y then 0 else Suc (shared_count xs ys))"
| "shared_count xs ys = 0"

definition pathProximityScore :: "string \<Rightarrow> string \<Rightarrow> rat" where
  "pathProximityScore file defFile =
     (let fileParts = split_on slash file;
          defParts = split_on slash defFile;
          shared = shared_count fileParts defParts
      in if shared = 0 then 0
         else f64_div (f64_mul weightPathProximity (f64 (of_nat shared))) (f64 (of_nat (length defParts))))"

definition scoreRef :: "SymReference \<Rightarrow> string \<Rightarrow> string \<Rightarrow> (string \<Rightarrow> nat) \<Rightarrow> SymReference" where
  "scoreRef ref defFile defDir fileCounts =
     (let score0 = 0; reason0 = ref_Reason ref;
          (score1, reason1) =
            (if contains (ref_Snippet ref) ''(''
             then (f64_add score0 weightDirectCall, appendReason reason0 ''direct call'')
             else (score0, reason0));
          (score2, reason2) =
            (if ref_File ref = defFile
             then (f64_add score1 weightSameFileOrPkg, appendReason reason1 ''same file'')
             else if path_dir (ref_File ref) = defDir
             then (f64_add score1 weightSameFileOrPkg, appendReason reason1 ''same package'')
             else (score1, reason1));
          score3 = f64_add score2 (pathProximityScore (ref_File ref) defFile);
          (score4, reason4) =
            (if isTestFile (ref_File ref)
             then (f64_add score3 weightDiversityBonus, appendReason reason2 ''test anchor'')
             else (score3, reason2));
          score5 =
            (if fileCounts (ref_File ref) > duplicateThresholdFile
             then f64_sub score4 penaltyNearDuplicate else score4)
      in ref\<lparr>ref_Score := score5, ref_Reason := reason4\<rparr>)"

definition scoreCaller :: "SymCaller \<Rightarrow> string \<Rightarrow> string \<Rightarrow> rat" where
  "scoreCaller caller defFile defDir =
     (let score0 = weightDirectCall;
          score1 =
            (if cal_File caller = defFile then f64_add score0 weightSameFileOrPkg
             else if path_dir (cal_File caller) = defDir then f64_add score0 weightSameFileOrPkg
             else score0);
          score2 = f64_add score1 (pathProximityScore (cal_File caller) defFile)
      in if cal_Depth caller \<le> 1 then f64_add score2 weightDiversityBonus else score2)"

definition ScoreReferences :: "SymReference list \<Rightarrow> string \<Rightarrow> int \<Rightarrow> SymReference list" where
  "ScoreReferences refs defFile maxItems =
     (if refs = [] then refs
      else let defDir = path_dir defFile;
               fileCounts = countByFile refs;
               scored = map (\<lambda>r. scoreRef r defFile defDir fileCounts) refs;
               ranked = stable_desc ref_Score scored
           in if maxItems > 0 \<and> int (length ranked) > maxItems
              then take (nat maxItems) ranked else ranked)"

definition ScoreCallers :: "SymCaller list \<Rightarrow> string \<Rightarrow> int \<Rightarrow> SymCaller list" where
  "ScoreCallers callers defFile maxItems =
     (if callers = [] then callers
      else let defDir = path_dir defFile;
               scored = map (\<lambda>c. c\<lparr>cal_Score := scoreCaller c defFile defDir\<rparr>) callers;
               ranked = stable_desc cal_Score scored
           in if maxItems > 0 \<and> int (length ranked) > maxItems
              then take (nat maxItems) ranked else ranked)"

interpretation ref_ranker: stable_ranker ref_Score "stable_desc ref_Score"
  by (rule stable_desc_ranker)

interpretation caller_ranker: stable_ranker cal_Score "stable_desc cal_Score"
  by (rule stable_desc_ranker)

section \<open>Path proximity\<close>

lemma shared_count_le: "shared_count xs ys \<le> length xs" "shared_count xs ys \<le> length ys"
  by (induction xs ys rule: shared_count.induct) auto

lemma shared_count_prefix: "take (shared_count xs ys) xs = take (shared_count xs ys) ys"
  by (induction xs ys rule: shared_count.induct) auto

lemma shared_count_full: "shared_count xs ys = length ys \<longleftrightarrow> has_prefix xs ys"
  by (induction xs ys rule: shared_count.induct) auto

lemma shared_count_mono:
  "has_prefix xs ps \<Longrightarrow> has_prefix ys ps \<Longrightarrow> length ps \<le> shared_count xs ys"
proof (induction ps arbitrary: xs ys)
  case Nil
  then show ?case by simp
next
  case (Cons p ps)
  then show ?case by (cases xs; cases ys) auto
qed

lemma pathProximity_nonneg: "0 \<le> pathProximityScore file defFile"
  by (simp add: pathProximityScore_def Let_def f64_div_def f64_mul_def weights f64_nonneg)

lemma pathProximity_le:
  assumes "length (split_on slash defFile) < 2 ^ 52"
  shows "pathProximityScore file defFile \<le> 2"
proof -
  define s d where "s = shared_count (split_on slash file) (split_on slash defFile)"
    and "d = length (split_on slash defFile)"
  have sd: "s \<le> d" "d < 2 ^ 52" "0 < d"
    using assms shared_count_le by (simp_all add: s_def d_def)
  then have "int d < 2 ^ 53" "int s < 2 ^ 53" "int (2 * s) < 2 ^ 53" by simp_all
  then have f: "f64 (of_nat d) = of_nat d" "f64 (of_nat s) = of_nat s" "f64 (2 * of_nat s) = 2 * of_nat s"
    using f64_int [of "int d"] f64_int [of "int s"] f64_int [of "int (2 * s)"] by simp_all
  have "f64 (2 * of_nat s / of_nat d) \<le> of_int 2"
    using sd by (intro f64_le_int) (simp_all add: pos_divide_le_eq)
  then show ?thesis
    by (simp add: pathProximityScore_def Let_def f64_div_def f64_mul_def weights f flip: s_def d_def)
qed

section \<open>Bounds of the scores\<close>

lemma f64_add_bounds:
  assumes "of_int a \<le> x" "x \<le> of_int b" "of_int c \<le> y" "y \<le> of_int d"
    and "\<bar>a + c\<bar> < 2 ^ 53" "\<bar>b + d\<bar> < 2 ^ 53"
  shows "of_int (a + c) \<le> f64_add x y \<and> f64_add x y \<le> of_int (b + d)"
  unfolding f64_add_def using assms by (intro conjI f64_ge_int f64_le_int) simp_all

lemma f64_add_ints [simp]: "\<bar>a + b\<bar> < 2 ^ 53 \<Longrightarrow> f64_add (of_int a) (of_int b) = of_int (a + b)"
  unfolding f64_add_def by (simp flip: of_int_add)

lemma f64_add_small [simp]: "f64_add 0 3 = 3" "f64_add 0 2 = 2" "f64_add 3 2 = 5" "f64_add 0 1 = 1"
  by (simp_all add: f64_add_def)

text \<open>The part of a reference's score before and after the near-duplicate penalty.\<close>

lemma scoreRef_bounds:
  assumes "length (split_on slash defFile) < 2 ^ 52"
  shows "- 2 \<le> ref_Score (scoreRef r defFile defDir counts)"
    and "ref_Score (scoreRef r defFile defDir counts) \<le> 8"
proof -
  let ?p = "pathProximityScore (ref_File r) defFile"
  have p: "of_int 0 \<le> ?p" "?p \<le> of_int 2"
    using pathProximity_nonneg pathProximity_le [OF assms] by simp_all
  have three: "0 \<le> f64_add x ?p \<and> f64_add x ?p \<le> 7" if "x \<in> {0, 2, 3, 5}" for x :: rat
    using f64_add_bounds [of 0 x 5 0 ?p 2] p that by auto
  have four: "0 \<le> f64_add y 1 \<and> f64_add y 1 \<le> 8" if "0 \<le> y" "y \<le> 7" for y :: rat
    using f64_add_bounds [of 0 y 7 0 1 1] that by simp
  have five: "- 2 \<le> f64_sub z 2 \<and> f64_sub z 2 \<le> 8" if "0 \<le> z" "z \<le> 8" for z :: rat
    using f64_ge_int [of "- 2" "z - 2"] f64_le_int [of "z - 2" 8] that by (simp add: f64_sub_def)
  define a where "a = (if contains (ref_Snippet r) ''('' then 3 else 0 :: rat)"
  define b where "b = (if ref_File r = defFile \<or> path_dir (ref_File r) = defDir then f64_add a 2 else a)"
  define c where "c = (if isTestFile (ref_File r) then f64_add (f64_add b ?p) 1 else f64_add b ?p)"
  have "b \<in> {0, 2, 3, 5}" by (auto simp: a_def b_def)
  then have "0 \<le> c \<and> c \<le> 8" using three [of b] four [of "f64_add b ?p"] by (auto simp: c_def)
  moreover have "ref_Score (scoreRef r defFile defDir counts) =
      (if counts (ref_File r) > 2 then f64_sub c 2 else c)"
    by (simp add: scoreRef_def a_def b_def c_def weights Let_def)
  ultimately show "- 2 \<le> ref_Score (scoreRef r defFile defDir counts)"
    and "ref_Score (scoreRef r defFile defDir counts) \<le> 8"
    using five [of c] by auto
qed

lemma scoreCaller_bounds:
  assumes "length (split_on slash defFile) < 2 ^ 52"
  shows "3 \<le> scoreCaller c defFile defDir" and "scoreCaller c defFile defDir \<le> 8"
proof -
  let ?p = "pathProximityScore (cal_File c) defFile"
  have p: "of_int 0 \<le> ?p" "?p \<le> of_int 2"
    using pathProximity_nonneg pathProximity_le [OF assms] by simp_all
  define b where "b = (if cal_File c = defFile \<or> path_dir (cal_File c) = defDir then 5 else 3 :: rat)"
  have "of_int 3 \<le> b \<and> b \<le> of_int 5" by (simp add: b_def)
  then have "3 \<le> f64_add b ?p \<and> f64_add b ?p \<le> 7"
    using f64_add_bounds [of 3 b 5 0 ?p 2] p by simp
  moreover from this have "4 \<le> f64_add (f64_add b ?p) 1 \<and> f64_add (f64_add b ?p) 1 \<le> 8"
    using f64_add_bounds [of 3 "f64_add b ?p" 7 1 1 1] by simp
  moreover have "scoreCaller c defFile defDir =
      (if cal_Depth c \<le> 1 then f64_add (f64_add b ?p) 1 else f64_add b ?p)"
    by (simp add: scoreCaller_def b_def weights Let_def)
  ultimately show "3 \<le> scoreCaller c defFile defDir" and "scoreCaller c defFile defDir \<le> 8"
    by auto
qed

section \<open>The truncated rankings\<close>

lemma ScoreReferences_alt:
  "ScoreReferences refs defFile m =
     (let ranked = stable_desc ref_Score
        (map (\<lambda>r. scoreRef r defFile (path_dir defFile) (countByFile refs)) refs)
      in take (if m > 0 then nat m else length refs) ranked)"
  by (auto simp: ScoreReferences_def Let_def ref_ranker.rank_length stable_desc_def)

lemma ScoreCallers_alt:
  "ScoreCallers cs defFile m =
     (let ranked = stable_desc cal_Score
        (map (\<lambda>c. c\<lparr>cal_Score := scoreCaller c defFile (path_dir defFile)\<rparr>) cs)
      in take (if m > 0 then nat m else length cs) ranked)"
  by (auto simp: ScoreCallers_def Let_def caller_ranker.rank_length stable_desc_def)

lemma ScoreReferences_length:
  "length (ScoreReferences refs defFile m) = (if m > 0 then min (nat m) (length refs) else length refs)"
  by (simp add: ScoreReferences_alt Let_def ref_ranker.rank_length min.commute)

lemma ScoreCallers_length:
  "length (ScoreCallers cs defFile m) = (if m > 0 then min (nat m) (length cs) else length cs)"
  by (simp add: ScoreCallers_alt Let_def caller_ranker.rank_length min.commute)

lemma scoreRef_keeps [simp]:
  "ref_File (scoreRef r f d c) = ref_File r" "ref_Line (scoreRef r f d c) = ref_Line r"
  "ref_Snippet (scoreRef r f d c) = ref_Snippet r"
  by (simp_all add: scoreRef_def Let_def split: prod.splits)

lemma ScoreReferences_files:
  "r \<in> set (ScoreReferences refs defFile m) \<Longrightarrow> ref_File r \<in> ref_File ` set refs"
  by (auto simp: ScoreReferences_alt Let_def ref_ranker.rank_set dest!: in_set_takeD)

section \<open>Properties\<close>

text \<open>
  \<open>ScoreReferences\<close> is a top-k selection: with the dropped references appended, the
  result is the stable descending arrangement of all scored references, so it is sorted by
  score, nothing dropped beats anything kept, ties keep their input order, and the length is
  the limit when there is one.
\<close>

theorem ScoreReferences_top_k:
  "\<exists>dropped. let out = ScoreReferences refs defFile m;
         scored = map (\<lambda>r. scoreRef r defFile (path_dir defFile) (countByFile refs)) refs
     in mset (out @ dropped) = mset scored \<and>
        sorted_wrt (\<lambda>a b. ref_Score b \<le> ref_Score a) (out @ dropped) \<and>
        (\<forall>k. filter (\<lambda>r. ref_Score r = k) (out @ dropped) = filter (\<lambda>r. ref_Score r = k) scored) \<and>
        length out = (if m > 0 then min (nat m) (length refs) else length refs)"
proof -
  define scored where
    "scored = map (\<lambda>r. scoreRef r defFile (path_dir defFile) (countByFile refs)) refs"
  define n where "n = (if m > 0 then nat m else length refs)"
  have "ScoreReferences refs defFile m @ drop n (stable_desc ref_Score scored) =
      stable_desc ref_Score scored"
    by (simp add: ScoreReferences_alt Let_def n_def scored_def)
  then show ?thesis
    using ref_ranker.rank_perm [of scored] ref_ranker.rank_desc [of scored]
      ref_ranker.rank_stable [of _ scored] ScoreReferences_length [of refs defFile m]
    unfolding Let_def scored_def [symmetric] by metis
qed

text \<open>The same contract for \<open>ScoreCallers\<close>, which rewrites the score and nothing else.\<close>

theorem ScoreCallers_top_k:
  "\<exists>dropped. let out = ScoreCallers cs defFile m;
         scored = map (\<lambda>c. c\<lparr>cal_Score := scoreCaller c defFile (path_dir defFile)\<rparr>) cs
     in mset (out @ dropped) = mset scored \<and>
        sorted_wrt (\<lambda>a b. cal_Score b \<le> cal_Score a) (out @ dropped) \<and>
        (\<forall>k. filter (\<lambda>c. cal_Score c = k) (out @ dropped) = filter (\<lambda>c. cal_Score c = k) scored) \<and>
        length out = (if m > 0 then min (nat m) (length cs) else length cs)"
proof -
  define scored where
    "scored = map (\<lambda>c. c\<lparr>cal_Score := scoreCaller c defFile (path_dir defFile)\<rparr>) cs"
  define n where "n = (if m > 0 then nat m else length cs)"
  have "ScoreCallers cs defFile m @ drop n (stable_desc cal_Score scored) =
      stable_desc cal_Score scored"
    by (simp add: ScoreCallers_alt Let_def n_def scored_def)
  then show ?thesis
    using caller_ranker.rank_perm [of scored] caller_ranker.rank_desc [of scored]
      caller_ranker.rank_stable [of _ scored] ScoreCallers_length [of cs defFile m]
    unfolding Let_def scored_def [symmetric] by metis
qed

text \<open>
  Every score of a returned reference is between -2 and 8 and every score of a returned
  caller is between 3 and 8, float64 rounding included: the proximity term never exceeds its
  weight.
\<close>

theorem scores_bounded:
  assumes "length (split_on slash defFile) < 2 ^ 52"
  shows "(\<forall>r \<in> set (ScoreReferences refs defFile m). - 2 \<le> ref_Score r \<and> ref_Score r \<le> 8) \<and>
    (\<forall>c \<in> set (ScoreCallers cs defFile m). 3 \<le> cal_Score c \<and> cal_Score c \<le> 8)"
  using scoreRef_bounds [OF assms] scoreCaller_bounds [OF assms]
  by (auto simp: ScoreReferences_alt ScoreCallers_alt Let_def ref_ranker.rank_set
        caller_ranker.rank_set dest!: in_set_takeD)

theorem scores_bounded_witness:
  "length (split_on slash ''pkg/a.go'') < 2 ^ 52 \<and>
   list_all (\<lambda>c. 3 \<le> cal_Score c \<and> cal_Score c \<le> 8)
     (ScoreCallers [\<lparr>cal_Symbol = ''F'', cal_File = ''pkg/b.go'', cal_Line = 3, cal_Depth = 1,
        cal_Score = 0, cal_Reason = []\<rparr>] ''pkg/a.go'' 5)"
proof -
  have h: "length (split_on slash ''pkg/a.go'') < 2 ^ 52" by simp
  then show ?thesis unfolding list_all_iff using scores_bounded [OF h] by blast
qed

end
