(* ===== verification/TreeSitter.thy ===== *)
theory TreeSitter
  imports GoStrings
begin

text \<open>
  What the program reads of a tree-sitter syntax tree. The parser is third-party code: it is a
  parameter of every definition that parses, of type \<open>ts_parser\<close>, with \<open>None\<close> for a failed
  \<open>SetLanguage\<close> or a nil tree. The tree it returns is a value of \<open>ts_node\<close>: the kind, the byte
  range, the start and end rows, whether the node is named, the field of its parent it stands
  in, and its children in order. \<open>NamedChild(i)\<close> is the \<open>i\<close>-th named child,
  \<open>ChildByFieldName\<close> the first child in that field. A nil child never occurs in such a tree.
  \<open>ts_wf\<close> states the documented shape of the trees: ranges are ordered, inside the source and
  inside the parent's.
\<close>

datatype ts_node =
  TsNode (ts_kind: string) (ts_start: nat) (ts_end: nat) (ts_row: nat) (ts_erow: nat)
    (ts_named: bool) (ts_field: "string option") (ts_children: "ts_node list")

datatype ts_lang = LangGo | LangTypescript | LangJavascript | LangPython | LangJava | LangRust
  | LangCPP | LangHTML | LangXML

type_synonym ts_parser = "ts_lang \<Rightarrow> string \<Rightarrow> ts_node option"

definition named_children :: "ts_node \<Rightarrow> ts_node list" where
  "named_children n = filter ts_named (ts_children n)"

definition child_by_field :: "ts_node \<Rightarrow> string \<Rightarrow> ts_node option" where
  "child_by_field n f = find (\<lambda>c. ts_field c = Some f) (ts_children n)"

text \<open>\<open>string(source[n.StartByte():n.EndByte()])\<close> and the one-based rows.\<close>

definition node_text :: "string \<Rightarrow> ts_node \<Rightarrow> string" where
  "node_text source n = slice source (ts_start n) (ts_end n)"

definition start_line :: "ts_node \<Rightarrow> int" where
  "start_line n = int (ts_row n) + 1"

definition end_line :: "ts_node \<Rightarrow> int" where
  "end_line n = int (ts_erow n) + 1"

fun ts_wf :: "string \<Rightarrow> ts_node \<Rightarrow> bool" where
  "ts_wf src (TsNode k sb eb sr er nm f cs) =
     (sb \<le> eb \<and> eb \<le> length src \<and> sr \<le> er \<and> er \<le> count_byte newline src \<and>
      list_all (\<lambda>c. sb \<le> ts_start c \<and> ts_end c \<le> eb \<and> sr \<le> ts_row c \<and> ts_erow c \<le> er \<and> ts_wf src c) cs)"

lemma ts_wf_child:
  "ts_wf src n \<Longrightarrow> c \<in> set (ts_children n) \<Longrightarrow>
   ts_wf src c \<and> ts_row n \<le> ts_row c \<and> ts_erow c \<le> ts_erow n"
  by (cases n) (auto simp: list_all_iff)

lemma ts_wf_rows: "ts_wf src n \<Longrightarrow> ts_row n \<le> ts_erow n \<and> ts_erow n \<le> count_byte newline src"
  by (cases n) auto

lemma ts_wf_lines:
  "ts_wf src n \<Longrightarrow> 1 \<le> start_line n \<and> start_line n \<le> end_line n \<and>
     end_line n \<le> int (length (split_on newline src))"
  using ts_wf_rows [of src n] by (simp add: start_line_def end_line_def length_split_on)

lemma ts_wf_text: "ts_wf src n \<Longrightarrow> length (node_text src n) = ts_end n - ts_start n"
  by (cases n) (simp add: node_text_def)

lemma ts_child_size: "c \<in> set (ts_children n) \<Longrightarrow> size c < size n"
  by (cases n) (auto dest: size_list_estimation' [where f = size and y = "size c"] split: option.splits)

lemma named_children_subset: "set (named_children n) \<subseteq> set (ts_children n)"
  by (auto simp: named_children_def)

lemma child_by_field_mem: "child_by_field n f = Some c \<Longrightarrow> c \<in> set (ts_children n)"
  by (auto simp: child_by_field_def find_Some_iff)

text \<open>A Python class with one method, as tree-sitter reports it.\<close>

definition demo_class :: string where
  "demo_class = ''class A:'' @ [newline] @ ''  def f(self):'' @ [newline] @ ''    pass''"

definition demo_class_tree :: ts_node where
  "demo_class_tree =
     TsNode ''module'' 0 32 0 2 True None
       [TsNode ''class_definition'' 0 32 0 2 True None
          [TsNode ''class'' 0 5 0 0 False None [],
           TsNode ''identifier'' 6 7 0 0 True (Some ''name'') [],
           TsNode ''block'' 11 32 1 2 True (Some ''body'')
             [TsNode ''function_definition'' 11 32 1 2 True None
                [TsNode ''identifier'' 15 16 1 1 True (Some ''name'') []]]]]"

lemma demo_class_wf: "ts_wf demo_class demo_class_tree"
  by code_simp

end
