(* ===== verification/CodeSplitter.thy ===== *)
theory CodeSplitter
  imports TreeSitter
begin

text \<open>
  \<open>pkg/splitter\<close>: the line-based fallback splitter and the tree-sitter splitter that cut source
  files into chunks for the index. Both return their chunks with a nil error on every path, so
  the models return the list of chunks. The parser is the parameter \<open>P\<close>. The lemmas show that a
  chunk is exactly the lines it claims, that no chunk is longer than its limit of lines, and
  that the fallback loses no non-blank line.
\<close>

record Chunk =
  ch_Content :: string
  ch_FilePath :: string
  ch_StartLine :: int
  ch_EndLine :: int
  ch_Language :: string
  ch_NodeType :: string

section \<open>The fallback splitter\<close>

record FallbackSplitter =
  fs_chunkSize :: int
  fs_overlap :: int

definition NewFallbackSplitter :: "int \<Rightarrow> int \<Rightarrow> FallbackSplitter" where
  "NewFallbackSplitter chunkSize0 overlap0 =
     (let chunkSize = (if chunkSize0 \<le> 0 then 80 else chunkSize0);
          overlap1 = (if overlap0 < 0 then 0 else overlap0);
          overlap = (if overlap1 \<ge> chunkSize then go_quot chunkSize 4 else overlap1)
      in \<lparr>fs_chunkSize = chunkSize, fs_overlap = overlap\<rparr>)"

definition fallback_step :: "FallbackSplitter \<Rightarrow> nat" where
  "fallback_step f =
     (let step = fs_chunkSize f - fs_overlap f in if step \<le> 0 then 1 else nat step)"

lemma fallback_step_pos: "0 < fallback_step f"
  by (simp add: fallback_step_def Let_def)

text \<open>The loop from line index \<open>i\<close> on; a blank window is skipped, the last window ends the loop.\<close>

function fallback_loop :: "FallbackSplitter \<Rightarrow> string list \<Rightarrow> string \<Rightarrow> string \<Rightarrow> nat \<Rightarrow> Chunk list" where
  "fallback_loop f lines language filePath i =
     (if i < length lines then
        (let e = min (i + nat (fs_chunkSize f)) (length lines);
             content = join [newline] (slice lines i e)
         in if trim_space content = []
            then fallback_loop f lines language filePath (i + fallback_step f)
            else \<lparr>ch_Content = content, ch_FilePath = filePath, ch_StartLine = int i + 1,
                   ch_EndLine = int e, ch_Language = language, ch_NodeType = ''block''\<rparr> #
                 (if e \<ge> length lines then []
                  else fallback_loop f lines language filePath (i + fallback_step f)))
      else [])"
  by pat_completeness auto
termination
  by (relation "measure (\<lambda>(f, lines, language, filePath, i). length lines - i)")
     (use fallback_step_pos in \<open>auto simp: diff_less_mono2\<close>)

declare fallback_loop.simps [simp del]

definition fallback_Split :: "FallbackSplitter \<Rightarrow> string \<Rightarrow> string \<Rightarrow> string \<Rightarrow> Chunk list" where
  "fallback_Split f code language filePath =
     (let lines = split_on newline code
      in if lines = [] then [] else fallback_loop f lines language filePath 0)"

section \<open>The tree-sitter splitter\<close>

definition maxChunkLines :: int where "maxChunkLines = 200"
definition defaultMaxChunkChars :: int where "defaultMaxChunkChars = 16000"

record TreeSitterSplitter =
  tss_fallback :: FallbackSplitter
  tss_maxChunkChars :: int

definition WithMaxChunkChars :: "int \<Rightarrow> TreeSitterSplitter \<Rightarrow> TreeSitterSplitter" where
  "WithMaxChunkChars n s = s\<lparr>tss_maxChunkChars := n\<rparr>"

definition NewTreeSitterSplitter :: "(TreeSitterSplitter \<Rightarrow> TreeSitterSplitter) list \<Rightarrow> TreeSitterSplitter" where
  "NewTreeSitterSplitter opts =
     fold (\<lambda>opt s. opt s) opts
       \<lparr>tss_fallback = NewFallbackSplitter 80 10, tss_maxChunkChars = defaultMaxChunkChars\<rparr>"

definition getLanguage :: "string \<Rightarrow> ts_lang option" where
  "getLanguage lang =
     (let l = to_lower lang
      in if l = ''go'' then Some LangGo
         else if l \<in> set [''typescript'', ''tsx''] then Some LangTypescript
         else if l \<in> set [''javascript'', ''jsx''] then Some LangJavascript
         else if l = ''python'' then Some LangPython
         else if l = ''java'' then Some LangJava
         else if l = ''rust'' then Some LangRust
         else if l \<in> set [''c'', ''cpp'', ''c++'', ''cc'', ''cxx''] then Some LangCPP
         else None)"

definition GetLanguage :: "string \<Rightarrow> ts_lang option" where
  "GetLanguage lang = getLanguage lang"

definition nodeTypesForLanguage :: "string \<Rightarrow> string \<Rightarrow> string option" where
  "nodeTypesForLanguage lang =
     (let l = to_lower lang
      in if l = ''go'' then map_of
           [(''function_declaration'', ''function''), (''method_declaration'', ''method''),
            (''type_declaration'', ''type''), (''type_spec'', ''type'')]
         else if l \<in> set [''typescript'', ''tsx'', ''javascript'', ''jsx''] then map_of
           [(''function_declaration'', ''function''), (''method_definition'', ''method''),
            (''class_declaration'', ''class''), (''interface_declaration'', ''interface''),
            (''arrow_function'', ''function''), (''export_statement'', ''export''),
            (''lexical_declaration'', ''declaration''), (''type_alias_declaration'', ''type''),
            (''enum_declaration'', ''enum''), (''abstract_class_declaration'', ''class'')]
         else if l = ''python'' then map_of
           [(''function_definition'', ''function''), (''class_definition'', ''class''),
            (''decorated_definition'', ''decorated''), (''async_function_definition'', ''function'')]
         else if l = ''java'' then map_of
           [(''method_declaration'', ''method''), (''class_declaration'', ''class''),
            (''interface_declaration'', ''interface''), (''enum_declaration'', ''enum''),
            (''constructor_declaration'', ''constructor'')]
         else if l = ''rust'' then map_of
           [(''function_item'', ''function''), (''impl_item'', ''impl''), (''struct_item'', ''struct''),
            (''enum_item'', ''enum''), (''trait_item'', ''trait''), (''mod_item'', ''module''),
            (''type_item'', ''type'')]
         else if l \<in> set [''c'', ''cpp'', ''c++'', ''cc'', ''cxx''] then map_of
           [(''function_definition'', ''function''), (''class_specifier'', ''class''),
            (''struct_specifier'', ''struct''), (''enum_specifier'', ''enum''),
            (''namespace_definition'', ''namespace''), (''template_declaration'', ''template'')]
         else Map.empty)"

definition LanguageFromExtension :: "string \<Rightarrow> string" where
  "LanguageFromExtension ext =
     (case map_of
        [(''.go'', ''go''), (''.ts'', ''typescript''), (''.tsx'', ''tsx''), (''.js'', ''javascript''),
         (''.jsx'', ''jsx''), (''.py'', ''python''), (''.java'', ''java''), (''.rs'', ''rust''),
         (''.c'', ''c''), (''.h'', ''c''), (''.cpp'', ''cpp''), (''.cc'', ''cpp''), (''.cxx'', ''cpp''),
         (''.hpp'', ''cpp''), (''.hxx'', ''cpp''), (''.rb'', ''ruby''), (''.php'', ''php''),
         (''.cs'', ''csharp''), (''.swift'', ''swift''), (''.kt'', ''kotlin''), (''.kts'', ''kotlin''),
         (''.scala'', ''scala''), (''.sh'', ''shell''), (''.bash'', ''shell''), (''.yaml'', ''yaml''),
         (''.yml'', ''yaml''), (''.json'', ''json''), (''.md'', ''markdown''), (''.sql'', ''sql'')]
        (to_lower ext) of None \<Rightarrow> [] | Some l \<Rightarrow> l)"

text \<open>
  \<open>extractLines\<close> clamps to the file. Go panics on \<open>start - 1 > end\<close>; no node of a well-formed tree
  gets there (\<open>walkNode_exact\<close>).
\<close>

definition extractLines :: "string list \<Rightarrow> int \<Rightarrow> int \<Rightarrow> string" where
  "extractLines lines start0 end0 =
     (let start = (if start0 < 1 then 1 else start0);
          last = (if end0 > int (length lines) then int (length lines) else end0)
      in join [newline] (slice lines (nat (start - 1)) (nat last)))"

fun walkNode :: "string list \<Rightarrow> string \<Rightarrow> string \<Rightarrow> (string \<Rightarrow> string option) \<Rightarrow> ts_node \<Rightarrow> Chunk list" where
  "walkNode lines filePath language nodeTypes (TsNode k sb eb sr er nm f cs) =
     (case nodeTypes k of
        Some label \<Rightarrow>
          [\<lparr>ch_Content = extractLines lines (int sr + 1) (int er + 1), ch_FilePath = filePath,
            ch_StartLine = int sr + 1, ch_EndLine = int er + 1,
            ch_Language = language, ch_NodeType = label\<rparr>]
      | None \<Rightarrow> concat (map (walkNode lines filePath language nodeTypes) cs))"

text \<open>The second loop of \<open>Split\<close>: an oversized chunk is cut by the fallback, lines shifted.\<close>

definition resplit :: "TreeSitterSplitter \<Rightarrow> string \<Rightarrow> string \<Rightarrow> Chunk \<Rightarrow> Chunk list" where
  "resplit t language filePath chunk =
     (let lineCount = ch_EndLine chunk - ch_StartLine chunk + 1
      in if lineCount > maxChunkLines \<or> int (length (ch_Content chunk)) > tss_maxChunkChars t
         then map (\<lambda>s. s\<lparr>ch_StartLine := ch_StartLine s + (ch_StartLine chunk - 1),
                         ch_EndLine := ch_EndLine s + (ch_StartLine chunk - 1),
                         ch_NodeType := ch_NodeType chunk\<rparr>)
                (fallback_Split (tss_fallback t) (ch_Content chunk) language filePath)
         else [chunk])"

definition treesitter_Split :: "ts_parser \<Rightarrow> TreeSitterSplitter \<Rightarrow> string \<Rightarrow> string \<Rightarrow> string \<Rightarrow> Chunk list" where
  "treesitter_Split P t code language filePath =
     (let fallback = fallback_Split (tss_fallback t) code language filePath
      in case getLanguage language of
           None \<Rightarrow> fallback
         | Some lang \<Rightarrow>
             (case P lang code of
                None \<Rightarrow> fallback
              | Some root \<Rightarrow>
                  (let lines = split_on newline code;
                       chunks = walkNode lines filePath language (nodeTypesForLanguage language) root
                   in if chunks = [] then fallback
                      else concat (map (resplit t language filePath) chunks))))"

definition DescribeChunk :: "Chunk \<Rightarrow> string" where
  "DescribeChunk chunk =
     (let l0 = takeWhile (\<lambda>c. c \<noteq> newline) (ch_Content chunk);
          l1 = trim_space l0;
          l2 = (if length l1 > 120 then take 120 l1 @ ''...'' else l1);
          label = (if ch_NodeType chunk = [] then ''block'' else ch_NodeType chunk)
      in label @ [CHR '' '', CHR 0xE2, CHR 0x80, CHR 0x94, CHR '' ''] @ l2)"

section \<open>Exactness of the chunks\<close>

text \<open>A chunk is exact for a file's lines: its range lies in the file and its content is that range.\<close>

definition exact_chunk :: "string list \<Rightarrow> Chunk \<Rightarrow> bool" where
  "exact_chunk lines c \<longleftrightarrow>
     1 \<le> ch_StartLine c \<and> ch_StartLine c \<le> ch_EndLine c \<and> ch_EndLine c \<le> int (length lines) \<and>
     ch_Content c = join [newline] (slice lines (nat (ch_StartLine c - 1)) (nat (ch_EndLine c)))"

lemma New_splitter_bounds:
  "0 < fs_chunkSize (NewFallbackSplitter cs ov)"
  "0 \<le> fs_overlap (NewFallbackSplitter cs ov)"
  "fs_overlap (NewFallbackSplitter cs ov) < fs_chunkSize (NewFallbackSplitter cs ov)"
  by (auto simp: NewFallbackSplitter_def Let_def go_quot_pos)

text \<open>One window of the loop, and the three ways it goes on.\<close>

definition window_end :: "FallbackSplitter \<Rightarrow> 'a list \<Rightarrow> nat \<Rightarrow> nat" where
  "window_end f lines i = min (i + nat (fs_chunkSize f)) (length lines)"

definition window :: "FallbackSplitter \<Rightarrow> string list \<Rightarrow> string \<Rightarrow> string \<Rightarrow> nat \<Rightarrow> Chunk" where
  "window f lines language filePath i =
     \<lparr>ch_Content = join [newline] (slice lines i (window_end f lines i)), ch_FilePath = filePath,
      ch_StartLine = int i + 1, ch_EndLine = int (window_end f lines i),
      ch_Language = language, ch_NodeType = ''block''\<rparr>"

lemma window_end_le: "window_end f lines i \<le> length lines"
  by (simp add: window_end_def)

lemma fallback_loop_done: "length lines \<le> i \<Longrightarrow> fallback_loop f lines language filePath i = []"
  by (simp add: fallback_loop.simps)

lemma fallback_loop_blank:
  "i < length lines \<Longrightarrow> trim_space (ch_Content (window f lines language filePath i)) = [] \<Longrightarrow>
   fallback_loop f lines language filePath i =
     fallback_loop f lines language filePath (i + fallback_step f)"
  by (subst fallback_loop.simps) (simp add: window_def window_end_def Let_def)

lemma fallback_loop_chunk:
  "i < length lines \<Longrightarrow> trim_space (ch_Content (window f lines language filePath i)) \<noteq> [] \<Longrightarrow>
   fallback_loop f lines language filePath i =
     window f lines language filePath i #
     (if window_end f lines i \<ge> length lines then []
      else fallback_loop f lines language filePath (i + fallback_step f))"
  by (subst fallback_loop.simps) (simp add: window_def window_end_def Let_def)

lemma window_exact:
  assumes "i < length lines" and "0 < fs_chunkSize f"
  shows "exact_chunk lines (window f lines language filePath i) \<and>
    ch_EndLine (window f lines language filePath i) - ch_StartLine (window f lines language filePath i) + 1
      \<le> fs_chunkSize f"
  using assms by (auto simp: exact_chunk_def window_def window_end_def min_def nat_add_distrib)

lemma fallback_loop_windows:
  "c \<in> set (fallback_loop f lines language filePath i) \<Longrightarrow>
   \<exists>j < length lines. c = window f lines language filePath j \<and> trim_space (ch_Content c) \<noteq> []"
proof (induction "length lines - i" arbitrary: i rule: less_induct)
  case less
  show ?case
  proof (cases "i < length lines")
    case False
    with less.prems show ?thesis by (simp add: fallback_loop_done)
  next
    case i: True
    then have dec: "length lines - (i + fallback_step f) < length lines - i"
      using fallback_step_pos [of f] by linarith
    show ?thesis
    proof (cases "trim_space (ch_Content (window f lines language filePath i)) = []")
      case True
      with i less.prems less.hyps [OF dec] show ?thesis by (simp add: fallback_loop_blank)
    next
      case False
      with i less.prems less.hyps [OF dec] show ?thesis
        by (auto simp: fallback_loop_chunk split: if_splits)
    qed
  qed
qed

lemma fallback_Split_windows:
  "c \<in> set (fallback_Split f code language filePath) \<Longrightarrow>
   \<exists>j < length (split_on newline code).
     c = window f (split_on newline code) language filePath j \<and> trim_space (ch_Content c) \<noteq> []"
  using fallback_loop_windows by (auto simp: fallback_Split_def Let_def split: if_splits)

text \<open>A blank window only holds blank lines.\<close>

lemma window_lines:
  assumes "i < length lines" and "0 < fs_chunkSize f" and "\<forall>l \<in> set lines. newline \<notin> set l"
  shows "split_on newline (ch_Content (window f lines language filePath i)) =
    slice lines i (window_end f lines i)"
proof -
  have "slice lines i (window_end f lines i) \<noteq> []"
    using assms(1,2) by (simp add: slice_def window_end_def)
  moreover have "\<forall>l \<in> set (slice lines i (window_end f lines i)). newline \<notin> set l"
    using assms(3) subsetD [OF set_slice [of lines i "window_end f lines i"]] by fast
  ultimately have "split_on newline (join [newline] (slice lines i (window_end f lines i))) =
      slice lines i (window_end f lines i)"
    by (rule split_join)
  then show ?thesis by (simp add: window_def)
qed

lemma window_blank_line:
  assumes "i < length lines" "0 < fs_chunkSize f" "\<forall>l \<in> set lines. newline \<notin> set l"
    and "i \<le> j" "j < window_end f lines i"
    and "trim_space (ch_Content (window f lines language filePath i)) = []"
  shows "trim_space (lines ! j) = []"
proof -
  have "lines ! j = slice lines i (window_end f lines i) ! (j - i)"
    using nth_slice [of i "window_end f lines i" lines "j - i"] assms(4,5) window_end_le [of f lines i]
    by simp
  also have "\<dots> \<in> set (slice lines i (window_end f lines i))"
    using assms(4,5) window_end_le [of f lines i] by (intro nth_mem) simp
  finally have "lines ! j \<in> set (split_on newline (ch_Content (window f lines language filePath i)))"
    by (simp only: window_lines [OF assms(1,2,3)])
  then show ?thesis using assms(6) blank_lines trim_space_blank by metis
qed

lemma fallback_loop_covers:
  assumes "0 < fs_chunkSize f" "0 \<le> fs_overlap f" "\<forall>l \<in> set lines. newline \<notin> set l"
    and "j < length lines" "trim_space (lines ! j) \<noteq> []"
  shows "i \<le> j \<Longrightarrow> \<exists>c \<in> set (fallback_loop f lines language filePath i).
    ch_StartLine c \<le> int j + 1 \<and> int j + 1 \<le> ch_EndLine c"
proof (induction "length lines - i" arbitrary: i rule: less_induct)
  case less
  let ?w = "window f lines language filePath i"
  have i: "i < length lines" using less.prems assms(4) by simp
  then have dec: "length lines - (i + fallback_step f) < length lines - i"
    using fallback_step_pos [of f] by linarith
  have step: "i + fallback_step f \<le> j" if "window_end f lines i \<le> j"
    using that assms(1,2,4) by (auto simp: window_end_def fallback_step_def Let_def)
  show ?case
  proof (cases "trim_space (ch_Content ?w) = []")
    case True
    then have "window_end f lines i \<le> j"
      using window_blank_line [OF i assms(1,3) less.prems] assms(5) by (meson not_le)
    with step less.hyps [OF dec] True i show ?thesis by (simp add: fallback_loop_blank)
  next
    case chunk: False
    show ?thesis
    proof (cases "j < window_end f lines i")
      case True
      then have "ch_StartLine ?w \<le> int j + 1 \<and> int j + 1 \<le> ch_EndLine ?w"
        using less.prems by (simp add: window_def)
      with chunk i show ?thesis by (simp add: fallback_loop_chunk)
    next
      case False
      then have "window_end f lines i < length lines" and "i + fallback_step f \<le> j"
        using assms(4) step by auto
      with chunk i less.hyps [OF dec] show ?thesis by (simp add: fallback_loop_chunk)
    qed
  qed
qed

lemma split_on_lines: "l \<in> set (split_on newline code) \<Longrightarrow> newline \<notin> set l"
  by (rule split_on_parts)

section \<open>Exactness of the tree-sitter chunks\<close>

lemma walkNode_exact:
  "ts_wf code n \<Longrightarrow> c \<in> set (walkNode (split_on newline code) filePath language nodeTypes n) \<Longrightarrow>
   exact_chunk (split_on newline code) c \<and> ch_NodeType c \<in> ran nodeTypes"
proof (induction n arbitrary: c)
  case (TsNode k sb eb sr er nm f cs)
  show ?case
  proof (cases "nodeTypes k")
    case None
    with TsNode show ?thesis by (auto simp: list_all_iff)
  next
    case (Some label)
    have "er < length (split_on newline code)" "sr \<le> er"
      using TsNode.prems(1) by (simp_all add: length_split_on)
    with Some TsNode.prems(2) show ?thesis
      by (auto simp: exact_chunk_def extractLines_def Let_def ran_def)
  qed
qed

text \<open>Cutting an exact chunk again: the shifted windows are exact for the file.\<close>

lemma slice_slice: "a \<le> b \<Longrightarrow> b \<le> e - s \<Longrightarrow> slice (slice xs s e) a b = slice xs (s + a) (s + b)"
  by (simp add: slice_def drop_take min_absorb1 add.commute)

lemma resplit_exact:
  assumes chunk: "exact_chunk lines chunk" and free: "\<forall>l \<in> set lines. newline \<notin> set l"
    and size: "0 < fs_chunkSize (tss_fallback t)" and limit: "fs_chunkSize (tss_fallback t) \<le> maxChunkLines"
    and c: "c \<in> set (resplit t language filePath chunk)"
  shows "exact_chunk lines c \<and> ch_EndLine c - ch_StartLine c + 1 \<le> maxChunkLines \<and>
    ch_StartLine chunk \<le> ch_StartLine c \<and> ch_EndLine c \<le> ch_EndLine chunk \<and>
    ch_NodeType c = ch_NodeType chunk"
proof (cases "c = chunk \<and> ch_EndLine chunk - ch_StartLine chunk + 1 \<le> maxChunkLines")
  case True
  with chunk show ?thesis by simp
next
  case False
  define s e where "s = nat (ch_StartLine chunk - 1)" and "e = nat (ch_EndLine chunk)"
  have se: "s < e" "e \<le> length lines" "ch_StartLine chunk = int s + 1" "ch_EndLine chunk = int e"
    "ch_Content chunk = join [newline] (slice lines s e)"
    using chunk by (auto simp: exact_chunk_def s_def e_def)
  have sub: "split_on newline (ch_Content chunk) = slice lines s e"
    unfolding se(5)
  proof (rule split_join)
    show "slice lines s e \<noteq> []" using se by (simp add: slice_def)
    show "\<forall>l \<in> set (slice lines s e). newline \<notin> set l"
      using free subsetD [OF set_slice [of lines s e]] by fast
  qed
  from False c obtain d where d: "d \<in> set (fallback_Split (tss_fallback t) (ch_Content chunk) language filePath)"
    and cd: "c = d\<lparr>ch_StartLine := ch_StartLine d + int s, ch_EndLine := ch_EndLine d + int s,
               ch_NodeType := ch_NodeType chunk\<rparr>"
    using se(3) by (auto simp: resplit_def Let_def split: if_splits)
  obtain j where j: "j < e - s" "d = window (tss_fallback t) (slice lines s e) language filePath j"
    using fallback_Split_windows [OF d] se unfolding sub by auto
  have "exact_chunk (slice lines s e) d \<and> ch_EndLine d - ch_StartLine d + 1 \<le> fs_chunkSize (tss_fallback t)"
    unfolding j(2) using j(1) se size by (intro window_exact) simp_all
  then have d1: "1 \<le> ch_StartLine d" "ch_StartLine d \<le> ch_EndLine d" "ch_EndLine d \<le> int (e - s)"
    "ch_Content d = join [newline] (slice (slice lines s e) (nat (ch_StartLine d - 1)) (nat (ch_EndLine d)))"
    "ch_EndLine d - ch_StartLine d + 1 \<le> maxChunkLines"
    using se limit by (auto simp: exact_chunk_def)
  have "slice (slice lines s e) (nat (ch_StartLine d - 1)) (nat (ch_EndLine d)) =
      slice lines (nat (ch_StartLine c - 1)) (nat (ch_EndLine c))"
    using d1 se by (subst slice_slice) (auto simp: cd nat_add_distrib nat_diff_distrib intro!: arg_cong2 [where f = "slice lines"])
  with d1 se show ?thesis by (auto simp: cd exact_chunk_def)
qed

lemma fallback_Split_exact:
  assumes "c \<in> set (fallback_Split f code language filePath)" and "0 < fs_chunkSize f"
  shows "exact_chunk (split_on newline code) c \<and> ch_EndLine c - ch_StartLine c + 1 \<le> fs_chunkSize f"
proof -
  obtain j where "j < length (split_on newline code)"
    and "c = window f (split_on newline code) language filePath j"
    using fallback_Split_windows [OF assms(1)] by blast
  then show ?thesis using window_exact [OF _ assms(2)] by simp
qed

lemma treesitter_Split_exact:
  assumes wf: "\<And>lang root. P lang code = Some root \<Longrightarrow> ts_wf code root"
    and size: "0 < fs_chunkSize (tss_fallback t)" and limit: "fs_chunkSize (tss_fallback t) \<le> maxChunkLines"
    and c: "c \<in> set (treesitter_Split P t code language filePath)"
  shows "exact_chunk (split_on newline code) c \<and> ch_EndLine c - ch_StartLine c + 1 \<le> maxChunkLines"
proof -
  have fallback: ?thesis if "c \<in> set (fallback_Split (tss_fallback t) code language filePath)"
    using fallback_Split_exact [OF that size] limit by linarith
  show ?thesis
  proof (cases "c \<in> set (fallback_Split (tss_fallback t) code language filePath)")
    case True
    then show ?thesis by (rule fallback)
  next
    case False
    with c obtain lang root chunk where
      "P lang code = Some root"
      and chunk: "chunk \<in> set (walkNode (split_on newline code) filePath language (nodeTypesForLanguage language) root)"
      and cc: "c \<in> set (resplit t language filePath chunk)"
      by (auto simp: treesitter_Split_def Let_def split: option.splits if_splits)
    from walkNode_exact [OF wf [OF this(1)] chunk] have "exact_chunk (split_on newline code) chunk" by simp
    from resplit_exact [OF this _ size limit cc] show ?thesis by (auto dest: split_on_lines)
  qed
qed

lemma NewTreeSitterSplitter_fallback:
  "tss_fallback (NewTreeSitterSplitter (map WithMaxChunkChars ns)) = NewFallbackSplitter 80 10"
proof -
  have "tss_fallback (fold (\<lambda>opt s. opt s) (map WithMaxChunkChars ns) s) = tss_fallback s" for s
    by (induction ns arbitrary: s) (simp_all add: WithMaxChunkChars_def)
  then show ?thesis by (simp add: NewTreeSitterSplitter_def)
qed

section \<open>Properties\<close>

text \<open>
  The index loses no text: whatever sizes the fallback splitter was made with, every line
  of the file that is not blank lies in the range of some chunk.
\<close>

theorem fallback_covers_every_line:
  assumes "j < length (split_on newline code)" and "trim_space (split_on newline code ! j) \<noteq> []"
  shows "\<exists>c \<in> set (fallback_Split (NewFallbackSplitter cs ov) code language filePath).
    ch_StartLine c \<le> int j + 1 \<and> int j + 1 \<le> ch_EndLine c"
proof -
  have "\<exists>c \<in> set (fallback_loop (NewFallbackSplitter cs ov) (split_on newline code) language filePath 0).
      ch_StartLine c \<le> int j + 1 \<and> int j + 1 \<le> ch_EndLine c"
    by (rule fallback_loop_covers [OF New_splitter_bounds(1,2) _ assms]) (auto dest: split_on_lines)
  then show ?thesis by (simp add: fallback_Split_def Let_def)
qed

theorem fallback_covers_every_line_witness:
  "\<exists>c \<in> set (fallback_Split (NewFallbackSplitter 2 1) (''a'' @ [newline] @ ''b'' @ [newline] @ ''c'') ''go'' ''f'').
    ch_StartLine c \<le> 3 \<and> 3 \<le> ch_EndLine c"
proof -
  have code: "split_on newline (''a'' @ [newline] @ ''b'' @ [newline] @ ''c'') = [''a'', ''b'', ''c'']" by simp
  have "trim_space ''c'' \<noteq> []" by code_simp
  then show ?thesis
    using fallback_covers_every_line [of 2 "''a'' @ [newline] @ ''b'' @ [newline] @ ''c''" 2 1 "''go''" "''f''"]
    unfolding code by (simp add: numeral_2_eq_2)
qed

text \<open>
  C40. Every chunk of the tree-sitter splitter, cut again or not, is exact: its line range lies
  in the file, spans at most 200 lines, and its content is those lines of the file, so the
  line numbers stored in the index point at the text they describe.
\<close>

theorem treesitter_chunks_exact:
  assumes "\<And>lang root. P lang code = Some root \<Longrightarrow> ts_wf code root"
    and "c \<in> set (treesitter_Split P (NewTreeSitterSplitter (map WithMaxChunkChars ns)) code language filePath)"
  shows "1 \<le> ch_StartLine c \<and> ch_StartLine c \<le> ch_EndLine c \<and>
    ch_EndLine c \<le> int (length (split_on newline code)) \<and> ch_EndLine c - ch_StartLine c + 1 \<le> 200 \<and>
    ch_Content c = join [newline] (slice (split_on newline code) (nat (ch_StartLine c - 1)) (nat (ch_EndLine c)))"
proof -
  have "0 < fs_chunkSize (NewFallbackSplitter 80 10)" "fs_chunkSize (NewFallbackSplitter 80 10) \<le> maxChunkLines"
    by (simp_all add: NewFallbackSplitter_def maxChunkLines_def)
  then have "exact_chunk (split_on newline code) c \<and> ch_EndLine c - ch_StartLine c + 1 \<le> maxChunkLines"
    using assms by (intro treesitter_Split_exact [of P code _ c language filePath])
      (simp_all add: NewTreeSitterSplitter_fallback)
  then show ?thesis by (simp add: exact_chunk_def maxChunkLines_def)
qed

definition demo_tree :: ts_node where
  "demo_tree = TsNode ''source_file'' 0 11 0 1 True None
     [TsNode ''function_declaration'' 1 11 1 1 True None []]"

theorem treesitter_chunks_exact_witness:
  "ts_wf (newline # ''func F() {'') demo_tree \<and>
   (\<exists>c \<in> set (treesitter_Split (\<lambda>l src. Some demo_tree) (NewTreeSitterSplitter (map WithMaxChunkChars []))
          (newline # ''func F() {'') ''go'' ''f.go'').
      ch_StartLine c = 2 \<and> ch_EndLine c = 2 \<and> ch_Content c = ''func F() {'')"
proof -
  let ?code = "newline # ''func F() {''"
  let ?out = "treesitter_Split (\<lambda>l src. Some demo_tree) (NewTreeSitterSplitter (map WithMaxChunkChars [])) ?code ''go'' ''f.go''"
  have wf: "ts_wf ?code demo_tree" by (simp add: demo_tree_def count_byte_def)
  have out: "map (\<lambda>c. (ch_StartLine c, ch_EndLine c)) ?out = [(2, 2)]" by code_simp
  then obtain c where c: "?out = [c]" "ch_StartLine c = 2" "ch_EndLine c = 2" by auto
  have "ch_Content c = join [newline] (slice (split_on newline ?code) (nat (2 - 1)) (nat 2))"
    using treesitter_chunks_exact [of "\<lambda>l src. Some demo_tree" ?code c "[]" "''go''" "''f.go''"] wf c by simp
  also have "\<dots> = ''func F() {''" by code_simp
  finally show ?thesis using wf c by simp
qed

end
