(* ===== verification/EngineSlicer.thy ===== *)
theory EngineSlicer
  imports EngineTypes CodeSplitter
begin

text \<open>
  \<open>pkg/engine/slicer.go\<close>: the excerpt of a definition that is longer than its budget: a header
  slice, up to three salient slices (error handling and I/O, found on the syntax tree or, without
  a tree, by text) and a return-path slice. What the assembly needs of a finder of salient
  slices is the interface \<open>salient_finder\<close>; both finders are interpreted. Line arguments are
  one-based; the code panics on a start line below one, which no caller passes.
\<close>

definition headerSliceLines :: int where "headerSliceLines = 12"
definition salientSliceMax :: nat where "salientSliceMax = 3"
definition salientSliceSize :: int where "salientSliceSize = 10"

lemmas slice_consts = headerSliceLines_def salientSliceMax_def salientSliceSize_def

definition extractSignature :: "string \<Rightarrow> int \<Rightarrow> string" where
  "extractSignature source startLine =
     (let lines = split_on newline source
      in if startLine - 1 \<ge> int (length lines) then []
         else trim_right_set (lines ! nat (startLine - 1)) [CHR 0x0D, CHR 0x0A])"

definition joinLines :: "string list \<Rightarrow> int \<Rightarrow> int \<Rightarrow> string" where
  "joinLines lines from0 to0 =
     (let from = (if from0 < 0 then 0 else from0);
          last = (if to0 \<ge> int (length lines) then int (length lines) - 1 else to0)
      in if from > last then [] else join [newline] (slice lines (nat from) (nat (last + 1))))"

section \<open>Salient slices on the syntax tree\<close>

definition is_error_path :: "string \<Rightarrow> string \<Rightarrow> bool" where
  "is_error_path nodeKind content \<longleftrightarrow>
     (nodeKind = ''if_statement'' \<and> (contains content ''err != nil'' \<or> contains content ''err :='')) \<or>
     nodeKind = ''try_statement'' \<or> nodeKind = ''catch_clause''"

definition io_patterns :: "string list" where
  "io_patterns = [''Read'', ''Write'', ''Open'', ''Close'', ''Get'', ''Post'', ''Query'', ''Exec'', ''Send'', ''Recv'']"

definition is_io_site :: "string \<Rightarrow> string \<Rightarrow> bool" where
  "is_io_site nodeKind content \<longleftrightarrow>
     nodeKind = ''call_expression'' \<and> list_ex (\<lambda>p. contains content p) io_patterns"

definition salient_slice :: "bool \<Rightarrow> string list \<Rightarrow> int \<Rightarrow> int \<Rightarrow> CodeSlice" where
  "salient_slice isIO lines startLine endLine =
     \<lparr>sl_Label = (if isIO then ''I/O site slice'' else ''Error path slice''),
      sl_StartLine = startLine, sl_EndLine = endLine,
      sl_Reason = (if isIO then ''external I/O'' else ''error handling''),
      sl_Code = joinLines lines (startLine - 1) (endLine - 1)\<rparr>"

text \<open>What \<open>walk\<close> does with a node itself: one more slice if it lies in the definition and is salient.\<close>

definition visit_salient ::
  "string \<Rightarrow> string list \<Rightarrow> int \<Rightarrow> int \<Rightarrow> string \<Rightarrow> nat \<Rightarrow> nat \<Rightarrow> nat \<Rightarrow> nat \<Rightarrow> CodeSlice list \<Rightarrow> CodeSlice list" where
  "visit_salient source lines startLine endLine nodeKind sb eb sr er acc =
     (let nodeLine = int sr + 1
      in if nodeLine < startLine \<or> nodeLine > endLine then acc
         else let content = slice source sb eb;
                  isErrorPath = is_error_path nodeKind content;
                  isIO = is_io_site nodeKind content;
                  end0 = int er + 1;
                  end1 = (if end0 - nodeLine > salientSliceSize then nodeLine + salientSliceSize - 1 else end0);
                  end2 = (if end1 > endLine then endLine else end1)
              in if isErrorPath \<or> isIO then acc @ [salient_slice isIO lines nodeLine end2] else acc)"

text \<open>The recursive \<open>walk\<close>, in document order, with the slices found so far in \<open>acc\<close>.\<close>

fun walk_salient :: "string \<Rightarrow> string list \<Rightarrow> int \<Rightarrow> int \<Rightarrow> ts_node \<Rightarrow> CodeSlice list \<Rightarrow> CodeSlice list"
  and walk_salients :: "string \<Rightarrow> string list \<Rightarrow> int \<Rightarrow> int \<Rightarrow> ts_node list \<Rightarrow> CodeSlice list \<Rightarrow> CodeSlice list" where
  "walk_salient source lines startLine endLine (TsNode k sb eb sr er nm f cs) acc =
     (if length acc \<ge> salientSliceMax then acc
      else walk_salients source lines startLine endLine cs
             (visit_salient source lines startLine endLine k sb eb sr er acc))"
| "walk_salients source lines startLine endLine [] acc = acc"
| "walk_salients source lines startLine endLine (n # ns) acc =
     walk_salients source lines startLine endLine ns (walk_salient source lines startLine endLine n acc)"

definition findErrorAndIOSlices :: "ts_node \<Rightarrow> string \<Rightarrow> int \<Rightarrow> int \<Rightarrow> CodeSlice list" where
  "findErrorAndIOSlices rootNode source startLine endLine =
     walk_salient source (split_on newline source) startLine endLine rootNode []"

section \<open>Salient slices by text\<close>

definition error_patterns :: "string list" where
  "error_patterns = [''if err'', ''catch'', ''except '', ''rescue '']"

text \<open>The body of the loop at line index \<open>i\<close>: the slice that starts there, with its last line index.\<close>

definition text_hit :: "string list \<Rightarrow> int \<Rightarrow> nat \<Rightarrow> (CodeSlice \<times> int) option" where
  "text_hit lines endLine i =
     (let line = lines ! i;
          isError = list_ex (\<lambda>p. contains line p) error_patterns;
          isIO = (\<not> isError \<and> list_ex (\<lambda>p. contains line p) io_patterns);
          end0 = int i + salientSliceSize;
          end1 = (if end0 \<ge> int (length lines) then int (length lines) - 1 else end0);
          end2 = (if end1 \<ge> endLine then endLine - 1 else end1)
      in if isError \<or> isIO then Some (salient_slice isIO lines (int i + 1) (end2 + 1), end2) else None)"

lemma text_hit_end:
  "text_hit lines endLine i = Some (s, e) \<Longrightarrow> int i < endLine \<Longrightarrow> i < length lines \<Longrightarrow>
     int i \<le> e \<and> e < endLine \<and> e \<le> int i + 10 \<and> (\<exists>io. s = salient_slice io lines (int i + 1) (e + 1))"
  by (auto simp: text_hit_def Let_def salientSliceSize_def split: if_splits)

text \<open>The loop itself; after a slice it goes on behind the slice.\<close>

function text_salient :: "string list \<Rightarrow> int \<Rightarrow> nat \<Rightarrow> CodeSlice list \<Rightarrow> CodeSlice list" where
  "text_salient lines endLine i acc =
     (if int i < endLine \<and> i < length lines \<and> length acc < salientSliceMax then
        (case text_hit lines endLine i of
           Some (s, e) \<Rightarrow> text_salient lines endLine (nat (e + 1)) (acc @ [s])
         | None \<Rightarrow> text_salient lines endLine (Suc i) acc)
      else acc)"
  by pat_completeness auto
termination
  by (relation "measure (\<lambda>(lines, endLine, i, acc). length lines - i)")
     (auto dest!: text_hit_end)

declare text_salient.simps [simp del]

definition findSalientSlicesByText :: "string \<Rightarrow> int \<Rightarrow> int \<Rightarrow> CodeSlice list" where
  "findSalientSlicesByText source startLine endLine =
     text_salient (split_on newline source) endLine (nat (startLine - 1)) []"

definition findSalientSlices :: "ts_parser \<Rightarrow> string \<Rightarrow> string \<Rightarrow> int \<Rightarrow> int \<Rightarrow> CodeSlice list" where
  "findSalientSlices P source language startLine endLine =
     (case GetLanguage language of
        None \<Rightarrow> findSalientSlicesByText source startLine endLine
      | Some lang \<Rightarrow>
          (case P lang source of
             None \<Rightarrow> findSalientSlicesByText source startLine endLine
           | Some rootNode \<Rightarrow> findErrorAndIOSlices rootNode source startLine endLine))"

section \<open>The slices of a definition\<close>

text \<open>The loop that takes the salient slices after the header, up to the maximum.\<close>

fun add_salient :: "int \<Rightarrow> CodeSlice list \<Rightarrow> CodeSlice list \<Rightarrow> CodeSlice list" where
  "add_salient headerEnd acc [] = acc"
| "add_salient headerEnd acc (s # ss) =
     (if length acc \<ge> salientSliceMax + 1 then acc
      else if sl_StartLine s \<le> headerEnd + 1 then add_salient headerEnd acc ss
      else add_salient headerEnd (acc @ [s]) ss)"

definition slice_definition_with ::
  "(string \<Rightarrow> string \<Rightarrow> int \<Rightarrow> int \<Rightarrow> CodeSlice list) \<Rightarrow>
   string \<Rightarrow> string \<Rightarrow> int \<Rightarrow> int \<Rightarrow> int \<Rightarrow> string \<times> CodeSlice list \<times> string" where
  "slice_definition_with finder source language startLine endLine budgetLines =
     (let bodyLines = endLine - startLine + 1
      in if bodyLines \<le> budgetLines then (extractSignature source startLine, [], ''full_body'')
         else
           let sig = extractSignature source startLine;
               lines = split_on newline source;
               headerEnd0 = startLine - 1 + headerSliceLines;
               headerEnd = (if headerEnd0 > endLine - 1 then endLine - 1 else headerEnd0);
               header = \<lparr>sl_Label = ''Header slice'', sl_StartLine = startLine, sl_EndLine = headerEnd + 1,
                         sl_Reason = ''function entry'', sl_Code = joinLines lines (startLine - 1) headerEnd\<rparr>;
               slices = add_salient headerEnd [header] (finder source language startLine endLine);
               slices' =
                 (if endLine - salientSliceSize > headerEnd + 1 \<and> length slices < salientSliceMax + 1
                  then let rs0 = endLine - salientSliceSize;
                           returnStart = (if rs0 < startLine then startLine else rs0)
                       in slices @ [\<lparr>sl_Label = ''Return path slice'', sl_StartLine = returnStart,
                            sl_EndLine = endLine, sl_Reason = ''return path'',
                            sl_Code = joinLines lines (returnStart - 1) (endLine - 1)\<rparr>]
                  else slices)
           in (sig, slices', ''signature_plus_slices''))"

definition SliceDefinition ::
  "ts_parser \<Rightarrow> string \<Rightarrow> string \<Rightarrow> int \<Rightarrow> int \<Rightarrow> int \<Rightarrow> string \<times> CodeSlice list \<times> string" where
  "SliceDefinition P = slice_definition_with (findSalientSlices P)"

section \<open>What a finder of salient slices promises\<close>

text \<open>A slice of a source text: it starts inside the definition, ends inside it, holds at most
  eleven lines, and its code is those lines.\<close>

definition good_slice :: "string \<Rightarrow> int \<Rightarrow> int \<Rightarrow> CodeSlice \<Rightarrow> bool" where
  "good_slice source startLine endLine s \<longleftrightarrow>
     startLine \<le> sl_StartLine s \<and> sl_StartLine s \<le> endLine \<and> sl_EndLine s \<le> endLine \<and>
     sl_EndLine s - sl_StartLine s \<le> 10 \<and>
     sl_Code s = joinLines (split_on newline source) (sl_StartLine s - 1) (sl_EndLine s - 1)"

locale salient_finder =
  fixes finder :: "string \<Rightarrow> string \<Rightarrow> int \<Rightarrow> int \<Rightarrow> CodeSlice list"
  assumes finder_good: "1 \<le> startLine \<Longrightarrow> s \<in> set (finder source language startLine endLine) \<Longrightarrow>
      good_slice source startLine endLine s"
begin

text \<open>What the assembly makes of any such finder's slices.\<close>

lemma add_salient_more:
  "\<exists>more. add_salient h acc ss = acc @ more \<and> (\<forall>s \<in> set more. s \<in> set ss \<and> h + 1 < sl_StartLine s)"
proof (induction h acc ss rule: add_salient.induct)
  case (2 h acc s ss)
  consider "length acc \<ge> salientSliceMax + 1" | "length acc < salientSliceMax + 1" "sl_StartLine s \<le> h + 1"
    | "length acc < salientSliceMax + 1" "h + 1 < sl_StartLine s" by linarith
  then show ?case
  proof cases
    case 3
    then obtain more where "add_salient h (acc @ [s]) ss = (acc @ [s]) @ more"
      "\<forall>s \<in> set more. s \<in> set ss \<and> h + 1 < sl_StartLine s"
      using 2(2) by auto
    with 3 show ?thesis by (intro exI [of _ "s # more"]) auto
  qed (use 2(1) in auto)
qed simp

lemma add_salient_length:
  "length acc \<le> salientSliceMax + 1 \<Longrightarrow> length (add_salient h acc ss) \<le> salientSliceMax + 1"
  by (induction h acc ss rule: add_salient.induct) auto

lemma slices_shape:
  assumes start: "1 \<le> startLine" and over: "endLine - startLine + 1 > budgetLines" and budget: "0 \<le> budgetLines"
    and out: "slice_definition_with finder source language startLine endLine budgetLines = (sig, slices, view)"
  shows "view = ''signature_plus_slices'' \<and>
    (\<exists>header rest. slices = header # rest \<and> length rest \<le> 3 \<and>
       sl_StartLine header = startLine \<and> sl_EndLine header = min (startLine + 12) endLine \<and>
       sl_Code header = joinLines (split_on newline source) (startLine - 1) (sl_EndLine header - 1) \<and>
       (\<forall>s \<in> set rest. good_slice source startLine endLine s \<and> sl_EndLine header < sl_StartLine s))"
proof -
  define h where "h = min (startLine + 11) (endLine - 1)"
  define header where "header = \<lparr>sl_Label = ''Header slice'', sl_StartLine = startLine, sl_EndLine = h + 1,
      sl_Reason = ''function entry'', sl_Code = joinLines (split_on newline source) (startLine - 1) h\<rparr>"
  let ?S = "add_salient h [header] (finder source language startLine endLine)"
  obtain more where S: "?S = header # more"
    and mem: "\<forall>s \<in> set more. s \<in> set (finder source language startLine endLine) \<and> h + 1 < sl_StartLine s"
    using add_salient_more [of h "[header]" "finder source language startLine endLine"] by auto
  have len: "length more \<le> 3"
    using add_salient_length [of "[header]" h "finder source language startLine endLine"] S
    by (simp add: salientSliceMax_def)
  have se: "startLine \<le> endLine" using over budget by linarith
  have more: "\<forall>s \<in> set more. good_slice source startLine endLine s \<and> h + 1 < sl_StartLine s"
    using mem finder_good [OF start] by blast
  define ret where "ret = \<lparr>sl_Label = ''Return path slice'', sl_StartLine = endLine - 10,
      sl_EndLine = endLine, sl_Reason = ''return path'',
      sl_Code = joinLines (split_on newline source) (endLine - 10 - 1) (endLine - 1)\<rparr>"
  define extra where "extra = (if endLine - 10 > h + 1 \<and> length more < 3 then [ret] else [])"
  have h: "(if startLine - 1 + headerSliceLines > endLine - 1 then endLine - 1
            else startLine - 1 + headerSliceLines) = h"
    by (simp add: h_def headerSliceLines_def)
  have "slices = header # (more @ extra)" and "view = ''signature_plus_slices''"
    using out over S se
    unfolding slice_definition_with_def Let_def h header_def [symmetric]
    by (auto simp: extra_def ret_def slice_consts h_def)
  moreover have "\<forall>s \<in> set (more @ extra). good_slice source startLine endLine s \<and> h + 1 < sl_StartLine s"
    using more se by (auto simp: extra_def ret_def good_slice_def h_def)
  moreover have "length (more @ extra) \<le> 3" using len by (auto simp: extra_def)
  moreover have "sl_StartLine header = startLine" "sl_EndLine header = h + 1" "h + 1 = min (startLine + 12) endLine"
    "sl_Code header = joinLines (split_on newline source) (startLine - 1) (sl_EndLine header - 1)"
    by (auto simp: header_def h_def)
  ultimately show ?thesis by metis
qed

end

section \<open>Both finders keep the promise\<close>

lemma salient_slice_good:
  "startLine \<le> a \<Longrightarrow> a \<le> endLine \<Longrightarrow> b \<le> endLine \<Longrightarrow> b - a \<le> 10 \<Longrightarrow>
   good_slice source startLine endLine (salient_slice io (split_on newline source) a b)"
  by (simp add: good_slice_def salient_slice_def)

lemma visit_salient_cases:
  obtains "visit_salient source lines startLine endLine k sb eb sr er acc = acc"
  | io b where "visit_salient source lines startLine endLine k sb eb sr er acc =
        acc @ [salient_slice io lines (int sr + 1) b]"
      and "startLine \<le> int sr + 1" "int sr + 1 \<le> endLine" "b \<le> endLine" "b - (int sr + 1) \<le> 10"
proof -
  define a where "a = int sr + 1"
  define b0 where "b0 = (if int er + 1 - a > salientSliceSize then a + salientSliceSize - 1 else int er + 1)"
  define b where "b = (if b0 > endLine then endLine else b0)"
  have b: "b \<le> endLine" "b - a \<le> 10" by (auto simp: b_def b0_def salientSliceSize_def)
  consider "visit_salient source lines startLine endLine k sb eb sr er acc = acc"
    | io where "startLine \<le> a" "a \<le> endLine"
      "visit_salient source lines startLine endLine k sb eb sr er acc = acc @ [salient_slice io lines a b]"
    unfolding visit_salient_def Let_def a_def [symmetric] b0_def [symmetric] b_def [symmetric]
    by (cases "a < startLine \<or> a > endLine";
        cases "is_error_path k (slice source sb eb) \<or> is_io_site k (slice source sb eb)") auto
  then show ?thesis using that b unfolding a_def by cases blast+
qed

lemma visit_salient_good:
  assumes "\<forall>s \<in> set acc. good_slice source startLine endLine s"
  shows "\<forall>s \<in> set (visit_salient source (split_on newline source) startLine endLine k sb eb sr er acc).
    good_slice source startLine endLine s"
  by (rule visit_salient_cases [of source "split_on newline source" startLine endLine k sb eb sr er acc])
    (use assms salient_slice_good in auto)

lemma walk_salients_good:
  assumes step: "\<And>n acc. n \<in> set ns \<Longrightarrow> \<forall>s \<in> set acc. Q s \<Longrightarrow>
      \<forall>s \<in> set (walk_salient source lines startLine endLine n acc). Q s"
  shows "\<forall>s \<in> set acc. Q s \<Longrightarrow> \<forall>s \<in> set (walk_salients source lines startLine endLine ns acc). Q s"
  using step
proof (induction ns arbitrary: acc)
  case Nil
  then show ?case by simp
next
  case (Cons n ns)
  have "\<forall>s \<in> set (walk_salient source lines startLine endLine n acc). Q s"
    by (rule Cons.prems(2)) (use Cons.prems(1) in simp_all)
  then have "\<forall>s \<in> set (walk_salients source lines startLine endLine ns
      (walk_salient source lines startLine endLine n acc)). Q s"
    by (rule Cons.IH) (rule Cons.prems(2), simp_all)
  then show ?case by (simp only: walk_salients.simps)
qed

lemma walk_salient_good:
  "\<forall>s \<in> set acc. good_slice source startLine endLine s \<Longrightarrow>
   \<forall>s \<in> set (walk_salient source (split_on newline source) startLine endLine n acc).
     good_slice source startLine endLine s"
proof (induction n arbitrary: acc)
  case (TsNode k sb eb sr er nm f cs)
  let ?acc' = "visit_salient source (split_on newline source) startLine endLine k sb eb sr er acc"
  have "\<forall>s \<in> set ?acc'. good_slice source startLine endLine s"
    using TsNode.prems by (rule visit_salient_good)
  then have "\<forall>s \<in> set (walk_salients source (split_on newline source) startLine endLine cs ?acc').
      good_slice source startLine endLine s"
    by (rule walk_salients_good [rotated]) (rule TsNode.IH)
  then show ?case using TsNode.prems by simp
qed

lemma text_salient_good:
  "\<forall>s \<in> set acc. good_slice source startLine endLine s \<Longrightarrow> startLine \<le> int i + 1 \<Longrightarrow>
   \<forall>s \<in> set (text_salient (split_on newline source) endLine i acc). good_slice source startLine endLine s"
proof (induction "length (split_on newline source) - i" arbitrary: i acc rule: less_induct)
  case less
  let ?lines = "split_on newline source"
  show ?case
  proof (cases "int i < endLine \<and> i < length ?lines \<and> length acc < salientSliceMax")
    case False
    then have "text_salient ?lines endLine i acc = acc" by (subst text_salient.simps) auto
    with less.prems show ?thesis by simp
  next
    case i: True
    show ?thesis
    proof (cases "text_hit ?lines endLine i")
      case None
      then have "text_salient ?lines endLine i acc = text_salient ?lines endLine (Suc i) acc"
        using i by (subst text_salient.simps) simp
      moreover have dec: "length ?lines - Suc i < length ?lines - i" using i by linarith
      ultimately show ?thesis using less.hyps [OF dec less.prems(1)] less.prems(2) by simp
    next
      case (Some p)
      obtain s e where p: "p = (s, e)" by (cases p)
      note hit = text_hit_end [OF Some [unfolded p]]
      then have good: "good_slice source startLine endLine s"
        using i less.prems(2) salient_slice_good by auto
      have "text_salient ?lines endLine i acc = text_salient ?lines endLine (nat (e + 1)) (acc @ [s])"
        using i Some p by (subst text_salient.simps) simp
      moreover have "length ?lines - nat (e + 1) < length ?lines - i" and "startLine \<le> int (nat (e + 1)) + 1"
        using hit i less.prems(2) by auto
      ultimately show ?thesis using less.hyps [of "nat (e + 1)" "acc @ [s]"] less.prems(1) good by simp
    qed
  qed
qed

interpretation text_finder: salient_finder "\<lambda>source language. findSalientSlicesByText source"
proof
  fix startLine endLine :: int and s source
  assume "1 \<le> startLine" "s \<in> set (findSalientSlicesByText source startLine endLine)"
  then show "good_slice source startLine endLine s"
    using text_salient_good [of "[]" source startLine endLine "nat (startLine - 1)"]
    by (simp add: findSalientSlicesByText_def)
qed

interpretation salient: salient_finder "findSalientSlices P" for P
proof
  fix startLine endLine :: int and s source language
  assume start: "1 \<le> startLine" and s: "s \<in> set (findSalientSlices P source language startLine endLine)"
  then consider "s \<in> set (findSalientSlicesByText source startLine endLine)"
    | rootNode where "s \<in> set (findErrorAndIOSlices rootNode source startLine endLine)"
    by (auto simp: findSalientSlices_def split: option.splits)
  then show "good_slice source startLine endLine s"
  proof cases
    case 1
    with start text_finder.finder_good show ?thesis by blast
  next
    case 2
    then show ?thesis
      using walk_salient_good [of "[]" source startLine endLine rootNode] by (simp add: findErrorAndIOSlices_def)
  qed
qed

section \<open>Properties\<close>


definition demo_source :: string where
  "demo_source = ''func f() {'' @ [newline] @ ''  x, err := os.Open(p)'' @ [newline] @ ''}''"


definition slice_lines :: "CodeSlice \<Rightarrow> int" where
  "slice_lines s = sl_EndLine s - sl_StartLine s + 1"

lemma slice_lines_sum:
  "\<forall>s \<in> set ss. slice_lines s \<le> k \<Longrightarrow> 0 \<le> k \<Longrightarrow> sum_list (map slice_lines ss) \<le> k * int (length ss)"
  by (induction ss) (auto simp: algebra_simps)

lemma SliceDefinition_total:
  assumes "1 \<le> startLine" "0 \<le> budgetLines" "endLine - startLine + 1 > budgetLines"
    and "SliceDefinition P source language startLine endLine budgetLines = (sig, slices, view)"
  shows "view = ''signature_plus_slices''" "sum_list (map slice_lines slices) \<le> 46"
    "slice_lines (hd slices) = min (headerSliceLines + 1) (endLine - startLine + 1)"
proof -
  obtain header rest where slices: "slices = header # rest" and len: "length rest \<le> 3"
    and view: "view = ''signature_plus_slices''"
    and header: "sl_StartLine header = startLine" "sl_EndLine header = min (startLine + 12) endLine"
    and rest: "\<forall>s \<in> set rest. slice_lines s \<le> 11"
    using salient.slices_shape [OF assms(1,3,2) assms(4) [unfolded SliceDefinition_def]]
    by (fastforce simp: good_slice_def slice_lines_def)
  have "sum_list (map slice_lines rest) \<le> 11 * int (length rest)"
    using slice_lines_sum [OF rest] by simp
  then have "sum_list (map slice_lines rest) \<le> 33" using len by linarith
  then show "view = ''signature_plus_slices''" "sum_list (map slice_lines slices) \<le> 46"
    "slice_lines (hd slices) = min (headerSliceLines + 1) (endLine - startLine + 1)"
    using slices header view by (auto simp: slice_lines_def headerSliceLines_def)
qed

text \<open>
  The excerpt has a constant size: the slices of a definition never span more than 46 lines
  in total, 13 for the header (one more than \<open>headerSliceLines\<close>, because the header's last
  index is inclusive) and 11 for each further slice, whatever the budget is.
\<close>

theorem SliceDefinition_size:
  assumes "1 \<le> startLine" "0 \<le> budgetLines" "endLine - startLine + 1 > budgetLines"
    and "SliceDefinition P source language startLine endLine budgetLines = (sig, slices, view)"
  shows "sum_list (map slice_lines slices) \<le> 46 \<and>
    slice_lines (hd slices) = min (headerSliceLines + 1) (endLine - startLine + 1)"
  using SliceDefinition_total [OF assms] by blast

theorem SliceDefinition_size_witness:
  "\<exists>sig slices view. SliceDefinition (\<lambda>l src. None) demo_source ''go'' 1 3 2 = (sig, slices, view) \<and>
     sum_list (map slice_lines slices) \<le> 46"
proof -
  obtain sig slices view where out:
    "SliceDefinition (\<lambda>l src. None) demo_source ''go'' 1 3 2 = (sig, slices, view)"
    by (cases "SliceDefinition (\<lambda>l src. None) demo_source ''go'' 1 3 2") auto
  from SliceDefinition_size [OF _ _ _ out] show ?thesis using out by auto
qed

end
