(* ===== verification/EngineOutliner.thy ===== *)
theory EngineOutliner
  imports EngineSlicer EngineRouter
begin

text \<open>
  \<open>pkg/engine/outliner.go\<close>: the member outline of a class-like definition, per language, and the
  expansion of its most relevant methods. The member extractors walk the children of the class
  node as the code does; \<open>U\<close> are the Unicode tables that \<open>goVisibility\<close> consults and \<open>P\<close> the
  parser. The ranking of the methods is an interpretation of \<open>stable_ranker\<close>.
\<close>

definition maxOutlineEntries :: nat where "maxOutlineEntries = 12"
definition outlineMethodThreshold :: int where "outlineMethodThreshold = 160"
definition maxTopMethods :: nat where "maxTopMethods = 4"

definition classLikeTypes :: "string list" where
  "classLikeTypes = [''class'', ''struct'', ''interface'', ''module'', ''trait'', ''enum'']"

definition IsClassLikeType :: "string \<Rightarrow> bool" where
  "IsClassLikeType symbolType \<longleftrightarrow> to_lower symbolType \<in> set classLikeTypes"

definition failureCues :: "string list" where
  "failureCues =
     [''error'', ''err '', ''exception'', ''failed'', ''failure'', ''bug'',
      ''fix'', ''panic'', ''stack'', ''trace'', ''crash'', ''fault'', ''debug'', ''broken'']"

definition isFailureCueQuery :: "string \<Rightarrow> bool" where
  "isFailureCueQuery query = (let l = to_lower query in list_ex (\<lambda>cue. contains l cue) failureCues)"

section \<open>Helpers\<close>

definition findChildByKind :: "ts_node \<Rightarrow> string \<Rightarrow> ts_node option" where
  "findChildByKind node kind = find (\<lambda>c. ts_kind c = kind) (named_children node)"

definition isAnnotationLine :: "string \<Rightarrow> bool" where
  "isAnnotationLine line \<longleftrightarrow> has_prefix line ''@'' \<or> has_prefix line ''#[''"

definition firstLine :: "string \<Rightarrow> string" where
  "firstLine s = takeWhile (\<lambda>c. c \<noteq> newline) s"

text \<open>The first trimmed line that is neither empty nor an annotation.\<close>

definition first_declaration :: "string list \<Rightarrow> string option" where
  "first_declaration lines = find (\<lambda>t. t \<noteq> [] \<and> \<not> isAnnotationLine t) (map trim_space lines)"

definition declarationLine :: "ts_node \<Rightarrow> string \<Rightarrow> string" where
  "declarationLine node source =
     (let content = node_text source node
      in case first_declaration (split_on newline content) of
           Some t \<Rightarrow> t
         | None \<Rightarrow> trim_space (firstLine content))"

definition signatureLine :: "string \<Rightarrow> int \<Rightarrow> string" where
  "signatureLine source startLine =
     (let lines = split_on newline source
      in case first_declaration (drop (nat (startLine - 1)) lines) of
           Some t \<Rightarrow> t
         | None \<Rightarrow> if startLine - 1 < int (length lines)
                   then trim_space (lines ! nat (startLine - 1)) else [])"

text \<open>The text of the child in a field, or the empty string.\<close>

definition field_text :: "ts_node \<Rightarrow> string \<Rightarrow> string \<Rightarrow> string" where
  "field_text node field source =
     (case child_by_field node field of None \<Rightarrow> [] | Some c \<Rightarrow> node_text source c)"

definition outline_entry :: "string \<Rightarrow> string \<Rightarrow> ts_node \<Rightarrow> string \<Rightarrow> string \<Rightarrow> OutlineEntry" where
  "outline_entry name kind node signature visibility =
     \<lparr>oe_Name = name, oe_Kind = kind, oe_Line = start_line node, oe_EndLine = end_line node,
      oe_Signature = signature, oe_Visibility = visibility\<rparr>"

section \<open>Finding the class node\<close>

definition classNodeKinds :: "string list" where
  "classNodeKinds =
     [''type_declaration'', ''type_spec'', ''class_definition'',
      ''class_declaration'', ''interface_declaration'', ''enum_declaration'',
      ''abstract_class_declaration'', ''struct_item'', ''trait_item'', ''enum_item'',
      ''class_specifier'', ''struct_specifier'']"

definition is_class_node :: "string \<Rightarrow> string \<Rightarrow> int \<Rightarrow> ts_node \<Rightarrow> bool" where
  "is_class_node source symbolName startLine node \<longleftrightarrow>
     ts_kind node \<in> set classNodeKinds \<and> start_line node = startLine \<and>
     (case child_by_field node ''name'' of None \<Rightarrow> False | Some c \<Rightarrow> node_text source c = symbolName)"

fun findClassNode :: "string \<Rightarrow> string \<Rightarrow> int \<Rightarrow> ts_node \<Rightarrow> ts_node option"
  and findClassNodes :: "string \<Rightarrow> string \<Rightarrow> int \<Rightarrow> ts_node list \<Rightarrow> ts_node option" where
  "findClassNode source symbolName startLine (TsNode k sb eb sr er nm f cs) =
     (if is_class_node source symbolName startLine (TsNode k sb eb sr er nm f cs)
      then Some (TsNode k sb eb sr er nm f cs)
      else findClassNodes source symbolName startLine cs)"
| "findClassNodes source symbolName startLine [] = None"
| "findClassNodes source symbolName startLine (c # cs) =
     (if ts_named c then
        (case findClassNode source symbolName startLine c of
           Some r \<Rightarrow> Some r
         | None \<Rightarrow> findClassNodes source symbolName startLine cs)
      else findClassNodes source symbolName startLine cs)"

section \<open>Go\<close>

definition goVisibility :: "unicode_tables \<Rightarrow> string \<Rightarrow> string" where
  "goVisibility U name =
     (if name = [] then []
      else if is_upper U (hd (runes name)) then ''public'' else ''private'')"

text \<open>The name of the first \<open>field_identifier\<close> child, or the empty string.\<close>

definition field_identifier_name :: "ts_node \<Rightarrow> string \<Rightarrow> string" where
  "field_identifier_name node source =
     (case findChildByKind node ''field_identifier'' of None \<Rightarrow> [] | Some c \<Rightarrow> node_text source c)"

definition empty_entry :: OutlineEntry where
  "empty_entry = \<lparr>oe_Name = [], oe_Kind = [], oe_Line = 0, oe_EndLine = 0, oe_Signature = [], oe_Visibility = []\<rparr>"

definition goMemberEntry :: "unicode_tables \<Rightarrow> ts_node \<Rightarrow> string \<Rightarrow> OutlineEntry" where
  "goMemberEntry U node source =
     (if ts_kind node = ''field_declaration'' then
        (let name0 = field_identifier_name node source;
             name = (if name0 = [] then trim_space (firstLine (node_text source node)) else name0)
         in outline_entry name ''field'' node (trim_space (firstLine (node_text source node))) (goVisibility U name))
      else if ts_kind node = ''method_spec'' \<or> ts_kind node = ''method_elem'' then
        (let name0 = field_text node ''name'' source;
             name = (if name0 = [] then field_identifier_name node source else name0)
         in outline_entry name ''method'' node (trim_space (firstLine (node_text source node))) (goVisibility U name))
      else empty_entry)"

definition findGoMethodsByReceiver :: "unicode_tables \<Rightarrow> ts_node \<Rightarrow> string \<Rightarrow> string \<Rightarrow> OutlineEntry list" where
  "findGoMethodsByReceiver U rootNode source typeName =
     concat (map (\<lambda>child.
       if ts_kind child \<noteq> ''method_declaration'' then []
       else case child_by_field child ''receiver'' of
              None \<Rightarrow> []
            | Some rec \<Rightarrow>
                if \<not> contains (node_text source rec) typeName then []
                else let name = field_text child ''name'' source
                     in if name = [] then []
                        else [outline_entry name ''method'' child (declarationLine child source) (goVisibility U name)])
       (named_children rootNode))"

definition named_entries :: "OutlineEntry list \<Rightarrow> OutlineEntry list" where
  "named_entries es = filter (\<lambda>e. oe_Name e \<noteq> []) es"

definition extractGoMembers ::
  "unicode_tables \<Rightarrow> ts_node \<Rightarrow> ts_node \<Rightarrow> string \<Rightarrow> string \<Rightarrow> OutlineEntry list" where
  "extractGoMembers U rootNode classNode source symbolName =
     (let typeNode = (case child_by_field classNode ''type'' of None \<Rightarrow> classNode | Some t \<Rightarrow> t);
          entries =
            (if ts_kind typeNode = ''struct_type'' then
               (case findChildByKind typeNode ''field_declaration_list'' of
                  None \<Rightarrow> []
                | Some body \<Rightarrow> named_entries (map (\<lambda>c. goMemberEntry U c source) (named_children body)))
             else if ts_kind typeNode = ''interface_type'' then
               named_entries (map (\<lambda>c. goMemberEntry U c source) (named_children typeNode))
             else [])
      in entries @ findGoMethodsByReceiver U rootNode source symbolName)"

section \<open>Python\<close>

definition pythonVisibility :: "string \<Rightarrow> string" where
  "pythonVisibility name =
     (if has_prefix name ''__'' \<and> \<not> has_suffix name ''__'' then ''private''
      else if has_prefix name ''_'' then ''private''
      else ''public'')"

definition python_is_function :: "string \<Rightarrow> bool" where
  "python_is_function k \<longleftrightarrow> k = ''function_definition'' \<or> k = ''async_function_definition''"

definition python_member :: "string \<Rightarrow> ts_node \<Rightarrow> OutlineEntry list" where
  "python_member source child =
     (if python_is_function (ts_kind child) then
        (let name = field_text child ''name'' source;
             kind = (if name = ''__init__'' then ''constructor'' else ''method'')
         in [outline_entry name kind child (declarationLine child source) (pythonVisibility name)])
      else if ts_kind child = ''expression_statement'' then
        (let content = declarationLine child source
         in if contains content ''='' then
              (let name0 = trim_space (takeWhile (\<lambda>c. c \<noteq> CHR ''='') content);
                   name = (if CHR '':'' \<in> set name0 then trim_space (takeWhile (\<lambda>c. c \<noteq> CHR '':'') name0) else name0)
               in [outline_entry name ''field'' child content (pythonVisibility name)])
            else [])
      else if ts_kind child = ''decorated_definition'' then
        concat (map (\<lambda>inner.
          if python_is_function (ts_kind inner) then
            (let name = field_text inner ''name'' source
             in [outline_entry name ''method'' child (declarationLine inner source) (pythonVisibility name)])
          else []) (named_children child))
      else [])"

definition extractPythonMembers :: "ts_node \<Rightarrow> string \<Rightarrow> OutlineEntry list" where
  "extractPythonMembers classNode source =
     (case child_by_field classNode ''body'' of
        None \<Rightarrow> []
      | Some body \<Rightarrow> concat (map (python_member source) (named_children body)))"

section \<open>Java\<close>

definition extractJavaFieldName :: "ts_node \<Rightarrow> string \<Rightarrow> string" where
  "extractJavaFieldName node source =
     (case find (\<lambda>c. ts_kind c = ''variable_declarator'' \<and> child_by_field c ''name'' \<noteq> None) (named_children node) of
        None \<Rightarrow> [] | Some c \<Rightarrow> field_text c ''name'' source)"

fun java_modifiers :: "string \<Rightarrow> ts_node list \<Rightarrow> string" where
  "java_modifiers source [] = []"
| "java_modifiers source (c # cs) =
     (if ts_kind c = ''modifiers'' then
        (let content = node_text source c
         in if contains content ''public'' then ''public''
            else if contains content ''private'' then ''private''
            else if contains content ''protected'' then ''protected''
            else java_modifiers source cs)
      else java_modifiers source cs)"

definition javaVisibility :: "ts_node \<Rightarrow> string \<Rightarrow> string" where
  "javaVisibility node source = java_modifiers source (ts_children node)"

definition java_member :: "string \<Rightarrow> ts_node \<Rightarrow> OutlineEntry list" where
  "java_member source child =
     (let k = ts_kind child; decl = declarationLine child source; vis = javaVisibility child source
      in if k = ''method_declaration'' then
           [outline_entry (field_text child ''name'' source) ''method'' child decl vis]
         else if k = ''constructor_declaration'' then
           [outline_entry (field_text child ''name'' source) ''constructor'' child decl vis]
         else if k = ''field_declaration'' then
           [outline_entry (extractJavaFieldName child source) ''field'' child decl vis]
         else if k \<in> set [''class_declaration'', ''interface_declaration'', ''enum_declaration''] then
           [outline_entry (field_text child ''name'' source) ''nested_type'' child decl vis]
         else [])"

definition extractJavaMembers :: "ts_node \<Rightarrow> string \<Rightarrow> OutlineEntry list" where
  "extractJavaMembers classNode source =
     (case child_by_field classNode ''body'' of
        None \<Rightarrow> []
      | Some body \<Rightarrow> concat (map (java_member source) (named_children body)))"

section \<open>JavaScript and TypeScript\<close>

definition jstsVisibility :: "ts_node \<Rightarrow> string \<Rightarrow> string" where
  "jstsVisibility node source =
     (let decl = declarationLine node source
      in if has_prefix decl ''private '' \<or> has_prefix decl ''#'' then ''private''
         else if has_prefix decl ''protected '' then ''protected''
         else if has_prefix decl ''public '' then ''public''
         else ''public'')"

definition jsts_member :: "string \<Rightarrow> ts_node \<Rightarrow> OutlineEntry list" where
  "jsts_member source child =
     (if ts_kind child = ''method_definition'' then
        (let name = field_text child ''name'' source;
             kind = (if name = ''constructor'' then ''constructor'' else ''method'')
         in [outline_entry name kind child (declarationLine child source) (jstsVisibility child source)])
      else if ts_kind child = ''field_definition'' \<or> ts_kind child = ''public_field_definition'' then
        (let name0 = field_text child ''property'' source;
             name = (if name0 = [] then field_text child ''name'' source else name0)
         in [outline_entry name ''field'' child (declarationLine child source) (jstsVisibility child source)])
      else [])"

definition extractJSTSMembers :: "ts_node \<Rightarrow> string \<Rightarrow> OutlineEntry list" where
  "extractJSTSMembers classNode source =
     (case child_by_field classNode ''body'' of
        None \<Rightarrow> []
      | Some body \<Rightarrow> concat (map (jsts_member source) (named_children body)))"

section \<open>Rust\<close>

definition rustVisibility :: "ts_node \<Rightarrow> string \<Rightarrow> string" where
  "rustVisibility node source =
     (if has_prefix (trim_space (node_text source node)) ''pub'' then ''public'' else ''private'')"

definition rust_field :: "string \<Rightarrow> ts_node \<Rightarrow> OutlineEntry list" where
  "rust_field source child =
     (if ts_kind child \<noteq> ''field_declaration'' then []
      else [outline_entry (field_text child ''name'' source) ''field'' child
              (declarationLine child source) (rustVisibility child source)])"

definition rust_fn :: "string \<Rightarrow> ts_node \<Rightarrow> OutlineEntry list" where
  "rust_fn source fn =
     (if ts_kind fn \<noteq> ''function_item'' then []
      else let name = field_text fn ''name'' source;
               kind = (if name = ''new'' then ''constructor'' else ''method'')
           in [outline_entry name kind fn (declarationLine fn source) (rustVisibility fn source)])"

definition rust_impl :: "string \<Rightarrow> string \<Rightarrow> ts_node \<Rightarrow> OutlineEntry list" where
  "rust_impl source symbolName child =
     (if ts_kind child \<noteq> ''impl_item'' then []
      else case child_by_field child ''type'' of
             None \<Rightarrow> []
           | Some typeNode \<Rightarrow>
               if node_text source typeNode \<noteq> symbolName then []
               else case findChildByKind child ''declaration_list'' of
                      None \<Rightarrow> []
                    | Some implBody \<Rightarrow> concat (map (rust_fn source) (named_children implBody)))"

definition extractRustMembers :: "ts_node \<Rightarrow> ts_node \<Rightarrow> string \<Rightarrow> string \<Rightarrow> OutlineEntry list" where
  "extractRustMembers rootNode classNode source symbolName =
     (case findChildByKind classNode ''field_declaration_list'' of
        None \<Rightarrow> []
      | Some body \<Rightarrow> concat (map (rust_field source) (named_children body))) @
     concat (map (rust_impl source symbolName) (named_children rootNode))"

section \<open>C++\<close>

definition extractCPPFunctionName :: "ts_node \<Rightarrow> string \<Rightarrow> string" where
  "extractCPPFunctionName node source =
     (case child_by_field node ''declarator'' of
        None \<Rightarrow> []
      | Some declNode \<Rightarrow>
          (case child_by_field declNode ''declarator'' of
             Some inner \<Rightarrow> node_text source inner
           | None \<Rightarrow> node_text source declNode))"

definition extractCPPDeclName :: "ts_node \<Rightarrow> string \<Rightarrow> string" where
  "extractCPPDeclName node source = field_text node ''declarator'' source"

text \<open>The loop over the members, with the visibility of the last access specifier.\<close>

fun cpp_members :: "string \<Rightarrow> string \<Rightarrow> ts_node list \<Rightarrow> OutlineEntry list" where
  "cpp_members source currentVisibility [] = []"
| "cpp_members source currentVisibility (child # rest) =
     (if ts_kind child = ''access_specifier'' then
        cpp_members source (trim_space (trim_suffix (trim_space (node_text source child)) '':'')) rest
      else if ts_kind child = ''function_definition'' then
        outline_entry (extractCPPFunctionName child source) ''method'' child
          (declarationLine child source) currentVisibility # cpp_members source currentVisibility rest
      else if ts_kind child = ''declaration'' \<or> ts_kind child = ''field_declaration'' then
        outline_entry (extractCPPDeclName child source) ''field'' child
          (declarationLine child source) currentVisibility # cpp_members source currentVisibility rest
      else cpp_members source currentVisibility rest)"

definition extractCPPMembers :: "ts_node \<Rightarrow> string \<Rightarrow> OutlineEntry list" where
  "extractCPPMembers classNode source =
     (case findChildByKind classNode ''field_declaration_list'' of
        None \<Rightarrow> []
      | Some body \<Rightarrow> cpp_members source ''private'' (named_children body))"

section \<open>Dispatch\<close>

definition extractMembers ::
  "unicode_tables \<Rightarrow> ts_node \<Rightarrow> string \<Rightarrow> string \<Rightarrow> string \<Rightarrow> int \<Rightarrow> OutlineEntry list" where
  "extractMembers U rootNode source language symbolName startLine =
     (case findClassNode source symbolName startLine rootNode of
        None \<Rightarrow> []
      | Some classNode \<Rightarrow>
          take maxOutlineEntries
            (if language = ''go'' then extractGoMembers U rootNode classNode source symbolName
             else if language = ''python'' then extractPythonMembers classNode source
             else if language = ''java'' then extractJavaMembers classNode source
             else if language = ''javascript'' \<or> language = ''typescript'' then extractJSTSMembers classNode source
             else if language = ''rust'' then extractRustMembers rootNode classNode source symbolName
             else if language = ''cpp'' then extractCPPMembers classNode source
             else []))"

section \<open>Ranking and expansion of methods\<close>

definition isConstructorName :: "string \<Rightarrow> bool" where
  "isConstructorName name \<longleftrightarrow>
     (let l = to_lower name
      in l = ''__init__'' \<or> l = ''constructor'' \<or> l = ''new'' \<or> l = ''init'' \<or> has_prefix name ''New'')"

definition is_constructor :: "OutlineEntry \<Rightarrow> bool" where
  "is_constructor e \<longleftrightarrow> oe_Kind e = ''constructor'' \<or> isConstructorName (oe_Name e)"

definition rankReason :: "OutlineEntry \<Rightarrow> string" where
  "rankReason entry =
     (let parts = (if is_constructor entry then [''constructor''] else []) @
                  (if oe_Visibility entry = ''public'' then [''public''] else [])
      in join '', '' (if parts = [] then [''relevant''] else parts))"

definition methodScore :: "string list \<Rightarrow> int \<Rightarrow> OutlineEntry \<Rightarrow> int" where
  "methodScore queryWords firstQuartile e =
     (let bodySize = oe_EndLine e - oe_Line e + 1
      in (if is_constructor e then 5 else 0) +
         (if oe_Visibility e = ''public'' then 3 else 0) +
         (if bodySize \<ge> 10 \<and> bodySize \<le> 40 then 2 else 0) +
         (if list_ex (\<lambda>w. contains (to_lower (oe_Name e)) w) queryWords then 2 else 0) +
         (if oe_Line e \<le> firstQuartile then 1 else 0) -
         (if oe_EndLine e = oe_Line e then 1 else 0))"

definition first_quartile :: "OutlineEntry list \<Rightarrow> int" where
  "first_quartile entries =
     (if entries = [] then 0
      else oe_Line (hd entries) + go_quot (oe_Line (last entries) - oe_Line (hd entries)) 4)"

definition rankMethods :: "OutlineEntry list \<Rightarrow> string \<Rightarrow> OutlineEntry list" where
  "rankMethods entries query =
     (let queryWords = str_fields (to_lower query);
          firstQuartile = first_quartile entries;
          items = map (\<lambda>e. (e, methodScore queryWords firstQuartile e)) entries
      in map fst (stable_desc snd items))"

definition is_method :: "OutlineEntry \<Rightarrow> bool" where
  "is_method e \<longleftrightarrow> oe_Kind e = ''method'' \<or> oe_Kind e = ''constructor''"

definition method_lines :: "OutlineEntry \<Rightarrow> int" where
  "method_lines e = oe_EndLine e - oe_Line e + 1"

text \<open>The expansion loop; \<open>room\<close> is how many methods may still be taken.\<close>

fun expand_methods :: "string list \<Rightarrow> int \<Rightarrow> nat \<Rightarrow> int \<Rightarrow> OutlineEntry list \<Rightarrow> CodeSlice list" where
  "expand_methods lines budgetLines room usedLines [] = []"
| "expand_methods lines budgetLines room usedLines (entry # rest) =
     (if room = 0 then []
      else if usedLines + method_lines entry > budgetLines then []
      else \<lparr>sl_Label = ''Method: '' @ oe_Name entry, sl_StartLine = oe_Line entry, sl_EndLine = oe_EndLine entry,
             sl_Reason = rankReason entry,
             sl_Code = joinLines lines (oe_Line entry - 1) (oe_EndLine entry - 1)\<rparr> #
           expand_methods lines budgetLines (room - 1) (usedLines + method_lines entry) rest)"

definition selectAndExpandTopMethods :: "OutlineEntry list \<Rightarrow> string \<Rightarrow> string \<Rightarrow> int \<Rightarrow> CodeSlice list" where
  "selectAndExpandTopMethods outline source query budgetLines =
     (let methods = filter is_method outline
      in if methods = [] then []
         else expand_methods (split_on newline source) budgetLines maxTopMethods 0 (rankMethods methods query))"

definition OutlineClassDefinition ::
  "unicode_tables \<Rightarrow> ts_parser \<Rightarrow> string \<Rightarrow> string \<Rightarrow> string \<Rightarrow> int \<Rightarrow> int \<Rightarrow> int \<Rightarrow>
   string \<times> OutlineEntry list \<times> CodeSlice list \<times> string" where
  "OutlineClassDefinition U P source language symbolName startLine endLine budgetLines =
     (let bodyLines = endLine - startLine + 1
      in if bodyLines \<le> budgetLines then (extractSignature source startLine, [], [], ''full_body'')
         else let sig = signatureLine source startLine
              in case GetLanguage language of
                   None \<Rightarrow> (sig, [], [], [])
                 | Some lang \<Rightarrow>
                     (case P lang source of
                        None \<Rightarrow> (sig, [], [], [])
                      | Some rootNode \<Rightarrow>
                          let outline = extractMembers U rootNode source language symbolName startLine;
                              topMethods = (if bodyLines > outlineMethodThreshold
                                            then selectAndExpandTopMethods outline source [] budgetLines else [])
                          in (sig, outline, topMethods, ''signature_plus_outline'')))"

section \<open>The class node\<close>

text \<open>The named nodes in document order, the reference for \<open>findClassNode\<close>.\<close>

fun named_nodes :: "ts_node \<Rightarrow> ts_node list" where
  "named_nodes (TsNode k sb eb sr er nm f cs) =
     TsNode k sb eb sr er nm f cs # concat (map (\<lambda>c. if ts_named c then named_nodes c else []) cs)"

lemma find_append:
  "find Q (xs @ ys) = (case find Q xs of Some x \<Rightarrow> Some x | None \<Rightarrow> find Q ys)"
  by (induction xs) auto

lemma findClassNodes_find:
  assumes "\<And>c. c \<in> set cs \<Longrightarrow>
      findClassNode source symbolName startLine c = find (is_class_node source symbolName startLine) (named_nodes c)"
  shows "findClassNodes source symbolName startLine cs =
    find (is_class_node source symbolName startLine)
      (concat (map (\<lambda>c. if ts_named c then named_nodes c else []) cs))"
  using assms
proof (induction cs)
  case Nil
  then show ?case by simp
next
  case (Cons c cs)
  have "findClassNode source symbolName startLine c =
      find (is_class_node source symbolName startLine) (named_nodes c)"
    by (rule Cons.prems) simp
  moreover have "findClassNodes source symbolName startLine cs =
      find (is_class_node source symbolName startLine)
        (concat (map (\<lambda>c. if ts_named c then named_nodes c else []) cs))"
    by (rule Cons.IH) (rule Cons.prems, simp)
  ultimately show ?case by (simp add: find_append split: option.split)
qed

lemma findClassNode_find:
  "findClassNode source symbolName startLine n =
     find (is_class_node source symbolName startLine) (named_nodes n)"
proof (induction n)
  case (TsNode k sb eb sr er nm f cs)
  then show ?case by (simp add: findClassNodes_find)
qed

lemma named_nodes_wf: "ts_wf src n \<Longrightarrow> m \<in> set (named_nodes n) \<Longrightarrow> ts_wf src m"
proof (induction n)
  case (TsNode k sb eb sr er nm f cs)
  then show ?case by (auto simp: list_all_iff split: if_splits)
qed

lemma findClassNode_SomeD:
  "findClassNode source symbolName startLine n = Some c \<Longrightarrow>
     is_class_node source symbolName startLine c \<and> c \<in> set (named_nodes n)"
  by (auto simp: findClassNode_find find_Some_iff)

section \<open>Every outline entry lies in the file\<close>

definition entry_in_file :: "string \<Rightarrow> OutlineEntry \<Rightarrow> bool" where
  "entry_in_file source e \<longleftrightarrow>
     1 \<le> oe_Line e \<and> oe_Line e \<le> oe_EndLine e \<and> oe_EndLine e \<le> int (length (split_on newline source))"

lemma outline_entry_in_file: "ts_wf source n \<Longrightarrow> entry_in_file source (outline_entry name kind n sig vis)"
  using ts_wf_lines [of source n] by (simp add: entry_in_file_def outline_entry_def)

lemma named_child_wf: "ts_wf source n \<Longrightarrow> c \<in> set (named_children n) \<Longrightarrow> ts_wf source c"
  using named_children_subset ts_wf_child by blast

lemma field_child_wf: "ts_wf source n \<Longrightarrow> child_by_field n f = Some c \<Longrightarrow> ts_wf source c"
  using child_by_field_mem ts_wf_child by blast

lemma kind_child_wf: "ts_wf source n \<Longrightarrow> findChildByKind n k = Some c \<Longrightarrow> ts_wf source c"
  using named_child_wf by (auto simp: findChildByKind_def find_Some_iff)

lemmas child_wf = named_child_wf field_child_wf kind_child_wf

text \<open>The same for a list of entries, with one rule per construct of the extractors.\<close>

definition all_in_file :: "string \<Rightarrow> OutlineEntry list \<Rightarrow> bool" where
  "all_in_file source es \<longleftrightarrow> (\<forall>e \<in> set es. entry_in_file source e)"

lemma all_in_file_simps [simp]:
  "all_in_file source []"
  "all_in_file source (e # es) \<longleftrightarrow> entry_in_file source e \<and> all_in_file source es"
  "all_in_file source (es @ es') \<longleftrightarrow> all_in_file source es \<and> all_in_file source es'"
  by (auto simp: all_in_file_def)

lemma all_in_file_if:
  "(b \<Longrightarrow> all_in_file source es) \<Longrightarrow> (\<not> b \<Longrightarrow> all_in_file source es') \<Longrightarrow> all_in_file source (if b then es else es')"
  by simp

lemma all_in_file_concat:
  "(\<And>c. c \<in> set cs \<Longrightarrow> all_in_file source (f c)) \<Longrightarrow> all_in_file source (concat (map f cs))"
  by (auto simp: all_in_file_def)

lemma all_in_file_case:
  "(\<And>x. opt = Some x \<Longrightarrow> all_in_file source (f x)) \<Longrightarrow>
   all_in_file source (case opt of None \<Rightarrow> [] | Some x \<Rightarrow> f x)"
  by (cases opt) auto

lemma all_in_file_one: "ts_wf source n \<Longrightarrow> all_in_file source [outline_entry name kind n sig vis]"
  by (simp add: outline_entry_in_file)

lemma all_in_file_take: "all_in_file source es \<Longrightarrow> all_in_file source (take n es)"
  by (auto simp: all_in_file_def dest: in_set_takeD)

lemma all_in_file_named:
  "(\<And>e. e \<in> set es \<Longrightarrow> oe_Name e \<noteq> [] \<Longrightarrow> entry_in_file source e) \<Longrightarrow> all_in_file source (named_entries es)"
  by (auto simp: all_in_file_def named_entries_def)

lemmas all_in_file_intros = all_in_file_if all_in_file_concat all_in_file_case all_in_file_one
  all_in_file_simps(1)

lemma goMemberEntry_in_file:
  assumes "ts_wf source n" and "oe_Name (goMemberEntry U n source) \<noteq> []"
  shows "entry_in_file source (goMemberEntry U n source)"
proof -
  from assms(2) consider name sig vis where "goMemberEntry U n source = outline_entry name ''field'' n sig vis"
    | name sig vis where "goMemberEntry U n source = outline_entry name ''method'' n sig vis"
    unfolding goMemberEntry_def Let_def
    by (cases "ts_kind n = ''field_declaration''"; cases "ts_kind n = ''method_spec'' \<or> ts_kind n = ''method_elem''")
      (simp_all add: empty_entry_def)
  then show ?thesis by cases (simp_all add: outline_entry_in_file assms(1))
qed

lemma go_members_in_file:
  "ts_wf source body \<Longrightarrow>
   all_in_file source (named_entries (map (\<lambda>c. goMemberEntry U c source) (named_children body)))"
  using goMemberEntry_in_file child_wf(1) by (intro all_in_file_named) auto

lemma go_methods_in_file: "ts_wf source rootNode \<Longrightarrow> all_in_file source (findGoMethodsByReceiver U rootNode source typeName)"
  unfolding findGoMethodsByReceiver_def Let_def
  by (intro all_in_file_intros) (auto intro: child_wf)

lemma go_entries_in_file:
  assumes "ts_wf source rootNode" "ts_wf source classNode"
  shows "all_in_file source (extractGoMembers U rootNode classNode source symbolName)"
proof -
  define typeNode where
    "typeNode = (case child_by_field classNode ''type'' of None \<Rightarrow> classNode | Some t \<Rightarrow> t)"
  have wf: "ts_wf source typeNode"
    using assms(2) child_wf(2) by (auto simp: typeNode_def split: option.split)
  show ?thesis
    unfolding extractGoMembers_def Let_def typeNode_def [symmetric] all_in_file_simps(3)
    using wf assms(1)
    by (intro conjI all_in_file_intros go_members_in_file go_methods_in_file) (auto intro: child_wf)
qed

lemma python_entries_in_file: "ts_wf source n \<Longrightarrow> all_in_file source (extractPythonMembers n source)"
  unfolding extractPythonMembers_def python_member_def Let_def
  by (intro all_in_file_intros) (auto intro: child_wf)

lemma java_entries_in_file: "ts_wf source n \<Longrightarrow> all_in_file source (extractJavaMembers n source)"
  unfolding extractJavaMembers_def java_member_def Let_def
  by (intro all_in_file_intros) (auto intro: child_wf)

lemma jsts_entries_in_file: "ts_wf source n \<Longrightarrow> all_in_file source (extractJSTSMembers n source)"
  unfolding extractJSTSMembers_def jsts_member_def Let_def
  by (intro all_in_file_intros) (auto intro: child_wf)

lemma rust_fn_in_file: "ts_wf source n \<Longrightarrow> all_in_file source (rust_fn source n)"
  by (simp add: rust_fn_def Let_def outline_entry_in_file)

lemma rust_impl_in_file:
  assumes "ts_wf source n"
  shows "all_in_file source (rust_impl source symbolName n)"
proof -
  have "all_in_file source (concat (map (rust_fn source) (named_children body)))"
    if "findChildByKind n ''declaration_list'' = Some body" for body
    using that assms child_wf by (intro all_in_file_concat rust_fn_in_file) blast
  then show ?thesis
    unfolding rust_impl_def by (intro all_in_file_if all_in_file_case all_in_file_simps(1)) auto
qed

lemma rust_entries_in_file:
  assumes "ts_wf source rootNode" "ts_wf source classNode"
  shows "all_in_file source (extractRustMembers rootNode classNode source symbolName)"
proof -
  have "all_in_file source (rust_field source c)" if "ts_wf source c" for c
    using that by (simp add: rust_field_def outline_entry_in_file)
  then show ?thesis
    unfolding extractRustMembers_def all_in_file_simps(3) using assms
    by (intro conjI all_in_file_case all_in_file_concat rust_impl_in_file) (auto intro: child_wf)
qed

lemma cpp_members_in_file: "\<forall>c \<in> set cs. ts_wf source c \<Longrightarrow> all_in_file source (cpp_members source vis cs)"
  by (induction source vis cs rule: cpp_members.induct) (simp_all add: outline_entry_in_file)

lemma cpp_entries_in_file: "ts_wf source n \<Longrightarrow> all_in_file source (extractCPPMembers n source)"
  unfolding extractCPPMembers_def
  by (intro all_in_file_intros cpp_members_in_file) (auto intro: child_wf)

lemma extractMembers_in_file:
  assumes "ts_wf source rootNode"
  shows "all_in_file source (extractMembers U rootNode source language symbolName startLine)"
proof -
  have "ts_wf source classNode"
    if "findClassNode source symbolName startLine rootNode = Some classNode" for classNode
    using that findClassNode_SomeD named_nodes_wf assms by blast
  then show ?thesis
    unfolding extractMembers_def using assms
    by (intro all_in_file_intros all_in_file_take go_entries_in_file python_entries_in_file
        java_entries_in_file jsts_entries_in_file rust_entries_in_file cpp_entries_in_file) auto
qed

section \<open>The method ranking and its expansion\<close>

lemma rank_pairs:
  "map fst (stable_desc snd (map (\<lambda>e. (e, methodScore ws q e)) entries)) = stable_desc (methodScore ws q) entries"
  by (rule stable_desc_decorated)

interpretation method_ranker: stable_ranker "methodScore ws q"
  "\<lambda>entries. map fst (stable_desc snd (map (\<lambda>e. (e, methodScore ws q e)) entries))" for ws q
  unfolding rank_pairs by (rule stable_desc_ranker)

lemma methodScore_bounds: "- 1 \<le> methodScore ws q e \<and> methodScore ws q e \<le> 13"
  by (simp add: methodScore_def Let_def)

definition method_slice :: "string list \<Rightarrow> OutlineEntry \<Rightarrow> CodeSlice" where
  "method_slice lines entry =
     \<lparr>sl_Label = ''Method: '' @ oe_Name entry, sl_StartLine = oe_Line entry, sl_EndLine = oe_EndLine entry,
      sl_Reason = rankReason entry,
      sl_Code = joinLines lines (oe_Line entry - 1) (oe_EndLine entry - 1)\<rparr>"

lemma expand_methods_prefix:
  assumes "usedLines \<le> budgetLines"
  shows "\<exists>k \<le> min room (length ms).
    expand_methods lines budgetLines room usedLines ms = map (method_slice lines) (take k ms) \<and>
    usedLines + sum_list (map method_lines (take k ms)) \<le> budgetLines \<and>
    (k < min room (length ms) \<longrightarrow> budgetLines < usedLines + sum_list (map method_lines (take (Suc k) ms)))"
  using assms
proof (induction lines budgetLines room usedLines ms rule: expand_methods.induct)
  case (1 lines budgetLines room usedLines)
  then show ?case by auto
next
  case (2 lines budgetLines room usedLines entry rest)
  show ?case
  proof (cases "room = 0 \<or> usedLines + method_lines entry > budgetLines")
    case True
    with 2 show ?thesis by (intro exI [of _ 0]) auto
  next
    case False
    then obtain k where k: "k \<le> min (room - 1) (length rest)"
      "expand_methods lines budgetLines (room - 1) (usedLines + method_lines entry) rest = map (method_slice lines) (take k rest)"
      "usedLines + method_lines entry + sum_list (map method_lines (take k rest)) \<le> budgetLines"
      "k < min (room - 1) (length rest) \<longrightarrow>
         budgetLines < usedLines + method_lines entry + sum_list (map method_lines (take (Suc k) rest))"
      using 2 by (auto simp: not_less)
    from False have "room \<noteq> 0" by simp
    with False k show ?thesis
      by (intro exI [of _ "Suc k"]) (auto simp: method_slice_def add.assoc)
  qed
qed

lemma rankMethods_rank: "rankMethods ms query =
    stable_desc (methodScore (str_fields (to_lower query)) (first_quartile ms)) ms"
  unfolding rankMethods_def Let_def by (rule stable_desc_decorated)

lemma rankMethods_top:
  "x \<in> set (take k (rankMethods ms query)) \<Longrightarrow> y \<in> set (drop k (rankMethods ms query)) \<Longrightarrow>
   methodScore (str_fields (to_lower query)) (first_quartile ms) y
     \<le> methodScore (str_fields (to_lower query)) (first_quartile ms) x"
  unfolding rankMethods_def Let_def by (rule method_ranker.rank_top)

lemma rankMethods_length: "length (rankMethods ms query) = length ms"
  unfolding rankMethods_def Let_def by (rule method_ranker.rank_length)

text \<open>The methods shown never exceed the budget.\<close>

lemma selectAndExpand_total:
  assumes "0 \<le> budgetLines"
  shows "sum_list (map slice_lines (selectAndExpandTopMethods outline source query budgetLines)) \<le> budgetLines"
proof -
  have "slice_lines (method_slice lines m) = method_lines m" for lines m
    by (simp add: slice_lines_def method_slice_def method_lines_def)
  then show ?thesis
    using expand_methods_prefix [OF assms, of maxTopMethods "rankMethods (filter is_method outline) query"
        "split_on newline source"] assms
    by (auto simp: selectAndExpandTopMethods_def Let_def comp_def)
qed

lemma OutlineClassDefinition_total:
  assumes "OutlineClassDefinition U P source language symbolName startLine endLine budgetLines =
      (sig, outline, topMethods, ''signature_plus_outline'')" and "0 \<le> budgetLines"
  shows "sum_list (map slice_lines topMethods) \<le> budgetLines" "length outline \<le> maxOutlineEntries"
proof -
  have len: "length (extractMembers U rootNode source language symbolName startLine) \<le> maxOutlineEntries" for rootNode
    by (simp add: extractMembers_def split: option.split)
  show "sum_list (map slice_lines topMethods) \<le> budgetLines" "length outline \<le> maxOutlineEntries"
    using assms(1) selectAndExpand_total [OF assms(2)] assms(2) len
    by (auto simp: OutlineClassDefinition_def Let_def split: if_splits option.splits)
qed

section \<open>Properties\<close>

text \<open>
  The search for the class node is a pre-order search of the named nodes: it returns the
  first node in document order that has a class kind, starts on the definition's line and whose
  name field reads the symbol, and nothing when there is none.
\<close>

theorem findClassNode_first:
  "findClassNode source symbolName startLine n =
     find (is_class_node source symbolName startLine) (named_nodes n)"
  by (rule findClassNode_find)

text \<open>
  Whatever the language, the outline has at most twelve members, and on a well-formed tree
  every member's lines lie inside the file.
\<close>

theorem extractMembers_entries:
  assumes "ts_wf source rootNode"
  shows "length (extractMembers U rootNode source language symbolName startLine) \<le> maxOutlineEntries \<and>
    (\<forall>e \<in> set (extractMembers U rootNode source language symbolName startLine).
       1 \<le> oe_Line e \<and> oe_Line e \<le> oe_EndLine e \<and> oe_EndLine e \<le> int (length (split_on newline source)))"
proof
  show "length (extractMembers U rootNode source language symbolName startLine) \<le> maxOutlineEntries"
    by (simp add: extractMembers_def split: option.split)
qed (use extractMembers_in_file [OF assms] in \<open>simp add: all_in_file_def entry_in_file_def\<close>)

lemma demo_class_outline:
  "map (\<lambda>e. (oe_Name e, oe_Kind e, oe_Line e, oe_EndLine e, oe_Signature e))
     (extractMembers ascii_tables demo_class_tree demo_class ''python'' ''A'' 1) =
   [(''f'', ''method'', 2, 3, ''def f(self):'')]"
  by code_simp

theorem extractMembers_entries_witness:
  "length (extractMembers ascii_tables demo_class_tree demo_class ''python'' ''A'' 1) \<le> maxOutlineEntries \<and>
   map oe_EndLine (extractMembers ascii_tables demo_class_tree demo_class ''python'' ''A'' 1) = [3]"
  using extractMembers_entries [OF demo_class_wf, of ascii_tables "''python''" "''A''" 1]
    arg_cong [OF demo_class_outline, of "map (\<lambda>(a, b, c, d, e). d)"]
  by (simp add: comp_def)

text \<open>
  The expansion of the methods: the bodies shown are those of the \<open>k\<close> best-scored methods
  of the outline, at most four of them and best first; together they fit the line budget; and
  with the next method either the budget or the limit of four is exceeded.
\<close>

theorem selectAndExpandTopMethods_top:
  assumes "0 \<le> budgetLines"
  shows "\<exists>k. let methods = filter is_method outline;
                 ranked = rankMethods methods query;
                 score = methodScore (str_fields (to_lower query)) (first_quartile methods)
             in k \<le> 4 \<and> k \<le> length methods \<and>
                selectAndExpandTopMethods outline source query budgetLines =
                  map (method_slice (split_on newline source)) (take k ranked) \<and>
                sum_list (map method_lines (take k ranked)) \<le> budgetLines \<and>
                (k < 4 \<and> k < length methods \<longrightarrow> budgetLines < sum_list (map method_lines (take (Suc k) ranked))) \<and>
                (\<forall>x \<in> set (take k ranked). \<forall>y \<in> set (drop k ranked). score y \<le> score x)"
proof -
  let ?ms = "filter is_method outline"
  obtain k where "k \<le> min maxTopMethods (length (rankMethods ?ms query))"
    "expand_methods (split_on newline source) budgetLines maxTopMethods 0 (rankMethods ?ms query) =
       map (method_slice (split_on newline source)) (take k (rankMethods ?ms query))"
    "sum_list (map method_lines (take k (rankMethods ?ms query))) \<le> budgetLines"
    "k < min maxTopMethods (length (rankMethods ?ms query)) \<longrightarrow>
       budgetLines < sum_list (map method_lines (take (Suc k) (rankMethods ?ms query)))"
    using expand_methods_prefix [OF assms, of maxTopMethods "rankMethods ?ms query" "split_on newline source"]
    by auto
  moreover have "?ms = [] \<Longrightarrow> rankMethods ?ms query = []"
    using rankMethods_length [of "[]" query] by simp
  ultimately show ?thesis
    using rankMethods_top [of _ k ?ms query]
    by (intro exI [of _ k]) (auto simp: selectAndExpandTopMethods_def rankMethods_length maxTopMethods_def Let_def)
qed

definition demo_outline :: "OutlineEntry list" where
  "demo_outline =
     [\<lparr>oe_Name = ''run'', oe_Kind = ''method'', oe_Line = 5, oe_EndLine = 30, oe_Signature = [], oe_Visibility = ''private''\<rparr>,
      \<lparr>oe_Name = ''NewPool'', oe_Kind = ''method'', oe_Line = 40, oe_EndLine = 44, oe_Signature = [], oe_Visibility = ''public''\<rparr>,
      \<lparr>oe_Name = ''count'', oe_Kind = ''field'', oe_Line = 46, oe_EndLine = 46, oe_Signature = [], oe_Visibility = ''private''\<rparr>]"

lemma demo_outline_expansion:
  "map sl_Label (selectAndExpandTopMethods demo_outline [] [] 20) = [''Method: NewPool'']"
  by code_simp

theorem selectAndExpandTopMethods_top_witness:
  "map sl_Label (selectAndExpandTopMethods demo_outline [] [] 20) = [''Method: NewPool''] \<and>
   (\<exists>k \<le> 4. sum_list (map method_lines (take k (rankMethods (filter is_method demo_outline) []))) \<le> 20)"
proof -
  have "(0::int) \<le> 20" by simp
  from selectAndExpandTopMethods_top [OF this, of demo_outline "[]" "[]"]
  obtain k where "k \<le> 4"
    "sum_list (map method_lines (take k (rankMethods (filter is_method demo_outline) []))) \<le> 20"
    unfolding Let_def by blast
  with demo_outline_expansion show ?thesis by blast
qed

text \<open>
  The outline has a gap: \<open>GetLanguage\<close> accepts \<open>tsx\<close>, \<open>jsx\<close> and \<open>c\<close> (the names
  \<open>LanguageFromExtension\<close> gives to \<open>.tsx\<close>, \<open>.jsx\<close> and \<open>.h\<close> files), but \<open>extractMembers\<close>
  has no case for them. Over the budget, a class in such a file is reported as
  \<open>signature_plus_outline\<close> with no member and no method, whatever the parser finds.
\<close>

theorem OutlineClassDefinition_gap:
  assumes "ext \<in> {''.tsx'', ''.jsx'', ''.h''}"
    and "GetLanguage (LanguageFromExtension ext) = Some lang" and "P lang source = Some rootNode"
    and "budgetLines < endLine - startLine + 1"
  shows "OutlineClassDefinition U P source (LanguageFromExtension ext) symbolName startLine endLine budgetLines =
    (signatureLine source startLine, [], [], ''signature_plus_outline'')"
proof -
  have "LanguageFromExtension ''.tsx'' = ''tsx''" "LanguageFromExtension ''.jsx'' = ''jsx''"
    "LanguageFromExtension ''.h'' = ''c''"
    by code_simp+
  with assms(1) have "LanguageFromExtension ext \<in> {''tsx'', ''jsx'', ''c''}" by blast
  then have "extractMembers U rootNode source (LanguageFromExtension ext) symbolName startLine = []"
    by (auto simp: extractMembers_def split: option.split)
  then show ?thesis
    using assms(2-4) by (simp add: OutlineClassDefinition_def selectAndExpandTopMethods_def)
qed

theorem OutlineClassDefinition_gap_witness:
  "OutlineClassDefinition ascii_tables (\<lambda>l src. Some demo_class_tree) demo_class
     (LanguageFromExtension ''.h'') ''A'' 1 3 2 = (signatureLine demo_class 1, [], [], ''signature_plus_outline'')"
proof (rule OutlineClassDefinition_gap [where lang = LangCPP])
  show "GetLanguage (LanguageFromExtension ''.h'') = Some LangCPP" by code_simp
qed simp_all

end
