(* ===== verification/EngineQuery.thy ===== *)
theory EngineQuery
  imports EngineBudget EngineRouter EngineScoring EngineOutliner
begin

text \<open>
  \<open>pkg/engine/engine.go\<close>: the unified query. The providers are fields of the engine, each
  present or nil; a provider's answer is a value of the result type \<open>go_error + 'a\<close>, where the
  error carries the text of \<open>err.Error()\<close>. The file system calls of the engine (\<open>os.ReadFile\<close>,
  \<open>os.Stat\<close>) are the fields of \<open>query_env\<close>; the parser and the Unicode tables are those of the
  outliner. The three goroutines of \<open>querySymbol\<close> are tasks that each write one slot of
  \<open>fetch_state\<close>, run in an order \<open>sched\<close> that the scheduler chooses.
\<close>

record query_env =
  env_ReadFile :: "string \<Rightarrow> string option"
  env_Stat :: "string \<Rightarrow> (bool \<times> int) option"
  env_Parse :: ts_parser
  env_Unicode :: unicode_tables

record Engine =
  eng_WorkspaceRoot :: string
  eng_Refs :: "(string \<Rightarrow> string \<Rightarrow> string \<Rightarrow> string \<Rightarrow> (SymReference list \<times> string) go_result) option"
  eng_Callers :: "(string \<Rightarrow> string \<Rightarrow> string \<Rightarrow> int \<Rightarrow> SymCaller list go_result) option"
  eng_Implements :: "(string \<Rightarrow> string \<Rightarrow> string \<Rightarrow> SymImpl list go_result) option"
  eng_Extractor :: "(string \<Rightarrow> string \<Rightarrow> SymDefinition option list go_result) option"
  eng_Search :: "(string \<Rightarrow> string \<Rightarrow> int \<Rightarrow> SymReference list go_result) option"

record QueryOptions =
  opt_Query :: string
  opt_Path :: string
  opt_Depth :: int
  opt_Budget :: string
  opt_Mode :: string

section \<open>Updates of the result\<close>

text \<open>Assignments to the fields of \<open>result.Meta\<close>.\<close>

definition upd_meta :: "(SymMeta \<Rightarrow> SymMeta) \<Rightarrow> SymbolIntelligence \<Rightarrow> SymbolIntelligence" where
  "upd_meta f r = r\<lparr>si_Meta := f (si_Meta r)\<rparr>"

definition add_error :: "string \<Rightarrow> SymbolIntelligence \<Rightarrow> SymbolIntelligence" where
  "add_error e = upd_meta (\<lambda>m. m\<lparr>meta_Errors := meta_Errors m @ [e]\<rparr>)"

definition add_chain :: "string \<Rightarrow> SymbolIntelligence \<Rightarrow> SymbolIntelligence" where
  "add_chain c = upd_meta (\<lambda>m. m\<lparr>meta_SearchChain := meta_SearchChain m @ [c]\<rparr>)"

definition set_hint :: "string \<Rightarrow> SymbolIntelligence \<Rightarrow> SymbolIntelligence" where
  "set_hint h = upd_meta (\<lambda>m. m\<lparr>meta_NextHint := h\<rparr>)"

lemmas meta_updates = upd_meta_def add_error_def add_chain_def set_hint_def

text \<open>\<open>max(1, lines / 2)\<close>, the number of entries that fit a section.\<close>

definition section_items :: "int \<Rightarrow> int" where
  "section_items lines = (let n = go_quot lines 2 in if n < 1 then 1 else n)"

section \<open>The text query\<close>

definition text_candidate :: "string \<Rightarrow> string \<Rightarrow> string \<Rightarrow> SymReference \<Rightarrow> SymCandidate" where
  "text_candidate query kind reason ref =
     \<lparr>cand_Name = query, cand_Type = kind, cand_File = ref_File ref, cand_Reason = reason\<rparr>"

text \<open>The result when the text search finds references, and when the semantic search does.\<close>

definition text_hits :: "SymReference list \<Rightarrow> string \<Rightarrow> int \<Rightarrow> SymbolIntelligence \<Rightarrow> SymbolIntelligence" where
  "text_hits refs source maxItems result =
     (let scored = ScoreReferences refs (ref_File (hd refs)) maxItems
      in upd_meta (\<lambda>m. m\<lparr>meta_Confidence := f64 (1 / 2), meta_RefsTotal := int (length refs),
             meta_RefsShown := int (length scored), meta_RefsSource := source\<rparr>)
           (result\<lparr>si_Status := ''ok'', si_References := scored,
              si_Ambiguous := si_Ambiguous result @
                map (text_candidate (si_Query result) ''text match'' ''text search'') scored\<rparr>))"

definition semantic_hits :: "SymReference list \<Rightarrow> SymbolIntelligence \<Rightarrow> SymbolIntelligence" where
  "semantic_hits refs result =
     upd_meta (\<lambda>m. m\<lparr>meta_Confidence := f64 (2 / 5), meta_RefsTotal := int (length refs),
         meta_RefsShown := int (length refs), meta_RefsSource := ''semantic''\<rparr>)
       (result\<lparr>si_Status := ''ok'', si_References := refs,
          si_Ambiguous := si_Ambiguous result @
            map (text_candidate (si_Query result) ''semantic match'' ''semantic search'') refs\<rparr>)"

definition semantic_query :: "Engine \<Rightarrow> int \<Rightarrow> SymbolIntelligence \<Rightarrow> SymbolIntelligence" where
  "semantic_query e maxItems result =
     (case eng_Search e of
        None \<Rightarrow> result
      | Some search \<Rightarrow>
          let result1 = add_chain ''semantic'' result
          in case search (eng_WorkspaceRoot e) (si_Query result1) (if maxItems < 3 then 3 else maxItems) of
               Inl err \<Rightarrow> add_error (''semantic search: '' @ err) result1
             | Inr refs \<Rightarrow> if refs = [] then result1 else semantic_hits refs result1)"

definition queryText :: "Engine \<Rightarrow> string \<Rightarrow> SymBudget \<Rightarrow> SymbolIntelligence \<Rightarrow> SymbolIntelligence" where
  "queryText e filterPath budget result =
     (let maxItems = section_items (bud_ReferenceLines budget)
      in case eng_Refs e of
           None \<Rightarrow> semantic_query e maxItems result
         | Some find_refs \<Rightarrow>
             (case find_refs (eng_WorkspaceRoot e) filterPath (si_Query result) [] of
                Inl err \<Rightarrow> semantic_query e maxItems (add_error (''text search: '' @ err) result)
              | Inr (refs, source) \<Rightarrow>
                  if refs = [] then semantic_query e maxItems result
                  else text_hits refs source maxItems result))"

section \<open>The path query\<close>

definition countFileLines :: "query_env \<Rightarrow> string \<Rightarrow> int" where
  "countFileLines env path =
     (case env_ReadFile env path of None \<Rightarrow> 0 | Some content \<Rightarrow> int (count_byte newline content) + 1)"

definition queryPath :: "query_env \<Rightarrow> SymbolIntelligence \<Rightarrow> SymbolIntelligence" where
  "queryPath env result =
     (let query = si_Query result
      in case env_Stat env query of
           None \<Rightarrow> set_hint (''file or directory not found: '' @ query) (result\<lparr>si_Status := ''not_found''\<rparr>)
         | Some (isDir, fileSize) \<Rightarrow>
             if isDir then
               set_hint ''directory listing; use cs query with a symbol name for deeper inspection''
                 (result\<lparr>si_Status := ''ok''\<rparr>)
             else if fileSize > 500 * 1024 then
               set_hint ''file is too large; use grep or tail to inspect specific sections''
                 (result\<lparr>si_Status := ''file_too_large''\<rparr>)
             else
               let lineCount = countFileLines env query
               in if lineCount > 500 then
                    set_hint (''file is '' @ trim_space (encode_rune lineCount) @ '' lines; use grep or tail'')
                      (result\<lparr>si_Status := ''file_too_large''\<rparr>)
                  else result\<lparr>si_Status := ''ok''\<rparr>)"

section \<open>The view of a definition\<close>

definition slice_view :: "query_env \<Rightarrow> string \<Rightarrow> int \<Rightarrow> SymDefinition \<Rightarrow> SymDefinition" where
  "slice_view env source budgetLines d =
     (case SliceDefinition (env_Parse env) source (def_Language d) (def_Line d) (def_EndLine d) budgetLines of
        (sig, slices, strategy) \<Rightarrow>
          let d1 = d\<lparr>def_Signature := sig, def_Slices := slices, def_ViewStrategy := strategy\<rparr>
          in if strategy = ''signature_plus_slices'' then d1\<lparr>def_Body := []\<rparr> else d1)"

definition outline_view :: "query_env \<Rightarrow> string \<Rightarrow> string \<Rightarrow> int \<Rightarrow> SymDefinition \<Rightarrow> SymDefinition" where
  "outline_view env source symbol budgetLines d =
     (case OutlineClassDefinition (env_Unicode env) (env_Parse env) source (def_Language d) symbol
             (def_Line d) (def_EndLine d) budgetLines of
        (sig, outline, topMethods, strategy) \<Rightarrow>
          if strategy = ''signature_plus_outline''
          then d\<lparr>def_Signature := sig, def_Outline := outline, def_Slices := topMethods,
                 def_ViewStrategy := strategy, def_Body := []\<rparr>
          else slice_view env source budgetLines d)"

definition body_lines :: "SymDefinition \<Rightarrow> int" where
  "body_lines d = int (count_byte newline (def_Body d)) + 1"

definition view_definition :: "query_env \<Rightarrow> string \<Rightarrow> int \<Rightarrow> SymDefinition \<Rightarrow> SymDefinition" where
  "view_definition env symbol budgetLines d =
     (if def_Body d = [] then d
      else if body_lines d > budgetLines then
        (case env_ReadFile env (def_File d) of
           None \<Rightarrow> d
         | Some source \<Rightarrow>
             if IsClassLikeType (def_Type d) \<and> \<not> isFailureCueQuery symbol
             then outline_view env source symbol budgetLines d
             else slice_view env source budgetLines d)
      else d\<lparr>def_ViewStrategy := ''full_body''\<rparr>)"

definition other_definitions :: "SymDefinition option list \<Rightarrow> SymDefinitionRef list" where
  "other_definitions defs =
     map (\<lambda>d. \<lparr>dref_File = def_File d, dref_Line = def_Line d, dref_EndLine = def_EndLine d, dref_Type = def_Type d\<rparr>)
       (List.map_filter id (tl defs))"

section \<open>The parallel fetch\<close>

datatype fetch_task = FetchRefs | FetchCallers | FetchImplements

record fetch_state =
  fs_refs :: "(SymReference list \<times> string) go_result"
  fs_callers :: "SymCaller list go_result"
  fs_impls :: "SymImpl list go_result"

definition fetch_init :: fetch_state where
  "fetch_init = \<lparr>fs_refs = Inr ([], []), fs_callers = Inr [], fs_impls = Inr []\<rparr>"

definition started_tasks :: "Engine \<Rightarrow> fetch_task list" where
  "started_tasks e =
     (if eng_Refs e = None then [] else [FetchRefs]) @
     (if eng_Callers e = None then [] else [FetchCallers]) @
     (if eng_Implements e = None then [] else [FetchImplements])"

text \<open>The body of a goroutine: the call and the assignment to its own result variables.\<close>

fun run_task :: "Engine \<Rightarrow> string \<Rightarrow> string \<Rightarrow> int \<Rightarrow> fetch_task \<Rightarrow> fetch_state \<Rightarrow> fetch_state" where
  "run_task e filterPath symbol depth FetchRefs st =
     (case eng_Refs e of None \<Rightarrow> st
      | Some p \<Rightarrow> st\<lparr>fs_refs := p (eng_WorkspaceRoot e) filterPath symbol []\<rparr>)"
| "run_task e filterPath symbol depth FetchCallers st =
     (case eng_Callers e of None \<Rightarrow> st
      | Some p \<Rightarrow> st\<lparr>fs_callers := p (eng_WorkspaceRoot e) filterPath symbol depth\<rparr>)"
| "run_task e filterPath symbol depth FetchImplements st =
     (case eng_Implements e of None \<Rightarrow> st
      | Some p \<Rightarrow> st\<lparr>fs_impls := p (eng_WorkspaceRoot e) filterPath symbol\<rparr>)"

text \<open>The state after \<open>wg.Wait()\<close> when the goroutines ran in the order \<open>sched\<close>.\<close>

definition fetch_all :: "fetch_task list \<Rightarrow> Engine \<Rightarrow> string \<Rightarrow> string \<Rightarrow> int \<Rightarrow> fetch_state" where
  "fetch_all sched e filterPath symbol depth = fold (run_task e filterPath symbol depth) sched fetch_init"

definition process_refs ::
  "(SymReference list \<times> string) go_result \<Rightarrow> string \<Rightarrow> SymBudget \<Rightarrow> SymbolIntelligence \<Rightarrow> SymbolIntelligence" where
  "process_refs rr defFile budget result =
     (case rr of
        Inl err \<Rightarrow> add_error (''refs: '' @ err) result
      | Inr (refs, source) \<Rightarrow>
          let scored = ScoreReferences refs defFile (section_items (bud_ReferenceLines budget))
          in upd_meta (\<lambda>m. m\<lparr>meta_RefsTotal := int (length refs), meta_RefsShown := int (length scored),
                 meta_RefsSource := source\<rparr>) (result\<lparr>si_References := scored\<rparr>))"

definition process_callers ::
  "SymCaller list go_result \<Rightarrow> string \<Rightarrow> SymBudget \<Rightarrow> SymbolIntelligence \<Rightarrow> SymbolIntelligence" where
  "process_callers cr defFile budget result =
     (case cr of
        Inl err \<Rightarrow> add_error (''callers: '' @ err) result
      | Inr callers \<Rightarrow>
          result\<lparr>si_Callers := ScoreCallers callers defFile (section_items (bud_CallerLines budget))\<rparr>)"

definition process_impls :: "SymImpl list go_result \<Rightarrow> SymbolIntelligence \<Rightarrow> SymbolIntelligence" where
  "process_impls ir result =
     (case ir of
        Inl err \<Rightarrow> add_error (''implements: '' @ err) result
      | Inr impls \<Rightarrow> result\<lparr>si_Implementations := impls\<rparr>)"

section \<open>The symbol query and the dispatch\<close>

definition extract_definitions :: "Engine \<Rightarrow> string \<Rightarrow> SymDefinition option list" where
  "extract_definitions e symbol =
     (case eng_Extractor e of
        None \<Rightarrow> []
      | Some extract \<Rightarrow>
          (case extract (eng_WorkspaceRoot e) symbol of Inl err \<Rightarrow> [] | Inr defs \<Rightarrow> defs))"

definition symbol_fallback :: "Engine \<Rightarrow> string \<Rightarrow> SymBudget \<Rightarrow> SymbolIntelligence \<Rightarrow> SymbolIntelligence" where
  "symbol_fallback e filterPath budget result =
     (let r = queryText e filterPath budget (add_chain ''text'' result)
      in if si_Status r = []
         then set_hint ''retry with --path, or provide a fuller query'' (r\<lparr>si_Status := ''not_found_exact''\<rparr>)
         else r)"

definition symbol_found ::
  "fetch_task list \<Rightarrow> query_env \<Rightarrow> Engine \<Rightarrow> string \<Rightarrow> int \<Rightarrow> SymBudget \<Rightarrow> SymDefinition \<Rightarrow>
   SymDefinition option list \<Rightarrow> SymbolIntelligence \<Rightarrow> SymbolIntelligence" where
  "symbol_found sched env e filterPath depth budget d0 allDefs result =
     (let symbol = si_Query result;
          d = view_definition env symbol (bud_DefinitionLines budget) d0;
          r1 = upd_meta (\<lambda>m. m\<lparr>meta_Confidence := f64 (17 / 20)\<rparr>)
                 (result\<lparr>si_Status := ''ok'', si_Definition := Some d\<rparr>);
          r2 = (if length allDefs > 1 then r1\<lparr>si_OtherDefinitions := other_definitions allDefs\<rparr> else r1);
          st = fetch_all sched e filterPath symbol depth
      in process_impls (fs_impls st)
           (process_callers (fs_callers st) (def_File d) budget
             (process_refs (fs_refs st) (def_File d) budget r2)))"

definition querySymbol ::
  "fetch_task list \<Rightarrow> query_env \<Rightarrow> Engine \<Rightarrow> string \<Rightarrow> int \<Rightarrow> SymBudget \<Rightarrow> SymbolIntelligence \<Rightarrow> SymbolIntelligence" where
  "querySymbol sched env e filterPath depth budget result0 =
     (let result = result0\<lparr>si_Symbol := si_Query result0\<rparr>;
          defs = extract_definitions e (si_Query result)
      in case defs of
           Some d # rest \<Rightarrow> symbol_found sched env e filterPath depth budget d defs result
         | _ \<Rightarrow> symbol_fallback e filterPath budget result)"

definition initial_result :: "QueryOptions \<Rightarrow> QueryIntent \<Rightarrow> SymBudget \<Rightarrow> SymbolIntelligence" where
  "initial_result opts intent budget =
     \<lparr>si_Query = opt_Query opts, si_Mode = intent_string intent, si_Status = [], si_Symbol = [],
      si_Definition = None, si_OtherDefinitions = [], si_Ambiguous = [], si_References = [],
      si_Callers = [], si_Implementations = [],
      si_Meta = \<lparr>meta_Mode = intent_string intent, meta_SearchChain = [intent_string intent],
        meta_Confidence = 0, meta_Budget = budget, meta_RefsSource = [], meta_RefsShown = 0,
        meta_RefsTotal = 0, meta_Errors = [], meta_NextHint = []\<rparr>\<rparr>"

definition Query :: "fetch_task list \<Rightarrow> query_env \<Rightarrow> Engine \<Rightarrow> QueryOptions \<Rightarrow> SymbolIntelligence" where
  "Query sched env e opts =
     (let intent = Classify (env_Unicode env) (opt_Query opts) (opt_Mode opts);
          budget = ComputeBudget (opt_Budget opts) (opt_Depth opts);
          depth = (if opt_Depth opts \<le> 0 then 1 else opt_Depth opts);
          result = initial_result opts intent budget
      in case intent of
           IntentSymbol \<Rightarrow> querySymbol sched env e (opt_Path opts) depth budget result
         | IntentPath \<Rightarrow> queryPath env result
         | IntentText \<Rightarrow> queryText e (opt_Path opts) budget result
         | IntentAST \<Rightarrow>
             set_hint ''AST search is not yet implemented; try --mode symbol or --mode text''
               (result\<lparr>si_Status := ''not_found''\<rparr>))"

section \<open>The order of the goroutines\<close>

definition refs_answer :: "Engine \<Rightarrow> string \<Rightarrow> string \<Rightarrow> (SymReference list \<times> string) go_result" where
  "refs_answer e filterPath symbol =
     (case eng_Refs e of None \<Rightarrow> Inr ([], []) | Some p \<Rightarrow> p (eng_WorkspaceRoot e) filterPath symbol [])"

definition callers_answer :: "Engine \<Rightarrow> string \<Rightarrow> string \<Rightarrow> int \<Rightarrow> SymCaller list go_result" where
  "callers_answer e filterPath symbol depth =
     (case eng_Callers e of None \<Rightarrow> Inr [] | Some p \<Rightarrow> p (eng_WorkspaceRoot e) filterPath symbol depth)"

definition impls_answer :: "Engine \<Rightarrow> string \<Rightarrow> string \<Rightarrow> SymImpl list go_result" where
  "impls_answer e filterPath symbol =
     (case eng_Implements e of None \<Rightarrow> Inr [] | Some p \<Rightarrow> p (eng_WorkspaceRoot e) filterPath symbol)"

lemma fold_run_task:
  "fs_refs (fold (run_task e fp symbol d) sched st) =
     (if FetchRefs \<in> set sched \<and> eng_Refs e \<noteq> None then refs_answer e fp symbol else fs_refs st)"
  "fs_callers (fold (run_task e fp symbol d) sched st) =
     (if FetchCallers \<in> set sched \<and> eng_Callers e \<noteq> None then callers_answer e fp symbol d else fs_callers st)"
  "fs_impls (fold (run_task e fp symbol d) sched st) =
     (if FetchImplements \<in> set sched \<and> eng_Implements e \<noteq> None then impls_answer e fp symbol else fs_impls st)"
proof (induction sched arbitrary: st)
  case (Cons t sched)
  { case 1
    show ?case using Cons.IH(1) by (cases t) (auto simp: refs_answer_def split: option.split) }
  { case 2
    show ?case using Cons.IH(2) by (cases t) (auto simp: callers_answer_def split: option.split) }
  { case 3
    show ?case using Cons.IH(3) by (cases t) (auto simp: impls_answer_def split: option.split) }
qed auto

lemma fetch_all_answers:
  assumes "set sched = set (started_tasks e)"
  shows "fs_refs (fetch_all sched e fp symbol d) = refs_answer e fp symbol"
    "fs_callers (fetch_all sched e fp symbol d) = callers_answer e fp symbol d"
    "fs_impls (fetch_all sched e fp symbol d) = impls_answer e fp symbol"
  by (auto simp: fetch_all_def fold_run_task assms started_tasks_def fetch_init_def
        refs_answer_def callers_answer_def impls_answer_def)

lemma symbol_found_answers:
  assumes "set sched = set (started_tasks e)"
  shows "symbol_found sched env e filterPath depth budget d0 allDefs result =
    symbol_found (started_tasks e) env e filterPath depth budget d0 allDefs result"
  by (simp add: symbol_found_def Let_def fetch_all_answers [OF assms] fetch_all_answers [OF refl])

lemma Query_answers:
  assumes "set sched = set (started_tasks e)"
  shows "Query sched env e opts = Query (started_tasks e) env e opts"
  by (simp add: Query_def querySymbol_def Let_def symbol_found_answers [OF assms]
      cong: QueryIntent.case_cong list.case_cong option.case_cong)

section \<open>Counts\<close>

lemma section_items_pos: "0 < section_items lines"
  by (simp add: section_items_def Let_def)

text \<open>What every branch of the query keeps: the counters of the result agree with its lists.\<close>

definition counts_ok :: "SymBudget \<Rightarrow> SymbolIntelligence \<Rightarrow> bool" where
  "counts_ok budget r \<longleftrightarrow>
     meta_RefsShown (si_Meta r) = int (length (si_References r)) \<and>
     meta_RefsShown (si_Meta r) \<le> meta_RefsTotal (si_Meta r) \<and>
     (meta_RefsSource (si_Meta r) = ''semantic'' \<or>
      int (length (si_References r)) \<le> section_items (bud_ReferenceLines budget)) \<and>
     int (length (si_Callers r)) \<le> section_items (bud_CallerLines budget)"

lemma ScoreReferences_cap:
  "0 < m \<Longrightarrow> int (length (ScoreReferences refs f m)) \<le> m \<and> length (ScoreReferences refs f m) \<le> length refs"
  by (simp add: ScoreReferences_length)

lemma ScoreCallers_cap: "0 < m \<Longrightarrow> int (length (ScoreCallers cs f m)) \<le> m"
  by (simp add: ScoreCallers_length)

lemmas caps = ScoreReferences_cap [OF section_items_pos] ScoreCallers_cap [OF section_items_pos]

lemma counts_init: "counts_ok budget (initial_result opts intent b)"
  using section_items_pos [of "bud_ReferenceLines budget"] section_items_pos [of "bud_CallerLines budget"]
  by (simp add: counts_ok_def initial_result_def)

lemma counts_meta [simp]:
  "counts_ok budget (add_error x r) = counts_ok budget r"
  "counts_ok budget (add_chain x r) = counts_ok budget r"
  "counts_ok budget (set_hint x r) = counts_ok budget r"
  "counts_ok budget (r\<lparr>si_Status := s\<rparr>) = counts_ok budget r"
  "counts_ok budget (r\<lparr>si_Symbol := s\<rparr>) = counts_ok budget r"
  by (simp_all add: counts_ok_def meta_updates)

lemma counts_semantic: "counts_ok budget r \<Longrightarrow> counts_ok budget (semantic_query e m r)"
proof -
  assume r: "counts_ok budget r"
  have "counts_ok budget (semantic_hits refs r')" if "counts_ok budget r'" for refs r'
    using that by (simp add: counts_ok_def semantic_hits_def meta_updates)
  then show ?thesis using r by (simp add: semantic_query_def Let_def split: option.split sum.split)
qed

lemma counts_text: "counts_ok budget r \<Longrightarrow> counts_ok budget (queryText e fp budget r)"
proof -
  assume r: "counts_ok budget r"
  have "counts_ok budget (text_hits refs src (section_items (bud_ReferenceLines budget)) r)" for refs src
    using r caps by (simp add: counts_ok_def text_hits_def Let_def meta_updates)
  then show ?thesis
    using r by (simp add: queryText_def Let_def counts_semantic split: option.split sum.split prod.split)
qed

lemma counts_path: "counts_ok budget r \<Longrightarrow> counts_ok budget (queryPath env r)"
  by (simp add: queryPath_def Let_def split: option.split)

lemma counts_process:
  "counts_ok budget r \<Longrightarrow> counts_ok budget (process_refs rr f budget r)"
  "counts_ok budget r \<Longrightarrow> counts_ok budget (process_callers cr f budget r)"
  "counts_ok budget r \<Longrightarrow> counts_ok budget (process_impls ir r)"
  using caps
  by (simp_all add: process_refs_def process_callers_def process_impls_def Let_def split: sum.split prod.split)
     (simp_all add: counts_ok_def meta_updates)

lemma counts_symbol: "counts_ok budget r \<Longrightarrow> counts_ok budget (querySymbol sched env e fp d budget r)"
proof -
  assume r: "counts_ok budget r"
  have "counts_ok budget (symbol_found sched env e fp d budget d0 ds r')" if "counts_ok budget r'" for d0 ds r'
  proof -
    have "counts_ok budget (upd_meta (\<lambda>m. m\<lparr>meta_Confidence := c\<rparr>) (r'\<lparr>si_Status := s, si_Definition := v\<rparr>))"
      "counts_ok budget ((upd_meta (\<lambda>m. m\<lparr>meta_Confidence := c\<rparr>)
         (r'\<lparr>si_Status := s, si_Definition := v\<rparr>))\<lparr>si_OtherDefinitions := os\<rparr>)" for c s v os
      using that by (simp_all add: counts_ok_def meta_updates)
    then show ?thesis by (simp add: symbol_found_def Let_def counts_process)
  qed
  moreover have "counts_ok budget (symbol_fallback e fp budget r')" if "counts_ok budget r'" for r'
    using that by (simp add: symbol_fallback_def Let_def counts_text)
  ultimately show ?thesis
    using r by (simp add: querySymbol_def Let_def split: list.split option.split)
qed

lemma counts_query: "counts_ok (ComputeBudget (opt_Budget opts) (opt_Depth opts)) (Query sched env e opts)"
  by (simp add: Query_def Let_def counts_symbol counts_text counts_path counts_init split: QueryIntent.split)

section \<open>The view\<close>

lemma slice_view_total:
  assumes "1 \<le> def_Line d" "0 \<le> budgetLines" "def_EndLine d - def_Line d + 1 > budgetLines"
  shows "let v = slice_view env source budgetLines d
    in def_Body v = [] \<and> def_ViewStrategy v = ''signature_plus_slices'' \<and>
       sum_list (map slice_lines (def_Slices v)) \<le> 46"
proof -
  obtain sig slices view where out: "SliceDefinition (env_Parse env) source (def_Language d) (def_Line d)
      (def_EndLine d) budgetLines = (sig, slices, view)"
    by (metis prod_cases3)
  show ?thesis using SliceDefinition_total(1,2) [OF assms out] by (simp add: slice_view_def out Let_def)
qed

lemma view_definition_total:
  assumes "1 \<le> def_Line d" "0 \<le> budgetLines" "def_EndLine d - def_Line d + 1 = body_lines d"
    and "env_ReadFile env (def_File d) = Some source" and "budgetLines < body_lines d" and "def_Body d \<noteq> []"
  shows "let v = view_definition env symbol budgetLines d
    in def_Body v = [] \<and> (def_ViewStrategy v = ''signature_plus_slices'' \<or> def_ViewStrategy v = ''signature_plus_outline'') \<and>
       sum_list (map slice_lines (def_Slices v)) \<le> max budgetLines 46"
proof -
  have over: "def_EndLine d - def_Line d + 1 > budgetLines" using assms(3,5) by simp
  note slices = slice_view_total [OF assms(1,2) over, of env source]
  obtain sig outline top strategy where out: "OutlineClassDefinition (env_Unicode env) (env_Parse env) source
      (def_Language d) symbol (def_Line d) (def_EndLine d) budgetLines = (sig, outline, top, strategy)"
    by (metis prod_cases4)
  have "let v = outline_view env source symbol budgetLines d
    in def_Body v = [] \<and> (def_ViewStrategy v = ''signature_plus_slices'' \<or> def_ViewStrategy v = ''signature_plus_outline'') \<and>
       sum_list (map slice_lines (def_Slices v)) \<le> max budgetLines 46"
  proof (cases "strategy = ''signature_plus_outline''")
    case True
    then have "sum_list (map slice_lines top) \<le> budgetLines"
      using OutlineClassDefinition_total(1) [OF out [unfolded True] assms(2)] by simp
    with True out show ?thesis by (simp add: outline_view_def Let_def)
  next
    case False
    with out slices show ?thesis by (auto simp: outline_view_def Let_def)
  qed
  then show ?thesis using slices assms(4-6) by (auto simp: view_definition_def Let_def)
qed

section \<open>Properties\<close>

text \<open>
  C3. The three goroutines of a symbol query may finish in any order: the result of the query
  is the same for every schedule of the started tasks.
\<close>

theorem Query_schedule_independent:
  assumes "mset sched = mset (started_tasks e)" and "mset sched' = mset (started_tasks e)"
  shows "Query sched env e opts = Query sched' env e opts"
  using Query_answers [of sched e env opts] Query_answers [of sched' e env opts] assms
  by (metis set_mset_mset)

text \<open>An engine with a failing references provider, and a definition to find.\<close>

definition demo_def :: SymDefinition where
  "demo_def = \<lparr>def_File = ''a.go'', def_Line = 1, def_EndLine = 3, def_Type = ''function'', def_Signature = ''func f() {'',
     def_Docstring = [], def_Body = demo_source, def_Slices = [], def_Outline = [],
     def_ViewStrategy = ''full_body'', def_Language = ''go''\<rparr>"

definition demo_engine :: Engine where
  "demo_engine = \<lparr>eng_WorkspaceRoot = ''/w'', eng_Refs = Some (\<lambda>root fp symbol kind. Inl ''timeout''),
     eng_Callers = Some (\<lambda>root fp symbol depth. Inr []), eng_Implements = None,
     eng_Extractor = Some (\<lambda>root symbol. Inr (if symbol = ''f'' then [Some demo_def] else [])), eng_Search = None\<rparr>"

definition demo_env :: query_env where
  "demo_env = \<lparr>env_ReadFile = (\<lambda>p. if p = ''a.go'' then Some demo_source else None), env_Stat = (\<lambda>p. None),
     env_Parse = (\<lambda>l src. None), env_Unicode = ascii_tables\<rparr>"

definition demo_options :: QueryOptions where
  "demo_options = \<lparr>opt_Query = ''f'', opt_Path = [], opt_Depth = 1, opt_Budget = ''auto'', opt_Mode = ''symbol''\<rparr>"

theorem Query_schedule_independent_witness:
  "Query [FetchCallers, FetchRefs] demo_env demo_engine demo_options =
   Query [FetchRefs, FetchCallers] demo_env demo_engine demo_options"
  by (rule Query_schedule_independent) (simp_all add: started_tasks_def demo_engine_def add_mset_commute)

text \<open>
  C4. The counters of every answer are those of its lists, whatever the providers do: as many
  references are reported shown as are listed, never more than were found, and the ranked
  sections keep to their share of the budget.
\<close>

theorem Query_counts:
  "let r = Query sched env e opts; b = ComputeBudget (opt_Budget opts) (opt_Depth opts)
   in meta_RefsShown (si_Meta r) = int (length (si_References r)) \<and>
      meta_RefsShown (si_Meta r) \<le> meta_RefsTotal (si_Meta r) \<and>
      (meta_RefsSource (si_Meta r) = ''semantic'' \<or>
       int (length (si_References r)) \<le> section_items (bud_ReferenceLines b)) \<and>
      int (length (si_Callers r)) \<le> section_items (bud_CallerLines b)"
  using counts_query [of opts sched env e] by (simp add: counts_ok_def Let_def)

definition error_of :: "string \<Rightarrow> 'a go_result \<Rightarrow> string list" where
  "error_of name answer = (case answer of Inl err \<Rightarrow> [name @ err] | Inr _ \<Rightarrow> [])"

definition result_or :: "'b \<Rightarrow> ('a \<Rightarrow> 'b) \<Rightarrow> 'a go_result \<Rightarrow> 'b" where
  "result_or d f answer = (case answer of Inl err \<Rightarrow> d | Inr x \<Rightarrow> f x)"

text \<open>
  C1. A symbol that is found: the answer is \<open>ok\<close> and its sections are independent of each
  other. A provider that fails leaves its own section empty and adds its own line to the errors,
  in the order references, callers, implementations; the sections of the others are the scored
  answers, whatever failed beside them.
\<close>

theorem Query_sections:
  assumes "mset sched = mset (started_tasks e)"
    and "Classify (env_Unicode env) (opt_Query opts) (opt_Mode opts) = IntentSymbol"
    and "extract_definitions e (opt_Query opts) = Some d # rest"
  shows "let r = Query sched env e opts; q = opt_Query opts; fp = opt_Path opts;
             depth = (if opt_Depth opts \<le> 0 then 1 else opt_Depth opts);
             b = ComputeBudget (opt_Budget opts) (opt_Depth opts);
             v = view_definition env q (bud_DefinitionLines b) d
         in si_Status r = ''ok'' \<and> si_Symbol r = q \<and> si_Definition r = Some v \<and>
            map dref_File (si_OtherDefinitions r) = map def_File (List.map_filter id rest) \<and>
            si_References r = result_or [] (\<lambda>a. ScoreReferences (fst a) (def_File v) (section_items (bud_ReferenceLines b)))
              (refs_answer e fp q) \<and>
            si_Callers r = result_or [] (\<lambda>a. ScoreCallers a (def_File v) (section_items (bud_CallerLines b)))
              (callers_answer e fp q depth) \<and>
            si_Implementations r = result_or [] id (impls_answer e fp q) \<and>
            meta_Errors (si_Meta r) = error_of ''refs: '' (refs_answer e fp q) @
              error_of ''callers: '' (callers_answer e fp q depth) @ error_of ''implements: '' (impls_answer e fp q)"
proof -
  have sched: "set sched = set (started_tasks e)" using assms(1) by (metis set_mset_mset)
  have rest: "rest = [] \<Longrightarrow> List.map_filter id rest = []" by (simp add: List.map_filter_def)
  show ?thesis
    by (simp add: Query_def querySymbol_def symbol_found_def initial_result_def assms(2,3) Let_def
        fetch_all_answers [OF sched] process_refs_def process_callers_def process_impls_def meta_updates
        other_definitions_def error_of_def result_or_def rest comp_def split: sum.split prod.split)
qed

theorem Query_sections_witness:
  "let r = Query [FetchCallers, FetchRefs] demo_env demo_engine demo_options
   in si_Status r = ''ok'' \<and> si_References r = [] \<and> si_Callers r = [] \<and>
      meta_Errors (si_Meta r) = [''refs: timeout'']"
proof -
  have "mset [FetchCallers, FetchRefs] = mset (started_tasks demo_engine)"
    by (simp add: started_tasks_def demo_engine_def add_mset_commute)
  moreover have "Classify (env_Unicode demo_env) (opt_Query demo_options) (opt_Mode demo_options) = IntentSymbol"
    by code_simp
  moreover have "extract_definitions demo_engine (opt_Query demo_options) = Some demo_def # []"
    by (simp add: extract_definitions_def demo_engine_def demo_options_def)
  ultimately show ?thesis
    using Query_sections [of "[FetchCallers, FetchRefs]" demo_engine demo_env demo_options demo_def "[]"]
    by (simp add: Let_def refs_answer_def callers_answer_def impls_answer_def demo_engine_def
        result_or_def error_of_def ScoreCallers_def)
qed

text \<open>
  C2. A definition over the budget whose file can be read is never answered with its body: the
  view is an outline or slices, and their lines add up to at most the larger of the definition
  budget and 46. Within the budget the body stays whole.
\<close>

theorem view_definition_budget:
  assumes "1 \<le> def_Line d" "0 \<le> budgetLines" "def_EndLine d - def_Line d + 1 = body_lines d"
    and "env_ReadFile env (def_File d) = Some source" and "def_Body d \<noteq> []"
  shows "let v = view_definition env symbol budgetLines d
    in if body_lines d \<le> budgetLines then v = d\<lparr>def_ViewStrategy := ''full_body''\<rparr>
       else def_Body v = [] \<and> def_ViewStrategy v \<in> {''signature_plus_slices'', ''signature_plus_outline''} \<and>
            sum_list (map slice_lines (def_Slices v)) \<le> max budgetLines 46"
proof (cases "body_lines d \<le> budgetLines")
  case True
  then show ?thesis using assms(5) by (simp add: view_definition_def Let_def)
next
  case False
  then show ?thesis
    using view_definition_total [OF assms(1-4), of symbol] assms(5) by (auto simp: Let_def)
qed

theorem view_definition_budget_witness:
  "def_Body (view_definition demo_env ''f'' 2 demo_def) = [] \<and>
   sum_list (map slice_lines (def_Slices (view_definition demo_env ''f'' 2 demo_def))) \<le> 46"
proof -
  have lines: "body_lines demo_def = 3" by code_simp
  have "1 \<le> def_Line demo_def" "(0::int) \<le> 2" "def_EndLine demo_def - def_Line demo_def + 1 = body_lines demo_def"
    "env_ReadFile demo_env (def_File demo_def) = Some demo_source" "def_Body demo_def \<noteq> []"
    unfolding lines by (simp_all add: demo_def_def demo_env_def demo_source_def)
  from view_definition_budget [OF this, of "''f''"] show ?thesis by (simp add: lines Let_def)
qed

definition nothing_found :: "Engine \<Rightarrow> QueryOptions \<Rightarrow> bool" where
  "nothing_found e opts \<longleftrightarrow>
     extract_definitions e (opt_Query opts) = [] \<and>
     (case refs_answer e (opt_Path opts) (opt_Query opts) of Inl err \<Rightarrow> True | Inr a \<Rightarrow> fst a = []) \<and>
     (case eng_Search e of None \<Rightarrow> True
      | Some search \<Rightarrow>
          (case search (eng_WorkspaceRoot e) (opt_Query opts) (max 3 (section_items
              (bud_ReferenceLines (ComputeBudget (opt_Budget opts) (opt_Depth opts))))) of
             Inl err \<Rightarrow> True | Inr refs \<Rightarrow> refs = []))"

lemma meta_update_fields [simp]:
  "si_Query (add_error x r) = si_Query r" "si_Query (add_chain x r) = si_Query r"
  "si_Status (add_error x r) = si_Status r" "si_Status (add_chain x r) = si_Status r"
  by (simp_all add: meta_updates)

lemma semantic_nothing:
  assumes "case eng_Search e of None \<Rightarrow> True
      | Some search \<Rightarrow>
          (case search (eng_WorkspaceRoot e) (si_Query r) (max 3 m) of Inl err \<Rightarrow> True | Inr refs \<Rightarrow> refs = [])"
  shows "si_Status (semantic_query e m r) = si_Status r"
  using assms
  by (cases "m < 3") (auto simp: semantic_query_def Let_def max_def split: option.splits sum.splits)

lemma queryText_nothing:
  assumes "nothing_found e opts" "si_Query r = opt_Query opts" "fp = opt_Path opts"
    "budget = ComputeBudget (opt_Budget opts) (opt_Depth opts)"
  shows "si_Status (queryText e fp budget r) = si_Status r"
  using assms(1) unfolding assms(3,4) queryText_def nothing_found_def Let_def
  by (auto simp: refs_answer_def semantic_nothing assms(2) split: option.splits sum.splits)

text \<open>
  When nothing is found anywhere, the symbol query says so (\<open>not_found_exact\<close> and a hint),
  but the text query leaves the status empty: it never reports \<open>not_found\<close>.
\<close>

theorem Query_nothing_found:
  assumes "nothing_found e opts"
  shows "(Classify (env_Unicode env) (opt_Query opts) (opt_Mode opts) = IntentSymbol \<longrightarrow>
            si_Status (Query sched env e opts) = ''not_found_exact'' \<and>
            meta_NextHint (si_Meta (Query sched env e opts)) = ''retry with --path, or provide a fuller query'') \<and>
         (Classify (env_Unicode env) (opt_Query opts) (opt_Mode opts) = IntentText \<longrightarrow>
            si_Status (Query sched env e opts) = [])"
proof -
  have none: "extract_definitions e (opt_Query opts) = []" using assms by (simp add: nothing_found_def)
  show ?thesis
    using queryText_nothing [OF assms] none
    by (simp add: Query_def querySymbol_def symbol_fallback_def initial_result_def Let_def) (simp add: meta_updates)
qed

theorem Query_nothing_found_witness:
  "si_Status (Query [] demo_env (demo_engine\<lparr>eng_Refs := None\<rparr>)
       \<lparr>opt_Query = ''g'', opt_Path = [], opt_Depth = 1, opt_Budget = ''auto'', opt_Mode = ''text''\<rparr>) = [] \<and>
   si_Status (Query [] demo_env (demo_engine\<lparr>eng_Refs := None\<rparr>)
       \<lparr>opt_Query = ''g'', opt_Path = [], opt_Depth = 1, opt_Budget = ''auto'', opt_Mode = ''symbol''\<rparr>) =
     ''not_found_exact''"
proof -
  let ?o = "\<lambda>m. \<lparr>opt_Query = ''g'', opt_Path = [], opt_Depth = 1, opt_Budget = ''auto'', opt_Mode = m\<rparr>"
  have n: "nothing_found (demo_engine\<lparr>eng_Refs := None\<rparr>) (?o m)" for m
    by (simp add: nothing_found_def extract_definitions_def refs_answer_def demo_engine_def)
  have c: "Classify (env_Unicode demo_env) ''g'' ''text'' = IntentText"
    "Classify (env_Unicode demo_env) ''g'' ''symbol'' = IntentSymbol"
    by code_simp+
  show ?thesis
    using Query_nothing_found [OF n, of demo_env "''text''" "[]"] Query_nothing_found [OF n, of demo_env "''symbol''" "[]"] c
    by simp
qed

text \<open>The bytes of an encoded rune above the ASCII range are all above it, so none is a digit.\<close>

lemma encode_rune_high:
  assumes "128 \<le> n" "n < 2 ^ 31"
  shows "\<forall>c \<in> set (encode_rune n). 128 \<le> (of_char c :: nat)"
proof -
  have r: "(n + 2 ^ 31) mod 2 ^ 32 - 2 ^ 31 = n" using assms by simp
  define c where "c = (if n < 0 \<or> n > 1114111 \<or> 55296 \<le> n \<and> n \<le> 57343 then 65533 else nat n)"
  have c: "128 \<le> c" "c < 2048 \<Longrightarrow> 192 + c div 64 < 256" "c < 65536 \<Longrightarrow> 224 + c div 4096 < 256"
    "240 + c div 262144 < 256"
    using assms by (auto simp: c_def)
  have low: "128 \<le> (of_char (char_of (128 + x mod 64) :: char) :: nat)" for x :: nat
  proof -
    have "x mod 64 < 64" by simp
    then show ?thesis by simp
  qed
  have "encode_rune n = map char_of
      (if c < 128 then [c]
       else if c < 2048 then [192 + c div 64, 128 + c mod 64]
       else if c < 65536 then [224 + c div 4096, 128 + c div 64 mod 64, 128 + c mod 64]
       else [240 + c div 262144, 128 + c div 4096 mod 64, 128 + c div 64 mod 64, 128 + c mod 64])"
    unfolding encode_rune_def Let_def r c_def ..
  then show ?thesis using c low by auto
qed

text \<open>
  The line count is never shown: for a file that is too large because of its lines, the
  hint holds the UTF-8 encoding of the character whose code point is the line count, and not one
  of its bytes is a decimal digit.
\<close>

theorem queryPath_line_count:
  assumes "env_Stat env (si_Query r) = Some (False, fileSize)" and "fileSize \<le> 500 * 1024"
    and "env_ReadFile env (si_Query r) = Some content" and "int (length content) \<le> fileSize"
    and "500 < count_byte newline content + 1"
  shows "\<exists>shown. meta_NextHint (si_Meta (queryPath env r)) = ''file is '' @ shown @ '' lines; use grep or tail'' \<and>
    si_Status (queryPath env r) = ''file_too_large'' \<and> (\<forall>d < 10. digit_char d \<notin> set shown)"
proof (intro exI conjI allI impI)
  let ?n = "countFileLines env (si_Query r)"
  have n: "?n = int (count_byte newline content) + 1" using assms(3) by (simp add: countFileLines_def)
  have "count_byte newline content \<le> length content" by (simp add: count_byte_def)
  then have "128 \<le> ?n" "?n < 2 ^ 31" "500 < ?n" using assms(2,4,5) n by simp_all
  then show "meta_NextHint (si_Meta (queryPath env r)) =
      ''file is '' @ trim_space (encode_rune ?n) @ '' lines; use grep or tail''"
    "si_Status (queryPath env r) = ''file_too_large''"
    using assms(1,2) by (simp_all add: queryPath_def Let_def meta_updates)
  fix d :: nat assume "d < 10"
  then have "(of_char (digit_char d) :: nat) < 128" by simp
  then show "digit_char d \<notin> set (trim_space (encode_rune ?n))"
    using encode_rune_high [OF \<open>128 \<le> ?n\<close> \<open>?n < 2 ^ 31\<close>] set_trim_space by (meson not_less subsetD)
qed

theorem queryPath_line_count_witness:
  "si_Status (queryPath
      (demo_env\<lparr>env_Stat := (\<lambda>p. Some (False, 500)), env_ReadFile := (\<lambda>p. Some (replicate 500 newline))\<rparr>)
      (initial_result demo_options IntentPath (ComputeBudget ''auto'' 1))) = ''file_too_large''"
proof -
  let ?env = "demo_env\<lparr>env_Stat := (\<lambda>p. Some (False, 500)), env_ReadFile := (\<lambda>p. Some (replicate 500 newline))\<rparr>"
  let ?r = "initial_result demo_options IntentPath (ComputeBudget ''auto'' 1)"
  have "count_byte newline (replicate 500 newline) = 500" by (simp add: count_byte_def)
  then have "500 < count_byte newline (replicate 500 newline) + 1" by simp
  moreover have "env_Stat ?env (si_Query ?r) = Some (False, 500)"
    "env_ReadFile ?env (si_Query ?r) = Some (replicate 500 newline)"
    "(500::int) \<le> 500 * 1024" "int (length (replicate 500 newline)) \<le> 500"
    by simp_all
  ultimately show ?thesis using queryPath_line_count [of ?env ?r 500 "replicate 500 newline"] by blast
qed

end
