(* ===== verification/EngineRender.thy ===== *)
theory EngineRender
  imports EngineQuery
begin

text \<open>
  \<open>pkg/engine/render.go\<close>: the Markdown of a result. Each function appends to a
  \<open>strings.Builder\<close>; the definitions return what it appends. \<open>%d\<close>, \<open>%.0f\<close> and \<open>%.2f\<close> are
  \<open>int_str\<close>, \<open>fmt_f0\<close> and \<open>fmt_f2\<close>.
\<close>

definition line_of :: "string list \<Rightarrow> string" where
  "line_of parts = concat parts @ [newline]"

definition fence :: "string \<Rightarrow> string \<Rightarrow> string" where
  "fence lang body = line_of [''```'', lang] @ line_of [body] @ line_of [''```'']"

section \<open>The definition\<close>

definition lines_header :: "string \<Rightarrow> string \<Rightarrow> int \<Rightarrow> int \<Rightarrow> string" where
  "lines_header level label a b =
     line_of [level, label, '' (lines '', int_str a, ''-'', int_str b, '')'']"

definition outline_row :: "OutlineEntry \<Rightarrow> string" where
  "outline_row e =
     (let vis = (if oe_Visibility e = [] then ''-'' else oe_Visibility e);
          sig = (if length (oe_Signature e) > 80 then take 80 (oe_Signature e) @ ''...'' else oe_Signature e)
      in line_of [''| '', int_str (oe_Line e), '' | '', oe_Kind e, '' | '', vis, '' | `'', sig, ''` |''])"

text \<open>The methods of the outline whose name is not that of an expanded slice.\<close>

definition remaining_methods :: "SymDefinition \<Rightarrow> string list" where
  "remaining_methods d =
     (let expanded = map (\<lambda>s. trim_prefix (sl_Label s) ''Method: '') (def_Slices d)
      in map oe_Name (filter (\<lambda>e. is_method e \<and> oe_Name e \<notin> set expanded) (def_Outline d)))"

definition renderOutline :: "SymDefinition \<Rightarrow> string \<Rightarrow> string" where
  "renderOutline d lang =
     (if def_Outline d = [] then []
      else line_of [''### Member Outline ('', int_str (int (length (def_Outline d))), '' members)''] @
           line_of [''| Line | Kind | Visibility | Name |''] @
           line_of [''|------|------|------------|------|''] @
           concat (map outline_row (def_Outline d)) @ [newline]) @
     (if def_Slices d = [] then []
      else concat (map (\<lambda>s. lines_header ''### '' (sl_Label s) (sl_StartLine s) (sl_EndLine s) @
                            fence lang (sl_Code s) @ [newline]) (def_Slices d)) @
           (let remaining = remaining_methods d
            in if remaining = [] then []
               else line_of [''> Next most relevant methods: `'', join ''`, `'' (take 6 remaining), ''`''] @ [newline]))"

definition render_slice :: "string \<Rightarrow> CodeSlice \<Rightarrow> string" where
  "render_slice lang s =
     lines_header ''### '' (sl_Label s) (sl_StartLine s) (sl_EndLine s) @ fence lang (sl_Code s) @
     (let omitted = sl_EndLine s - sl_StartLine s
      in if omitted > 0 then line_of [''... '', int_str omitted, '' lines shown ...''] @ [newline] else [])"

definition renderDefinition :: "SymDefinition \<Rightarrow> string" where
  "renderDefinition d =
     (let lang = def_Language d
      in lines_header ''## Definition'' [] (def_Line d) (def_EndLine d) @
         (if def_Signature d \<noteq> [] \<and> def_ViewStrategy d \<noteq> ''full_body''
          then fence lang (def_Signature d) @ [newline] else []) @
         (if def_ViewStrategy d = ''full_body'' then
            (if def_Body d \<noteq> [] then fence lang (def_Body d) @ [newline] else [])
          else if def_ViewStrategy d = ''signature_plus_outline'' then renderOutline d lang
          else concat (map (render_slice lang) (def_Slices d))))"

section \<open>The answers\<close>

definition estimateUsedLines :: "SymbolIntelligence \<Rightarrow> int" where
  "estimateUsedLines r =
     5 +
     (case si_Definition r of
        None \<Rightarrow> 0
      | Some d \<Rightarrow>
          (if def_Body d \<noteq> [] then int (count_byte newline (def_Body d)) + 1 else 0) +
          sum_list (map (\<lambda>s. int (count_byte newline (sl_Code s)) + 3) (def_Slices d)) +
          (if def_Outline d \<noteq> [] then int (length (def_Outline d)) + 3 else 0)) +
     int (length (si_References r)) * 2 + int (length (si_Callers r)) * 2 +
     int (length (si_Implementations r)) + 4"

definition renderMeta :: "SymMeta \<Rightarrow> bool \<Rightarrow> string" where
  "renderMeta meta verbose =
     (if \<not> (verbose \<or> meta_NextHint meta \<noteq> [] \<or> meta_Errors meta \<noteq> []) then []
      else line_of [''## Meta''] @
        (if verbose then line_of [''- `search_chain`: `'', join '' -> '' (meta_SearchChain meta), ''`''] else []) @
        (if meta_NextHint meta \<noteq> [] then line_of [''- `next_hint`: `'', meta_NextHint meta, ''`''] else []) @
        (if meta_Errors meta = [] then []
         else line_of [''- `errors`:''] @ concat (map (\<lambda>e. line_of [''  - `'', e, ''`'']) (meta_Errors meta))))"

definition render_summary :: "SymbolIntelligence \<Rightarrow> bool \<Rightarrow> string" where
  "render_summary r verbose =
     line_of [''## Summary''] @
     (case si_Definition r of
        None \<Rightarrow> []
      | Some d \<Rightarrow>
          line_of [''- kind: `'', def_Type d, ''`''] @ line_of [''- file: `'', def_File d, ''`''] @
          (if verbose then line_of [''- view: `'', def_ViewStrategy d, ''`''] else [])) @
     (if verbose then
        line_of [''- confidence: `'', fmt_f2 (meta_Confidence (si_Meta r)), ''`''] @
        line_of [''- budget: `'', int_str (bud_TotalLines (meta_Budget (si_Meta r))), '' lines total / '',
          int_str (estimateUsedLines r), '' used`'']
      else []) @ [newline]"

text \<open>A section: nothing for an empty list, else a heading, one line per item and a blank line.\<close>

definition render_section :: "string \<Rightarrow> ('a \<Rightarrow> string) \<Rightarrow> 'a list \<Rightarrow> string" where
  "render_section heading item xs =
     (if xs = [] then [] else heading @ concat (map item xs) @ [newline])"

definition renderOK :: "SymbolIntelligence \<Rightarrow> bool \<Rightarrow> string" where
  "renderOK r verbose =
     (let title = (if si_Symbol r = [] then si_Query r else si_Symbol r)
      in line_of [''# Symbol: `'', title, ''`''] @ [newline] @
         render_summary r verbose @
         (case si_Definition r of None \<Rightarrow> [] | Some d \<Rightarrow> renderDefinition d) @
         render_section
           (line_of [''## Other Definitions ('', int_str (int (length (si_OtherDefinitions r))), '')''])
           (\<lambda>d. line_of [''- `'', dref_File d, ''` (`'', dref_Type d, ''`, lines '',
              int_str (dref_Line d), ''-'', int_str (dref_EndLine d), '')'']) (si_OtherDefinitions r) @
         render_section
           (line_of [''## References ('', int_str (meta_RefsShown (si_Meta r)), '' shown of '',
              int_str (meta_RefsTotal (si_Meta r)), '', ranked)''])
           (\<lambda>x. line_of [''- `'', ref_File x, '':'', int_str (ref_Line x), ''` score `'',
              fmt_f0 (ref_Score x), ''` reason `'', ref_Reason x, ''`'']) (si_References r) @
         render_section
           (line_of [''## Callers ('', int_str (int (length (si_Callers r))), '' shown, ranked)''])
           (\<lambda>c. line_of [''- `'', cal_Symbol c, ''` (`'', cal_File c, '':'', int_str (cal_Line c),
              ''`) reason `'', cal_Reason c, ''`'']) (si_Callers r) @
         render_section
           (line_of [''## Implementations ('', int_str (int (length (si_Implementations r))), '')''])
           (\<lambda>i. line_of [''- `'', imp_Name i, ''` (`'', imp_File i, '':'', int_str (imp_Line i), ''`)''])
           (si_Implementations r) @
         renderMeta (si_Meta r) verbose)"

definition renderNotFound :: "SymbolIntelligence \<Rightarrow> bool \<Rightarrow> string" where
  "renderNotFound r verbose =
     line_of [''# No Exact Symbol: `'', si_Query r, ''`''] @
     line_of [''No exact symbol named `'', si_Query r, ''` was found.''] @ [newline] @
     render_section (line_of [''## Closest candidates''])
       (\<lambda>c. line_of [''- `'', cand_Name c, ''` (`'', cand_Type c, ''`, `'', cand_File c, ''`) reason `'',
          cand_Reason c, ''`'']) (si_Ambiguous r) @
     render_section (line_of [''## Text matches ('', int_str (int (length (si_References r))), '')''])
       (\<lambda>x. line_of [''- `'', ref_File x, '':'', int_str (ref_Line x), ''` `'', trim_space (ref_Snippet x), ''`''])
       (si_References r) @
     renderMeta (si_Meta r) verbose"

definition triangle :: string where "triangle = [CHR 0xE2, CHR 0x96, CHR 0xB6]"

definition renderFileTooLarge :: "SymbolIntelligence \<Rightarrow> string" where
  "renderFileTooLarge r =
     line_of [''# Error: File Too Large (`'', si_Query r, ''`)''] @
     line_of [''Reading this file will overflow your context window.''] @ [newline] @
     line_of [triangle, '' To search for a specific error, you may now use grep:''] @
     line_of [''`grep -n '', [CHR 0x22], ''PATTERN'', [CHR 0x22], '' '', si_Query r, ''`''] @
     line_of [triangle, '' To read the end of the file, you may use tail:''] @
     line_of [''`tail -n 100 '', si_Query r, ''`'']"

definition RenderMarkdown :: "SymbolIntelligence option \<Rightarrow> bool \<Rightarrow> string" where
  "RenderMarkdown result verbose =
     (case result of
        None \<Rightarrow> []
      | Some r \<Rightarrow>
          if si_Status r = ''file_too_large'' then renderFileTooLarge r
          else if si_Status r = ''not_found_exact'' \<or> si_Status r = ''not_found'' then renderNotFound r verbose
          else renderOK r verbose)"

section \<open>Properties\<close>

lemma queryText_nothing_result:
  assumes "nothing_found e opts" "si_Query r = opt_Query opts"
  shows "let r' = queryText e (opt_Path opts) (ComputeBudget (opt_Budget opts) (opt_Depth opts)) r
    in si_Status r' = si_Status r \<and> si_Query r' = si_Query r \<and> si_Symbol r' = si_Symbol r"
proof -
  have semantic: "si_Query (semantic_query e m r') = si_Query r' \<and> si_Symbol (semantic_query e m r') = si_Symbol r'" for m r'
    by (simp add: semantic_query_def Let_def semantic_hits_def meta_updates split: option.split sum.split)
  have "si_Query (text_hits refs src m r) = si_Query r \<and> si_Symbol (text_hits refs src m r) = si_Symbol r" for refs src m
    by (simp add: text_hits_def Let_def meta_updates)
  moreover have "si_Symbol (add_error x r) = si_Symbol r" for x by (simp add: meta_updates)
  ultimately show ?thesis
    using queryText_nothing [OF assms refl refl] semantic
    by (simp add: queryText_def Let_def split: option.splits sum.splits prod.splits)
qed

text \<open>
  A text query that finds nothing is rendered as an answer: the Markdown opens with the
  heading of a symbol found and goes on with an empty summary, where the symbol query opens with
  ``No Exact Symbol''.
\<close>

theorem RenderMarkdown_text_nothing_found:
  assumes "nothing_found e opts"
    and "Classify (env_Unicode env) (opt_Query opts) (opt_Mode opts) = IntentText"
  shows "has_prefix (RenderMarkdown (Some (Query sched env e opts)) verbose)
    (''# Symbol: `'' @ opt_Query opts @ ''`'' @ [newline, newline] @ ''## Summary'' @ [newline])"
proof -
  let ?r = "Query sched env e opts"
  have "si_Status ?r = [] \<and> si_Query ?r = opt_Query opts \<and> si_Symbol ?r = []"
    using queryText_nothing_result [OF assms(1), of "initial_result opts IntentText
        (ComputeBudget (opt_Budget opts) (opt_Depth opts))"] assms(2)
    by (simp add: Query_def initial_result_def Let_def)
  then have "RenderMarkdown (Some ?r) verbose = renderOK ?r verbose"
    "si_Symbol ?r = []" "si_Query ?r = opt_Query opts"
    by (simp_all add: RenderMarkdown_def)
  then show ?thesis
    by (auto simp: renderOK_def render_summary_def line_of_def has_prefix_iff Let_def)
qed

theorem RenderMarkdown_text_nothing_found_witness:
  "has_prefix (RenderMarkdown (Some (Query [] demo_env (demo_engine\<lparr>eng_Refs := None\<rparr>)
       \<lparr>opt_Query = ''g'', opt_Path = [], opt_Depth = 1, opt_Budget = ''auto'', opt_Mode = ''text''\<rparr>)) False)
     (''# Symbol: `g`'' @ [newline, newline] @ ''## Summary'' @ [newline])"
proof -
  let ?o = "\<lparr>opt_Query = ''g'', opt_Path = [], opt_Depth = 1, opt_Budget = ''auto'', opt_Mode = ''text''\<rparr>"
  have n: "nothing_found (demo_engine\<lparr>eng_Refs := None\<rparr>) ?o"
    by (simp add: nothing_found_def extract_definitions_def refs_answer_def demo_engine_def)
  have c: "Classify (env_Unicode demo_env) (opt_Query ?o) (opt_Mode ?o) = IntentText" by code_simp
  show ?thesis using RenderMarkdown_text_nothing_found [OF n c, of "[]" False] by simp
qed

end
