(* ===== verification/GoGlob.thy ===== *)
theory GoGlob
  imports GoPath
begin

text \<open>
  Go's \<open>path.Match\<close>, as the standard library implements it: a pattern is a sequence of chunks
  separated by stars, a star matches bytes other than a slash, and each chunk is matched at the
  first position where it fits. The program ignores the error of a malformed pattern and reads
  the result as ``no match'', so \<open>path_match\<close> is \<open>False\<close> there; in the parts below \<open>None\<close> is the
  error.
\<close>

definition rune_at :: "string \<Rightarrow> nat \<times> nat" where
  "rune_at s = decode_rune (map of_char s)"

definition get_esc :: "string \<Rightarrow> (nat \<times> string) option" where
  "get_esc chunk =
     (if chunk = [] \<or> hd chunk = CHR ''-'' \<or> hd chunk = CHR '']'' then None
      else let c = (if hd chunk = CHR 0x5C then tl chunk else chunk)
           in if c = [] then None
              else case rune_at c of (r, n) \<Rightarrow>
                if r = 65533 \<and> n = 1 \<or> drop n c = [] then None else Some (r, drop n c))"

lemma rune_at_width: "s \<noteq> [] \<Longrightarrow> 0 < snd (rune_at s)"
  by (simp add: rune_at_def decode_rune_width)

lemma get_esc_shorter: "get_esc chunk = Some (r, rest) \<Longrightarrow> rest \<noteq> [] \<and> length rest < length chunk"
  using rune_at_width [of chunk] rune_at_width [of "tl chunk"]
  by (cases chunk) (auto simp: get_esc_def Let_def split: if_splits prod.splits)

text \<open>The ranges of a character class, after the opening bracket and the negation.\<close>

function match_class :: "nat \<Rightarrow> bool \<Rightarrow> bool \<Rightarrow> string \<Rightarrow> (bool \<times> string) option" where
  "match_class r first m chunk =
     (if \<not> first \<and> chunk \<noteq> [] \<and> hd chunk = CHR '']'' then Some (m, tl chunk)
      else case get_esc chunk of
             None \<Rightarrow> None
           | Some (lo, c1) \<Rightarrow>
               if hd c1 = CHR ''-'' then
                 (case get_esc (tl c1) of
                    None \<Rightarrow> None
                  | Some (hi, c2) \<Rightarrow> match_class r False (m \<or> lo \<le> r \<and> r \<le> hi) c2)
               else match_class r False (m \<or> lo = r) c1)"
  by pat_completeness auto
termination
  by (relation "measure (\<lambda>(r, first, m, chunk). length chunk)") (auto dest!: get_esc_shorter)

declare match_class.simps [simp del]

lemma match_class_shorter: "match_class r first m chunk = Some (b, rest) \<Longrightarrow> length rest \<le> length chunk"
proof (induction r first m chunk rule: match_class.induct)
  case (1 r first m chunk)
  show ?case
  proof (cases "\<not> first \<and> chunk \<noteq> [] \<and> hd chunk = CHR '']''")
    case True
    with "1.prems" show ?thesis by (subst (asm) match_class.simps) auto
  next
    case False
    then obtain lo c1 where c1: "get_esc chunk = Some (lo, c1)"
      using "1.prems" by (subst (asm) match_class.simps) (auto split: option.splits if_splits)
    note s1 = get_esc_shorter [OF c1]
    show ?thesis
    proof (cases "hd c1 = CHR ''-''")
      case True
      then obtain hi c2 where c2: "get_esc (tl c1) = Some (hi, c2)"
        using "1.prems" False c1 by (subst (asm) match_class.simps) (auto split: option.splits)
      then have "length rest \<le> length c2"
        using "1.IH"(1) [OF False c1 refl True c2 refl] "1.prems" False c1 True
        by (subst (asm) match_class.simps) simp
      with s1 get_esc_shorter [OF c2] show ?thesis by (cases c1) auto
    next
      case no: False
      then have "length rest \<le> length c1"
        using "1.IH"(2) [OF False c1 refl no] "1.prems" False c1
        by (subst (asm) match_class.simps) simp
      with s1 show ?thesis by simp
    qed
  qed
qed

text \<open>
  One chunk at the start of \<open>s\<close>: the rest of \<open>s\<close> behind it, or \<open>Some None\<close> when it does not fit.
  A failed chunk is still read to its end, for its syntax errors.
\<close>

function match_chunk :: "bool \<Rightarrow> string \<Rightarrow> string \<Rightarrow> string option option" where
  "match_chunk failed [] s = Some (if failed then None else Some s)"
| "match_chunk failed (c # cs) s =
     (let bad = (failed \<or> s = [])
      in if c = CHR ''['' then
           (let r = (if bad then (0, 0) else rune_at s);
                negated = (cs \<noteq> [] \<and> hd cs = CHR ''^'');
                body = (if negated then tl cs else cs)
            in case match_class (fst r) True False body of
                 None \<Rightarrow> None
               | Some (m, rest) \<Rightarrow> match_chunk (bad \<or> m = negated) rest (drop (snd r) s))
         else if c = CHR ''?'' then
           (if bad then match_chunk True cs s
            else match_chunk (hd s = slash) cs (drop (snd (rune_at s)) s))
         else if c = CHR 0x5C then
           (case cs of
              [] \<Rightarrow> None
            | d # ds \<Rightarrow> if bad then match_chunk True ds s else match_chunk (d \<noteq> hd s) ds (tl s))
         else if bad then match_chunk True cs s else match_chunk (c \<noteq> hd s) cs (tl s))"
  by pat_completeness auto
termination
proof (relation "measure (\<lambda>(failed, chunk, s). length chunk)", goal_cases)
  case (2 failed c cs s bad r negated body opt m rest)
  then have "length rest \<le> length body" using match_class_shorter by metis
  moreover have "length body \<le> length cs" using 2 by simp
  ultimately show ?case by simp
qed auto

section \<open>Chunks and stars\<close>

fun scan_body :: "bool \<Rightarrow> string \<Rightarrow> string \<times> string" where
  "scan_body inrange [] = ([], [])"
| "scan_body inrange (c # cs) =
     (if c = CHR 0x5C then
        (case cs of
           [] \<Rightarrow> ([c], [])
         | d # ds \<Rightarrow> (case scan_body inrange ds of (a, b) \<Rightarrow> (c # d # a, b)))
      else if c = CHR ''*'' \<and> \<not> inrange then ([], c # cs)
      else (case scan_body (if c = CHR ''['' then True else if c = CHR '']'' then False else inrange) cs of
              (a, b) \<Rightarrow> (c # a, b)))"

definition scan_chunk :: "string \<Rightarrow> bool \<times> string \<times> string" where
  "scan_chunk pattern =
     (has_prefix pattern ''*'', scan_body False (dropWhile (\<lambda>c. c = CHR ''*'') pattern))"

lemma scan_body_length: "scan_body r p = (a, b) \<Longrightarrow> length a + length b = length p"
  by (induction r p arbitrary: a b rule: scan_body.induct) (auto split: if_splits prod.splits list.splits)

lemma scan_chunk_shorter:
  assumes "scan_chunk pattern = (star, chunk, rest)" and "pattern \<noteq> []"
  shows "length rest < length pattern"
proof (cases "hd pattern = CHR ''*''")
  case True
  then have "length (dropWhile (\<lambda>c. c = CHR ''*'') pattern) < length pattern"
    using assms(2) by (cases pattern) (auto simp: length_dropWhile_le le_imp_less_Suc)
  then show ?thesis using assms(1) scan_body_length by (fastforce simp: scan_chunk_def)
next
  case False
  then obtain c cs where p: "pattern = c # cs" "c \<noteq> CHR ''*''" using assms(2) by (cases pattern) auto
  then have "chunk \<noteq> []"
    using assms(1) by (auto simp: scan_chunk_def split: if_splits prod.splits list.splits)
  with p assms(1) show ?thesis
    using scan_body_length [of False pattern chunk rest] by (cases chunk) (auto simp: scan_chunk_def)
qed

text \<open>The loop behind a star: the first position, not beyond a slash, where the chunk fits.\<close>

fun star_search :: "string \<Rightarrow> bool \<Rightarrow> string \<Rightarrow> string option option" where
  "star_search chunk final [] = Some None"
| "star_search chunk final (c # cs) =
     (if c = slash then Some None
      else case match_chunk False chunk cs of
             None \<Rightarrow> None
           | Some None \<Rightarrow> star_search chunk final cs
           | Some (Some t) \<Rightarrow> if final \<and> t \<noteq> [] then star_search chunk final cs else Some (Some t))"

function path_match :: "string \<Rightarrow> string \<Rightarrow> bool" where
  "path_match pattern name =
     (if pattern = [] then name = []
      else case scan_chunk pattern of (star, chunk, rest) \<Rightarrow>
        if star \<and> chunk = [] then slash \<notin> set name
        else case match_chunk False chunk name of
               None \<Rightarrow> False
             | Some here \<Rightarrow>
                 (case (case here of
                          Some t \<Rightarrow> if t = [] \<or> rest \<noteq> [] then Some t else None
                        | None \<Rightarrow> None) of
                    Some t \<Rightarrow> path_match rest t
                  | None \<Rightarrow>
                      if star then
                        (case star_search chunk (rest = []) name of
                           Some (Some t) \<Rightarrow> path_match rest t
                         | _ \<Rightarrow> False)
                      else False))"
  by pat_completeness auto
termination
  by (relation "measure (\<lambda>(pattern, name). length pattern)") (auto dest: scan_chunk_shorter [OF sym])

declare path_match.simps [simp del]

section \<open>Literal patterns and extensions\<close>

definition glob_chars :: string where
  "glob_chars = [CHR ''*'', CHR ''?'', CHR ''['', CHR 0x5C]"

definition literal :: "string \<Rightarrow> bool" where
  "literal p \<longleftrightarrow> set p \<inter> set glob_chars = {}"

lemma match_chunk_failed: "literal p \<Longrightarrow> match_chunk True p s = Some None"
  by (induction p) (auto simp: literal_def glob_chars_def)

lemma match_chunk_literal:
  "literal p \<Longrightarrow> match_chunk False p s = Some (if has_prefix s p then Some (drop (length p) s) else None)"
proof (induction p arbitrary: s)
  case Nil
  then show ?case by simp
next
  case (Cons c p)
  then have "literal p" "c \<notin> set glob_chars" by (auto simp: literal_def)
  then show ?case
    using Cons.IH match_chunk_failed [of p] by (cases s; cases "c = hd s") (auto simp: glob_chars_def)
qed

lemma scan_body_literal: "literal p \<Longrightarrow> scan_body r p = (p, [])"
proof (induction p arbitrary: r)
  case Nil
  then show ?case by simp
next
  case (Cons c p)
  then have "literal p" "c \<notin> set glob_chars" by (auto simp: literal_def)
  then show ?case using Cons.IH by (simp add: glob_chars_def)
qed

lemma literal_no_star: "literal p \<Longrightarrow> dropWhile (\<lambda>c. c = CHR ''*'') p = p"
  by (cases p) (auto simp: literal_def glob_chars_def)

lemma scan_chunk_literal: "literal p \<Longrightarrow> scan_chunk p = (False, p, [])"
  by (cases p) (auto simp: scan_chunk_def literal_no_star scan_body_literal literal_def glob_chars_def)

text \<open>A pattern without special characters matches itself and nothing else.\<close>

lemma path_match_literal: "literal p \<Longrightarrow> path_match p name \<longleftrightarrow> name = p"
  by (subst path_match.simps)
     (auto simp: scan_chunk_literal match_chunk_literal path_match.simps [of "[]"] has_prefix_iff split: if_splits)

lemma star_search_literal:
  assumes "literal p" "p \<noteq> []"
  shows "star_search p True s = Some (if \<exists>c u. s = c # u @ p \<and> slash \<notin> set (c # u) then Some [] else None)"
proof (induction s)
  case Nil
  then show ?case by simp
next
  case (Cons c s)
  show ?case
  proof (cases "c = slash")
    case True
    then show ?thesis by auto
  next
    case False
    have hit: "(\<exists>d u. c # s = d # u @ p \<and> slash \<notin> set (d # u)) \<longleftrightarrow>
        s = p \<or> (\<exists>d u. s = d # u @ p \<and> slash \<notin> set (d # u))" (is "?L \<longleftrightarrow> ?R")
    proof
      assume ?L
      then obtain u where "s = u @ p" "slash \<notin> set u" by auto
      then show ?R by (cases u) auto
    next
      assume ?R
      then show ?L
      proof
        assume "s = p"
        with False have "c # s = c # [] @ p \<and> slash \<notin> set [c]" by simp
        then show ?L by blast
      next
        assume "\<exists>d u. s = d # u @ p \<and> slash \<notin> set (d # u)"
        then obtain d u where "s = d # u @ p" "slash \<notin> set (d # u)" by blast
        with False have "c # s = c # (d # u) @ p \<and> slash \<notin> set (c # d # u)" by simp
        then show ?L by blast
      qed
    qed
    have "has_prefix s p \<Longrightarrow> drop (length p) s = [] \<longleftrightarrow> s = p" and "has_prefix p p"
      by (auto simp: has_prefix_iff)
    then show ?thesis
      using False Cons.IH unfolding hit by (auto simp: match_chunk_literal [OF assms(1)])
  qed
qed

text \<open>\<open>*.ext\<close> matches exactly the names of one element that end with the extension.\<close>

lemma path_match_star:
  assumes "literal p" "p \<noteq> []"
  shows "path_match (CHR ''*'' # p) name \<longleftrightarrow> (\<exists>u. name = u @ p \<and> slash \<notin> set u)"
proof -
  have scan: "scan_chunk (CHR ''*'' # p) = (True, p, [])"
    by (simp add: scan_chunk_def literal_no_star [OF assms(1)] scan_body_literal [OF assms(1)])
  have name: "(\<exists>u. name = u @ p \<and> slash \<notin> set u) \<longleftrightarrow>
      name = p \<or> (\<exists>c u. name = c # u @ p \<and> slash \<notin> set (c # u))" (is "?L \<longleftrightarrow> ?R")
  proof
    assume ?L
    then obtain u where "name = u @ p" "slash \<notin> set u" by blast
    then show ?R by (cases u) auto
  next
    assume ?R
    then show ?L
    proof
      assume "name = p"
      then show ?L by (intro exI [of _ "[]"]) simp
    next
      assume "\<exists>c u. name = c # u @ p \<and> slash \<notin> set (c # u)"
      then obtain c u where "name = c # u @ p" "slash \<notin> set (c # u)" by blast
      then show ?L by (intro exI [of _ "c # u"]) simp
    qed
  qed
  have fits: "has_prefix name p \<Longrightarrow> drop (length p) name = [] \<longleftrightarrow> name = p"
    by (auto simp: has_prefix_iff)
  have whole: "name = p \<Longrightarrow> has_prefix name p" by (simp add: has_prefix_iff)
  have end_match: "path_match [] [] = True" by (simp add: path_match.simps)
  show ?thesis
  proof (cases "name = p")
    case True
    then show ?thesis
      unfolding name using assms(2) whole
      by (simp add: path_match.simps [of "CHR ''*'' # p"] scan match_chunk_literal [OF assms(1)] end_match)
  next
    case False
    then show ?thesis
      unfolding name using assms(2) fits
      by (simp add: path_match.simps [of "CHR ''*'' # p"] scan match_chunk_literal [OF assms(1)]
          star_search_literal [OF assms] end_match)
  qed
qed

end
