(* ===== verification/Ignore.thy ===== *)
theory Ignore
  imports GoGlob "HOL-Library.Char_ord" "HOL-Library.List_Lexorder"
begin

text \<open>
  \<open>pkg/ignore/matcher.go\<close>: ignore patterns and the matcher for a root. \<open>cwd\<close> is the working
  directory that \<open>filepath.Abs\<close> uses, \<open>open_file\<close> and \<open>exists\<close> stand for \<open>os.Open\<close> with the
  file's content and \<open>os.Stat\<close>, and \<open>sha256\<close> for the hexadecimal SHA-256 of a string. The order
  on strings is the bytewise lexicographic order that \<open>sort.Strings\<close> uses.
\<close>

definition defaultPatterns :: "string list" where
  "defaultPatterns =
     [''.git'', ''node_modules'', ''vendor'', ''dist'', ''build'', ''.next'', ''__pycache__'',
      ''.pytest_cache'', ''.mypy_cache'', ''target'', ''.idea'', ''.vscode'', ''.DS_Store'']"

section \<open>Loading\<close>

text \<open>
  The lines of a \<open>bufio.Scanner\<close>: the text between newlines without a final carriage return; an
  empty line after the last newline is not a line, and a line of 65536 bytes or more ends the scan.
\<close>

definition drop_cr :: "string \<Rightarrow> string" where
  "drop_cr l = (if l \<noteq> [] \<and> last l = CHR 0x0D then butlast l else l)"

definition scanner_lines :: "string \<Rightarrow> string list" where
  "scanner_lines content =
     (let parts = split_on newline content;
          lines = (if last parts = [] then butlast parts else parts)
      in map drop_cr (takeWhile (\<lambda>l. length l < 65536) lines))"

definition loadIgnoreFile :: "(string \<Rightarrow> string option) \<Rightarrow> string \<Rightarrow> string \<Rightarrow> string list" where
  "loadIgnoreFile open_file root_dir name =
     (case open_file (path_join [root_dir, name]) of None \<Rightarrow> [] | Some content \<Rightarrow> scanner_lines content)"

definition normalizePattern :: "string \<Rightarrow> string option" where
  "normalizePattern rawPattern =
     (let pattern = trim_space rawPattern
      in if pattern = [] \<or> has_prefix pattern ''#'' \<or> has_prefix pattern ''!'' then None
         else let p = trim_prefix (trim_suffix pattern ''/'') ''./''
              in if p = [] \<or> p = ''/'' then None else Some p)"

fun normalize_loop :: "string list \<Rightarrow> string list \<Rightarrow> string list" where
  "normalize_loop seen [] = []"
| "normalize_loop seen (raw # rest) =
     (case normalizePattern raw of
        None \<Rightarrow> normalize_loop seen rest
      | Some p \<Rightarrow> if p \<in> set seen then normalize_loop seen rest
                  else p # normalize_loop (p # seen) rest)"

definition normalizePatterns :: "string list \<Rightarrow> string list" where
  "normalizePatterns patterns = normalize_loop [] patterns"

definition fingerprintForPatterns :: "(string \<Rightarrow> string) \<Rightarrow> string list \<Rightarrow> string" where
  "fingerprintForPatterns sha256 patterns = sha256 (join [CHR 0x00] (sort patterns))"

section \<open>Matching\<close>

definition pattern_matches :: "string \<Rightarrow> string \<Rightarrow> bool" where
  "pattern_matches relPath rawPattern =
     (let name = path_base relPath;
          segments = split_on slash relPath;
          anchored = has_prefix rawPattern ''/'';
          pattern = trim_prefix rawPattern ''/''
      in if pattern = [] then False
         else if name = pattern then True
         else if contains_any pattern ''*?[]'' then
           path_match pattern name \<or> path_match pattern relPath \<or>
           (\<not> anchored \<and> list_ex (\<lambda>i. path_match pattern (join ''/'' (drop i segments))) [0..<length segments])
         else if contains pattern ''/'' then
           relPath = pattern \<or> has_prefix relPath (pattern @ ''/'') \<or>
           (\<not> anchored \<and> (contains relPath (''/'' @ pattern @ ''/'') \<or> has_suffix relPath (''/'' @ pattern)))
         else list_ex (\<lambda>segment. segment = pattern) segments)"

definition matches :: "string \<Rightarrow> string list \<Rightarrow> bool" where
  "matches relPath0 patterns =
     (let relPath = trim_prefix relPath0 ''./''
      in if relPath = [] \<or> relPath = ''.'' then False else list_ex (pattern_matches relPath) patterns)"

record Matcher =
  mt_root :: string
  mt_patterns :: "string list"
  mt_fingerprint :: string

definition NewMatcher ::
  "(string \<Rightarrow> string) \<Rightarrow> (string \<Rightarrow> string option) \<Rightarrow> string \<Rightarrow> string \<Rightarrow> string list \<Rightarrow> Matcher" where
  "NewMatcher sha256 open_file cwd root_dir extraPatterns =
     (let absRoot = path_abs cwd root_dir;
          patterns = normalizePatterns (defaultPatterns @ extraPatterns @
            loadIgnoreFile open_file absRoot ''.gitignore'' @ loadIgnoreFile open_file absRoot ''.csignore'')
      in \<lparr>mt_root = path_clean absRoot, mt_patterns = patterns,
          mt_fingerprint = fingerprintForPatterns sha256 patterns\<rparr>)"

definition MatchesRelative :: "Matcher option \<Rightarrow> string \<Rightarrow> bool" where
  "MatchesRelative m relPath = (case m of None \<Rightarrow> False | Some m \<Rightarrow> matches relPath (mt_patterns m))"

definition MatchesPath :: "string \<Rightarrow> Matcher option \<Rightarrow> string \<Rightarrow> bool" where
  "MatchesPath cwd m targetPath =
     (case m of
        None \<Rightarrow> False
      | Some mt \<Rightarrow>
          if trim_space targetPath = [] then False
          else case path_rel (mt_root mt) (path_abs cwd targetPath) of
                 Inl err \<Rightarrow> False
               | Inr relPath \<Rightarrow>
                   if relPath = ''.'' \<or> relPath = ''..'' \<or> has_prefix relPath ''../'' then False
                   else MatchesRelative m relPath)"

section \<open>The project root\<close>

definition has_marker :: "(string \<Rightarrow> bool) \<Rightarrow> string \<Rightarrow> bool" where
  "has_marker exists dir =
     list_ex (\<lambda>marker. exists (path_join [dir, marker])) [''.git'', ''.gitignore'', ''.csignore'']"

text \<open>The upward loop, with fuel; \<open>None\<close> is running out of it.\<close>

fun project_root_loop :: "(string \<Rightarrow> bool) \<Rightarrow> string \<Rightarrow> nat \<Rightarrow> string \<Rightarrow> string option" where
  "project_root_loop exists start 0 current = None"
| "project_root_loop exists start (Suc fuel) current =
     (if has_marker exists current then Some current
      else let parent = path_dir current
           in if parent = current then Some start else project_root_loop exists start fuel parent)"

definition FindProjectRoot :: "(string \<Rightarrow> bool) \<Rightarrow> string \<Rightarrow> string \<Rightarrow> string option" where
  "FindProjectRoot exists cwd dir =
     (let current = path_clean (path_abs cwd dir)
      in project_root_loop exists current (Suc (length current)) current)"

section \<open>Paths as lists of segments\<close>

text \<open>Every segment behind its slash.\<close>

definition slashed :: "string list \<Rightarrow> string" where
  "slashed segs = concat (map (\<lambda>x. slash # x) segs)"

lemma slashed_simps [simp]:
  "slashed [] = []" "slashed (x # xs) = slash # x @ slashed xs" "slashed (xs @ ys) = slashed xs @ slashed ys"
  by (simp_all add: slashed_def)

lemma slashed_split: "slashed (split_on slash s) = slash # s"
proof -
  have "segs \<noteq> [] \<Longrightarrow> slashed segs = slash # join ''/'' segs" for segs
    by (induction segs rule: induct_list012) simp_all
  from this [of "split_on slash s"] show ?thesis by (simp add: join_split)
qed

definition slash_free :: "string list \<Rightarrow> bool" where
  "slash_free segs \<longleftrightarrow> (\<forall>x \<in> set segs. slash \<notin> set x)"

lemma slash_free_simps [simp]:
  "slash_free []" "slash_free (x # xs) \<longleftrightarrow> slash \<notin> set x \<and> slash_free xs"
  by (simp_all add: slash_free_def)

lemma slash_free_split [simp]: "slash_free (split_on slash s)"
  using split_on_parts by (auto simp: slash_free_def)

text \<open>A first segment is determined by the string that starts with it and a slash.\<close>

lemma first_segment:
  "slash \<notin> set x \<Longrightarrow> slash \<notin> set y \<Longrightarrow> x @ slash # r = y @ slash # t \<longleftrightarrow> x = y \<and> r = t"
proof (induction x arbitrary: y)
  case Nil
  then show ?case by (cases y) auto
next
  case (Cons a x)
  then show ?case by (cases y) auto
qed

lemma slashed_end_Cons: "\<exists>t. slashed xs @ [slash] = slash # t"
  by (cases xs) auto

lemma slashed_prefix:
  "slash_free segs \<Longrightarrow> slash_free ps \<Longrightarrow>
   has_prefix (slashed segs @ [slash]) (slashed ps @ [slash]) \<longleftrightarrow> prefix ps segs"
proof (induction ps arbitrary: segs)
  case Nil
  show ?case by (cases segs) auto
next
  case (Cons p ps)
  show ?case
  proof (cases segs)
    case Nil
    then show ?thesis by (auto simp: has_prefix_iff)
  next
    case segs: (Cons x xs)
    obtain t u where t: "slashed xs @ [slash] = slash # t" and u: "slashed ps @ [slash] = slash # u"
      using slashed_end_Cons by meson
    have "has_prefix (slashed segs @ [slash]) (slashed (p # ps) @ [slash]) \<longleftrightarrow>
        (\<exists>w. x @ slash # t = p @ slash # (u @ w))"
      by (simp add: segs has_prefix_iff t u)
    also have "\<dots> \<longleftrightarrow> x = p \<and> has_prefix t u"
      using Cons.prems segs by (auto simp: first_segment has_prefix_iff)
    also have "\<dots> \<longleftrightarrow> x = p \<and> prefix ps xs"
      using Cons.IH [of xs] Cons.prems segs t u by simp
    finally show ?thesis by (auto simp: segs)
  qed
qed

text \<open>A string that starts with a slash cannot begin inside a segment.\<close>

lemma contains_skip:
  "slash \<notin> set x \<Longrightarrow> contains (x @ s) (slash # t) \<longleftrightarrow> contains s (slash # t)"
  by (induction x) auto

lemma slashed_contains:
  "slash_free segs \<Longrightarrow> slash_free ps \<Longrightarrow> ps \<noteq> [] \<Longrightarrow>
   contains (slashed segs @ [slash]) (slashed ps @ [slash]) \<longleftrightarrow> sublist ps segs"
proof (induction segs)
  case Nil
  then show ?case by (cases ps) (auto simp: slashed_def)
next
  case (Cons x segs)
  obtain t where t: "slashed ps @ [slash] = slash # t" using slashed_end_Cons by meson
  have "contains (slashed (x # segs) @ [slash]) (slashed ps @ [slash]) \<longleftrightarrow>
      has_prefix (slashed (x # segs) @ [slash]) (slashed ps @ [slash]) \<or>
      contains (slashed segs @ [slash]) (slashed ps @ [slash])"
    using Cons.prems contains_skip [of x "slashed segs @ [slash]" t] by (simp add: t)
  then show ?case
    using Cons slashed_prefix [of "x # segs" ps] by (simp add: sublist_Cons_right)
qed

lemma segments_sublist:
  "sublist (split_on slash p) (split_on slash s) \<longleftrightarrow>
   s = p \<or> has_prefix s (p @ ''/'') \<or> contains s (''/'' @ p @ ''/'') \<or> has_suffix s (''/'' @ p)"
  (is "?L \<longleftrightarrow> ?R")
proof -
  have "?L \<longleftrightarrow> contains (slash # s @ [slash]) (slash # p @ [slash])"
    using slashed_contains [of "split_on slash s" "split_on slash p"] by (simp add: slashed_split)
  also have "\<dots> \<longleftrightarrow> ?R"
  proof
    assume "contains (slash # s @ [slash]) (slash # p @ [slash])"
    then obtain u v where eq: "slash # s @ [slash] = u @ (slash # p @ [slash]) @ v"
      unfolding contains_iff by blast
    show ?R
    proof (cases u; cases v rule: rev_cases)
      fix a u' v' b assume "u = a # u'" "v = v' @ [b]"
      with eq have "s = u' @ (''/'' @ p @ ''/'') @ v'" by simp
      then have "contains s (''/'' @ p @ ''/'')" unfolding contains_iff by blast
      then show ?R by blast
    next
      fix v' b assume "u = []" "v = v' @ [b]"
      with eq have "s = (p @ ''/'') @ v'" by simp
      then have "has_prefix s (p @ ''/'')" unfolding has_prefix_iff by blast
      then show ?R by blast
    next
      fix a u' assume "u = a # u'" "v = []"
      with eq have "s = u' @ (''/'' @ p)" by simp
      then have "has_suffix s (''/'' @ p)" unfolding has_suffix_iff by blast
      then show ?R by blast
    next
      assume "u = []" "v = []"
      with eq show ?R by simp
    qed
  next
    have step: "slash # s @ [slash] = a @ (slash # p @ [slash]) @ b \<Longrightarrow>
        contains (slash # s @ [slash]) (slash # p @ [slash])" for a b
      unfolding contains_iff by blast
    assume ?R
    then consider "s = p" | v where "s = p @ ''/'' @ v" | u v where "s = u @ ''/'' @ p @ ''/'' @ v"
      | u where "s = u @ ''/'' @ p"
      by (auto simp: has_prefix_iff has_suffix_iff contains_iff)
    then show "contains (slash # s @ [slash]) (slash # p @ [slash])"
    proof cases
      case 1 then show ?thesis by (intro step [of "[]" "[]"]) simp
    next
      case (2 v) then show ?thesis by (intro step [of "[]" "v @ [slash]"]) simp
    next
      case (3 u v) then show ?thesis by (intro step [of "slash # u" "v @ [slash]"]) simp
    next
      case (4 u) then show ?thesis by (intro step [of "slash # u" "[]"]) simp
    qed
  qed
  finally show ?thesis .
qed

section \<open>Literal patterns\<close>

text \<open>The path of a file below the root, as its list of names.\<close>

definition is_segs :: "string list \<Rightarrow> bool" where
  "is_segs segs \<longleftrightarrow> segs \<noteq> [] \<and> (\<forall>x \<in> set segs. is_name x)"

definition rel_path :: "string list \<Rightarrow> string" where
  "rel_path segs = join ''/'' segs"

lemma is_segs_append: "is_segs segs \<Longrightarrow> is_segs (segs @ tail) \<longleftrightarrow> (\<forall>x \<in> set tail. is_name x)"
  by (auto simp: is_segs_def)

lemma split_rel_path: "is_segs segs \<Longrightarrow> split_on slash (rel_path segs) = segs"
  by (simp add: is_segs_def rel_path_def split_join is_name_def)

lemma rel_path_snoc: "segs \<noteq> [] \<Longrightarrow> rel_path (segs @ [x]) = rel_path segs @ slash # x"
  unfolding rel_path_def by (induction segs rule: induct_list012) simp_all

lemma base_of_end:
  assumes "x \<noteq> []" "slash \<notin> set x" "pre = [] \<or> last pre = slash"
  shows "path_base (pre @ x) = x"
proof -
  have "last x \<noteq> slash" using assms(1,2) by (metis last_in_set)
  then have "rev x \<noteq> []" "hd (rev x) \<noteq> slash" using assms(1) by (simp_all add: hd_rev)
  then have d: "dropWhile (\<lambda>c. c = slash) (rev x @ rev pre) = rev x @ rev pre"
    by (cases "rev x") simp_all
  have "\<forall>c \<in> set (rev x). c \<noteq> slash" using assms(2) by auto
  moreover have "takeWhile (\<lambda>c. c \<noteq> slash) (rev pre) = []"
    using assms(3) by (cases pre rule: rev_cases) simp_all
  ultimately have "takeWhile (\<lambda>c. c \<noteq> slash) (rev x @ rev pre) = rev x"
    using takeWhile_append2 [of "rev x" "\<lambda>c. c \<noteq> slash" "rev pre"] by simp
  then show ?thesis using assms(1) by (simp add: path_base_def d)
qed

lemma base_rel_path:
  assumes "is_segs segs"
  shows "path_base (rel_path segs) = last segs"
proof (cases segs rule: rev_cases)
  case Nil
  with assms show ?thesis by (simp add: is_segs_def)
next
  case (snoc xs x)
  then have x: "x \<noteq> []" "slash \<notin> set x" using assms by (auto simp: is_segs_def is_name_def)
  show ?thesis
  proof (cases "xs = []")
    case True
    with snoc show ?thesis using base_of_end [OF x, of "[]"] by (simp add: rel_path_def)
  next
    case False
    with snoc show ?thesis
      using base_of_end [OF x, of "rel_path xs @ [slash]"] rel_path_snoc [OF False, of x] by simp
  qed
qed

lemma rel_path_plain:
  assumes "is_segs segs"
  shows "trim_prefix (rel_path segs) ''./'' = rel_path segs" "rel_path segs \<noteq> []" "rel_path segs \<noteq> ''.''"
proof -
  obtain x xs where segs: "segs = x # xs" using assms by (cases segs) (auto simp: is_segs_def)
  then have x: "is_name x" using assms by (auto simp: is_segs_def)
  have path: "rel_path segs = x \<or> (\<exists>t. rel_path segs = x @ slash # t)"
    using segs by (cases xs) (auto simp: rel_path_def)
  have "\<not> has_prefix (rel_path segs) ''./''"
  proof
    assume "has_prefix (rel_path segs) ''./''"
    then obtain t where t: "rel_path segs = ''.'' @ slash # t" by (auto simp: has_prefix_iff)
    then have "slash \<in> set (rel_path segs)" by simp
    with path obtain u where "x @ slash # u = ''.'' @ slash # t" using x t by (auto simp: is_name_def)
    then show False using x first_segment [of x "''.''" u t] by (simp add: is_name_def)
  qed
  then show "trim_prefix (rel_path segs) ''./'' = rel_path segs" by (simp add: trim_prefix_def)
  have "x @ slash # t \<noteq> ''.''" for t
  proof
    assume "x @ slash # t = ''.''"
    then have "slash \<in> set ''.''" by (metis in_set_conv_decomp)
    then show False by simp
  qed
  then show "rel_path segs \<noteq> []" "rel_path segs \<noteq> ''.''"
    using path x by (auto simp: is_name_def)
qed

definition glob_free :: "string \<Rightarrow> bool" where
  "glob_free p \<longleftrightarrow> \<not> contains_any p ''*?[]''"

lemma matches_rel_path:
  "is_segs segs \<Longrightarrow> matches (rel_path segs) ps \<longleftrightarrow> list_ex (pattern_matches (rel_path segs)) ps"
  by (simp add: matches_def rel_path_plain)

text \<open>What a pattern without special characters means, on segments.\<close>

definition literal_meaning :: "string \<Rightarrow> string list \<Rightarrow> bool" where
  "literal_meaning rawPattern segs \<longleftrightarrow>
     (let pattern = trim_prefix rawPattern ''/''; parts = split_on slash pattern
      in pattern \<noteq> [] \<and>
         (if has_prefix rawPattern ''/'' \<and> slash \<in> set pattern then prefix parts segs else sublist parts segs))"

lemma sublist_singleton: "sublist [x] xs \<longleftrightarrow> x \<in> set xs"
  by (auto simp: sublist_def in_set_conv_decomp)

lemma prefix_segments:
  "prefix (split_on slash p) (split_on slash s) \<longleftrightarrow> s = p \<or> has_prefix s (p @ ''/'')"
proof -
  have "prefix (split_on slash p) (split_on slash s) \<longleftrightarrow>
      has_prefix (slash # s @ [slash]) (slash # p @ [slash])"
    using slashed_prefix [of "split_on slash s" "split_on slash p"] by (simp add: slashed_split)
  also have "\<dots> \<longleftrightarrow> (\<exists>v. s @ [slash] = p @ [slash] @ v)" by (simp add: has_prefix_iff)
  also have "\<dots> \<longleftrightarrow> s = p \<or> has_prefix s (p @ ''/'')"
  proof
    assume "\<exists>v. s @ [slash] = p @ [slash] @ v"
    then obtain v where "s @ [slash] = p @ [slash] @ v" ..
    then show "s = p \<or> has_prefix s (p @ ''/'')" by (cases v rule: rev_cases) (auto simp: has_prefix_iff)
  qed (auto simp: has_prefix_iff)
  finally show ?thesis .
qed

lemma pattern_matches_literal:
  assumes "is_segs segs" and "glob_free (trim_prefix raw ''/'')"
  shows "pattern_matches (rel_path segs) raw \<longleftrightarrow> literal_meaning raw segs"
proof -
  define p where "p = trim_prefix raw ''/''"
  define s where "s = rel_path segs"
  have split: "split_on slash s = segs" unfolding s_def by (rule split_rel_path) (rule assms(1))
  have base: "path_base s = last segs" unfolding s_def by (rule base_rel_path) (rule assms(1))
  have last: "last segs \<in> set segs" "slash \<notin> set (last segs)"
    using assms(1) by (auto simp: is_segs_def is_name_def)
  show ?thesis
  proof (cases "slash \<in> set p")
    case True
    then have "last segs \<noteq> p" "contains p ''/''" using last by (auto simp: contains_singleton)
    then show ?thesis
      using assms(2) segments_sublist [of p s] prefix_segments [of p s] True
      by (auto simp: pattern_matches_def literal_meaning_def Let_def split base glob_free_def
          simp flip: p_def s_def)
  next
    case False
    then have "split_on slash p = [p]" "\<not> contains p ''/''"
      by (simp_all add: split_on_free contains_singleton)
    then show ?thesis
      using assms(2) last False
      by (auto simp: pattern_matches_def literal_meaning_def Let_def split base glob_free_def
          sublist_singleton list_ex_iff simp flip: p_def s_def)
  qed
qed

lemma literal_meaning_below: "literal_meaning raw segs \<Longrightarrow> literal_meaning raw (segs @ tail)"
  unfolding literal_meaning_def Let_def
  by (auto split: if_splits intro: sublist_order.order.trans sublist_appendI [of segs "[]" tail, simplified])

section \<open>The normalised patterns\<close>

lemma normalizePattern_nonempty: "normalizePattern raw = Some p \<Longrightarrow> p \<noteq> []"
  by (auto simp: normalizePattern_def Let_def split: if_splits)

lemma normalize_loop_set:
  "set (normalize_loop seen raws) = {p. \<exists>raw \<in> set raws. normalizePattern raw = Some p} - set seen"
  by (induction seen raws rule: normalize_loop.induct) (auto split: option.splits)

lemma normalize_loop_distinct: "distinct (normalize_loop seen raws)"
  by (induction seen raws rule: normalize_loop.induct) (auto simp: normalize_loop_set split: option.splits)

lemma normalizePatterns_nonempty: "[] \<notin> set (normalizePatterns raws)"
  using normalizePattern_nonempty by (auto simp: normalizePatterns_def normalize_loop_set)

lemma matches_set: "set ps = set qs \<Longrightarrow> matches rel ps = matches rel qs"
  by (simp add: matches_def Let_def list_ex_iff)

lemma join_nonempty: "xs \<noteq> [] \<Longrightarrow> [] \<notin> set xs \<Longrightarrow> join sep xs \<noteq> []"
  by (cases xs rule: remdups_adj.cases) auto

lemma join_inj:
  assumes "join [c] xs = join [c] ys" "[] \<notin> set xs" "[] \<notin> set ys"
    and "\<forall>x \<in> set xs. c \<notin> set x" "\<forall>y \<in> set ys. c \<notin> set y"
  shows "xs = ys"
proof (cases "xs = [] \<or> ys = []")
  case True
  then show ?thesis using assms(1-3) join_nonempty by (metis join.simps(1))
next
  case False
  then show ?thesis using assms split_join [of xs c] split_join [of ys c] by metis
qed

lemma fingerprint_set:
  assumes "inj sha256" and "\<forall>p \<in> set ps \<union> set qs. CHR 0x00 \<notin> set p"
    and "distinct ps" "distinct qs" "[] \<notin> set ps" "[] \<notin> set qs"
  shows "fingerprintForPatterns sha256 ps = fingerprintForPatterns sha256 qs \<longleftrightarrow> set ps = set qs"
proof
  assume "fingerprintForPatterns sha256 ps = fingerprintForPatterns sha256 qs"
  then have "join [CHR 0x00] (sort ps) = join [CHR 0x00] (sort qs)"
    using assms(1) by (simp add: fingerprintForPatterns_def inj_eq)
  then have "sort ps = sort qs" by (rule join_inj) (use assms in auto)
  then show "set ps = set qs" by (metis set_sort)
next
  assume "set ps = set qs"
  then have "sort ps = sort qs" using assms(3,4) by (simp add: sorted_distinct_set_unique)
  then show "fingerprintForPatterns sha256 ps = fingerprintForPatterns sha256 qs"
    by (simp add: fingerprintForPatterns_def)
qed

section \<open>Absolute paths and the upward loop\<close>

lemma split_slash_head: "split_on slash (slash # s) = [] # split_on slash s"
  by simp

lemma clean_rooted:
  assumes "has_prefix p ''/''"
  shows "\<exists>ns. path_clean p = slash # rel_path ns \<and> (\<forall>n \<in> set ns. is_name n)"
proof -
  have form: "clean_form True (clean_segs True [] (split_on slash p))"
    by (rule clean_segs_form) (auto dest: split_on_parts)
  then obtain names where "clean_segs True [] (split_on slash p) = names" "\<forall>t \<in> set names. is_name t"
    unfolding clean_form_def by auto
  with assms show ?thesis by (auto simp: path_clean_def rel_path_def)
qed

lemma path_abs_rooted:
  assumes "has_prefix cwd ''/''"
  shows "\<exists>ns. path_clean (path_abs cwd p) = slash # rel_path ns \<and> (\<forall>n \<in> set ns. is_name n)"
proof -
  have "\<exists>q. has_prefix q ''/'' \<and> path_clean (path_abs cwd p) = path_clean q"
  proof (cases "path_is_abs p")
    case True
    then show ?thesis by (intro exI [of _ p]) (simp add: path_abs_def path_is_abs_def path_clean_idem)
  next
    case False
    have "cwd \<noteq> []" using assms by auto
    with False have "path_abs cwd p = path_clean (join ''/'' [cwd, p])"
      by (simp add: path_abs_def path_join_def)
    moreover have "has_prefix (join ''/'' [cwd, p]) ''/''" using assms by (auto simp: has_prefix_iff)
    ultimately show ?thesis using path_clean_idem by metis
  qed
  then show ?thesis using clean_rooted by metis
qed

lemma clean_names_end: "\<forall>n \<in> set ns. is_name n \<Longrightarrow> clean_segs True out (ns @ [[]]) = rev out @ ns"
  by (induction ns arbitrary: out) (simp_all add: is_name_def)

lemma clean_dir:
  assumes "\<forall>n \<in> set ns. is_name n"
  shows "path_clean (slash # rel_path ns @ (if ns = [] then [] else [slash])) = slash # rel_path ns"
proof -
  have free: "\<forall>n \<in> set (ns @ [[]]). slash \<notin> set n" using assms by (auto simp: is_name_def)
  have "ns \<noteq> [] \<Longrightarrow> rel_path ns @ [slash] = join ''/'' (ns @ [[]])"
    using rel_path_snoc [of ns "[]"] by (simp add: rel_path_def)
  then have "split_on slash (slash # rel_path ns @ (if ns = [] then [] else [slash])) = [] # ns @ [[]]"
    using split_join [of "ns @ [[]]" slash] free by (auto simp: rel_path_def)
  then show ?thesis
    using clean_names_end [OF assms, of "[]"] by (simp add: path_clean_def rel_path_def)
qed

lemma dir_abs:
  assumes "\<forall>n \<in> set (ns @ [x]). is_name n"
  shows "path_dir (slash # rel_path (ns @ [x])) = slash # rel_path ns"
proof -
  have x: "\<forall>c \<in> set (rev x). c \<noteq> slash" using assms by (auto simp: is_name_def)
  define pre where "pre = slash # rel_path ns @ (if ns = [] then [] else [slash])"
  have path: "slash # rel_path (ns @ [x]) = pre @ x" and "pre \<noteq> []" "last pre = slash"
    using rel_path_snoc [of ns x] by (auto simp: pre_def rel_path_def)
  then obtain q where q: "rev pre = slash # q" by (cases pre rule: rev_cases) auto
  have "dropWhile (\<lambda>c. c \<noteq> slash) (rev x @ rev pre) = rev pre"
    using dropWhile_append2 [of "rev x" "\<lambda>c. c \<noteq> slash" "rev pre"] x q by simp
  then have "path_dir (pre @ x) = path_clean pre" by (simp add: path_dir_def)
  then show ?thesis using clean_dir [of ns] assms unfolding path by (simp add: pre_def)
qed

lemma dir_top: "path_dir [slash] = [slash]"
  by code_simp

lemma rel_path_length: "\<forall>n \<in> set ns. is_name n \<Longrightarrow> length ns \<le> length (rel_path ns)"
proof (induction ns rule: rev_induct)
  case (snoc x xs)
  then have "1 \<le> length x" by (cases x) (auto simp: is_name_def)
  with snoc rel_path_snoc [of xs x] show ?case by (cases "xs = []") (auto simp: rel_path_def)
qed simp

text \<open>The ancestors of a directory, from itself up to the top.\<close>

definition ancestors :: "string list \<Rightarrow> string list" where
  "ancestors ns = map (\<lambda>k. slash # rel_path (take k ns)) (rev [0..<Suc (length ns)])"

lemma ancestors_simps:
  "ancestors [] = [[slash]]"
  "ancestors (ns @ [x]) = (slash # rel_path (ns @ [x])) # ancestors ns"
  by (simp_all add: ancestors_def rel_path_def)

lemma rel_path_ne:
  assumes "\<forall>n \<in> set (ns @ [x]). is_name n"
  shows "slash # rel_path ns \<noteq> slash # rel_path (ns @ [x])"
proof
  assume "slash # rel_path ns = slash # rel_path (ns @ [x])"
  then have "length (rel_path ns) = length (rel_path (ns @ [x]))" by simp
  then show False using assms rel_path_snoc [of ns x] by (cases "ns = []") (auto simp: rel_path_def is_name_def)
qed

lemma project_root_loop_find:
  assumes "\<forall>n \<in> set ns. is_name n" and "length ns < fuel"
  shows "project_root_loop exists start fuel (slash # rel_path ns) =
    Some (case find (has_marker exists) (ancestors ns) of Some d \<Rightarrow> d | None \<Rightarrow> start)"
  using assms
proof (induction ns arbitrary: fuel rule: rev_induct)
  case Nil
  then obtain f where "fuel = Suc f" by (cases fuel) auto
  then show ?case by (simp add: ancestors_simps rel_path_def dir_top)
next
  case (snoc x ns)
  then obtain f where f: "fuel = Suc f" by (cases fuel) auto
  have "project_root_loop exists start f (slash # rel_path ns) =
      Some (case find (has_marker exists) (ancestors ns) of Some d \<Rightarrow> d | None \<Rightarrow> start)"
    by (rule snoc.IH) (use snoc.prems f in auto)
  then show ?case using rel_path_ne [OF snoc.prems(1)] f dir_abs [OF snoc.prems(1)] by (simp add: ancestors_simps)
qed

section \<open>Properties\<close>

text \<open>
  The meaning of patterns without special characters. A path below the root is ignored
  exactly when, for some pattern, the segments of the pattern occur in a row among the segments
  of the path; a pattern that starts with a slash and has another one must occur at the front.
\<close>

theorem matches_literal:
  assumes "is_segs segs" and "list_all (\<lambda>p. glob_free (trim_prefix p ''/'')) ps"
  shows "matches (rel_path segs) ps \<longleftrightarrow> list_ex (\<lambda>p. literal_meaning p segs) ps"
  using assms pattern_matches_literal [OF assms(1)]
  by (auto simp: matches_rel_path list_ex_iff list_all_iff)

theorem matches_literal_witness:
  "matches ''a/build/x.go'' [''/src/gen'', ''build''] \<and>
   literal_meaning ''build'' [''a'', ''build'', ''x.go'']"
proof -
  have "is_segs [''a'', ''build'', ''x.go'']" by (simp add: is_segs_def is_name_def)
  moreover have "list_all (\<lambda>p. glob_free (trim_prefix p ''/'')) [''/src/gen'', ''build'']" by code_simp
  moreover have "list_ex (\<lambda>p. literal_meaning p [''a'', ''build'', ''x.go'']) [''/src/gen'', ''build'']"
    "literal_meaning ''build'' [''a'', ''build'', ''x.go'']" by code_simp+
  ultimately show ?thesis
    using matches_literal [of "[''a'', ''build'', ''x.go'']" "[''/src/gen'', ''build'']"] by (simp add: rel_path_def)
qed

text \<open>
  Skipping an ignored directory loses nothing: with patterns without special characters,
  everything below an ignored directory is ignored too, so pruning the walk at the directory
  gives the same files as testing each file.
\<close>

theorem matches_below:
  assumes "is_segs segs" and "\<forall>n \<in> set names. is_name n"
    and "list_all (\<lambda>p. glob_free (trim_prefix p ''/'')) ps" and "matches (rel_path segs) ps"
  shows "matches (rel_path (segs @ names)) ps"
proof -
  have segs: "is_segs (segs @ names)" using assms(1,2) by (simp add: is_segs_append)
  obtain p where p: "p \<in> set ps" "pattern_matches (rel_path segs) p"
    using assms(4) by (auto simp: matches_rel_path [OF assms(1)] list_ex_iff)
  then have free: "glob_free (trim_prefix p ''/'')" using assms(3) by (auto simp: list_all_iff)
  from p(2) have "pattern_matches (rel_path (segs @ names)) p"
    using literal_meaning_below
    by (simp add: pattern_matches_literal [OF assms(1) free] pattern_matches_literal [OF segs free])
  with p(1) show ?thesis by (auto simp: matches_rel_path [OF segs] list_ex_iff)
qed

theorem matches_below_witness:
  "matches ''pkg/build'' [''build''] \<and> matches ''pkg/build/out.go'' [''build'']"
proof -
  have h: "is_segs [''pkg'', ''build'']" "is_name ''out.go''" by (simp_all add: is_segs_def is_name_def)
  have "list_all (\<lambda>p. glob_free (trim_prefix p ''/'')) [''build'']" by code_simp
  moreover have "matches (rel_path [''pkg'', ''build'']) [''build'']" by code_simp
  ultimately show ?thesis
    using matches_below [of "[''pkg'', ''build'']" "[''out.go'']" "[''build'']"] h by (simp add: rel_path_def)
qed

text \<open>
  This is false with special characters: \<open>*.d\<close> matches the directory \<open>foo.d\<close>, at which a walk
  stops, but not the file \<open>foo.d/x.go\<close>, which a command that is given the file does not ignore.
\<close>

theorem matches_below_glob_gap:
  "matches ''foo.d'' [''*.d''] \<and> \<not> matches ''foo.d/x.go'' [''*.d'']"
  by code_simp

text \<open>
  A leading slash does not anchor a pattern of one segment: \<open>/name\<close> ignores the name at every
  depth, exactly as \<open>name\<close> does.
\<close>

theorem anchor_without_effect:
  assumes "is_segs segs" and "glob_free p" and "slash \<notin> set p" and "p \<noteq> []"
  shows "matches (rel_path segs) [slash # p] = matches (rel_path segs) [p] \<and>
    matches (rel_path segs) [p] = (p \<in> set segs)"
proof -
  have t: "trim_prefix (slash # p) ''/'' = p" "trim_prefix p ''/'' = p" "\<not> has_prefix p ''/''"
    using assms(3) by (auto simp: trim_prefix_def has_prefix_iff)
  have "split_on slash p = [p]" using assms(3) by (rule split_on_free)
  then have m: "literal_meaning (slash # p) segs = (p \<in> set segs)" "literal_meaning p segs = (p \<in> set segs)"
    using assms(3,4) by (simp_all add: literal_meaning_def t sublist_singleton)
  show ?thesis
    using pattern_matches_literal [OF assms(1), of "slash # p"] pattern_matches_literal [OF assms(1), of p] assms(2)
    by (simp add: matches_rel_path [OF assms(1)] t m)
qed

theorem anchor_without_effect_witness:
  "matches ''src/build/x.go'' [''/build''] \<and> matches ''src/build/x.go'' [''build'']"
proof -
  have "is_segs [''src'', ''build'', ''x.go'']" by (simp add: is_segs_def is_name_def)
  moreover have "glob_free ''build''" by code_simp
  ultimately show ?thesis
    using anchor_without_effect [of "[''src'', ''build'', ''x.go'']" "''build''"] by (simp add: rel_path_def)
qed

text \<open>
  The fingerprint identifies the rules. For any collision-free hash, two lists of patterns
  without NUL bytes have the same fingerprint exactly when they normalise to the same set of
  patterns, whatever their order and duplicates, and then they ignore the same paths.
\<close>

theorem fingerprint_identifies_rules:
  assumes "inj sha256"
    and "\<forall>p \<in> set (normalizePatterns ps) \<union> set (normalizePatterns qs). CHR 0x00 \<notin> set p"
  shows "(fingerprintForPatterns sha256 (normalizePatterns ps) = fingerprintForPatterns sha256 (normalizePatterns qs)
            \<longleftrightarrow> set (normalizePatterns ps) = set (normalizePatterns qs)) \<and>
         (fingerprintForPatterns sha256 (normalizePatterns ps) = fingerprintForPatterns sha256 (normalizePatterns qs)
            \<longrightarrow> matches rel (normalizePatterns ps) = matches rel (normalizePatterns qs))"
proof -
  have "fingerprintForPatterns sha256 (normalizePatterns ps) = fingerprintForPatterns sha256 (normalizePatterns qs)
      \<longleftrightarrow> set (normalizePatterns ps) = set (normalizePatterns qs)"
    using assms normalizePatterns_nonempty normalize_loop_distinct
    by (intro fingerprint_set) (auto simp: normalizePatterns_def)
  then show ?thesis using matches_set by blast
qed

theorem fingerprint_identifies_rules_witness:
  "fingerprintForPatterns id (normalizePatterns [''b/'', ''# x'', ''a'']) =
   fingerprintForPatterns id (normalizePatterns [''./a'', ''b'', ''a''])"
proof -
  have n: "normalizePatterns [''b/'', ''# x'', ''a''] = [''b'', ''a'']"
    "normalizePatterns [''./a'', ''b'', ''a''] = [''a'', ''b'']" by code_simp+
  show ?thesis
    using fingerprint_identifies_rules [of id "[''b/'', ''# x'', ''a'']" "[''./a'', ''b'', ''a'']"]
    unfolding n by auto
qed

text \<open>
  \<open>FindProjectRoot\<close> terminates and finds the nearest marked directory: with an absolute working
  directory the upward loop ends within the length of the path, and its result is the first of
  the ancestors, from the directory itself to the top, that holds a marker, or the directory
  itself when none does.
\<close>

theorem FindProjectRoot_nearest:
  assumes "has_prefix cwd ''/''"
  shows "\<exists>ns. path_clean (path_abs cwd dir) = slash # rel_path ns \<and> (\<forall>n \<in> set ns. is_name n) \<and>
    FindProjectRoot exists cwd dir =
      Some (case find (has_marker exists) (ancestors ns) of Some d \<Rightarrow> d | None \<Rightarrow> slash # rel_path ns)"
proof -
  obtain ns where ns: "path_clean (path_abs cwd dir) = slash # rel_path ns" "\<forall>n \<in> set ns. is_name n"
    using path_abs_rooted [OF assms] by blast
  then have "length ns < Suc (length (slash # rel_path ns))" using rel_path_length [of ns] by simp
  then have "FindProjectRoot exists cwd dir =
      Some (case find (has_marker exists) (ancestors ns) of Some d \<Rightarrow> d | None \<Rightarrow> slash # rel_path ns)"
    using project_root_loop_find [OF ns(2)] by (simp only: FindProjectRoot_def ns(1) Let_def)
  with ns show ?thesis by blast
qed

theorem FindProjectRoot_nearest_witness:
  "FindProjectRoot (\<lambda>p. p = ''/w/.git'') ''/w/a'' ''b'' = Some ''/w''"
proof -
  have h: "has_prefix ''/w/a'' ''/''" by simp
  obtain ns where ns: "path_clean (path_abs ''/w/a'' ''b'') = slash # rel_path ns" "\<forall>n \<in> set ns. is_name n"
    and r: "FindProjectRoot (\<lambda>p. p = ''/w/.git'') ''/w/a'' ''b'' =
      Some (case find (has_marker (\<lambda>p. p = ''/w/.git'')) (ancestors ns) of
        Some d \<Rightarrow> d | None \<Rightarrow> slash # rel_path ns)"
    using FindProjectRoot_nearest [OF h] by blast
  have "path_clean (path_abs ''/w/a'' ''b'') = ''/w/a/b''" by code_simp
  then have "rel_path ns = ''w/a/b''" using ns(1) by simp
  moreover have "split_on slash (rel_path ns) = ns \<or> ns = []"
    using split_rel_path [of ns] ns(2) by (auto simp: is_segs_def)
  moreover have "split_on slash ''w/a/b'' = [''w'', ''a'', ''b'']" by code_simp
  ultimately have "ns = [''w'', ''a'', ''b'']" by (auto simp: rel_path_def)
  moreover have "find (has_marker (\<lambda>p. p = ''/w/.git'')) (ancestors [''w'', ''a'', ''b'']) = Some ''/w''"
    by code_simp
  ultimately show ?thesis using r by simp
qed

end
