(* ===== verification/FileTree.thy ===== *)
theory FileTree
  imports Ignore
begin

text \<open>
  The directory trees that \<open>filepath.Walk\<close> and \<open>filepath.WalkDir\<close> traverse, as an input of the
  model: a file with its size and whether it is regular, a directory with its entries in the
  lexical order in which the walks visit them, and an entry that cannot be read. The lemmas relate
  the paths and relative paths of a walk to lists of names, and a walk that prunes ignored
  directories to a filter over all files.
\<close>

datatype fs_node = FsFile (fs_size: int) (fs_regular: bool) | FsDir (fs_entries: "(string \<times> fs_node) list") | FsBad

section \<open>Paths below an absolute directory\<close>

definition abs_path :: "string list \<Rightarrow> string" where
  "abs_path ns = slash # rel_path ns"

definition names_ok :: "string list \<Rightarrow> bool" where
  "names_ok ns \<longleftrightarrow> (\<forall>n \<in> set ns. is_name n)"

lemma names_ok_simps [simp]:
  "names_ok []" "names_ok (n # ns) \<longleftrightarrow> is_name n \<and> names_ok ns"
  "names_ok (ns @ ms) \<longleftrightarrow> names_ok ns \<and> names_ok ms"
  by (auto simp: names_ok_def)

lemma rel_path_append:
  "rs \<noteq> [] \<Longrightarrow> ns \<noteq> [] \<Longrightarrow> rel_path (rs @ ns) = rel_path rs @ slash # rel_path ns"
  unfolding rel_path_def by (induction rs rule: induct_list012) (cases ns; simp)+

lemma abs_path_split: "names_ok ns \<Longrightarrow> ns \<noteq> [] \<Longrightarrow> split_on slash (abs_path ns) = [] # ns"
  using split_rel_path [of ns] by (simp add: abs_path_def is_segs_def names_ok_def)

lemma clean_names: "names_ok ns \<Longrightarrow> clean_segs True [] ns = ns"
  using clean_segs_id [of True "[]" ns] clean_form_names [of ns True] by (simp add: names_ok_def)

lemma abs_path_clean: "names_ok ns \<Longrightarrow> path_clean (abs_path ns) = abs_path ns"
proof (cases "ns = []")
  case True
  then show ?thesis by (simp add: path_clean_def abs_path_def rel_path_def)
next
  case False
  moreover assume "names_ok ns"
  ultimately show ?thesis
    using abs_path_split [of ns] clean_names [of ns]
    by (simp add: path_clean_def) (simp add: abs_path_def rel_path_def)
qed

lemma abs_path_join_rel:
  assumes "names_ok ns" "names_ok ms" "ms \<noteq> []"
  shows "path_join [abs_path ns, rel_path ms] = abs_path (ns @ ms)"
proof -
  have split: "split_on slash (join ''/'' [abs_path ns, rel_path ms]) = (if ns = [] then [[], []] else [] # ns) @ ms"
  proof (cases "ns = []")
    case True
    then show ?thesis
      using split_rel_path [of ms] assms by (simp add: abs_path_def rel_path_def is_segs_def names_ok_def)
  next
    case False
    then have "join ''/'' [abs_path ns, rel_path ms] = abs_path (ns @ ms)"
      using rel_path_append [of ns ms] assms by (simp add: abs_path_def)
    then show ?thesis using abs_path_split [of "ns @ ms"] assms False by simp
  qed
  have "clean_segs True [] (split_on slash (join ''/'' [abs_path ns, rel_path ms])) = ns @ ms"
    unfolding split using clean_names [of "ns @ ms"] assms by (cases "ns = []") simp_all
  moreover have "has_prefix (join ''/'' [abs_path ns, rel_path ms]) ''/''" by (simp add: abs_path_def)
  moreover have "path_join [abs_path ns, rel_path ms] = path_clean (join ''/'' [abs_path ns, rel_path ms])"
    by (simp add: path_join_def abs_path_def)
  ultimately show ?thesis by (simp add: path_clean_def) (simp add: abs_path_def rel_path_def)
qed

lemma abs_path_join:
  "names_ok ns \<Longrightarrow> is_name n \<Longrightarrow> path_join [abs_path ns, n] = abs_path (ns @ [n])"
  using abs_path_join_rel [of ns "[n]"] by (simp add: rel_path_def)

lemma strip_common_append: "strip_common rs (rs @ ns) = ([], ns)"
  by (induction rs) simp_all

lemma rel_segs_abs: "names_ok ns \<Longrightarrow> rel_segs (abs_path ns) = ns"
  using split_rel_path [of ns] rel_path_plain(2) [of ns]
  by (cases "ns = []") (auto simp: rel_segs_def abs_path_def is_segs_def names_ok_def trim_prefix_def rel_path_def)

lemma abs_path_inj: "names_ok ns \<Longrightarrow> names_ok ms \<Longrightarrow> abs_path ns = abs_path ms \<longleftrightarrow> ns = ms"
  using rel_segs_abs by metis

lemma rel_of_abs:
  assumes "names_ok rs" "names_ok ns"
  shows "path_rel (abs_path rs) (abs_path (rs @ ns)) = Inr (if ns = [] then ''.'' else rel_path ns)"
proof -
  have c: "path_clean (abs_path rs) = abs_path rs" "path_clean (abs_path (rs @ ns)) = abs_path (rs @ ns)"
    using assms abs_path_clean by simp_all
  have "abs_path rs \<noteq> ''.''" "path_is_abs (abs_path rs)" "path_is_abs (abs_path (rs @ ns))"
    by (simp_all add: abs_path_def path_is_abs_def)
  moreover have "abs_path (rs @ ns) = abs_path rs \<longleftrightarrow> ns = []" using abs_path_inj [of "rs @ ns" rs] assms by simp
  ultimately show ?thesis
    using assms by (simp add: path_rel_def c rel_segs_abs strip_common_append) (simp add: rel_path_def)
qed

lemma rel_path_clean:
  assumes "names_ok ns" "ns \<noteq> []"
  shows "path_clean (rel_path ns) = rel_path ns"
proof -
  have segs: "is_segs ns" using assms by (simp add: is_segs_def names_ok_def)
  have form: "clean_form False ns" using assms(1) clean_form_names by (simp add: names_ok_def)
  have "clean_segs False [] ns = ns" using clean_segs_id [of False "[]" ns] form by simp
  moreover have "\<not> has_prefix (rel_path ns) ''/''"
    using join_slash_head [OF form assms(2)] by (simp add: rel_path_def)
  ultimately show ?thesis
    using assms(2) by (simp add: path_clean_def split_rel_path [OF segs]) (simp add: rel_path_def)
qed

lemma rel_path_relative: "names_ok ns \<Longrightarrow> ns \<noteq> [] \<Longrightarrow> \<not> path_is_abs (rel_path ns)"
  using join_slash_head [of False ns] clean_form_names [of ns False]
  by (simp add: path_is_abs_def rel_path_def names_ok_def)

section \<open>Files and pruned walks\<close>

text \<open>All files of a tree with the names that lead to them, in the order of the walk.\<close>

fun all_files :: "string list \<Rightarrow> fs_node \<Rightarrow> (string list \<times> fs_node) list" where
  "all_files ns (FsFile fsize reg) = [(ns, FsFile fsize reg)]"
| "all_files ns FsBad = []"
| "all_files ns (FsDir entries) = concat (map (\<lambda>(n, c). all_files (ns @ [n]) c) entries)"

fun fs_names_ok :: "fs_node \<Rightarrow> bool" where
  "fs_names_ok (FsDir entries) \<longleftrightarrow> (\<forall>(n, c) \<in> set entries. is_name n \<and> fs_names_ok c)"
| "fs_names_ok _ = True"

lemma all_files_extend: "(ms, f) \<in> set (all_files ns t) \<Longrightarrow> \<exists>tail. ms = ns @ tail"
proof (induction ns t rule: all_files.induct)
  case (3 ns entries)
  then obtain n c where "(n, c) \<in> set entries" "(ms, f) \<in> set (all_files (ns @ [n]) c)" by auto
  with 3 show ?case by fastforce
qed auto

text \<open>
  A walk that stops at ignored directories, over lists of names, and what it returns: the files
  it keeps for which no directory on the way down is ignored.
\<close>

fun pruned :: "(string list \<Rightarrow> bool) \<Rightarrow> (string list \<times> fs_node \<Rightarrow> bool) \<Rightarrow> string list \<Rightarrow> fs_node \<Rightarrow> string list list" where
  "pruned ignored keep ns (FsFile fsize reg) =
     (if ignored ns \<or> \<not> keep (ns, FsFile fsize reg) then [] else [ns])"
| "pruned ignored keep ns FsBad = []"
| "pruned ignored keep ns (FsDir entries) =
     (if ignored ns then [] else concat (map (\<lambda>(n, c). pruned ignored keep (ns @ [n]) c) entries))"

definition on_the_way :: "(string list \<Rightarrow> bool) \<Rightarrow> nat \<Rightarrow> string list \<Rightarrow> bool" where
  "on_the_way ignored k ms \<longleftrightarrow> (\<exists>j \<ge> k. j \<le> length ms \<and> ignored (take j ms))"

lemma on_the_way_code:
  "on_the_way ignored 0 ms \<longleftrightarrow> list_ex (\<lambda>j. ignored (take j ms)) [0..<Suc (length ms)]"
  by (auto simp: on_the_way_def list_ex_iff less_Suc_eq_le simp del: upt_Suc)

lemma on_the_way_step:
  "k \<le> length ms \<Longrightarrow> on_the_way ignored k ms \<longleftrightarrow> ignored (take k ms) \<or> on_the_way ignored (Suc k) ms"
  unfolding on_the_way_def by (metis Suc_leD Suc_leI le_neq_implies_less order_refl)

lemma pruned_filter:
  "pruned ignored keep ns t =
     map fst (filter (\<lambda>f. \<not> on_the_way ignored (length ns) (fst f) \<and> keep f) (all_files ns t))"
proof (induction ns t rule: all_files.induct)
  case (1 ns fsize reg)
  have "on_the_way ignored (length ns) ns \<longleftrightarrow> ignored ns"
    by (auto simp: on_the_way_def le_antisym)
  then show ?case by simp
next
  case (2 ns)
  then show ?case by simp
next
  case (3 ns entries)
  have way: "on_the_way ignored (length ns) ms \<longleftrightarrow> ignored ns \<or> on_the_way ignored (length (ns @ [n])) ms"
    if mem: "(ms, f) \<in> set (all_files (ns @ [n]) c)" for ms f n c
  proof -
    obtain tail where "ms = (ns @ [n]) @ tail" using all_files_extend [OF mem] by blast
    then show ?thesis using on_the_way_step [of "length ns" ms ignored] by simp
  qed
  have child: "filter (\<lambda>f. \<not> on_the_way ignored (length ns) (fst f) \<and> keep f) (all_files (ns @ [n]) c) =
      (if ignored ns then []
       else filter (\<lambda>f. \<not> on_the_way ignored (length (ns @ [n])) (fst f) \<and> keep f) (all_files (ns @ [n]) c))" for n c
    using way by (auto intro!: filter_cong simp: filter_empty_conv)
  have kids: "map (\<lambda>p. pruned ignored keep (ns @ [fst p]) (snd p)) entries =
      map (\<lambda>p. map fst (filter (\<lambda>f. \<not> on_the_way ignored (length (ns @ [fst p])) (fst f) \<and> keep f)
        (all_files (ns @ [fst p]) (snd p)))) entries"
    using 3 by (intro map_cong refl) (auto simp: case_prod_unfold)
  show ?case
    by (cases "ignored ns") (simp_all add: filter_concat map_concat comp_def case_prod_unfold child kids
        del: length_append map_eq_conv)
qed

text \<open>When everything below an ignored directory is ignored, the test of the file is enough.\<close>

lemma on_the_way_last:
  assumes "\<And>j. k \<le> j \<Longrightarrow> j \<le> length ms \<Longrightarrow> ignored (take j ms) \<Longrightarrow> ignored ms" and "k \<le> length ms"
  shows "on_the_way ignored k ms \<longleftrightarrow> ignored ms"
  using assms unfolding on_the_way_def by (metis order_refl take_all)

end
