(* ===== verification/Walker.thy ===== *)
theory Walker
  imports FileTree
begin

text \<open>
  \<open>pkg/walker.go\<close>: the walk over the source files that are indexed. The traversal visits a tree of
  \<open>FileTree\<close> under the path that it was given; a path that cannot be read is skipped.
\<close>

definition defaultExtensions :: "string list" where
  "defaultExtensions =
     [''.go'', ''.ts'', ''.tsx'', ''.js'', ''.jsx'', ''.py'', ''.java'', ''.rs'', ''.c'', ''.h'',
      ''.cpp'', ''.cc'', ''.cxx'', ''.hpp'', ''.hxx'', ''.rb'', ''.php'', ''.cs'', ''.swift'', ''.kt'',
      ''.scala'', ''.sh'', ''.bash'', ''.sql'']"

text \<open>\<open>Extensions\<close> is a map from extensions to booleans; \<open>None\<close> is the nil map.\<close>

record WalkOptions =
  wo_Extensions :: "(string \<Rightarrow> bool) option"
  wo_ExtraIgnore :: "string list"
  wo_MaxFileSizeKB :: int

definition extensionsForWalk :: "WalkOptions option \<Rightarrow> string \<Rightarrow> bool" where
  "extensionsForWalk opts =
     (case opts of
        None \<Rightarrow> (\<lambda>e. e \<in> set defaultExtensions)
      | Some o' \<Rightarrow> (case wo_Extensions o' of None \<Rightarrow> (\<lambda>e. e \<in> set defaultExtensions) | Some m \<Rightarrow> m))"

definition extraIgnorePatterns :: "WalkOptions option \<Rightarrow> string list" where
  "extraIgnorePatterns opts = (case opts of None \<Rightarrow> [] | Some o' \<Rightarrow> wo_ExtraIgnore o')"

definition maxFileSizeBytes :: "WalkOptions option \<Rightarrow> int" where
  "maxFileSizeBytes opts =
     (case opts of None \<Rightarrow> 0
      | Some o' \<Rightarrow> if wo_MaxFileSizeKB o' \<le> 0 then 0 else i64 (wo_MaxFileSizeKB o' * 1024))"

definition matcherForWalk ::
  "(string \<Rightarrow> string) \<Rightarrow> (string \<Rightarrow> string option) \<Rightarrow> string \<Rightarrow> string \<Rightarrow> WalkOptions option \<Rightarrow> Matcher" where
  "matcherForWalk sha256 open_file cwd root_dir opts =
     NewMatcher sha256 open_file cwd root_dir (extraIgnorePatterns opts)"

definition walk_rel :: "string \<Rightarrow> string \<Rightarrow> string" where
  "walk_rel root_dir path = (case path_rel root_dir path of Inl err \<Rightarrow> [] | Inr rel \<Rightarrow> rel)"

fun walk_node :: "Matcher \<Rightarrow> (string \<Rightarrow> bool) \<Rightarrow> int \<Rightarrow> string \<Rightarrow> string \<Rightarrow> fs_node \<Rightarrow> string list" where
  "walk_node m extensions maxSize root_dir path FsBad = []"
| "walk_node m extensions maxSize root_dir path (FsDir entries) =
     (if MatchesRelative (Some m) (walk_rel root_dir path) then []
      else concat (map (\<lambda>(n, c). walk_node m extensions maxSize root_dir (path_join [path, n]) c) entries))"
| "walk_node m extensions maxSize root_dir path (FsFile fsize reg) =
     (if MatchesRelative (Some m) (walk_rel root_dir path) then []
      else if \<not> extensions (to_lower (path_ext path)) then []
      else if maxSize > 0 \<and> fsize > maxSize then []
      else [path])"

definition walkFiles :: "string \<Rightarrow> WalkOptions option \<Rightarrow> Matcher \<Rightarrow> fs_node \<Rightarrow> string list" where
  "walkFiles root_dir opts m tree =
     walk_node m (extensionsForWalk opts) (maxFileSizeBytes opts) root_dir root_dir tree"

definition WalkFiles ::
  "(string \<Rightarrow> string) \<Rightarrow> (string \<Rightarrow> string option) \<Rightarrow> string \<Rightarrow> string \<Rightarrow> WalkOptions option \<Rightarrow> fs_node \<Rightarrow> string list" where
  "WalkFiles sha256 open_file cwd root_dir opts tree =
     walkFiles root_dir opts (matcherForWalk sha256 open_file cwd root_dir opts) tree"

section \<open>The walk as a pruned walk over names\<close>

definition walk_ignored :: "Matcher \<Rightarrow> string list \<Rightarrow> bool" where
  "walk_ignored m ns \<longleftrightarrow> ns \<noteq> [] \<and> matches (rel_path ns) (mt_patterns m)"

definition walk_keep :: "(string \<Rightarrow> bool) \<Rightarrow> int \<Rightarrow> string list \<Rightarrow> string list \<times> fs_node \<Rightarrow> bool" where
  "walk_keep extensions maxSize rs f \<longleftrightarrow>
     extensions (to_lower (path_ext (abs_path (rs @ fst f)))) \<and> \<not> (maxSize > 0 \<and> fs_size (snd f) > maxSize)"

lemma walk_rel_ignored:
  assumes "names_ok rs" "names_ok ns"
  shows "MatchesRelative (Some m) (walk_rel (abs_path rs) (abs_path (rs @ ns))) = walk_ignored m ns"
  by (simp add: walk_rel_def rel_of_abs [OF assms] MatchesRelative_def walk_ignored_def)
     (simp add: matches_def trim_prefix_def)

lemma walk_node_pruned:
  assumes "names_ok rs"
  shows "names_ok ns \<Longrightarrow> fs_names_ok t \<Longrightarrow>
    walk_node m extensions maxSize (abs_path rs) (abs_path (rs @ ns)) t =
      map (\<lambda>ms. abs_path (rs @ ms)) (pruned (walk_ignored m) (walk_keep extensions maxSize rs) ns t)"
proof (induction ns t rule: all_files.induct)
  case (1 ns fsize reg)
  then show ?case by (simp add: walk_rel_ignored [OF assms] walk_keep_def)
next
  case (2 ns)
  then show ?case by simp
next
  case (3 ns entries)
  have kids: "map (\<lambda>p. walk_node m extensions maxSize (abs_path rs) (path_join [abs_path (rs @ ns), fst p]) (snd p)) entries =
      map (\<lambda>p. map (\<lambda>ms. abs_path (rs @ ms))
        (pruned (walk_ignored m) (walk_keep extensions maxSize rs) (ns @ [fst p]) (snd p))) entries"
  proof (rule map_cong [OF refl])
    fix p assume p: "p \<in> set entries"
    obtain n c where nc: "p = (n, c)" by (cases p)
    then have "is_name n" "fs_names_ok c" using "3.prems"(2) p by auto
    moreover from this(1) have "path_join [abs_path (rs @ ns), n] = abs_path (rs @ (ns @ [n]))"
      using abs_path_join [of "rs @ ns" n] assms "3.prems"(1) by simp
    ultimately show "walk_node m extensions maxSize (abs_path rs) (path_join [abs_path (rs @ ns), fst p]) (snd p) =
        map (\<lambda>ms. abs_path (rs @ ms))
          (pruned (walk_ignored m) (walk_keep extensions maxSize rs) (ns @ [fst p]) (snd p))"
      using "3.IH" [OF p nc [symmetric]] "3.prems"(1) nc by simp
  qed
  show ?case
    using "3.prems"(1)
    by (simp add: walk_rel_ignored [OF assms] map_concat comp_def case_prod_unfold kids del: map_eq_conv)
qed

section \<open>Properties\<close>

text \<open>
  C39. Under an absolute root and for any tree of valid names, the walk returns, in the order of the
  traversal, exactly the files with an indexed extension and an admissible size such that
  neither the file nor any directory between the root and it is ignored.
\<close>

theorem walkFiles_exact:
  assumes "names_ok rs" and "fs_names_ok t"
  shows "walkFiles (abs_path rs) opts m t =
    map (\<lambda>f. abs_path (rs @ fst f))
      (filter (\<lambda>f. \<not> on_the_way (walk_ignored m) 0 (fst f) \<and>
                    walk_keep (extensionsForWalk opts) (maxFileSizeBytes opts) rs f) (all_files [] t))"
  using walk_node_pruned [OF assms(1) _ assms(2), of "[]"]
  by (simp add: walkFiles_def pruned_filter comp_def)

definition demo_tree_fs :: fs_node where
  "demo_tree_fs = FsDir [(''a.go'', FsFile 10 True),
     (''vendor'', FsDir [(''b.go'', FsFile 10 True)]), (''z.md'', FsFile 10 True)]"

definition demo_matcher :: Matcher where
  "demo_matcher = \<lparr>mt_root = ''/w'', mt_patterns = [''vendor''], mt_fingerprint = []\<rparr>"

theorem walkFiles_exact_witness:
  "walkFiles ''/w'' None demo_matcher demo_tree_fs = [''/w/a.go'']"
proof -
  have "names_ok [''w'']" "fs_names_ok demo_tree_fs"
    by (simp_all add: names_ok_def is_name_def demo_tree_fs_def)
  note exact = walkFiles_exact [OF this, of None demo_matcher]
  have "map (\<lambda>f. abs_path ([''w''] @ fst f))
      (filter (\<lambda>f. \<not> list_ex (\<lambda>j. walk_ignored demo_matcher (take j (fst f))) [0..<Suc (length (fst f))] \<and>
         walk_keep (extensionsForWalk None) (maxFileSizeBytes None) [''w''] f) (all_files [] demo_tree_fs)) =
      [''/w/a.go'']" by code_simp
  then show ?thesis using exact unfolding on_the_way_code by (simp add: abs_path_def rel_path_def)
qed

end
