(* ===== verification/Extract.thy ===== *)
theory Extract
  imports TreeSitter Walker CodeSplitter
begin

text \<open>
  \<open>pkg/extract/languages.go\<close>, \<open>types.go\<close> and \<open>extract.go\<close>: finding a named symbol in a file or below
  a directory. A symbol is reported as its name and its type. \<open>node.Parent()\<close> is the node from which
  the search came, which is an argument. The parser \<open>P\<close>, the file contents \<open>read_file\<close> and the
  directory tree are parameters. The errors are the constructors of \<open>extract_error\<close>; JSON output is
  represented by the values that are marshalled.
\<close>

section \<open>Languages\<close>

definition supportedLanguagesInOrder :: "string list" where
  "supportedLanguagesInOrder =
     [''go'', ''python'', ''java'', ''javascript'', ''typescript'', ''rust'', ''cpp'', ''xml'', ''html'']"

definition extensionToLanguage :: "(string \<times> string) list" where
  "extensionToLanguage =
     [(''.go'', ''go''), (''.py'', ''python''), (''.java'', ''java''), (''.js'', ''javascript''),
      (''.jsx'', ''javascript''), (''.ts'', ''typescript''), (''.tsx'', ''typescript''), (''.rs'', ''rust''),
      (''.cpp'', ''cpp''), (''.cc'', ''cpp''), (''.cxx'', ''cpp''), (''.h'', ''cpp''), (''.hpp'', ''cpp''),
      (''.hxx'', ''cpp''), (''.xml'', ''xml''), (''.html'', ''html''), (''.htm'', ''html'')]"

definition languageFromExtension :: "string \<Rightarrow> string option" where
  "languageFromExtension ext = map_of extensionToLanguage (to_lower ext)"

definition parserForLanguage :: "string \<Rightarrow> ts_lang option" where
  "parserForLanguage language =
     map_of [(''go'', LangGo), (''python'', LangPython), (''java'', LangJava), (''javascript'', LangJavascript),
       (''typescript'', LangTypescript), (''rust'', LangRust), (''cpp'', LangCPP), (''xml'', LangHTML),
       (''html'', LangHTML)] (to_lower language)"

definition languageForPath :: "string \<Rightarrow> string option" where
  "languageForPath path = languageFromExtension (to_lower (path_ext path))"

section \<open>Names\<close>

definition nodeContent :: "ts_node \<Rightarrow> string \<Rightarrow> string" where
  "nodeContent node source = node_text source node"

definition nameFromField :: "ts_node \<Rightarrow> string \<Rightarrow> string \<Rightarrow> string" where
  "nameFromField node field source =
     (case child_by_field node field of None \<Rightarrow> [] | Some child \<Rightarrow> trim_space (nodeContent child source))"

fun names_loop :: "string \<Rightarrow> string \<Rightarrow> string list \<Rightarrow> ts_node list \<Rightarrow> string list" where
  "names_loop field source seen [] = []"
| "names_loop field source seen (child # rest) =
     (if \<not> ts_named child \<or> ts_field child \<noteq> Some field then names_loop field source seen rest
      else let name = trim_space (nodeContent child source)
           in if name = [] \<or> name \<in> set seen then names_loop field source seen rest
              else name # names_loop field source (name # seen) rest)"

definition namesFromField :: "ts_node \<Rightarrow> string \<Rightarrow> string \<Rightarrow> string list" where
  "namesFromField node field source = names_loop field source [] (ts_children node)"

definition findNamedChildByType :: "ts_node option \<Rightarrow> string \<Rightarrow> ts_node option" where
  "findNamedChildByType node nodeKind =
     (case node of None \<Rightarrow> None | Some n \<Rightarrow> find (\<lambda>c. ts_kind c = nodeKind) (named_children n))"

definition function_name_kinds :: "string list" where
  "function_name_kinds = [''identifier'', ''field_identifier'', ''operator_name'', ''destructor_name'', ''type_identifier'']"

text \<open>The first result of the recursive search in a list of nodes.\<close>

fun first_some :: "('a \<Rightarrow> 'b option) \<Rightarrow> 'a list \<Rightarrow> 'b option" where
  "first_some f [] = None"
| "first_some f (x # xs) = (case f x of Some y \<Rightarrow> Some y | None \<Rightarrow> first_some f xs)"

lemma first_some_cong [fundef_cong]:
  "xs = ys \<Longrightarrow> (\<And>x. x \<in> set ys \<Longrightarrow> f x = g x) \<Longrightarrow> first_some f xs = first_some g ys"
  by (induction xs arbitrary: ys) (auto split: option.split)

fun function_name_node :: "ts_node \<Rightarrow> ts_node option" where
  "function_name_node (TsNode k sb eb sr er nm f cs) =
     (if k \<in> set function_name_kinds then Some (TsNode k sb eb sr er nm f cs)
      else if k = ''qualified_identifier'' \<or> k = ''scoped_identifier'' then
        first_some (\<lambda>c. if ts_named c then function_name_node c else None) (rev cs)
      else first_some (\<lambda>c. if ts_named c then function_name_node c else None) cs)"

definition findFunctionNameNode :: "ts_node option \<Rightarrow> ts_node option" where
  "findFunctionNameNode node = (case node of None \<Rightarrow> None | Some n \<Rightarrow> function_name_node n)"

section \<open>Symbols per language\<close>

text \<open>A non-empty name with a type.\<close>

definition named :: "string \<Rightarrow> string \<Rightarrow> (string \<times> string) option" where
  "named name symbolType = (if name = [] then None else Some (name, symbolType))"

definition named_field :: "ts_node \<Rightarrow> string \<Rightarrow> string \<Rightarrow> (string \<times> string) option" where
  "named_field node source symbolType = named (nameFromField node ''name'' source) symbolType"

definition go_type_kind :: "ts_node \<Rightarrow> string" where
  "go_type_kind node =
     (case child_by_field node ''type'' of
        None \<Rightarrow> ''type''
      | Some t \<Rightarrow> if ts_kind t = ''struct_type'' then ''struct''
                  else if ts_kind t = ''interface_type'' then ''interface'' else ''type'')"

definition symbolInfoForGo :: "ts_node \<Rightarrow> string \<Rightarrow> (string \<times> string) option" where
  "symbolInfoForGo node source =
     (let k = ts_kind node
      in if k = ''function_declaration'' then named_field node source ''function''
         else if k = ''method_declaration'' then named_field node source ''method''
         else if k = ''type_spec'' then named_field node source (go_type_kind node)
         else if k = ''const_spec'' then
           (case namesFromField node ''name'' source of [] \<Rightarrow> None | n # _ \<Rightarrow> Some (n, ''constant''))
         else if k = ''var_spec'' then
           (case namesFromField node ''name'' source of [] \<Rightarrow> None | n # _ \<Rightarrow> Some (n, ''variable''))
         else None)"

definition matchGoNamedSpec :: "ts_node \<Rightarrow> string \<Rightarrow> string \<Rightarrow> (string \<times> string) option" where
  "matchGoNamedSpec node source symbol =
     (if ts_kind node = ''const_spec'' \<and> symbol \<in> set (namesFromField node ''name'' source) then Some (symbol, ''constant'')
      else if ts_kind node = ''var_spec'' \<and> symbol \<in> set (namesFromField node ''name'' source) then Some (symbol, ''variable'')
      else None)"

text \<open>A switch over the kind whose branches all read the name field.\<close>

definition kind_table :: "(string \<times> string) list \<Rightarrow> ts_node \<Rightarrow> string \<Rightarrow> (string \<times> string) option" where
  "kind_table table node source =
     (case map_of table (ts_kind node) of None \<Rightarrow> None | Some t \<Rightarrow> named_field node source t)"

definition symbolInfoForPython :: "ts_node \<Rightarrow> string \<Rightarrow> (string \<times> string) option" where
  "symbolInfoForPython = kind_table
     [(''function_definition'', ''function''), (''async_function_definition'', ''function''),
      (''class_definition'', ''class'')]"

definition symbolInfoForJava :: "ts_node \<Rightarrow> string \<Rightarrow> (string \<times> string) option" where
  "symbolInfoForJava = kind_table
     [(''method_declaration'', ''method''), (''constructor_declaration'', ''constructor''),
      (''class_declaration'', ''class''), (''interface_declaration'', ''interface''),
      (''enum_declaration'', ''enum'')]"

definition is_const_declaration :: "ts_node option \<Rightarrow> string \<Rightarrow> bool" where
  "is_const_declaration parent source =
     (case parent of
        None \<Rightarrow> False
      | Some p \<Rightarrow> ts_kind p = ''lexical_declaration'' \<and> has_prefix (trim_space (nodeContent p source)) ''const '')"

definition symbolInfoForJSTS :: "ts_node option \<Rightarrow> ts_node \<Rightarrow> string \<Rightarrow> (string \<times> string) option" where
  "symbolInfoForJSTS parent node source =
     (if ts_kind node = ''variable_declarator'' then
        named_field node source (if is_const_declaration parent source then ''constant'' else ''variable'')
      else kind_table
        [(''function_declaration'', ''function''), (''method_definition'', ''method''),
         (''class_declaration'', ''class''), (''abstract_class_declaration'', ''class''),
         (''interface_declaration'', ''interface''), (''type_alias_declaration'', ''type''),
         (''enum_declaration'', ''enum'')] node source)"

definition symbolInfoForRust :: "ts_node \<Rightarrow> string \<Rightarrow> (string \<times> string) option" where
  "symbolInfoForRust = kind_table
     [(''function_item'', ''function''), (''function_signature_item'', ''method''), (''struct_item'', ''struct''),
      (''trait_item'', ''trait''), (''enum_item'', ''enum''), (''type_item'', ''type''), (''const_item'', ''constant'')]"

definition cpp_function_name :: "ts_node \<Rightarrow> string \<Rightarrow> (string \<times> string) option" where
  "cpp_function_name node source =
     (case findFunctionNameNode (child_by_field node ''declarator'') of
        None \<Rightarrow> None
      | Some nameNode \<Rightarrow> named (trim_space (nodeContent nameNode source)) ''function'')"

definition symbolInfoForCPP :: "ts_node \<Rightarrow> string \<Rightarrow> (string \<times> string) option" where
  "symbolInfoForCPP node source =
     (if ts_kind node = ''function_definition'' then cpp_function_name node source
      else kind_table
        [(''class_specifier'', ''class''), (''struct_specifier'', ''struct''), (''enum_specifier'', ''enum'')] node source)"

text \<open>The text of the \<open>tag_name\<close> child.\<close>

definition tag_symbol :: "ts_node option \<Rightarrow> string \<Rightarrow> string \<Rightarrow> (string \<times> string) option" where
  "tag_symbol tag source symbolType =
     (case findNamedChildByType tag ''tag_name'' of
        None \<Rightarrow> None
      | Some tagName \<Rightarrow> named (trim_space (nodeContent tagName source)) symbolType)"

definition symbolInfoForHTML :: "ts_node \<Rightarrow> string \<Rightarrow> (string \<times> string) option" where
  "symbolInfoForHTML node source =
     (if ts_kind node = ''element'' then
        tag_symbol
          (case findNamedChildByType (Some node) ''start_tag'' of
             Some t \<Rightarrow> Some t | None \<Rightarrow> findNamedChildByType (Some node) ''self_closing_tag'') source ''element''
      else if ts_kind node = ''self_closing_tag'' then tag_symbol (Some node) source ''element''
      else None)"

definition symbolInfoForNode :: "ts_node option \<Rightarrow> ts_node \<Rightarrow> string \<Rightarrow> string \<Rightarrow> (string \<times> string) option" where
  "symbolInfoForNode parent node source language =
     (if language = ''go'' then symbolInfoForGo node source
      else if language = ''python'' then symbolInfoForPython node source
      else if language = ''java'' then symbolInfoForJava node source
      else if language = ''javascript'' \<or> language = ''typescript'' then symbolInfoForJSTS parent node source
      else if language = ''rust'' then symbolInfoForRust node source
      else if language = ''cpp'' then symbolInfoForCPP node source
      else if language = ''html'' \<or> language = ''xml'' then symbolInfoForHTML node source
      else None)"

section \<open>The search in a tree\<close>

definition symbol_here :: "string \<Rightarrow> string \<Rightarrow> string \<Rightarrow> ts_node option \<Rightarrow> ts_node \<Rightarrow> (string \<times> string) option" where
  "symbol_here source language symbol parent node =
     (case (if language = ''go'' then matchGoNamedSpec node source symbol else None) of
        Some r \<Rightarrow> Some r
      | None \<Rightarrow>
          (case symbolInfoForNode parent node source language of
             Some (name, symbolType) \<Rightarrow> if name = symbol then Some (name, symbolType) else None
           | None \<Rightarrow> None))"

fun findMatchingSymbolNode ::
  "string \<Rightarrow> string \<Rightarrow> string \<Rightarrow> ts_node option \<Rightarrow> ts_node \<Rightarrow> (ts_node \<times> string \<times> string) option" where
  "findMatchingSymbolNode source language symbol parent (TsNode k sb eb sr er nm f cs) =
     (case symbol_here source language symbol parent (TsNode k sb eb sr er nm f cs) of
        Some (name, symbolType) \<Rightarrow> Some (TsNode k sb eb sr er nm f cs, symbolType, name)
      | None \<Rightarrow>
          first_some (\<lambda>c. if ts_named c
              then findMatchingSymbolNode source language symbol (Some (TsNode k sb eb sr er nm f cs)) c else None) cs)"

section \<open>Files and directories\<close>

record SymbolMatch =
  sm_Name :: string
  sm_Code :: string
  sm_FilePath :: string
  sm_StartLine :: int
  sm_EndLine :: int
  sm_StartByte :: int
  sm_EndByte :: int
  sm_SymbolType :: string

datatype OutputFormat = FormatRaw | FormatJSON

datatype extract_error =
  TargetRequired | SymbolRequired | UnsupportedFormat string | StatError string | TargetIgnored string
  | UnsupportedExtension string | UnsupportedLanguage string | ReadError string | NilTree string
  | SymbolNotFound string | WalkError | NotADirectory string | NoSupportedFiles string | AllFilesFailed string int
  | BadLanguageFilter string | BadSymbolType string

datatype extract_output = RawOutput string | JsonMatch SymbolMatch | JsonMatches "SymbolMatch list"

definition normalizeOutputFormat :: "string \<Rightarrow> extract_error + OutputFormat" where
  "normalizeOutputFormat format =
     (if format = [] then Inr FormatRaw
      else if to_lower format = ''raw'' then Inr FormatRaw
      else if to_lower format = ''json'' then Inr FormatJSON
      else Inl (UnsupportedFormat format))"

definition findSymbolInFile ::
  "ts_parser \<Rightarrow> (string \<Rightarrow> string option) \<Rightarrow> string \<Rightarrow> string \<Rightarrow> extract_error + SymbolMatch" where
  "findSymbolInFile P read_file path symbol =
     (case languageForPath path of
        None \<Rightarrow> Inl (UnsupportedExtension (to_lower (path_ext path)))
      | Some language \<Rightarrow>
          (case parserForLanguage language of
             None \<Rightarrow> Inl (UnsupportedLanguage language)
           | Some lang \<Rightarrow>
               (case read_file path of
                  None \<Rightarrow> Inl (ReadError path)
                | Some source \<Rightarrow>
                    (case P lang source of
                       None \<Rightarrow> Inl (NilTree path)
                     | Some tree \<Rightarrow>
                         (case findMatchingSymbolNode source language symbol None tree of
                            None \<Rightarrow> Inl (SymbolNotFound symbol)
                          | Some (node, symbolType, name) \<Rightarrow>
                              Inr \<lparr>sm_Name = name, sm_Code = nodeContent node source, sm_FilePath = path,
                                   sm_StartLine = start_line node, sm_EndLine = end_line node,
                                   sm_StartByte = int (ts_start node), sm_EndByte = int (ts_end node),
                                   sm_SymbolType = symbolType\<rparr>)))))"

definition extractFromFile ::
  "ts_parser \<Rightarrow> (string \<Rightarrow> string option) \<Rightarrow> string \<Rightarrow> string \<Rightarrow> OutputFormat \<Rightarrow> extract_error + extract_output" where
  "extractFromFile P read_file path symbol format =
     (case findSymbolInFile P read_file path symbol of
        Inl e \<Rightarrow> Inl e
      | Inr m \<Rightarrow> Inr (if format = FormatRaw then RawOutput (sm_Code m) else JsonMatch m))"

text \<open>
  The walk of \<open>collectSupportedFiles\<close>: \<open>None\<close> when a directory that is not ignored cannot be read; \<open>accept\<close> is the test
  of the language of the extension.
\<close>

fun collect_node :: "string \<Rightarrow> Matcher \<Rightarrow> (string \<Rightarrow> bool) \<Rightarrow> string \<Rightarrow> string \<Rightarrow> fs_node \<Rightarrow> string list option" where
  "collect_node cwd m accept root_dir path FsBad =
     (if path \<noteq> root_dir \<and> MatchesPath cwd (Some m) path then Some [] else None)"
| "collect_node cwd m accept root_dir path (FsDir entries) =
     (if path \<noteq> root_dir \<and> MatchesPath cwd (Some m) path then Some []
      else map_option concat (those (map (\<lambda>(n, c). collect_node cwd m accept root_dir (path_join [path, n]) c) entries)))"
| "collect_node cwd m accept root_dir path (FsFile fsize reg) =
     (if \<not> reg \<or> MatchesPath cwd (Some m) path \<or> \<not> accept (path_ext path) then Some [] else Some [path])"

definition collectSupportedFiles :: "string \<Rightarrow> Matcher \<Rightarrow> string \<Rightarrow> fs_node \<Rightarrow> string list option" where
  "collectSupportedFiles cwd m root_dir tree =
     map_option sort (collect_node cwd m (\<lambda>ext. languageFromExtension ext \<noteq> None) root_dir root_dir tree)"

text \<open>The loop over the files; a file without the symbol is passed over, any other error ends it.\<close>

fun collect_matches ::
  "ts_parser \<Rightarrow> (string \<Rightarrow> string option) \<Rightarrow> string \<Rightarrow> string list \<Rightarrow> extract_error + SymbolMatch list" where
  "collect_matches P read_file symbol [] = Inr []"
| "collect_matches P read_file symbol (file # files) =
     (case findSymbolInFile P read_file file symbol of
        Inl (SymbolNotFound s) \<Rightarrow> collect_matches P read_file symbol files
      | Inl e \<Rightarrow> Inl e
      | Inr m \<Rightarrow> (case collect_matches P read_file symbol files of Inl e \<Rightarrow> Inl e | Inr ms \<Rightarrow> Inr (m # ms)))"

definition match_section :: "SymbolMatch \<Rightarrow> string" where
  "match_section m = ''=== file: '' @ sm_FilePath m @ '' ==='' @ [newline] @ sm_Code m"

definition extractFromDirectory ::
  "ts_parser \<Rightarrow> (string \<Rightarrow> string option) \<Rightarrow> string \<Rightarrow> Matcher \<Rightarrow> string \<Rightarrow> fs_node \<Rightarrow> string \<Rightarrow> OutputFormat \<Rightarrow>
   extract_error + extract_output" where
  "extractFromDirectory P read_file cwd m path tree symbol format =
     (case collectSupportedFiles cwd m path tree of
        None \<Rightarrow> Inl WalkError
      | Some files \<Rightarrow>
          (case collect_matches P read_file symbol files of
             Inl e \<Rightarrow> Inl e
           | Inr [] \<Rightarrow> Inl (SymbolNotFound symbol)
           | Inr ms \<Rightarrow>
               Inr (if format = FormatRaw then RawOutput (join [newline, newline] (map match_section ms))
                    else JsonMatches ms)))"

text \<open>\<open>stat\<close> is \<open>os.Stat\<close> with the tree below a directory; \<open>new_matcher\<close> is \<open>NewMatcher\<close> for a root.\<close>

definition Extract ::
  "ts_parser \<Rightarrow> (string \<Rightarrow> string option) \<Rightarrow> (string \<Rightarrow> fs_node option) \<Rightarrow> (string \<Rightarrow> Matcher) \<Rightarrow>
   (string \<Rightarrow> string option) \<Rightarrow> string \<Rightarrow> string \<Rightarrow> string \<Rightarrow> string \<Rightarrow> extract_error + extract_output" where
  "Extract P read_file stat new_matcher project_root cwd targetPath symbol format =
     (if trim_space targetPath = [] then Inl TargetRequired
      else if trim_space symbol = [] then Inl SymbolRequired
      else case normalizeOutputFormat format of
             Inl e \<Rightarrow> Inl e
           | Inr fmt \<Rightarrow>
               (case stat targetPath of
                  None \<Rightarrow> Inl (StatError targetPath)
                | Some (FsDir entries) \<Rightarrow>
                    extractFromDirectory P read_file cwd (new_matcher targetPath) targetPath (FsDir entries) symbol fmt
                | Some _ \<Rightarrow>
                    (let matcherRoot = (case project_root (path_dir targetPath) of Some r \<Rightarrow> r | None \<Rightarrow> path_dir targetPath)
                     in if MatchesPath cwd (Some (new_matcher matcherRoot)) targetPath then Inl (TargetIgnored targetPath)
                        else extractFromFile P read_file targetPath symbol fmt)))"

section \<open>The search as a search in document order\<close>

text \<open>The named nodes in document order, each with its parent.\<close>

fun nodes_with_parent :: "ts_node option \<Rightarrow> ts_node \<Rightarrow> (ts_node option \<times> ts_node) list" where
  "nodes_with_parent parent (TsNode k sb eb sr er nm f cs) =
     (parent, TsNode k sb eb sr er nm f cs) #
     concat (map (\<lambda>c. if ts_named c then nodes_with_parent (Some (TsNode k sb eb sr er nm f cs)) c else []) cs)"

definition symbol_node :: "string \<Rightarrow> string \<Rightarrow> string \<Rightarrow> ts_node option \<times> ts_node \<Rightarrow> (ts_node \<times> string \<times> string) option" where
  "symbol_node source language symbol pn =
     map_option (\<lambda>(name, symbolType). (snd pn, symbolType, name))
       (symbol_here source language symbol (fst pn) (snd pn))"

lemma first_some_append:
  "first_some f (xs @ ys) = (case first_some f xs of Some y \<Rightarrow> Some y | None \<Rightarrow> first_some f ys)"
  by (induction xs) (auto split: option.split)

lemma first_some_concat:
  "(\<And>x. x \<in> set xs \<Longrightarrow> g x = first_some f (h x)) \<Longrightarrow> first_some g xs = first_some f (concat (map h xs))"
  by (induction xs) (auto simp: first_some_append split: option.split)

lemma first_some_None: "first_some f xs = None \<longleftrightarrow> (\<forall>x \<in> set xs. f x = None)"
  by (induction xs) (auto split: option.split)

lemma first_some_SomeD: "first_some f xs = Some y \<Longrightarrow> \<exists>x \<in> set xs. f x = Some y"
  by (induction xs) (auto split: option.splits)

lemma findMatching_first:
  "findMatchingSymbolNode source language symbol parent n =
     first_some (symbol_node source language symbol) (nodes_with_parent parent n)"
proof (induction n arbitrary: parent)
  case (TsNode k sb eb sr er nm f cs)
  let ?n = "TsNode k sb eb sr er nm f cs"
  have "first_some (\<lambda>c. if ts_named c then findMatchingSymbolNode source language symbol (Some ?n) c else None) cs =
      first_some (symbol_node source language symbol)
        (concat (map (\<lambda>c. if ts_named c then nodes_with_parent (Some ?n) c else []) cs))"
    by (rule first_some_concat) (simp add: TsNode)
  then show ?case by (simp add: symbol_node_def [of source language symbol "(parent, ?n)"] split: option.split)
qed

lemma nodes_with_parent_wf: "ts_wf src n \<Longrightarrow> (p, m) \<in> set (nodes_with_parent parent n) \<Longrightarrow> ts_wf src m"
proof (induction n arbitrary: parent)
  case (TsNode k sb eb sr er nm f cs)
  then show ?case by (auto simp: list_all_iff split: if_splits)
qed

lemma symbol_here_name: "symbol_here source language symbol p m = Some (name, t) \<Longrightarrow> name = symbol"
  by (auto simp: symbol_here_def matchGoNamedSpec_def split: option.splits if_splits)

lemma findMatching_SomeD:
  assumes "findMatchingSymbolNode source language symbol None tree = Some (node, t, name)" and "ts_wf source tree"
  shows "name = symbol" "ts_wf source node"
proof -
  obtain pn where pn: "pn \<in> set (nodes_with_parent None tree)"
    "symbol_node source language symbol pn = Some (node, t, name)"
    using assms(1) first_some_SomeD unfolding findMatching_first by metis
  then show "name = symbol" using symbol_here_name by (auto simp: symbol_node_def)
  have "node = snd pn" using pn(2) by (auto simp: symbol_node_def)
  then show "ts_wf source node" using nodes_with_parent_wf [OF assms(2)] pn(1) by (cases pn) auto
qed

section \<open>The walk over supported files\<close>

fun fs_readable :: "fs_node \<Rightarrow> bool" where
  "fs_readable FsBad = False"
| "fs_readable (FsFile fsize reg) = True"
| "fs_readable (FsDir entries) = (\<forall>(n, c) \<in> set entries. fs_readable c)"

lemma abs_path_not_blank: "trim_space (abs_path ns) \<noteq> []"
proof -
  have "\<not> blank (slash # s)" for s
  proof
    assume "blank (slash # s)"
    then obtain rs where rs: "slash # s = concat rs" "set rs \<subseteq> set space_runes"
      unfolding blank_def by blast
    then obtain r where "r \<in> set space_runes" "r \<noteq> []" "hd r = slash"
      using space_runes_nonempty
      by (cases rs) (auto, metis append_Cons hd_append2 list.sel(1))
    then show False by (auto simp: space_runes_def)
  qed
  then show ?thesis by (simp add: trim_space_blank abs_path_def)
qed

lemma rel_path_inside:
  assumes "is_segs ns"
  shows "rel_path ns \<noteq> ''.'' \<and> rel_path ns \<noteq> ''..'' \<and> \<not> has_prefix (rel_path ns) ''../''"
proof -
  have split: "split_on slash (rel_path ns) = ns" using assms by (rule split_rel_path)
  have names: "''..'' \<notin> set ns" using assms by (auto simp: is_segs_def is_name_def)
  have "rel_path ns \<noteq> ''..''" using split names by (auto simp: split_on_free)
  moreover have "\<not> has_prefix (rel_path ns) ''../''"
  proof
    assume "has_prefix (rel_path ns) ''../''"
    then obtain t where "rel_path ns = ''..'' @ slash # t" by (auto simp: has_prefix_iff)
    then have "ns = ''..'' # split_on slash t" using split split_on_append_sep [of slash "''..''" t] by simp
    with names show False by simp
  qed
  ultimately show ?thesis using rel_path_plain(3) [OF assms] by blast
qed

lemma MatchesPath_below:
  assumes "names_ok rs" "names_ok ns" "mt_root m = abs_path rs"
  shows "MatchesPath cwd (Some m) (abs_path (rs @ ns)) = walk_ignored m ns"
proof -
  have "path_abs cwd (abs_path (rs @ ns)) = abs_path (rs @ ns)"
    using assms abs_path_clean [of "rs @ ns"] by (simp add: path_abs_def path_is_abs_def) (simp add: abs_path_def)
  moreover have "ns \<noteq> [] \<Longrightarrow> rel_path ns \<noteq> ''.'' \<and> rel_path ns \<noteq> ''..'' \<and> \<not> has_prefix (rel_path ns) ''../''"
    by (rule rel_path_inside) (use assms in \<open>simp_all add: names_ok_def is_segs_def\<close>)
  ultimately show ?thesis
    using assms by (simp add: MatchesPath_def abs_path_not_blank rel_of_abs MatchesRelative_def walk_ignored_def)
qed

lemma those_Some: "(\<And>x. x \<in> set xs \<Longrightarrow> f x = Some (g x)) \<Longrightarrow> those (map f xs) = Some (map g xs)"
  by (induction xs) auto

definition collect_keep :: "(string \<Rightarrow> bool) \<Rightarrow> string list \<Rightarrow> string list \<times> fs_node \<Rightarrow> bool" where
  "collect_keep accept rs f \<longleftrightarrow> fs_regular (snd f) \<and> accept (path_ext (abs_path (rs @ fst f)))"

lemma collect_node_pruned:
  assumes "names_ok rs" "mt_root m = abs_path rs"
  shows "names_ok ns \<Longrightarrow> fs_names_ok t \<Longrightarrow> fs_readable t \<Longrightarrow>
    collect_node cwd m accept (abs_path rs) (abs_path (rs @ ns)) t =
      Some (map (\<lambda>ms. abs_path (rs @ ms)) (pruned (walk_ignored m) (collect_keep accept rs) ns t))"
proof (induction ns t rule: all_files.induct)
  case (1 ns fsize reg)
  then show ?case by (simp add: MatchesPath_below [OF assms(1) _ assms(2)] collect_keep_def)
next
  case (2 ns)
  then show ?case by simp
next
  case (3 ns entries)
  have kids: "those (map (\<lambda>p. collect_node cwd m accept (abs_path rs) (path_join [abs_path (rs @ ns), fst p]) (snd p)) entries) =
      Some (map (\<lambda>p. map (\<lambda>ms. abs_path (rs @ ms))
        (pruned (walk_ignored m) (collect_keep accept rs) (ns @ [fst p]) (snd p))) entries)"
  proof (rule those_Some)
    fix p assume p: "p \<in> set entries"
    obtain n c where nc: "p = (n, c)" by (cases p)
    then have "is_name n" "fs_names_ok c" "fs_readable c" using "3.prems"(2,3) p by auto
    moreover from this(1) have "path_join [abs_path (rs @ ns), n] = abs_path (rs @ (ns @ [n]))"
      using abs_path_join [of "rs @ ns" n] assms "3.prems"(1) by simp
    ultimately show "collect_node cwd m accept (abs_path rs) (path_join [abs_path (rs @ ns), fst p]) (snd p) =
        Some (map (\<lambda>ms. abs_path (rs @ ms))
          (pruned (walk_ignored m) (collect_keep accept rs) (ns @ [fst p]) (snd p)))"
      using "3.IH" [OF p nc [symmetric]] "3.prems"(1) nc by simp
  qed
  have "abs_path (rs @ ns) = abs_path rs \<longleftrightarrow> ns = []"
    using abs_path_inj [of "rs @ ns" rs] assms(1) "3.prems"(1) by simp
  then show ?case
    using "3.prems"(1)
    by (simp add: MatchesPath_below [OF assms(1) _ assms(2)] walk_ignored_def [of m ns] map_concat comp_def
        case_prod_unfold kids del: map_eq_conv)
qed

section \<open>Properties\<close>

text \<open>
  The symbol search is a pre-order search: it returns the first named node in document order
  (with its parent in view) that declares the symbol, and fails when no node does.
\<close>

theorem findMatchingSymbolNode_first:
  "findMatchingSymbolNode source language symbol parent n =
     first_some (symbol_node source language symbol) (nodes_with_parent parent n)"
  by (rule findMatching_first)



text \<open>
  Which files a directory search reads: with an absolute root and readable directories, exactly
  the regular files with a supported extension for which neither the file nor a directory above
  it is ignored, in the bytewise order of their paths.
\<close>

theorem collectSupportedFiles_exact:
  assumes "names_ok rs" "mt_root m = abs_path rs" "fs_names_ok t" "fs_readable t"
  shows "collectSupportedFiles cwd m (abs_path rs) t =
    Some (sort (map (\<lambda>f. abs_path (rs @ fst f))
      (filter (\<lambda>f. \<not> on_the_way (walk_ignored m) 0 (fst f) \<and>
                    collect_keep (\<lambda>ext. languageFromExtension ext \<noteq> None) rs f) (all_files [] t))))"
  using collect_node_pruned [OF assms(1,2) _ assms(3,4), of "[]"]
  by (simp add: collectSupportedFiles_def pruned_filter comp_def)

theorem collectSupportedFiles_exact_witness:
  "collectSupportedFiles ''/'' demo_matcher ''/w'' demo_tree_fs = Some [''/w/a.go'']"
proof -
  have "names_ok [''w'']" "mt_root demo_matcher = abs_path [''w'']" "fs_names_ok demo_tree_fs" "fs_readable demo_tree_fs"
    by (simp_all add: names_ok_def is_name_def demo_tree_fs_def demo_matcher_def abs_path_def rel_path_def)
  note exact = collectSupportedFiles_exact [OF this, of "''/''"]
  have "sort (map (\<lambda>f. abs_path ([''w''] @ fst f))
      (filter (\<lambda>f. \<not> list_ex (\<lambda>j. walk_ignored demo_matcher (take j (fst f))) [0..<Suc (length (fst f))] \<and>
         collect_keep (\<lambda>ext. languageFromExtension ext \<noteq> None) [''w''] f) (all_files [] demo_tree_fs))) =
      [''/w/a.go'']" by code_simp
  then show ?thesis using exact unfolding on_the_way_code by (simp add: abs_path_def rel_path_def)
qed

lemma collect_matches_spec:
  "collect_matches P read_file symbol files = Inr ms \<Longrightarrow>
     map sm_FilePath ms = filter (\<lambda>f. \<not> isl (findSymbolInFile P read_file f symbol)) files \<and>
     list_all (\<lambda>m. findSymbolInFile P read_file (sm_FilePath m) symbol = Inr m) ms \<and>
     (\<forall>f \<in> set files. \<forall>e. findSymbolInFile P read_file f symbol = Inl e \<longrightarrow> e = SymbolNotFound symbol)"
proof (induction files arbitrary: ms)
  case Nil
  then show ?case by simp
next
  case (Cons f files)
  have path: "findSymbolInFile P read_file f symbol = Inr m \<Longrightarrow> sm_FilePath m = f" for m
    by (auto simp: findSymbolInFile_def split: option.splits)
  have sym: "findSymbolInFile P read_file f symbol = Inl (SymbolNotFound s) \<Longrightarrow> s = symbol" for s
    by (auto simp: findSymbolInFile_def split: option.splits)
  show ?case
  proof (cases "findSymbolInFile P read_file f symbol")
    case (Inl e)
    then obtain s where s: "e = SymbolNotFound s" using Cons.prems by (cases e) simp_all
    then have "collect_matches P read_file symbol files = Inr ms" using Cons.prems Inl by simp
    with Cons.IH Inl s sym show ?thesis by auto
  next
    case (Inr m)
    then obtain rest where "collect_matches P read_file symbol files = Inr rest" "ms = m # rest"
      using Cons.prems by (auto split: sum.splits)
    with Cons.IH [of rest] Inr path show ?thesis by auto
  qed
qed

text \<open>
  C36. A directory extraction that succeeds reports exactly the files that declare the symbol, each
  with its own match, in path order and at least one; every other file was read and parsed and
  lacks the symbol: one unreadable or unparsable file makes the whole extraction fail.
\<close>

theorem extractFromDirectory_matches:
  assumes "extractFromDirectory P read_file cwd m path tree symbol FormatJSON = Inr (JsonMatches ms)"
    and "collectSupportedFiles cwd m path tree = Some files"
  shows "ms \<noteq> [] \<and> sorted (map sm_FilePath ms) \<and>
    map sm_FilePath ms = filter (\<lambda>f. \<not> isl (findSymbolInFile P read_file f symbol)) files \<and>
    list_all (\<lambda>m. findSymbolInFile P read_file (sm_FilePath m) symbol = Inr m) ms \<and>
    (\<forall>f \<in> set files. \<forall>e. findSymbolInFile P read_file f symbol = Inl e \<longrightarrow> e = SymbolNotFound symbol)"
proof -
  have ms: "collect_matches P read_file symbol files = Inr ms" "ms \<noteq> []"
    using assms by (auto simp: extractFromDirectory_def split: sum.splits list.splits)
  have "sorted files" using assms(2) by (auto simp: collectSupportedFiles_def)
  then have "sorted (map sm_FilePath ms)"
    using collect_matches_spec [OF ms(1)] by (auto intro: sorted_wrt_filter)
  with ms collect_matches_spec [OF ms(1)] show ?thesis by blast
qed

theorem extractFromDirectory_matches_witness:
  "\<exists>ms. extractFromDirectory (\<lambda>l src. Some demo_class_tree) (\<lambda>p. Some demo_class) ''/'' demo_matcher ''/w''
      (FsDir [(''a.py'', FsFile 32 True)]) ''A'' FormatJSON = Inr (JsonMatches ms) \<and>
     map sm_FilePath ms = [''/w/a.py'']"
proof -
  let ?P = "\<lambda>l src. Some demo_class_tree"
  let ?t = "FsDir [(''a.py'', FsFile 32 True)]"
  have files: "collectSupportedFiles ''/'' demo_matcher ''/w'' ?t = Some [''/w/a.py'']" by code_simp
  have found: "\<not> isl (findSymbolInFile ?P (\<lambda>p. Some demo_class) ''/w/a.py'' ''A'')" by code_simp
  then obtain m where m: "findSymbolInFile ?P (\<lambda>p. Some demo_class) ''/w/a.py'' ''A'' = Inr m"
    by (cases "findSymbolInFile ?P (\<lambda>p. Some demo_class) ''/w/a.py'' ''A''") auto
  then have "extractFromDirectory ?P (\<lambda>p. Some demo_class) ''/'' demo_matcher ''/w'' ?t ''A'' FormatJSON =
      Inr (JsonMatches [m])"
    by (simp add: extractFromDirectory_def files)
  then show ?thesis using extractFromDirectory_matches [OF _ files] found by fastforce
qed

end
