(* ===== verification/EngineAdapters.thy ===== *)
theory EngineAdapters
  imports EngineQuery Extract
begin

text \<open>
  \<open>pkg/engine/adapter_extract.go\<close>: the provider of definitions on top of the extraction. The
  matches travel as JSON, which keeps every string except for bytes that are not UTF-8: each becomes
  U+FFFD (\<open>json_string\<close>).
\<close>

definition json_match :: "SymbolMatch \<Rightarrow> SymbolMatch" where
  "json_match m = m\<lparr>sm_Name := json_string (sm_Name m), sm_Code := json_string (sm_Code m),
     sm_FilePath := json_string (sm_FilePath m), sm_SymbolType := json_string (sm_SymbolType m)\<rparr>"

definition relativeDefinitionPath :: "string \<Rightarrow> string \<Rightarrow> string \<Rightarrow> string" where
  "relativeDefinitionPath cwd workspaceRoot path =
     (if trim_space path = [] then []
      else let absRoot = path_abs cwd workspaceRoot; absPath = path_abs cwd path
           in case path_rel absRoot absPath of
                Inl err \<Rightarrow> path_clean absPath
              | Inr rel \<Rightarrow> if rel = ''..'' \<or> has_prefix rel ''../'' then path_clean absPath else path_clean rel)"

definition matchToDefinition :: "string \<Rightarrow> string \<Rightarrow> SymbolMatch \<Rightarrow> SymDefinition" where
  "matchToDefinition cwd workspaceRoot m =
     \<lparr>def_File = relativeDefinitionPath cwd workspaceRoot (sm_FilePath m),
      def_Line = sm_StartLine m, def_EndLine = sm_EndLine m, def_Type = sm_SymbolType m,
      def_Signature = trim_right_set (hd (split_on newline (sm_Code m))) [CHR 0x0D, CHR 0x0A],
      def_Docstring = [], def_Body = sm_Code m, def_Slices = [], def_Outline = [],
      def_ViewStrategy = ''full_body'',
      def_Language = LanguageFromExtension (path_ext (sm_FilePath m))\<rparr>"

definition adapter_Extract ::
  "string \<Rightarrow> (string \<Rightarrow> string \<Rightarrow> string \<Rightarrow> extract_error + extract_output) \<Rightarrow> string \<Rightarrow> string \<Rightarrow>
   extract_error + SymDefinition option list" where
  "adapter_Extract cwd extract workspaceRoot symbol =
     (case extract workspaceRoot symbol ''json'' of
        Inl e \<Rightarrow> Inl e
      | Inr (JsonMatch m) \<Rightarrow>
          Inr (if sm_Name (json_match m) = [] then []
               else [Some (matchToDefinition cwd workspaceRoot (json_match m))])
      | Inr (JsonMatches ms) \<Rightarrow> Inr (map (\<lambda>m. Some (matchToDefinition cwd workspaceRoot (json_match m))) ms)
      | Inr (RawOutput out) \<Rightarrow> Inr [])"

section \<open>Paths of definitions\<close>

lemma relative_path_inside:
  assumes "names_ok rs" "names_ok ns" "ns \<noteq> []"
  shows "relativeDefinitionPath cwd (abs_path rs) (abs_path (rs @ ns)) = rel_path ns"
proof -
  have a: "path_abs cwd (abs_path xs) = abs_path xs" if "names_ok xs" for xs
    using that abs_path_clean [of xs] by (simp add: path_abs_def path_is_abs_def) (simp add: abs_path_def)
  have "is_segs ns" using assms by (simp add: is_segs_def names_ok_def)
  then show ?thesis
    using assms rel_path_inside [of ns]
    by (simp add: relativeDefinitionPath_def abs_path_not_blank a rel_of_abs rel_path_clean)
qed

section \<open>Properties\<close>

text \<open>
  The definition is read from the wrong directory. Its path is relative to the workspace root,
  but \<open>os.ReadFile\<close> resolves it against the working directory: for a file \<open>ns\<close> below the root \<open>rs\<close>
  and a working directory \<open>cs\<close>, what is read is \<open>cs/ns\<close>. If no such file exists, a definition over
  the budget is answered with its whole body.
\<close>

theorem definition_read_from_cwd:
  assumes "names_ok rs" "names_ok cs" "names_ok ns" "ns \<noteq> []"
    and "sm_FilePath m = abs_path (rs @ ns)"
    and "env_ReadFile env = (\<lambda>p. disk (path_abs (abs_path cs) p))"
    and "disk (abs_path (cs @ ns)) = None" and "budgetLines < body_lines d"
    and "d = matchToDefinition (abs_path cs) (abs_path rs) m"
  shows "def_File d = rel_path ns \<and> view_definition env symbol budgetLines d = d \<and>
    def_Body (view_definition env symbol budgetLines d) = sm_Code m"
proof -
  have relfile: "def_File d = rel_path ns"
    using assms(5,9) relative_path_inside [OF assms(1,3,4)] by (simp add: matchToDefinition_def)
  have "abs_path cs \<noteq> []" by (simp add: abs_path_def)
  then have "path_abs (abs_path cs) (rel_path ns) = abs_path (cs @ ns)"
    using abs_path_join_rel [OF assms(2,3,4)] rel_path_relative [OF assms(3,4)] by (simp add: path_abs_def)
  then have "env_ReadFile env (def_File d) = None" using assms(6,7) relfile by simp
  then have "view_definition env symbol budgetLines d = d"
    using assms(8) by (simp add: view_definition_def)
  with relfile assms(9) show ?thesis by (simp add: matchToDefinition_def)
qed

text \<open>A file of the workspace \<open>/w\<close>, and a query started in \<open>/w/sub\<close>.\<close>

definition demo_match :: SymbolMatch where
  "demo_match = \<lparr>sm_Name = ''A'', sm_Code = demo_class, sm_FilePath = ''/w/a.py'', sm_StartLine = 1,
     sm_EndLine = 3, sm_StartByte = 0, sm_EndByte = 32, sm_SymbolType = ''class''\<rparr>"

theorem definition_read_from_cwd_witness:
  "def_Body (view_definition (demo_env\<lparr>env_ReadFile := (\<lambda>p. (\<lambda>q. if q = ''/w/a.py'' then Some demo_class else None)
       (path_abs ''/w/sub'' p))\<rparr>) ''A'' 2 (matchToDefinition ''/w/sub'' ''/w'' demo_match)) = demo_class"
proof -
  let ?disk = "\<lambda>q. if q = ''/w/a.py'' then Some demo_class else None"
  let ?env = "demo_env\<lparr>env_ReadFile := (\<lambda>p. ?disk (path_abs ''/w/sub'' p))\<rparr>"
  let ?d = "matchToDefinition ''/w/sub'' ''/w'' demo_match"
  have p: "abs_path [''w''] = ''/w''" "abs_path [''w'', ''sub''] = ''/w/sub''"
    "abs_path ([''w''] @ [''a.py'']) = ''/w/a.py''" "abs_path ([''w'', ''sub''] @ [''a.py'']) = ''/w/sub/a.py''"
    by (simp_all add: abs_path_def rel_path_def)
  have n: "names_ok [''w'']" "names_ok [''w'', ''sub'']" "names_ok [''a.py'']" "[''a.py''] \<noteq> []"
    by (simp_all add: names_ok_def is_name_def)
  have m: "sm_FilePath demo_match = ''/w/a.py''" "sm_Code demo_match = demo_class"
    by (simp_all add: demo_match_def)
  have lines: "body_lines ?d = 3" by code_simp
  have "sm_FilePath demo_match = abs_path ([''w''] @ [''a.py''])"
    "env_ReadFile ?env = (\<lambda>p. ?disk (path_abs (abs_path [''w'', ''sub'']) p))"
    "?disk (abs_path ([''w'', ''sub''] @ [''a.py''])) = None" "2 < body_lines ?d"
    "?d = matchToDefinition (abs_path [''w'', ''sub'']) (abs_path [''w'']) demo_match"
    unfolding p m lines by simp_all
  note read = definition_read_from_cwd [OF n this, of "''A''"]
  from read [THEN conjunct2, THEN conjunct2] show ?thesis unfolding m(2) .
qed

end
