(* ===== verification/ListSymbols.thy ===== *)
theory ListSymbols
  imports Extract "HOL-Library.Word"
begin

text \<open>
  \<open>pkg/extract/list.go\<close>: listing the symbols of a file or directory and the summary per file.
  A directory that cannot be walked or a bad filter is an error; a file that fails is a warning,
  here the path with its error.
\<close>

unbundle bit_operations_syntax

section \<open>Filters\<close>

definition listLanguageAliases :: "(string \<times> string) list" where
  "listLanguageAliases =
     [(''go'', ''go''), (''golang'', ''go''), (''python'', ''python''), (''py'', ''python''), (''java'', ''java''),
      (''javascript'', ''javascript''), (''js'', ''javascript''), (''typescript'', ''typescript''),
      (''ts'', ''typescript''), (''rust'', ''rust''), (''rs'', ''rust''), (''cpp'', ''cpp''), (''c++'', ''cpp''),
      (''xml'', ''xml''), (''svg'', ''xml''), (''html'', ''html''), (''htm'', ''html'')]"

definition listSymbolTypeAliases :: "(string \<times> string) list" where
  "listSymbolTypeAliases =
     [([], []), (''func'', ''function''), (''function'', ''function''), (''method'', ''method''), (''class'', ''class''),
      (''interface'', ''interface''), (''struct'', ''struct''), (''type'', ''type''), (''enum'', ''enum''),
      (''trait'', ''trait''), (''impl'', ''impl''), (''element'', ''element''), (''script'', ''script''),
      (''style'', ''style'')]"

definition normalizeListLanguage :: "string \<Rightarrow> extract_error + string" where
  "normalizeListLanguage language =
     (let trimmed = to_lower (trim_space language)
      in if trimmed = [] then Inr []
         else case map_of listLanguageAliases trimmed of None \<Rightarrow> Inl (BadLanguageFilter language) | Some l \<Rightarrow> Inr l)"

definition normalizeListSymbolType :: "string \<Rightarrow> extract_error + string" where
  "normalizeListSymbolType symbolType =
     (case map_of listSymbolTypeAliases (to_lower (trim_space symbolType)) of
        None \<Rightarrow> Inl (BadSymbolType symbolType) | Some t \<Rightarrow> Inr t)"

definition listSymbolTypeMatches :: "string \<Rightarrow> string \<Rightarrow> bool" where
  "listSymbolTypeMatches typeFilter matchedType \<longleftrightarrow>
     typeFilter = [] \<or> typeFilter = matchedType \<or> typeFilter = ''function'' \<and> matchedType = ''method''"

section \<open>Symbols per language\<close>

definition listSymbolInfoForGo :: "ts_node \<Rightarrow> string \<Rightarrow> (string \<times> string) option" where
  "listSymbolInfoForGo node source =
     (let k = ts_kind node
      in if k = ''function_declaration'' then named_field node source ''function''
         else if k = ''method_declaration'' then named_field node source ''method''
         else if k = ''type_spec'' then named_field node source (go_type_kind node)
         else None)"

definition listSymbolInfoForPython :: "ts_node \<Rightarrow> string \<Rightarrow> (string \<times> string) option" where
  "listSymbolInfoForPython = kind_table
     [(''function_definition'', ''function''), (''async_function_definition'', ''function''),
      (''class_definition'', ''class'')]"

definition listSymbolInfoForJava :: "ts_node \<Rightarrow> string \<Rightarrow> (string \<times> string) option" where
  "listSymbolInfoForJava = kind_table
     [(''method_declaration'', ''method''), (''class_declaration'', ''class''),
      (''interface_declaration'', ''interface'')]"

definition listSymbolInfoForJSTS :: "ts_node \<Rightarrow> string \<Rightarrow> bool \<Rightarrow> (string \<times> string) option" where
  "listSymbolInfoForJSTS node source includeInterfaces =
     kind_table
       ([(''function_declaration'', ''function''), (''method_definition'', ''method''),
         (''class_declaration'', ''class'')] @
        (if includeInterfaces then [(''interface_declaration'', ''interface'')] else [])) node source"

definition listSymbolInfoForRust :: "ts_node \<Rightarrow> string \<Rightarrow> (string \<times> string) option" where
  "listSymbolInfoForRust node source =
     (if ts_kind node = ''impl_item'' then
        (case child_by_field node ''type'' of
           None \<Rightarrow> None | Some t \<Rightarrow> named (trim_space (nodeContent t source)) ''impl'')
      else kind_table
        [(''function_item'', ''function''), (''struct_item'', ''struct''), (''enum_item'', ''enum''),
         (''trait_item'', ''trait'')] node source)"

definition listSymbolInfoForCPP :: "ts_node \<Rightarrow> string \<Rightarrow> (string \<times> string) option" where
  "listSymbolInfoForCPP node source =
     (if ts_kind node = ''function_definition'' then cpp_function_name node source
      else kind_table [(''class_specifier'', ''class''), (''struct_specifier'', ''struct'')] node source)"

definition listSymbolInfoForHTML :: "ts_node \<Rightarrow> string \<Rightarrow> (string \<times> string) option" where
  "listSymbolInfoForHTML node source =
     (let start_tag = findNamedChildByType (Some node) ''start_tag''
      in if ts_kind node = ''script_element'' then tag_symbol start_tag source ''script''
         else if ts_kind node = ''style_element'' then tag_symbol start_tag source ''style''
         else if ts_kind node = ''element'' then tag_symbol start_tag source ''element''
         else if ts_kind node = ''self_closing_tag'' then tag_symbol (Some node) source ''element''
         else None)"

definition listSymbolInfoForNode :: "ts_node \<Rightarrow> string \<Rightarrow> string \<Rightarrow> (string \<times> string) option" where
  "listSymbolInfoForNode node source language =
     (if language = ''go'' then listSymbolInfoForGo node source
      else if language = ''python'' then listSymbolInfoForPython node source
      else if language = ''java'' then listSymbolInfoForJava node source
      else if language = ''javascript'' then listSymbolInfoForJSTS node source False
      else if language = ''typescript'' then listSymbolInfoForJSTS node source True
      else if language = ''rust'' then listSymbolInfoForRust node source
      else if language = ''cpp'' then listSymbolInfoForCPP node source
      else if language = ''html'' \<or> language = ''xml'' then listSymbolInfoForHTML node source
      else None)"

section \<open>The symbols of a file\<close>

record ListSymbol =
  ls_Name :: string
  ls_Code :: string
  ls_FilePath :: string
  ls_StartLine :: int
  ls_EndLine :: int
  ls_StartByte :: int
  ls_EndByte :: int
  ls_SymbolType :: string
  ls_LOC :: int

text \<open>The key of \<open>seen\<close>: the start byte in the upper, the end byte in the lower half of a \<open>uint64\<close>.\<close>

definition range_key :: "ts_node \<Rightarrow> 64 word" where
  "range_key node = push_bit 32 (word_of_nat (ts_start node)) OR word_of_nat (ts_end node)"

definition list_symbol :: "string \<Rightarrow> string \<Rightarrow> ts_node \<Rightarrow> string \<Rightarrow> string \<Rightarrow> ListSymbol" where
  "list_symbol path source node name matchedType =
     (let loc = end_line node - start_line node + 1
      in \<lparr>ls_Name = name, ls_Code = nodeContent node source, ls_FilePath = path,
          ls_StartLine = start_line node, ls_EndLine = end_line node,
          ls_StartByte = int (ts_start node), ls_EndByte = int (ts_end node),
          ls_SymbolType = matchedType, ls_LOC = (if loc < 0 then 0 else loc)\<rparr>)"

type_synonym list_state = "64 word list \<times> ListSymbol list"

definition list_visit :: "string \<Rightarrow> string \<Rightarrow> string \<Rightarrow> string \<Rightarrow> ts_node \<Rightarrow> list_state \<Rightarrow> list_state" where
  "list_visit path source language symbolType node st =
     (case listSymbolInfoForNode node source language of
        Some (name, matchedType) \<Rightarrow>
          if listSymbolTypeMatches symbolType matchedType \<and> range_key node \<notin> set (fst st)
          then (range_key node # fst st, snd st @ [list_symbol path source node name matchedType])
          else st
      | None \<Rightarrow> st)"

fun list_walk :: "string \<Rightarrow> string \<Rightarrow> string \<Rightarrow> string \<Rightarrow> ts_node \<Rightarrow> list_state \<Rightarrow> list_state"
  and list_walks :: "string \<Rightarrow> string \<Rightarrow> string \<Rightarrow> string \<Rightarrow> ts_node list \<Rightarrow> list_state \<Rightarrow> list_state" where
  "list_walk path source language symbolType (TsNode k sb eb sr er nm f cs) st =
     list_walks path source language symbolType cs
       (list_visit path source language symbolType (TsNode k sb eb sr er nm f cs) st)"
| "list_walks path source language symbolType [] st = st"
| "list_walks path source language symbolType (c # cs) st =
     list_walks path source language symbolType cs
       (if ts_named c then list_walk path source language symbolType c st else st)"

definition listSymbolsFromSource ::
  "ts_parser \<Rightarrow> string \<Rightarrow> string \<Rightarrow> string \<Rightarrow> string \<Rightarrow> extract_error + ListSymbol list" where
  "listSymbolsFromSource P path source languageFilter symbolType =
     (case (if languageFilter = [] then languageForPath path else Some languageFilter) of
        None \<Rightarrow> Inl (UnsupportedExtension (to_lower (path_ext path)))
      | Some language \<Rightarrow>
          (case parserForLanguage language of
             None \<Rightarrow> Inl (UnsupportedLanguage language)
           | Some lang \<Rightarrow>
               (case P lang source of
                  None \<Rightarrow> Inl (NilTree path)
                | Some tree \<Rightarrow> Inr (snd (list_walk path source language symbolType tree ([], []))))))"

definition listSymbolsFromFile ::
  "ts_parser \<Rightarrow> (string \<Rightarrow> string option) \<Rightarrow> string \<Rightarrow> string \<Rightarrow> string \<Rightarrow> extract_error + ListSymbol list" where
  "listSymbolsFromFile P read_file path languageFilter symbolType =
     (case read_file path of
        None \<Rightarrow> Inl (ReadError path)
      | Some source \<Rightarrow> listSymbolsFromSource P path source languageFilter symbolType)"

section \<open>Directories\<close>

definition collectSupportedFilesForList :: "string \<Rightarrow> Matcher \<Rightarrow> string \<Rightarrow> string \<Rightarrow> fs_node \<Rightarrow> extract_error + string list" where
  "collectSupportedFilesForList cwd m root_dir languageFilter tree =
     (case collect_node cwd m
             (\<lambda>ext. case languageFromExtension ext of
                      None \<Rightarrow> False | Some l \<Rightarrow> languageFilter = [] \<or> l = languageFilter) root_dir root_dir tree of
        None \<Rightarrow> Inl WalkError
      | Some files \<Rightarrow> if files = [] then Inl (NoSupportedFiles root_dir) else Inr (sort files))"

text \<open>The loop over the files: the symbols of the files that succeed, the errors of the others.\<close>

fun list_files ::
  "(string \<Rightarrow> extract_error + 'a) \<Rightarrow> string list \<Rightarrow> (string \<times> 'a) list \<times> (string \<times> extract_error) list" where
  "list_files list_one [] = ([], [])"
| "list_files list_one (path # files) =
     (case list_files list_one files of
        (done_files, warnings) \<Rightarrow>
          (case list_one path of
             Inl e \<Rightarrow> (done_files, (path, e) # warnings)
           | Inr symbols \<Rightarrow> ((path, symbols) # done_files, warnings)))"

definition tab :: string where "tab = [CHR 0x09]"

definition raw_line :: "bool \<Rightarrow> ListSymbol \<Rightarrow> string" where
  "raw_line includePath s =
     (if includePath then ls_FilePath s @ tab else []) @
     ls_SymbolType s @ tab @ ls_Name s @ tab @ ''L'' @ int_str (ls_StartLine s) @ ''-L'' @ int_str (ls_EndLine s) @
     tab @ ''LOC='' @ int_str (ls_LOC s)"

datatype list_output = RawList string | JsonList "ListSymbol list"

definition renderListedSymbols :: "ListSymbol list \<Rightarrow> OutputFormat \<Rightarrow> bool \<Rightarrow> list_output" where
  "renderListedSymbols symbols format includePath =
     (case format of
        FormatJSON \<Rightarrow> JsonList symbols
      | FormatRaw \<Rightarrow> RawList (join [newline] (map (raw_line includePath) symbols)))"

record ListResult =
  lr_Output :: list_output
  lr_Warnings :: "(string \<times> extract_error) list"

definition ListSymbols ::
  "ts_parser \<Rightarrow> (string \<Rightarrow> string option) \<Rightarrow> (string \<Rightarrow> fs_node option) \<Rightarrow> (string \<Rightarrow> Matcher) \<Rightarrow>
   (string \<Rightarrow> string option) \<Rightarrow> string \<Rightarrow> string \<Rightarrow> string \<Rightarrow> string \<Rightarrow> string \<Rightarrow> extract_error + ListResult" where
  "ListSymbols P read_file stat new_matcher project_root cwd targetPath lang format symbolType =
     (if trim_space targetPath = [] then Inl TargetRequired
      else case normalizeListLanguage lang of Inl e \<Rightarrow> Inl e | Inr language \<Rightarrow>
      (case normalizeListSymbolType symbolType of Inl e \<Rightarrow> Inl e | Inr ty \<Rightarrow>
      (case normalizeOutputFormat format of Inl e \<Rightarrow> Inl e | Inr fmt \<Rightarrow>
      (case stat targetPath of
         None \<Rightarrow> Inl (StatError targetPath)
       | Some (FsDir entries) \<Rightarrow>
           (let m = new_matcher targetPath
            in case collectSupportedFilesForList cwd m targetPath language (FsDir entries) of
                 Inl e \<Rightarrow> Inl e
               | Inr files \<Rightarrow>
                   (case list_files (\<lambda>path. listSymbolsFromFile P read_file path language ty) files of
                      (done_files, warnings) \<Rightarrow>
                        if done_files = [] \<and> warnings \<noteq> []
                        then Inl (AllFilesFailed targetPath (int (length warnings)))
                        else Inr \<lparr>lr_Output = renderListedSymbols (concat (map snd done_files)) fmt True,
                                  lr_Warnings = warnings\<rparr>))
       | Some _ \<Rightarrow>
           (let matcherRoot = (case project_root (path_dir targetPath) of Some r \<Rightarrow> r | None \<Rightarrow> path_dir targetPath)
            in if MatchesPath cwd (Some (new_matcher matcherRoot)) targetPath then Inl (TargetIgnored targetPath)
               else case listSymbolsFromFile P read_file targetPath language ty of
                      Inl e \<Rightarrow> Inl e
                    | Inr symbols \<Rightarrow> Inr \<lparr>lr_Output = renderListedSymbols symbols fmt False, lr_Warnings = []\<rparr>)))))"

section \<open>The summary\<close>

text \<open>The counts of a file are the association list of the map, in the order of first occurrence.\<close>

record FileSummary =
  fsum_FilePath :: string
  fsum_TotalLines :: int
  fsum_SymbolCounts :: "(string \<times> nat) list"

record ListSummaryResult =
  lsum_DirPath :: string
  lsum_FileCount :: int
  lsum_TotalLines :: int
  lsum_Files :: "FileSummary list"
  lsum_Warnings :: "(string \<times> extract_error) list"

fun count_symbol :: "string \<Rightarrow> (string \<times> nat) list \<Rightarrow> (string \<times> nat) list" where
  "count_symbol t [] = [(t, 1)]"
| "count_symbol t ((u, n) # counts) = (if t = u then (u, n + 1) # counts else (u, n) # count_symbol t counts)"

definition symbol_counts :: "ListSymbol list \<Rightarrow> (string \<times> nat) list" where
  "symbol_counts symbols = fold (\<lambda>s. count_symbol (ls_SymbolType s)) symbols []"

definition summarize_file ::
  "ts_parser \<Rightarrow> (string \<Rightarrow> string option) \<Rightarrow> string \<Rightarrow> string \<Rightarrow> string \<Rightarrow> string \<Rightarrow> extract_error + FileSummary" where
  "summarize_file P read_file targetPath language ty path =
     (case read_file path of
        None \<Rightarrow> Inl (ReadError path)
      | Some source \<Rightarrow>
          (case listSymbolsFromSource P path source language ty of
             Inl e \<Rightarrow> Inl e
           | Inr symbols \<Rightarrow>
               Inr \<lparr>fsum_FilePath = (case path_rel targetPath path of Inl e \<Rightarrow> path | Inr rel \<Rightarrow> rel),
                    fsum_TotalLines = int (count_byte newline source) + 1,
                    fsum_SymbolCounts = symbol_counts symbols\<rparr>))"

definition ListSymbolsSummary ::
  "ts_parser \<Rightarrow> (string \<Rightarrow> string option) \<Rightarrow> (string \<Rightarrow> fs_node option) \<Rightarrow> (string \<Rightarrow> Matcher) \<Rightarrow>
   string \<Rightarrow> string \<Rightarrow> string \<Rightarrow> string \<Rightarrow> string \<Rightarrow> extract_error + (OutputFormat \<times> ListSummaryResult)" where
  "ListSymbolsSummary P read_file stat new_matcher cwd targetPath lang format symbolType =
     (if trim_space targetPath = [] then Inl TargetRequired
      else case normalizeListLanguage lang of Inl e \<Rightarrow> Inl e | Inr language \<Rightarrow>
      (case normalizeListSymbolType symbolType of Inl e \<Rightarrow> Inl e | Inr ty \<Rightarrow>
      (case normalizeOutputFormat format of Inl e \<Rightarrow> Inl e | Inr fmt \<Rightarrow>
      (case stat targetPath of
         None \<Rightarrow> Inl (StatError targetPath)
       | Some (FsDir entries) \<Rightarrow>
           (case collectSupportedFilesForList cwd (new_matcher targetPath) targetPath language (FsDir entries) of
              Inl e \<Rightarrow> Inl e
            | Inr files \<Rightarrow>
                (case list_files (summarize_file P read_file targetPath language ty) files of
                   (done_files, warnings) \<Rightarrow>
                     if done_files = [] \<and> warnings \<noteq> []
                     then Inl (AllFilesFailed targetPath (int (length warnings)))
                     else Inr (fmt, \<lparr>lsum_DirPath = targetPath, lsum_FileCount = int (length done_files),
                            lsum_TotalLines = sum_list (map (\<lambda>f. fsum_TotalLines (snd f)) done_files),
                            lsum_Files = map snd done_files, lsum_Warnings = warnings\<rparr>)))
       | Some _ \<Rightarrow> Inl (NotADirectory targetPath)))))"

text \<open>The raw rendering: paths padded to the longest (in bytes, the padding counts runes), counts aligned.\<close>

definition pad_right :: "nat \<Rightarrow> string \<Rightarrow> string" where
  "pad_right w t = t @ replicate (w - length (runes t)) (CHR '' '')"

definition pad_left :: "nat \<Rightarrow> string \<Rightarrow> string" where
  "pad_left w t = replicate (w - length (runes t)) (CHR '' '') @ t"

definition count_parts :: "FileSummary \<Rightarrow> string list" where
  "count_parts f =
     map (\<lambda>t. t @ ''('' @ nat_str (case map_of (fsum_SymbolCounts f) t of None \<Rightarrow> 0 | Some n \<Rightarrow> n) @ '')'')
       (sort (map fst (fsum_SymbolCounts f)))"

definition summary_line :: "nat \<Rightarrow> nat \<Rightarrow> FileSummary \<Rightarrow> string" where
  "summary_line pathWidth lineWidth f =
     ''  '' @ pad_right pathWidth (fsum_FilePath f) @ '' '' @ pad_left lineWidth (int_str (fsum_TotalLines f)) @ '' lines'' @
     (if count_parts f = [] then [] else ''    '' @ join '' '' (count_parts f))"

definition renderSummary_raw :: "ListSummaryResult \<Rightarrow> string" where
  "renderSummary_raw summary =
     (let header = lsum_DirPath summary @ ''  ('' @ int_str (lsum_FileCount summary) @ '' files, '' @
            int_str (lsum_TotalLines summary) @ '' lines)'';
          files = lsum_Files summary;
          pathWidth = foldr max (map (\<lambda>f. length (fsum_FilePath f)) files) 0;
          lineWidth = foldr max (map (\<lambda>f. length (int_str (fsum_TotalLines f))) files) 0
      in if files = [] then header
         else header @ [newline, newline] @ join [newline] (map (summary_line pathWidth lineWidth) files))"

section \<open>The listing as a selection of nodes\<close>

definition walked_nodes :: "ts_node \<Rightarrow> ts_node list" where
  "walked_nodes n = map snd (nodes_with_parent None n)"

lemma walked_nodes_parent: "map snd (nodes_with_parent p n) = walked_nodes n"
  by (cases n) (simp add: walked_nodes_def)

lemma walked_nodes_simps:
  "walked_nodes (TsNode k sb eb sr er nm f cs) =
     TsNode k sb eb sr er nm f cs # concat (map (\<lambda>c. if ts_named c then walked_nodes c else []) cs)"
proof -
  have "map (map snd) (map (\<lambda>c. if ts_named c then nodes_with_parent (Some (TsNode k sb eb sr er nm f cs)) c else []) cs) =
      map (\<lambda>c. if ts_named c then walked_nodes c else []) cs"
    by (simp add: walked_nodes_parent)
  then show ?thesis by (simp add: walked_nodes_def map_concat del: map_map map_eq_conv)
qed

lemma list_walk_fold:
  "list_walk path source language symbolType n st =
     fold (list_visit path source language symbolType) (walked_nodes n) st"
proof (induction n arbitrary: st)
  case (TsNode k sb eb sr er nm f cs)
  have kids: "list_walks path source language symbolType ds st' =
      fold (list_visit path source language symbolType)
        (concat (map (\<lambda>c. if ts_named c then walked_nodes c else []) ds)) st'"
    if "set ds \<subseteq> set cs" for ds st'
    using that by (induction ds arbitrary: st') (simp_all add: TsNode.IH)
  show ?case by (simp add: walked_nodes_simps kids)
qed

text \<open>The first element for each key.\<close>

fun first_by :: "('a \<Rightarrow> 'k) \<Rightarrow> 'k list \<Rightarrow> 'a list \<Rightarrow> 'a list" where
  "first_by key seen [] = []"
| "first_by key seen (x # xs) =
     (if key x \<in> set seen then first_by key seen xs else x # first_by key (key x # seen) xs)"

lemma first_by_keys: "distinct (map key (first_by key seen xs))"
  "key ` set (first_by key seen xs) = key ` set xs - set seen"
  by (induction key seen xs rule: first_by.induct) auto

lemma first_by_subset: "set (first_by key seen xs) \<subseteq> set xs"
  by (induction key seen xs rule: first_by.induct) auto

lemma first_by_cong:
  "(\<And>x y. x \<in> set xs \<union> S \<Longrightarrow> y \<in> set xs \<union> S \<Longrightarrow> key x = key y \<longleftrightarrow> key' x = key' y) \<Longrightarrow>
   seen = map key ys \<Longrightarrow> seen' = map key' ys \<Longrightarrow> set ys \<subseteq> S \<Longrightarrow> first_by key seen xs = first_by key' seen' xs"
proof (induction xs arbitrary: seen seen' ys S)
  case Nil
  then show ?case by simp
next
  case (Cons x xs)
  have "key x \<in> set seen \<longleftrightarrow> key' x \<in> set seen'"
  proof -
    have "\<forall>y \<in> set ys. key x = key y \<longleftrightarrow> key' x = key' y" using Cons.prems(1,4) by (simp add: subset_iff)
    then show ?thesis by (auto simp: Cons.prems(2,3))
  qed
  moreover have "first_by key seen xs = first_by key' seen' xs"
    by (rule Cons.IH [of S, OF _ Cons.prems(2-4)]) (use Cons.prems(1) in simp)
  moreover have "first_by key (key x # seen) xs = first_by key' (key' x # seen') xs"
    by (rule Cons.IH [of "insert x S" _ "x # ys"]) (use Cons.prems in auto)
  ultimately show ?case by simp
qed

definition listed :: "string \<Rightarrow> string \<Rightarrow> string \<Rightarrow> ts_node \<Rightarrow> bool" where
  "listed source language symbolType n \<longleftrightarrow>
     (case listSymbolInfoForNode n source language of
        None \<Rightarrow> False | Some (name, t) \<Rightarrow> listSymbolTypeMatches symbolType t)"

definition symbol_of :: "string \<Rightarrow> string \<Rightarrow> string \<Rightarrow> ts_node \<Rightarrow> ListSymbol" where
  "symbol_of path source language n =
     (case listSymbolInfoForNode n source language of
        None \<Rightarrow> list_symbol path source n [] [] | Some (name, t) \<Rightarrow> list_symbol path source n name t)"

lemma list_visit_fold:
  "snd (fold (list_visit path source language symbolType) ns (seen, out)) =
     out @ map (symbol_of path source language)
       (first_by range_key seen (filter (listed source language symbolType) ns))"
  by (induction ns arbitrary: seen out)
     (auto simp: list_visit_def listed_def symbol_of_def split: option.split prod.split)

lemma digits_unique:
  fixes x y x' y' N :: nat
  assumes "x * N + y = x' * N + y'" "y < N" "y' < N"
  shows "x = x' \<and> y = y'"
proof -
  have "x = (x * N + y) div N" "x' = (x' * N + y') div N" using assms(2,3) by simp_all
  then have "x = x'" using assms(1) by simp
  with assms(1) show ?thesis by simp
qed

text \<open>Below \<open>2 ^ 32\<close> bytes the key is the byte range.\<close>

lemma range_key_inj:
  assumes "ts_start a < 2 ^ 32" "ts_end a < 2 ^ 32" "ts_start b < 2 ^ 32" "ts_end b < 2 ^ 32"
  shows "range_key a = range_key b \<longleftrightarrow> ts_start a = ts_start b \<and> ts_end a = ts_end b"
proof -
  have key: "unat (range_key n) = ts_start n * 2 ^ 32 + ts_end n"
    if n: "ts_start n < 2 ^ 32" "ts_end n < 2 ^ 32" for n
  proof -
    have low: "\<not> bit (word_of_nat (ts_end n) :: 64 word) i" if "32 \<le> i" for i
    proof -
      have "ts_end n < 2 ^ i" using n(2) power_increasing [OF that, of "2::nat"] by simp
      then have "\<not> bit (ts_end n) i" by (simp add: bit_iff_odd)
      then show ?thesis by (simp add: bit_simps)
    qed
    have "range_key n = push_bit 32 (word_of_nat (ts_start n)) + word_of_nat (ts_end n)"
      unfolding range_key_def
      by (rule disjunctive_add_eq_or [symmetric])
        (rule bit_eqI, use low in \<open>auto simp: bit_simps\<close>)
    also have "\<dots> = word_of_nat (ts_start n * 2 ^ 32 + ts_end n)"
      by (simp add: push_bit_eq_mult)
    finally have key: "range_key n = word_of_nat (ts_start n * 2 ^ 32 + ts_end n)" .
    define x where "x = ts_start n * 2 ^ 32 + ts_end n"
    then have "x < 2 ^ 64" using n by simp
    then show ?thesis unfolding key x_def [symmetric] by (simp add: unsigned_of_nat take_bit_nat_eq_self)
  qed
  show ?thesis
  proof
    assume "range_key a = range_key b"
    then have "ts_start a * 2 ^ 32 + ts_end a = ts_start b * 2 ^ 32 + ts_end b"
      using key assms by metis
    then show "ts_start a = ts_start b \<and> ts_end a = ts_end b" using assms(2,4) by (rule digits_unique)
  qed (simp add: range_key_def)
qed

section \<open>Properties\<close>



lemma kind_table_mono:
  "kind_table xs n source = Some r \<Longrightarrow> (\<And>k t. map_of xs k = Some t \<Longrightarrow> map_of ys k = Some t) \<Longrightarrow>
   kind_table ys n source = Some r"
  by (auto simp: kind_table_def split: option.splits)

definition extractable_languages :: "string list" where
  "extractable_languages = [''go'', ''python'', ''java'', ''javascript'', ''typescript'', ''cpp'']"

lemma listed_symbol_info:
  assumes "language \<in> set extractable_languages"
    and "listSymbolInfoForNode n source language = Some r"
  shows "symbolInfoForNode p n source language = Some r"
proof -
  have java: "listSymbolInfoForJava n source = Some r \<Longrightarrow> symbolInfoForJava n source = Some r"
    unfolding listSymbolInfoForJava_def symbolInfoForJava_def
    by (erule kind_table_mono) (auto split: if_splits)
  have jsts: "listSymbolInfoForJSTS n source b = Some r \<Longrightarrow> symbolInfoForJSTS p n source = Some r" for b
  proof -
    assume l: "listSymbolInfoForJSTS n source b = Some r"
    then have "ts_kind n \<noteq> ''variable_declarator''"
      by (auto simp: listSymbolInfoForJSTS_def kind_table_def split: if_splits)
    moreover have "kind_table
        [(''function_declaration'', ''function''), (''method_definition'', ''method''),
         (''class_declaration'', ''class''), (''abstract_class_declaration'', ''class''),
         (''interface_declaration'', ''interface''), (''type_alias_declaration'', ''type''),
         (''enum_declaration'', ''enum'')] n source = Some r"
      using l unfolding listSymbolInfoForJSTS_def by (rule kind_table_mono) (auto split: if_splits)
    ultimately show ?thesis by (simp add: symbolInfoForJSTS_def)
  qed
  have cpp: "listSymbolInfoForCPP n source = Some r \<Longrightarrow> symbolInfoForCPP n source = Some r"
    by (auto simp: listSymbolInfoForCPP_def symbolInfoForCPP_def kind_table_def split: if_splits)
  have go: "listSymbolInfoForGo n source = Some r \<Longrightarrow> symbolInfoForGo n source = Some r"
    by (auto simp: listSymbolInfoForGo_def symbolInfoForGo_def Let_def split: if_splits)
  have python: "listSymbolInfoForPython = symbolInfoForPython"
    by (simp add: listSymbolInfoForPython_def symbolInfoForPython_def)
  from assms(1) consider "language = ''go''" | "language = ''python''" | "language = ''java''"
    | "language = ''javascript''" | "language = ''typescript''" | "language = ''cpp''"
    unfolding extractable_languages_def by (simp only: list.set insert_iff empty_iff) blast
  then show ?thesis
    using assms(2) java jsts [of True] jsts [of False] cpp go python
    by cases (simp_all add: listSymbolInfoForNode_def symbolInfoForNode_def)
qed

text \<open>
  What is listed can be extracted: for Go, Python, Java, JavaScript, TypeScript and C++, every
  symbol that the listing of a file shows is found by an extraction of its name from that file.
\<close>

theorem listed_symbols_extractable:
  assumes "languageForPath path = Some language" "language \<in> set extractable_languages"
    and "listSymbolsFromFile P read_file path [] symbolType = Inr symbols" and "s \<in> set symbols"
  shows "\<exists>m. findSymbolInFile P read_file path (ls_Name s) = Inr m \<and> sm_Name m = ls_Name s"
proof -
  obtain source lang tree where src: "read_file path = Some source" "parserForLanguage language = Some lang"
    "P lang source = Some tree"
    and symbols: "symbols = map (symbol_of path source language)
        (first_by range_key [] (filter (listed source language symbolType) (walked_nodes tree)))"
    using assms(1,3)
    by (auto simp: listSymbolsFromFile_def listSymbolsFromSource_def list_walk_fold list_visit_fold
        split: option.splits)
  then obtain n where n: "s = symbol_of path source language n" "listed source language symbolType n"
    "n \<in> set (walked_nodes tree)"
    using assms(4) first_by_subset [of range_key "[]" "filter (listed source language symbolType) (walked_nodes tree)"]
    by auto
  then obtain t where info: "listSymbolInfoForNode n source language = Some (ls_Name s, t)"
    by (auto simp: listed_def symbol_of_def list_symbol_def Let_def split: option.splits)
  obtain p where p: "(p, n) \<in> set (nodes_with_parent None tree)" using n(3) by (auto simp: walked_nodes_def)
  have "symbol_here source language (ls_Name s) p n \<noteq> None"
    using listed_symbol_info [OF assms(2) info, of p] unfolding symbol_here_def by (auto split: option.split)
  then have "symbol_node source language (ls_Name s) (p, n) \<noteq> None" by (auto simp: symbol_node_def)
  then have "\<not> (\<forall>x \<in> set (nodes_with_parent None tree). symbol_node source language (ls_Name s) x = None)"
    using p by auto
  then have "findMatchingSymbolNode source language (ls_Name s) None tree \<noteq> None"
    by (simp add: findMatching_first first_some_None)
  then obtain node ty name where found: "findMatchingSymbolNode source language (ls_Name s) None tree = Some (node, ty, name)"
    by auto
  then have "name = ls_Name s"
    using first_some_SomeD [OF found [unfolded findMatching_first]] symbol_here_name by (auto simp: symbol_node_def)
  with found show ?thesis by (simp add: findSymbolInFile_def assms(1) src)
qed

theorem listed_symbols_extractable_witness:
  "\<exists>m. findSymbolInFile (\<lambda>l src. Some demo_class_tree) (\<lambda>p. Some demo_class) ''a.py'' ''f'' = Inr m \<and> sm_Name m = ''f''"
proof -
  let ?P = "\<lambda>(l :: ts_lang) (src :: string). Some demo_class_tree"
  let ?name = "\<lambda>n. ls_Name (symbol_of ''a.py'' demo_class ''python'' n)"
  let ?l = "listSymbolsFromFile ?P (\<lambda>p. Some demo_class) ''a.py'' [] ''function''"
  have lang: "languageForPath ''a.py'' = Some ''python''" "parserForLanguage ''python'' = Some LangPython"
    "''python'' \<in> set extractable_languages" by code_simp+
  have "map ?name (filter (listed demo_class ''python'' ''function'') (walked_nodes demo_class_tree)) = [''f'']"
    by code_simp
  then obtain n where n: "filter (listed demo_class ''python'' ''function'') (walked_nodes demo_class_tree) = [n]"
    "?name n = ''f''" by auto
  then have s: "?l = Inr [symbol_of ''a.py'' demo_class ''python'' n]"
    by (simp add: listSymbolsFromFile_def listSymbolsFromSource_def lang list_walk_fold list_visit_fold)
  show ?thesis
    using listed_symbols_extractable [OF lang(1,3) s, of "symbol_of ''a.py'' demo_class ''python'' n"] n(2) by simp
qed

text \<open>
  The type filter \<open>enum\<close> is accepted but matches nothing outside Rust: no listing of a Java,
  JavaScript, TypeScript or C++ file ever holds an enum, although the extraction knows them.
\<close>

theorem list_enum_gap:
  assumes "languageForPath path = Some language"
    and "language \<in> {''java'', ''javascript'', ''typescript'', ''cpp''}"
  shows "normalizeListSymbolType ''enum'' = Inr ''enum'' \<and>
    (case listSymbolsFromSource P path source [] ''enum'' of Inl e \<Rightarrow> True | Inr symbols \<Rightarrow> symbols = [])"
proof
  show "normalizeListSymbolType ''enum'' = Inr ''enum''" by code_simp
  have table: "kind_table xs n source = Some (name, t) \<Longrightarrow> t \<in> snd ` set xs" for xs n name t
    by (force simp: kind_table_def named_field_def named_def dest: map_of_SomeD split: option.splits if_splits)
  have kinds: "t \<in> {''function'', ''method'', ''class'', ''interface'', ''struct''}"
    if info: "listSymbolInfoForNode n source language = Some (name, t)" for n name t
  proof -
    from info assms(2) consider "listSymbolInfoForJava n source = Some (name, t)"
      | b where "listSymbolInfoForJSTS n source b = Some (name, t)" | "listSymbolInfoForCPP n source = Some (name, t)"
      by (auto simp: listSymbolInfoForNode_def)
    then show ?thesis
    proof cases
      case 1 then show ?thesis unfolding listSymbolInfoForJava_def using table by fastforce
    next
      case (2 b) then show ?thesis unfolding listSymbolInfoForJSTS_def using table by (cases b) fastforce+
    next
      case 3
      then have "t = ''function'' \<or>
          kind_table [(''class_specifier'', ''class''), (''struct_specifier'', ''struct'')] n source = Some (name, t)"
        by (auto simp: listSymbolInfoForCPP_def cpp_function_name_def named_def split: if_splits option.splits)
      then show ?thesis using table by fastforce
    qed
  qed
  have "filter (listed source language ''enum'') ns = []" for ns
    using kinds by (fastforce simp: filter_empty_conv listed_def listSymbolTypeMatches_def split: option.splits)
  then show "case listSymbolsFromSource P path source [] ''enum'' of Inl e \<Rightarrow> True | Inr symbols \<Rightarrow> symbols = []"
    by (auto simp: listSymbolsFromSource_def assms(1) list_walk_fold list_visit_fold split: option.splits)
qed

theorem list_enum_gap_witness:
  "languageForPath ''A.java'' = Some ''java'' \<and>
   (case listSymbolsFromSource (\<lambda>l src. Some (TsNode ''enum_declaration'' 0 9 0 0 True None
        [TsNode ''identifier'' 5 6 0 0 True (Some ''name'') []])) ''A.java'' ''enum A {}'' [] ''enum'' of
      Inl e \<Rightarrow> True | Inr symbols \<Rightarrow> symbols = [])"
proof -
  have h: "languageForPath ''A.java'' = Some ''java''" by code_simp
  show ?thesis using list_enum_gap [OF h] h by blast
qed

end
