(* ===== verification/Embedding.thy ===== *)
theory Embedding
  imports GoFloat
begin

text \<open>
  \<open>pkg/embedding\<close>: the Ollama client. The HTTP server is a parameter over a state of its own
  (\<open>server texts w\<close> is its reply to one request and its next state), so that it may answer the
  same request differently each time. A reply carries the status, the body and what the JSON decoder
  makes of the body. The client's fields \<open>dimension\<close> and \<open>maxInputChars\<close> are threaded through
  every call; the mutex makes each access to them atomic. A result \<open>None\<close> is a panic: a vector is
  read that no request returned (when the slice of vectors has spare capacity, Go may read an empty
  vector from it instead of panicking).

  A \<open>float32\<close> is a rational number, rounded to 24 significant bits after every operation, ties to
  even, with the subnormal step \<open>2 ^ -149\<close>; no value comes near the overflow.
\<close>

definition f32_pos :: "rat \<Rightarrow> rat" where
  "f32_pos x = (let u = 2 powi (max (bin_exp x - 23) (- 149)) in of_int (round_even (x / u)) * u)"

definition f32 :: "rat \<Rightarrow> rat" where
  "f32 x = (if x = 0 then 0 else if 0 < x then f32_pos x else - f32_pos (- x))"

section \<open>The client and its server\<close>

record OllamaClient =
  oc_host :: string
  oc_model :: string
  oc_keepAlive :: string
  oc_dimension :: int
  oc_maxInputChars :: int

definition NewOllamaClient :: "string \<Rightarrow> string \<Rightarrow> string \<Rightarrow> OllamaClient" where
  "NewOllamaClient host model keepAlive =
     \<lparr>oc_host = host, oc_model = model, oc_keepAlive = (if keepAlive = [] then ''5m'' else keepAlive),
      oc_dimension = 0, oc_maxInputChars = 0\<rparr>"

datatype 'a http_reply =
    NoReply string
  | Reply (reply_status: int) (reply_body: string) (reply_decoded: "string + 'a")

datatype embed_error =
    ContextOverflow int string
  | RequestFailed string
  | BadStatus int string
  | DecodeFailed string
  | OverflowAfter int int "embed_error option"
  | EmptyEmbeddings
  | DetectDimensionFailed embed_error
  | NoContextLength

type_synonym vector = "rat list"
type_synonym 'a embed_result = "(embed_error + 'a) option"
type_synonym 'w embed_server = "string list \<Rightarrow> 'w \<Rightarrow> vector list http_reply \<times> 'w"

fun isContextOverflowError :: "embed_error \<Rightarrow> bool" where
  "isContextOverflowError (ContextOverflow status body) = True"
| "isContextOverflowError (OverflowAfter attempts chars (Some e)) = isContextOverflowError e"
| "isContextOverflowError (DetectDimensionFailed e) = isContextOverflowError e"
| "isContextOverflowError e = False"

definition defaultMaxInputChars :: int where "defaultMaxInputChars = 16000"
definition minAdaptiveMaxInputChars :: int where "minAdaptiveMaxInputChars = 512"
definition maxAdaptiveEmbedAttempts :: nat where "maxAdaptiveEmbedAttempts = 5"

definition MaxInputChars :: "OllamaClient \<Rightarrow> int" where
  "MaxInputChars c = (if oc_maxInputChars c > 0 then oc_maxInputChars c else defaultMaxInputChars)"

definition SetMaxInputChars :: "int \<Rightarrow> OllamaClient \<Rightarrow> OllamaClient" where
  "SetMaxInputChars n c = (if n \<le> 0 then c else c\<lparr>oc_maxInputChars := n\<rparr>)"

section \<open>Splitting and averaging\<close>

text \<open>\<open>line_cut s\<close> is the length of \<open>s\<close> up to and including its last newline, 0 without one.\<close>

definition line_cut :: "string \<Rightarrow> nat" where
  "line_cut s = length (dropWhile (\<lambda>c. c \<noteq> newline) (rev s))"

text \<open>Where the text is cut: behind the last newline of the window, else at its end.\<close>

definition cut_at :: "nat \<Rightarrow> string \<Rightarrow> nat" where
  "cut_at maxChars text =
     (let window = take maxChars text
      in if newline \<in> set window then line_cut window else maxChars)"

lemma line_cut_pos: "newline \<in> set s \<Longrightarrow> 0 < line_cut s \<and> line_cut s \<le> length s"
proof -
  assume "newline \<in> set s"
  then have "dropWhile (\<lambda>c. c \<noteq> newline) (rev s) \<noteq> []" by (auto simp: dropWhile_eq_Nil_conv)
  then show ?thesis
    using length_dropWhile_le [of "\<lambda>c. c \<noteq> newline" "rev s"] by (simp add: line_cut_def)
qed

lemma cut_at_bounds: "0 < m \<Longrightarrow> 0 < cut_at m t \<and> cut_at m t \<le> m"
  using line_cut_pos [of "take m t"] by (auto simp: cut_at_def Let_def)

text \<open>The loop of \<open>splitTextAtLines\<close> on the text from \<open>start\<close> on.\<close>

function split_parts :: "nat \<Rightarrow> string \<Rightarrow> string list" where
  "split_parts maxChars text =
     (if text = [] \<or> maxChars = 0 then []
      else if length text \<le> maxChars then [text]
      else take (cut_at maxChars text) text # split_parts maxChars (drop (cut_at maxChars text) text))"
  by pat_completeness auto
termination
  by (relation "measure (\<lambda>(maxChars, text). length text)") (auto simp: cut_at_bounds)

declare split_parts.simps [simp del]

lemma split_parts_step:
  "0 < m \<Longrightarrow> m < length t \<Longrightarrow> split_parts m t = take (cut_at m t) t # split_parts m (drop (cut_at m t) t)"
  by (subst split_parts.simps) auto

lemma split_parts_end: "length t \<le> m \<Longrightarrow> split_parts m t = (if t = [] then [] else [t])"
  by (subst split_parts.simps) auto

definition splitTextAtLines :: "string \<Rightarrow> int \<Rightarrow> string list" where
  "splitTextAtLines text maxChars =
     (if text = [] then [[]]
      else if maxChars \<le> 0 \<or> int (length text) \<le> maxChars then [text]
      else split_parts (nat maxChars) text)"

text \<open>\<open>avg[j] += val\<close> for the entries of one vector; \<open>None\<close> is an index out of range.\<close>

fun add_into :: "vector \<Rightarrow> vector \<Rightarrow> vector option" where
  "add_into avg [] = Some avg"
| "add_into [] (x # xs) = None"
| "add_into (a # avg) (x # xs) = map_option ((#) (f32 (a + x))) (add_into avg xs)"

fun add_all :: "vector \<Rightarrow> vector list \<Rightarrow> vector option" where
  "add_all avg [] = Some avg"
| "add_all avg (v # vs) = (case add_into avg v of None \<Rightarrow> None | Some avg' \<Rightarrow> add_all avg' vs)"

definition averageVectors :: "vector list \<Rightarrow> vector option" where
  "averageVectors vecs =
     (if vecs = [] then Some []
      else let dim = length (hd vecs);
               scale = f32 (1 / f32 (of_nat (length vecs)))
           in map_option (map (\<lambda>a. f32 (a * scale))) (add_all (replicate dim 0) vecs))"

section \<open>Requests\<close>

definition overflow_text :: string where
  "overflow_text = ''input length exceeds the context length''"

definition doEmbed ::
  "'w embed_server \<Rightarrow> string list \<Rightarrow> OllamaClient \<Rightarrow> 'w \<Rightarrow> (embed_error + vector list) \<times> OllamaClient \<times> 'w" where
  "doEmbed server texts c w =
     (case server texts w of
        (NoReply e, w') \<Rightarrow> (Inl (RequestFailed e), c, w')
      | (Reply status body decoded, w') \<Rightarrow>
          if status \<noteq> 200 then
            (Inl (if status = 400 \<and> contains (to_lower body) overflow_text
                  then ContextOverflow status body else BadStatus status body), c, w')
          else
            (case decoded of
               Inl e \<Rightarrow> (Inl (DecodeFailed e), c, w')
             | Inr vecs \<Rightarrow>
                 (Inr vecs,
                  (if vecs \<noteq> [] \<and> hd vecs \<noteq> [] \<and> oc_dimension c = 0
                   then c\<lparr>oc_dimension := int (length (hd vecs))\<rparr> else c), w')))"

definition chars :: "string list \<Rightarrow> int" where
  "chars texts = sum_list (map (\<lambda>t. int (length t)) texts)"

text \<open>\<open>batch\<close> is \<open>texts[batchStart:i]\<close>, so \<open>batchChars\<close> is \<open>chars batch\<close>.\<close>

fun embedFlat_loop ::
  "'w embed_server \<Rightarrow> int \<Rightarrow> string list \<Rightarrow> string list \<Rightarrow> OllamaClient \<Rightarrow> 'w \<Rightarrow>
   (embed_error + vector list) \<times> OllamaClient \<times> 'w" where
  "embedFlat_loop server maxBatchChars batch [] c w =
     (if batch = [] then (Inr [], c, w) else doEmbed server batch c w)"
| "embedFlat_loop server maxBatchChars batch (t # ts) c w =
     (if chars batch + int (length t) > maxBatchChars \<and> batch \<noteq> [] then
        (case doEmbed server batch c w of
           (Inl e, c', w') \<Rightarrow> (Inl e, c', w')
         | (Inr vecs, c', w') \<Rightarrow>
             (case embedFlat_loop server maxBatchChars [t] ts c' w' of
                (Inl e, r) \<Rightarrow> (Inl e, r)
              | (Inr more_vecs, r) \<Rightarrow> (Inr (vecs @ more_vecs), r)))
      else embedFlat_loop server maxBatchChars (batch @ [t]) ts c w)"

definition embedFlat ::
  "'w embed_server \<Rightarrow> string list \<Rightarrow> int \<Rightarrow> OllamaClient \<Rightarrow> 'w \<Rightarrow>
   (embed_error + vector list) \<times> OllamaClient \<times> 'w" where
  "embedFlat server texts maxBatchChars c w =
     embedFlat_loop server (if maxBatchChars \<le> 0 then MaxInputChars c else maxBatchChars) [] texts c w"

section \<open>Batches of texts\<close>

definition text_parts :: "int \<Rightarrow> string \<Rightarrow> string list" where
  "text_parts maxChars t = (if int (length t) \<le> maxChars then [t] else splitTextAtLines t maxChars)"

text \<open>The spans \<open>(start, count)\<close> of the texts in the flat list, whose next index is \<open>start\<close>.\<close>

fun text_spans :: "int \<Rightarrow> nat \<Rightarrow> string list \<Rightarrow> (nat \<times> nat) list" where
  "text_spans maxChars start [] = []"
| "text_spans maxChars start (t # ts) =
     (let n = length (text_parts maxChars t) in (start, n) # text_spans maxChars (start + n) ts)"

definition flat_texts :: "int \<Rightarrow> string list \<Rightarrow> string list" where
  "flat_texts maxChars texts = concat (map (text_parts maxChars) texts)"

definition span_vector :: "vector list \<Rightarrow> nat \<times> nat \<Rightarrow> vector option" where
  "span_vector allVecs m =
     (case m of (start, n) \<Rightarrow>
        if length allVecs < start + n then None
        else if n = 1 then Some (allVecs ! start)
        else averageVectors (slice allVecs start (start + n)))"

definition reassemble :: "vector list \<Rightarrow> (nat \<times> nat) list \<Rightarrow> vector list option" where
  "reassemble allVecs spans = those (map (span_vector allVecs) spans)"

definition next_max_chars :: "int \<Rightarrow> int" where
  "next_max_chars maxChars = max (go_quot maxChars 2) minAdaptiveMaxInputChars"

text \<open>The adaptive loop with \<open>attempts_left\<close> attempts to go; it starts with five.\<close>

fun embed_attempts ::
  "'w embed_server \<Rightarrow> string list \<Rightarrow> nat \<Rightarrow> int \<Rightarrow> embed_error option \<Rightarrow> OllamaClient \<Rightarrow> 'w \<Rightarrow>
   vector list embed_result \<times> OllamaClient \<times> 'w" where
  "embed_attempts server texts 0 maxChars lastErr c w =
     (Some (Inl (OverflowAfter (int maxAdaptiveEmbedAttempts) maxChars lastErr)), c, w)"
| "embed_attempts server texts (Suc attempts_left) maxChars lastErr c w =
     (case embedFlat server (flat_texts maxChars texts) maxChars c w of
        (Inr allVecs, c', w') \<Rightarrow>
          (map_option Inr (reassemble allVecs (text_spans maxChars 0 texts)), c', w')
      | (Inl e, c', w') \<Rightarrow>
          if \<not> isContextOverflowError e then (Some (Inl e), c', w')
          else let next = next_max_chars maxChars
               in if next \<ge> maxChars
                  then (Some (Inl (OverflowAfter (int (maxAdaptiveEmbedAttempts - attempts_left)) maxChars (Some e))), c', w')
                  else embed_attempts server texts attempts_left next (Some e) (SetMaxInputChars next c') w')"

definition EmbedBatch ::
  "'w embed_server \<Rightarrow> string list \<Rightarrow> OllamaClient \<Rightarrow> 'w \<Rightarrow> vector list embed_result \<times> OllamaClient \<times> 'w" where
  "EmbedBatch server texts c w =
     (if texts = [] then (Some (Inr []), c, w)
      else embed_attempts server texts maxAdaptiveEmbedAttempts (MaxInputChars c) None c w)"

definition Embed ::
  "'w embed_server \<Rightarrow> string \<Rightarrow> OllamaClient \<Rightarrow> 'w \<Rightarrow> vector embed_result \<times> OllamaClient \<times> 'w" where
  "Embed server text c w =
     (case EmbedBatch server [text] c w of
        (None, r) \<Rightarrow> (None, r)
      | (Some (Inl e), r) \<Rightarrow> (Some (Inl e), r)
      | (Some (Inr results), r) \<Rightarrow>
          (Some (if results = [] then Inl EmptyEmbeddings else Inr (hd results)), r))"

definition DetectDimension ::
  "'w embed_server \<Rightarrow> OllamaClient \<Rightarrow> 'w \<Rightarrow> int embed_result \<times> OllamaClient \<times> 'w" where
  "DetectDimension server c w =
     (case Embed server ''dimension probe'' c w of
        (None, r) \<Rightarrow> (None, r)
      | (Some (Inl e), r) \<Rightarrow> (Some (Inl (DetectDimensionFailed e)), r)
      | (Some (Inr vec), r) \<Rightarrow> (Some (Inr (int (length vec))), r))"

text \<open>
  \<open>/api/show\<close>: the entries of \<open>model_info\<close> in the order of the map's iteration, a number as its
  \<open>float64\<close>, any other value as \<open>None\<close>.
\<close>

definition context_length_of :: "(string \<times> rat option) list \<Rightarrow> int option" where
  "context_length_of model_info =
     (case filter (\<lambda>(key, v). has_suffix key ''.context_length'' \<and> v \<noteq> None) model_info of
        (key, Some v) # _ \<Rightarrow> Some (f64_to_int v)
      | _ \<Rightarrow> None)"

definition DetectContextLength ::
  "('w \<Rightarrow> (string \<times> rat option) list http_reply \<times> 'w) \<Rightarrow> OllamaClient \<Rightarrow> 'w \<Rightarrow>
   (embed_error + int) \<times> OllamaClient \<times> 'w" where
  "DetectContextLength show_server c w =
     (case show_server w of
        (NoReply e, w') \<Rightarrow> (Inl (RequestFailed e), c, w')
      | (Reply status body decoded, w') \<Rightarrow>
          if status \<noteq> 200 then (Inl (BadStatus status body), c, w')
          else (case decoded of
                  Inl e \<Rightarrow> (Inl (DecodeFailed e), c, w')
                | Inr model_info \<Rightarrow>
                    (case context_length_of model_info of
                       None \<Rightarrow> (Inl NoContextLength, c, w')
                     | Some tokens \<Rightarrow> (Inr tokens, SetMaxInputChars tokens c, w'))))"

section \<open>The provider interface\<close>

text \<open>The operations of an embedding provider over its state; detecting the dimension is optional.\<close>

record 'e Provider =
  pr_Embed :: "string \<Rightarrow> 'e \<Rightarrow> vector embed_result \<times> 'e"
  pr_EmbedBatch :: "string list \<Rightarrow> 'e \<Rightarrow> vector list embed_result \<times> 'e"
  pr_Dimension :: "'e \<Rightarrow> int"
  pr_DetectDimension :: "('e \<Rightarrow> int embed_result \<times> 'e) option"

definition ollama_provider :: "'w embed_server \<Rightarrow> (OllamaClient \<times> 'w) Provider" where
  "ollama_provider server =
     \<lparr>pr_Embed = (\<lambda>t (c, w). Embed server t c w),
      pr_EmbedBatch = (\<lambda>ts (c, w). EmbedBatch server ts c w),
      pr_Dimension = (\<lambda>(c, w). oc_dimension c),
      pr_DetectDimension = Some (\<lambda>(c, w). DetectDimension server c w)\<rparr>"

section \<open>Pieces of a text\<close>

text \<open>Induction along the loop: the last piece, or one cut and the rest.\<close>

lemma split_parts_induct [consumes 1, case_names fits cut]:
  assumes m: "0 < m"
    and e: "\<And>t. length t \<le> m \<Longrightarrow> Q t"
    and c: "\<And>t. m < length t \<Longrightarrow> Q (drop (cut_at m t) t) \<Longrightarrow> Q t"
  shows "Q t"
proof (induction t rule: measure_induct_rule [where f = length])
  case (less t)
  show ?case
  proof (cases "length t \<le> m")
    case True
    then show ?thesis by (rule e)
  next
    case False
    then have m': "m < length t" by simp
    then have "length (drop (cut_at m t) t) < length t" using cut_at_bounds [OF m, of t] by auto
    then have "Q (drop (cut_at m t) t)" by (rule less)
    with m' show ?thesis by (rule c)
  qed
qed

lemma split_parts_concat:
  assumes m: "0 < m"
  shows "concat (split_parts m t) = t"
  using m by (induction t rule: split_parts_induct [OF m]) (simp_all add: split_parts_end split_parts_step)

lemma split_parts_bound:
  assumes m: "0 < m"
  shows "\<forall>p \<in> set (split_parts m t). p \<noteq> [] \<and> length p \<le> m"
proof (induction t rule: split_parts_induct [OF m])
  case (1 t)
  then show ?case by (simp add: split_parts_end)
next
  case (2 t)
  have "take (cut_at m t) t \<noteq> [] \<and> length (take (cut_at m t) t) \<le> m"
    using 2(1) cut_at_bounds [OF m, of t] by auto
  with 2 m show ?case by (simp add: split_parts_step)
qed

lemma line_cut_last:
  assumes "newline \<in> set s"
  shows "last (take (line_cut s) s) = newline"
proof -
  define r where "r = dropWhile (\<lambda>c. c \<noteq> newline) (rev s)"
  have ne: "r \<noteq> []" using assms by (auto simp: r_def dropWhile_eq_Nil_conv)
  have hd: "hd r = newline" using hd_dropWhile [of "\<lambda>c. c \<noteq> newline" "rev s"] ne by (simp add: r_def)
  define a where "a = takeWhile (\<lambda>c. c \<noteq> newline) (rev s)"
  have "rev s = a @ r" by (simp add: r_def a_def)
  then have "s = rev r @ rev a" by (metis rev_append rev_rev_ident)
  then have "take (length r) s = rev r" by simp
  then show ?thesis using hd ne by (simp add: line_cut_def r_def [symmetric] last_rev)
qed

lemma cut_at_break:
  assumes "m < length t"
  shows "last (take (cut_at m t) t) = newline \<or>
    length (take (cut_at m t) t) = m \<and> newline \<notin> set (take (cut_at m t) t)"
proof (cases "newline \<in> set (take m t)")
  case True
  then have "take (cut_at m t) t = take (line_cut (take m t)) (take m t)"
    using line_cut_pos [OF True] by (simp add: cut_at_def min_absorb1)
  then show ?thesis using line_cut_last [OF True] by simp
next
  case False
  then show ?thesis using assms by (simp add: cut_at_def)
qed

lemma split_parts_breaks:
  assumes m: "0 < m"
  shows "\<forall>p \<in> set (butlast (split_parts m t)). last p = newline \<or> length p = m \<and> newline \<notin> set p"
proof (induction t rule: split_parts_induct [OF m])
  case (1 t)
  then show ?case by (simp add: split_parts_end)
next
  case (2 t)
  then show ?case using cut_at_break [OF 2(1)] by (simp only: split_parts_step [OF m 2(1)]) auto
qed

lemma split_parts_two:
  assumes m: "0 < m" and t: "m < length t"
  shows "2 \<le> length (split_parts m t)"
proof -
  have "drop (cut_at m t) t \<noteq> []" using t cut_at_bounds [OF m, of t] by auto
  then have "split_parts m (drop (cut_at m t) t) \<noteq> []"
    using split_parts_concat [OF m, of "drop (cut_at m t) t"] by auto
  then show ?thesis using m t by (cases "split_parts m (drop (cut_at m t) t)") (auto simp: split_parts_step)
qed

lemma text_parts_bound: "0 < m \<Longrightarrow> p \<in> set (text_parts m t) \<Longrightarrow> int (length p) \<le> m"
  using split_parts_bound [of "nat m" t]
  by (fastforce simp: text_parts_def splitTextAtLines_def split: if_splits)

lemma text_parts_single:
  assumes "0 < m"
  shows "length (text_parts m t) = 1 \<longleftrightarrow> int (length t) \<le> m"
proof (cases "int (length t) \<le> m")
  case False
  then have "nat m < length t" using assms by linarith
  with assms False split_parts_two [of "nat m" t] show ?thesis
    by (auto simp: text_parts_def splitTextAtLines_def)
qed (simp add: text_parts_def)

section \<open>Servers that answer every text\<close>

text \<open>
  The contract that the documentation of \<open>/api/embed\<close> states: a successful reply holds one vector
  per input, in order; the vectors of a model all have the same dimension. A server may reject or
  fail any request.
\<close>

locale answering_server =
  fixes server :: "'w embed_server" and vec_of :: "string \<Rightarrow> vector" and dim :: nat
  assumes answers: "server ts w = (Reply 200 body (Inr vecs), w') \<Longrightarrow> vecs = map vec_of ts"
    and dims: "length (vec_of t) = dim"
begin

lemma doEmbed_vectors: "doEmbed server ts c w = (Inr vecs, r) \<Longrightarrow> vecs = map vec_of ts"
  using answers [of ts w]
  by (auto simp: doEmbed_def split: prod.splits http_reply.splits if_splits sum.splits)

lemma embedFlat_loop_vectors:
  "embedFlat_loop server m batch ts c w = (Inr vecs, r) \<Longrightarrow> vecs = map vec_of (batch @ ts)"
proof (induction ts arbitrary: batch c w vecs r)
  case Nil
  then show ?case by (auto dest: doEmbed_vectors split: if_splits)
next
  case (Cons t ts)
  from Cons.prems show ?case
    by (cases r) (auto dest!: doEmbed_vectors Cons.IH split: if_splits prod.splits sum.splits)
qed

lemma embedFlat_vectors: "embedFlat server ts m c w = (Inr vecs, r) \<Longrightarrow> vecs = map vec_of ts"
  unfolding embedFlat_def by (drule embedFlat_loop_vectors) simp

end

text \<open>The vector of a text: its own, or the mean of its parts' vectors.\<close>

definition text_vector :: "(string \<Rightarrow> vector) \<Rightarrow> int \<Rightarrow> string \<Rightarrow> vector" where
  "text_vector vec_of maxChars t =
     (if int (length t) \<le> maxChars then vec_of t
      else the (averageVectors (map vec_of (splitTextAtLines t maxChars))))"

lemma add_into_total: "length xs \<le> length avg \<Longrightarrow> \<exists>r. add_into avg xs = Some r \<and> length r = length avg"
  by (induction avg xs rule: add_into.induct) auto

lemma add_all_total:
  "\<forall>v \<in> set vs. length v \<le> length avg \<Longrightarrow> \<exists>r. add_all avg vs = Some r \<and> length r = length avg"
proof (induction vs arbitrary: avg)
  case (Cons v vs)
  then obtain avg' where "add_into avg v = Some avg'" "length avg' = length avg"
    using add_into_total [of v avg] by auto
  with Cons.IH [of avg'] Cons.prems show ?case by simp
qed simp

lemma averageVectors_total:
  assumes "\<forall>v \<in> set vecs. length v = d" "vecs \<noteq> []"
  shows "\<exists>r. averageVectors vecs = Some r \<and> length r = d"
proof -
  have "length (hd vecs) = d" using assms by simp
  moreover obtain r where "add_all (replicate d 0) vecs = Some r" "length r = d"
    using add_all_total [of vecs "replicate d 0"] assms(1) by auto
  ultimately show ?thesis using assms(2) by (simp add: averageVectors_def Let_def)
qed

context answering_server
begin

lemma reassemble_texts:
  assumes m: "0 < m"
  shows "those (map (span_vector (pre @ map vec_of (flat_texts m texts) @ post)) (text_spans m (length pre) texts)) =
    Some (map (text_vector vec_of m) texts)"
proof (induction texts arbitrary: pre)
  case (Cons t texts)
  define parts rest where "parts = text_parts m t" and "rest = map vec_of (flat_texts m texts)"
  have flat: "map vec_of (flat_texts m (t # texts)) = map vec_of parts @ rest"
    by (simp add: flat_texts_def parts_def rest_def)
  have slice: "slice (pre @ map vec_of parts @ rest @ post) (length pre) (length pre + length parts) =
      map vec_of parts"
    by (simp add: slice_def)
  have "span_vector (pre @ map vec_of parts @ rest @ post) (length pre, length parts) =
      Some (text_vector vec_of m t)"
  proof (cases "int (length t) \<le> m")
    case True
    then have "parts = [t]" by (simp add: parts_def text_parts_def)
    with True show ?thesis by (simp add: span_vector_def text_vector_def)
  next
    case False
    have parts: "parts = splitTextAtLines t m" "length parts \<noteq> 1"
      using False text_parts_single [OF m, of t] by (auto simp: parts_def text_parts_def)
    have "nat m < length t" using False m by linarith
    then have "parts \<noteq> []"
      using False m parts split_parts_two [of "nat m" t] by (auto simp: splitTextAtLines_def)
    then obtain r where "averageVectors (map vec_of parts) = Some r"
      using averageVectors_total [of "map vec_of parts" dim] dims by auto
    with False parts(2) slice show ?thesis
      by (simp add: span_vector_def text_vector_def parts(1) [symmetric])
  qed
  with Cons.IH [of "pre @ map vec_of parts"] show ?case
    by (simp add: flat Let_def parts_def [symmetric] rest_def [symmetric])
qed simp

lemma reassemble_flat:
  "0 < m \<Longrightarrow> reassemble (map vec_of (flat_texts m texts)) (text_spans m 0 texts) =
    Some (map (text_vector vec_of m) texts)"
  using reassemble_texts [of m "[]" texts "[]"] by (simp add: reassemble_def)

lemma embed_attempts_vectors:
  assumes "embed_attempts server texts n m le c w = (res, r)" "0 < m"
  shows "case res of None \<Rightarrow> False | Some (Inl e) \<Rightarrow> True
    | Some (Inr vecs) \<Rightarrow> \<exists>M>0. vecs = map (text_vector vec_of M) texts"
  using assms
proof (induction n arbitrary: m le c w)
  case (Suc n)
  obtain fr c' w' where fr: "embedFlat server (flat_texts m texts) m c w = (fr, c', w')"
    by (metis prod_cases3)
  show ?case
  proof (cases fr)
    case (Inr vecs)
    then have "vecs = map vec_of (flat_texts m texts)" using fr embedFlat_vectors by blast
    then show ?thesis using Suc.prems fr Inr reassemble_flat by auto
  next
    case (Inl e)
    have "0 < next_max_chars m" by (simp add: next_max_chars_def minAdaptiveMaxInputChars_def)
    then show ?thesis
      using Suc.prems fr Inl Suc.IH [of "next_max_chars m" "Some e" "SetMaxInputChars (next_max_chars m) c'" w']
      by (auto simp: Let_def split: if_splits)
  qed
qed auto

lemma MaxInputChars_pos: "0 < MaxInputChars c"
  by (simp add: MaxInputChars_def defaultMaxInputChars_def)

lemma EmbedBatch_result:
  assumes "EmbedBatch server texts c w = (res, r)"
  shows "case res of None \<Rightarrow> False | Some (Inl e) \<Rightarrow> True
    | Some (Inr vecs) \<Rightarrow> \<exists>M>0. vecs = map (text_vector vec_of M) texts"
proof (cases "texts = []")
  case True
  then show ?thesis using assms by (auto simp: EmbedBatch_def gt_ex)
next
  case False
  then show ?thesis
    using assms embed_attempts_vectors [OF _ MaxInputChars_pos] by (simp add: EmbedBatch_def)
qed

end

section \<open>Servers with a context limit\<close>

text \<open>
  A server of limited context: it rejects a request with an input longer than \<open>limit\<close> and answers
  every other. Its state is the log of its requests.
\<close>

definition limit_server :: "(string \<Rightarrow> vector) \<Rightarrow> nat \<Rightarrow> string list list embed_server" where
  "limit_server vec_of limit ts reqs =
     (if list_ex (\<lambda>t. limit < length t) ts then Reply 400 overflow_text (Inl []) else Reply 200 [] (Inr (map vec_of ts)),
      reqs @ [ts])"

lemma limit_server_answering:
  "(\<And>t. length (vec_of t) = d) \<Longrightarrow> answering_server (limit_server vec_of limit) vec_of d"
  by unfold_locales (auto simp: limit_server_def split: if_splits)

text \<open>The vector of a text's length, of dimension one, as a concrete model.\<close>

definition length_vec :: "string \<Rightarrow> vector" where
  "length_vec t = [of_nat (length t)]"

interpretation limited: answering_server "limit_server length_vec limit" length_vec 1 for limit
  by (rule limit_server_answering) (simp add: length_vec_def)

lemma overflow_text_seen: "contains (to_lower overflow_text) overflow_text"
  by code_simp

lemma doEmbed_rejects:
  "list_ex (\<lambda>t. limit < length t) ts \<Longrightarrow>
   doEmbed (limit_server vec_of limit) ts c reqs = (Inl (ContextOverflow 400 overflow_text), c, reqs @ [ts])"
  using overflow_text_seen by (simp add: doEmbed_def limit_server_def)

lemma doEmbed_accepts:
  "\<not> list_ex (\<lambda>t. limit < length t) ts \<Longrightarrow>
   \<exists>c'. doEmbed (limit_server vec_of limit) ts c reqs = (Inr (map vec_of ts), c', reqs @ [ts]) \<and>
     oc_maxInputChars c' = oc_maxInputChars c"
  by (simp add: doEmbed_def limit_server_def)

lemma embedFlat_loop_accepts:
  assumes "\<not> list_ex (\<lambda>t. limit < length t) (batch @ ts)"
  shows "\<exists>c' reqs'. embedFlat_loop (limit_server vec_of limit) m batch ts c reqs =
      (Inr (map vec_of (batch @ ts)), c', reqs')"
  using assms
proof (induction ts arbitrary: batch c reqs)
  case Nil
  then show ?case
    using doEmbed_accepts [of limit batch vec_of c reqs] by (cases "batch = []") auto
next
  case (Cons t ts)
  have "\<not> list_ex (\<lambda>t. limit < length t) batch" using Cons.prems by simp
  then obtain c1 where one: "doEmbed (limit_server vec_of limit) batch c reqs = (Inr (map vec_of batch), c1, reqs @ [batch])"
    using doEmbed_accepts by blast
  show ?case
    using Cons.prems one Cons.IH [of "[t]" c1 "reqs @ [batch]"] Cons.IH [of "batch @ [t]" c reqs] by fastforce
qed

lemma embedFlat_loop_rejects:
  assumes "list_ex (\<lambda>t. limit < length t) (batch @ ts)"
  shows "\<exists>c' reqs'. embedFlat_loop (limit_server vec_of limit) m batch ts c reqs =
      (Inl (ContextOverflow 400 overflow_text), c', reqs')"
  using assms
proof (induction ts arbitrary: batch c reqs)
  case Nil
  then show ?case by (cases "batch = []") (auto simp: doEmbed_rejects)
next
  case (Cons t ts)
  show ?case
  proof (cases "list_ex (\<lambda>t. limit < length t) batch")
    case True
    then show ?thesis
      using Cons.IH [of "batch @ [t]" c reqs] by (auto simp: doEmbed_rejects)
  next
    case False
    then obtain c1 where one: "doEmbed (limit_server vec_of limit) batch c reqs = (Inr (map vec_of batch), c1, reqs @ [batch])"
      using doEmbed_accepts by blast
    show ?thesis
      using Cons.prems False one Cons.IH [of "[t]" c1 "reqs @ [batch]"] Cons.IH [of "batch @ [t]" c reqs]
      by fastforce
  qed
qed

text \<open>The requests of one pass: in order, none empty, none over the limit but single texts.\<close>

lemma embedFlat_loop_requests:
  assumes "embedFlat_loop (limit_server vec_of limit) m batch ts c reqs = (Inr vecs, c', reqs')"
    and "chars batch \<le> m \<or> length batch \<le> 1"
  shows "\<exists>bs. reqs' = reqs @ bs \<and> concat bs = batch @ ts \<and>
    (\<forall>b \<in> set bs. b \<noteq> [] \<and> (chars b \<le> m \<or> length b = 1))"
  using assms
proof (induction ts arbitrary: batch c reqs vecs)
  case Nil
  show ?case
  proof (cases "batch = []")
    case True
    then show ?thesis using Nil by (intro exI [of _ "[]"]) auto
  next
    case False
    then have "length batch = 1 \<or> chars batch \<le> m" using Nil.prems(2) by (cases batch) auto
    moreover have "reqs' = reqs @ [batch]"
      using Nil.prems(1) False
      by (cases "list_ex (\<lambda>t. limit < length t) batch")
        (auto simp: doEmbed_rejects dest: doEmbed_accepts [of limit batch vec_of c reqs])
    ultimately show ?thesis using False by (intro exI [of _ "[batch]"]) auto
  qed
next
  case (Cons t ts)
  show ?case
  proof (cases "chars batch + int (length t) > m \<and> batch \<noteq> []")
    case True
    then obtain vecs1 c1 vecs2 where one: "doEmbed (limit_server vec_of limit) batch c reqs = (Inr vecs1, c1, reqs @ [batch])"
      and two: "embedFlat_loop (limit_server vec_of limit) m [t] ts c1 (reqs @ [batch]) = (Inr vecs2, c', reqs')"
      using Cons.prems(1)
      by (cases "list_ex (\<lambda>t. limit < length t) batch")
        (auto simp: doEmbed_rejects split: prod.splits sum.splits dest: doEmbed_accepts [of limit batch vec_of c reqs])
    obtain bs where "reqs' = (reqs @ [batch]) @ bs" "concat bs = [t] @ ts"
      "\<forall>b \<in> set bs. b \<noteq> [] \<and> (chars b \<le> m \<or> length b = 1)"
      using Cons.IH [OF two] by auto
    moreover have "chars batch \<le> m \<or> length batch = 1" using Cons.prems(2) True by (cases batch) auto
    ultimately show ?thesis using True by (intro exI [of _ "batch # bs"]) auto
  next
    case False
    then have "chars (batch @ [t]) \<le> m \<or> length (batch @ [t]) \<le> 1" by (auto simp: chars_def)
    moreover have "embedFlat_loop (limit_server vec_of limit) m (batch @ [t]) ts c reqs = (Inr vecs, c', reqs')"
      using Cons.prems(1) False by auto
    ultimately show ?thesis using Cons.IH by fastforce
  qed
qed

section \<open>The adaptive loop on a server of limited context\<close>

lemma attempt_accepts:
  assumes dims: "\<And>t. length (vec_of t) = d" and m: "0 < m"
    and fits: "\<not> list_ex (\<lambda>t. limit < length t) (flat_texts m texts)"
  shows "\<exists>r. embed_attempts (limit_server vec_of limit) texts (Suc n) m le c reqs =
    (Some (Inr (map (text_vector vec_of m) texts)), r)"
proof -
  obtain r where "embedFlat (limit_server vec_of limit) (flat_texts m texts) m c reqs =
      (Inr (map vec_of (flat_texts m texts)), r)"
    using embedFlat_loop_accepts [of limit "[]" "flat_texts m texts" vec_of m c reqs] fits m
    by (auto simp: embedFlat_def)
  then show ?thesis
    using answering_server.reassemble_flat [OF limit_server_answering [of vec_of d, OF dims] m]
    by (cases r) simp
qed

lemma attempt_retries:
  assumes m: "0 < m" "next_max_chars m < m"
    and over: "list_ex (\<lambda>t. limit < length t) (flat_texts m texts)"
  shows "\<exists>c' reqs'. embed_attempts (limit_server vec_of limit) texts (Suc n) m le c reqs =
    embed_attempts (limit_server vec_of limit) texts n (next_max_chars m)
      (Some (ContextOverflow 400 overflow_text)) (SetMaxInputChars (next_max_chars m) c') reqs'"
proof -
  obtain c' reqs' where "embedFlat (limit_server vec_of limit) (flat_texts m texts) m c reqs =
      (Inl (ContextOverflow 400 overflow_text), c', reqs')"
    using embedFlat_loop_rejects [of limit "[]" "flat_texts m texts" vec_of m c reqs] over m
    by (auto simp: embedFlat_def)
  then show ?thesis using m by (auto simp: Let_def)
qed

lemma flat_texts_fit: "0 < m \<Longrightarrow> m \<le> int limit \<Longrightarrow> \<not> list_ex (\<lambda>t. limit < length t) (flat_texts m texts)"
  using text_parts_bound [of m] by (fastforce simp: flat_texts_def list_ex_iff)

text \<open>A text without newlines is cut into full windows, so some part is over every limit below them.\<close>

lemma flat_texts_over:
  assumes t: "t \<in> set texts" "newline \<notin> set t" "limit < length t" and m: "int limit < m"
  shows "list_ex (\<lambda>t. limit < length t) (flat_texts m texts)"
proof -
  have "\<exists>p \<in> set (text_parts m t). limit < length p"
  proof (cases "int (length t) \<le> m")
    case True
    then show ?thesis using t by (simp add: text_parts_def)
  next
    case False
    have m0: "0 < nat m" and len: "nat m < length t" using False m by linarith+
    have "newline \<notin> set (take (nat m) t)" using t(2) by (meson in_set_takeD)
    then have "cut_at (nat m) t = nat m" by (simp add: cut_at_def Let_def)
    then have "take (nat m) t \<in> set (split_parts (nat m) t)"
      using split_parts_step [OF m0 len] by simp
    moreover have "limit < length (take (nat m) t)" using m len by auto
    moreover have "text_parts m t = split_parts (nat m) t"
      using False m by (auto simp: text_parts_def splitTextAtLines_def)
    ultimately show ?thesis by (metis)
  qed
  then show ?thesis using t(1) by (auto simp: flat_texts_def list_ex_iff)
qed

lemma next_max_chars_halves:
  "next_max_chars 16000 = 8000" "next_max_chars 8000 = 4000" "next_max_chars 4000 = 2000"
  "next_max_chars 2000 = 1000" "next_max_chars 1000 = 512"
  by (simp_all add: next_max_chars_def go_quot_pos minAdaptiveMaxInputChars_def)

text \<open>One attempt either ends the loop or moves on to the next limit.\<close>

definition attempts_reach :: "(string \<Rightarrow> vector) \<Rightarrow> nat \<Rightarrow> string list \<Rightarrow> nat \<Rightarrow> int \<Rightarrow> bool" where
  "attempts_reach vec_of limit texts n m \<longleftrightarrow>
     (\<forall>le c reqs. \<exists>M \<ge> 1000. \<exists>r. embed_attempts (limit_server vec_of limit) texts n m le c reqs =
        (Some (Inr (map (text_vector vec_of M) texts)), r))"

lemma attempt_step:
  assumes dims: "\<And>t. length (vec_of t) = d" and m: "next_max_chars m < m" "1000 \<le> m"
    and IH: "attempts_reach vec_of limit texts n (next_max_chars m)"
  shows "attempts_reach vec_of limit texts (Suc n) m"
  unfolding attempts_reach_def
proof (intro allI)
  fix le c reqs
  have m0: "0 < m" using m by simp
  show "\<exists>M \<ge> 1000. \<exists>r. embed_attempts (limit_server vec_of limit) texts (Suc n) m le c reqs =
    (Some (Inr (map (text_vector vec_of M) texts)), r)"
  proof (cases "list_ex (\<lambda>t. limit < length t) (flat_texts m texts)")
    case True
    then show ?thesis
      using attempt_retries [OF m0 m(1) True, of vec_of n le c reqs] IH unfolding attempts_reach_def by metis
  next
    case False
    then show ?thesis using attempt_accepts [of vec_of d, OF dims m0 False] m(2) by blast
  qed
qed

lemma attempts_succeed:
  assumes dims: "\<And>t. length (vec_of t) = d" and limit: "1000 \<le> limit"
  shows "attempts_reach vec_of limit texts 5 16000"
proof -
  have fit: "\<not> list_ex (\<lambda>t. limit < length t) (flat_texts 1000 texts)"
    using limit by (intro flat_texts_fit) simp_all
  have "attempts_reach vec_of limit texts (Suc 0) 1000"
    using attempt_accepts [of vec_of d, OF dims _ fit, where n = 0] unfolding attempts_reach_def by fastforce
  then have "attempts_reach vec_of limit texts (Suc (Suc 0)) 2000"
    by - (rule attempt_step [of vec_of d, OF dims], simp_all add: next_max_chars_halves)
  then have "attempts_reach vec_of limit texts (Suc (Suc (Suc 0))) 4000"
    by - (rule attempt_step [of vec_of d, OF dims], simp_all add: next_max_chars_halves)
  then have "attempts_reach vec_of limit texts (Suc (Suc (Suc (Suc 0)))) 8000"
    by - (rule attempt_step [of vec_of d, OF dims], simp_all add: next_max_chars_halves)
  then have "attempts_reach vec_of limit texts (Suc (Suc (Suc (Suc (Suc 0))))) 16000"
    by - (rule attempt_step [of vec_of d, OF dims], simp_all add: next_max_chars_halves)
  then show ?thesis by (simp add: attempts_reach_def numeral_eq_Suc)
qed

text \<open>When every limit of the sequence is too large, the loop drains its attempts.\<close>

definition attempts_drain :: "(string \<Rightarrow> vector) \<Rightarrow> nat \<Rightarrow> string list \<Rightarrow> nat \<Rightarrow> int \<Rightarrow> bool" where
  "attempts_drain vec_of limit texts n m \<longleftrightarrow>
     (\<forall>c reqs. \<exists>c' reqs'. embed_attempts (limit_server vec_of limit) texts n m
          (Some (ContextOverflow 400 overflow_text)) (SetMaxInputChars m c) reqs =
        (Some (Inl (OverflowAfter 5 512 (Some (ContextOverflow 400 overflow_text)))), SetMaxInputChars 512 c', reqs'))"

lemma attempt_drains:
  assumes t: "t \<in> set texts" "newline \<notin> set t" "limit < length t" and limit: "limit < 1000"
    and m: "next_max_chars m < m" "1000 \<le> m" and rest: "attempts_drain vec_of limit texts n (next_max_chars m)"
  shows "\<exists>c' reqs'. embed_attempts (limit_server vec_of limit) texts (Suc n) m le c reqs =
    (Some (Inl (OverflowAfter 5 512 (Some (ContextOverflow 400 overflow_text)))), SetMaxInputChars 512 c', reqs')"
proof -
  have "list_ex (\<lambda>t. limit < length t) (flat_texts m texts)"
    using flat_texts_over [OF t] limit m by simp
  from attempt_retries [OF _ m(1) this, of vec_of n le c reqs] m(2) rest show ?thesis
    unfolding attempts_drain_def by fastforce
qed

lemma attempts_fail:
  assumes t: "t \<in> set texts" "newline \<notin> set t" "limit < length t" and limit: "limit < 1000"
  shows "\<exists>c' reqs'. embed_attempts (limit_server vec_of limit) texts 5 16000 le c reqs =
    (Some (Inl (OverflowAfter 5 512 (Some (ContextOverflow 400 overflow_text)))), SetMaxInputChars 512 c', reqs')"
proof -
  note step = attempt_drains [OF t limit]
  have "attempts_drain vec_of limit texts 0 512"
    by (auto simp: attempts_drain_def maxAdaptiveEmbedAttempts_def)
  then have "attempts_drain vec_of limit texts (Suc 0) 1000"
    by - (subst attempts_drain_def, intro allI, rule step, simp_all add: next_max_chars_halves)
  then have "attempts_drain vec_of limit texts (Suc (Suc 0)) 2000"
    by - (subst attempts_drain_def, intro allI, rule step, simp_all add: next_max_chars_halves)
  then have "attempts_drain vec_of limit texts (Suc (Suc (Suc 0))) 4000"
    by - (subst attempts_drain_def, intro allI, rule step, simp_all add: next_max_chars_halves)
  then have "attempts_drain vec_of limit texts (Suc (Suc (Suc (Suc 0)))) 8000"
    by - (subst attempts_drain_def, intro allI, rule step, simp_all add: next_max_chars_halves)
  then have "\<exists>c' reqs'. embed_attempts (limit_server vec_of limit) texts (Suc (Suc (Suc (Suc (Suc 0))))) 16000 le c reqs =
      (Some (Inl (OverflowAfter 5 512 (Some (ContextOverflow 400 overflow_text)))), SetMaxInputChars 512 c', reqs')"
    by - (rule step, simp_all add: next_max_chars_halves)
  then show ?thesis by (simp only: numeral_eq_Suc pred_numeral_simps BitM.simps numeral_One One_nat_def)
qed

section \<open>Properties\<close>

text \<open>
  Splitting an oversized text keeps every byte, in order; no piece is longer than the limit, and
  every piece but the last ends in a newline unless its whole window has none.
\<close>

theorem splitTextAtLines_parts:
  assumes "0 < maxChars"
  shows "concat (splitTextAtLines text maxChars) = text \<and>
    (\<forall>p \<in> set (splitTextAtLines text maxChars). int (length p) \<le> maxChars) \<and>
    (\<forall>p \<in> set (butlast (splitTextAtLines text maxChars)).
       last p = newline \<or> int (length p) = maxChars \<and> newline \<notin> set p)"
proof (cases "text = [] \<or> int (length text) \<le> maxChars")
  case True
  then show ?thesis using assms by (auto simp: splitTextAtLines_def)
next
  case False
  have m: "0 < nat maxChars" using assms by simp
  have len: "int n \<le> maxChars \<longleftrightarrow> n \<le> nat maxChars" "int n = maxChars \<longleftrightarrow> n = nat maxChars" for n
    using assms by auto
  show ?thesis
    using False assms split_parts_concat [OF m, of "text"] split_parts_bound [OF m, of "text"]
      split_parts_breaks [OF m, of "text"]
    by (simp add: splitTextAtLines_def len)
qed

theorem splitTextAtLines_parts_witness:
  "concat (splitTextAtLines ''abcdefg'' 3) = ''abcdefg'' \<and>
   list_all (\<lambda>p. int (length p) \<le> 3) (splitTextAtLines ''abcdefg'' 3)"
  using splitTextAtLines_parts [of 3 "''abcdefg''"] by (simp add: list_all_iff)

text \<open>
  C8. One vector per text. Against a server that answers every request that it accepts with one
  vector per input, all of the same dimension, \<open>EmbedBatch\<close> never panics, and a successful result
  holds for every text, in order, its own vector or, for a text over the limit in force, the mean of
  the vectors of its pieces. The server may reject or fail any request.
\<close>

theorem EmbedBatch_vectors:
  assumes "\<And>ts w body vecs w'. server ts w = (Reply 200 body (Inr vecs), w') \<Longrightarrow> vecs = map vec_of ts"
    and "\<And>t. length (vec_of t) = d"
    and "EmbedBatch server texts c w = (res, r)"
  shows "res \<noteq> None \<and> (\<forall>vecs. res = Some (Inr vecs) \<longrightarrow> (\<exists>M>0. vecs = map (text_vector vec_of M) texts))"
proof -
  have "answering_server server vec_of d" using assms(1,2) by (rule answering_server.intro)
  from answering_server.EmbedBatch_result [OF this assms(3)] show ?thesis
    by (auto split: option.splits sum.splits)
qed

lemma demo_batch:
  "EmbedBatch (limit_server length_vec 4) [''ab'', ''c''] (NewOllamaClient ''h'' ''m'' []) [] =
    (Some (Inr [[2], [1]]),
     (NewOllamaClient ''h'' ''m'' [])\<lparr>oc_dimension := 1\<rparr>, [[''ab'', ''c'']])"
  by code_simp

theorem EmbedBatch_vectors_witness:
  "\<exists>M>0. [[2], [1]] = map (text_vector length_vec M) [''ab'', ''c'']"
  using EmbedBatch_vectors [of "limit_server length_vec 4" length_vec 1, OF limited.answers _ demo_batch]
  by (auto simp: length_vec_def)

text \<open>
  Where the adaptive retries end. Against a server that rejects exactly the inputs longer than
  \<open>limit\<close>, a fresh client succeeds if \<open>limit\<close> is at least 1000. Below, a text without newlines that
  is over the limit fails after five attempts, the last at 1000 characters; the error and the client
  both say 512, the smallest limit allowed, but no request was made with it.
\<close>

theorem EmbedBatch_limit:
  assumes "\<And>t. length (vec_of t) = d" and "oc_maxInputChars c \<le> 0"
    and "t \<in> set texts" and "newline \<notin> set t" and "limit < length t"
  shows "if 1000 \<le> limit
    then \<exists>M \<ge> 1000. fst (EmbedBatch (limit_server vec_of limit) texts c []) =
        Some (Inr (map (text_vector vec_of M) texts))
    else fst (EmbedBatch (limit_server vec_of limit) texts c []) =
        Some (Inl (OverflowAfter 5 512 (Some (ContextOverflow 400 overflow_text)))) \<and>
      MaxInputChars (fst (snd (EmbedBatch (limit_server vec_of limit) texts c []))) = 512"
proof -
  have "texts \<noteq> []" using assms(3) by auto
  then have batch: "EmbedBatch (limit_server vec_of limit) texts c [] =
      embed_attempts (limit_server vec_of limit) texts 5 16000 None c []"
    using assms(2) by (simp add: EmbedBatch_def MaxInputChars_def defaultMaxInputChars_def maxAdaptiveEmbedAttempts_def)
  show ?thesis
  proof (cases "1000 \<le> limit")
    case True
    then show ?thesis
      using attempts_succeed [of vec_of d limit texts, OF assms(1)] unfolding batch attempts_reach_def
      by (metis fst_conv)
  next
    case False
    then show ?thesis
      using attempts_fail [OF assms(3-5), of vec_of None c "[]"] unfolding batch
      by (auto simp: MaxInputChars_def SetMaxInputChars_def)
  qed
qed

theorem EmbedBatch_limit_witness:
  "fst (EmbedBatch (limit_server length_vec 600) [replicate 700 (CHR ''x'')] (NewOllamaClient ''h'' ''m'' []) []) =
    Some (Inl (OverflowAfter 5 512 (Some (ContextOverflow 400 overflow_text))))"
  using EmbedBatch_limit [of length_vec 1 "NewOllamaClient ''h'' ''m'' []" "replicate 700 (CHR ''x'')"
      "[replicate 700 (CHR ''x'')]" 600]
  by (simp add: length_vec_def NewOllamaClient_def)

end
