(* ===== verification/VectorStore.thy ===== *)
theory VectorStore
  imports Embedding GoPath
begin

text \<open>
  \<open>pkg/vectorstore\<close>: the store of the index and its implementation on Milvus. The Milvus service and
  its SDK are a parameter \<open>C\<close>, the calls that the store makes, over a state of the service; each call
  may fail. \<open>sha256\<close> stands for the SHA-256 of a string in hexadecimal. The metadata travel as JSON text in a column of their own; a cell is
  represented by what \<open>json.Unmarshal\<close> makes of its text. The parameters of the vector index are
  constants that the SDK accepts, so the errors of their constructors do not occur.
\<close>

section \<open>The store's data and interface\<close>

record Document =
  doc_ID :: string
  doc_Content :: string
  doc_FilePath :: string
  doc_StartLine :: int
  doc_EndLine :: int
  doc_Language :: string
  doc_NodeType :: string
  doc_Metadata :: "(string \<times> string) list"

record SearchResult =
  sr_Document :: Document
  sr_Score :: rat

record IndexMetadata =
  im_Branch :: string
  im_CommitSHA :: string
  im_IgnoreFingerprint :: string
  im_IndexedAt :: int
  im_FileCount :: int
  im_ChunkCount :: int

type_synonym 's effect = "'s \<Rightarrow> go_error option \<times> 's"
type_synonym ('a, 's) query = "'s \<Rightarrow> (go_error + 'a) \<times> 's"

record 's Store =
  st_CreateCollection :: "string \<Rightarrow> int \<Rightarrow> 's effect"
  st_DropCollection :: "string \<Rightarrow> 's effect"
  st_CollectionExists :: "string \<Rightarrow> (bool, 's) query"
  st_Insert :: "string \<Rightarrow> Document list \<Rightarrow> vector list \<Rightarrow> 's effect"
  st_Search :: "string \<Rightarrow> vector \<Rightarrow> int \<Rightarrow> (string \<times> string) list \<Rightarrow> (SearchResult list, 's) query"
  st_SetMetadata :: "string \<Rightarrow> IndexMetadata \<Rightarrow> 's effect"
  st_GetMetadata :: "string \<Rightarrow> (IndexMetadata option, 's) query"

text \<open>\<open>if err := f(); err != nil { return wrap(err) }\<close>, and going on otherwise.\<close>

definition wrap_error :: "string \<Rightarrow> 's effect \<Rightarrow> 's effect" where
  "wrap_error msg f s = (case f s of (None, s') \<Rightarrow> (None, s') | (Some e, s') \<Rightarrow> (Some (msg @ '': '' @ e), s'))"

definition and_then :: "'s effect \<Rightarrow> 's effect \<Rightarrow> 's effect" where
  "and_then f g s = (case f s of (None, s') \<Rightarrow> g s' | (Some e, s') \<Rightarrow> (Some e, s'))"

section \<open>The Milvus client\<close>

datatype field_type = FieldVarChar int | FieldInt64 | FieldFloatVector int

record schema_field =
  fld_Name :: string
  fld_Type :: field_type
  fld_PrimaryKey :: bool

record schema =
  sch_CollectionName :: string
  sch_Fields :: "schema_field list"

datatype column =
    VarCharColumn string "string list"
  | JsonColumn string "(go_error + IndexMetadata) list"
  | Int64Column string "int list"
  | FloatVectorColumn string int "vector list"

record milvus_hits =
  mh_ResultCount :: nat
  mh_Fields :: "column list"
  mh_Scores :: "rat list"

record 'm milvus =
  mv_HasCollection :: "string \<Rightarrow> (bool, 'm) query"
  mv_CreateCollection :: "schema \<Rightarrow> 'm effect"
  mv_CreateIndex :: "string \<Rightarrow> string \<Rightarrow> int \<Rightarrow> 'm effect"
  mv_LoadCollection :: "string \<Rightarrow> 'm effect"
  mv_DropCollection :: "string \<Rightarrow> 'm effect"
  mv_Insert :: "string \<Rightarrow> column list \<Rightarrow> 'm effect"
  mv_Upsert :: "string \<Rightarrow> column list \<Rightarrow> 'm effect"
  mv_Query :: "string \<Rightarrow> string \<Rightarrow> string list \<Rightarrow> (column list, 'm) query"
  mv_Search :: "string \<Rightarrow> string \<Rightarrow> string list \<Rightarrow> vector \<Rightarrow> string \<Rightarrow> int \<Rightarrow> int \<Rightarrow> (milvus_hits list, 'm) query"

definition metadataCollectionSuffix :: string where "metadataCollectionSuffix = ''_meta''"
definition fieldID :: string where "fieldID = ''id''"
definition fieldContent :: string where "fieldContent = ''content''"
definition fieldFilePath :: string where "fieldFilePath = ''file_path''"
definition fieldStartLine :: string where "fieldStartLine = ''start_line''"
definition fieldEndLine :: string where "fieldEndLine = ''end_line''"
definition fieldLanguage :: string where "fieldLanguage = ''language''"
definition fieldNodeType :: string where "fieldNodeType = ''node_type''"
definition fieldVector :: string where "fieldVector = ''vector''"
definition fieldMetaKey :: string where "fieldMetaKey = ''key''"
definition fieldMetaValue :: string where "fieldMetaValue = ''value''"
definition fieldMetaVector :: string where "fieldMetaVector = ''meta_vector''"
definition metaVectorDimension :: int where "metaVectorDimension = 2"

section \<open>The store on Milvus\<close>

record MilvusStore =
  ms_address :: string
  ms_token :: string
  ms_dimension :: int

definition NewMilvusStore :: "string \<Rightarrow> string \<Rightarrow> MilvusStore" where
  "NewMilvusStore address token = \<lparr>ms_address = address, ms_token = token, ms_dimension = 0\<rparr>"

text \<open>\<open>new_client address key\<close> is \<open>client.NewClient\<close>; the key is given only for a non-empty token.\<close>

definition Connect ::
  "(string \<Rightarrow> string option \<Rightarrow> go_error + 'm) \<Rightarrow> 'm milvus \<Rightarrow> MilvusStore \<Rightarrow> go_error option \<times> 'm option" where
  "Connect new_client C s =
     (case new_client (ms_address s) (if ms_token s \<noteq> [] then Some (ms_token s) else None) of
        Inl e \<Rightarrow> (Some (''milvus connect: '' @ e), None)
      | Inr m \<Rightarrow>
          (case mv_HasCollection C ''health_check'' m of
             (Inl e, m') \<Rightarrow> (Some (''milvus connectivity check: '' @ e), Some m')
           | (Inr b, m') \<Rightarrow> (None, Some m')))"

type_synonym 'm store_state = "MilvusStore \<times> 'm"

text \<open>A client call leaves the store's own fields alone.\<close>

definition on_client :: "'m effect \<Rightarrow> 'm store_state effect" where
  "on_client f s = (case f (snd s) of (r, m') \<Rightarrow> (r, (fst s, m')))"

definition var_char :: "string \<Rightarrow> int \<Rightarrow> schema_field" where
  "var_char name n = \<lparr>fld_Name = name, fld_Type = FieldVarChar n, fld_PrimaryKey = False\<rparr>"

definition doc_schema :: "string \<Rightarrow> int \<Rightarrow> schema" where
  "doc_schema name dimension =
     \<lparr>sch_CollectionName = name,
      sch_Fields =
        [(var_char fieldID 256)\<lparr>fld_PrimaryKey := True\<rparr>, var_char fieldContent 65535, var_char fieldFilePath 1024,
         \<lparr>fld_Name = fieldStartLine, fld_Type = FieldInt64, fld_PrimaryKey = False\<rparr>,
         \<lparr>fld_Name = fieldEndLine, fld_Type = FieldInt64, fld_PrimaryKey = False\<rparr>,
         var_char fieldLanguage 64, var_char fieldNodeType 64,
         \<lparr>fld_Name = fieldVector, fld_Type = FieldFloatVector dimension, fld_PrimaryKey = False\<rparr>]\<rparr>"

definition meta_schema :: "string \<Rightarrow> schema" where
  "meta_schema metaName =
     \<lparr>sch_CollectionName = metaName,
      sch_Fields =
        [(var_char fieldMetaKey 256)\<lparr>fld_PrimaryKey := True\<rparr>, var_char fieldMetaValue 65535,
         \<lparr>fld_Name = fieldMetaVector, fld_Type = FieldFloatVector metaVectorDimension, fld_PrimaryKey = False\<rparr>]\<rparr>"

definition create_documents :: "'m milvus \<Rightarrow> string \<Rightarrow> int \<Rightarrow> 'm effect" where
  "create_documents C name dimension =
     and_then (wrap_error (''milvus create collection '' @ name) (mv_CreateCollection C (doc_schema name dimension)))
     (and_then (wrap_error (''milvus create index on '' @ name) (mv_CreateIndex C name fieldVector 128))
       (wrap_error (''milvus load collection '' @ name) (mv_LoadCollection C name)))"

definition create_metadata :: "'m milvus \<Rightarrow> string \<Rightarrow> 'm effect" where
  "create_metadata C metaName =
     and_then (wrap_error (''milvus create metadata collection '' @ metaName) (mv_CreateCollection C (meta_schema metaName)))
     (and_then (wrap_error (''milvus create metadata index on '' @ metaName) (mv_CreateIndex C metaName fieldMetaVector 8))
       (wrap_error (''milvus load metadata collection '' @ metaName) (mv_LoadCollection C metaName)))"

definition CreateCollection :: "'m milvus \<Rightarrow> string \<Rightarrow> int \<Rightarrow> 'm store_state effect" where
  "CreateCollection C name dimension s =
     on_client (and_then (create_documents C name dimension)
         (create_metadata C (name @ metadataCollectionSuffix)))
       ((fst s)\<lparr>ms_dimension := dimension\<rparr>, snd s)"

text \<open>The error of dropping the metadata is ignored.\<close>

definition DropCollection :: "'m milvus \<Rightarrow> string \<Rightarrow> 'm store_state effect" where
  "DropCollection C name =
     and_then (wrap_error (''milvus drop collection '' @ name) (on_client (mv_DropCollection C name)))
       (\<lambda>s. (None, (fst s, snd (mv_DropCollection C (name @ metadataCollectionSuffix) (snd s)))))"

definition CollectionExists :: "'m milvus \<Rightarrow> string \<Rightarrow> (bool, 'm store_state) query" where
  "CollectionExists C name s =
     (case mv_HasCollection C name (snd s) of
        (Inl e, m') \<Rightarrow> (Inl (''milvus check collection '' @ name @ '': '' @ e), (fst s, m'))
      | (Inr b, m') \<Rightarrow> (Inr b, (fst s, m')))"

definition generateDocID :: "(string \<Rightarrow> string) \<Rightarrow> string \<Rightarrow> int \<Rightarrow> int \<Rightarrow> string" where
  "generateDocID sha256 filePath startLine endLine =
     take 32 (sha256 (filePath @ '':'' @ int_str startLine @ ''-'' @ int_str endLine))"

definition truncateContent :: "string \<Rightarrow> int \<Rightarrow> string" where
  "truncateContent s maxLen = (if int (length s) \<le> maxLen then s else take (nat maxLen) s)"

definition document_id :: "(string \<Rightarrow> string) \<Rightarrow> Document \<Rightarrow> string" where
  "document_id sha256 doc =
     (if doc_ID doc = [] then generateDocID sha256 (doc_FilePath doc) (doc_StartLine doc) (doc_EndLine doc)
      else doc_ID doc)"

definition document_columns :: "(string \<Rightarrow> string) \<Rightarrow> int \<Rightarrow> Document list \<Rightarrow> vector list \<Rightarrow> column list" where
  "document_columns sha256 dimension docs vectors =
     [VarCharColumn fieldID (map (document_id sha256) docs),
      VarCharColumn fieldContent (map (\<lambda>d. truncateContent (doc_Content d) 65535) docs),
      VarCharColumn fieldFilePath (map doc_FilePath docs),
      Int64Column fieldStartLine (map doc_StartLine docs),
      Int64Column fieldEndLine (map doc_EndLine docs),
      VarCharColumn fieldLanguage (map doc_Language docs),
      VarCharColumn fieldNodeType (map doc_NodeType docs),
      FloatVectorColumn fieldVector dimension vectors]"

definition Insert ::
  "(string \<Rightarrow> string) \<Rightarrow> 'm milvus \<Rightarrow> string \<Rightarrow> Document list \<Rightarrow> vector list \<Rightarrow> 'm store_state effect" where
  "Insert sha256 C collection docs vectors s =
     (if length docs \<noteq> length vectors then
        (Some (''milvus insert: docs count '' @ nat_str (length docs) @ '' != vectors count '' @ nat_str (length vectors)), s)
      else if docs = [] then (None, s)
      else wrap_error (''milvus insert into '' @ collection)
             (on_client (mv_Insert C collection (document_columns sha256 (ms_dimension (fst s)) docs vectors))) s)"

fun getVarCharColumn :: "column list \<Rightarrow> string \<Rightarrow> string list option" where
  "getVarCharColumn [] name = None"
| "getVarCharColumn (VarCharColumn n cells # cols) name = (if n = name then Some cells else getVarCharColumn cols name)"
| "getVarCharColumn (_ # cols) name = getVarCharColumn cols name"

fun getInt64Column :: "column list \<Rightarrow> string \<Rightarrow> int list option" where
  "getInt64Column [] name = None"
| "getInt64Column (Int64Column n cells # cols) name = (if n = name then Some cells else getInt64Column cols name)"
| "getInt64Column (_ # cols) name = getInt64Column cols name"

text \<open>The column of JSON texts is a \<open>VarChar\<close> column as well.\<close>

fun get_json_column :: "column list \<Rightarrow> string \<Rightarrow> (go_error + IndexMetadata) list option" where
  "get_json_column [] name = None"
| "get_json_column (JsonColumn n cells # cols) name = (if n = name then Some cells else get_json_column cols name)"
| "get_json_column (_ # cols) name = get_json_column cols name"

definition cell :: "'a \<Rightarrow> 'a list option \<Rightarrow> nat \<Rightarrow> 'a" where
  "cell zero col i = (case col of Some cells \<Rightarrow> if i < length cells then cells ! i else zero | None \<Rightarrow> zero)"

definition hit :: "milvus_hits \<Rightarrow> nat \<Rightarrow> SearchResult" where
  "hit r i =
     \<lparr>sr_Document =
        \<lparr>doc_ID = cell [] (getVarCharColumn (mh_Fields r) fieldID) i,
         doc_Content = cell [] (getVarCharColumn (mh_Fields r) fieldContent) i,
         doc_FilePath = cell [] (getVarCharColumn (mh_Fields r) fieldFilePath) i,
         doc_StartLine = cell 0 (getInt64Column (mh_Fields r) fieldStartLine) i,
         doc_EndLine = cell 0 (getInt64Column (mh_Fields r) fieldEndLine) i,
         doc_Language = cell [] (getVarCharColumn (mh_Fields r) fieldLanguage) i,
         doc_NodeType = cell [] (getVarCharColumn (mh_Fields r) fieldNodeType) i,
         doc_Metadata = []\<rparr>,
      sr_Score = (if i < length (mh_Scores r) then mh_Scores r ! i else 0)\<rparr>"

definition search_expr :: "(string \<times> string) list \<Rightarrow> string" where
  "search_expr filters =
     (case map_of filters ''language'' of
        Some lang \<Rightarrow> if lang \<noteq> [] then ''language == '' @ [CHR 0x22] @ lang @ [CHR 0x22] else []
      | None \<Rightarrow> [])"

definition milvus_Search ::
  "'m milvus \<Rightarrow> string \<Rightarrow> vector \<Rightarrow> int \<Rightarrow> (string \<times> string) list \<Rightarrow> (SearchResult list, 'm store_state) query" where
  "milvus_Search C collection vector limit filters s =
     (case mv_Search C collection (search_expr filters)
         [fieldID, fieldContent, fieldFilePath, fieldStartLine, fieldEndLine, fieldLanguage, fieldNodeType]
         vector fieldVector limit 16 (snd s) of
        (Inl e, m') \<Rightarrow> (Inl (''milvus search in '' @ collection @ '': '' @ e), (fst s, m'))
      | (Inr results, m') \<Rightarrow>
          (Inr (concat (map (\<lambda>r. map (hit r) [0..<mh_ResultCount r]) results)), (fst s, m')))"

text \<open>What the JSON round trip makes of the metadata.\<close>

definition json_metadata :: "IndexMetadata \<Rightarrow> IndexMetadata" where
  "json_metadata m =
     m\<lparr>im_Branch := json_string (im_Branch m), im_CommitSHA := json_string (im_CommitSHA m),
       im_IgnoreFingerprint := json_string (im_IgnoreFingerprint m)\<rparr>"

definition metadata_columns :: "IndexMetadata \<Rightarrow> column list" where
  "metadata_columns meta =
     [VarCharColumn fieldMetaKey [''index_metadata''],
      JsonColumn fieldMetaValue [Inr (json_metadata meta)],
      FloatVectorColumn fieldMetaVector metaVectorDimension [[1, 0]]]"

definition SetMetadata :: "'m milvus \<Rightarrow> string \<Rightarrow> IndexMetadata \<Rightarrow> 'm store_state effect" where
  "SetMetadata C collection meta =
     (let metaName = collection @ metadataCollectionSuffix
      in wrap_error (''milvus set metadata on '' @ metaName) (on_client (mv_Upsert C metaName (metadata_columns meta))))"

definition metadata_expr :: string where
  "metadata_expr = ''key == '' @ [CHR 0x22] @ ''index_metadata'' @ [CHR 0x22]"

definition first_metadata :: "column list \<Rightarrow> go_error + IndexMetadata option" where
  "first_metadata results =
     (case get_json_column results fieldMetaValue of
        Some (Inr meta # cells) \<Rightarrow> Inr (Some meta)
      | Some (Inl e # cells) \<Rightarrow> Inl (''milvus unmarshal metadata: '' @ e)
      | _ \<Rightarrow> Inr None)"

definition GetMetadata :: "'m milvus \<Rightarrow> string \<Rightarrow> (IndexMetadata option, 'm store_state) query" where
  "GetMetadata C collection s =
     (let metaName = collection @ metadataCollectionSuffix
      in case mv_HasCollection C metaName (snd s) of
           (Inl e, m1) \<Rightarrow> (Inr None, (fst s, m1))
         | (Inr False, m1) \<Rightarrow> (Inr None, (fst s, m1))
         | (Inr True, m1) \<Rightarrow>
             (case mv_LoadCollection C metaName m1 of
                (Some e, m2) \<Rightarrow> (Inl (''milvus load metadata collection '' @ metaName @ '': '' @ e), (fst s, m2))
              | (None, m2) \<Rightarrow>
                  (case mv_Query C metaName metadata_expr [fieldMetaValue] m2 of
                     (Inl e, m3) \<Rightarrow> (Inl (''milvus query metadata from '' @ metaName @ '': '' @ e), (fst s, m3))
                   | (Inr results, m3) \<Rightarrow> (first_metadata results, (fst s, m3)))))"

definition milvus_store :: "(string \<Rightarrow> string) \<Rightarrow> 'm milvus \<Rightarrow> 'm store_state Store" where
  "milvus_store sha256 C =
     \<lparr>st_CreateCollection = CreateCollection C, st_DropCollection = DropCollection C,
      st_CollectionExists = CollectionExists C, st_Insert = Insert sha256 C, st_Search = milvus_Search C,
      st_SetMetadata = SetMetadata C, st_GetMetadata = GetMetadata C\<rparr>"

section \<open>What the index relies on\<close>

text \<open>
  The contract of a store for one collection. \<open>docs\<close> and \<open>meta\<close> are the documents and the metadata
  that the collection holds, \<open>stored\<close> is what becomes of an inserted document. A failed operation
  changes nothing that can be seen, except that a failed creation may leave an empty collection.
  Dropping a collection may leave its metadata behind; creating it again then keeps them.
\<close>

locale index_store =
  fixes S :: "'s Store" and name :: string
    and inv :: "'s \<Rightarrow> bool" and docs :: "'s \<Rightarrow> Document list option" and meta :: "'s \<Rightarrow> IndexMetadata option"
    and stored :: "Document \<Rightarrow> Document"
  assumes exists_law: "inv s \<Longrightarrow> st_CollectionExists S name s = (rb, s') \<Longrightarrow>
      inv s' \<and> docs s' = docs s \<and> meta s' = meta s \<and> (\<forall>b. rb = Inr b \<longrightarrow> b = (docs s \<noteq> None))"
    and get_law: "inv s \<Longrightarrow> st_GetMetadata S name s = (rm, s') \<Longrightarrow>
      inv s' \<and> docs s' = docs s \<and> meta s' = meta s \<and> (\<forall>m. rm = Inr (Some m) \<longrightarrow> meta s = Some m)"
    and drop_law: "inv s \<Longrightarrow> st_DropCollection S name s = (r, s') \<Longrightarrow>
      inv s' \<and> (if r = None then docs s' = None \<and> (meta s' = meta s \<or> meta s' = None)
        else docs s' = docs s \<and> meta s' = meta s)"
    and create_law: "inv s \<Longrightarrow> docs s = None \<Longrightarrow> st_CreateCollection S name d s = (r, s') \<Longrightarrow>
      inv s' \<and> meta s' = meta s \<and> (docs s' = Some [] \<or> r \<noteq> None \<and> docs s' = None)"
    and insert_law: "inv s \<Longrightarrow> docs s = Some ds \<Longrightarrow> st_Insert S name xs vs s = (r, s') \<Longrightarrow>
      inv s' \<and> meta s' = meta s \<and> docs s' = Some (if r = None then ds @ map stored xs else ds)"
    and set_law: "inv s \<Longrightarrow> docs s = Some ds \<Longrightarrow> st_SetMetadata S name m s = (r, s') \<Longrightarrow>
      inv s' \<and> docs s' = docs s \<and> meta s' = (if r = None then Some (json_metadata m) else meta s)"

text \<open>A store whose dropped collections leave no metadata behind.\<close>

locale clean_drop_store = index_store +
  assumes drop_clean: "inv s \<Longrightarrow> st_DropCollection S name s = (None, s') \<Longrightarrow> meta s' = None"

section \<open>The contract of the Milvus client\<close>

text \<open>
  \<open>rows\<close> gives for every collection the batches of columns inserted into it. A failed call changes
  nothing; creating a collection that exists is accepted or fails, and keeps its content; an upsert
  replaces the rows with the same primary key; the query of the metadata returns the row of its key.
\<close>

definition meta_key_column :: column where
  "meta_key_column = VarCharColumn fieldMetaKey [''index_metadata'']"

locale milvus_client =
  fixes C :: "'m milvus" and rows :: "'m \<Rightarrow> string \<Rightarrow> column list list option"
  assumes has: "mv_HasCollection C n m = (rb, m') \<Longrightarrow> rows m' = rows m \<and> (\<forall>b. rb = Inr b \<longrightarrow> b = (rows m n \<noteq> None))"
    and create: "mv_CreateCollection C sch m = (r, m') \<Longrightarrow> rows m' =
      (if r = None \<and> rows m (sch_CollectionName sch) = None then (rows m)(sch_CollectionName sch \<mapsto> []) else rows m)"
    and index: "mv_CreateIndex C n f k m = (r, m') \<Longrightarrow> rows m' = rows m"
    and load: "mv_LoadCollection C n m = (r, m') \<Longrightarrow> rows m' = rows m"
    and drop: "mv_DropCollection C n m = (r, m') \<Longrightarrow> rows m' = (if r = None then (rows m)(n := None) else rows m)"
    and insert: "rows m n = Some bs \<Longrightarrow> mv_Insert C n cols m = (r, m') \<Longrightarrow>
      rows m' = (if r = None then (rows m)(n \<mapsto> bs @ [cols]) else rows m)"
    and upsert: "mv_Upsert C n (c # cols) m = (r, m') \<Longrightarrow> \<forall>bs b. rows m n = Some bs \<longrightarrow> b \<in> set bs \<longrightarrow> hd b = c \<Longrightarrow>
      rows m' = (if r = None then (rows m)(n \<mapsto> [c # cols]) else rows m)"
    and query: "mv_Query C n metadata_expr [fieldMetaValue] m = (rq, m') \<Longrightarrow> rows m n = Some bs \<Longrightarrow>
      \<forall>b' \<in> set bs. hd b' = meta_key_column \<Longrightarrow> rows m' = rows m \<and>
      (\<forall>res. rq = Inr res \<longrightarrow> get_json_column res fieldMetaValue =
         (if bs = [] then None else get_json_column (last bs) fieldMetaValue))"

text \<open>The documents of a batch of columns, and what an inserted document becomes.\<close>

definition batch_documents :: "column list \<Rightarrow> Document list" where
  "batch_documents cols =
     map (\<lambda>i. sr_Document (hit \<lparr>mh_ResultCount = 0, mh_Fields = cols, mh_Scores = []\<rparr> i))
       [0..<length (case getVarCharColumn cols fieldID of None \<Rightarrow> [] | Some ids \<Rightarrow> ids)]"

definition stored_document :: "(string \<Rightarrow> string) \<Rightarrow> Document \<Rightarrow> Document" where
  "stored_document sha256 d =
     d\<lparr>doc_ID := document_id sha256 d, doc_Content := truncateContent (doc_Content d) 65535, doc_Metadata := []\<rparr>"

lemmas field_names = fieldID_def fieldContent_def fieldFilePath_def fieldStartLine_def fieldEndLine_def
  fieldLanguage_def fieldNodeType_def fieldVector_def fieldMetaKey_def fieldMetaValue_def fieldMetaVector_def

text \<open>The columns of documents read back are the documents as stored.\<close>

lemma batch_documents_columns:
  "batch_documents (document_columns sha256 d ds vs) = map (stored_document sha256) ds"
proof (rule nth_equalityI)
  show "length (batch_documents (document_columns sha256 d ds vs)) = length (map (stored_document sha256) ds)"
    by (simp add: batch_documents_def document_columns_def)
next
  fix i
  assume "i < length (batch_documents (document_columns sha256 d ds vs))"
  then have i: "i < length ds" by (simp add: batch_documents_def document_columns_def)
  then show "batch_documents (document_columns sha256 d ds vs) ! i = map (stored_document sha256) ds ! i"
    by (simp add: batch_documents_def document_columns_def hit_def cell_def stored_document_def field_names)
qed

lemma batch_documents_Nil [simp]: "batch_documents [] = []"
  by (simp add: batch_documents_def)

definition rows_documents :: "column list list \<Rightarrow> Document list" where
  "rows_documents bs = concat (map batch_documents bs)"

definition rows_metadata :: "column list list \<Rightarrow> IndexMetadata option" where
  "rows_metadata bs =
     (if bs = [] then None
      else case get_json_column (last bs) fieldMetaValue of Some (Inr m # cells) \<Rightarrow> Some m | _ \<Rightarrow> None)"

lemma metadata_columns_value:
  "get_json_column (metadata_columns m) fieldMetaValue = Some [Inr (json_metadata m)]"
  by (simp add: metadata_columns_def field_names)

lemma wrap_error_cases:
  "wrap_error msg f s = (r, s') \<Longrightarrow> \<exists>r0. f s = (r0, s') \<and> (r = None \<longleftrightarrow> r0 = None)"
  by (auto simp: wrap_error_def split: prod.splits option.splits)

section \<open>The Milvus store keeps the contract\<close>

text \<open>The rows of a metadata collection were all written by the store.\<close>

definition meta_rows_ok :: "column list list option \<Rightarrow> bool" where
  "meta_rows_ok r \<longleftrightarrow> (\<forall>bs b. r = Some bs \<longrightarrow> b \<in> set bs \<longrightarrow> (\<exists>meta. b = metadata_columns meta))"

lemma meta_rows_ok_simps [simp]:
  "meta_rows_ok None"
  "meta_rows_ok (Some bs) \<longleftrightarrow> (\<forall>b \<in> set bs. \<exists>meta. b = metadata_columns meta)"
  by (auto simp: meta_rows_ok_def)

lemma suffix_not_Nil [simp]: "metadataCollectionSuffix \<noteq> []"
  by (simp add: metadataCollectionSuffix_def)

lemma hd_metadata_columns: "hd (metadata_columns m) = meta_key_column"
  by (simp add: metadata_columns_def meta_key_column_def)

lemma meta_rows_ok_key:
  "meta_rows_ok (Some bs) \<Longrightarrow> b \<in> set bs \<Longrightarrow> hd b = meta_key_column"
  using hd_metadata_columns by auto

text \<open>Dropping succeeds when dropping the documents does; what becomes of the metadata is not looked at.\<close>

lemma DropCollection_cases:
  assumes "DropCollection C name s = (r, s')"
  shows "\<exists>r1 m1. mv_DropCollection C name (snd s) = (r1, m1) \<and>
    (if r1 = None then r = None \<and> s' = (fst s, snd (mv_DropCollection C (name @ metadataCollectionSuffix) m1))
     else r \<noteq> None \<and> s' = (fst s, m1))"
  using assms by (auto simp: DropCollection_def and_then_def wrap_error_def on_client_def split: prod.splits option.splits)

text \<open>The documents and the metadata of a collection, read off the rows of the service.\<close>

definition milvus_inv :: "('m \<Rightarrow> string \<Rightarrow> column list list option) \<Rightarrow> string \<Rightarrow> 'm store_state \<Rightarrow> bool" where
  "milvus_inv rows name s \<longleftrightarrow> meta_rows_ok (rows (snd s) (name @ metadataCollectionSuffix))"

definition milvus_docs ::
  "('m \<Rightarrow> string \<Rightarrow> column list list option) \<Rightarrow> string \<Rightarrow> 'm store_state \<Rightarrow> Document list option" where
  "milvus_docs rows name s = map_option rows_documents (rows (snd s) name)"

definition milvus_meta ::
  "('m \<Rightarrow> string \<Rightarrow> column list list option) \<Rightarrow> string \<Rightarrow> 'm store_state \<Rightarrow> IndexMetadata option" where
  "milvus_meta rows name s = Option.bind (rows (snd s) (name @ metadataCollectionSuffix)) rows_metadata"

lemmas milvus_views = milvus_inv_def milvus_docs_def milvus_meta_def

locale milvus_index = milvus_client C rows
  for C :: "'m milvus" and rows :: "'m \<Rightarrow> string \<Rightarrow> column list list option" +
  fixes sha256 :: "string \<Rightarrow> string" and name :: string
begin

lemma exists_keeps:
  "CollectionExists C name s = (rb, s') \<Longrightarrow> rows (snd s') = rows (snd s) \<and> (\<forall>b. rb = Inr b \<longrightarrow> b = (rows (snd s) name \<noteq> None))"
  using has [of name "snd s"] by (auto simp: CollectionExists_def split: prod.splits sum.splits)

lemma get_keeps:
  assumes inv: "milvus_inv rows name s" and get: "GetMetadata C name s = (rm, s')"
  shows "rows (snd s') = rows (snd s) \<and> (\<forall>m. rm = Inr (Some m) \<longrightarrow> milvus_meta rows name s = Some m)"
proof -
  define mn where "mn = name @ metadataCollectionSuffix"
  obtain rb m1 where h: "mv_HasCollection C mn (snd s) = (rb, m1)" by fastforce
  have h1: "rows m1 = rows (snd s)" and h2: "\<And>b. rb = Inr b \<Longrightarrow> b = (rows (snd s) mn \<noteq> None)"
    using has [OF h] by auto
  show ?thesis
  proof (cases "rb = Inr True")
    case False
    then show ?thesis using get h h1
      by (cases rb) (auto simp: GetMetadata_def Let_def mn_def split: bool.splits)
  next
    case True
    then obtain bs where bs: "rows (snd s) mn = Some bs" using h2 by auto
    have ok: "\<forall>b' \<in> set bs. hd b' = meta_key_column"
      using inv bs meta_rows_ok_key by (simp add: milvus_inv_def mn_def)
    obtain r2 m2 where l: "mv_LoadCollection C mn m1 = (r2, m2)" by fastforce
    have l1: "rows m2 = rows (snd s)" using load [OF l] h1 by simp
    obtain rq m3 where q: "mv_Query C mn metadata_expr [fieldMetaValue] m2 = (rq, m3)" by fastforce
    have bs2: "rows m2 mn = Some bs" using l1 bs by simp
    note q1 = query [OF q bs2 ok]
    show ?thesis
    proof (cases "r2 = None \<and> (\<exists>res. rq = Inr res)")
      case True
      then obtain res where res: "rq = Inr res" and r2: "r2 = None" by auto
      have "rm = first_metadata res" "snd s' = m3"
        using get h l q r2 res \<open>rb = Inr True\<close> by (auto simp: GetMetadata_def Let_def mn_def [symmetric])
      moreover have "milvus_meta rows name s = Some m" if "first_metadata res = Inr (Some m)" for m
        using that q1 res bs
        by (auto simp: first_metadata_def milvus_meta_def rows_metadata_def mn_def
            split: option.splits list.splits sum.splits if_splits)
      ultimately show ?thesis using q1 l1 by auto
    next
      case False
      then show ?thesis
        using get h l q q1 l1 \<open>rb = Inr True\<close>
        by (cases r2; cases rq) (auto simp: GetMetadata_def Let_def mn_def [symmetric])
    qed
  qed
qed

lemma drop_keeps:
  assumes inv: "milvus_inv rows name s" and drop': "DropCollection C name s = (r, s')"
  shows "milvus_inv rows name s' \<and> (if r = None then milvus_docs rows name s' = None \<and> (milvus_meta rows name s' = milvus_meta rows name s \<or> milvus_meta rows name s' = None)
    else milvus_docs rows name s' = milvus_docs rows name s \<and> milvus_meta rows name s' = milvus_meta rows name s)"
proof -
  define mn where "mn = name @ metadataCollectionSuffix"
  obtain r1 m1 where one: "mv_DropCollection C name (snd s) = (r1, m1)"
    and rest: "if r1 = None then r = None \<and> s' = (fst s, snd (mv_DropCollection C mn m1))
      else r \<noteq> None \<and> s' = (fst s, m1)"
    using DropCollection_cases [OF drop'] by (auto simp: mn_def)
  obtain r2 m2 where two: "mv_DropCollection C mn m1 = (r2, m2)" by fastforce
  have "rows m1 = (if r1 = None then (rows (snd s))(name := None) else rows (snd s))"
    and "rows m2 = (if r2 = None then (rows m1)(mn := None) else rows m1)"
    using drop [OF one] drop [OF two] by auto
  then show ?thesis using rest two inv by (auto simp: milvus_views mn_def split: if_splits)
qed

lemma create_documents_rows:
  "create_documents C name d m = (r, m') \<Longrightarrow> rows m name = None \<Longrightarrow>
    rows m' = (rows m)(name \<mapsto> []) \<or> r \<noteq> None \<and> rows m' = rows m"
  by (auto simp: create_documents_def and_then_def wrap_error_def doc_schema_def
      split: prod.splits option.splits if_splits dest!: create index load)

lemma create_metadata_rows:
  "create_metadata C mn m = (r, m') \<Longrightarrow>
    rows m' = rows m \<or> rows m mn = None \<and> rows m' = (rows m)(mn \<mapsto> [])"
  by (auto simp: create_metadata_def and_then_def wrap_error_def meta_schema_def
      split: prod.splits option.splits if_splits dest!: create index load)

lemma create_keeps:
  assumes inv: "milvus_inv rows name s" and none: "milvus_docs rows name s = None" and create': "CreateCollection C name d s = (r, s')"
  shows "milvus_inv rows name s' \<and> milvus_meta rows name s' = milvus_meta rows name s \<and> (milvus_docs rows name s' = Some [] \<or> r \<noteq> None \<and> milvus_docs rows name s' = None)"
proof -
  define mn where "mn = name @ metadataCollectionSuffix"
  have none': "rows (snd s) name = None" using none by (simp add: milvus_docs_def)
  obtain r1 m1 where one: "create_documents C name d (snd s) = (r1, m1)" by fastforce
  obtain r2 m2 where two: "create_metadata C mn m1 = (r2, m2)" by fastforce
  have s': "r = (if r1 = None then r2 else r1) \<and> snd s' = (if r1 = None then m2 else m1)"
    using create' one two
    by (auto simp: CreateCollection_def on_client_def and_then_def mn_def split: option.splits)
  show ?thesis
    using create_documents_rows [OF one none'] create_metadata_rows [OF two] s' inv none'
    by (auto simp: milvus_views mn_def rows_documents_def rows_metadata_def split: if_splits option.splits)
qed

lemma insert_keeps:
  assumes inv: "milvus_inv rows name s" and ds: "milvus_docs rows name s = Some ds" and insert': "Insert sha256 C name xs vs s = (r, s')"
  shows "milvus_inv rows name s' \<and> milvus_meta rows name s' = milvus_meta rows name s \<and>
    milvus_docs rows name s' = Some (if r = None then ds @ map (stored_document sha256) xs else ds)"
proof -
  obtain bs where bs: "rows (snd s) name = Some bs" "ds = rows_documents bs"
    using ds by (auto simp: milvus_docs_def)
  show ?thesis
  proof (cases "length xs = length vs \<and> xs \<noteq> []")
    case False
    then show ?thesis using insert' inv ds by (auto simp: Insert_def split: if_splits)
  next
    case True
    define cols where "cols = document_columns sha256 (ms_dimension (fst s)) xs vs"
    obtain r1 m1 where one: "mv_Insert C name cols (snd s) = (r1, m1)" by fastforce
    have s': "snd s' = m1 \<and> (r = None \<longleftrightarrow> r1 = None)"
      using insert' True one
      by (auto simp: Insert_def wrap_error_def on_client_def cols_def [symmetric] split: option.splits)
    have "batch_documents cols = map (stored_document sha256) xs"
      by (simp add: cols_def batch_documents_columns)
    then show ?thesis
      using insert [OF bs(1) one] s' inv bs
      by (auto simp: milvus_views rows_documents_def split: if_splits)
  qed
qed

lemma set_keeps:
  assumes inv: "milvus_inv rows name s" and set': "SetMetadata C name meta s = (r, s')"
  shows "milvus_inv rows name s' \<and> milvus_docs rows name s' = milvus_docs rows name s \<and> milvus_meta rows name s' = (if r = None then Some (json_metadata meta) else milvus_meta rows name s)"
proof -
  define mn where "mn = name @ metadataCollectionSuffix"
  obtain r1 m1 where one: "mv_Upsert C mn (metadata_columns meta) (snd s) = (r1, m1)" by fastforce
  have s': "snd s' = m1 \<and> (r = None \<longleftrightarrow> r1 = None)"
    using set' one by (auto simp: SetMetadata_def Let_def wrap_error_def on_client_def mn_def split: option.splits)
  obtain cols where cols: "metadata_columns meta = meta_key_column # cols"
    by (simp add: metadata_columns_def meta_key_column_def)
  have "\<forall>bs b. rows (snd s) mn = Some bs \<longrightarrow> b \<in> set bs \<longrightarrow> hd b = meta_key_column"
    using inv meta_rows_ok_key by (metis milvus_inv_def mn_def)
  from upsert [OF one [unfolded cols] this]
  have "rows m1 = (if r1 = None then (rows (snd s))(mn \<mapsto> [metadata_columns meta]) else rows (snd s))"
    by (simp add: cols)
  then show ?thesis
    using s' inv hd_metadata_columns [of meta] metadata_columns_value [of meta]
    by (auto simp: milvus_views mn_def rows_metadata_def)
qed

end

sublocale milvus_index < milvus_contract: index_store "milvus_store sha256 C" name "milvus_inv rows name" "milvus_docs rows name"
  "milvus_meta rows name"
  "stored_document sha256"
proof (unfold_locales, goal_cases)
  case (1 s rb s')
  then show ?case using exists_keeps [of s rb s'] by (auto simp: milvus_store_def milvus_views)
next
  case (2 s rm s')
  then show ?case using get_keeps [of s rm s'] by (auto simp: milvus_store_def milvus_views)
next
  case (3 s r s')
  then show ?case using drop_keeps [of s r s'] by (simp add: milvus_store_def)
next
  case (4 s d r s')
  then show ?case using create_keeps [of s d r s'] by (simp add: milvus_store_def)
next
  case (5 s ds xs vs r s')
  then show ?case using insert_keeps [of s ds xs vs r s'] by (simp add: milvus_store_def)
next
  case (6 s ds m r s')
  then show ?case using set_keeps [of s m r s'] by (simp add: milvus_store_def)
qed

text \<open>When the metadata collection is always dropped, nothing is left behind.\<close>

locale reliable_milvus_index = milvus_index +
  assumes meta_drop: "mv_DropCollection C (name @ metadataCollectionSuffix) m = (r, m') \<Longrightarrow> r = None"
begin

lemma drop_leaves_nothing:
  assumes "DropCollection C name s = (None, s')"
  shows "milvus_meta rows name s' = None"
proof -
  define mn where "mn = name @ metadataCollectionSuffix"
  obtain m1 where s': "snd s' = snd (mv_DropCollection C mn m1)"
    using DropCollection_cases [OF assms] by (auto simp: mn_def split: if_splits)
  obtain r2 m2 where two: "mv_DropCollection C mn m1 = (r2, m2)" by fastforce
  with meta_drop [of m1 r2 m2] drop [OF two] s' show ?thesis by (simp add: milvus_meta_def mn_def)
qed

end

sublocale reliable_milvus_index < milvus_clean: clean_drop_store "milvus_store sha256 C" name
  "milvus_inv rows name" "milvus_docs rows name" "milvus_meta rows name" "stored_document sha256"
  by unfold_locales (auto simp: milvus_store_def dest: drop_leaves_nothing)

section \<open>A service in memory\<close>

text \<open>
  A concrete service for the contract: collections as batches of rows, and a script that says which
  of the next calls fail. With \<open>drops_fail\<close> false the calls that drop a collection never fail.
\<close>

record memory =
  mem_rows :: "string \<Rightarrow> column list list option"
  mem_faults :: "bool list"

definition mem_call :: "(memory \<Rightarrow> memory) \<Rightarrow> memory effect" where
  "mem_call f m =
     (case mem_faults m of
        [] \<Rightarrow> (None, f m)
      | True # fs \<Rightarrow> (Some ''unavailable'', m\<lparr>mem_faults := fs\<rparr>)
      | False # fs \<Rightarrow> (None, f (m\<lparr>mem_faults := fs\<rparr>)))"

definition mem_ask :: "(memory \<Rightarrow> 'a) \<Rightarrow> ('a, memory) query" where
  "mem_ask f m = (case mem_call id m of (None, m') \<Rightarrow> (Inr (f m), m') | (Some e, m') \<Rightarrow> (Inl e, m'))"

definition mem_create :: "schema \<Rightarrow> memory \<Rightarrow> memory" where
  "mem_create sch m =
     (case mem_rows m (sch_CollectionName sch) of
        None \<Rightarrow> m\<lparr>mem_rows := (mem_rows m)(sch_CollectionName sch \<mapsto> [])\<rparr>
      | Some bs \<Rightarrow> m)"

definition mem_insert :: "string \<Rightarrow> column list \<Rightarrow> memory \<Rightarrow> memory" where
  "mem_insert n cols m =
     (case mem_rows m n of None \<Rightarrow> m | Some bs \<Rightarrow> m\<lparr>mem_rows := (mem_rows m)(n \<mapsto> bs @ [cols])\<rparr>)"

definition mem_upsert :: "string \<Rightarrow> column list \<Rightarrow> memory \<Rightarrow> memory" where
  "mem_upsert n cols m =
     m\<lparr>mem_rows := (mem_rows m)(n \<mapsto>
        (case mem_rows m n of None \<Rightarrow> [] | Some bs \<Rightarrow> filter (\<lambda>b. hd b \<noteq> hd cols) bs) @ [cols])\<rparr>"

definition mem_metadata :: "string \<Rightarrow> memory \<Rightarrow> column list" where
  "mem_metadata n m =
     (case mem_rows m n of
        None \<Rightarrow> []
      | Some bs \<Rightarrow> (case filter (\<lambda>b. hd b = meta_key_column) bs of [] \<Rightarrow> [] | b # bs' \<Rightarrow> last (b # bs')))"

definition mem_milvus :: "bool \<Rightarrow> memory milvus" where
  "mem_milvus drops_fail =
     \<lparr>mv_HasCollection = \<lambda>n. mem_ask (\<lambda>m. mem_rows m n \<noteq> None),
      mv_CreateCollection = \<lambda>sch. mem_call (mem_create sch),
      mv_CreateIndex = \<lambda>n f k. mem_call id,
      mv_LoadCollection = \<lambda>n. mem_call id,
      mv_DropCollection = \<lambda>n m.
        (let f = (\<lambda>m. m\<lparr>mem_rows := (mem_rows m)(n := None)\<rparr>) in if drops_fail then mem_call f m else (None, f m)),
      mv_Insert = \<lambda>n cols. mem_call (mem_insert n cols),
      mv_Upsert = \<lambda>n cols. mem_call (mem_upsert n cols),
      mv_Query = \<lambda>n expr fields. mem_ask (mem_metadata n),
      mv_Search = \<lambda>n expr fields v f limit nprobe. mem_ask (\<lambda>m. [])\<rparr>"

lemma mem_call_cases:
  "mem_call f m = (r, m') \<Longrightarrow> (\<And>fs. mem_rows (f (m\<lparr>mem_faults := fs\<rparr>)) = mem_rows (f m)) \<Longrightarrow>
    mem_rows m' = (if r = None then mem_rows (f m) else mem_rows m)"
  by (auto simp: mem_call_def split: list.splits bool.splits)

lemma mem_ask_cases:
  "mem_ask f m = (r, m') \<Longrightarrow> mem_rows m' = mem_rows m \<and> (\<forall>x. r = Inr x \<longrightarrow> x = f m)"
  by (auto simp: mem_ask_def mem_call_def split: list.splits bool.splits)

interpretation memory_service: milvus_client "mem_milvus drops_fail" mem_rows for drops_fail
proof (unfold_locales, goal_cases)
  case (1 n m rb m')
  then show ?case by (auto simp: mem_milvus_def dest: mem_ask_cases)
next
  case (2 sch m r m')
  then have call: "mem_call (mem_create sch) m = (r, m')" by (simp add: mem_milvus_def)
  show ?case
    using mem_call_cases [OF call] by (auto simp: mem_create_def split: option.splits)
next
  case (3 n f k m r m')
  then have call: "mem_call id m = (r, m')" by (simp add: mem_milvus_def)
  show ?case using mem_call_cases [OF call] by auto
next
  case (4 n m r m')
  then have call: "mem_call id m = (r, m')" by (simp add: mem_milvus_def)
  show ?case using mem_call_cases [OF call] by auto
next
  case (5 n m r m')
  let ?f = "\<lambda>m. m\<lparr>mem_rows := (mem_rows m)(n := None)\<rparr>"
  from 5 show ?case
    using mem_call_cases [of ?f m r m'] by (auto simp: mem_milvus_def Let_def split: if_splits)
next
  case (6 m n bs cols r m')
  then have call: "mem_call (mem_insert n cols) m = (r, m')" by (simp add: mem_milvus_def)
  show ?case
    using mem_call_cases [OF call] 6(1) by (auto simp: mem_insert_def split: option.splits)
next
  case (7 n c cols m r m')
  then have call: "mem_call (mem_upsert n (c # cols)) m = (r, m')" by (simp add: mem_milvus_def)
  have "filter (\<lambda>b. hd b \<noteq> c) bs = []" if "mem_rows m n = Some bs" for bs
    using 7(2) that by (simp add: filter_empty_conv)
  then show ?case
    using mem_call_cases [OF call] by (auto simp: mem_upsert_def split: option.splits)
next
  case (8 n m rq m' bs)
  have "filter (\<lambda>b. hd b = meta_key_column) bs = bs" using 8(3) by (simp add: filter_id_conv)
  then have "mem_metadata n m = (if bs = [] then [] else last bs)"
    using 8(2) by (cases bs) (simp_all add: mem_metadata_def)
  moreover have "mem_ask (mem_metadata n) m = (rq, m')" using 8(1) by (simp add: mem_milvus_def)
  ultimately have m': "mem_rows m' = mem_rows m"
    and res: "\<And>res. rq = Inr res \<Longrightarrow> res = (if bs = [] then [] else last bs)"
    using mem_ask_cases [of "mem_metadata n" m rq m'] by blast+
  show ?case
  proof (intro conjI allI impI)
    show "mem_rows m' = mem_rows m" by (rule m')
    fix res
    assume "rq = Inr res"
    from res [OF this] show "get_json_column res fieldMetaValue =
        (if bs = [] then None else get_json_column (last bs) fieldMetaValue)" by simp
  qed
qed

interpretation memory_index: milvus_index "mem_milvus drops_fail" mem_rows sha256 name
  for drops_fail sha256 name ..

interpretation memory_clean: reliable_milvus_index "mem_milvus False" mem_rows sha256 name
  for sha256 name
  by unfold_locales (simp add: mem_milvus_def Let_def)

end
