(* ===== verification/IndexVersion.thy ===== *)
theory IndexVersion
  imports VectorStore
begin

text \<open>
  \<open>pkg/version.go\<close>: names of collections and the staleness of an index. \<open>sha256\<close> is the SHA-256 of a
  string in hexadecimal; times and durations are nanoseconds. The lemmas show when an index is
  fresh, and that the description of its state agrees with the decision to index again.
\<close>

definition CollectionName :: "(string \<Rightarrow> string) \<Rightarrow> string \<Rightarrow> string" where
  "CollectionName sha256 projectPath = ''cs_'' @ take 16 (sha256 projectPath)"

definition ResolveCollectionName :: "(string \<Rightarrow> string) \<Rightarrow> string \<Rightarrow> string \<Rightarrow> string" where
  "ResolveCollectionName sha256 projectPath override =
     (if trim_space override \<noteq> [] then trim_space override else CollectionName sha256 projectPath)"

definition IsStale :: "IndexMetadata option \<Rightarrow> string \<Rightarrow> string \<Rightarrow> bool" where
  "IsStale meta currentCommit0 currentIgnoreFingerprint0 =
     (case meta of
        None \<Rightarrow> True
      | Some m \<Rightarrow>
          let indexedCommit = trim_space (im_CommitSHA m);
              currentCommit = trim_space currentCommit0;
              indexedIgnoreFingerprint = trim_space (im_IgnoreFingerprint m);
              currentIgnoreFingerprint = trim_space currentIgnoreFingerprint0
          in if indexedIgnoreFingerprint = [] \<or> currentIgnoreFingerprint = [] then True
             else if indexedIgnoreFingerprint \<noteq> currentIgnoreFingerprint then True
             else if indexedCommit = [] \<or> currentCommit = [] then True
             else indexedCommit \<noteq> currentCommit)"

definition abbreviate :: "string \<Rightarrow> string" where
  "abbreviate sha = (if length sha > 7 then take 7 sha else sha)"

definition duration_minute :: int where "duration_minute = 60 * 1000000000"
definition duration_hour :: int where "duration_hour = 60 * duration_minute"

text \<open>
  \<open>Duration.Minutes\<close> and \<open>Duration.Hours\<close> are \<open>float64\<close> quotients that \<open>int\<close> truncates; for the
  non-negative durations here that are whole minutes, far below \<open>2 ^ 53\<close> hours, that is the integer quotient.
\<close>

definition formatAge :: "int \<Rightarrow> string" where
  "formatAge d =
     (if d < duration_minute then ''less than a minute''
      else if d < duration_hour then int_str (d div duration_minute) @ ''m''
      else if d < 24 * duration_hour then int_str (d div duration_hour) @ ''h''
      else int_str (d div duration_hour div 24) @ ''d'')"

text \<open>\<open>Truncate\<close> rounds towards zero.\<close>

definition truncate_duration :: "int \<Rightarrow> int \<Rightarrow> int" where
  "truncate_duration d m = go_quot d m * m"

text \<open>The em dash in UTF-8.\<close>

definition em_dash :: string where
  "em_dash = [CHR 0xE2, CHR 0x80, CHR 0x94]"

definition stale_reasons :: "string \<Rightarrow> string \<Rightarrow> string \<Rightarrow> string \<Rightarrow> string list" where
  "stale_reasons indexedCommit currentCommit indexedIgnoreFingerprint currentIgnoreFingerprint =
     (let reasons =
        (if indexedCommit = [] then [''missing indexed commit metadata'']
         else if currentCommit = [] then [''current HEAD unavailable'']
         else if indexedCommit \<noteq> currentCommit then [''HEAD is now '' @ abbreviate currentCommit]
         else []) @
        (if indexedIgnoreFingerprint = [] then [''missing indexed ignore metadata'']
         else if currentIgnoreFingerprint = [] then [''current ignore rules unavailable'']
         else if indexedIgnoreFingerprint \<noteq> currentIgnoreFingerprint then [''ignore rules changed'']
         else [])
      in if reasons = [] then [''status unknown''] else reasons)"

definition index_counts :: "IndexMetadata \<Rightarrow> string" where
  "index_counts m = ''('' @ int_str (im_FileCount m) @ '' files, '' @ int_str (im_ChunkCount m) @ '' chunks)''"

definition StalenessInfo :: "int \<Rightarrow> IndexMetadata option \<Rightarrow> string \<Rightarrow> string \<Rightarrow> string" where
  "StalenessInfo now meta currentCommit0 currentIgnoreFingerprint0 =
     (case meta of
        None \<Rightarrow> ''not indexed''
      | Some m \<Rightarrow>
          let ageStr = formatAge (truncate_duration (now - im_IndexedAt m) duration_minute);
              indexedCommit = trim_space (im_CommitSHA m);
              currentCommit = trim_space currentCommit0;
              indexedIgnoreFingerprint = trim_space (im_IgnoreFingerprint m);
              currentIgnoreFingerprint = trim_space currentIgnoreFingerprint0
          in if indexedCommit \<noteq> [] \<and> currentCommit \<noteq> [] \<and> indexedCommit = currentCommit \<and>
                indexedIgnoreFingerprint \<noteq> [] \<and> currentIgnoreFingerprint \<noteq> [] \<and>
                indexedIgnoreFingerprint = currentIgnoreFingerprint
             then ''up to date '' @ em_dash @ '' indexed '' @ ageStr @ '' ago '' @ index_counts m
             else let reasonText = join '' and ''
                        (stale_reasons indexedCommit currentCommit indexedIgnoreFingerprint currentIgnoreFingerprint)
                  in if indexedCommit \<noteq> [] \<and> currentCommit \<noteq> [] \<and> indexedCommit \<noteq> currentCommit
                     then ''stale '' @ em_dash @ '' indexed '' @ ageStr @ '' ago at '' @ abbreviate indexedCommit @ '', '' @
                          reasonText @ '' '' @ index_counts m
                     else ''stale '' @ em_dash @ '' indexed '' @ ageStr @ '' ago, '' @ reasonText @ '' '' @ index_counts m)"

section \<open>Freshness\<close>

lemma not_stale_iff:
  "\<not> IsStale meta commit fp \<longleftrightarrow>
   (\<exists>m. meta = Some m \<and> trim_space (im_CommitSHA m) = trim_space commit \<and> trim_space commit \<noteq> [] \<and>
     trim_space (im_IgnoreFingerprint m) = trim_space fp \<and> trim_space fp \<noteq> [])"
  by (auto simp: IsStale_def Let_def split: option.splits)

text \<open>
  The description of an index says ``up to date'' exactly when the index is not stale, and the
  reason ``status unknown'' never appears.
\<close>

theorem StalenessInfo_agrees:
  "has_prefix (StalenessInfo now meta commit fp) ''up to date'' \<longleftrightarrow> \<not> IsStale meta commit fp"
  by (auto simp: StalenessInfo_def IsStale_def Let_def split: option.splits)

lemma stale_reason_known:
  assumes "IsStale (Some m) commit fp"
  shows "''status unknown'' \<notin> set (stale_reasons (trim_space (im_CommitSHA m)) (trim_space commit)
    (trim_space (im_IgnoreFingerprint m)) (trim_space fp))"
  using assms by (auto simp: IsStale_def stale_reasons_def Let_def split: if_splits)

section \<open>Identifiers of documents\<close>

lemma split_at_last:
  assumes "p @ x # a = q @ x # b" "x \<notin> set a" "x \<notin> set b"
  shows "p = q \<and> a = b"
proof -
  have "rev a @ x # rev p = rev b @ x # rev q" using arg_cong [OF assms(1), of rev] by simp
  moreover have "takeWhile (\<lambda>y. y \<noteq> x) (rev c @ x # t) = rev c" if "x \<notin> set c" for c t
    using that by (subst takeWhile_append2) auto
  ultimately have "rev a = rev b" using assms(2,3) by metis
  then show ?thesis using assms(1) by simp
qed

lemma int_str_nat: "0 \<le> i \<Longrightarrow> int_str i = nat_str (nat i)"
  by (simp add: int_str_def)

lemma nat_str_free: "CHR '':'' \<notin> set (nat_str n)" "CHR ''-'' \<notin> set (nat_str n)"
  using nat_str_digits [of "CHR '':''" n] nat_str_digits [of "CHR ''-''" n] by auto

text \<open>
  The identifier of a stored chunk is as precise as its file and lines, for any hash that tells the
  two texts apart: chunks of different ranges differ, and two chunks on the same lines of a file get
  the same primary key.
\<close>

lemma generateDocID_identifies:
  assumes "0 \<le> a" "0 \<le> b" "0 \<le> c" "0 \<le> d"
    and "inj_on (\<lambda>s. take 32 (sha256 s))
      {p @ '':'' @ int_str a @ ''-'' @ int_str b, q @ '':'' @ int_str c @ ''-'' @ int_str d}"
  shows "generateDocID sha256 p a b = generateDocID sha256 q c d \<longleftrightarrow> p = q \<and> a = c \<and> b = d"
proof
  assume "generateDocID sha256 p a b = generateDocID sha256 q c d"
  then have "p @ '':'' @ int_str a @ ''-'' @ int_str b = q @ '':'' @ int_str c @ ''-'' @ int_str d"
    unfolding generateDocID_def by (rule inj_onD [OF assms(5)]) simp_all
  then have eq: "(p @ '':'' @ int_str a) @ CHR ''-'' # int_str b = (q @ '':'' @ int_str c) @ CHR ''-'' # int_str d"
    by simp
  have outer: "p @ CHR '':'' # int_str a = q @ CHR '':'' # int_str c \<and> int_str b = int_str d"
    using split_at_last [OF eq] assms nat_str_free by (simp add: int_str_nat)
  then have "p = q \<and> int_str a = int_str c"
    using split_at_last [of p "CHR '':''" "int_str a" q "int_str c"] assms nat_str_free by (simp add: int_str_nat)
  with outer show "p = q \<and> a = c \<and> b = d" by simp
qed simp

end
