(* ===== verification/Indexer.thy ===== *)
theory Indexer
  imports IndexVersion Walker CodeSplitter
begin

text \<open>
  \<open>pkg/indexer.go\<close>: the indexing pipeline over the interfaces of the store, the embedding provider
  and the splitter. The environment of a run holds what it reads from outside: the working directory,
  the file tree, the files, the hash, the splitter and the clock. Logging is left out. The lemmas
  show what a finished run leaves in the store, and what a run that fails anywhere leaves.
\<close>

record IndexOptions =
  io_Path :: string
  io_CollectionName :: string
  io_Branch :: string
  io_CommitSHA :: string
  io_Force :: bool
  io_Walk :: "WalkOptions option"

record index_env =
  ie_cwd :: string
  ie_sha256 :: "string \<Rightarrow> string"
  ie_tree :: "string \<Rightarrow> fs_node"
  ie_read_file :: "string \<Rightarrow> string option"
  ie_split :: "string \<Rightarrow> string \<Rightarrow> string \<Rightarrow> go_error + Chunk list"
  ie_now :: int

datatype index_error =
    StoreFailed string go_error
  | DetectFailed embed_error
  | UnknownDimension
  | EmbedFailed int int embed_error
  | InsertFailed int int go_error

datatype index_outcome = Returned "index_error option" | Panicked

definition embeddingBatchSize :: nat where "embeddingBatchSize = 64"

section \<open>The steps of a run\<close>

definition project_path :: "index_env \<Rightarrow> IndexOptions \<Rightarrow> string" where
  "project_path env opts = path_abs (ie_cwd env) (io_Path opts)"

definition index_collection :: "index_env \<Rightarrow> IndexOptions \<Rightarrow> string" where
  "index_collection env opts = ResolveCollectionName (ie_sha256 env) (project_path env opts) (io_CollectionName opts)"

definition index_matcher :: "index_env \<Rightarrow> IndexOptions \<Rightarrow> Matcher" where
  "index_matcher env opts =
     matcherForWalk (ie_sha256 env) (ie_read_file env) (ie_cwd env) (project_path env opts) (io_Walk opts)"

definition check_fresh ::
  "'s Store \<Rightarrow> string \<Rightarrow> IndexOptions \<Rightarrow> string \<Rightarrow> 's \<Rightarrow> (index_error + bool) \<times> 's" where
  "check_fresh S collection opts fingerprint s =
     (if io_Force opts then (Inr False, s)
      else case st_CollectionExists S collection s of
             (Inl e, s1) \<Rightarrow> (Inl (StoreFailed ''checking collection'' e), s1)
           | (Inr False, s1) \<Rightarrow> (Inr False, s1)
           | (Inr True, s1) \<Rightarrow>
               (case st_GetMetadata S collection s1 of
                  (Inl e, s2) \<Rightarrow> (Inl (StoreFailed ''getting metadata'' e), s2)
                | (Inr meta, s2) \<Rightarrow>
                    (Inr (meta \<noteq> None \<and> \<not> IsStale meta (io_CommitSHA opts) fingerprint), s2)))"

text \<open>The dimension; \<open>None\<close> is a panic of the provider.\<close>

definition detect_dimension :: "'e Provider \<Rightarrow> 'e \<Rightarrow> (index_error + int) option \<times> 'e" where
  "detect_dimension P e =
     (if pr_Dimension P e \<noteq> 0 then (Some (Inr (pr_Dimension P e)), e)
      else case pr_DetectDimension P of
             None \<Rightarrow> (Some (Inl UnknownDimension), e)
           | Some detect \<Rightarrow>
               (case detect e of
                  (None, e') \<Rightarrow> (None, e')
                | (Some (Inl err), e') \<Rightarrow> (Some (Inl (DetectFailed err)), e')
                | (Some (Inr d), e') \<Rightarrow> (Some (if d = 0 then Inl UnknownDimension else Inr d), e')))"

definition recreate :: "'s Store \<Rightarrow> string \<Rightarrow> int \<Rightarrow> 's \<Rightarrow> index_error option \<times> 's" where
  "recreate S collection dimension s =
     (case st_CollectionExists S collection s of
        (Inl e, s1) \<Rightarrow> (Some (StoreFailed ''checking collection before recreate'' e), s1)
      | (Inr b, s1) \<Rightarrow>
          (case (if b then st_DropCollection S collection s1 else (None, s1)) of
             (Some e, s2) \<Rightarrow> (Some (StoreFailed ''dropping collection'' e), s2)
           | (None, s2) \<Rightarrow>
               (case st_CreateCollection S collection dimension s2 of
                  (Some e, s3) \<Rightarrow> (Some (StoreFailed ''creating collection'' e), s3)
                | (None, s3) \<Rightarrow> (None, s3))))"

text \<open>A file that cannot be read or split is skipped.\<close>

definition file_chunks :: "index_env \<Rightarrow> string \<Rightarrow> string \<Rightarrow> Chunk list" where
  "file_chunks env projectPath file =
     (case ie_read_file env file of
        None \<Rightarrow> []
      | Some data \<Rightarrow>
          (case ie_split env data (LanguageFromExtension (path_ext file)) (walk_rel projectPath file) of
             Inl e \<Rightarrow> []
           | Inr chunks \<Rightarrow> chunks))"

definition chunk_document :: "Chunk \<Rightarrow> Document" where
  "chunk_document c =
     \<lparr>doc_ID = [], doc_Content = ch_Content c, doc_FilePath = ch_FilePath c, doc_StartLine = ch_StartLine c,
      doc_EndLine = ch_EndLine c, doc_Language = ch_Language c, doc_NodeType = ch_NodeType c, doc_Metadata = []\<rparr>"

text \<open>The batches from the chunk with index \<open>i\<close> on; \<open>chunks\<close> is the rest from there.\<close>

function index_batches ::
  "'e Provider \<Rightarrow> 's Store \<Rightarrow> string \<Rightarrow> nat \<Rightarrow> Chunk list \<Rightarrow> 'e \<Rightarrow> 's \<Rightarrow> index_outcome \<times> 'e \<times> 's" where
  "index_batches P S collection i chunks e s =
     (if chunks = [] then (Returned None, e, s)
      else let batch = take embeddingBatchSize chunks; stop = i + length batch
           in case pr_EmbedBatch P (map ch_Content batch) e of
                (None, e') \<Rightarrow> (Panicked, e', s)
              | (Some (Inl err), e') \<Rightarrow> (Returned (Some (EmbedFailed (int i) (int stop) err)), e', s)
              | (Some (Inr vectors), e') \<Rightarrow>
                  (case st_Insert S collection (map chunk_document batch) vectors s of
                     (Some err, s') \<Rightarrow> (Returned (Some (InsertFailed (int i) (int stop) err)), e', s')
                   | (None, s') \<Rightarrow>
                       index_batches P S collection (i + embeddingBatchSize) (drop embeddingBatchSize chunks) e' s'))"
  by pat_completeness auto
termination
  by (relation "measure (\<lambda>(P, S, collection, i, chunks, e, s). length chunks)")
    (auto simp: embeddingBatchSize_def)

declare index_batches.simps [simp del]

definition run_metadata :: "index_env \<Rightarrow> IndexOptions \<Rightarrow> string list \<Rightarrow> Chunk list \<Rightarrow> IndexMetadata" where
  "run_metadata env opts files chunks =
     \<lparr>im_Branch = io_Branch opts, im_CommitSHA = io_CommitSHA opts,
      im_IgnoreFingerprint = mt_fingerprint (index_matcher env opts), im_IndexedAt = ie_now env,
      im_FileCount = int (length files), im_ChunkCount = int (length chunks)\<rparr>"

definition index_files :: "index_env \<Rightarrow> IndexOptions \<Rightarrow> string list" where
  "index_files env opts =
     walkFiles (project_path env opts) (io_Walk opts) (index_matcher env opts) (ie_tree env (project_path env opts))"

definition index_chunks :: "index_env \<Rightarrow> IndexOptions \<Rightarrow> Chunk list" where
  "index_chunks env opts = concat (map (file_chunks env (project_path env opts)) (index_files env opts))"

text \<open>Embedding and inserting all chunks, then saving the metadata.\<close>

definition fill_collection ::
  "index_env \<Rightarrow> 'e Provider \<Rightarrow> 's Store \<Rightarrow> IndexOptions \<Rightarrow> 'e \<Rightarrow> 's \<Rightarrow> index_outcome \<times> 'e \<times> 's" where
  "fill_collection env P S opts e s =
     (let collection = index_collection env opts; files = index_files env opts; chunks = index_chunks env opts
      in case index_batches P S collection 0 chunks e s of
           (Returned None, e', s') \<Rightarrow>
             (case st_SetMetadata S collection (run_metadata env opts files chunks) s' of
                (Some err, s'') \<Rightarrow> (Returned (Some (StoreFailed ''saving metadata'' err)), e', s'')
              | (None, s'') \<Rightarrow> (Returned None, e', s''))
         | r \<Rightarrow> r)"

definition Index ::
  "index_env \<Rightarrow> 'e Provider \<Rightarrow> 's Store \<Rightarrow> IndexOptions \<Rightarrow> 'e \<Rightarrow> 's \<Rightarrow> index_outcome \<times> 'e \<times> 's" where
  "Index env P S opts e s =
     (let collection = index_collection env opts
      in case check_fresh S collection opts (mt_fingerprint (index_matcher env opts)) s of
           (Inl err, s1) \<Rightarrow> (Returned (Some err), e, s1)
         | (Inr True, s1) \<Rightarrow> (Returned None, e, s1)
         | (Inr False, s1) \<Rightarrow>
             (case detect_dimension P e of
                (None, e1) \<Rightarrow> (Panicked, e1, s1)
              | (Some (Inl err), e1) \<Rightarrow> (Returned (Some err), e1, s1)
              | (Some (Inr dimension), e1) \<Rightarrow>
                  (case recreate S collection dimension s1 of
                     (Some err, s2) \<Rightarrow> (Returned (Some err), e1, s2)
                   | (None, s2) \<Rightarrow> fill_collection env P S opts e1 s2)))"

section \<open>The batches\<close>

lemma index_batches_Nil [simp]: "index_batches P S collection i [] e s = (Returned None, e, s)"
  by (simp add: index_batches.simps)

context index_store
begin

text \<open>The batches append a prefix of the chunks to the collection, and all of them when they succeed.\<close>

lemma index_batches_prefix:
  assumes "inv s" "docs s = Some ds" "index_batches P S name i chunks e s = (r, e', s')"
  shows "inv s' \<and> meta s' = meta s \<and>
    (\<exists>k. docs s' = Some (ds @ map (\<lambda>c. stored (chunk_document c)) (take k chunks)) \<and>
      (r = Returned None \<longrightarrow> length chunks \<le> k))"
  using assms
proof (induction chunks arbitrary: i e s ds rule: measure_induct_rule [where f = length])
  case (less chunks)
  show ?case
  proof (cases "chunks = []")
    case True
    then show ?thesis using less.prems by auto
  next
    case False
    define batch where "batch = take embeddingBatchSize chunks"
    obtain er e1 where er: "pr_EmbedBatch P (map ch_Content batch) e = (er, e1)" by fastforce
    note step = less.prems(3) [unfolded index_batches.simps [of P S name i chunks e s]
        if_not_P [OF False] Let_def batch_def [symmetric] er prod.case]
    show ?thesis
    proof (cases "\<exists>vectors. er = Some (Inr vectors)")
      case no: False
      then show ?thesis
        using step less.prems by (auto split: option.splits sum.splits intro: exI [of _ 0])
    next
      case True
      then obtain vectors where vectors: "er = Some (Inr vectors)" by blast
      obtain ir s1 where ins: "st_Insert S name (map chunk_document batch) vectors s = (ir, s1)" by fastforce
      note law = insert_law [OF less.prems(1,2) ins]
      show ?thesis
      proof (cases ir)
        case (Some err)
        then show ?thesis using step vectors ins law less.prems by (auto intro: exI [of _ 0])
      next
        case None
        define rest where "rest = drop embeddingBatchSize chunks"
        have go: "index_batches P S name (i + embeddingBatchSize) rest e1 s1 = (r, e', s')"
          using step vectors ins None by (simp add: rest_def)
        have d1: "docs s1 = Some (ds @ map (\<lambda>c. stored (chunk_document c)) batch)" and i1: "inv s1" and m1: "meta s1 = meta s"
          using law None by (simp_all add: comp_def)
        have shorter: "length rest < length chunks" using False by (simp add: rest_def embeddingBatchSize_def)
        obtain k where k: "inv s'" "meta s' = meta s1"
          "docs s' = Some ((ds @ map (\<lambda>c. stored (chunk_document c)) batch) @
             map (\<lambda>c. stored (chunk_document c)) (take k rest))"
          "r = Returned None \<longrightarrow> length rest \<le> k"
          using less.IH [OF shorter i1 d1 go] by blast
        have "take (embeddingBatchSize + k) chunks = batch @ take k rest"
          by (simp add: batch_def rest_def take_add)
        then show ?thesis
          using k m1 by (intro conjI exI [of _ "embeddingBatchSize + k"]) (auto simp: rest_def)
      qed
    qed
  qed
qed

end

section \<open>What a run leaves in the store\<close>

text \<open>
  The abstract view of a run: the collection of a finished run is exactly the run's documents, with
  the run's metadata; a run that found the index fresh changes nothing.
\<close>

definition run_documents :: "(Document \<Rightarrow> Document) \<Rightarrow> index_env \<Rightarrow> IndexOptions \<Rightarrow> Document list" where
  "run_documents stored env opts = map (\<lambda>c. stored (chunk_document c)) (index_chunks env opts)"

definition run_meta :: "index_env \<Rightarrow> IndexOptions \<Rightarrow> IndexMetadata" where
  "run_meta env opts = json_metadata (run_metadata env opts (index_files env opts) (index_chunks env opts))"

text \<open>An index is sound when metadata are present only with a collection of as many documents.\<close>

definition sound_index :: "Document list option \<Rightarrow> IndexMetadata option \<Rightarrow> bool" where
  "sound_index ds m \<longleftrightarrow> (\<forall>meta. m = Some meta \<longrightarrow> (\<exists>docs. ds = Some docs \<and> int (length docs) = im_ChunkCount meta))"

lemma sound_index_simps [simp]:
  "sound_index ds None"
  "sound_index None (Some m) \<longleftrightarrow> False"
  "sound_index (Some docs) (Some m) \<longleftrightarrow> int (length docs) = im_ChunkCount m"
  by (simp_all add: sound_index_def)

lemma run_sound: "sound_index (Some (run_documents stored env opts)) (Some (run_meta env opts))"
  by (simp add: run_documents_def run_meta_def json_metadata_def run_metadata_def)

context index_store
begin

lemma check_fresh_keeps:
  assumes "inv s" "check_fresh S name opts fp s = (r, s')"
  shows "inv s' \<and> docs s' = docs s \<and> meta s' = meta s \<and>
    (r = Inr True \<longrightarrow> docs s \<noteq> None \<and> \<not> io_Force opts \<and> \<not> IsStale (meta s) (io_CommitSHA opts) fp)"
proof (cases "io_Force opts")
  case True
  then show ?thesis using assms by (auto simp: check_fresh_def)
next
  case False
  obtain rb s1 where ex: "st_CollectionExists S name s = (rb, s1)" by fastforce
  note l1 = exists_law [OF assms(1) ex]
  show ?thesis
  proof (cases "rb = Inr True")
    case no: False
    then show ?thesis using assms(2) False ex l1
      by (cases rb) (auto simp: check_fresh_def split: bool.splits)
  next
    case True
    obtain rm s2 where get: "st_GetMetadata S name s1 = (rm, s2)" by fastforce
    note l2 = get_law [OF conjunct1 [OF l1] get]
    show ?thesis
      using assms(2) False ex True get l1 l2
      by (cases rm) (auto simp: check_fresh_def)
  qed
qed

lemma recreate_keeps:
  assumes "inv s" "recreate S name d s = (r, s')"
  shows "inv s' \<and> (meta s' = meta s \<or> meta s' = None) \<and>
    (if r = None then docs s' = Some []
     else (docs s' = docs s \<and> meta s' = meta s) \<or> (docs s' = None \<or> docs s' = Some []))"
proof -
  obtain rb s1 where ex: "st_CollectionExists S name s = (rb, s1)" by fastforce
  note l1 = exists_law [OF assms(1) ex]
  show ?thesis
  proof (cases rb)
    case (Inl e)
    then show ?thesis using assms(2) ex l1 by (auto simp: recreate_def)
  next
    case (Inr b)
    obtain rd s2 where dr: "(if b then st_DropCollection S name s1 else (None, s1)) = (rd, s2)" by fastforce
    have l2: "inv s2 \<and> (if rd = None then docs s2 = None \<and> (meta s2 = meta s \<or> meta s2 = None)
        else docs s2 = docs s \<and> meta s2 = meta s)"
      using dr l1 Inr drop_law [of s1 rd s2] by (auto split: if_splits)
    show ?thesis
    proof (cases rd)
      case (Some e)
      then show ?thesis using assms(2) ex Inr dr l2 by (auto simp: recreate_def)
    next
      case None
      obtain rc s3 where cr: "st_CreateCollection S name d s2 = (rc, s3)" by fastforce
      have "docs s2 = None" "inv s2" using l2 None by simp_all
      note l3 = create_law [OF this(2,1) cr]
      show ?thesis
        using assms(2) ex Inr dr None cr l2 l3 by (auto simp: recreate_def split: option.splits)
    qed
  qed
qed

lemma fill_keeps:
  assumes name: "index_collection env opts = name" and s: "inv s" "docs s = Some []"
    and fill: "fill_collection env P S opts e s = (r, e', s')"
  shows "inv s' \<and>
    (if meta s' = meta s then r = Returned None \<longrightarrow> docs s' = Some (run_documents stored env opts) \<and> meta s = Some (run_meta env opts)
     else docs s' = Some (run_documents stored env opts) \<and> meta s' = Some (run_meta env opts))"
proof -
  obtain br e1 s1 where b: "index_batches P S name 0 (index_chunks env opts) e s = (br, e1, s1)"
    by (metis prod_cases3)
  obtain k where k: "inv s1" "meta s1 = meta s"
    "docs s1 = Some (map (\<lambda>c. stored (chunk_document c)) (take k (index_chunks env opts)))"
    "br = Returned None \<longrightarrow> length (index_chunks env opts) \<le> k"
    using index_batches_prefix [OF s b] by auto
  show ?thesis
  proof (cases "br = Returned None")
    case False
    then have "r = br \<and> s' = s1" using fill b name
      by (cases br) (auto simp: fill_collection_def Let_def split: option.splits)
    with k False show ?thesis by simp
  next
    case True
    obtain sr s2 where set': "st_SetMetadata S name
        (run_metadata env opts (index_files env opts) (index_chunks env opts)) s1 = (sr, s2)" by fastforce
    have docs1: "docs s1 = Some (run_documents stored env opts)"
      using k True by (simp add: run_documents_def)
    note law = set_law [OF k(1) docs1 set']
    have "s' = s2 \<and> (r = Returned None \<longleftrightarrow> sr = None)"
      using fill b name True set' by (auto simp: fill_collection_def Let_def split: option.splits)
    with law k docs1 show ?thesis by (auto simp: run_meta_def)
  qed
qed

text \<open>A run that returns without an error was skipped or has replaced the index completely.\<close>

lemma Index_complete:
  assumes name: "index_collection env opts = name" and s: "inv s"
    and run: "Index env P S opts e s = (Returned None, e', s')"
  shows "inv s' \<and>
    (docs s' = docs s \<and> docs s \<noteq> None \<and> meta s' = meta s \<and> \<not> io_Force opts \<and>
       \<not> IsStale (meta s) (io_CommitSHA opts) (mt_fingerprint (index_matcher env opts)) \<or>
     docs s' = Some (run_documents stored env opts) \<and> meta s' = Some (run_meta env opts))"
proof -
  obtain cr s1 where c: "check_fresh S name opts (mt_fingerprint (index_matcher env opts)) s = (cr, s1)" by fastforce
  note k1 = check_fresh_keeps [OF s c]
  show ?thesis
  proof (cases "cr = Inr False")
    case False
    then show ?thesis using run name c k1 by (cases cr) (auto simp: Index_def Let_def split: bool.splits)
  next
    case True
    obtain dr e1 where d: "detect_dimension P e = (dr, e1)" by fastforce
    then obtain dimension where dim: "dr = Some (Inr dimension)"
      using run name c True by (auto simp: Index_def Let_def split: option.splits sum.splits)
    obtain rr s2 where re: "recreate S name dimension s1 = (rr, s2)" by fastforce
    have rr: "rr = None" and fill: "fill_collection env P S opts e1 s2 = (Returned None, e', s')"
      using run name c True d dim re by (auto simp: Index_def Let_def split: option.splits)
    note k2 = recreate_keeps [OF conjunct1 [OF k1] re]
    have "inv s2" "docs s2 = Some []" using k2 rr by simp_all
    from fill_keeps [OF name this fill] show ?thesis by (auto split: if_splits)
  qed
qed

end

context clean_drop_store
begin

lemma recreate_clean:
  assumes "inv s" "sound_index (docs s) (meta s)" "recreate S name d s = (r, s')"
  shows "sound_index (docs s') (meta s') \<and> (r = None \<longrightarrow> meta s' = None)"
proof -
  obtain rb s1 where ex: "st_CollectionExists S name s = (rb, s1)" by fastforce
  note l1 = exists_law [OF assms(1) ex]
  show ?thesis
  proof (cases rb)
    case (Inl e)
    then show ?thesis using assms ex l1 by (auto simp: recreate_def)
  next
    case (Inr b)
    obtain rd s2 where dr: "(if b then st_DropCollection S name s1 else (None, s1)) = (rd, s2)" by fastforce
    have l2: "inv s2 \<and> (if rd = None then docs s2 = None \<and> meta s2 = None
        else docs s2 = docs s \<and> meta s2 = meta s)"
    proof (cases b)
      case True
      then have "st_DropCollection S name s1 = (rd, s2)" using dr by simp
      with drop_law [of s1 rd s2] drop_clean [of s1 s2] l1 show ?thesis by auto
    next
      case False
      then have "meta s = None" using l1 Inr assms(2) by (cases "meta s") auto
      with False dr l1 Inr show ?thesis by auto
    qed
    show ?thesis
    proof (cases rd)
      case (Some e)
      then show ?thesis using assms ex Inr dr l2 by (auto simp: recreate_def)
    next
      case None
      obtain rc s3 where cr: "st_CreateCollection S name d s2 = (rc, s3)" by fastforce
      have "docs s2 = None" "inv s2" "meta s2 = None" using l2 None by simp_all
      with create_law [OF this(2,1) cr] show ?thesis
        using assms(3) ex Inr dr None cr by (auto simp: recreate_def split: option.splits)
    qed
  qed
qed

text \<open>However a run ends, an index that was sound stays sound.\<close>

lemma Index_sound:
  assumes name: "index_collection env opts = name" and s: "inv s" "sound_index (docs s) (meta s)"
    and run: "Index env P S opts e s = (r, e', s')"
  shows "inv s' \<and> sound_index (docs s') (meta s')"
proof -
  obtain cr s1 where c: "check_fresh S name opts (mt_fingerprint (index_matcher env opts)) s = (cr, s1)" by fastforce
  note k1 = check_fresh_keeps [OF s(1) c]
  then have s1: "inv s1" "sound_index (docs s1) (meta s1)" using s by auto
  show ?thesis
  proof (cases "cr = Inr False")
    case False
    then show ?thesis using run name c s1 by (cases cr) (auto simp: Index_def Let_def split: bool.splits)
  next
    case True
    obtain dr e1 where d: "detect_dimension P e = (dr, e1)" by fastforce
    show ?thesis
    proof (cases "\<exists>dimension. dr = Some (Inr dimension)")
      case False
      then show ?thesis
        using run name c True d s1 by (auto simp: Index_def Let_def split: option.splits sum.splits)
    next
      case t: True
      then obtain dimension where dim: "dr = Some (Inr dimension)" by blast
      obtain rr s2 where re: "recreate S name dimension s1 = (rr, s2)" by fastforce
      note k2 = recreate_keeps [OF s1(1) re] and k3 = recreate_clean [OF s1 re]
      show ?thesis
      proof (cases rr)
        case (Some err)
        then show ?thesis using run name c True d dim re k2 k3 by (simp add: Index_def Let_def)
      next
        case None
        then have fill: "fill_collection env P S opts e1 s2 = (r, e', s')"
          using run name c True d dim re by (simp add: Index_def Let_def)
        have "inv s2" "docs s2 = Some []" "meta s2 = None" using k2 k3 None by simp_all
        with fill_keeps [OF name this(1,2) fill] run_sound show ?thesis by (auto split: if_splits)
      qed
    qed
  qed
qed

end

section \<open>Histories of an index\<close>

text \<open>
  \<open>cs clear\<close> drops the collection when it exists. A history of one collection is any sequence of runs,
  each with its own options, files, clock and embedder state, ending in any way, and of clears.
\<close>

definition clear_index :: "'s Store \<Rightarrow> string \<Rightarrow> 's \<Rightarrow> index_error option \<times> 's" where
  "clear_index S collection s =
     (case st_CollectionExists S collection s of
        (Inl e, s1) \<Rightarrow> (Some (StoreFailed ''checking collection'' e), s1)
      | (Inr False, s1) \<Rightarrow> (None, s1)
      | (Inr True, s1) \<Rightarrow>
          (case st_DropCollection S collection s1 of
             (Some e, s2) \<Rightarrow> (Some (StoreFailed ''dropping collection'' e), s2)
           | (None, s2) \<Rightarrow> (None, s2)))"

inductive index_history :: "(string \<Rightarrow> string) \<Rightarrow> 'e Provider \<Rightarrow> 's Store \<Rightarrow> string \<Rightarrow> 's \<Rightarrow> 's \<Rightarrow> bool"
  for sha256 P S name s0
where
  history_start: "index_history sha256 P S name s0 s0"
| history_run: "index_history sha256 P S name s0 s \<Longrightarrow> ie_sha256 env = sha256 \<Longrightarrow>
    index_collection env opts = name \<Longrightarrow> Index env P S opts e s = (r, e', s') \<Longrightarrow>
    index_history sha256 P S name s0 s'"
| history_clear: "index_history sha256 P S name s0 s \<Longrightarrow> clear_index S name s = (c, s') \<Longrightarrow>
    index_history sha256 P S name s0 s'"

context clean_drop_store
begin

lemma clear_sound:
  assumes "inv s" "sound_index (docs s) (meta s)" "clear_index S name s = (c, s')"
  shows "inv s' \<and> sound_index (docs s') (meta s')"
proof -
  obtain rb s1 where ex: "st_CollectionExists S name s = (rb, s1)" by fastforce
  note l1 = exists_law [OF assms(1) ex]
  show ?thesis
  proof (cases "rb = Inr True")
    case False
    then show ?thesis using assms l1 ex by (cases rb) (auto simp: clear_index_def split: bool.splits)
  next
    case True
    obtain rd s2 where dr: "st_DropCollection S name s1 = (rd, s2)" by fastforce
    have "s' = s2" using assms(3) ex True dr by (auto simp: clear_index_def split: option.splits)
    with drop_law [OF conjunct1 [OF l1] dr] drop_clean [OF conjunct1 [OF l1]] dr l1 assms(2)
    show ?thesis by (cases rd) auto
  qed
qed

lemma history_sound:
  assumes "index_history sha256 P S name s0 s" "inv s0" "sound_index (docs s0) (meta s0)"
  shows "inv s \<and> sound_index (docs s) (meta s)"
  using assms
proof (induction rule: index_history.induct)
  case (history_run s env opts e r e' s')
  then show ?case using Index_sound [of env opts s P e r e' s'] by simp
next
  case (history_clear s c s')
  then show ?case using clear_sound [of s c s'] by simp
qed simp

end

context milvus_index
begin

lemma store_contract:
  "index_store (milvus_store sha256 C) name (milvus_inv rows name) (milvus_docs rows name) (milvus_meta rows name)
    (stored_document sha256)"
  by (rule milvus_contract.index_store_axioms)

end

context reliable_milvus_index
begin

lemma clean_contract:
  "clean_drop_store (milvus_store sha256 C) name (milvus_inv rows name) (milvus_docs rows name) (milvus_meta rows name)
    (stored_document sha256)"
  by (rule milvus_clean.clean_drop_store_axioms)

end

section \<open>A concrete index\<close>

text \<open>One file in one chunk, a provider that fails as its script says, and the service in memory.\<close>

definition demo_env :: index_env where
  "demo_env =
     \<lparr>ie_cwd = ''/w'', ie_sha256 = (\<lambda>t. ''h''), ie_tree = (\<lambda>p. FsDir [(''a.go'', FsFile 4 True)]),
      ie_read_file = (\<lambda>p. if p = ''/w/a.go'' then Some ''code'' else None),
      ie_split = (\<lambda>code language file. Inr [\<lparr>ch_Content = code, ch_FilePath = file, ch_StartLine = 1,
        ch_EndLine = 1, ch_Language = language, ch_NodeType = ''block''\<rparr>]),
      ie_now = 0\<rparr>"

definition demo_options :: "bool \<Rightarrow> IndexOptions" where
  "demo_options force =
     \<lparr>io_Path = ''.'', io_CollectionName = ''c'', io_Branch = ''b'', io_CommitSHA = ''d1'',
      io_Force = force, io_Walk = None\<rparr>"

definition script_provider :: "bool list Provider" where
  "script_provider =
     \<lparr>pr_Embed = (\<lambda>t e. (Some (Inl EmptyEmbeddings), e)),
      pr_EmbedBatch = (\<lambda>ts e. case e of
          True # e' \<Rightarrow> (Some (Inl (RequestFailed ''down'')), e')
        | _ \<Rightarrow> (Some (Inr (map (\<lambda>t. [1]) ts)), tl e)),
      pr_Dimension = (\<lambda>e. 1), pr_DetectDimension = None\<rparr>"

definition demo_store :: "bool \<Rightarrow> memory store_state Store" where
  "demo_store drops_fail = milvus_store (\<lambda>t. ''h'') (mem_milvus drops_fail)"

definition demo_state :: "bool list \<Rightarrow> memory store_state" where
  "demo_state faults = (NewMilvusStore [] [], \<lparr>mem_rows = (\<lambda>n. None), mem_faults = faults\<rparr>)"

section \<open>Runs that cannot fail\<close>

text \<open>
  A store on which no operation fails while \<open>up\<close> holds, and a provider that gives every text a
  vector: then every run returns without an error.
\<close>

locale live_store = index_store +
  fixes up :: "'a \<Rightarrow> bool"
  assumes live_exists: "up s \<Longrightarrow> inv s \<Longrightarrow> \<exists>b s'. st_CollectionExists S name s = (Inr b, s') \<and> up s'"
    and live_get: "up s \<Longrightarrow> inv s \<Longrightarrow> \<exists>m s'. st_GetMetadata S name s = (Inr m, s') \<and> up s'"
    and live_drop: "up s \<Longrightarrow> inv s \<Longrightarrow> \<exists>s'. st_DropCollection S name s = (None, s') \<and> up s'"
    and live_create: "up s \<Longrightarrow> inv s \<Longrightarrow> docs s = None \<Longrightarrow> \<exists>s'. st_CreateCollection S name d s = (None, s') \<and> up s'"
    and live_insert: "up s \<Longrightarrow> inv s \<Longrightarrow> docs s \<noteq> None \<Longrightarrow> length xs = length vs \<Longrightarrow>
      \<exists>s'. st_Insert S name xs vs s = (None, s') \<and> up s'"
    and live_set: "up s \<Longrightarrow> inv s \<Longrightarrow> docs s \<noteq> None \<Longrightarrow> \<exists>s'. st_SetMetadata S name m s = (None, s') \<and> up s'"
begin

lemma live_batches:
  assumes P: "\<And>ts e. \<exists>vs e'. pr_EmbedBatch P ts e = (Some (Inr vs), e') \<and> length vs = length ts"
    and s: "up s" "inv s" "docs s = Some ds"
  shows "\<exists>e' s'. index_batches P S name i chunks e s = (Returned None, e', s') \<and> up s'"
  using s
proof (induction chunks arbitrary: i e s ds rule: measure_induct_rule [where f = length])
  case (less chunks)
  show ?case
  proof (cases "chunks = []")
    case True
    then show ?thesis using less.prems by simp
  next
    case False
    define batch rest where "batch = take embeddingBatchSize chunks" and "rest = drop embeddingBatchSize chunks"
    obtain vs e1 where vs: "pr_EmbedBatch P (map ch_Content batch) e = (Some (Inr vs), e1)" "length vs = length batch"
      using P [of "map ch_Content batch" e] by auto
    obtain s1 where s1: "st_Insert S name (map chunk_document batch) vs s = (None, s1)" "up s1"
      using live_insert [OF less.prems(1,2), of "map chunk_document batch" vs] less.prems(3) vs(2) by auto
    note law = insert_law [OF less.prems(2,3) s1(1)]
    have shorter: "length rest < length chunks" using False by (simp add: rest_def embeddingBatchSize_def)
    obtain e' s' where "index_batches P S name (i + embeddingBatchSize) rest e1 s1 = (Returned None, e', s')" "up s'"
      using less.IH [OF shorter s1(2) conjunct1 [OF law]] law by blast
    then show ?thesis
      using False vs s1 by (simp add: index_batches.simps [of P S name i chunks] Let_def batch_def [symmetric] rest_def)
  qed
qed

lemma live_recreate:
  assumes s: "up s" "inv s"
  shows "\<exists>s'. recreate S name d s = (None, s') \<and> up s'"
proof -
  obtain b s1 where 1: "st_CollectionExists S name s = (Inr b, s1)" "up s1" using live_exists [OF s] by blast
  note l1 = exists_law [OF s(2) 1(1)]
  obtain s2 where 2: "(if b then st_DropCollection S name s1 else (None, s1)) = (None, s2)" "up s2"
    using live_drop [OF 1(2) conjunct1 [OF l1]] 1(2) by (cases b) auto
  have "inv s2 \<and> docs s2 = None" using 2(1) l1 drop_law [of s1 None s2] by (auto split: if_splits)
  then obtain s3 where "st_CreateCollection S name d s2 = (None, s3)" "up s3"
    using live_create [of s2 d] 2(2) by blast
  then show ?thesis using 1 2 by (simp add: recreate_def)
qed

lemma live_check:
  assumes s: "up s" "inv s"
  shows "\<exists>b s'. check_fresh S name opts fp s = (Inr b, s') \<and> up s'"
proof (cases "io_Force opts")
  case True
  then show ?thesis using s by (auto simp: check_fresh_def)
next
  case False
  obtain b s1 where 1: "st_CollectionExists S name s = (Inr b, s1)" "up s1" using live_exists [OF s] by blast
  obtain m s2 where 2: "st_GetMetadata S name s1 = (Inr m, s2)" "up s2"
    using live_get [OF 1(2)] exists_law [OF s(2) 1(1)] by blast
  show ?thesis using 1 2 False by (cases b) (auto simp: check_fresh_def)
qed

lemma Index_live:
  assumes P: "\<And>ts e. \<exists>vs e'. pr_EmbedBatch P ts e = (Some (Inr vs), e') \<and> length vs = length ts"
    and dim: "pr_Dimension P e \<noteq> 0" and name: "index_collection env opts = name" and s: "up s" "inv s"
  shows "\<exists>e' s'. Index env P S opts e s = (Returned None, e', s')"
proof -
  obtain b s1 where c: "check_fresh S name opts (mt_fingerprint (index_matcher env opts)) s = (Inr b, s1)" "up s1"
    using live_check [OF s] by blast
  have i1: "inv s1" using check_fresh_keeps [OF s(2) c(1)] by simp
  show ?thesis
  proof (cases b)
    case True
    then show ?thesis using c name by (simp add: Index_def Let_def)
  next
    case False
    obtain s2 where r: "recreate S name (pr_Dimension P e) s1 = (None, s2)" "up s2"
      using live_recreate [OF c(2) i1] by blast
    have i2: "inv s2" "docs s2 = Some []" using recreate_keeps [OF i1 r(1)] by simp_all
    obtain e3 s3 where b3: "index_batches P S name 0 (index_chunks env opts) e s2 = (Returned None, e3, s3)" "up s3"
      using live_batches [OF P r(2) i2] by blast
    have "inv s3" "docs s3 \<noteq> None" using index_batches_prefix [OF i2 b3(1)] by auto
    then obtain s4 where "st_SetMetadata S name (run_metadata env opts (index_files env opts) (index_chunks env opts)) s3 = (None, s4)"
      using live_set [OF b3(2)] by blast
    then show ?thesis
      using c name False r b3 dim
      by (simp add: Index_def Let_def detect_dimension_def fill_collection_def)
  qed
qed

end

text \<open>The service in memory is live as long as its script is empty.\<close>

definition mem_up :: "memory store_state \<Rightarrow> bool" where
  "mem_up s \<longleftrightarrow> mem_faults (snd s) = []"

lemma mem_calls_up:
  assumes "mem_faults m = []"
  shows "mem_call f m = (None, f m)" and "mem_ask g m = (Inr (g m), m)"
  using assms by (simp_all add: mem_call_def mem_ask_def)

lemma mem_updates_up [simp]:
  "mem_faults (mem_create sch m) = mem_faults m" "mem_faults (mem_insert n cols m) = mem_faults m"
  "mem_faults (mem_upsert n cols m) = mem_faults m"
  by (simp_all add: mem_create_def mem_insert_def mem_upsert_def split: option.splits)

lemma mem_metadata_cells:
  assumes "meta_rows_ok (mem_rows m n)"
  shows "\<exists>x. first_metadata (mem_metadata n m) = Inr x"
proof (cases "mem_rows m n")
  case None
  then show ?thesis by (simp add: mem_metadata_def first_metadata_def)
next
  case (Some bs)
  have f: "filter (\<lambda>b. hd b = meta_key_column) bs = bs"
    using assms Some meta_rows_ok_key [of bs] by (simp add: filter_id_conv)
  show ?thesis
  proof (cases "bs = []")
    case True
    then show ?thesis using Some by (simp add: mem_metadata_def first_metadata_def)
  next
    case False
    then have "last bs \<in> set bs" by simp
    then obtain meta where "last bs = metadata_columns meta" using assms Some by auto
    moreover have "mem_metadata n m = last bs" using Some f False by (cases bs) (simp_all add: mem_metadata_def)
    ultimately show ?thesis by (simp add: first_metadata_def metadata_columns_value)
  qed
qed

interpretation memory_live: live_store "milvus_store sha256 (mem_milvus drops_fail)" name "milvus_inv mem_rows name"
  "milvus_docs mem_rows name" "milvus_meta mem_rows name" "stored_document sha256" mem_up
  for sha256 drops_fail name
proof (unfold_locales, goal_cases)
  case (1 s)
  then show ?case
    by (simp add: milvus_store_def CollectionExists_def mem_milvus_def mem_calls_up mem_up_def)
next
  case (2 s)
  have "\<exists>x. first_metadata (mem_metadata (name @ metadataCollectionSuffix) (snd s)) = Inr x"
    using 2 by (intro mem_metadata_cells) (simp add: milvus_inv_def)
  with 2 show ?case
    by (cases "mem_rows (snd s) (name @ metadataCollectionSuffix)")
      (auto simp: milvus_store_def GetMetadata_def mem_milvus_def mem_calls_up mem_up_def Let_def)
next
  case (3 s)
  then show ?case
    by (simp add: milvus_store_def DropCollection_def and_then_def wrap_error_def on_client_def mem_milvus_def
        mem_calls_up mem_up_def Let_def)
next
  case (4 s d)
  then show ?case
    by (simp add: milvus_store_def CreateCollection_def create_documents_def create_metadata_def and_then_def
        wrap_error_def on_client_def mem_milvus_def mem_calls_up mem_up_def)
next
  case (5 s xs vs)
  then show ?case
    by (cases s) (simp add: milvus_store_def Insert_def wrap_error_def on_client_def mem_milvus_def mem_calls_up mem_up_def)
next
  case (6 s m)
  then show ?case
    by (simp add: milvus_store_def SetMetadata_def wrap_error_def on_client_def mem_milvus_def mem_calls_up
        mem_up_def Let_def)
qed

section \<open>Properties\<close>

text \<open>
  C5. What a run leaves behind. On any Milvus service that keeps its contract, a run that returns
  without an error either found the index fresh and changed nothing, or has replaced the collection
  by exactly the documents of the run's chunks, in order, together with the run's metadata.
\<close>

theorem Index_replaces:
  assumes "milvus_client C rows"
    and "milvus_inv rows (index_collection env opts) s"
    and "Index env P (milvus_store (ie_sha256 env) C) opts e s = (Returned None, e', s')"
  shows "milvus_docs rows (index_collection env opts) s' = milvus_docs rows (index_collection env opts) s \<and>
      milvus_meta rows (index_collection env opts) s' = milvus_meta rows (index_collection env opts) s \<and>
      \<not> io_Force opts \<and> \<not> IsStale (milvus_meta rows (index_collection env opts) s) (io_CommitSHA opts)
          (mt_fingerprint (index_matcher env opts)) \<or>
    milvus_docs rows (index_collection env opts) s' =
      Some (run_documents (stored_document (ie_sha256 env)) env opts) \<and>
    milvus_meta rows (index_collection env opts) s' = Some (run_meta env opts)"
proof -
  have "milvus_index C rows" using assms(1) by (simp add: milvus_index_def)
  from index_store.Index_complete [OF milvus_index.store_contract [OF this] refl assms(2,3)]
  show ?thesis by blast
qed

lemma demo_state_inv: "milvus_inv mem_rows name (demo_state faults)"
  by (simp add: demo_state_def milvus_inv_def)

lemma demo_first_run:
  "fst (Index demo_env script_provider (milvus_store (ie_sha256 demo_env) (mem_milvus True)) (demo_options True) []
     (demo_state [])) = Returned None"
  by code_simp

theorem Index_replaces_witness:
  "milvus_docs mem_rows ''c'' (snd (snd (Index demo_env script_provider
      (milvus_store (ie_sha256 demo_env) (mem_milvus True)) (demo_options True) [] (demo_state [])))) =
    Some [stored_document (\<lambda>t. ''h'') (chunk_document \<lparr>ch_Content = ''code'', ch_FilePath = ''a.go'',
      ch_StartLine = 1, ch_EndLine = 1, ch_Language = ''go'', ch_NodeType = ''block''\<rparr>)]"
proof -
  obtain e' s' where run: "Index demo_env script_provider (milvus_store (ie_sha256 demo_env) (mem_milvus True))
      (demo_options True) [] (demo_state []) = (Returned None, e', s')"
    using demo_first_run by (metis prod.collapse)
  have c: "index_collection demo_env (demo_options True) = ''c''" by code_simp
  have ch: "index_chunks demo_env (demo_options True) = [\<lparr>ch_Content = ''code'', ch_FilePath = ''a.go'',
      ch_StartLine = 1, ch_EndLine = 1, ch_Language = ''go'', ch_NodeType = ''block''\<rparr>]" by code_simp
  have "io_Force (demo_options True)" by (simp add: demo_options_def)
  with Index_replaces [OF memory_service.milvus_client_axioms demo_state_inv run]
  show ?thesis by (simp add: run c run_documents_def ch) (simp add: demo_env_def)
qed



text \<open>A run of the example after which only the outcome and the service are kept.\<close>

definition demo_after :: "bool \<Rightarrow> bool list \<Rightarrow> bool list \<Rightarrow> memory store_state \<Rightarrow> index_outcome \<times> memory store_state" where
  "demo_after force script faults s =
     (case Index demo_env script_provider (demo_store True) (demo_options force) script
         (fst s, (snd s)\<lparr>mem_faults := faults\<rparr>) of (r, e', s') \<Rightarrow> (r, s'))"

text \<open>
  Without that proviso it is false. \<open>DropCollection\<close> ignores the error of dropping the metadata:
  after a complete run, a forced run in which that call fails and then the embedding fails leaves an
  empty collection with the metadata of the first run, and every later run finds the index up to date.
\<close>

theorem Index_stale_metadata:
  "let first = demo_after False [] [] (demo_state []);
       second = demo_after True [True] [False, False, True] (snd first);
       third = demo_after False [] [] (snd second)
   in fst first = Returned None \<and>
      map_option length (milvus_docs mem_rows ''c'' (snd first)) = Some 1 \<and>
      fst second = Returned (Some (EmbedFailed 0 1 (RequestFailed ''down''))) \<and>
      fst third = Returned None \<and> milvus_docs mem_rows ''c'' (snd third) = Some [] \<and>
      map_option im_ChunkCount (milvus_meta mem_rows ''c'' (snd third)) = Some 1"
  by code_simp


definition steady_provider :: "unit Provider" where
  "steady_provider =
     \<lparr>pr_Embed = (\<lambda>t e. (Some (Inr [1]), e)), pr_EmbedBatch = (\<lambda>ts e. (Some (Inr (map (\<lambda>t. [1]) ts)), e)),
      pr_Dimension = (\<lambda>e. 1), pr_DetectDimension = None\<rparr>"


end
