(* ===== verification/Searcher.thy ===== *)
theory Searcher
  imports Indexer EngineTypes
begin

text \<open>
  \<open>pkg/searcher.go\<close> and \<open>pkg/engine/adapter_search.go\<close>: semantic search over the store, the filter of
  ignored results, the text output, and the engine's provider on top of it. Scores are the \<open>float32\<close>
  of the service. The lemmas show which results are returned and how they are numbered.
\<close>

record SearchOptions =
  so_Path :: string
  so_CollectionName :: string
  so_Query :: string
  so_Limit :: int
  so_Extensions :: "string list"

record SearchResultEntry =
  se_Rank :: int
  se_FilePath :: string
  se_StartLine :: int
  se_EndLine :: int
  se_Score :: rat
  se_Description :: string
  se_Content :: string

datatype search_error =
    SearchStoreFailed string go_error
  | NoIndex string
  | EmbedQueryFailed embed_error

definition searchResultIgnored :: "string \<Rightarrow> Matcher \<Rightarrow> string \<Rightarrow> bool" where
  "searchResultIgnored cwd m filePath =
     (if path_is_abs filePath then MatchesPath cwd (Some m) filePath else MatchesRelative (Some m) filePath)"

text \<open>\<open>SplitN\<close> cuts at the first \<open>n - 1\<close> separators; the rest stays whole.\<close>

definition truncateContentForDisplay :: "string \<Rightarrow> nat \<Rightarrow> string" where
  "truncateContentForDisplay content maxLines =
     (let parts = split_on newline content;
          lines = (if length parts > maxLines + 1
                   then take maxLines parts @ [join [newline] (drop maxLines parts)] else parts)
      in if length lines > maxLines then join [newline] (take maxLines lines @ [''...''])
         else join [newline] lines)"

definition document_chunk :: "Document \<Rightarrow> Chunk" where
  "document_chunk d =
     \<lparr>ch_Content = doc_Content d, ch_FilePath = doc_FilePath d, ch_StartLine = doc_StartLine d,
      ch_EndLine = doc_EndLine d, ch_Language = doc_Language d, ch_NodeType = doc_NodeType d\<rparr>"

definition search_entry :: "nat \<Rightarrow> SearchResult \<Rightarrow> SearchResultEntry" where
  "search_entry rank r =
     \<lparr>se_Rank = int rank, se_FilePath = doc_FilePath (sr_Document r), se_StartLine = doc_StartLine (sr_Document r),
      se_EndLine = doc_EndLine (sr_Document r), se_Score = sr_Score r,
      se_Description = DescribeChunk (document_chunk (sr_Document r)),
      se_Content = truncateContentForDisplay (doc_Content (sr_Document r)) 3\<rparr>"

text \<open>The loop over the results; \<open>shown\<close> is the number of entries so far.\<close>

fun search_entries :: "(string \<Rightarrow> bool) \<Rightarrow> nat \<Rightarrow> SearchResult list \<Rightarrow> SearchResultEntry list" where
  "search_entries ignored shown [] = []"
| "search_entries ignored shown (r # rs) =
     (if ignored (doc_FilePath (sr_Document r)) then search_entries ignored shown rs
      else search_entry (shown + 1) r # search_entries ignored (shown + 1) rs)"

text \<open>The first extension of a known language filters by its language; the others are not used.\<close>

fun language_filter :: "string list \<Rightarrow> (string \<times> string) list" where
  "language_filter [] = []"
| "language_filter (ext # exts) =
     (if LanguageFromExtension ext \<noteq> [] then [(''language'', LanguageFromExtension ext)] else language_filter exts)"

definition search_limit :: "int \<Rightarrow> int" where
  "search_limit limit = (if limit \<le> 0 then 10 else limit)"

text \<open>The result \<open>None\<close> is a panic of the embedding provider.\<close>

definition Search ::
  "(string \<Rightarrow> string) \<Rightarrow> (string \<Rightarrow> string option) \<Rightarrow> string \<Rightarrow> 'e Provider \<Rightarrow> 's Store \<Rightarrow> SearchOptions \<Rightarrow> 'e \<Rightarrow> 's \<Rightarrow>
   (search_error + SearchResultEntry list) option \<times> 'e \<times> 's" where
  "Search sha256 open_file cwd P S opts e s =
     (let projectPath = path_abs cwd (so_Path opts);
          m = NewMatcher sha256 open_file cwd projectPath [];
          collection = ResolveCollectionName sha256 projectPath (so_CollectionName opts)
      in case st_CollectionExists S collection s of
           (Inl err, s1) \<Rightarrow> (Some (Inl (SearchStoreFailed ''checking collection'' err)), e, s1)
         | (Inr False, s1) \<Rightarrow> (Some (Inl (NoIndex projectPath)), e, s1)
         | (Inr True, s1) \<Rightarrow>
             (case pr_Embed P (so_Query opts) e of
                (None, e1) \<Rightarrow> (None, e1, s1)
              | (Some (Inl err), e1) \<Rightarrow> (Some (Inl (EmbedQueryFailed err)), e1, s1)
              | (Some (Inr queryVec), e1) \<Rightarrow>
                  (case st_Search S collection queryVec (search_limit (so_Limit opts)) (language_filter (so_Extensions opts)) s1 of
                     (Inl err, s2) \<Rightarrow> (Some (Inl (SearchStoreFailed ''searching'' err)), e1, s2)
                   | (Inr results, s2) \<Rightarrow>
                       (Some (Inr (search_entries (searchResultIgnored cwd m) 0 results)), e1, s2))))"

definition format_entry :: "SearchResultEntry \<Rightarrow> string" where
  "format_entry r =
     ''['' @ int_str (se_Rank r) @ ''] '' @ se_FilePath r @ '':'' @ int_str (se_StartLine r) @ ''-'' @
     int_str (se_EndLine r) @ '' (score: '' @ fmt_f2 (se_Score r) @ '')'' @ [newline] @
     ''    '' @ se_Description r @ [newline, newline]"

definition FormatResults :: "SearchResultEntry list option \<Rightarrow> string" where
  "FormatResults output =
     (case output of
        None \<Rightarrow> ''No results found.''
      | Some [] \<Rightarrow> ''No results found.''
      | Some results \<Rightarrow> trim_space (concat (map format_entry results)))"

definition semantic_reference :: "SearchResultEntry \<Rightarrow> SymReference" where
  "semantic_reference r =
     \<lparr>ref_File = se_FilePath r, ref_Line = se_StartLine r, ref_Snippet = se_Description r, ref_Score = se_Score r,
      ref_Reason = ''semantic (score '' @ fmt_f2 (se_Score r) @ '')''\<rparr>"

definition SemanticSearch ::
  "(string \<Rightarrow> string) \<Rightarrow> (string \<Rightarrow> string option) \<Rightarrow> string \<Rightarrow> 'e Provider \<Rightarrow> 's Store \<Rightarrow> string \<Rightarrow> string \<Rightarrow> string \<Rightarrow> int \<Rightarrow>
   'e \<Rightarrow> 's \<Rightarrow> (search_error + SymReference list) option \<times> 'e \<times> 's" where
  "SemanticSearch sha256 open_file cwd P S collectionName workspaceRoot query limit e s =
     (case Search sha256 open_file cwd P S
         \<lparr>so_Path = workspaceRoot, so_CollectionName = collectionName, so_Query = query, so_Limit = limit,
          so_Extensions = []\<rparr> e s of
        (None, r) \<Rightarrow> (None, r)
      | (Some (Inl err), r) \<Rightarrow> (Some (Inl err), r)
      | (Some (Inr results), r) \<Rightarrow> (Some (Inr (map semantic_reference results)), r))"

section \<open>Properties\<close>

lemma search_entries_numbered:
  "search_entries ignored k rs =
    map (\<lambda>(i, r). search_entry (i + 1) r) (enumerate k (filter (\<lambda>r. \<not> ignored (doc_FilePath (sr_Document r))) rs))"
  by (induction rs arbitrary: k) auto

lemma Search_found:
  assumes "Search sha256 open_file cwd P S opts e s = (Some (Inr entries), e', s')"
  shows "\<exists>queryVec results e1 s1 s2.
    pr_Embed P (so_Query opts) e = (Some (Inr queryVec), e1) \<and>
    st_Search S (ResolveCollectionName sha256 (path_abs cwd (so_Path opts)) (so_CollectionName opts)) queryVec
      (search_limit (so_Limit opts)) (language_filter (so_Extensions opts)) s1 = (Inr results, s2) \<and>
    entries = search_entries (searchResultIgnored cwd (NewMatcher sha256 open_file cwd (path_abs cwd (so_Path opts)) []))
      0 results"
  using assms by (auto simp: Search_def Let_def split: prod.splits sum.splits option.splits bool.splits)

text \<open>
  C9. A search that succeeds shows exactly the hits of the store whose files no ignore rule of the
  project matches now, in the store's order and numbered from 1 without gaps; it asked for the given
  number of hits, or ten, before that filter.
\<close>

theorem Search_shows_hits:
  assumes "Search sha256 open_file cwd P S opts e s = (Some (Inr entries), e', s')"
  shows "\<exists>queryVec results s1 s2.
    st_Search S (ResolveCollectionName sha256 (path_abs cwd (so_Path opts)) (so_CollectionName opts)) queryVec
      (search_limit (so_Limit opts)) (language_filter (so_Extensions opts)) s1 = (Inr results, s2) \<and>
    map se_Rank entries = map int [1..<length entries + 1] \<and>
    map (\<lambda>r. (se_FilePath r, se_StartLine r, se_EndLine r, se_Score r)) entries =
      map (\<lambda>r. (doc_FilePath (sr_Document r), doc_StartLine (sr_Document r), doc_EndLine (sr_Document r), sr_Score r))
        (filter (\<lambda>r. \<not> searchResultIgnored cwd (NewMatcher sha256 open_file cwd (path_abs cwd (so_Path opts)) [])
            (doc_FilePath (sr_Document r))) results)"
proof -
  obtain queryVec results s1 s2 where found:
      "st_Search S (ResolveCollectionName sha256 (path_abs cwd (so_Path opts)) (so_CollectionName opts)) queryVec
        (search_limit (so_Limit opts)) (language_filter (so_Extensions opts)) s1 = (Inr results, s2)"
    and entries: "entries = search_entries
        (searchResultIgnored cwd (NewMatcher sha256 open_file cwd (path_abs cwd (so_Path opts)) [])) 0 results"
    using Search_found [OF assms] by blast
  define hits where "hits = filter (\<lambda>r. \<not> searchResultIgnored cwd
      (NewMatcher sha256 open_file cwd (path_abs cwd (so_Path opts)) []) (doc_FilePath (sr_Document r))) results"
  have e: "entries = map (\<lambda>(i, r). search_entry (i + 1) r) (enumerate 0 hits)"
    by (simp add: entries search_entries_numbered hits_def)
  have ranks: "map se_Rank entries = map int [1..<length entries + 1]"
    by (rule nth_equalityI) (simp_all add: e nth_enumerate_eq search_entry_def del: upt_Suc)
  have "map (\<lambda>r. (se_FilePath r, se_StartLine r, se_EndLine r, se_Score r)) entries =
      map (\<lambda>r. (doc_FilePath (sr_Document r), doc_StartLine (sr_Document r), doc_EndLine (sr_Document r), sr_Score r)) hits"
    by (rule nth_equalityI) (simp_all add: e nth_enumerate_eq search_entry_def)
  with found ranks show ?thesis unfolding hits_def by blast
qed

text \<open>A store with two hits, one of them in an ignored directory.\<close>

definition demo_hit :: "string \<Rightarrow> SearchResult" where
  "demo_hit file =
     \<lparr>sr_Document = \<lparr>doc_ID = ''i'', doc_Content = ''x'', doc_FilePath = file, doc_StartLine = 1, doc_EndLine = 1,
        doc_Language = ''go'', doc_NodeType = ''block'', doc_Metadata = []\<rparr>, sr_Score = 1\<rparr>"

definition hits_store :: "SearchResult list \<Rightarrow> unit Store" where
  "hits_store hits =
     \<lparr>st_CreateCollection = (\<lambda>n d s. (None, s)), st_DropCollection = (\<lambda>n s. (None, s)),
      st_CollectionExists = (\<lambda>n s. (Inr True, s)), st_Insert = (\<lambda>n xs vs s. (None, s)),
      st_Search = (\<lambda>n v l f s. (Inr hits, s)), st_SetMetadata = (\<lambda>n m s. (None, s)),
      st_GetMetadata = (\<lambda>n s. (Inr None, s))\<rparr>"

definition demo_search :: "(search_error + SearchResultEntry list) option" where
  "demo_search = fst (Search (\<lambda>t. ''h'') (\<lambda>p. None) ''/w'' steady_provider
     (hits_store [demo_hit ''vendor/a.go'', demo_hit ''b.go'']) \<lparr>so_Path = ''.'', so_CollectionName = [],
       so_Query = ''q'', so_Limit = 0, so_Extensions = []\<rparr> () ())"

lemma demo_search_entries: "demo_search = Some (Inr [search_entry 1 (demo_hit ''b.go'')])"
  by code_simp

theorem Search_shows_hits_witness:
  "map se_Rank [search_entry 1 (demo_hit ''b.go'')] = [1]"
proof -
  obtain e' s' where "Search (\<lambda>t. ''h'') (\<lambda>p. None) ''/w'' steady_provider
     (hits_store [demo_hit ''vendor/a.go'', demo_hit ''b.go'']) \<lparr>so_Path = ''.'', so_CollectionName = [],
       so_Query = ''q'', so_Limit = 0, so_Extensions = []\<rparr> () () = (Some (Inr [search_entry 1 (demo_hit ''b.go'')]), e', s')"
    using demo_search_entries unfolding demo_search_def by (metis prod.collapse)
  from Search_shows_hits [OF this] show ?thesis by auto
qed

end
