(* ===== verification/GoUrl.thy ===== *)
theory GoUrl
  imports FileTree
begin

text \<open>
  What the program uses of \<open>net/url\<close>: \<open>Parse\<close>, \<open>PathUnescape\<close> and \<open>URL.String\<close> of a URL that has only
  a scheme and an absolute path, and the conversions between paths and document URIs that
  \<open>pkg/lsp\<close> builds on them (\<open>documentURIToPath\<close> of \<open>refs.go\<close>, the writers in \<open>daemon_client.go\<close>,
  \<open>check.go\<close> and \<open>cmd/cs/main.go\<close>). Strings are lists of bytes. Whether \<open>Parse\<close> accepts a non-empty
  authority is the parameter \<open>authority_ok\<close>; the files of a document URI have none.
\<close>

section \<open>Percent encoding\<close>

definition byte_of :: "char \<Rightarrow> nat" where
  "byte_of c = of_char c"

definition is_hex :: "char \<Rightarrow> bool" where
  "is_hex c \<longleftrightarrow> 48 \<le> byte_of c \<and> byte_of c \<le> 57 \<or> 65 \<le> byte_of c \<and> byte_of c \<le> 70 \<or>
     97 \<le> byte_of c \<and> byte_of c \<le> 102"

definition unhex :: "char \<Rightarrow> nat" where
  "unhex c =
     (if byte_of c \<le> 57 then byte_of c - 48 else if byte_of c \<le> 70 then byte_of c - 55 else byte_of c - 87)"

fun path_unescape :: "string \<Rightarrow> string option" where
  "path_unescape [] = Some []"
| "path_unescape (c # s) =
     (if c = CHR ''%''
      then (case s of
              h # l # t \<Rightarrow>
                if is_hex h \<and> is_hex l
                then map_option ((#) (char_of (16 * unhex h + unhex l))) (path_unescape t) else None
            | _ \<Rightarrow> None)
      else map_option ((#) c) (path_unescape s))"

text \<open>The bytes that a path keeps when it is written.\<close>

definition path_plain :: "char \<Rightarrow> bool" where
  "path_plain c \<longleftrightarrow>
     48 \<le> byte_of c \<and> byte_of c \<le> 57 \<or> 65 \<le> byte_of c \<and> byte_of c \<le> 90 \<or>
     97 \<le> byte_of c \<and> byte_of c \<le> 122 \<or> c \<in> set ''-_.~$&+,/:;=@''"

definition hex_digit :: "nat \<Rightarrow> char" where
  "hex_digit n = char_of (if n < 10 then 48 + n else 55 + n)"

definition escape_byte :: "char \<Rightarrow> string" where
  "escape_byte c =
     (if path_plain c then [c] else [CHR ''%'', hex_digit (byte_of c div 16), hex_digit (byte_of c mod 16)])"

definition path_escape :: "string \<Rightarrow> string" where
  "path_escape s = concat (map escape_byte s)"

text \<open>\<open>URL{Scheme: "file", Path: p}.String()\<close> for a path that starts with a slash.\<close>

definition file_url :: "string \<Rightarrow> string" where
  "file_url p = ''file://'' @ path_escape p"

section \<open>Parsing\<close>

text \<open>\<open>getScheme\<close>: the scheme before the first colon if it has one; \<open>acc\<close> is the scheme read so far.\<close>

fun get_scheme :: "string \<Rightarrow> string \<Rightarrow> (string \<times> string) go_result" where
  "get_scheme acc [] = Inr ([], acc)"
| "get_scheme acc (c # s) =
     (let b = byte_of c in
      if 65 \<le> b \<and> b \<le> 90 \<or> 97 \<le> b \<and> b \<le> 122 then get_scheme (acc @ [c]) s
      else if 48 \<le> b \<and> b \<le> 57 \<or> c \<in> set ''+-.''
      then (if acc = [] then Inr ([], c # s) else get_scheme (acc @ [c]) s)
      else if c = CHR '':'' then (if acc = [] then Inl ''missing protocol scheme'' else Inr (acc, s))
      else Inr ([], acc @ c # s))"

definition is_control :: "char \<Rightarrow> bool" where
  "is_control c \<longleftrightarrow> byte_of c < 32 \<or> byte_of c = 127"

text \<open>\<open>setPath\<close> of what is left after the authority.\<close>

definition set_path :: "string \<Rightarrow> string \<Rightarrow> (string \<times> string) go_result" where
  "set_path scheme rest =
     (case path_unescape rest of None \<Rightarrow> Inl ''invalid URL escape'' | Some p \<Rightarrow> Inr (scheme, p))"

text \<open>
  The parts after the scheme. A query is cut off; both branches of the code on a trailing question
  mark leave what is before the first one.
\<close>

definition parse_rest :: "(string \<Rightarrow> bool) \<Rightarrow> string \<Rightarrow> string \<Rightarrow> (string \<times> string) go_result" where
  "parse_rest authority_ok scheme rest0 =
     (let rest = takeWhile (\<lambda>c. c \<noteq> CHR ''?'') rest0
      in if \<not> has_prefix rest ''/'' \<and> scheme \<noteq> [] then Inr (scheme, [])
         else if \<not> has_prefix rest ''/'' \<and> CHR '':'' \<in> set (takeWhile (\<lambda>c. c \<noteq> slash) rest)
         then Inl ''first path segment in URL cannot contain colon''
         else if has_prefix rest ''//'' \<and> (scheme \<noteq> [] \<or> \<not> has_prefix rest ''///'')
         then (let authority = takeWhile (\<lambda>c. c \<noteq> slash) (drop 2 rest)
               in if authority \<noteq> [] \<and> \<not> authority_ok authority then Inl ''invalid authority''
                  else set_path scheme (drop (length authority) (drop 2 rest)))
         else set_path scheme rest)"

definition parse_url :: "(string \<Rightarrow> bool) \<Rightarrow> string \<Rightarrow> (string \<times> string) go_result" where
  "parse_url authority_ok u =
     (if list_ex is_control u then Inl ''invalid control character in URL''
      else if u = ''*'' then Inr ([], ''*'')
      else case get_scheme [] u of
             Inl err \<Rightarrow> Inl err
           | Inr (scheme, rest) \<Rightarrow> parse_rest authority_ok (to_lower scheme) rest)"

text \<open>\<open>url.Parse\<close>, reduced to the scheme and the path. A fragment must unescape.\<close>

definition url_parse :: "(string \<Rightarrow> bool) \<Rightarrow> string \<Rightarrow> (string \<times> string) go_result" where
  "url_parse authority_ok raw =
     (let u = takeWhile (\<lambda>c. c \<noteq> CHR ''#'') raw; frag = drop (length u + 1) raw
      in case parse_url authority_ok u of
           Inl err \<Rightarrow> Inl err
         | Inr r \<Rightarrow> if path_unescape frag = None then Inl ''invalid URL escape'' else Inr r)"

section \<open>Document URIs\<close>

datatype uri_error = URIRequired | URIParse string go_error | URIScheme string | URIDecode string | URIEmptyPath string

definition documentURIToPath :: "(string \<Rightarrow> bool) \<Rightarrow> string \<Rightarrow> uri_error + string" where
  "documentURIToPath authority_ok uri =
     (let raw = trim_space uri
      in if raw = [] then Inl URIRequired
         else case url_parse authority_ok raw of
                Inl err \<Rightarrow> Inl (URIParse raw err)
              | Inr (scheme, path) \<Rightarrow>
                  if scheme = [] then Inr (path_clean raw)
                  else if scheme \<noteq> ''file'' then Inl (URIScheme scheme)
                  else case path_unescape path of
                         None \<Rightarrow> Inl (URIDecode raw)
                       | Some decoded \<Rightarrow>
                           if decoded = [] then Inl (URIEmptyPath raw) else Inr (path_clean decoded))"

text \<open>
  The URI of a workspace or a document; \<open>daemonWorkspaceURI\<close>, \<open>documentURIForPath\<close> and
  \<open>refsWorkspaceURI\<close> are the same function, of which only the name of the error differs. An absolute
  Unix path starts with a slash already.
\<close>

definition documentURI :: "string \<Rightarrow> string \<Rightarrow> string" where
  "documentURI cwd path = (let p = path_abs cwd path in file_url (if has_prefix p ''/'' then p else slash # p))"

section \<open>Escaping and unescaping\<close>

lemma byte_less [simp]: "byte_of c < 256"
  by (simp add: byte_of_def of_char_def)

lemma char_of_byte [simp]: "char_of (byte_of c) = c"
  by (simp add: byte_of_def)

lemma byte_hex_digit [simp]: "n < 16 \<Longrightarrow> byte_of (hex_digit n) = (if n < 10 then 48 + n else 55 + n)"
  by (simp add: byte_of_def hex_digit_def)

lemma hex_digit_hex: "n < 16 \<Longrightarrow> is_hex (hex_digit n) \<and> unhex (hex_digit n) = n"
  by (simp add: is_hex_def unhex_def)

lemma unescape_byte: "path_unescape (escape_byte c @ s) = map_option ((#) c) (path_unescape s)"
proof (cases "path_plain c")
  case True
  then have "c \<noteq> CHR ''%''" by (auto simp: path_plain_def byte_of_def)
  then show ?thesis using True by (simp add: escape_byte_def)
next
  case False
  have "byte_of c div 16 < 16" "byte_of c mod 16 < 16" using byte_less [of c] by linarith+
  then show ?thesis using False by (simp add: escape_byte_def hex_digit_hex)
qed

lemma unescape_escape [simp]: "path_unescape (path_escape s) = Some s"
  by (induction s) (simp_all add: path_escape_def unescape_byte)

lemma unescape_plain: "CHR ''%'' \<notin> set s \<Longrightarrow> path_unescape s = Some s"
  by (induction s) auto

text \<open>The bytes of a written path are graphic ASCII characters other than the two separators.\<close>

definition url_byte :: "char \<Rightarrow> bool" where
  "url_byte c \<longleftrightarrow> 33 \<le> byte_of c \<and> byte_of c \<le> 126 \<and> c \<noteq> CHR ''#'' \<and> c \<noteq> CHR ''?''"

lemma byte_eqI: "byte_of c \<noteq> byte_of d \<Longrightarrow> c \<noteq> d"
  by auto

lemma hex_digit_url: "n < 16 \<Longrightarrow> url_byte (hex_digit n)"
  unfolding url_byte_def by (intro conjI byte_eqI) (simp_all, simp_all add: byte_of_def)

lemma path_plain_url: "path_plain c \<Longrightarrow> url_byte c"
  unfolding path_plain_def url_byte_def by (auto simp: byte_of_def)

lemma escape_byte_url: "d \<in> set (escape_byte c) \<Longrightarrow> url_byte d"
proof -
  have "byte_of c div 16 < 16" "byte_of c mod 16 < 16" using byte_less [of c] by linarith+
  moreover have "url_byte CHR ''%''" by (simp add: url_byte_def byte_of_def)
  ultimately show "d \<in> set (escape_byte c) \<Longrightarrow> url_byte d"
    by (auto simp: escape_byte_def path_plain_url hex_digit_url split: if_splits)
qed

lemma file_url_bytes: "c \<in> set (file_url p) \<Longrightarrow> url_byte c"
  by (auto simp: file_url_def path_escape_def escape_byte_url) (simp_all add: url_byte_def byte_of_def)

lemma space_rune_not_url: "r \<in> set space_runes \<Longrightarrow> c \<in> set r \<Longrightarrow> \<not> url_byte c"
  unfolding space_runes_def url_byte_def byte_of_def by auto

lemma trim_space_url:
  assumes "\<forall>c \<in> set s. url_byte c"
  shows "trim_space s = s"
proof -
  have "\<not> has_prefix t r" if "r \<in> set space_runes \<or> rev r \<in> set space_runes" and ne: "r \<noteq> []" and "\<forall>c \<in> set t. url_byte c" for t r
  proof
    assume "has_prefix t r"
    then have "set r \<subseteq> set t" by (auto simp: has_prefix_iff)
    moreover obtain c where "c \<in> set r" using ne by (cases r) auto
    ultimately show False using that space_rune_not_url [of r c] space_rune_not_url [of "rev r" c] by auto
  qed
  then have no: "\<not> has_prefix s r" "\<not> has_prefix (rev s) (rev r)" if "r \<in> set space_runes" for r
    using that assms space_runes_nonempty [OF that] by simp_all
  have "trim_by space_runes s = s" using no(1) by (intro trim_by_id) simp
  moreover have "trim_by (map rev space_runes) (rev s) = rev s" using no(2) by (intro trim_by_id) simp
  ultimately show ?thesis by (simp add: trim_space_def)
qed

section \<open>The round trip\<close>

lemma get_scheme_file: "get_scheme [] (file_url p) = Inr (''file'', ''//'' @ path_escape p)"
  by (simp add: file_url_def byte_of_def)

lemma path_escape_rooted: "path_escape (slash # p) = slash # path_escape p"
  by (simp add: path_escape_def escape_byte_def path_plain_def)

lemma takeWhile_url: "\<forall>c \<in> set s. url_byte c \<Longrightarrow> \<not> url_byte d \<Longrightarrow> takeWhile (\<lambda>c. c \<noteq> d) s = s"
  by (auto simp: takeWhile_eq_all_conv)

lemma url_parse_file:
  assumes "has_prefix p ''/''"
  shows "url_parse authority_ok (file_url p) = Inr (''file'', p)"
proof -
  obtain q where q: "p = slash # q" using assms by (auto simp: has_prefix_iff)
  have bytes: "\<forall>c \<in> set (file_url p). url_byte c" by (simp add: file_url_bytes)
  then have esc: "\<forall>c \<in> set (path_escape p). url_byte c" by (simp add: file_url_def)
  have seps: "\<not> url_byte CHR ''#''" "\<not> url_byte CHR ''?''" by (simp_all add: url_byte_def)
  have ctl: "\<not> list_ex is_control (file_url p)"
    using bytes by (fastforce simp: list_ex_iff is_control_def url_byte_def)
  have star: "file_url p \<noteq> ''*''" by (simp add: file_url_def)
  have rest: "takeWhile (\<lambda>c. c \<noteq> CHR ''?'') (''//'' @ path_escape p) = ''//'' @ path_escape p"
    using takeWhile_url [OF esc seps(2)] by simp
  obtain e where e: "path_escape p = slash # e" unfolding q path_escape_rooted by blast
  have "set_path ''file'' (path_escape p) = Inr (''file'', p)" by (simp add: set_path_def)
  then have "parse_rest authority_ok ''file'' (''//'' @ path_escape p) = Inr (''file'', p)"
    unfolding parse_rest_def rest Let_def by (simp add: e)
  moreover have "to_lower ''file'' = ''file''" by code_simp
  ultimately have "parse_url authority_ok (file_url p) = Inr (''file'', p)"
    using ctl star by (simp add: parse_url_def get_scheme_file)
  then show ?thesis by (simp add: url_parse_def Let_def takeWhile_url [OF bytes seps(1)])
qed

lemma path_clean_rooted: "has_prefix p ''/'' \<Longrightarrow> has_prefix (path_clean p) ''/''"
  by (simp add: path_clean_def)

lemma path_abs_slash: "path_is_abs cwd \<Longrightarrow> has_prefix (path_abs cwd p) ''/''"
  by (cases cwd) (auto simp: path_abs_def path_is_abs_def path_join_def path_clean_rooted split: list.splits)

lemma path_abs_clean: "path_is_abs cwd \<Longrightarrow> path_clean (path_abs cwd p) = path_abs cwd p"
  by (cases cwd) (auto simp: path_abs_def path_is_abs_def path_join_def path_clean_idem split: list.splits)

lemma documentURIToPath_file:
  assumes "has_prefix p ''/''"
  shows "documentURIToPath authority_ok (file_url p) =
    (case path_unescape p of None \<Rightarrow> Inl (URIDecode (file_url p)) | Some q \<Rightarrow> Inr (path_clean q))"
proof -
  have "file_url p \<noteq> []" by (simp add: file_url_def)
  moreover have "trim_space (file_url p) = file_url p" by (simp add: trim_space_url file_url_bytes)
  moreover have "path_unescape p \<noteq> Some []"
    using assms by (cases p) auto
  ultimately show ?thesis
    by (auto simp: documentURIToPath_def Let_def url_parse_file [OF assms] split: option.splits)
qed

lemma documentURI_abs: "path_is_abs cwd \<Longrightarrow> documentURI cwd p = file_url (path_abs cwd p)"
  using path_abs_slash [of cwd p] by (simp add: documentURI_def Let_def)

text \<open>
  C12. From a path to its document URI and back. For a path without a percent sign the result is the
  absolute path again, whatever other bytes it holds. The path of the parsed URI is unescaped a second
  time, though: a percent sign in the path is read as another escape, or the URI is refused.
\<close>

theorem documentURI_roundtrip:
  assumes "path_is_abs cwd"
  shows "documentURIToPath authority_ok (documentURI cwd p) =
      (case path_unescape (path_abs cwd p) of
         None \<Rightarrow> Inl (URIDecode (documentURI cwd p)) | Some q \<Rightarrow> Inr (path_clean q)) \<and>
    (CHR ''%'' \<notin> set (path_abs cwd p) \<longrightarrow> documentURIToPath authority_ok (documentURI cwd p) = Inr (path_abs cwd p))"
  using path_abs_slash [OF assms, of p] path_abs_clean [OF assms, of p]
  unfolding documentURI_abs [OF assms] by (simp add: documentURIToPath_file unescape_plain)

theorem documentURI_roundtrip_witness:
  "documentURIToPath (\<lambda>a. False) (documentURI ''/w'' ''a b/c?.go'') = Inr ''/w/a b/c?.go'' \<and>
   documentURIToPath (\<lambda>a. False) (documentURI ''/w'' ''a%20b.go'') = Inr ''/w/a b.go'' \<and>
   documentURIToPath (\<lambda>a. False) (documentURI ''/w'' ''100%.go'') = Inl (URIDecode ''file:///w/100%25.go'')"
proof -
  have "path_is_abs ''/w''" by code_simp
  note rt = documentURI_roundtrip [OF this, of "\<lambda>a. False"]
  have "CHR ''%'' \<notin> set (path_abs ''/w'' ''a b/c?.go'')" by code_simp
  then have "documentURIToPath (\<lambda>a. False) (documentURI ''/w'' ''a b/c?.go'') = Inr (path_abs ''/w'' ''a b/c?.go'')"
    using rt by blast
  moreover have "path_abs ''/w'' ''a b/c?.go'' = ''/w/a b/c?.go''" by code_simp
  moreover have "path_unescape (path_abs ''/w'' ''a%20b.go'') = Some ''/w/a b.go''"
    "path_unescape (path_abs ''/w'' ''100%.go'') = None" "path_clean ''/w/a b.go'' = ''/w/a b.go''"
    "documentURI ''/w'' ''100%.go'' = ''file:///w/100%25.go''"
    by code_simp+
  ultimately show ?thesis
    using rt [of "''a%20b.go''"] rt [of "''100%.go''"] by (simp only: option.case)
qed

end
