(* ===== verification/LspTypes.thy ===== *)
theory LspTypes
  imports GoUrl "HOL-Library.Char_ord" "HOL-Library.List_Lexorder" "HOL-Library.Product_Lexorder"
begin

text \<open>
  The data of the language server protocol that the engines of \<open>pkg/lsp\<close> use
  (\<open>protocol_types.go\<close>), the client through which they call the server, and the helpers that they
  share: paths of results (\<open>refs.go\<close>), the ignore matcher (\<open>ignore.go\<close>). Strings are compared
  bytewise, which is the order of \<open>List_Lexorder\<close> on characters; \<open>sort.SliceStable\<close> by a list of
  fields is \<open>sort_key\<close> with the tuple of the fields.
\<close>

section \<open>Positions, symbols and hierarchy items\<close>

record Position =
  pos_Line :: int
  pos_Character :: int

record Range =
  rng_Start :: Position
  rng_End :: Position

record Location =
  loc_URI :: string
  loc_Range :: Range

text \<open>A \<open>SymbolKind\<close> is an integer of which the server may send any; these are the named ones in use.\<close>

type_synonym SymbolKind = int

definition SymbolKindClass :: SymbolKind where "SymbolKindClass = 5"
definition SymbolKindMethod :: SymbolKind where "SymbolKindMethod = 6"
definition SymbolKindConstructor :: SymbolKind where "SymbolKindConstructor = 9"
definition SymbolKindEnum :: SymbolKind where "SymbolKindEnum = 10"
definition SymbolKindInterface :: SymbolKind where "SymbolKindInterface = 11"
definition SymbolKindFunction :: SymbolKind where "SymbolKindFunction = 12"
definition SymbolKindConstant :: SymbolKind where "SymbolKindConstant = 14"
definition SymbolKindStruct :: SymbolKind where "SymbolKindStruct = 23"
definition SymbolKindTypeParameter :: SymbolKind where "SymbolKindTypeParameter = 26"

lemmas symbol_kind_defs =
  SymbolKindClass_def SymbolKindMethod_def SymbolKindConstructor_def SymbolKindEnum_def
  SymbolKindInterface_def SymbolKindFunction_def SymbolKindConstant_def SymbolKindStruct_def
  SymbolKindTypeParameter_def

record SymbolInformation =
  sy_Name :: string
  sy_Kind :: SymbolKind
  sy_Location :: Location
  sy_ContainerName :: string

record CallHierarchyItem =
  hi_Name :: string
  hi_Kind :: SymbolKind
  hi_URI :: string
  hi_Range :: Range
  hi_SelectionRange :: Range
  hi_Detail :: string

record CallHierarchyIncomingCall =
  ic_From :: CallHierarchyItem
  ic_FromRanges :: "Range list"

text \<open>The items of the type hierarchy have the same fields.\<close>

type_synonym typeHierarchyItem = CallHierarchyItem

section \<open>The client\<close>

text \<open>
  \<open>Call\<close> of the client, one function per method, on the state \<open>'w\<close> of the server and the
  connection: an error text or the decoded result, an absent result being the empty list.
\<close>

record 'w lsp_client =
  lc_symbols :: "string \<Rightarrow> 'w \<Rightarrow> SymbolInformation list go_result \<times> 'w"
  lc_references :: "string \<Rightarrow> Position \<Rightarrow> bool \<Rightarrow> 'w \<Rightarrow> Location list go_result \<times> 'w"
  lc_prepareCalls :: "string \<Rightarrow> Position \<Rightarrow> 'w \<Rightarrow> CallHierarchyItem list go_result \<times> 'w"
  lc_incomingCalls :: "CallHierarchyItem \<Rightarrow> 'w \<Rightarrow> CallHierarchyIncomingCall list go_result \<times> 'w"
  lc_prepareTypes :: "string \<Rightarrow> Position \<Rightarrow> 'w \<Rightarrow> typeHierarchyItem list go_result \<times> 'w"
  lc_subtypes :: "typeHierarchyItem \<Rightarrow> 'w \<Rightarrow> typeHierarchyItem list go_result \<times> 'w"
  lc_implementation :: "string \<Rightarrow> Position \<Rightarrow> 'w \<Rightarrow> Location list go_result \<times> 'w"

text \<open>
  The surroundings of a lookup: the working directory, the files as \<open>os.ReadFile\<close> and the walk see
  them, the ignore files, and what \<open>url.Parse\<close> accepts as an authority.
\<close>

record lsp_env =
  le_cwd :: string
  le_sha256 :: "string \<Rightarrow> string"
  le_open_file :: "string \<Rightarrow> string option"
  le_read_file :: "string \<Rightarrow> string option"
  le_tree :: "string \<Rightarrow> fs_node"
  le_authority_ok :: "string \<Rightarrow> bool"

text \<open>The errors of the engines; the ambiguous symbol comes with its sorted candidates.\<close>

record symbolCandidate =
  sc_Path :: string
  sc_Line :: int
  sc_Kind :: string

datatype lsp_error =
    SymbolMissing
  | DepthNotPositive
  | InvalidKind string
  | ClientRequired string
  | MissingLSP string string
  | RequestFailed string go_error
  | LSPNoSymbols string
  | LSPSymbolNotFound string
  | AmbiguousSymbol string "symbolCandidate list"
  | BadURI uri_error
  | Unavailable lsp_error
  | GrepFailed lsp_error
  | WalkFailed string
  | Cancelled string

section \<open>Shared helpers\<close>

definition resolveWorkspaceRoot :: "string \<Rightarrow> string \<Rightarrow> string" where
  "resolveWorkspaceRoot cwd root_dir =
     (let trimmed = trim_space root_dir
      in path_clean (path_abs cwd (if trimmed = [] then ''.'' else trimmed)))"

definition newWorkspaceIgnoreMatcher :: "lsp_env \<Rightarrow> string \<Rightarrow> Matcher" where
  "newWorkspaceIgnoreMatcher env workspaceRoot =
     NewMatcher (le_sha256 env) (le_open_file env) (le_cwd env) workspaceRoot []"

definition relativePath :: "string \<Rightarrow> string \<Rightarrow> string" where
  "relativePath workspaceRoot path =
     (case path_rel workspaceRoot path of
        Inl err \<Rightarrow> path_clean path
      | Inr rel \<Rightarrow>
          if has_prefix rel ''..'' \<or> has_prefix rel ''/..'' then path_clean path else path_clean rel)"

definition uri_path :: "lsp_env \<Rightarrow> string \<Rightarrow> lsp_error + string" where
  "uri_path env uri =
     (case documentURIToPath (le_authority_ok env) uri of Inl e \<Rightarrow> Inl (BadURI e) | Inr p \<Rightarrow> Inr p)"

text \<open>The line and character of a hierarchy item.\<close>

definition callHierarchyPosition :: "CallHierarchyItem \<Rightarrow> int \<times> int" where
  "callHierarchyPosition item =
     (let line0 = pos_Line (rng_Start (hi_SelectionRange item));
          char0 = pos_Character (rng_Start (hi_SelectionRange item));
          (line, character) =
            (if line0 < 0 then (pos_Line (rng_Start (hi_Range item)), pos_Character (rng_Start (hi_Range item)))
             else (line0, char0))
      in (if line < 0 then 0 else line, if character < 0 then 0 else character))"

definition typeHierarchyPosition :: "typeHierarchyItem \<Rightarrow> int \<times> int" where
  "typeHierarchyPosition item =
     (let start = (if pos_Line (rng_Start (hi_SelectionRange item)) < 0
                   then rng_Start (hi_Range item) else rng_Start (hi_SelectionRange item))
      in (max 0 (pos_Line start), max 0 (pos_Character start)))"

text \<open>The first item in the order by URI, position and name.\<close>

definition item_key :: "CallHierarchyItem \<Rightarrow> string \<times> int \<times> int \<times> string" where
  "item_key i =
     (hi_URI i, fst (callHierarchyPosition i), snd (callHierarchyPosition i), hi_Name i)"

definition type_item_key :: "typeHierarchyItem \<Rightarrow> string \<times> int \<times> int \<times> string" where
  "type_item_key i =
     (hi_URI i, fst (typeHierarchyPosition i), snd (typeHierarchyPosition i), hi_Name i)"

definition first_by :: "('a \<Rightarrow> 'k::linorder) \<Rightarrow> 'a list \<Rightarrow> 'a option" where
  "first_by key items = (case sort_key key items of [] \<Rightarrow> None | i # rest \<Rightarrow> Some i)"

section \<open>Stable sorting\<close>

lemma first_by_some:
  assumes "first_by key items = Some i"
  shows "i \<in> set items \<and> (\<forall>j \<in> set items. key i \<le> key j)"
proof -
  obtain rest where s: "sort_key key items = i # rest"
    using assms by (auto simp: first_by_def split: list.splits)
  then have "set items = set (i # rest)" by (metis set_sort)
  moreover have "sorted (map key (i # rest))" using sorted_sort_key [of key items] s by simp
  ultimately show ?thesis by auto
qed

lemma first_by_none [simp]: "first_by key items = None \<longleftrightarrow> items = []"
  using length_sort [of key items] by (cases "sort_key key items") (auto simp: first_by_def)

text \<open>Strict order of the keys: sorted without repetition.\<close>

lemma sorted_key_strict:
  assumes "distinct xs" and "\<And>x y. x \<in> set xs \<Longrightarrow> y \<in> set xs \<Longrightarrow> key x = key y \<Longrightarrow> x = y"
  shows "sorted_wrt (\<lambda>x y. key x < (key y :: 'k::linorder)) (sort_key key xs)"
proof -
  have "distinct (map key (sort_key key xs))" using assms by (auto simp: distinct_map inj_on_def)
  then have "sorted_wrt (<) (map key (sort_key key xs))"
    by (simp add: strict_sorted_iff)
  then show ?thesis by (simp add: sorted_wrt_map)
qed

end
