(* ===== verification/LspFormat.thy ===== *)
theory LspFormat
  imports LspTypes
begin

text \<open>
  \<open>pkg/lsp/formatter.go\<close>: the lines of references, their deduplication, grouping and text, and the
  candidates of an ambiguous symbol.
\<close>

record referenceLine =
  rl_Path :: string
  rl_Line :: int
  rl_Snippet :: string

definition ref_sort_key :: "referenceLine \<Rightarrow> string \<times> int \<times> string" where
  "ref_sort_key r = (rl_Path r, rl_Line r, rl_Snippet r)"

text \<open>The text by which references are taken for the same.\<close>

definition ref_text_key :: "referenceLine \<Rightarrow> string" where
  "ref_text_key r = rl_Path r @ '':'' @ int_str (rl_Line r) @ '':'' @ rl_Snippet r"

text \<open>The loop over the sorted references; \<open>seen\<close> holds the keys met so far.\<close>

fun keep_first :: "('a \<Rightarrow> 'k) \<Rightarrow> 'k list \<Rightarrow> 'a list \<Rightarrow> 'a list" where
  "keep_first key seen [] = []"
| "keep_first key seen (x # xs) =
     (if key x \<in> set seen then keep_first key seen xs else x # keep_first key (key x # seen) xs)"

definition dedupeAndSortReferences :: "referenceLine list \<Rightarrow> referenceLine list" where
  "dedupeAndSortReferences references = keep_first ref_text_key [] (sort_key ref_sort_key references)"

definition normalizeSnippet :: "string \<Rightarrow> string" where
  "normalizeSnippet snippet = trim_space snippet"

definition isImportReference :: "string \<Rightarrow> bool" where
  "isImportReference snippet = has_prefix (normalizeSnippet snippet) ''import ''"

record referenceGroup =
  rg_Path :: string
  rg_Refs :: "referenceLine list"

text \<open>One reference added to the groups.\<close>

definition add_reference :: "referenceLine \<Rightarrow> referenceGroup list \<Rightarrow> referenceGroup list" where
  "add_reference r groups =
     (if groups = [] \<or> rg_Path (last groups) \<noteq> rl_Path r
      then groups @ [\<lparr>rg_Path = rl_Path r, rg_Refs = [r]\<rparr>]
      else butlast groups @ [(last groups)\<lparr>rg_Refs := rg_Refs (last groups) @ [r]\<rparr>])"

fun compact_loop :: "referenceGroup list \<Rightarrow> int \<Rightarrow> referenceLine list \<Rightarrow> referenceGroup list \<times> int" where
  "compact_loop groups refTotal [] = (groups, refTotal)"
| "compact_loop groups refTotal (r # rs) =
     (if isImportReference (rl_Snippet r) then compact_loop groups refTotal rs
      else compact_loop (add_reference r groups) (refTotal + 1) rs)"

definition compactReferences :: "referenceLine list \<Rightarrow> referenceGroup list \<times> int" where
  "compactReferences references = compact_loop [] 0 (dedupeAndSortReferences references)"

definition group_lines :: "referenceGroup \<Rightarrow> string list" where
  "group_lines g =
     (rg_Path g @ '' ('' @ int_str (int (length (rg_Refs g))) @ '' '' @
        (if length (rg_Refs g) = 1 then ''ref'' else ''refs'') @ '')'') #
     map (\<lambda>r. ''  :'' @ int_str (rl_Line r) @ ''  '' @ normalizeSnippet (rl_Snippet r)) (rg_Refs g)"

definition formatReferencesOutput :: "referenceLine list \<Rightarrow> string \<Rightarrow> string" where
  "formatReferencesOutput references fallbackNote =
     (case compactReferences references of (groupedRefs, refCount) \<Rightarrow>
        join [newline]
          ((if fallbackNote \<noteq> [] then [fallbackNote] else []) @ concat (map group_lines groupedRefs) @
           [int_str refCount @ '' references found'']))"

definition candidate_key :: "symbolCandidate \<Rightarrow> string \<times> int \<times> string" where
  "candidate_key c = (sc_Path c, sc_Line c, sc_Kind c)"

definition sort_candidates :: "symbolCandidate list \<Rightarrow> symbolCandidate list" where
  "sort_candidates candidates = sort_key candidate_key candidates"

text \<open>
  \<open>formatAmbiguousSymbolError\<close>; \<open>quote\<close> is the format \<open>%q\<close> and the dash is the em dash in UTF-8.
\<close>

definition formatAmbiguousSymbolError :: "(string \<Rightarrow> string) \<Rightarrow> string \<Rightarrow> symbolCandidate list \<Rightarrow> string" where
  "formatAmbiguousSymbolError quote symbol candidates =
     (let sorted_candidates = sort_candidates candidates
      in ''ambiguous symbol '' @ quote symbol @ '' '' @ [CHR 0xE2, CHR 0x80, CHR 0x94] @ '' '' @
         int_str (int (length sorted_candidates)) @
         '' definitions found. Use --path to narrow scope.'' @
         concat (map (\<lambda>c. [newline] @ ''  - '' @ sc_Path c @ '':'' @ int_str (sc_Line c) @ '' ('' @ sc_Kind c @ '')'')
           sorted_candidates))"

section \<open>Deduplication\<close>

lemma keep_first_set: "x \<in> set (keep_first key seen xs) \<Longrightarrow> x \<in> set xs \<and> key x \<notin> set seen"
  by (induction key seen xs rule: keep_first.induct) (auto split: if_splits)

lemma keep_first_distinct: "distinct (map key (keep_first key seen xs))"
  by (induction key seen xs rule: keep_first.induct) (auto dest: keep_first_set)

lemma keep_first_keys: "key ` set (keep_first key seen xs) = key ` set xs - set seen"
  by (induction key seen xs rule: keep_first.induct) auto

lemma keep_first_sorted_wrt: "sorted_wrt P xs \<Longrightarrow> sorted_wrt P (keep_first key seen xs)"
  by (induction key seen xs rule: keep_first.induct) (auto dest: keep_first_set)

lemma int_str_no_colon: "CHR '':'' \<notin> set (int_str i)"
proof
  assume "CHR '':'' \<in> set (int_str i)"
  then have "CHR '':'' \<in> set (nat_str (nat \<bar>i\<bar>))" by (auto simp: int_str_def split: if_splits)
  then show False using nat_str_digits by fastforce
qed

lemma cut_at_colon:
  "CHR '':'' \<notin> set a \<Longrightarrow> CHR '':'' \<notin> set b \<Longrightarrow> a @ CHR '':'' # u = b @ CHR '':'' # v \<Longrightarrow> a = b \<and> u = v"
proof (induction a arbitrary: b)
  case Nil
  then show ?case by (cases b) auto
next
  case (Cons c a)
  then show ?case by (cases b) auto
qed

text \<open>For paths without a colon the text determines the reference.\<close>

lemma ref_text_key_inj:
  assumes "CHR '':'' \<notin> set (rl_Path r)" "CHR '':'' \<notin> set (rl_Path q)" "ref_text_key r = ref_text_key q"
  shows "r = q"
proof -
  have p: "rl_Path r = rl_Path q"
    and rest: "int_str (rl_Line r) @ CHR '':'' # rl_Snippet r = int_str (rl_Line q) @ CHR '':'' # rl_Snippet q"
    using cut_at_colon [OF assms(1,2)] assms(3) by (auto simp: ref_text_key_def)
  from cut_at_colon [OF int_str_no_colon int_str_no_colon rest] p show ?thesis by simp
qed

text \<open>Without that, two references may have the same text, and one of them is lost.\<close>

lemma ref_text_key_clash:
  "dedupeAndSortReferences
     [\<lparr>rl_Path = ''a'', rl_Line = 1, rl_Snippet = ''2:x''\<rparr>, \<lparr>rl_Path = ''a:1'', rl_Line = 2, rl_Snippet = ''x''\<rparr>] =
   [\<lparr>rl_Path = ''a'', rl_Line = 1, rl_Snippet = ''2:x''\<rparr>]"
  by code_simp

lemma ref_sort_key_inj: "ref_sort_key r = ref_sort_key q \<Longrightarrow> r = q"
  by (simp add: ref_sort_key_def)

lemma dedupe_subset: "set (dedupeAndSortReferences refs) \<subseteq> set refs"
  by (auto simp: dedupeAndSortReferences_def dest!: keep_first_set)

lemma dedupe_distinct: "distinct (dedupeAndSortReferences refs)"
  using keep_first_distinct [of ref_text_key "[]" "sort_key ref_sort_key refs"]
  by (simp add: dedupeAndSortReferences_def distinct_map)

lemma keep_first_sorted_strict:
  assumes "\<And>x y. k x = (k y :: 'k::linorder) \<Longrightarrow> x = y"
  shows "sorted_wrt (\<lambda>x y. k x < k y) (keep_first key [] (sort_key k xs))"
proof -
  let ?d = "keep_first key [] (sort_key k xs)"
  have "sorted_wrt (\<lambda>x y. k x \<le> k y) ?d"
    by (rule keep_first_sorted_wrt) (use sorted_sort_key [of k xs] in \<open>simp add: sorted_wrt_map\<close>)
  moreover have "distinct (map k ?d)"
    using keep_first_distinct [of key "[]" "sort_key k xs"] assms by (auto simp: distinct_map inj_on_def)
  ultimately have "sorted_wrt (<) (map k ?d)"
    by (simp only: strict_sorted_iff) (simp add: sorted_wrt_map)
  then show ?thesis by (simp add: sorted_wrt_map)
qed

lemma keep_first_all:
  assumes "\<And>x y. x \<in> set xs \<Longrightarrow> y \<in> set xs \<Longrightarrow> key x = key y \<Longrightarrow> x = y"
  shows "set (keep_first key [] (sort_key k xs)) = set xs"
proof
  show "set xs \<subseteq> set (keep_first key [] (sort_key k xs))"
  proof
    fix x assume x: "x \<in> set xs"
    then have "key x \<in> key ` set (keep_first key [] (sort_key k xs))"
      by (simp add: keep_first_keys)
    then obtain y where "y \<in> set (keep_first key [] (sort_key k xs))" "key x = key y" by auto
    then show "x \<in> set (keep_first key [] (sort_key k xs))"
      using assms [OF x, of y] keep_first_set [of y key "[]" "sort_key k xs"] by auto
  qed
qed (auto dest!: keep_first_set)

lemma dedupe_sorted: "sorted_wrt (\<lambda>r q. ref_sort_key r < ref_sort_key q) (dedupeAndSortReferences refs)"
  unfolding dedupeAndSortReferences_def by (rule keep_first_sorted_strict) (rule ref_sort_key_inj)

lemma dedupe_set:
  assumes "\<forall>r \<in> set refs. CHR '':'' \<notin> set (rl_Path r)"
  shows "set (dedupeAndSortReferences refs) = set refs"
  unfolding dedupeAndSortReferences_def by (rule keep_first_all) (use assms ref_text_key_inj in blast)

lemma dedupe_idem: "dedupeAndSortReferences (dedupeAndSortReferences refs) = dedupeAndSortReferences refs"
proof -
  let ?d = "dedupeAndSortReferences refs"
  have "sort_key ref_sort_key ?d = ?d"
    by (rule sort_key_id_if_sorted)
      (use dedupe_sorted [of refs] in \<open>auto simp: sorted_wrt_map intro: sorted_wrt_mono_rel [rotated]\<close>)
  moreover have "keep_first key [] xs = xs" if "distinct (map key xs)" for key :: "referenceLine \<Rightarrow> string" and xs
  proof -
    have "set seen \<inter> key ` set xs = {} \<Longrightarrow> distinct (map key xs) \<Longrightarrow> keep_first key seen xs = xs" for seen
      by (induction key seen xs rule: keep_first.induct) auto
    from this [of "[]"] that show ?thesis by simp
  qed
  moreover have "distinct (map ref_text_key ?d)"
    by (simp add: dedupeAndSortReferences_def keep_first_distinct)
  ultimately show ?thesis by (metis dedupeAndSortReferences_def)
qed

section \<open>Groups\<close>

definition group_ok :: "referenceGroup \<Rightarrow> bool" where
  "group_ok g \<longleftrightarrow> rg_Refs g \<noteq> [] \<and> (\<forall>r \<in> set (rg_Refs g). rl_Path r = rg_Path g)"

text \<open>Neighbouring groups have different paths.\<close>

definition groups_ok :: "referenceGroup list \<Rightarrow> bool" where
  "groups_ok gs \<longleftrightarrow> list_all group_ok gs \<and> successively (\<lambda>g h. rg_Path g \<noteq> rg_Path h) gs"

lemma add_reference_ok: "groups_ok gs \<Longrightarrow> groups_ok (add_reference r gs)"
  by (cases gs rule: rev_cases) (auto simp: groups_ok_def group_ok_def add_reference_def successively_append_iff)

lemma add_reference_refs: "concat (map rg_Refs (add_reference r gs)) = concat (map rg_Refs gs) @ [r]"
  by (cases gs rule: rev_cases) (auto simp: add_reference_def)

lemma compact_loop_groups:
  "groups_ok gs \<Longrightarrow> compact_loop gs n rs = (gs', n') \<Longrightarrow>
    groups_ok gs' \<and> concat (map rg_Refs gs') = concat (map rg_Refs gs) @ filter (\<lambda>r. \<not> isImportReference (rl_Snippet r)) rs \<and>
    n' = n + int (length (filter (\<lambda>r. \<not> isImportReference (rl_Snippet r)) rs))"
  by (induction gs n rs rule: compact_loop.induct) (auto simp: add_reference_ok add_reference_refs split: if_splits)

text \<open>
  Compacting references lists every reference once that is not an import: the groups, one after
  the other, are the references in strict order by path, line and snippet; every group has the
  references of its path, neighbouring groups have different paths, and the count is the number of
  references in them. No reference is lost if no path holds a colon.
\<close>

theorem compactReferences_groups:
  assumes "compactReferences refs = (groups, n)"
  shows "sorted_wrt (\<lambda>r q. ref_sort_key r < ref_sort_key q) (concat (map rg_Refs groups)) \<and>
    groups_ok groups \<and> n = int (length (concat (map rg_Refs groups))) \<and>
    set (concat (map rg_Refs groups)) \<subseteq> {r \<in> set refs. \<not> isImportReference (rl_Snippet r)} \<and>
    ((\<forall>r \<in> set refs. CHR '':'' \<notin> set (rl_Path r)) \<longrightarrow>
      set (concat (map rg_Refs groups)) = {r \<in> set refs. \<not> isImportReference (rl_Snippet r)})"
proof -
  let ?d = "filter (\<lambda>r. \<not> isImportReference (rl_Snippet r)) (dedupeAndSortReferences refs)"
  have g: "groups_ok groups" "concat (map rg_Refs groups) = ?d" "n = int (length ?d)"
    using compact_loop_groups [of "[]" 0 "dedupeAndSortReferences refs" groups n] assms
    by (auto simp: compactReferences_def groups_ok_def)
  have "sorted_wrt (\<lambda>r q. ref_sort_key r < ref_sort_key q) ?d"
    by (simp add: sorted_wrt_filter dedupe_sorted)
  moreover have "set ?d \<subseteq> {r \<in> set refs. \<not> isImportReference (rl_Snippet r)}" using dedupe_subset by auto
  ultimately show ?thesis using g dedupe_set [of refs] by auto
qed

definition demo_refs :: "referenceLine list" where
  "demo_refs =
     [\<lparr>rl_Path = ''b.go'', rl_Line = 3, rl_Snippet = '' f()''\<rparr>, \<lparr>rl_Path = ''a.go'', rl_Line = 12, rl_Snippet = ''f()''\<rparr>,
      \<lparr>rl_Path = ''b.go'', rl_Line = 3, rl_Snippet = '' f()''\<rparr>, \<lparr>rl_Path = ''a.go'', rl_Line = 2, rl_Snippet = ''import f''\<rparr>]"

theorem compactReferences_groups_witness:
  "groups_ok (fst (compactReferences demo_refs)) \<and> snd (compactReferences demo_refs) = 2"
proof -
  have "snd (compactReferences demo_refs) = 2" by code_simp
  with compactReferences_groups [OF surjective_pairing, of demo_refs] show ?thesis by blast
qed

end
