(* ===== verification/LspRefs.thy ===== *)
theory LspRefs
  imports LspFormat Extract EngineTypes
begin

text \<open>
  \<open>pkg/lsp/refs.go\<close>, \<open>refs_raw.go\<close> and \<open>pkg/engine/adapter_refs.go\<close>: references by the language
  server, with a text search as the fallback.
\<close>

section \<open>Candidates\<close>

record resolvedSymbol =
  rs_info :: SymbolInformation
  rs_path :: string
  rs_line :: int
  rs_kind :: string

definition allowedRefKinds :: "string list" where
  "allowedRefKinds = [''function'', ''method'', ''class'', ''interface'', ''type'', ''constant'']"

definition NormalizeRefKind :: "string \<Rightarrow> lsp_error + string" where
  "NormalizeRefKind kind =
     (let trimmed = trim_space kind; normalized = to_lower trimmed
      in if trimmed = [] then Inr []
         else if normalized \<notin> set allowedRefKinds then Inl (InvalidKind trimmed)
         else Inr normalized)"

definition isNameMatch :: "string \<Rightarrow> string \<Rightarrow> bool" where
  "isNameMatch matchName searchName = (matchName = searchName \<or> has_prefix matchName (searchName @ ''(''))"

definition refKindToSymbolKinds :: "string \<Rightarrow> SymbolKind list option" where
  "refKindToSymbolKinds kind =
     map_of
       [(''function'', [SymbolKindFunction]), (''method'', [SymbolKindMethod]), (''class'', [SymbolKindClass]),
        (''interface'', [SymbolKindInterface]),
        (''type'', [SymbolKindClass, SymbolKindInterface, SymbolKindEnum, SymbolKindStruct, SymbolKindTypeParameter]),
        (''constant'', [SymbolKindConstant])] kind"

definition kindMatches :: "string \<Rightarrow> SymbolKind \<Rightarrow> bool" where
  "kindMatches kind symbolKind =
     (case refKindToSymbolKinds kind of None \<Rightarrow> False | Some allowedKinds \<Rightarrow> symbolKind \<in> set allowedKinds)"

definition symbolKindLabel :: "SymbolKind \<Rightarrow> string" where
  "symbolKindLabel kind =
     (if kind = SymbolKindFunction then ''function''
      else if kind = SymbolKindMethod then ''method''
      else if kind = SymbolKindClass then ''class''
      else if kind = SymbolKindInterface then ''interface''
      else if kind = SymbolKindConstant then ''constant''
      else ''type'')"

definition path_selected :: "string \<Rightarrow> string \<Rightarrow> bool" where
  "path_selected filterPath path = (filterPath = [] \<or> path = filterPath \<or> has_prefix path (filterPath @ ''/''))"

text \<open>
  The loop of \<open>resolveCandidates\<close> and of \<open>resolveCallersCandidates\<close>, which differ in the test \<open>select\<close>.
\<close>

fun candidate_loop ::
  "lsp_env \<Rightarrow> Matcher \<Rightarrow> string \<Rightarrow> string \<Rightarrow> (SymbolInformation \<Rightarrow> bool) \<Rightarrow> SymbolInformation list \<Rightarrow>
   lsp_error + resolvedSymbol list" where
  "candidate_loop env matcher workspaceRoot filterPath select [] = Inr []"
| "candidate_loop env matcher workspaceRoot filterPath select (match # rest) =
     (if \<not> select match then candidate_loop env matcher workspaceRoot filterPath select rest
      else case uri_path env (loc_URI (sy_Location match)) of
             Inl err \<Rightarrow> Inl err
           | Inr path \<Rightarrow>
               if MatchesPath (le_cwd env) (Some matcher) path \<or> \<not> path_selected filterPath path
               then candidate_loop env matcher workspaceRoot filterPath select rest
               else (case candidate_loop env matcher workspaceRoot filterPath select rest of
                       Inl err \<Rightarrow> Inl err
                     | Inr cs \<Rightarrow>
                         Inr (\<lparr>rs_info = match, rs_path = relativePath workspaceRoot path,
                               rs_line = pos_Line (rng_Start (loc_Range (sy_Location match))) + 1,
                               rs_kind = symbolKindLabel (sy_Kind match)\<rparr> # cs)))"

definition resolved_key :: "resolvedSymbol \<Rightarrow> string \<times> int \<times> string" where
  "resolved_key c = (rs_path c, rs_line c, rs_kind c)"

definition sort_resolved :: "lsp_error + resolvedSymbol list \<Rightarrow> lsp_error + resolvedSymbol list" where
  "sort_resolved r = (case r of Inl err \<Rightarrow> Inl err | Inr cs \<Rightarrow> Inr (sort_key resolved_key cs))"

definition resolveCandidates ::
  "lsp_env \<Rightarrow> SymbolInformation list \<Rightarrow> string \<Rightarrow> string \<Rightarrow> Matcher \<Rightarrow> string \<Rightarrow> string \<Rightarrow>
   lsp_error + resolvedSymbol list" where
  "resolveCandidates env symbols workspaceRoot filterPath matcher symbol kind =
     sort_resolved (candidate_loop env matcher workspaceRoot filterPath
       (\<lambda>s. isNameMatch (sy_Name s) symbol \<and> (kind = [] \<or> kindMatches kind (sy_Kind s))) symbols)"

definition candidate_of :: "resolvedSymbol \<Rightarrow> symbolCandidate" where
  "candidate_of c = \<lparr>sc_Path = rs_path c, sc_Line = rs_line c, sc_Kind = rs_kind c\<rparr>"

text \<open>What every lookup does with the candidates: none and several are errors.\<close>

definition unique_candidate :: "string \<Rightarrow> lsp_error + resolvedSymbol list \<Rightarrow> lsp_error + resolvedSymbol" where
  "unique_candidate symbol r =
     (case r of
        Inl err \<Rightarrow> Inl err
      | Inr [] \<Rightarrow> Inl (LSPSymbolNotFound symbol)
      | Inr [c] \<Rightarrow> Inr c
      | Inr cs \<Rightarrow> Inl (AmbiguousSymbol symbol (sort_candidates (map candidate_of cs))))"

section \<open>References\<close>

text \<open>The cache of \<open>readSnippet\<close> holds what the file held at the first reading.\<close>

definition readSnippet :: "(string \<Rightarrow> string option) \<Rightarrow> string \<Rightarrow> int \<Rightarrow> string" where
  "readSnippet read_file path lineNumber =
     (case read_file path of
        None \<Rightarrow> []
      | Some content \<Rightarrow>
          let lines = split_on newline content
          in if lineNumber \<le> 0 \<or> lineNumber > int (length lines) then [] else lines ! nat (lineNumber - 1))"

fun reference_loop :: "lsp_env \<Rightarrow> Matcher \<Rightarrow> string \<Rightarrow> Location list \<Rightarrow> lsp_error + referenceLine list" where
  "reference_loop env matcher workspaceRoot [] = Inr []"
| "reference_loop env matcher workspaceRoot (location # rest) =
     (case uri_path env (loc_URI location) of
        Inl err \<Rightarrow> Inl err
      | Inr path \<Rightarrow>
          if MatchesPath (le_cwd env) (Some matcher) path then reference_loop env matcher workspaceRoot rest
          else let lineNumber = pos_Line (rng_Start (loc_Range location)) + 1
               in case reference_loop env matcher workspaceRoot rest of
                    Inl err \<Rightarrow> Inl err
                  | Inr lines \<Rightarrow>
                      Inr (\<lparr>rl_Path = relativePath workspaceRoot path, rl_Line = lineNumber,
                            rl_Snippet = readSnippet (le_read_file env) path lineNumber\<rparr> # lines))"

definition toReferenceLines :: "lsp_env \<Rightarrow> string \<Rightarrow> Matcher \<Rightarrow> Location list \<Rightarrow> lsp_error + referenceLine list" where
  "toReferenceLines env workspaceRoot matcher references =
     (case reference_loop env matcher workspaceRoot references of
        Inl err \<Rightarrow> Inl err | Inr lines \<Rightarrow> Inr (dedupeAndSortReferences lines))"

text \<open>The part that \<open>findWithLSP\<close> and \<open>findRefsRawLSP\<close> share: the candidate and its references.\<close>

definition references_lookup ::
  "lsp_env \<Rightarrow> 'w lsp_client \<Rightarrow> string \<Rightarrow> string \<Rightarrow> string \<Rightarrow> string \<Rightarrow> 'w \<Rightarrow>
   (lsp_error + (resolvedSymbol \<times> referenceLine list)) \<times> 'w" where
  "references_lookup env client workspaceRoot filterPath symbol kind w =
     (let matcher = newWorkspaceIgnoreMatcher env workspaceRoot
      in case lc_symbols client symbol w of
           (Inl err, w1) \<Rightarrow> (Inl (Unavailable (RequestFailed ''workspace/symbol'' err)), w1)
         | (Inr symbols, w1) \<Rightarrow>
             if symbols = [] then (Inl (Unavailable (LSPNoSymbols symbol)), w1)
             else (case unique_candidate symbol
                          (resolveCandidates env symbols workspaceRoot filterPath matcher symbol kind) of
                     Inl err \<Rightarrow> (Inl err, w1)
                   | Inr c \<Rightarrow>
                       (case lc_references client (loc_URI (sy_Location (rs_info c)))
                               (rng_Start (loc_Range (sy_Location (rs_info c)))) False w1 of
                          (Inl err, w2) \<Rightarrow> (Inl (Unavailable (RequestFailed ''textDocument/references'' err)), w2)
                        | (Inr references, w2) \<Rightarrow>
                            (case toReferenceLines env workspaceRoot matcher references of
                               Inl err \<Rightarrow> (Inl err, w2) | Inr refs \<Rightarrow> (Inr (c, refs), w2)))))"

text \<open>The errors after which the text search is tried.\<close>

definition falls_back :: "lsp_error \<Rightarrow> bool" where
  "falls_back e = (case e of Unavailable _ \<Rightarrow> True | LSPSymbolNotFound _ \<Rightarrow> True | _ \<Rightarrow> False)"

section \<open>The engine\<close>

text \<open>A fallback gets the workspace root and the symbol.\<close>

type_synonym refsFallback = "string \<Rightarrow> string \<Rightarrow> lsp_error + referenceLine list"

record 'w RefsEngine =
  re_client :: "'w lsp_client option"
  re_fallback :: refsFallback

definition NewRefsEngine :: "refsFallback \<Rightarrow> 'w lsp_client option \<Rightarrow> refsFallback option \<Rightarrow> 'w RefsEngine" where
  "NewRefsEngine defaultFallbackSearcher client fallback =
     \<lparr>re_client = client, re_fallback = (case fallback of None \<Rightarrow> defaultFallbackSearcher | Some f \<Rightarrow> f)\<rparr>"

record RefsOptions =
  ro_WorkspaceRoot :: string
  ro_FilterPath :: string
  ro_Symbol :: string
  ro_Kind :: string
  ro_FallbackLSP :: string

text \<open>\<open>findRefsRawLSP\<close>; the raw references have the fields of the reference lines.\<close>

definition findRefsRawLSP ::
  "lsp_env \<Rightarrow> 'w lsp_client \<Rightarrow> string \<Rightarrow> string \<Rightarrow> string \<Rightarrow> string \<Rightarrow> 'w \<Rightarrow>
   (lsp_error + referenceLine list) \<times> 'w" where
  "findRefsRawLSP env client workspaceRoot filterPath symbol kind w =
     (case references_lookup env client workspaceRoot filterPath symbol kind w of
        (Inl err, w') \<Rightarrow> (Inl err, w') | (Inr (c, refs), w') \<Rightarrow> (Inr refs, w'))"

definition FindReferencesRaw ::
  "lsp_env \<Rightarrow> 'w RefsEngine \<Rightarrow> RefsOptions \<Rightarrow> 'w \<Rightarrow> (lsp_error + (referenceLine list \<times> string)) \<times> 'w" where
  "FindReferencesRaw env engine opts w =
     (let symbol = trim_space (ro_Symbol opts);
          workspaceRoot = resolveWorkspaceRoot (le_cwd env) (ro_WorkspaceRoot opts);
          grep = (case re_fallback engine workspaceRoot symbol of
                    Inl err \<Rightarrow> Inl (GrepFailed err) | Inr hits \<Rightarrow> Inr (hits, ''grep''))
      in if symbol = [] then (Inl SymbolMissing, w)
         else case NormalizeRefKind (ro_Kind opts) of
                Inl err \<Rightarrow> (Inl err, w)
              | Inr kind \<Rightarrow>
                  (case re_client engine of
                     None \<Rightarrow> (grep, w)
                   | Some client \<Rightarrow>
                       (case findRefsRawLSP env client workspaceRoot (ro_FilterPath opts) symbol kind w of
                          (Inr refs, w') \<Rightarrow> (Inr (refs, ''lsp''), w')
                        | (Inl err, w') \<Rightarrow> if falls_back err then (grep, w') else (Inl err, w'))))"

text \<open>The note of \<open>zeroRefsCrossCheckNote\<close>; at most five matches are listed.\<close>

definition maxListedCrossCheckMatches :: nat where "maxListedCrossCheckMatches = 5"

definition cross_check_leftover :: "resolvedSymbol \<Rightarrow> referenceLine list \<Rightarrow> referenceLine list" where
  "cross_check_leftover declaration hits =
     filter (\<lambda>m. \<not> (rl_Path m = rs_path declaration \<and> rl_Line m = rs_line declaration) \<and>
                 \<not> isImportReference (rl_Snippet m)) hits"

definition cross_check_lines :: "referenceLine list \<Rightarrow> string list" where
  "cross_check_lines leftover =
     (''Warning: a text search found '' @ int_str (int (length leftover)) @
        '' potential reference(s) the language server did not report:'') #
     map (\<lambda>m. ''  '' @ rl_Path m @ '':'' @ int_str (rl_Line m) @ ''  '' @ normalizeSnippet (rl_Snippet m))
       (take maxListedCrossCheckMatches leftover) @
     (if length leftover > maxListedCrossCheckMatches
      then [''  ... and '' @ int_str (int (length leftover) - int maxListedCrossCheckMatches) @ '' more''] else []) @
     [''If these are real references, the language server may lack project context'',
      ''(e.g. Lombok projects need the agent '' @ [CHR 0xE2, CHR 0x80, CHR 0x94] @
        '' see the lsp.java.args config key).'']"

definition zeroRefsCrossCheckNote :: "refsFallback \<Rightarrow> string \<Rightarrow> string \<Rightarrow> resolvedSymbol \<Rightarrow> string" where
  "zeroRefsCrossCheckNote fallback workspaceRoot symbol declaration =
     (case fallback workspaceRoot symbol of
        Inl err \<Rightarrow> []
      | Inr hits \<Rightarrow>
          let leftover = cross_check_leftover declaration hits
          in if leftover = [] then [] else join [newline] (cross_check_lines leftover))"

definition findWithLSP ::
  "lsp_env \<Rightarrow> 'w RefsEngine \<Rightarrow> 'w lsp_client \<Rightarrow> string \<Rightarrow> string \<Rightarrow> string \<Rightarrow> string \<Rightarrow> 'w \<Rightarrow>
   (lsp_error + string) \<times> 'w" where
  "findWithLSP env engine client workspaceRoot filterPath symbol kind w =
     (case references_lookup env client workspaceRoot filterPath symbol kind w of
        (Inl err, w') \<Rightarrow> (Inl err, w')
      | (Inr (c, refs), w') \<Rightarrow>
          let output = formatReferencesOutput refs [];
              note = (if refs = [] then zeroRefsCrossCheckNote (re_fallback engine) workspaceRoot symbol c else [])
          in (Inr (if note \<noteq> [] then output @ [newline] @ note else output), w'))"

definition fallbackPrecisionNote :: "string \<Rightarrow> string" where
  "fallbackPrecisionNote binary =
     (let trimmed = trim_space binary
      in ''(grep-based - install '' @ (if trimmed = [] then ''lsp'' else trimmed) @ '' for precise results)'')"

definition refs_Find ::
  "lsp_env \<Rightarrow> 'w RefsEngine \<Rightarrow> RefsOptions \<Rightarrow> 'w \<Rightarrow> (lsp_error + string) \<times> 'w" where
  "refs_Find env engine opts w =
     (let symbol = trim_space (ro_Symbol opts);
          workspaceRoot = resolveWorkspaceRoot (le_cwd env) (ro_WorkspaceRoot opts);
          grep = (case re_fallback engine workspaceRoot symbol of
                    Inl err \<Rightarrow> Inl (GrepFailed err)
                  | Inr hits \<Rightarrow>
                      if hits = [] then Inl (LSPSymbolNotFound symbol)
                      else Inr (formatReferencesOutput hits (fallbackPrecisionNote (ro_FallbackLSP opts))))
      in if symbol = [] then (Inl SymbolMissing, w)
         else case NormalizeRefKind (ro_Kind opts) of
                Inl err \<Rightarrow> (Inl err, w)
              | Inr kind \<Rightarrow>
                  (case re_client engine of
                     None \<Rightarrow> (grep, w)
                   | Some client \<Rightarrow>
                       (case findWithLSP env engine client workspaceRoot (ro_FilterPath opts) symbol kind w of
                          (Inr output, w') \<Rightarrow> (Inr output, w')
                        | (Inl err, w') \<Rightarrow> if falls_back err then (grep, w') else (Inl err, w'))))"

section \<open>The text search\<close>

fun grep_lines :: "string \<Rightarrow> string \<Rightarrow> int \<Rightarrow> string list \<Rightarrow> referenceLine list" where
  "grep_lines relative symbol index [] = []"
| "grep_lines relative symbol index (line # lines) =
     (if contains line symbol then [\<lparr>rl_Path = relative, rl_Line = index + 1, rl_Snippet = line\<rparr>] else []) @
     grep_lines relative symbol (index + 1) lines"

text \<open>The matches in one file; a file that cannot be read or holds a zero byte has none.\<close>

definition grep_file :: "(string \<Rightarrow> string option) \<Rightarrow> string \<Rightarrow> string \<Rightarrow> string \<Rightarrow> referenceLine list" where
  "grep_file read_file workspaceRoot symbol path =
     (case read_file path of
        None \<Rightarrow> []
      | Some content \<Rightarrow>
          if CHR 0x00 \<in> set content then []
          else grep_lines (relativePath workspaceRoot path) symbol 0 (split_on newline content))"

fun append_results :: "('e + 'a list) list \<Rightarrow> 'e + 'a list" where
  "append_results [] = Inr []"
| "append_results (r # rs) =
     (case r of
        Inl e \<Rightarrow> Inl e
      | Inr xs \<Rightarrow> (case append_results rs of Inl e \<Rightarrow> Inl e | Inr ys \<Rightarrow> Inr (xs @ ys)))"

text \<open>
  The callback of the walk on one entry and the walk below it; \<open>cancelled\<close> says for which paths the
  context is done when they are visited.
\<close>

fun grep_node ::
  "lsp_env \<Rightarrow> (string \<Rightarrow> bool) \<Rightarrow> Matcher \<Rightarrow> string \<Rightarrow> string \<Rightarrow> string \<Rightarrow> fs_node \<Rightarrow> lsp_error + referenceLine list" where
  "grep_node env cancelled m workspaceRoot symbol path FsBad =
     (if cancelled path then Inl (Cancelled path)
      else if path \<noteq> workspaceRoot \<and> MatchesPath (le_cwd env) (Some m) path then Inr [] else Inl (WalkFailed path))"
| "grep_node env cancelled m workspaceRoot symbol path (FsDir entries) =
     (if cancelled path then Inl (Cancelled path)
      else if path \<noteq> workspaceRoot \<and> MatchesPath (le_cwd env) (Some m) path then Inr []
      else append_results
        (map (\<lambda>(n, c). grep_node env cancelled m workspaceRoot symbol (path_join [path, n]) c) entries))"
| "grep_node env cancelled m workspaceRoot symbol path (FsFile fsize reg) =
     (if cancelled path then Inl (Cancelled path)
      else if \<not> reg \<or> MatchesPath (le_cwd env) (Some m) path then Inr []
      else Inr (grep_file (le_read_file env) workspaceRoot symbol path))"

definition grepFallbackSearcher :: "lsp_env \<Rightarrow> (string \<Rightarrow> bool) \<Rightarrow> refsFallback" where
  "grepFallbackSearcher env cancelled workspaceRoot symbol =
     (let trimmedSymbol = trim_space symbol; m = newWorkspaceIgnoreMatcher env workspaceRoot
      in if trimmedSymbol = [] then Inr []
         else case grep_node env cancelled m workspaceRoot trimmedSymbol workspaceRoot (le_tree env workspaceRoot) of
                Inl err \<Rightarrow> Inl err | Inr hits \<Rightarrow> Inr (dedupeAndSortReferences hits))"

section \<open>The adapter of the query engine\<close>

definition adapter_FindRefs ::
  "lsp_env \<Rightarrow> 'w RefsEngine \<Rightarrow> string \<Rightarrow> string \<Rightarrow> string \<Rightarrow> string \<Rightarrow> string \<Rightarrow> 'w \<Rightarrow>
   (lsp_error + (SymReference list \<times> string)) \<times> 'w" where
  "adapter_FindRefs env engine fallbackLSP workspaceRoot filterPath symbol kind w =
     (case FindReferencesRaw env engine
        \<lparr>ro_WorkspaceRoot = workspaceRoot, ro_FilterPath = filterPath, ro_Symbol = symbol, ro_Kind = kind,
         ro_FallbackLSP = fallbackLSP\<rparr> w of
        (Inl err, w') \<Rightarrow> (Inl err, w')
      | (Inr (raw, source), w') \<Rightarrow>
          (Inr (map (\<lambda>r. \<lparr>ref_File = rl_Path r, ref_Line = rl_Line r, ref_Snippet = rl_Snippet r,
                          ref_Score = 0, ref_Reason = []\<rparr>) raw, source), w'))"

section \<open>Candidates, sorted and unique\<close>

lemma unique_candidate_Inr: "unique_candidate symbol r = Inr c \<longleftrightarrow> r = Inr [c]"
  by (auto simp: unique_candidate_def split: sum.splits list.splits)

lemma sort_resolved_single: "sort_resolved r = Inr [c] \<longleftrightarrow> r = Inr [c]"
proof
  assume "sort_resolved r = Inr [c]"
  then obtain cs where cs: "r = Inr cs" "sort_key resolved_key cs = [c]"
    by (auto simp: sort_resolved_def split: sum.splits)
  moreover from this(2) have "length cs = 1" "set cs = {c}"
    using length_sort [of resolved_key cs] set_sort [of resolved_key cs] by simp_all
  ultimately show "r = Inr [c]" by (cases cs) auto
qed (simp add: sort_resolved_def)

lemma candidate_loop_elem:
  "candidate_loop env matcher ws filterPath select symbols = Inr cs \<Longrightarrow> c \<in> set cs \<Longrightarrow>
    rs_info c \<in> set symbols \<and> select (rs_info c) \<and>
    (\<exists>path. uri_path env (loc_URI (sy_Location (rs_info c))) = Inr path \<and>
       \<not> MatchesPath (le_cwd env) (Some matcher) path \<and> path_selected filterPath path \<and>
       rs_path c = relativePath ws path)"
  by (induction symbols arbitrary: cs) (auto split: if_splits sum.splits)

lemma unique_candidate_elem:
  assumes "unique_candidate symbol (sort_resolved (candidate_loop env matcher ws filterPath select symbols)) = Inr c"
  shows "rs_info c \<in> set symbols \<and> select (rs_info c) \<and>
    (\<exists>path. uri_path env (loc_URI (sy_Location (rs_info c))) = Inr path \<and>
       \<not> MatchesPath (le_cwd env) (Some matcher) path \<and> path_selected filterPath path \<and>
       rs_path c = relativePath ws path)"
  using assms candidate_loop_elem [of env matcher ws filterPath select symbols "[c]" c]
  by (simp add: unique_candidate_Inr sort_resolved_single)

lemma no_candidates: "\<forall>s \<in> set symbols. \<not> select s \<Longrightarrow> candidate_loop env matcher ws filterPath select symbols = Inr []"
  by (induction symbols) simp_all

section \<open>The text search\<close>

lemma grep_lines_set:
  "r \<in> set (grep_lines relative symbol k lines) \<longleftrightarrow>
    (\<exists>i < length lines. contains (lines ! i) symbol \<and>
       r = \<lparr>rl_Path = relative, rl_Line = k + int i + 1, rl_Snippet = lines ! i\<rparr>)"
proof (induction lines arbitrary: k)
  case (Cons line lines)
  have "(\<exists>i < length (line # lines). P i) \<longleftrightarrow> P 0 \<or> (\<exists>i < length lines. P (Suc i))" for P
    by (auto simp: less_Suc_eq_0_disj)
  then show ?case using Cons.IH [of "k + 1"] by (auto simp: algebra_simps)
qed simp

lemma append_results_map:
  "(\<And>x. x \<in> set xs \<Longrightarrow> f x = Inr (g x)) \<Longrightarrow> append_results (map f xs) = Inr (concat (map g xs))"
  by (induction xs) simp_all

lemma those_map: "those (map f xs) = Some yss \<Longrightarrow> (\<forall>x \<in> set xs. f x = Some (the (f x))) \<and> yss = map (\<lambda>x. the (f x)) xs"
  by (induction xs arbitrary: yss) (auto split: option.splits)

lemma concat_map_concat: "concat (map g (concat xss)) = concat (map (\<lambda>xs. concat (map g xs)) xss)"
  by (induction xss) simp_all

lemma grep_node_collect:
  assumes "\<And>p. \<not> cancelled p"
  shows "collect_node (le_cwd env) m (\<lambda>e. True) ws path t = Some files \<Longrightarrow>
    grep_node env cancelled m ws symbol path t = Inr (concat (map (grep_file (le_read_file env) ws symbol) files))"
proof (induction t arbitrary: path files)
  case (FsDir entries)
  show ?case
  proof (cases "path \<noteq> ws \<and> MatchesPath (le_cwd env) (Some m) path")
    case False
    let ?c = "\<lambda>p. collect_node (le_cwd env) m (\<lambda>e. True) ws (path_join [path, fst p]) (snd p)"
    obtain yss where yss: "those (map ?c entries) = Some yss" "files = concat yss"
      using FsDir.prems False by (auto simp: case_prod_unfold)
    have kids: "grep_node env cancelled m ws symbol (path_join [path, fst p]) (snd p) =
        Inr (concat (map (grep_file (le_read_file env) ws symbol) (the (?c p))))" if "p \<in> set entries" for p
    proof -
      have "?c p = Some (the (?c p))" using those_map [OF yss(1)] that by blast
      moreover have "snd p \<in> Basic_BNFs.snds p" by (simp add: snds.simps prod_eq_iff)
      ultimately show ?thesis using FsDir.IH that by blast
    qed
    have "files = concat (map (\<lambda>p. the (?c p)) entries)" using those_map [OF yss(1)] yss(2) by blast
    then show ?thesis
      using False assms [of path] append_results_map [of entries
        "\<lambda>p. grep_node env cancelled m ws symbol (path_join [path, fst p]) (snd p)", OF kids]
      by (auto simp: case_prod_unfold concat_map_concat comp_def)
  qed (use assms FsDir.prems in auto)
qed (use assms in \<open>auto split: if_splits\<close>)

lemma workspace_matcher_root: "names_ok rs \<Longrightarrow> mt_root (newWorkspaceIgnoreMatcher env (abs_path rs)) = abs_path rs"
  by (simp add: newWorkspaceIgnoreMatcher_def NewMatcher_def Let_def path_abs_def path_is_abs_def abs_path_clean)
     (simp add: abs_path_def)

text \<open>
  The path that is shown for a file below the workspace root. The test for paths outside the root
  is also passed by names below it that begin with two dots.
\<close>

definition shown_path :: "string list \<Rightarrow> string list \<Rightarrow> string" where
  "shown_path rs ms = (if has_prefix (rel_path ms) ''..'' then abs_path (rs @ ms) else rel_path ms)"

lemma relativePath_below:
  assumes "names_ok rs" "names_ok ms" "ms \<noteq> []"
  shows "relativePath (abs_path rs) (abs_path (rs @ ms)) = shown_path rs ms"
proof -
  have "\<not> has_prefix (rel_path ms) ''/''"
    using rel_path_relative [OF assms(2,3)] by (simp add: path_is_abs_def)
  then have "\<not> has_prefix (rel_path ms) ''/..''" by (auto simp: has_prefix_iff)
  moreover have "path_clean (rel_path ms) = rel_path ms" using assms(2,3) by (rule rel_path_clean)
  moreover have "path_clean (abs_path (rs @ ms)) = abs_path (rs @ ms)" using assms abs_path_clean by simp
  ultimately show ?thesis
    using assms by (simp add: relativePath_def rel_of_abs shown_path_def)
qed

text \<open>A reference is a hit: a line of a regular text file that is not ignored and contains the symbol.\<close>

definition grep_hit :: "lsp_env \<Rightarrow> string list \<Rightarrow> string \<Rightarrow> fs_node \<Rightarrow> referenceLine \<Rightarrow> bool" where
  "grep_hit env rs symbol t r \<longleftrightarrow>
     (\<exists>(ms, f) \<in> set (all_files [] t).
        fs_regular f \<and> \<not> on_the_way (walk_ignored (newWorkspaceIgnoreMatcher env (abs_path rs))) 0 ms \<and>
        (\<exists>content i. le_read_file env (abs_path (rs @ ms)) = Some content \<and> CHR 0x00 \<notin> set content \<and>
           i < length (split_on newline content) \<and> contains (split_on newline content ! i) symbol \<and>
           rl_Path r = relativePath (abs_path rs) (abs_path (rs @ ms)) \<and> rl_Line r = int i + 1 \<and>
           rl_Snippet r = split_on newline content ! i))"

lemma grep_file_set:
  "r \<in> set (grep_file read_file ws symbol path) \<longleftrightarrow>
    (\<exists>content i. read_file path = Some content \<and> CHR 0x00 \<notin> set content \<and>
       i < length (split_on newline content) \<and> contains (split_on newline content ! i) symbol \<and>
       rl_Path r = relativePath ws path \<and> rl_Line r = int i + 1 \<and> rl_Snippet r = split_on newline content ! i)"
  by (cases "read_file path"; cases r) (auto simp: grep_file_def grep_lines_set)

lemma grep_node_hits:
  assumes "names_ok rs" "fs_names_ok t" "fs_readable t" "\<And>p. \<not> cancelled p"
  shows "\<exists>refs. grep_node env cancelled (newWorkspaceIgnoreMatcher env (abs_path rs)) (abs_path rs) symbol (abs_path rs) t =
      Inr refs \<and> set refs = {r. grep_hit env rs symbol t r}"
proof -
  let ?m = "newWorkspaceIgnoreMatcher env (abs_path rs)"
  let ?files = "map (\<lambda>ms. abs_path (rs @ ms)) (pruned (walk_ignored ?m) (collect_keep (\<lambda>e. True) rs) [] t)"
  have "collect_node (le_cwd env) ?m (\<lambda>e. True) (abs_path rs) (abs_path rs) t = Some ?files"
    using collect_node_pruned [OF assms(1) workspace_matcher_root [OF assms(1)] _ assms(2,3), of "[]"] by simp
  from grep_node_collect [OF assms(4) this]
  have "grep_node env cancelled ?m (abs_path rs) symbol (abs_path rs) t =
      Inr (concat (map (grep_file (le_read_file env) (abs_path rs) symbol) ?files))" .
  moreover have "set (concat (map (grep_file (le_read_file env) (abs_path rs) symbol) ?files)) =
      {r. grep_hit env rs symbol t r}"
    by (auto simp: pruned_filter grep_hit_def grep_file_set collect_keep_def case_prod_unfold)
  ultimately show ?thesis by blast
qed

section \<open>Properties\<close>

text \<open>
  C11. What the text search finds. Below an absolute root with readable directories, and if the search
  is not cancelled, it returns, in strict order by path, line and text, only hits: lines that contain
  the symbol, in regular files without a zero byte that are not ignored and not below an ignored
  directory. It returns every hit if no path shown holds a colon.
\<close>

theorem grepFallback_hits:
  assumes "names_ok rs" "fs_names_ok (le_tree env (abs_path rs))" "fs_readable (le_tree env (abs_path rs))"
    and "\<And>p. \<not> cancelled p" "trim_space symbol \<noteq> []"
  shows "\<exists>refs. grepFallbackSearcher env cancelled (abs_path rs) symbol = Inr refs \<and>
    sorted_wrt (\<lambda>r q. ref_sort_key r < ref_sort_key q) refs \<and>
    set refs \<subseteq> {r. grep_hit env rs (trim_space symbol) (le_tree env (abs_path rs)) r} \<and>
    ((\<forall>r. grep_hit env rs (trim_space symbol) (le_tree env (abs_path rs)) r \<longrightarrow> CHR '':'' \<notin> set (rl_Path r)) \<longrightarrow>
      set refs = {r. grep_hit env rs (trim_space symbol) (le_tree env (abs_path rs)) r})"
proof -
  obtain raw where raw: "grep_node env cancelled (newWorkspaceIgnoreMatcher env (abs_path rs)) (abs_path rs)
        (trim_space symbol) (abs_path rs) (le_tree env (abs_path rs)) = Inr raw"
      "set raw = {r. grep_hit env rs (trim_space symbol) (le_tree env (abs_path rs)) r}"
    using grep_node_hits [OF assms(1-3), of cancelled] assms(4) by blast
  have "grepFallbackSearcher env cancelled (abs_path rs) symbol = Inr (dedupeAndSortReferences raw)"
    by (simp add: grepFallbackSearcher_def Let_def assms(5) raw(1))
  moreover have "set (dedupeAndSortReferences raw) \<subseteq> set raw" by (rule dedupe_subset)
  moreover have "\<forall>r \<in> set raw. CHR '':'' \<notin> set (rl_Path r) \<Longrightarrow> set (dedupeAndSortReferences raw) = set raw"
    by (rule dedupe_set)
  ultimately show ?thesis using dedupe_sorted [of raw] raw(2) by auto
qed

definition demo_lsp_env :: lsp_env where
  "demo_lsp_env =
     \<lparr>le_cwd = ''/w'', le_sha256 = (\<lambda>t. ''h''), le_open_file = (\<lambda>p. None),
      le_read_file = (\<lambda>p. if p = ''/w/a.go'' then Some (''x := f()'' @ [newline] @ ''f()'' @ [newline]) else None),
      le_tree = (\<lambda>p. FsDir [(''a.go'', FsFile 14 True), (''b.go'', FsFile 0 True)]), le_authority_ok = (\<lambda>a. True)\<rparr>"

theorem grepFallback_hits_witness:
  "grepFallbackSearcher demo_lsp_env (\<lambda>p. False) ''/w'' '' f('' =
    Inr [\<lparr>rl_Path = ''a.go'', rl_Line = 1, rl_Snippet = ''x := f()''\<rparr>, \<lparr>rl_Path = ''a.go'', rl_Line = 2, rl_Snippet = ''f()''\<rparr>] \<and>
   grep_hit demo_lsp_env [''w''] ''f('' (le_tree demo_lsp_env ''/w'') \<lparr>rl_Path = ''a.go'', rl_Line = 2, rl_Snippet = ''f()''\<rparr>"
proof -
  have run: "grepFallbackSearcher demo_lsp_env (\<lambda>p. False) ''/w'' '' f('' =
      Inr [\<lparr>rl_Path = ''a.go'', rl_Line = 1, rl_Snippet = ''x := f()''\<rparr>, \<lparr>rl_Path = ''a.go'', rl_Line = 2, rl_Snippet = ''f()''\<rparr>]"
    by code_simp
  have w: "abs_path [''w''] = ''/w''" "trim_space '' f('' = ''f(''" by code_simp+
  have "names_ok [''w'']" "fs_names_ok (le_tree demo_lsp_env (abs_path [''w'']))"
    "fs_readable (le_tree demo_lsp_env (abs_path [''w'']))" "trim_space '' f('' \<noteq> []"
    by (simp_all add: demo_lsp_env_def is_name_def w)
  note hits = grepFallback_hits [OF this(1-3) _ this(4), of "\<lambda>p. False"]
  then show ?thesis unfolding w run by auto
qed

text \<open>
  Where references come from. A successful lookup has the source \<open>lsp\<close> only if the server named
  exactly one symbol that matches and its references are the ones returned; otherwise the source is
  \<open>grep\<close>, the references are those of the text search, and there is no client, or the server failed,
  knew no symbol, or none that matches.
\<close>

theorem FindReferencesRaw_source:
  assumes "FindReferencesRaw env engine opts w = (Inr (refs, source), w')"
  shows "let symbol = trim_space (ro_Symbol opts); ws = resolveWorkspaceRoot (le_cwd env) (ro_WorkspaceRoot opts) in
    \<exists>kind. NormalizeRefKind (ro_Kind opts) = Inr kind \<and>
      ((\<exists>client c. source = ''lsp'' \<and> re_client engine = Some client \<and>
          references_lookup env client ws (ro_FilterPath opts) symbol kind w = (Inr (c, refs), w') \<and>
          isNameMatch (sy_Name (rs_info c)) symbol) \<or>
       source = ''grep'' \<and> re_fallback engine ws symbol = Inr refs \<and>
         (case re_client engine of
            None \<Rightarrow> w' = w
          | Some client \<Rightarrow>
              \<exists>err. references_lookup env client ws (ro_FilterPath opts) symbol kind w = (Inl err, w') \<and> falls_back err))"
proof -
  let ?symbol = "trim_space (ro_Symbol opts)" and ?ws = "resolveWorkspaceRoot (le_cwd env) (ro_WorkspaceRoot opts)"
  have match: "isNameMatch (sy_Name (rs_info c)) ?symbol"
    if "references_lookup env client ?ws (ro_FilterPath opts) ?symbol kind w = (Inr (c, refs), w')" for client kind c
    using that unique_candidate_elem [of ?symbol env "newWorkspaceIgnoreMatcher env ?ws" ?ws "ro_FilterPath opts"
      "\<lambda>s. isNameMatch (sy_Name s) ?symbol \<and> (kind = [] \<or> kindMatches kind (sy_Kind s))" _ c]
    by (auto simp: references_lookup_def Let_def resolveCandidates_def split: prod.splits sum.splits if_splits)
  show ?thesis
  proof (cases "re_client engine")
    case None
    then show ?thesis
      using assms by (auto simp: FindReferencesRaw_def Let_def split: if_splits sum.splits)
  next
    case (Some client)
    then obtain kind where kind: "NormalizeRefKind (ro_Kind opts) = Inr kind"
      using assms by (auto simp: FindReferencesRaw_def Let_def split: if_splits sum.splits)
    obtain r w1 where r: "references_lookup env client ?ws (ro_FilterPath opts) ?symbol kind w = (r, w1)" by fastforce
    show ?thesis
    proof (cases r)
      case (Inl err)
      then show ?thesis
        using assms Some kind r
        by (auto simp: FindReferencesRaw_def findRefsRawLSP_def Let_def split: if_splits sum.splits)
    next
      case (Inr cr)
      then have "source = ''lsp''" "w' = w1" "references_lookup env client ?ws (ro_FilterPath opts) ?symbol kind w = (Inr (fst cr, refs), w')"
        using assms Some kind r
        by (auto simp: FindReferencesRaw_def findRefsRawLSP_def Let_def split: if_splits sum.splits prod.splits)
      then show ?thesis using match Some kind by auto
    qed
  qed
qed

definition demo_symbol :: "string \<Rightarrow> SymbolInformation" where
  "demo_symbol name =
     \<lparr>sy_Name = name, sy_Kind = SymbolKindFunction,
      sy_Location = \<lparr>loc_URI = ''file:///w/a.go'', loc_Range = \<lparr>rng_Start = \<lparr>pos_Line = 1, pos_Character = 0\<rparr>,
        rng_End = \<lparr>pos_Line = 1, pos_Character = 1\<rparr>\<rparr>\<rparr>, sy_ContainerName = []\<rparr>"

text \<open>A server whose symbols are the given ones and that knows one reference.\<close>

definition demo_client :: "SymbolInformation list \<Rightarrow> unit lsp_client" where
  "demo_client symbols =
     \<lparr>lc_symbols = (\<lambda>q w. (Inr symbols, w)), lc_references = (\<lambda>u p d w. (Inr [sy_Location (demo_symbol [])], w)),
      lc_prepareCalls = (\<lambda>u p w. (Inr [], w)), lc_incomingCalls = (\<lambda>i w. (Inr [], w)),
      lc_prepareTypes = (\<lambda>u p w. (Inr [], w)), lc_subtypes = (\<lambda>i w. (Inr [], w)),
      lc_implementation = (\<lambda>u p w. (Inr [], w))\<rparr>"

definition demo_refs_engine :: "SymbolInformation list \<Rightarrow> unit RefsEngine" where
  "demo_refs_engine symbols = NewRefsEngine (grepFallbackSearcher demo_lsp_env (\<lambda>p. False)) (Some (demo_client symbols)) None"

definition demo_refs_options :: RefsOptions where
  "demo_refs_options = \<lparr>ro_WorkspaceRoot = ''/w'', ro_FilterPath = [], ro_Symbol = ''f'', ro_Kind = [], ro_FallbackLSP = ''gopls''\<rparr>"

theorem FindReferencesRaw_source_witness:
  "\<exists>client c. re_client (demo_refs_engine [demo_symbol ''f'']) = Some client \<and>
    references_lookup demo_lsp_env client ''/w'' [] ''f'' [] () =
      (Inr (c, [\<lparr>rl_Path = ''a.go'', rl_Line = 2, rl_Snippet = ''f()''\<rparr>]), ()) \<and> isNameMatch (sy_Name (rs_info c)) ''f''"
proof -
  have run: "FindReferencesRaw demo_lsp_env (demo_refs_engine [demo_symbol ''f'']) demo_refs_options () =
      (Inr ([\<lparr>rl_Path = ''a.go'', rl_Line = 2, rl_Snippet = ''f()''\<rparr>], ''lsp''), ())"
    by code_simp
  have args: "trim_space (ro_Symbol demo_refs_options) = ''f''" "ro_FilterPath demo_refs_options = []"
    "resolveWorkspaceRoot (le_cwd demo_lsp_env) (ro_WorkspaceRoot demo_refs_options) = ''/w''"
    "NormalizeRefKind (ro_Kind demo_refs_options) = Inr []"
    by code_simp+
  from FindReferencesRaw_source [OF run] show ?thesis unfolding Let_def args by auto
qed

text \<open>
  The text of a lookup is that of its raw result: \<open>Find\<close> fails exactly like \<open>FindReferencesRaw\<close>,
  except that a text search without a hit is an error, and prints the same references; only when
  the server reports none is a warning about other hits of the text search appended.
\<close>

theorem refs_Find_raw:
  "snd (refs_Find env engine opts w) = snd (FindReferencesRaw env engine opts w) \<and>
   (case fst (FindReferencesRaw env engine opts w) of
      Inl err \<Rightarrow> fst (refs_Find env engine opts w) = Inl err
    | Inr (refs, source) \<Rightarrow>
        if source = ''grep''
        then fst (refs_Find env engine opts w) =
          (if refs = [] then Inl (LSPSymbolNotFound (trim_space (ro_Symbol opts)))
           else Inr (formatReferencesOutput refs (fallbackPrecisionNote (ro_FallbackLSP opts))))
        else \<exists>note. fst (refs_Find env engine opts w) = Inr (formatReferencesOutput refs [] @ note) \<and>
          (refs \<noteq> [] \<longrightarrow> note = []))"
proof -
  let ?symbol = "trim_space (ro_Symbol opts)" and ?ws = "resolveWorkspaceRoot (le_cwd env) (ro_WorkspaceRoot opts)"
  show ?thesis
  proof (cases "?symbol = [] \<or> (\<exists>e. NormalizeRefKind (ro_Kind opts) = Inl e) \<or> re_client engine = None")
    case True
    then show ?thesis
      by (cases "NormalizeRefKind (ro_Kind opts)"; cases "re_fallback engine ?ws ?symbol")
        (auto simp: refs_Find_def FindReferencesRaw_def Let_def split: option.splits)
  next
    case False
    then obtain kind client where k: "?symbol \<noteq> []" "NormalizeRefKind (ro_Kind opts) = Inr kind" "re_client engine = Some client"
      by (cases "NormalizeRefKind (ro_Kind opts)") auto
    obtain r w1 where r: "references_lookup env client ?ws (ro_FilterPath opts) ?symbol kind w = (r, w1)" by fastforce
    show ?thesis
    proof (cases r)
      case (Inl err)
      then show ?thesis
        using k r by (cases "re_fallback engine ?ws ?symbol")
          (auto simp: refs_Find_def FindReferencesRaw_def findWithLSP_def findRefsRawLSP_def Let_def)
    next
      case (Inr cr)
      then show ?thesis
        using k r by (cases cr)
          (auto simp: refs_Find_def FindReferencesRaw_def findWithLSP_def findRefsRawLSP_def Let_def)
    qed
  qed
qed

text \<open>
  Symbols that are filtered out lead to the text search too, although the comment in \<open>findWithLSP\<close>
  says that there is no fallback then.
\<close>

lemma filtered_symbols_grep:
  "FindReferencesRaw demo_lsp_env (demo_refs_engine [demo_symbol ''g'']) demo_refs_options () =
    (Inr ([\<lparr>rl_Path = ''a.go'', rl_Line = 1, rl_Snippet = ''x := f()''\<rparr>, \<lparr>rl_Path = ''a.go'', rl_Line = 2, rl_Snippet = ''f()''\<rparr>],
      ''grep''), ())"
  by code_simp

end
