(* ===== verification/LspCallers.thy ===== *)
theory LspCallers
  imports LspRefs
begin

text \<open>
  \<open>pkg/lsp/callers.go\<close>, \<open>callers_raw.go\<close> and \<open>pkg/engine/adapter_callers.go\<close>: the callers of a symbol
  by the call hierarchy of the language server.
\<close>

section \<open>Names\<close>

text \<open>What is after the last dot, and the length of what is up to and with it.\<close>

definition after_last_dot :: "string \<Rightarrow> string" where
  "after_last_dot s = rev (takeWhile (\<lambda>c. c \<noteq> CHR ''.'') (rev s))"

definition dot_start :: "string \<Rightarrow> nat" where
  "dot_start s = length s - length (after_last_dot s)"

text \<open>The name without the parameter list that starts in its last part.\<close>

definition symbolLookupTrimmedName :: "string \<Rightarrow> string" where
  "symbolLookupTrimmedName name =
     (let trimmed = trim_space name
      in take (dot_start trimmed) trimmed @ takeWhile (\<lambda>c. c \<noteq> CHR ''('') (after_last_dot trimmed))"

definition symbolLookupBaseName :: "string \<Rightarrow> string" where
  "symbolLookupBaseName name = after_last_dot (symbolLookupTrimmedName name)"

definition symbolLookupContainer :: "string \<Rightarrow> string" where
  "symbolLookupContainer name =
     (let trimmed = symbolLookupTrimmedName name in take (dot_start trimmed - 1) trimmed)"

function strip_parens :: "string \<Rightarrow> string" where
  "strip_parens s =
     (if has_prefix s ''('' \<and> has_suffix s '')'' then strip_parens (trim_space (butlast (tl s))) else s)"
  by pat_completeness auto
termination
proof (relation "measure length")
  fix s :: string assume "has_prefix s ''('' \<and> has_suffix s '')''"
  then have "s \<noteq> []" by auto
  moreover have "length (trim_space (butlast (tl s))) \<le> length (butlast (tl s))"
    using trim_space_sublist sublist_length_le by blast
  ultimately show "(trim_space (butlast (tl s)), s) \<in> measure length" by (cases s) simp_all
qed simp

declare strip_parens.simps [simp del]

definition normalizeSymbolLookupContainer :: "string \<Rightarrow> string" where
  "normalizeSymbolLookupContainer name =
     strip_parens (trim_prefix (strip_parens (trim_space name)) ''*'')"

definition sameSymbolLookupContainer :: "string \<Rightarrow> string \<Rightarrow> bool" where
  "sameSymbolLookupContainer left right =
     (normalizeSymbolLookupContainer left = normalizeSymbolLookupContainer right)"

definition symbolLookupNameMatches :: "string \<Rightarrow> string \<Rightarrow> bool" where
  "symbolLookupNameMatches matchName searchName =
     (let matchFull = symbolLookupTrimmedName matchName; searchFull = symbolLookupTrimmedName searchName;
          matchBase = symbolLookupBaseName matchFull; searchBase = symbolLookupBaseName searchFull
      in if matchFull = [] \<or> searchFull = [] then False
         else if matchFull = searchFull then True
         else if matchBase = [] \<or> searchBase = [] \<or> matchBase \<noteq> searchBase then False
         else if CHR ''.'' \<notin> set searchFull then True
         else sameSymbolLookupContainer (symbolLookupContainer matchFull) (symbolLookupContainer searchFull))"

definition callersSymbolMatches :: "SymbolInformation \<Rightarrow> string \<Rightarrow> bool" where
  "callersSymbolMatches match search =
     (if symbolLookupNameMatches (sy_Name match) search then True
      else let container = trim_space (sy_ContainerName match); base = symbolLookupBaseName (sy_Name match)
           in container \<noteq> [] \<and> base \<noteq> [] \<and> symbolLookupNameMatches (container @ ''.'' @ base) search)"

definition isCallHierarchySymbolKind :: "SymbolKind \<Rightarrow> bool" where
  "isCallHierarchySymbolKind kind = (kind \<in> {SymbolKindFunction, SymbolKindMethod, SymbolKindConstructor})"

definition resolveCallersCandidates ::
  "lsp_env \<Rightarrow> SymbolInformation list \<Rightarrow> string \<Rightarrow> string \<Rightarrow> Matcher \<Rightarrow> string \<Rightarrow> lsp_error + resolvedSymbol list" where
  "resolveCallersCandidates env symbols workspaceRoot filterPath matcher symbol =
     sort_resolved (candidate_loop env matcher workspaceRoot filterPath
       (\<lambda>s. callersSymbolMatches s symbol \<and> isCallHierarchySymbolKind (sy_Kind s)) symbols)"

section \<open>Nodes of the hierarchy\<close>

record hierarchyNode =
  hn_item :: CallHierarchyItem
  hn_name :: string
  hn_path :: string
  hn_line :: int
  hn_character :: int
  hn_identity :: string

definition callHierarchyIdentity :: "string \<Rightarrow> int \<Rightarrow> int \<Rightarrow> string \<Rightarrow> string" where
  "callHierarchyIdentity path line character name =
     path @ '':'' @ int_str line @ '':'' @ int_str character @ '':'' @ name"

text \<open>\<open>None\<close> is the zero node of an ignored path, whose identity is empty.\<close>

definition hierarchyNodeForItem ::
  "lsp_env \<Rightarrow> string \<Rightarrow> Matcher \<Rightarrow> CallHierarchyItem \<Rightarrow> lsp_error + hierarchyNode option" where
  "hierarchyNodeForItem env workspaceRoot matcher item =
     (case uri_path env (hi_URI item) of
        Inl err \<Rightarrow> Inl err
      | Inr path \<Rightarrow>
          if MatchesPath (le_cwd env) (Some matcher) path then Inr None
          else (case callHierarchyPosition item of (line, character) \<Rightarrow>
            let relative = relativePath workspaceRoot path
            in Inr (Some \<lparr>hn_item = item, hn_name = hi_Name item, hn_path = relative, hn_line = line + 1,
                          hn_character = character,
                          hn_identity = callHierarchyIdentity relative line character (hi_Name item)\<rparr>)))"

definition node_identity :: "hierarchyNode option \<Rightarrow> string" where
  "node_identity n = (case n of None \<Rightarrow> [] | Some n \<Rightarrow> hn_identity n)"

text \<open>The nodes of the incoming calls in order, without ignored ones; an identity counts once.\<close>

fun call_nodes :: "lsp_env \<Rightarrow> string \<Rightarrow> Matcher \<Rightarrow> CallHierarchyIncomingCall list \<Rightarrow> lsp_error + hierarchyNode list" where
  "call_nodes env workspaceRoot matcher [] = Inr []"
| "call_nodes env workspaceRoot matcher (call # calls) =
     (case hierarchyNodeForItem env workspaceRoot matcher (ic_From call) of
        Inl err \<Rightarrow> Inl err
      | Inr node \<Rightarrow>
          (case call_nodes env workspaceRoot matcher calls of
             Inl err \<Rightarrow> Inl err
           | Inr nodes \<Rightarrow> Inr ((case node of None \<Rightarrow> [] | Some n \<Rightarrow> [n]) @ nodes)))"

definition node_key :: "hierarchyNode \<Rightarrow> string \<times> int \<times> int \<times> string" where
  "node_key n = (hn_path n, hn_line n, hn_character n, hn_name n)"

definition incomingNodes ::
  "lsp_env \<Rightarrow> string \<Rightarrow> Matcher \<Rightarrow> CallHierarchyIncomingCall list \<Rightarrow> lsp_error + hierarchyNode list" where
  "incomingNodes env workspaceRoot matcher incoming =
     (case call_nodes env workspaceRoot matcher incoming of
        Inl err \<Rightarrow> Inl err | Inr nodes \<Rightarrow> Inr (sort_key node_key (keep_first hn_identity [] nodes)))"

definition lookupIncomingCalls ::
  "'w lsp_client \<Rightarrow> CallHierarchyItem \<Rightarrow> 'w \<Rightarrow> (lsp_error + CallHierarchyIncomingCall list) \<times> 'w" where
  "lookupIncomingCalls client item w =
     (case lc_incomingCalls client item w of
        (Inl err, w') \<Rightarrow> (Inl (RequestFailed ''callHierarchy/incomingCalls'' err), w')
      | (Inr incoming, w') \<Rightarrow> (Inr incoming, w'))"

section \<open>The walk\<close>

record callerOutputLine =
  col_depth :: int
  col_name :: string
  col_path :: string
  col_line :: int

definition caller_line :: "int \<Rightarrow> hierarchyNode \<Rightarrow> callerOutputLine" where
  "caller_line depth n = \<lparr>col_depth = depth, col_name = hn_name n, col_path = hn_path n, col_line = hn_line n\<rparr>"

text \<open>The nodes of a level that are new, and what is seen after they are reserved.\<close>

fun reserve_level :: "string list \<Rightarrow> string list \<Rightarrow> hierarchyNode list \<Rightarrow> hierarchyNode list \<times> string list" where
  "reserve_level parents seen [] = ([], seen)"
| "reserve_level parents seen (n # nodes) =
     (if hn_identity n \<in> set parents \<or> hn_identity n \<in> set seen then reserve_level parents seen nodes
      else case reserve_level parents (hn_identity n # seen) nodes of (level, seen') \<Rightarrow> (n # level, seen'))"

text \<open>
  \<open>walkIncoming\<close> and the loop over the nodes of one level. The map of ancestors (\<open>parents\<close> here) gets the node before
  the descent and loses it after, so that the callee can be given the longer list. The results are
  the count or an error, the seen identities, the output lines and the state of the server.
\<close>

function (sequential) walkIncoming ::
    "lsp_env \<Rightarrow> 'w lsp_client \<Rightarrow> Matcher \<Rightarrow> string \<Rightarrow> int \<Rightarrow> int \<Rightarrow> CallHierarchyItem \<Rightarrow> string list \<Rightarrow> string list \<Rightarrow>
     callerOutputLine list \<Rightarrow> 'w \<Rightarrow> (lsp_error + int) \<times> string list \<times> callerOutputLine list \<times> 'w"
  and walk_level ::
    "lsp_env \<Rightarrow> 'w lsp_client \<Rightarrow> Matcher \<Rightarrow> string \<Rightarrow> int \<Rightarrow> int \<Rightarrow> hierarchyNode list \<Rightarrow> string list \<Rightarrow> string list \<Rightarrow>
     callerOutputLine list \<Rightarrow> 'w \<Rightarrow> (lsp_error + int) \<times> string list \<times> callerOutputLine list \<times> 'w" where
  "walkIncoming env client matcher workspaceRoot maxDepth depth item parents seen outputLines w =
     (if depth > maxDepth then (Inr 0, seen, outputLines, w)
      else case lookupIncomingCalls client item w of
             (Inl err, w') \<Rightarrow> (Inl err, seen, outputLines, w')
           | (Inr incoming, w') \<Rightarrow>
               (case incomingNodes env workspaceRoot matcher incoming of
                  Inl err \<Rightarrow> (Inl err, seen, outputLines, w')
                | Inr nodes \<Rightarrow>
                    (case reserve_level parents seen nodes of (levelNodes, seen') \<Rightarrow>
                       walk_level env client matcher workspaceRoot maxDepth depth levelNodes parents seen' outputLines w')))"
| "walk_level env client matcher workspaceRoot maxDepth depth [] parents seen outputLines w =
     (Inr 0, seen, outputLines, w)"
| "walk_level env client matcher workspaceRoot maxDepth depth (node # nodes) parents seen outputLines w =
     (case (if depth \<ge> maxDepth then (Inr 0, seen, outputLines @ [caller_line depth node], w)
            else walkIncoming env client matcher workspaceRoot maxDepth (depth + 1) (hn_item node)
                   (hn_identity node # parents) seen (outputLines @ [caller_line depth node]) w) of
        (Inl err, seen1, lines1, w1) \<Rightarrow> (Inl err, seen1, lines1, w1)
      | (Inr childCount, seen1, lines1, w1) \<Rightarrow>
          (case walk_level env client matcher workspaceRoot maxDepth depth nodes parents seen1 lines1 w1 of
             (Inl err, r) \<Rightarrow> (Inl err, r)
           | (Inr restCount, r) \<Rightarrow> (Inr (1 + childCount + restCount), r)))"
  by pat_completeness auto
termination
  by (relation "measures
      [case_sum (\<lambda>(env, client, m, ws, maxDepth, depth, r). nat (maxDepth + 1 - depth))
                (\<lambda>(env, client, m, ws, maxDepth, depth, r). nat (maxDepth + 1 - depth)),
       case_sum (\<lambda>_. 1) (\<lambda>_. 0),
       case_sum (\<lambda>_. 0) (\<lambda>(env, client, m, ws, maxDepth, depth, nodes, r). length nodes)]") auto

declare walkIncoming.simps [simp del]

section \<open>The engine\<close>

definition prepareCallHierarchy ::
  "'w lsp_client \<Rightarrow> SymbolInformation \<Rightarrow> 'w \<Rightarrow> (lsp_error + CallHierarchyItem option) \<times> 'w" where
  "prepareCallHierarchy client symbol w =
     (case lc_prepareCalls client (loc_URI (sy_Location symbol)) (rng_Start (loc_Range (sy_Location symbol))) w of
        (Inl err, w') \<Rightarrow> (Inl (RequestFailed ''textDocument/prepareCallHierarchy'' err), w')
      | (Inr items, w') \<Rightarrow> (Inr (first_by item_key items), w'))"

record CallersOptions =
  co_WorkspaceRoot :: string
  co_FilterPath :: string
  co_Symbol :: string
  co_Depth :: int
  co_LSPBinary :: string
  co_LSPInstall :: string

text \<open>
  What \<open>Find\<close> and \<open>FindCallersRaw\<close> share after their checks: the symbol and, if the server has a call
  hierarchy for it, the lines and their count.
\<close>

definition callers_walk ::
  "lsp_env \<Rightarrow> 'w lsp_client \<Rightarrow> string \<Rightarrow> Matcher \<Rightarrow> int \<Rightarrow> CallHierarchyItem \<Rightarrow> 'w \<Rightarrow>
   (lsp_error + (callerOutputLine list \<times> int)) \<times> 'w" where
  "callers_walk env client workspaceRoot matcher depth rootItem w =
     (case hierarchyNodeForItem env workspaceRoot matcher rootItem of
        Inl err \<Rightarrow> (Inl err, w)
      | Inr rootNode \<Rightarrow>
          (case walkIncoming env client matcher workspaceRoot depth 1 rootItem [node_identity rootNode]
                  [node_identity rootNode] [] w of
             (Inl err, seen, outputLines, w') \<Rightarrow> (Inl err, w')
           | (Inr callersCount, seen, outputLines, w') \<Rightarrow> (Inr (outputLines, callersCount), w')))"

definition callers_lookup ::
  "lsp_env \<Rightarrow> 'w lsp_client \<Rightarrow> string \<Rightarrow> string \<Rightarrow> string \<Rightarrow> int \<Rightarrow> 'w \<Rightarrow>
   (lsp_error + (resolvedSymbol \<times> (callerOutputLine list \<times> int) option)) \<times> 'w" where
  "callers_lookup env client workspaceRoot filterPath symbol depth w =
     (let matcher = newWorkspaceIgnoreMatcher env workspaceRoot
      in case lc_symbols client symbol w of
           (Inl err, w1) \<Rightarrow> (Inl (RequestFailed ''workspace/symbol'' err), w1)
         | (Inr symbols, w1) \<Rightarrow>
             if symbols = [] then (Inl (LSPNoSymbols symbol), w1)
             else (case unique_candidate symbol
                          (resolveCallersCandidates env symbols workspaceRoot filterPath matcher symbol) of
                     Inl err \<Rightarrow> (Inl err, w1)
                   | Inr c \<Rightarrow>
                       (case prepareCallHierarchy client (rs_info c) w1 of
                          (Inl err, w2) \<Rightarrow> (Inl err, w2)
                        | (Inr None, w2) \<Rightarrow> (Inr (c, None), w2)
                        | (Inr (Some rootItem), w2) \<Rightarrow>
                            (case callers_walk env client workspaceRoot matcher depth rootItem w2 of
                               (Inl err, w3) \<Rightarrow> (Inl err, w3)
                             | (Inr r, w3) \<Rightarrow> (Inr (c, Some r), w3)))))"

record RawCaller =
  rc_Symbol :: string
  rc_Path :: string
  rc_Line :: int
  rc_Depth :: int

definition raw_caller :: "callerOutputLine \<Rightarrow> RawCaller" where
  "raw_caller l = \<lparr>rc_Symbol = col_name l, rc_Path = col_path l, rc_Line = col_line l, rc_Depth = col_depth l\<rparr>"

definition FindCallersRaw ::
  "lsp_env \<Rightarrow> 'w lsp_client option \<Rightarrow> CallersOptions \<Rightarrow> 'w \<Rightarrow> (lsp_error + RawCaller list) \<times> 'w" where
  "FindCallersRaw env engine opts w =
     (let symbol = trim_space (co_Symbol opts)
      in if symbol = [] then (Inl SymbolMissing, w)
         else if co_Depth opts \<le> 0 then (Inl DepthNotPositive, w)
         else case engine of
                None \<Rightarrow> (Inl (ClientRequired ''callers''), w)
              | Some client \<Rightarrow>
                  (case callers_lookup env client (resolveWorkspaceRoot (le_cwd env) (co_WorkspaceRoot opts))
                          (co_FilterPath opts) symbol (co_Depth opts) w of
                     (Inl err, w') \<Rightarrow> (Inl err, w')
                   | (Inr (c, None), w') \<Rightarrow> (Inr [], w')
                   | (Inr (c, Some (outputLines, n)), w') \<Rightarrow> (Inr (map raw_caller outputLines), w')))"

definition formatCallersOutput :: "string \<Rightarrow> callerOutputLine list \<Rightarrow> int \<Rightarrow> int \<Rightarrow> string" where
  "formatCallersOutput rootLine callers callersCount depth =
     join [newline]
       (rootLine #
        map (\<lambda>c. concat (replicate (nat (col_depth c)) ''  '') @ ''<- '' @ col_name c @ '' ('' @ col_path c @ '':'' @
                 int_str (col_line c) @ '')'') callers @
        [int_str callersCount @ '' callers (depth '' @ int_str depth @ '')''])"

definition missing_lsp :: "string \<Rightarrow> string \<Rightarrow> lsp_error" where
  "missing_lsp binary install =
     MissingLSP (if trim_space binary = [] then ''lsp'' else trim_space binary)
       (if trim_space install = [] then ''install language server'' else trim_space install)"

definition callers_Find ::
  "lsp_env \<Rightarrow> 'w lsp_client option \<Rightarrow> CallersOptions \<Rightarrow> 'w \<Rightarrow> (lsp_error + string) \<times> 'w" where
  "callers_Find env engine opts w =
     (let symbol = trim_space (co_Symbol opts)
      in if symbol = [] then (Inl SymbolMissing, w)
         else if co_Depth opts \<le> 0 then (Inl DepthNotPositive, w)
         else case engine of
                None \<Rightarrow> (Inl (missing_lsp (co_LSPBinary opts) (co_LSPInstall opts)), w)
              | Some client \<Rightarrow>
                  (case callers_lookup env client (resolveWorkspaceRoot (le_cwd env) (co_WorkspaceRoot opts))
                          (co_FilterPath opts) symbol (co_Depth opts) w of
                     (Inl err, w') \<Rightarrow> (Inl err, w')
                   | (Inr (c, r), w') \<Rightarrow>
                       let rootLine = sy_Name (rs_info c) @ '' ('' @ rs_path c @ '':'' @ int_str (rs_line c) @ '')''
                       in (Inr (case r of
                                  None \<Rightarrow> formatCallersOutput rootLine [] 0 (co_Depth opts)
                                | Some (outputLines, callersCount) \<Rightarrow>
                                    formatCallersOutput rootLine outputLines callersCount (co_Depth opts)), w')))"

definition adapter_FindCallers ::
  "lsp_env \<Rightarrow> 'w lsp_client option \<Rightarrow> string \<Rightarrow> string \<Rightarrow> string \<Rightarrow> int \<Rightarrow> 'w \<Rightarrow> (lsp_error + SymCaller list) \<times> 'w" where
  "adapter_FindCallers env engine workspaceRoot filterPath symbol depth w =
     (case FindCallersRaw env engine
        \<lparr>co_WorkspaceRoot = workspaceRoot, co_FilterPath = filterPath, co_Symbol = symbol, co_Depth = depth,
         co_LSPBinary = [], co_LSPInstall = []\<rparr> w of
        (Inl err, w') \<Rightarrow> (Inl err, w')
      | (Inr raw, w') \<Rightarrow>
          (Inr (map (\<lambda>r. \<lparr>cal_Symbol = rc_Symbol r, cal_File = rc_Path r, cal_Line = rc_Line r,
                          cal_Depth = rc_Depth r, cal_Score = 0, cal_Reason = []\<rparr>) raw), w'))"

section \<open>What the walk reports\<close>

text \<open>A chain of \<open>d\<close> calls that ends in \<open>item\<close>: the node \<open>n\<close> is the first caller.\<close>

inductive call_chain :: "(CallHierarchyItem \<Rightarrow> hierarchyNode list) \<Rightarrow> CallHierarchyItem \<Rightarrow> nat \<Rightarrow> hierarchyNode \<Rightarrow> bool"
  for callers where
  chain_direct: "n \<in> set (callers item) \<Longrightarrow> call_chain callers item 1 n"
| chain_through: "b \<in> set (callers item) \<Longrightarrow> call_chain callers (hn_item b) d n \<Longrightarrow> call_chain callers item (Suc d) n"

text \<open>The reported nodes with their depths, relative to what was seen before and after.\<close>

abbreviation ids :: "(int \<times> hierarchyNode) list \<Rightarrow> string list" where
  "ids found \<equiv> map (\<lambda>p. hn_identity (snd p)) found"

definition walk_ok ::
  "(CallHierarchyItem \<Rightarrow> hierarchyNode list) \<Rightarrow> int \<Rightarrow> int \<Rightarrow> string list \<Rightarrow> string list \<Rightarrow> string list \<Rightarrow>
   (int \<times> hierarchyNode) list \<Rightarrow> bool" where
  "walk_ok callers maxDepth depth parents seen seen' found \<longleftrightarrow>
     distinct (ids found) \<and> set seen' = set seen \<union> set (ids found) \<and>
     (\<forall>(d, n) \<in> set found. depth \<le> d \<and> d \<le> maxDepth \<and>
        (d < maxDepth \<longrightarrow> hn_identity ` set (callers (hn_item n)) \<subseteq> set parents \<union> set seen'))"

text \<open>The caller of the walk and the loop over a level: what they add to \<open>walk_ok\<close>.\<close>

definition item_ok ::
  "(CallHierarchyItem \<Rightarrow> hierarchyNode list) \<Rightarrow> int \<Rightarrow> int \<Rightarrow> CallHierarchyItem \<Rightarrow> string list \<Rightarrow> string list \<Rightarrow>
   string list \<Rightarrow> (int \<times> hierarchyNode) list \<Rightarrow> bool" where
  "item_ok callers maxDepth depth item parents seen seen' found \<longleftrightarrow>
     walk_ok callers maxDepth depth parents seen seen' found \<and> set (ids found) \<inter> set seen = {} \<and>
     (depth \<le> maxDepth \<longrightarrow> hn_identity ` set (callers item) \<subseteq> set parents \<union> set seen') \<and>
     (\<forall>(d, n) \<in> set found. call_chain callers item (nat (d - depth + 1)) n)"

definition level_ok ::
  "(CallHierarchyItem \<Rightarrow> hierarchyNode list) \<Rightarrow> int \<Rightarrow> int \<Rightarrow> hierarchyNode list \<Rightarrow> string list \<Rightarrow> string list \<Rightarrow>
   string list \<Rightarrow> (int \<times> hierarchyNode) list \<Rightarrow> bool" where
  "level_ok callers maxDepth depth nodes parents seen seen' found \<longleftrightarrow>
     walk_ok callers maxDepth depth parents seen seen' found \<and>
     hn_identity ` set nodes \<subseteq> set (ids found) \<and> set (ids found) \<inter> set seen \<subseteq> hn_identity ` set nodes \<and>
     (\<forall>(d, n) \<in> set found. d = depth \<and> n \<in> set nodes \<or>
        (\<exists>b \<in> set nodes. depth < d \<and> call_chain callers (hn_item b) (nat (d - depth)) n))"

lemma reserve_level_spec:
  "reserve_level parents seen nodes = (level, seen') \<Longrightarrow>
    set level \<subseteq> set nodes \<and> distinct (map hn_identity level) \<and> set seen' = set seen \<union> hn_identity ` set level \<and>
    hn_identity ` set level \<inter> (set seen \<union> set parents) = {} \<and>
    hn_identity ` set nodes \<subseteq> set parents \<union> set seen'"
proof (induction nodes arbitrary: seen level seen')
  case (Cons n nodes)
  show ?case
  proof (cases "hn_identity n \<in> set parents \<or> hn_identity n \<in> set seen")
    case True
    then show ?thesis using Cons.IH [of seen level seen'] Cons.prems by auto
  next
    case False
    then obtain level' where l: "reserve_level parents (hn_identity n # seen) nodes = (level', seen')" "level = n # level'"
      using Cons.prems by (auto split: prod.splits)
    from Cons.IH [OF l(1)] False l(2) show ?thesis by auto
  qed
qed auto

lemma walk_ok_elem:
  assumes "walk_ok callers maxDepth depth parents seen seen' found" "(d, n) \<in> set found"
  shows "depth \<le> d \<and> d \<le> maxDepth \<and>
    (d < maxDepth \<longrightarrow> hn_identity ` set (callers (hn_item n)) \<subseteq> set parents \<union> set seen')"
proof -
  have "\<forall>(d, n) \<in> set found. depth \<le> d \<and> d \<le> maxDepth \<and>
      (d < maxDepth \<longrightarrow> hn_identity ` set (callers (hn_item n)) \<subseteq> set parents \<union> set seen')"
    using assms(1) unfolding walk_ok_def by (elim conjE)
  from bspec [OF this assms(2)] show ?thesis unfolding case_prod_conv .
qed

lemma level_ok_elem:
  assumes "level_ok callers maxDepth depth nodes parents seen seen' found" "(d, n) \<in> set found"
  shows "d = depth \<and> n \<in> set nodes \<or>
    (\<exists>b \<in> set nodes. depth < d \<and> call_chain callers (hn_item b) (nat (d - depth)) n)"
proof -
  have "\<forall>(d, n) \<in> set found. d = depth \<and> n \<in> set nodes \<or>
      (\<exists>b \<in> set nodes. depth < d \<and> call_chain callers (hn_item b) (nat (d - depth)) n)"
    using assms(1) unfolding level_ok_def by (elim conjE)
  from bspec [OF this assms(2)] show ?thesis unfolding case_prod_conv .
qed

lemma level_ok_Nil: "level_ok callers maxDepth depth [] parents seen seen []"
  by (simp add: level_ok_def walk_ok_def)

text \<open>One node of a level, what was found below it, and the rest of the level.\<close>

lemma level_ok_Cons:
  assumes below: "walk_ok callers maxDepth (depth + 1) (hn_identity node # parents) seen seen1 below"
    "set (ids below) \<inter> set seen = {}"
    "depth < maxDepth \<longrightarrow> hn_identity ` set (callers (hn_item node)) \<subseteq> set (hn_identity node # parents) \<union> set seen1"
    "\<forall>(d, n) \<in> set below. call_chain callers (hn_item node) (nat (d - depth)) n"
    and rest: "level_ok callers maxDepth depth nodes parents seen1 seen2 found"
    and pre: "hn_identity ` set (node # nodes) \<subseteq> set seen" "distinct (map hn_identity (node # nodes))" "depth \<le> maxDepth"
  shows "level_ok callers maxDepth depth (node # nodes) parents seen seen2 ((depth, node) # below @ found)"
proof -
  have rest_walk: "walk_ok callers maxDepth depth parents seen1 seen2 found" using rest by (simp only: level_ok_def)
  note r = rest [unfolded level_ok_def walk_ok_def] and b = below [unfolded walk_ok_def]
  have seen: "set seen1 = set seen \<union> set (ids below)" "set seen2 = set seen1 \<union> set (ids found)" using r b by simp_all
  have own: "hn_identity node \<in> set seen" "hn_identity ` set nodes \<subseteq> set seen" "hn_identity node \<notin> hn_identity ` set nodes"
    using pre by auto
  have new: "set (ids found) \<inter> set seen1 \<subseteq> hn_identity ` set nodes" using r by simp
  have disj: "set (ids below) \<inter> set (ids found) = {}" "hn_identity node \<notin> set (ids below)" "hn_identity node \<notin> set (ids found)"
    using new own below(2) seen by blast+
  have "distinct (ids ((depth, node) # below @ found))" using b r disj by (auto simp: distinct_map)
  moreover have "set seen2 = set seen \<union> set (ids ((depth, node) # below @ found))" using seen own by auto
  moreover have "\<forall>(d, n) \<in> set ((depth, node) # below @ found). depth \<le> d \<and> d \<le> maxDepth \<and>
      (d < maxDepth \<longrightarrow> hn_identity ` set (callers (hn_item n)) \<subseteq> set parents \<union> set seen2)"
  proof (rule ballI, rule case_prodI2, hypsubst)
    fix d n assume "(d, n) \<in> set ((depth, node) # below @ found)"
    then consider "d = depth" "n = node" | "(d, n) \<in> set below" | "(d, n) \<in> set found" by auto
    then show "depth \<le> d \<and> d \<le> maxDepth \<and>
        (d < maxDepth \<longrightarrow> hn_identity ` set (callers (hn_item n)) \<subseteq> set parents \<union> set seen2)"
    proof cases
      case 1
      then show ?thesis using below(3) pre(3) own(1) seen by auto
    next
      case 2
      from walk_ok_elem [OF below(1) 2] show ?thesis using own(1) seen by auto
    next
      case 3
      from walk_ok_elem [OF rest_walk 3] show ?thesis by simp
    qed
  qed
  moreover have "hn_identity ` set (node # nodes) \<subseteq> set (ids ((depth, node) # below @ found))" using r by auto
  moreover have "set (ids ((depth, node) # below @ found)) \<inter> set seen \<subseteq> hn_identity ` set (node # nodes)"
    using new below(2) seen by auto
  moreover have "\<forall>(d, n) \<in> set ((depth, node) # below @ found). d = depth \<and> n \<in> set (node # nodes) \<or>
        (\<exists>b \<in> set (node # nodes). depth < d \<and> call_chain callers (hn_item b) (nat (d - depth)) n)"
  proof (rule ballI, rule case_prodI2, hypsubst)
    fix d n assume "(d, n) \<in> set ((depth, node) # below @ found)"
    then consider "d = depth" "n = node" | "(d, n) \<in> set below" | "(d, n) \<in> set found" by auto
    then show "d = depth \<and> n \<in> set (node # nodes) \<or>
        (\<exists>b \<in> set (node # nodes). depth < d \<and> call_chain callers (hn_item b) (nat (d - depth)) n)"
    proof cases
      case 1
      then show ?thesis by simp
    next
      case 2
      have "depth < d" using walk_ok_elem [OF below(1) 2] by simp
      moreover have "call_chain callers (hn_item node) (nat (d - depth)) n" using bspec [OF below(4) 2] by simp
      ultimately show ?thesis by auto
    next
      case 3
      from level_ok_elem [OF rest 3] show ?thesis by auto
    qed
  qed
  ultimately show ?thesis by (simp add: level_ok_def walk_ok_def)
qed

text \<open>A whole level, below the item whose callers it holds.\<close>

lemma item_ok_level:
  assumes "reserve_level parents seen (callers item) = (level, seen1)"
    and "level_ok callers maxDepth depth level parents seen1 seen' found"
  shows "item_ok callers maxDepth depth item parents seen seen' found"
proof -
  note r = reserve_level_spec [OF assms(1)] and l = assms(2) [unfolded level_ok_def walk_ok_def]
  have chain: "call_chain callers item (nat (d - depth + 1)) n" if dn: "(d, n) \<in> set found" for d n
  proof -
    from level_ok_elem [OF assms(2) dn] show ?thesis
    proof (elim disjE bexE conjE)
      assume "d = depth" "n \<in> set level"
      then show ?thesis using r chain_direct [of n callers item] by auto
    next
      fix b assume b: "b \<in> set level" "depth < d" "call_chain callers (hn_item b) (nat (d - depth)) n"
      then have "nat (d - depth + 1) = Suc (nat (d - depth))" by simp
      then show ?thesis using b r chain_through [of b callers item "nat (d - depth)" n] by auto
    qed
  qed
  have level: "hn_identity ` set level \<inter> (set seen \<union> set parents) = {}" "set seen1 = set seen \<union> hn_identity ` set level"
    "hn_identity ` set (callers item) \<subseteq> set parents \<union> set seen1"
    using r by - (elim conjE; assumption)+
  have found: "set seen' = set seen1 \<union> set (ids found)" "hn_identity ` set level \<subseteq> set (ids found)"
    "set (ids found) \<inter> set seen1 \<subseteq> hn_identity ` set level"
    using l by - (elim conjE; assumption)+
  have sets: "F \<inter> S = {} \<and> S' = S \<union> F \<and> C \<subseteq> P \<union> S'"
    if "L \<inter> (S \<union> P) = {}" "S1 = S \<union> L" "C \<subseteq> P \<union> S1" "S' = S1 \<union> F" "L \<subseteq> F" "F \<inter> S1 \<subseteq> L"
    for F S S' C P L S1 :: "string set"
    using that by blast
  have new: "set (ids found) \<inter> set seen = {}" "set seen' = set seen \<union> set (ids found)"
    "hn_identity ` set (callers item) \<subseteq> set parents \<union> set seen'"
    using sets [OF level found] by - (elim conjE; assumption)+
  have "walk_ok callers maxDepth depth parents seen1 seen' found" using assms(2) by (simp only: level_ok_def)
  then have "walk_ok callers maxDepth depth parents seen seen' found"
    unfolding walk_ok_def by (elim conjE) (intro conjI, assumption, rule new(2), assumption)
  moreover have "\<forall>(d, n) \<in> set found. call_chain callers item (nat (d - depth + 1)) n" using chain by blast
  ultimately show ?thesis using new unfolding item_ok_def by (intro conjI impI)
qed

text \<open>The callers of an item that are nodes, when the server's incoming calls of it are \<open>calls item\<close>.\<close>

definition callers_in ::
  "lsp_env \<Rightarrow> string \<Rightarrow> Matcher \<Rightarrow> (CallHierarchyItem \<Rightarrow> CallHierarchyIncomingCall list) \<Rightarrow> CallHierarchyItem \<Rightarrow>
   hierarchyNode list" where
  "callers_in env workspaceRoot matcher calls item =
     (case incomingNodes env workspaceRoot matcher (calls item) of Inl err \<Rightarrow> [] | Inr nodes \<Rightarrow> nodes)"

lemma level_ok_below:
  assumes "item_ok callers maxDepth (depth + 1) (hn_item node) (hn_identity node # parents) seen seen1 below"
    and "level_ok callers maxDepth depth nodes parents seen1 seen2 found"
    and "hn_identity ` set (node # nodes) \<subseteq> set seen" "distinct (map hn_identity (node # nodes))" "depth \<le> maxDepth"
  shows "level_ok callers maxDepth depth (node # nodes) parents seen seen2 ((depth, node) # below @ found)"
proof (rule level_ok_Cons [OF _ _ _ _ assms(2-5)])
  show "walk_ok callers maxDepth (depth + 1) (hn_identity node # parents) seen seen1 below"
    "set (ids below) \<inter> set seen = {}"
    using assms(1) unfolding item_ok_def by - (elim conjE; assumption)+
  show "depth < maxDepth \<longrightarrow> hn_identity ` set (callers (hn_item node)) \<subseteq> set (hn_identity node # parents) \<union> set seen1"
    using assms(1) unfolding item_ok_def by (elim conjE) simp
  have "d - (depth + 1) + 1 = d - depth" for d :: int by simp
  then show "\<forall>(d, n) \<in> set below. call_chain callers (hn_item node) (nat (d - depth)) n"
    using assms(1) unfolding item_ok_def by (elim conjE) (simp only:)
qed

lemma level_ok_leaf:
  assumes "level_ok callers maxDepth depth nodes parents seen seen2 found"
    and "hn_identity ` set (node # nodes) \<subseteq> set seen" "distinct (map hn_identity (node # nodes))" "depth = maxDepth"
  shows "level_ok callers maxDepth depth (node # nodes) parents seen seen2 ((depth, node) # found)"
  using level_ok_Cons [of callers maxDepth depth node parents seen seen "[]" nodes seen2 found] assms
  by (simp add: walk_ok_def)

text \<open>A server that answers the same item always with the same incoming calls.\<close>

locale steady_hierarchy =
  fixes client :: "'w lsp_client" and calls :: "CallHierarchyItem \<Rightarrow> CallHierarchyIncomingCall list"
  assumes replies: "fst (lc_incomingCalls client item w) = Inr (calls item)"
begin

lemma lookup: "\<exists>w'. lookupIncomingCalls client item w = (Inr (calls item), w')"
  using replies [of item w] by (cases "lc_incomingCalls client item w") (simp add: lookupIncomingCalls_def)

end

lemma walk_found:
  "walkIncoming env client m ws maxDepth depth item parents seen ls w = (Inr k, seen', ls', w') \<Longrightarrow>
      steady_hierarchy client calls \<Longrightarrow>
      \<exists>found. ls' = ls @ map (case_prod caller_line) found \<and> k = int (length found) \<and>
        item_ok (callers_in env ws m calls) maxDepth depth item parents seen seen' found"
    and "walk_level env client m ws maxDepth depth nodes parents seen ls w = (Inr k, seen', ls', w') \<Longrightarrow>
      steady_hierarchy client calls \<Longrightarrow>
      hn_identity ` set nodes \<subseteq> set seen \<Longrightarrow> distinct (map hn_identity nodes) \<Longrightarrow> depth \<le> maxDepth \<Longrightarrow>
      \<exists>found. ls' = ls @ map (case_prod caller_line) found \<and> k = int (length found) \<and>
        level_ok (callers_in env ws m calls) maxDepth depth nodes parents seen seen' found"
proof (induction env client m ws maxDepth depth item parents seen ls w and
    env client m ws maxDepth depth nodes parents seen ls w
    arbitrary: k seen' ls' w' and k seen' ls' w' rule: walkIncoming_walk_level.induct)
  case (1 env client m ws maxDepth depth item parents seen ls w)
  show ?case
  proof (cases "depth > maxDepth")
    case True
    then show ?thesis using "1.prems"(1)
      by (auto simp: walkIncoming.simps item_ok_def walk_ok_def intro!: exI [of _ "[]"])
  next
    case False
    obtain w1 where look: "lookupIncomingCalls client item w = (Inr (calls item), w1)"
      using steady_hierarchy.lookup [OF "1.prems"(2)] by blast
    then obtain nodes where nodes: "incomingNodes env ws m (calls item) = Inr nodes"
      using "1.prems"(1) False by (auto simp: walkIncoming.simps split: sum.splits)
    obtain level seen1 where level: "reserve_level parents seen nodes = (level, seen1)" by fastforce
    have run: "walk_level env client m ws maxDepth depth level parents seen1 ls w1 = (Inr k, seen', ls', w')"
      using "1.prems"(1) False look nodes level by (simp add: walkIncoming.simps)
    have ok: "hn_identity ` set level \<subseteq> set seen1" "distinct (map hn_identity level)"
      using reserve_level_spec [OF level] by auto
    have callers: "callers_in env ws m calls item = nodes" by (simp add: callers_in_def nodes)
    from "1.IH" [OF False look [symmetric] refl nodes level [symmetric] run "1.prems"(2) ok] False
    obtain found where "ls' = ls @ map (case_prod caller_line) found" "k = int (length found)"
      "level_ok (callers_in env ws m calls) maxDepth depth level parents seen1 seen' found"
      by auto
    then show ?thesis
      using item_ok_level [of parents seen "callers_in env ws m calls" item level seen1] level callers by auto
  qed
next
  case (2 env client m ws maxDepth depth parents seen ls w)
  then show ?case using level_ok_Nil by auto
next
  case (3 env client m ws maxDepth depth node nodes parents seen ls w)
  let ?callers = "callers_in env ws m calls"
  show ?case
  proof (cases "depth \<ge> maxDepth")
    case True
    then obtain k1 where run: "walk_level env client m ws maxDepth depth nodes parents seen (ls @ [caller_line depth node]) w =
        (Inr k1, seen', ls', w')" "k = 1 + k1"
      using "3.prems"(1) by (auto split: sum.splits prod.splits)
    have "\<exists>found. ls' = (ls @ [caller_line depth node]) @ map (case_prod caller_line) found \<and> k1 = int (length found) \<and>
        level_ok ?callers maxDepth depth nodes parents seen seen' found"
      using "3.IH"(2) True run(1) "3.prems"(2-5) by auto
    then obtain found where f: "ls' = (ls @ [caller_line depth node]) @ map (case_prod caller_line) found"
      "k1 = int (length found)" "level_ok ?callers maxDepth depth nodes parents seen seen' found"
      by blast
    show ?thesis
      using level_ok_leaf [OF f(3) "3.prems"(3,4)] True "3.prems"(5) f run(2)
      by (intro exI [of _ "(depth, node) # found"]) simp
  next
    case False
    then obtain k1 k2 seen1 ls1 w1 where sub: "walkIncoming env client m ws maxDepth (depth + 1) (hn_item node)
          (hn_identity node # parents) seen (ls @ [caller_line depth node]) w = (Inr k1, seen1, ls1, w1)"
      and run: "walk_level env client m ws maxDepth depth nodes parents seen1 ls1 w1 = (Inr k2, seen', ls', w')" "k = 1 + k1 + k2"
      using "3.prems"(1) by (auto split: sum.splits prod.splits)
    obtain below where b: "ls1 = (ls @ [caller_line depth node]) @ map (case_prod caller_line) below" "k1 = int (length below)"
      "item_ok ?callers maxDepth (depth + 1) (hn_item node) (hn_identity node # parents) seen seen1 below"
      using "3.IH"(1) [OF False sub "3.prems"(2)] by blast
    have "set seen \<subseteq> set seen1" using b(3) by (auto simp: item_ok_def walk_ok_def)
    then have "\<exists>found. ls' = ls1 @ map (case_prod caller_line) found \<and> k2 = int (length found) \<and>
        level_ok ?callers maxDepth depth nodes parents seen1 seen' found"
      using "3.IH"(2) False sub run(1) "3.prems"(2-5) by auto
    then obtain found where f: "ls' = ls1 @ map (case_prod caller_line) found" "k2 = int (length found)"
      "level_ok ?callers maxDepth depth nodes parents seen1 seen' found"
      by blast
    show ?thesis
      using level_ok_below [OF b(3) f(3) "3.prems"(3-5)] b f run(2)
      by (intro exI [of _ "(depth, node) # below @ found"]) simp
  qed
qed

context steady_hierarchy begin

lemma callers_walk_found:
  assumes "callers_walk env client ws m depth rootItem w = (Inr (ls, k), w')" "0 < depth"
  shows "\<exists>rootNode found. hierarchyNodeForItem env ws m rootItem = Inr rootNode \<and>
    ls = map (case_prod caller_line) found \<and> k = int (length found) \<and>
    distinct (node_identity rootNode # ids found) \<and>
    list_all (\<lambda>(d, n). 1 \<le> d \<and> d \<le> depth \<and> call_chain (callers_in env ws m calls) rootItem (nat d) n) found \<and>
    hn_identity ` set (callers_in env ws m calls rootItem) \<subseteq> set (node_identity rootNode # ids found) \<and>
    list_all (\<lambda>(d, n). d < depth \<longrightarrow>
      hn_identity ` set (callers_in env ws m calls (hn_item n)) \<subseteq> set (node_identity rootNode # ids found)) found"
proof -
  let ?callers = "callers_in env ws m calls"
  obtain rootNode where root_node: "hierarchyNodeForItem env ws m rootItem = Inr rootNode"
    using assms(1) by (auto simp: callers_walk_def split: sum.splits)
  let ?root = "node_identity rootNode"
  obtain seen' where run: "walkIncoming env client m ws depth 1 rootItem [?root] [?root] [] w = (Inr k, seen', ls, w')"
    using assms(1) root_node by (auto simp: callers_walk_def split: sum.splits prod.splits)
  obtain found where f: "ls = map (case_prod caller_line) found" "k = int (length found)"
    "item_ok ?callers depth 1 rootItem [?root] [?root] seen' found"
    using walk_found(1) [OF run steady_hierarchy_axioms] by auto
  have walk: "walk_ok ?callers depth 1 [?root] [?root] seen' found" and disj: "set (ids found) \<inter> set [?root] = {}"
    and direct: "1 \<le> depth \<longrightarrow> hn_identity ` set (?callers rootItem) \<subseteq> set [?root] \<union> set seen'"
    and chain: "\<forall>(d, n) \<in> set found. call_chain ?callers rootItem (nat (d - 1 + 1)) n"
    using f(3) unfolding item_ok_def by - (elim conjE; assumption)+
  have ids: "distinct (ids found)" "set seen' = set [?root] \<union> set (ids found)"
    using walk unfolding walk_ok_def by - (elim conjE; assumption)+
  have "list_all (\<lambda>(d, n). 1 \<le> d \<and> d \<le> depth \<and> call_chain ?callers rootItem (nat d) n) found"
    unfolding list_all_iff
  proof (rule ballI, rule case_prodI2, hypsubst)
    fix d n assume dn: "(d, n) \<in> set found"
    show "1 \<le> d \<and> d \<le> depth \<and> call_chain ?callers rootItem (nat d) n"
      using walk_ok_elem [OF walk dn] bspec [OF chain dn] by simp
  qed
  moreover have "list_all (\<lambda>(d, n). d < depth \<longrightarrow>
      hn_identity ` set (?callers (hn_item n)) \<subseteq> set (?root # ids found)) found"
    unfolding list_all_iff
  proof (rule ballI, rule case_prodI2, hypsubst)
    fix d n assume dn: "(d, n) \<in> set found"
    show "d < depth \<longrightarrow> hn_identity ` set (?callers (hn_item n)) \<subseteq> set (?root # ids found)"
      using walk_ok_elem [OF walk dn] ids(2) by auto
  qed
  moreover have "distinct (?root # ids found)" using ids(1) disj by auto
  moreover have "hn_identity ` set (?callers rootItem) \<subseteq> set (?root # ids found)"
    using direct assms(2) ids(2) by auto
  ultimately show ?thesis using root_node f(1,2) by blast
qed

end

section \<open>Properties\<close>

text \<open>
  C10. What the search for callers reports. If the server answers an item always with the same calls,
  a walk that succeeds reports nodes with different identities, none that of the symbol itself, as
  many as it counts, every one at a depth within the limit at which a chain of calls leads from it to
  the symbol. All direct callers are reported, and all callers of every node above the last level.
\<close>

theorem callers_walk_exact:
  assumes "\<And>item w. fst (lc_incomingCalls client item w) = Inr (calls item)"
    and "callers_walk env client ws m depth rootItem w = (Inr (ls, k), w')" and "0 < depth"
  shows "\<exists>rootNode found. hierarchyNodeForItem env ws m rootItem = Inr rootNode \<and>
    ls = map (case_prod caller_line) found \<and> k = int (length found) \<and>
    distinct (node_identity rootNode # ids found) \<and>
    list_all (\<lambda>(d, n). 1 \<le> d \<and> d \<le> depth \<and> call_chain (callers_in env ws m calls) rootItem (nat d) n) found \<and>
    hn_identity ` set (callers_in env ws m calls rootItem) \<subseteq> set (node_identity rootNode # ids found) \<and>
    list_all (\<lambda>(d, n). d < depth \<longrightarrow>
      hn_identity ` set (callers_in env ws m calls (hn_item n)) \<subseteq> set (node_identity rootNode # ids found)) found"
  using steady_hierarchy.callers_walk_found [OF steady_hierarchy.intro [OF assms(1)] assms(2,3)] .

definition demo_item :: "string \<Rightarrow> CallHierarchyItem" where
  "demo_item name =
     (let p = \<lparr>pos_Line = int (of_char (hd name)) - 97, pos_Character = 0\<rparr>; r = \<lparr>rng_Start = p, rng_End = p\<rparr>
      in \<lparr>hi_Name = name, hi_Kind = SymbolKindFunction, hi_URI = ''file:///w/a.go'', hi_Range = r,
          hi_SelectionRange = r, hi_Detail = []\<rparr>)"

text \<open>The function \<open>r\<close> is called by \<open>a\<close> and \<open>b\<close>, \<open>a\<close> by \<open>c\<close>, \<open>c\<close> and \<open>b\<close> by \<open>d\<close>, and \<open>d\<close> by \<open>e\<close>.\<close>

definition demo_calls :: "CallHierarchyItem \<Rightarrow> CallHierarchyIncomingCall list" where
  "demo_calls item =
     map (\<lambda>n. \<lparr>ic_From = demo_item n, ic_FromRanges = []\<rparr>)
       (case map_of [(''r'', [''a'', ''b'']), (''a'', [''c'']), (''b'', [''d'']), (''c'', [''d'']), (''d'', [''e''])]
               (hi_Name item) of None \<Rightarrow> [] | Some names \<Rightarrow> names)"

definition graph_client :: "unit lsp_client" where
  "graph_client = (demo_client [])\<lparr>lc_incomingCalls := (\<lambda>item w. (Inr (demo_calls item), w))\<rparr>"

interpretation graph: steady_hierarchy graph_client demo_calls
  by unfold_locales (simp add: graph_client_def)

definition demo_walk :: "int \<Rightarrow> (lsp_error + (callerOutputLine list \<times> int)) \<times> unit" where
  "demo_walk depth = callers_walk demo_lsp_env graph_client ''/w'' (newWorkspaceIgnoreMatcher demo_lsp_env ''/w'') depth (demo_item ''r'') ()"

lemma demo_walk_3:
  "map_sum id (map_prod (map (\<lambda>l. (col_depth l, col_name l))) id) (fst (demo_walk 3)) =
    Inr ([(1, ''a''), (2, ''c''), (3, ''d''), (1, ''b'')], 4)"
  by code_simp

theorem callers_walk_exact_witness:
  "\<exists>rootNode found. hierarchyNodeForItem demo_lsp_env ''/w'' (newWorkspaceIgnoreMatcher demo_lsp_env ''/w'') (demo_item ''r'') =
      Inr rootNode \<and> map (\<lambda>p. hn_name (snd p)) found = [''a'', ''c'', ''d'', ''b''] \<and> distinct (node_identity rootNode # ids found)"
proof -
  obtain ls k where run: "demo_walk 3 = (Inr (ls, k), ())" "map col_name ls = [''a'', ''c'', ''d'', ''b'']"
  proof -
    obtain r where r: "demo_walk 3 = (r, ())" by (cases "demo_walk 3") auto
    then obtain ls k where "r = Inr (ls, k)" "map (\<lambda>l. (col_depth l, col_name l)) ls = [(1, ''a''), (2, ''c''), (3, ''d''), (1, ''b'')]"
      using demo_walk_3 by (cases r) auto
    moreover from this(2) have "map snd (map (\<lambda>l. (col_depth l, col_name l)) ls) = [''a'', ''c'', ''d'', ''b'']"
      by (simp only: list.map snd_conv)
    then have "map col_name ls = [''a'', ''c'', ''d'', ''b'']" by (simp only: map_map comp_def snd_conv)
    ultimately show thesis using that r by simp
  qed
  have steady: "fst (lc_incomingCalls graph_client item w) = Inr (demo_calls item)" for item w by (simp add: graph_client_def)
  from callers_walk_exact [OF steady run(1) [unfolded demo_walk_def]]
  obtain rootNode found where rf: "hierarchyNodeForItem demo_lsp_env ''/w'' (newWorkspaceIgnoreMatcher demo_lsp_env ''/w'') (demo_item ''r'') = Inr rootNode"
    "ls = map (case_prod caller_line) found" "distinct (node_identity rootNode # ids found)"
    by auto
  have "map col_name ls = map (\<lambda>p. hn_name (snd p)) found" by (simp add: rf(2) caller_line_def case_prod_unfold)
  then have "map (\<lambda>p. hn_name (snd p)) found = [''a'', ''c'', ''d'', ''b'']" using run(2) by (simp only:)
  with rf(1,3) show ?thesis by (intro exI conjI)
qed

text \<open>
  A caller within the depth can be missing. The nodes of a level are reserved before the descent,
  but the descent goes depth first: \<open>d\<close>, which calls \<open>r\<close> through \<open>b\<close> alone, is met first through
  \<open>c\<close> and \<open>a\<close>, at depth 3, where the walk ends; its caller \<open>e\<close>, three calls away, is not reported.
\<close>

theorem callers_depth_gap:
  "map_sum id (map_prod (map (\<lambda>l. (col_depth l, col_name l))) id) (fst (demo_walk 3)) =
      Inr ([(1, ''a''), (2, ''c''), (3, ''d''), (1, ''b'')], 4) \<and>
   (\<exists>n. hn_name n = ''e'' \<and>
      call_chain (callers_in demo_lsp_env ''/w'' (newWorkspaceIgnoreMatcher demo_lsp_env ''/w'') demo_calls) (demo_item ''r'') 3 n)"
proof -
  let ?callers = "callers_in demo_lsp_env ''/w'' (newWorkspaceIgnoreMatcher demo_lsp_env ''/w'') demo_calls"
  have "\<exists>n \<in> set (?callers (demo_item ''d'')). hn_name n = ''e''" by code_simp
  then obtain n where n: "n \<in> set (?callers (demo_item ''d''))" "hn_name n = ''e''" by blast
  have "\<exists>b \<in> set (?callers (demo_item ''r'')). hn_item b = demo_item ''b''" by code_simp
  then obtain b where b: "b \<in> set (?callers (demo_item ''r''))" "hn_item b = demo_item ''b''" by blast
  have "\<exists>d \<in> set (?callers (demo_item ''b'')). hn_item d = demo_item ''d''" by code_simp
  then obtain d where d: "d \<in> set (?callers (demo_item ''b''))" "hn_item d = demo_item ''d''" by blast
  have "call_chain ?callers (demo_item ''d'') 1 n" using n(1) by (rule chain_direct)
  then have "call_chain ?callers (demo_item ''b'') (Suc 1) n" using d by (intro chain_through [where callers = ?callers, OF d(1)]) simp
  then have "call_chain ?callers (demo_item ''r'') (Suc (Suc 1)) n" using b by (intro chain_through [where callers = ?callers, OF b(1)]) simp
  then show ?thesis using n(2) demo_walk_3 by (auto simp: numeral_3_eq_3)
qed

text \<open>
  A signature whose parameter types are qualified hides the name: the last dot is inside the
  parameter list.
\<close>

lemma qualified_parameters_hide_name:
  "symbolLookupNameMatches ''formatDate(Date)'' ''formatDate'' \<and>
   \<not> symbolLookupNameMatches ''formatDate(java.util.Date)'' ''formatDate''"
  by code_simp

lemma symbolLookup_examples:
  "symbolLookupNameMatches ''(*Engine).Query'' ''Engine.Query'' \<and> symbolLookupNameMatches ''pkg.Engine.Query'' ''Query'' \<and>
   \<not> symbolLookupNameMatches ''Engine.Query'' ''Store.Query''"
  by code_simp

end
