(* ===== verification/LspImplements.thy ===== *)
theory LspImplements
  imports LspCallers
begin

text \<open>
  \<open>pkg/lsp/implements.go\<close>, \<open>implements_raw.go\<close> and \<open>pkg/engine/adapter_implements.go\<close>: the
  implementations of a type by the type hierarchy, or by \<open>textDocument/implementation\<close> when the
  hierarchy gives none; and \<open>registry.go\<close>, the language servers by language.
\<close>

section \<open>Implementation lines\<close>

record implementationLine =
  il_Name :: string
  il_Path :: string
  il_Line :: int

definition impl_key :: "implementationLine \<Rightarrow> string \<times> string \<times> int" where
  "impl_key l = (il_Path l, il_Name l, il_Line l)"

definition impl_text :: "implementationLine \<Rightarrow> string" where
  "impl_text l = il_Path l @ [CHR 0x00] @ il_Name l"

fun subtype_lines :: "lsp_env \<Rightarrow> string \<Rightarrow> Matcher \<Rightarrow> typeHierarchyItem list \<Rightarrow> lsp_error + implementationLine list" where
  "subtype_lines env workspaceRoot matcher [] = Inr []"
| "subtype_lines env workspaceRoot matcher (subtype # rest) =
     (case uri_path env (hi_URI subtype) of
        Inl err \<Rightarrow> Inl err
      | Inr path \<Rightarrow>
          if MatchesPath (le_cwd env) (Some matcher) path then subtype_lines env workspaceRoot matcher rest
          else (case subtype_lines env workspaceRoot matcher rest of
                  Inl err \<Rightarrow> Inl err
                | Inr ls \<Rightarrow>
                    Inr (\<lparr>il_Name = hi_Name subtype, il_Path = relativePath workspaceRoot path,
                          il_Line = fst (typeHierarchyPosition subtype) + 1\<rparr> # ls)))"

definition toImplementationLines ::
  "lsp_env \<Rightarrow> string \<Rightarrow> Matcher \<Rightarrow> typeHierarchyItem list \<Rightarrow> lsp_error + implementationLine list" where
  "toImplementationLines env workspaceRoot matcher subtypes =
     (case subtype_lines env workspaceRoot matcher subtypes of
        Inl err \<Rightarrow> Inl err | Inr ls \<Rightarrow> Inr (keep_first impl_text [] (sort_key impl_key ls)))"

text \<open>The name of a location is the base name of its file without the extension.\<close>

definition location_name :: "string \<Rightarrow> string" where
  "location_name path = (let name = path_base path; ext = path_ext name in if ext \<noteq> [] then trim_suffix name ext else name)"

fun location_lines :: "lsp_env \<Rightarrow> string \<Rightarrow> Matcher \<Rightarrow> Location list \<Rightarrow> lsp_error + implementationLine list" where
  "location_lines env workspaceRoot matcher [] = Inr []"
| "location_lines env workspaceRoot matcher (location # rest) =
     (case uri_path env (loc_URI location) of
        Inl err \<Rightarrow> Inl err
      | Inr path \<Rightarrow>
          if MatchesPath (le_cwd env) (Some matcher) path then location_lines env workspaceRoot matcher rest
          else (case location_lines env workspaceRoot matcher rest of
                  Inl err \<Rightarrow> Inl err
                | Inr ls \<Rightarrow>
                    Inr (\<lparr>il_Name = location_name path, il_Path = relativePath workspaceRoot path,
                          il_Line = pos_Line (rng_Start (loc_Range location)) + 1\<rparr> # ls)))"

definition locationsToImplementationLines ::
  "lsp_env \<Rightarrow> string \<Rightarrow> Matcher \<Rightarrow> Location list \<Rightarrow> lsp_error + implementationLine list" where
  "locationsToImplementationLines env workspaceRoot matcher locations =
     (case location_lines env workspaceRoot matcher locations of
        Inl err \<Rightarrow> Inl err | Inr ls \<Rightarrow> Inr (sort_key impl_key ls))"

section \<open>The engine\<close>

definition prepareTypeHierarchy ::
  "'w lsp_client \<Rightarrow> SymbolInformation \<Rightarrow> 'w \<Rightarrow> (lsp_error + typeHierarchyItem option) \<times> 'w" where
  "prepareTypeHierarchy client symbol w =
     (case lc_prepareTypes client (loc_URI (sy_Location symbol)) (rng_Start (loc_Range (sy_Location symbol))) w of
        (Inl err, w') \<Rightarrow> (Inl (RequestFailed ''textDocument/prepareTypeHierarchy'' err), w')
      | (Inr items, w') \<Rightarrow> (Inr (first_by type_item_key items), w'))"

text \<open>The first lookup: the subtypes of the item, if the server has one.\<close>

definition hierarchy_implementations ::
  "lsp_env \<Rightarrow> 'w lsp_client \<Rightarrow> string \<Rightarrow> Matcher \<Rightarrow> SymbolInformation \<Rightarrow> 'w \<Rightarrow>
   (lsp_error + implementationLine list) \<times> 'w" where
  "hierarchy_implementations env client workspaceRoot matcher symbol w =
     (case prepareTypeHierarchy client symbol w of
        (Inl err, w1) \<Rightarrow> (Inl err, w1)
      | (Inr None, w1) \<Rightarrow> (Inr [], w1)
      | (Inr (Some rootItem), w1) \<Rightarrow>
          (case lc_subtypes client rootItem w1 of
             (Inl err, w2) \<Rightarrow> (Inl (RequestFailed ''typeHierarchy/subtypes'' err), w2)
           | (Inr subtypes, w2) \<Rightarrow> (toImplementationLines env workspaceRoot matcher subtypes, w2)))"

text \<open>The second lookup; an error of the server is no error here.\<close>

definition location_implementations ::
  "lsp_env \<Rightarrow> 'w lsp_client \<Rightarrow> string \<Rightarrow> Matcher \<Rightarrow> SymbolInformation \<Rightarrow> 'w \<Rightarrow>
   (lsp_error + implementationLine list) \<times> 'w" where
  "location_implementations env client workspaceRoot matcher symbol w =
     (case lc_implementation client (loc_URI (sy_Location symbol)) (rng_Start (loc_Range (sy_Location symbol))) w of
        (Inl err, w') \<Rightarrow> (Inr [], w')
      | (Inr locations, w') \<Rightarrow> (locationsToImplementationLines env workspaceRoot matcher locations, w'))"

definition implementations_lookup ::
  "lsp_env \<Rightarrow> 'w lsp_client \<Rightarrow> string \<Rightarrow> string \<Rightarrow> string \<Rightarrow> 'w \<Rightarrow> (lsp_error + implementationLine list) \<times> 'w" where
  "implementations_lookup env client workspaceRoot filterPath symbol w =
     (let matcher = newWorkspaceIgnoreMatcher env workspaceRoot
      in case lc_symbols client symbol w of
           (Inl err, w1) \<Rightarrow> (Inl (RequestFailed ''workspace/symbol'' err), w1)
         | (Inr symbols, w1) \<Rightarrow>
             if symbols = [] then (Inl (LSPNoSymbols symbol), w1)
             else (case unique_candidate symbol
                          (resolveCandidates env symbols workspaceRoot filterPath matcher symbol []) of
                     Inl err \<Rightarrow> (Inl err, w1)
                   | Inr c \<Rightarrow>
                       (case hierarchy_implementations env client workspaceRoot matcher (rs_info c) w1 of
                          (Inl err, w2) \<Rightarrow> (Inl err, w2)
                        | (Inr ls, w2) \<Rightarrow>
                            if ls \<noteq> [] then (Inr ls, w2)
                            else location_implementations env client workspaceRoot matcher (rs_info c) w2)))"

record ImplementsOptions =
  ip_WorkspaceRoot :: string
  ip_FilterPath :: string
  ip_Symbol :: string
  ip_LSPBinary :: string
  ip_LSPInstall :: string

definition FindImplementationsRaw ::
  "lsp_env \<Rightarrow> 'w lsp_client option \<Rightarrow> ImplementsOptions \<Rightarrow> 'w \<Rightarrow> (lsp_error + implementationLine list) \<times> 'w" where
  "FindImplementationsRaw env engine opts w =
     (let symbol = trim_space (ip_Symbol opts)
      in if symbol = [] then (Inl SymbolMissing, w)
         else case engine of
                None \<Rightarrow> (Inl (ClientRequired ''implements''), w)
              | Some client \<Rightarrow>
                  implementations_lookup env client (resolveWorkspaceRoot (le_cwd env) (ip_WorkspaceRoot opts))
                    (ip_FilterPath opts) symbol w)"

definition formatImplementsOutput :: "implementationLine list \<Rightarrow> string" where
  "formatImplementsOutput implementations =
     join [newline]
       (map (\<lambda>l. il_Name l @ '' ('' @ il_Path l @ '')'') implementations @
        [int_str (int (length implementations)) @ '' implementations''])"

definition implements_Find ::
  "lsp_env \<Rightarrow> 'w lsp_client option \<Rightarrow> ImplementsOptions \<Rightarrow> 'w \<Rightarrow> (lsp_error + string) \<times> 'w" where
  "implements_Find env engine opts w =
     (let symbol = trim_space (ip_Symbol opts)
      in if symbol = [] then (Inl SymbolMissing, w)
         else case engine of
                None \<Rightarrow> (Inl (missing_lsp (ip_LSPBinary opts) (ip_LSPInstall opts)), w)
              | Some client \<Rightarrow>
                  (case implementations_lookup env client (resolveWorkspaceRoot (le_cwd env) (ip_WorkspaceRoot opts))
                          (ip_FilterPath opts) symbol w of
                     (Inl err, w') \<Rightarrow> (Inl err, w') | (Inr ls, w') \<Rightarrow> (Inr (formatImplementsOutput ls), w')))"

definition adapter_FindImplementations ::
  "lsp_env \<Rightarrow> 'w lsp_client option \<Rightarrow> string \<Rightarrow> string \<Rightarrow> string \<Rightarrow> 'w \<Rightarrow> (lsp_error + SymImpl list) \<times> 'w" where
  "adapter_FindImplementations env engine workspaceRoot filterPath symbol w =
     (case FindImplementationsRaw env engine
        \<lparr>ip_WorkspaceRoot = workspaceRoot, ip_FilterPath = filterPath, ip_Symbol = symbol, ip_LSPBinary = [],
         ip_LSPInstall = []\<rparr> w of
        (Inl err, w') \<Rightarrow> (Inl err, w')
      | (Inr raw, w') \<Rightarrow>
          (Inr (map (\<lambda>r. \<lparr>imp_Name = il_Name r, imp_File = il_Path r, imp_Line = il_Line r\<rparr>) raw), w'))"

section \<open>The registry of language servers\<close>

record ServerSpec =
  ss_Language :: string
  ss_Binary :: string
  ss_Args :: "string list"
  ss_InstallHint :: string

text \<open>A registry, and the entries it is made from, as maps from language names.\<close>

type_synonym registry_entries = "string \<rightharpoonup> ServerSpec"

definition normalizeLanguage :: "string \<Rightarrow> string" where
  "normalizeLanguage language = to_lower (trim_space language)"

definition default_languages :: "string list" where
  "default_languages = [''cpp'', ''go'', ''java'', ''javascript'', ''python'', ''rust'', ''typescript'']"

definition server_entry :: "string \<Rightarrow> string \<Rightarrow> string list \<Rightarrow> string \<Rightarrow> string \<times> ServerSpec" where
  "server_entry language binary args hint =
     (language, \<lparr>ss_Language = language, ss_Binary = binary, ss_Args = args, ss_InstallHint = hint\<rparr>)"

definition defaultRegistryEntries :: registry_entries where
  "defaultRegistryEntries =
     map_of
       [server_entry ''go'' ''gopls'' [] ''go install golang.org/x/tools/gopls@latest'',
        server_entry ''python'' ''pylsp'' [] ''pip install python-lsp-server'',
        server_entry ''java'' ''jdtls'' [] ''https://github.com/eclipse-jdtls/eclipse.jdt.ls'',
        server_entry ''javascript'' ''typescript-language-server'' [''--stdio'']
          ''npm install -g typescript typescript-language-server'',
        server_entry ''typescript'' ''typescript-language-server'' [''--stdio'']
          ''npm install -g typescript typescript-language-server'',
        server_entry ''rust'' ''rust-analyzer'' [] ''rustup component add rust-analyzer'',
        server_entry ''cpp'' ''clangd'' [] ''install clangd from your package manager'']"

definition WithExtraServerArgs :: "string \<Rightarrow> string list \<Rightarrow> registry_entries \<Rightarrow> registry_entries" where
  "WithExtraServerArgs language args entries =
     (let key = normalizeLanguage language
      in case entries key of
           None \<Rightarrow> entries
         | Some spec \<Rightarrow>
             if args = [] then entries else entries(key \<mapsto> spec\<lparr>ss_Args := ss_Args spec @ args\<rparr>))"

text \<open>
  The entries of a registry under their normalised names; the order in which the code visits a map
  does not matter as long as no two names have the same normal form, as here.
\<close>

fun registry_servers :: "(string \<times> ServerSpec) list \<Rightarrow> registry_entries" where
  "registry_servers [] = Map.empty"
| "registry_servers ((language, spec) # rest) =
     (registry_servers rest)(normalizeLanguage language \<mapsto> spec\<lparr>ss_Language := normalizeLanguage language\<rparr>)"

definition NewRegistryFromEntries :: "(string \<times> ServerSpec) list \<Rightarrow> registry_entries" where
  "NewRegistryFromEntries entries = registry_servers entries"

definition NewRegistry :: "(registry_entries \<Rightarrow> registry_entries) list \<Rightarrow> registry_entries" where
  "NewRegistry opts =
     (let entries = fold (\<lambda>opt. opt) opts defaultRegistryEntries
      in NewRegistryFromEntries (List.map_filter (\<lambda>l. map_option (Pair l) (entries l)) default_languages))"

datatype registry_error = RegistryNil | UnknownLanguage string "string list"

definition supportedLanguages :: "registry_entries \<Rightarrow> string list \<Rightarrow> string list" where
  "supportedLanguages servers names = sort (filter (\<lambda>l. servers l \<noteq> None) names)"

text \<open>\<open>names\<close> are the languages of the registry, which the error lists in order.\<close>

definition registry_Lookup :: "string list \<Rightarrow> registry_entries option \<Rightarrow> string \<Rightarrow> registry_error + ServerSpec" where
  "registry_Lookup names registry language =
     (case registry of
        None \<Rightarrow> Inl RegistryNil
      | Some servers \<Rightarrow>
          (case servers (normalizeLanguage language) of
             None \<Rightarrow> Inl (UnknownLanguage language (supportedLanguages servers names))
           | Some spec \<Rightarrow> Inr spec))"

section \<open>Properties\<close>

lemma keep_first_least:
  assumes "sorted (map k xs)" "x \<in> set xs" "f x \<notin> set seen"
  shows "\<exists>y \<in> set (keep_first f seen xs). f y = f x \<and> k y \<le> (k x :: 'k::linorder)"
  using assms
proof (induction f seen xs rule: keep_first.induct)
  case (2 f seen z zs)
  show ?case
  proof (cases "f z = f x")
    case True
    then show ?thesis using 2 by (intro bexI [of _ z]) auto
  next
    case False
    then show ?thesis using 2 by (cases "f z \<in> set seen") auto
  qed
qed simp

text \<open>
  The lines for the subtypes are in order by path, name and line, every pair of path and name
  occurs once, and it is the one with the smallest line among the subtypes that are not ignored.
\<close>

theorem toImplementationLines_least:
  assumes "toImplementationLines env ws m subtypes = Inr ls" and "subtype_lines env ws m subtypes = Inr raw"
  shows "sorted (map impl_key ls) \<and> distinct (map impl_text ls) \<and> set ls \<subseteq> set raw \<and>
    list_all (\<lambda>r. list_ex (\<lambda>l. impl_text l = impl_text r \<and> impl_key l \<le> impl_key r) ls) raw"
proof -
  have ls: "ls = keep_first impl_text [] (sort_key impl_key raw)" using assms by (simp add: toImplementationLines_def)
  have "sorted_wrt (\<lambda>x y. impl_key x \<le> impl_key y) ls"
    unfolding ls by (rule keep_first_sorted_wrt) (use sorted_sort_key [of impl_key raw] in \<open>simp add: sorted_wrt_map\<close>)
  then have "sorted (map impl_key ls)" by (simp add: sorted_wrt_map)
  moreover have "list_ex (\<lambda>l. impl_text l = impl_text r \<and> impl_key l \<le> impl_key r) ls" if "r \<in> set raw" for r
    using keep_first_least [of impl_key "sort_key impl_key raw" r impl_text "[]"] that
    by (auto simp: ls list_ex_iff)
  moreover have "set ls \<subseteq> set raw" unfolding ls by (auto dest: keep_first_set)
  ultimately show ?thesis by (simp add: ls keep_first_distinct list_all_iff)
qed

definition demo_subtypes :: "typeHierarchyItem list" where
  "demo_subtypes = [demo_item ''c'', (demo_item ''d'')\<lparr>hi_Name := ''c''\<rparr>, demo_item ''b'']"

theorem toImplementationLines_least_witness:
  "\<exists>ls. toImplementationLines demo_lsp_env ''/w'' (newWorkspaceIgnoreMatcher demo_lsp_env ''/w'') demo_subtypes = Inr ls \<and>
    map il_Line ls = [2, 3] \<and> distinct (map impl_text ls)"
proof -
  let ?m = "newWorkspaceIgnoreMatcher demo_lsp_env ''/w''"
  have "\<not> isl (subtype_lines demo_lsp_env ''/w'' ?m demo_subtypes)" by code_simp
  then obtain raw where raw: "subtype_lines demo_lsp_env ''/w'' ?m demo_subtypes = Inr raw"
    by (cases "subtype_lines demo_lsp_env ''/w'' ?m demo_subtypes") auto
  have "case toImplementationLines demo_lsp_env ''/w'' ?m demo_subtypes of Inl e \<Rightarrow> False | Inr ls \<Rightarrow> map il_Line ls = [2, 3]"
    by code_simp
  then obtain ls where "toImplementationLines demo_lsp_env ''/w'' ?m demo_subtypes = Inr ls" "map il_Line ls = [2, 3]"
    by (cases "toImplementationLines demo_lsp_env ''/w'' ?m demo_subtypes") auto
  moreover from toImplementationLines_least [OF this(1) raw] have "distinct (map impl_text ls)" by (elim conjE)
  ultimately show ?thesis by (intro exI conjI)
qed

text \<open>The second lookup is made exactly when the first gives nothing.\<close>

lemma implementations_second_lookup:
  assumes "implementations_lookup env client ws filterPath symbol w = (Inr ls, w')"
  shows "\<exists>(c :: resolvedSymbol) w1 w2 hs. hierarchy_implementations env client ws (newWorkspaceIgnoreMatcher env ws) (rs_info c) w1 = (Inr hs, w2) \<and>
    (if hs \<noteq> [] then ls = hs \<and> w' = w2
     else location_implementations env client ws (newWorkspaceIgnoreMatcher env ws) (rs_info c) w2 = (Inr ls, w'))"
proof -
  let ?m = "newWorkspaceIgnoreMatcher env ws"
  obtain symbols w1 c where c: "lc_symbols client symbol w = (Inr symbols, w1)" "symbols \<noteq> []"
      "unique_candidate symbol (resolveCandidates env symbols ws filterPath ?m symbol []) = Inr c"
    using assms by (auto simp: implementations_lookup_def Let_def split: prod.splits sum.splits if_splits)
  moreover obtain hs w2 where hs: "hierarchy_implementations env client ws ?m (rs_info c) w1 = (Inr hs, w2)"
    using assms c by (cases "hierarchy_implementations env client ws ?m (rs_info c) w1"; cases "fst (hierarchy_implementations env client ws ?m (rs_info c) w1)")
      (auto simp: implementations_lookup_def Let_def)
  ultimately have second: "if hs \<noteq> [] then ls = hs \<and> w' = w2
      else location_implementations env client ws ?m (rs_info c) w2 = (Inr ls, w')"
    using assms by (auto simp: implementations_lookup_def Let_def split: if_splits)
  show ?thesis
    by (rule exI [of _ c], rule exI [of _ w1], rule exI [of _ w2], rule exI [of _ hs]) (rule conjI [OF hs second])
qed

text \<open>
  Extra arguments reach only the language they are given for, however it is written, and are put
  after the ones it has; names that no default server has are ignored.
\<close>

theorem NewRegistry_extra_args:
  "registry_Lookup default_languages (Some (NewRegistry [WithExtraServerArgs language args])) name =
    (case registry_Lookup default_languages (Some (NewRegistry [])) name of
       Inl err \<Rightarrow> Inl err
     | Inr spec \<Rightarrow>
         Inr (if normalizeLanguage name = normalizeLanguage language
              then spec\<lparr>ss_Args := ss_Args spec @ args\<rparr> else spec))"
proof -
  have langs: "map normalizeLanguage default_languages = default_languages" by code_simp
  have servers: "registry_servers (List.map_filter (\<lambda>l. map_option (Pair l) (e l)) ls) n =
      (if n \<in> set ls then map_option (\<lambda>s. s\<lparr>ss_Language := n\<rparr>) (e n) else None)"
    if "map normalizeLanguage ls = ls" "distinct ls" for e :: registry_entries and ls n
    using that by (induction ls) (auto simp: List.map_filter_simps split: option.splits)
  have dist: "distinct default_languages" by (simp add: default_languages_def)
  have entry: "NewRegistry opts n = (if n \<in> set default_languages
      then map_option (\<lambda>s. s\<lparr>ss_Language := n\<rparr>) (fold (\<lambda>opt. opt) opts defaultRegistryEntries n) else None)" for opts n
    by (simp add: NewRegistry_def NewRegistryFromEntries_def servers [OF langs dist])
  have "filter (\<lambda>l. NewRegistry [WithExtraServerArgs language args] l \<noteq> None) ls = filter (\<lambda>l. NewRegistry [] l \<noteq> None) ls" for ls
    by (rule filter_cong) (auto simp: entry WithExtraServerArgs_def Let_def split: option.splits if_splits)
  then show ?thesis
    by (auto simp: registry_Lookup_def supportedLanguages_def entry WithExtraServerArgs_def Let_def split: option.splits)
qed

end
