(* ===== verification/LspTransport.thy ===== *)
theory LspTransport
  imports LspTypes
begin

text \<open>
  The transport of \<open>pkg/lsp/client.go\<close>: framing of messages with a \<open>Content-Length\<close> header, the
  identifiers of responses, and the client as a state machine. A connection is the list of the bytes
  that are still to come, up to the end of the stream.
\<close>

section \<open>Integers in text\<close>

definition is_digit_char :: "char \<Rightarrow> bool" where
  "is_digit_char c \<longleftrightarrow> 48 \<le> byte_of c \<and> byte_of c \<le> 57"

text \<open>\<open>strconv.ParseInt\<close> in base 10 for 64 bits, and \<open>Atoi\<close>.\<close>

definition parse_int64 :: "string \<Rightarrow> int option" where
  "parse_int64 s =
     (let neg = has_prefix s ''-''; digits = (if neg \<or> has_prefix s ''+'' then tl s else s);
          n = (if neg then - int (parse_digits digits) else int (parse_digits digits))
      in if digits \<noteq> [] \<and> list_all is_digit_char digits \<and> - (2 ^ 63) \<le> n \<and> n < 2 ^ 63 then Some n else None)"

section \<open>Framing\<close>

definition writeLSPMessage :: "string \<Rightarrow> string" where
  "writeLSPMessage payload =
     ''Content-Length: '' @ int_str (int (length payload)) @ [CHR 0x0D, newline, CHR 0x0D, newline] @ payload"

datatype frame_error = EndOfStream | MalformedHeader string | InvalidLength string | MissingLength

text \<open>\<open>ReadString\<close> with a newline: the line with it, and the rest; an error at the end of the stream.\<close>

definition read_line :: "string \<Rightarrow> (string \<times> string) option" where
  "read_line s =
     (let line = takeWhile (\<lambda>c. c \<noteq> newline) s
      in if length line < length s then Some (line @ [newline], drop (length line + 1) s) else None)"

lemma read_line_length: "read_line s = Some (line, rest) \<Longrightarrow> length rest < length s"
  by (auto simp: read_line_def Let_def split: if_splits)

definition header_name :: "string \<Rightarrow> string" where
  "header_name trimmed = trim_space (to_lower (takeWhile (\<lambda>c. c \<noteq> CHR '':'') trimmed))"

definition header_value :: "string \<Rightarrow> string" where
  "header_value trimmed = trim_space (tl (dropWhile (\<lambda>c. c \<noteq> CHR '':'') trimmed))"

text \<open>The loop over the header lines and the payload after them.\<close>

function read_message :: "int \<Rightarrow> string \<Rightarrow> frame_error + (string \<times> string)" where
  "read_message contentLength s =
     (case read_line s of
        None \<Rightarrow> Inl EndOfStream
      | Some (line, rest) \<Rightarrow>
          let trimmed = trim_right_set line [CHR 0x0D, newline]
          in if trimmed = []
             then (if contentLength < 0 then Inl MissingLength
                   else if length rest < nat contentLength then Inl EndOfStream
                   else Inr (take (nat contentLength) rest, drop (nat contentLength) rest))
             else if CHR '':'' \<notin> set trimmed then Inl (MalformedHeader trimmed)
             else if header_name trimmed \<noteq> ''content-length'' then read_message contentLength rest
             else (case parse_int64 (header_value trimmed) of
                     None \<Rightarrow> Inl (InvalidLength (header_value trimmed))
                   | Some n \<Rightarrow> if n < 0 then Inl (InvalidLength (header_value trimmed)) else read_message n rest))"
  by pat_completeness auto
termination
  by (relation "measure (\<lambda>(n, s). length s)") (auto dest: read_line_length)

declare read_message.simps [simp del]

definition readLSPMessage :: "string \<Rightarrow> frame_error + (string \<times> string)" where
  "readLSPMessage s = read_message (- 1) s"

section \<open>Messages\<close>

text \<open>
  A payload as \<open>encoding/json\<close> decodes it: its identifier (kept as raw JSON by the code), its method, and
  the other fields, which the transport hands on untouched. A payload that is no object cannot be
  decoded; neither can one whose method is no string where the method is asked for.
\<close>

datatype raw_id = IdInt int | IdString string | IdNull | IdOther string

datatype raw_method = NoMethod | Method string | BadMethod

datatype 'r payload =
    NotObject string
  | Message (msg_id: "raw_id option") (msg_method: raw_method) (msg_rest: 'r)

text \<open>The envelope with an identifier and a method, an absent method being the empty string.\<close>

definition envelope :: "'r payload \<Rightarrow> (raw_id option \<times> string) option" where
  "envelope p =
     (case p of
        Message i NoMethod r \<Rightarrow> Some (i, [])
      | Message i (Method m) r \<Rightarrow> Some (i, m)
      | _ \<Rightarrow> None)"

text \<open>Unmarshalling \<open>null\<close> leaves the number zero and gives no error.\<close>

definition parseResponseID :: "raw_id \<Rightarrow> int option" where
  "parseResponseID i =
     (case i of
        IdInt n \<Rightarrow> if - (2 ^ 63) \<le> n \<and> n < 2 ^ 63 then Some n else None
      | IdNull \<Rightarrow> Some 0
      | IdString s \<Rightarrow> parse_int64 s
      | IdOther s \<Rightarrow> None)"

section \<open>The client\<close>

text \<open>
  The state of a client: the calls that wait for a response by their numbers, the handlers of
  notifications by method, and how the reading loop ended. Handlers are known by the numbers that
  \<open>SubscribeNotification\<close> gives them.
\<close>

datatype read_error = ReadFailed frame_error | EnvelopeFailed | ResponseFailed | ReplyFailed

record Client =
  cl_nextID :: int
  cl_pending :: "int set"
  cl_notificationNextID :: int
  cl_notifications :: "string \<Rightarrow> int set"
  cl_initialized :: bool
  cl_readErr :: "read_error option"
  cl_done :: bool

definition NewClient :: Client where
  "NewClient =
     \<lparr>cl_nextID = 1, cl_pending = {}, cl_notificationNextID = 0, cl_notifications = (\<lambda>m. {}), cl_initialized = False,
      cl_readErr = None, cl_done = False\<rparr>"

datatype call_error = MethodRequired | Transport "read_error option" | DuplicateID int | AlreadyInitialized

text \<open>\<open>Call\<close> up to the request: the number of the call, which is used up even if the registration fails.\<close>

definition registerPending :: "int \<Rightarrow> Client \<Rightarrow> call_error option \<times> Client" where
  "registerPending i c =
     (if cl_done c then (Some (Transport (cl_readErr c)), c)
      else if i \<in> cl_pending c then (Some (DuplicateID i), c)
      else (None, c\<lparr>cl_pending := insert i (cl_pending c)\<rparr>))"

definition start_call :: "string \<Rightarrow> 'r \<Rightarrow> Client \<Rightarrow> (call_error + (int \<times> 'r payload)) \<times> Client" where
  "start_call method0 params c =
     (let method = trim_space method0; i = cl_nextID c
      in if method = [] then (Inl MethodRequired, c)
         else case registerPending i (c\<lparr>cl_nextID := i + 1\<rparr>) of
                (Some err, c') \<Rightarrow> (Inl err, c')
              | (None, c') \<Rightarrow> (Inr (i, Message (Some (IdInt i)) (Method method) params), c'))"

text \<open>A call that is given up: the request could not be sent, or its context ended.\<close>

definition removePending :: "int \<Rightarrow> Client \<Rightarrow> Client" where
  "removePending i c = c\<lparr>cl_pending := cl_pending c - {i}\<rparr>"

definition SubscribeNotification :: "string \<Rightarrow> Client \<Rightarrow> (call_error + int) \<times> Client" where
  "SubscribeNotification method0 c =
     (let method = trim_space method0; h = cl_notificationNextID c + 1
      in if method = [] then (Inl MethodRequired, c)
         else if cl_done c then (Inl (Transport (cl_readErr c)), c)
         else (Inr h, c\<lparr>cl_notificationNextID := h,
                        cl_notifications := (cl_notifications c)(method := insert h (cl_notifications c method))\<rparr>))"

definition unsubscribe :: "string \<Rightarrow> int \<Rightarrow> Client \<Rightarrow> Client" where
  "unsubscribe method h c =
     c\<lparr>cl_notifications := (cl_notifications c)(method := cl_notifications c method - {h})\<rparr>"

text \<open>What one turn of the reading loop does outside of the state.\<close>

datatype 'r client_output =
    Deliver int "'r payload"
  | Dispatch "int set" 'r
  | Reply "raw_id"
  | Nothing

definition method_not_found :: int where "method_not_found = - 32601"

text \<open>\<open>failPending\<close> and the end of the loop: the first error is kept, and all calls fail.\<close>

definition fail_loop :: "read_error \<Rightarrow> Client \<Rightarrow> Client" where
  "fail_loop err c =
     c\<lparr>cl_readErr := (case cl_readErr c of None \<Rightarrow> Some err | Some e \<Rightarrow> Some e), cl_pending := {}, cl_done := True\<rparr>"

definition routeResponse :: "raw_id \<Rightarrow> 'r payload \<Rightarrow> Client \<Rightarrow> 'r client_output \<times> Client" where
  "routeResponse rid response c =
     (case parseResponseID rid of
        None \<Rightarrow> (Nothing, c)
      | Some i \<Rightarrow> if i \<in> cl_pending c then (Deliver i response, removePending i c) else (Nothing, c))"

text \<open>
  One turn of \<open>readLoop\<close> on a payload; \<open>write_ok\<close> says whether a reply can be written, and
  \<open>response_ok\<close> whether the payload decodes as a response.
\<close>

definition read_turn :: "bool \<Rightarrow> bool \<Rightarrow> 'r payload \<Rightarrow> Client \<Rightarrow> 'r client_output \<times> Client" where
  "read_turn write_ok response_ok p c =
     (case envelope p of
        None \<Rightarrow> (Nothing, fail_loop EnvelopeFailed c)
      | Some (rid, method) \<Rightarrow>
          if method \<noteq> []
          then (case rid of
                  None \<Rightarrow> (Dispatch (cl_notifications c method) (msg_rest p), c)
                | Some i \<Rightarrow> if write_ok then (Reply i, c) else (Nothing, fail_loop ReplyFailed c))
          else (case rid of
                  None \<Rightarrow> (Nothing, c)
                | Some i \<Rightarrow>
                    if response_ok then routeResponse i p c else (Nothing, fail_loop ResponseFailed c)))"

text \<open>The steps of a client that is used by any number of callers.\<close>

inductive client_step :: "'r client_output \<times> Client \<Rightarrow> 'r client_output \<times> Client \<Rightarrow> bool" where
  step_call: "start_call method (params :: 'r) c = (r, c') \<Longrightarrow> client_step (out, c) (Nothing, c')"
| step_give_up: "client_step (out, c) (Nothing, removePending i c)"
| step_subscribe: "SubscribeNotification method c = (r, c') \<Longrightarrow> client_step (out, c) (Nothing, c')"
| step_unsubscribe: "client_step (out, c) (Nothing, unsubscribe method h c)"
| step_read: "\<not> cl_done c \<Longrightarrow> read_turn write_ok response_ok (p :: 'r payload) c = (out', c') \<Longrightarrow> client_step (out, c) (out', c')"
| step_end: "\<not> cl_done c \<Longrightarrow> client_step (out, c) (Nothing, fail_loop (ReadFailed e) c)"

section \<open>The round trip of frames\<close>

lemma nat_str_url: "c \<in> set (nat_str n) \<Longrightarrow> url_byte c \<and> is_digit_char c"
  using nat_str_digits [of c n] by (auto simp: url_byte_def is_digit_char_def byte_of_def)

lemma parse_int_str:
  assumes "- (2 ^ 63) \<le> i" "i < 2 ^ 63"
  shows "parse_int64 (int_str i) = Some i"
proof -
  have digits: "list_all is_digit_char (nat_str n)" for n by (simp add: list_all_iff nat_str_url)
  have sign: "\<not> has_prefix (nat_str n) ''-''" "\<not> has_prefix (nat_str n) ''+''" for n
    using nat_str_url [of _ n] nat_str_not_minus [of n]
    by (cases "nat_str n"; force simp: is_digit_char_def byte_of_def)+
  show ?thesis
    using assms digits sign by (cases "i < 0") (simp_all add: parse_int64_def int_str_def Let_def)
qed

lemma trim_space_blank_start: "trim_by space_runes (CHR '' '' # s) = trim_by space_runes s"
  by (subst trim_by.simps) (simp add: space_runes_def)

lemma trim_space_value:
  assumes "\<forall>c \<in> set s. url_byte c"
  shows "trim_space (CHR '' '' # s) = s"
  using trim_space_url [OF assms] trim_space_blank_start [of s] by (simp add: trim_space_def)

lemma read_line_newline: "newline \<notin> set h \<Longrightarrow> read_line (h @ newline # rest) = Some (h @ [newline], rest)"
proof -
  assume "newline \<notin> set h"
  then have "takeWhile (\<lambda>c. c \<noteq> newline) (h @ newline # rest) = h"
    by (subst takeWhile_append2) auto
  then show ?thesis by (simp add: read_line_def Let_def)
qed

lemma read_line_none: "newline \<notin> set s \<Longrightarrow> read_line s = None"
proof -
  assume "newline \<notin> set s"
  then have eq: "takeWhile (\<lambda>c. c \<noteq> newline) s = s" by (intro takeWhile_eq_all_conv [THEN iffD2]) auto
  show ?thesis unfolding read_line_def eq by simp
qed

lemma read_header:
  assumes "read_line s = Some (line, rest)" "trim_right_set line [CHR 0x0D, newline] = h" "h \<noteq> []" "CHR '':'' \<in> set h"
    "header_name h = ''content-length''" "parse_int64 (header_value h) = Some n" "0 \<le> n"
  shows "read_message k s = read_message n rest"
  using assms(7) by (subst read_message.simps) (simp add: Let_def assms(1-6))

lemma trim_right_crlf:
  assumes "h = [] \<or> last h \<notin> {CHR 0x0D, newline}"
  shows "trim_right_set (h @ [CHR 0x0D, newline]) [CHR 0x0D, newline] = h"
  using assms by (cases h rule: rev_cases) (auto simp: trim_right_set_def)

text \<open>A header line of the form that is written.\<close>

lemma read_length_line:
  assumes "n < 2 ^ 63"
  shows "read_message k (''Content-Length: '' @ int_str (int n) @ CHR 0x0D # newline # rest) = read_message (int n) rest"
proof -
  let ?h = "''Content-Length: '' @ nat_str n"
  have digits: "\<forall>c \<in> set (nat_str n). url_byte c" using nat_str_url by blast
  have ns: "newline \<notin> set (nat_str n)" "CHR '':'' \<notin> set (nat_str n)"
    using nat_str_url [of _ n] by (force simp: url_byte_def is_digit_char_def byte_of_def)+
  have "last ?h = last (nat_str n)" by simp
  moreover have "url_byte (last (nat_str n))" using digits by simp
  ultimately have lh: "last ?h \<notin> {CHR 0x0D, newline}" by (auto simp: url_byte_def byte_of_def)
  have line: "read_line (?h @ CHR 0x0D # newline # rest) = Some ((?h @ [CHR 0x0D]) @ [newline], rest)"
    using read_line_newline [of "?h @ [CHR 0x0D]" rest] ns(1) by simp
  have trimmed: "trim_right_set ((?h @ [CHR 0x0D]) @ [newline]) [CHR 0x0D, newline] = ?h"
    using trim_right_crlf [of ?h] lh by simp
  have "takeWhile (\<lambda>c. c \<noteq> CHR '':'') ?h = ''Content-Length''" by simp
  moreover have "trim_space (to_lower ''Content-Length'') = ''content-length''" by code_simp
  ultimately have name: "header_name ?h = ''content-length''" unfolding header_name_def by (simp only:)
  have "tl (dropWhile (\<lambda>c. c \<noteq> CHR '':'') ?h) = CHR '' '' # nat_str n" by simp
  then have "header_value ?h = nat_str n" unfolding header_value_def by (simp only: trim_space_value [OF digits])
  moreover have "parse_int64 (nat_str n) = Some (int n)"
    using parse_int_str [of "int n"] assms by (simp add: int_str_def)
  ultimately have len: "parse_int64 (header_value ?h) = Some (int n)" by (simp only:)
  have "?h \<noteq> []" "CHR '':'' \<in> set ?h" by simp_all
  from read_header [OF line trimmed this name len]
  have "read_message k (?h @ CHR 0x0D # newline # rest) = read_message (int n) rest" by simp
  then show ?thesis by (simp add: int_str_def)
qed

lemma read_blank_line:
  "read_message k (CHR 0x0D # newline # rest) =
    (if k < 0 then Inl MissingLength else if length rest < nat k then Inl EndOfStream
     else Inr (take (nat k) rest, drop (nat k) rest))"
  using read_line_newline [of "[CHR 0x0D]" rest] trim_right_crlf [of "[]"]
  by (subst read_message.simps) (simp add: Let_def)

lemma read_write:
  assumes "length payload < 2 ^ 63"
  shows "readLSPMessage (writeLSPMessage payload @ rest) = Inr (payload, rest)"
  using read_length_line [OF assms, of "- 1" "CHR 0x0D # newline # payload @ rest"]
  by (simp add: readLSPMessage_def writeLSPMessage_def read_blank_line)

text \<open>All messages of a stream: what the reading loops see, and the error that ends them.\<close>

function read_all :: "string \<Rightarrow> string list \<times> frame_error" where
  "read_all s = (case readLSPMessage s of Inl err \<Rightarrow> ([], err)
     | Inr (p, rest) \<Rightarrow> if length rest < length s then (case read_all rest of (ps, err) \<Rightarrow> (p # ps, err)) else ([], EndOfStream))"
  by pat_completeness auto
termination by (relation "measure length") auto

declare read_all.simps [simp del]

lemma read_all_frame:
  assumes "length payload < 2 ^ 63"
  shows "read_all (writeLSPMessage payload @ rest) = (case read_all rest of (ps, err) \<Rightarrow> (payload # ps, err))"
proof -
  have "length rest < length (writeLSPMessage payload @ rest)" by (simp add: writeLSPMessage_def)
  then show ?thesis by (subst read_all.simps) (simp add: read_write [OF assms])
qed

text \<open>A frame that is cut off is the end of the stream, wherever it is cut.\<close>

lemma read_cut:
  assumes "length payload < 2 ^ 63" and k: "k < length (writeLSPMessage payload)"
  shows "readLSPMessage (take k (writeLSPMessage payload)) = Inl EndOfStream"
proof -
  let ?h = "''Content-Length: '' @ int_str (int (length payload))"
  let ?crlf = "[CHR 0x0D, newline]"
  have w: "writeLSPMessage payload = ?h @ ?crlf @ ?crlf @ payload" by (simp add: writeLSPMessage_def)
  have tk: "take (length ?h + n) (writeLSPMessage payload) = ?h @ take n (?crlf @ ?crlf @ payload)" for n
    unfolding w take_append by simp
  have nl: "newline \<notin> set ?h"
    using nat_str_url [of newline] by (force simp: int_str_def is_digit_char_def byte_of_def)
  have none: "read_message j t = Inl EndOfStream" if "newline \<notin> set t" for j t
    by (subst read_message.simps) (simp add: read_line_none [OF that])
  consider "k < length ?h + 2" | "k = length ?h + 2" | "k = length ?h + 3" | j where "k = length ?h + 4 + j" "j < length payload"
  proof -
    have "length (writeLSPMessage payload) = length ?h + 4 + length payload" by (simp add: w)
    then have len: "k < length ?h + 4 + length payload" using k by simp
    show thesis
    proof (cases "k < length ?h + 4")
      case True
      then have "k < length ?h + 2 \<or> k = length ?h + 2 \<or> k = length ?h + 3" by linarith
      then show thesis using that(1-3) by blast
    next
      case False
      then show thesis using that(4) [of "k - (length ?h + 4)"] len by linarith
    qed
  qed
  then show ?thesis
  proof cases
    case 1
    then have "take k (writeLSPMessage payload) = take k (?h @ [CHR 0x0D])" by (simp add: w take_Cons')
    moreover have "newline \<notin> set (take k (?h @ [CHR 0x0D]))" using nl by (auto dest: in_set_takeD)
    ultimately show ?thesis using none by (simp add: readLSPMessage_def)
  next
    case 2
    then have "take k (writeLSPMessage payload) = ?h @ CHR 0x0D # newline # []" using tk [of 2] by simp
    then show ?thesis using read_length_line [OF assms(1), of "- 1" "[]"] none by (simp add: readLSPMessage_def)
  next
    case 3
    then have "take k (writeLSPMessage payload) = ?h @ CHR 0x0D # newline # [CHR 0x0D]" using tk [of 3] by simp
    then show ?thesis using read_length_line [OF assms(1), of "- 1" "[CHR 0x0D]"] none by (simp add: readLSPMessage_def)
  next
    case (4 j)
    then have "take k (writeLSPMessage payload) = ?h @ CHR 0x0D # newline # CHR 0x0D # newline # take j payload"
      using tk [of "4 + j"] by (simp add: take_Cons' add.assoc)
    then show ?thesis
      using read_length_line [OF assms(1), of "- 1" "CHR 0x0D # newline # take j payload"] 4(2)
      by (simp add: readLSPMessage_def read_blank_line)
  qed
qed

text \<open>
  C17. Whatever bytes the messages hold, the reader gets back from a stream exactly the messages that
  were written to it, in order, and then the end of the stream; a message cut off at the end is not
  delivered.
\<close>

theorem frames_roundtrip:
  assumes "list_all (\<lambda>p. length p < 2 ^ 63) (cut_payload # payloads)"
    and "k < length (writeLSPMessage cut_payload)"
  shows "read_all (concat (map writeLSPMessage payloads) @ take k (writeLSPMessage cut_payload)) = (payloads, EndOfStream)"
  using assms(1)
proof (induction payloads)
  case Nil
  then show ?case using read_cut [of cut_payload k] assms(2) by (subst read_all.simps) simp
next
  case (Cons p payloads)
  then show ?case by (simp add: read_all_frame)
qed

theorem frames_roundtrip_witness:
  "read_all (writeLSPMessage ''{}'' @ writeLSPMessage [newline] @ ''Content-Len'') = ([''{}'', [newline]], EndOfStream)"
proof -
  have "take 11 (writeLSPMessage []) = ''Content-Len''" "11 < length (writeLSPMessage [])" by code_simp+
  then show ?thesis using frames_roundtrip [of "[]" "[''{}'', [newline]]" 11] by simp
qed

section \<open>The client's calls\<close>

text \<open>Every number in use was given out, and a client whose loop has ended waits for nothing.\<close>

definition client_inv :: "Client \<Rightarrow> bool" where
  "client_inv c \<longleftrightarrow> 1 \<le> cl_nextID c \<and> (\<forall>i \<in> cl_pending c. 1 \<le> i \<and> i < cl_nextID c) \<and>
     (cl_done c \<longrightarrow> cl_pending c = {} \<and> cl_readErr c \<noteq> None)"

lemma client_inv_step:
  assumes "client_step (out, c) (out', c')" "client_inv c"
  shows "client_inv c' \<and> cl_nextID c \<le> cl_nextID c'"
  using assms(1)
proof cases
  case (step_call name payload reply)
  then show ?thesis
    using assms(2) by (auto simp: start_call_def registerPending_def client_inv_def Let_def
      split: if_splits prod.splits option.splits) (metis less_imp_le)
next
  case (step_subscribe name reply)
  then show ?thesis
    using assms(2) by (auto simp: SubscribeNotification_def client_inv_def Let_def split: if_splits)
next
  case (step_read write_ok response_ok p)
  then show ?thesis
    using assms(2)
    by (auto simp: read_turn_def fail_loop_def routeResponse_def removePending_def client_inv_def
        split: if_splits option.splits prod.splits)
qed (use assms(2) in \<open>auto simp: client_inv_def removePending_def unsubscribe_def fail_loop_def split: option.splits\<close>)

lemma client_reach_inv: "client_step\<^sup>*\<^sup>* (Nothing, NewClient) s \<Longrightarrow> client_inv (snd s)"
proof (induction rule: rtranclp_induct)
  case base
  then show ?case by (simp add: client_inv_def NewClient_def)
next
  case (step s t)
  then show ?case using client_inv_step by (cases s; cases t) auto
qed

text \<open>
  C18. Responses reach the call they belong to. Whatever its users and the server do, a client gives a
  call a number that no call had before, so that the registration never fails for a duplicate; a
  response is delivered to the call with its number only while that call waits, and ends the waiting;
  and after the reading loop has ended no call waits.
\<close>

theorem client_calls:
  assumes "client_step\<^sup>*\<^sup>* (Nothing, NewClient) (out, c)"
  shows "cl_nextID c \<notin> cl_pending c \<and>
    (cl_done c \<longrightarrow> cl_pending c = {}) \<and>
    (\<forall>write_ok response_ok p i q c'. read_turn write_ok response_ok p c = (Deliver i q, c') \<longrightarrow>
       i \<in> cl_pending c \<and> cl_pending c' = cl_pending c - {i} \<and> q = p \<and>
       (\<exists>rid. msg_id p = Some rid \<and> parseResponseID rid = Some i))"
proof -
  have "client_inv c" using client_reach_inv [OF assms] by simp
  moreover have "i \<in> cl_pending c \<and> cl_pending c' = cl_pending c - {i} \<and> q = p \<and>
       (\<exists>rid. msg_id p = Some rid \<and> parseResponseID rid = Some i)"
    if "read_turn write_ok response_ok p c = (Deliver i q, c')" for write_ok response_ok p i q c'
    using that
    by (cases p; cases "msg_method p")
      (auto simp: read_turn_def envelope_def fail_loop_def routeResponse_def removePending_def
        split: if_splits option.splits)
  ultimately show ?thesis unfolding client_inv_def by fastforce
qed

definition waiting_client :: Client where
  "waiting_client = snd (start_call ''shutdown'' () NewClient)"

theorem client_calls_witness:
  "cl_pending waiting_client = {1} \<and> cl_nextID waiting_client \<notin> cl_pending waiting_client"
proof -
  have "client_step (Nothing, NewClient) (Nothing :: unit client_output, waiting_client)"
    by (rule step_call [of "''shutdown''" "()" _ "fst (start_call ''shutdown'' () NewClient)"])
      (simp add: waiting_client_def)
  then have "client_step\<^sup>*\<^sup>* (Nothing, NewClient) (Nothing :: unit client_output, waiting_client)" by blast
  note calls = client_calls [OF this]
  have "trim_space ''shutdown'' = ''shutdown''" by code_simp
  then have "cl_pending waiting_client = {1}"
    by (simp add: waiting_client_def start_call_def registerPending_def NewClient_def Let_def)
  then show ?thesis using calls by blast
qed

end
