(* ===== verification/LspDaemon.thy ===== *)
theory LspDaemon
  imports LspTransport
begin

text \<open>
  The daemon of \<open>pkg/lsp/daemon_unix.go\<close>, which connects several clients with one language server:
  requests get numbers of the daemon, responses go back to the client that asked, the response to
  \<open>initialize\<close> is kept for later clients. One message is one step; \<open>handleClient\<close> and
  \<open>serverReadLoop\<close> are the functions of the steps, and what they write is logged in the state.
\<close>

section \<open>State\<close>

definition MethodInitialize :: string where "MethodInitialize = ''initialize''"
definition MethodInitialized :: string where "MethodInitialized = ''initialized''"

definition daemonInternalShutdownReqID :: int where "daemonInternalShutdownReqID = 2000000000"

text \<open>What the daemon writes to the server: messages of clients, and three of its own.\<close>

datatype 'r server_msg = Forward "'r payload" | Reject raw_id | ShutdownRequest | ExitNotification

text \<open>
  Clients are known by their numbers. The phase of the initialization is 0 before, 1 when the response
  is kept, and 2 after the notification. The counters do not wrap: that takes \<open>2 ^ 63\<close> requests.
\<close>

record 'r daemonRuntime =
  dm_clients :: "nat list"
  dm_nextClientID :: nat
  dm_pending :: "int \<rightharpoonup> nat \<times> raw_id"
  dm_nextReqID :: int
  dm_shutdownResponse :: bool
  dm_initPhase :: nat
  dm_initResponse :: "'r payload option"
  dm_initReqID :: "raw_id option"
  dm_serverKilled :: bool
  dm_toServer :: "'r server_msg list"
  dm_toClient :: "(nat \<times> 'r payload) list"

definition new_daemon :: "'r daemonRuntime" where
  "new_daemon =
     \<lparr>dm_clients = [], dm_nextClientID = 0, dm_pending = Map.empty, dm_nextReqID = 0, dm_shutdownResponse = False,
      dm_initPhase = 0, dm_initResponse = None, dm_initReqID = None, dm_serverKilled = False, dm_toServer = [],
      dm_toClient = []\<rparr>"

section \<open>Messages\<close>

definition extractMethod :: "'r payload \<Rightarrow> string" where
  "extractMethod p = (case envelope p of None \<Rightarrow> [] | Some (i, m) \<Rightarrow> m)"

definition extractRequestID :: "'r payload \<Rightarrow> raw_id option" where
  "extractRequestID p = (case p of NotObject s \<Rightarrow> None | Message i m r \<Rightarrow> i)"

definition rewriteJSONID :: "'r payload \<Rightarrow> raw_id \<Rightarrow> 'r payload" where
  "rewriteJSONID p newID = (case p of NotObject s \<Rightarrow> NotObject s | Message i m r \<Rightarrow> Message (Some newID) m r)"

text \<open>
  Writing; \<open>server_ok\<close> and \<open>client_ok\<close> say whether it succeeds. A server that cannot be written to is
  killed, and the handler of the client ends.
\<close>

definition writeToServer :: "bool \<Rightarrow> 'r server_msg \<Rightarrow> 'r daemonRuntime \<Rightarrow> bool \<times> 'r daemonRuntime" where
  "writeToServer server_ok m d =
     (if server_ok then (True, d\<lparr>dm_toServer := dm_toServer d @ [m]\<rparr>) else (False, d\<lparr>dm_serverKilled := True\<rparr>))"

definition writeToClient :: "(nat \<Rightarrow> bool) \<Rightarrow> nat \<Rightarrow> 'r payload \<Rightarrow> 'r daemonRuntime \<Rightarrow> bool \<times> 'r daemonRuntime" where
  "writeToClient client_ok c p d =
     (if client_ok c then (True, d\<lparr>dm_toClient := dm_toClient d @ [(c, p)]\<rparr>) else (False, d))"

section \<open>Clients\<close>

definition addClient :: "'r daemonRuntime \<Rightarrow> nat \<times> 'r daemonRuntime" where
  "addClient d =
     (let c = dm_nextClientID d + 1 in (c, d\<lparr>dm_nextClientID := c, dm_clients := dm_clients d @ [c]\<rparr>))"

definition removeClient :: "nat \<Rightarrow> 'r daemonRuntime \<Rightarrow> 'r daemonRuntime" where
  "removeClient c d =
     d\<lparr>dm_clients := filter (\<lambda>x. x \<noteq> c) (dm_clients d),
       dm_pending := (\<lambda>i. case dm_pending d i of None \<Rightarrow> None
                          | Some (c', rid) \<Rightarrow> if c' = c then None else Some (c', rid))\<rparr>"

definition remapRequest ::
  "nat \<Rightarrow> raw_id \<Rightarrow> 'r payload \<Rightarrow> 'r daemonRuntime \<Rightarrow> 'r payload \<times> 'r daemonRuntime" where
  "remapRequest c originalID p d =
     (let daemonID = dm_nextReqID d + 1
      in (rewriteJSONID p (IdInt daemonID),
          d\<lparr>dm_nextReqID := daemonID, dm_pending := (dm_pending d)(daemonID \<mapsto> (c, originalID))\<rparr>))"

text \<open>The answer to a later \<open>initialize\<close>; \<open>decodes\<close> says whether the kept response unmarshals.\<close>

definition replyInitializeFromCache ::
  "(nat \<Rightarrow> bool) \<Rightarrow> ('r payload \<Rightarrow> bool) \<Rightarrow> nat \<Rightarrow> 'r payload \<Rightarrow> 'r daemonRuntime \<Rightarrow> bool \<times> 'r daemonRuntime" where
  "replyInitializeFromCache client_ok decodes c p d =
     (case extractRequestID p of
        None \<Rightarrow> (False, d)
      | Some rid \<Rightarrow>
          (case dm_initResponse d of
             None \<Rightarrow> (False, d)
           | Some cached \<Rightarrow>
               if decodes cached then writeToClient client_ok c (rewriteJSONID cached rid) d else (False, d)))"

text \<open>
  One turn of the loop of \<open>handleClient\<close>; the result says whether the loop goes on.
\<close>

definition client_message ::
  "bool \<Rightarrow> (nat \<Rightarrow> bool) \<Rightarrow> ('r payload \<Rightarrow> bool) \<Rightarrow> nat \<Rightarrow> 'r payload \<Rightarrow> 'r daemonRuntime \<Rightarrow> bool \<times> 'r daemonRuntime" where
  "client_message server_ok client_ok decodes c p d =
     (let method = extractMethod p; reqID = extractRequestID p; phase = dm_initPhase d
      in if method = MethodInitialize \<and> phase \<ge> 1 then replyInitializeFromCache client_ok decodes c p d
         else if method = MethodInitialize \<and> reqID \<noteq> None
         then (case remapRequest c (the reqID) p d of (remapped, d1) \<Rightarrow>
                 writeToServer server_ok (Forward remapped)
                   (case extractRequestID remapped of None \<Rightarrow> d1 | Some newID \<Rightarrow> d1\<lparr>dm_initReqID := Some newID\<rparr>))
         else if method = MethodInitialized \<and> phase \<ge> 2 then (True, d)
         else if method = MethodInitialized
         then (case writeToServer server_ok (Forward p) d of
                 (True, d1) \<Rightarrow> (True, d1\<lparr>dm_initPhase := 2\<rparr>) | (False, d1) \<Rightarrow> (False, d1))
         else if reqID \<noteq> None \<and> method \<noteq> []
         then (case remapRequest c (the reqID) p d of (remapped, d1) \<Rightarrow> writeToServer server_ok (Forward remapped) d1)
         else writeToServer server_ok (Forward p) d)"

text \<open>The turn with the deferred removal of the client.\<close>

definition handle_turn ::
  "bool \<Rightarrow> (nat \<Rightarrow> bool) \<Rightarrow> ('r payload \<Rightarrow> bool) \<Rightarrow> nat \<Rightarrow> 'r payload \<Rightarrow> 'r daemonRuntime \<Rightarrow> 'r daemonRuntime" where
  "handle_turn server_ok client_ok decodes c p d =
     (case client_message server_ok client_ok decodes c p d of
        (True, d1) \<Rightarrow> d1 | (False, d1) \<Rightarrow> removeClient c d1)"

section \<open>The server\<close>

definition observeShutdownResponse :: "'r payload \<Rightarrow> 'r daemonRuntime \<Rightarrow> 'r daemonRuntime" where
  "observeShutdownResponse p d =
     (case envelope p of
        Some (Some rid, []) \<Rightarrow>
          if parseResponseID rid = Some daemonInternalShutdownReqID then d\<lparr>dm_shutdownResponse := True\<rparr> else d
      | _ \<Rightarrow> d)"

definition cacheInitializeResponse :: "'r payload \<Rightarrow> 'r daemonRuntime \<Rightarrow> 'r daemonRuntime" where
  "cacheInitializeResponse p d =
     (if dm_initPhase d \<noteq> 0 then d
      else case envelope p of
             Some (Some rid, []) \<Rightarrow>
               if dm_initReqID d = Some rid then d\<lparr>dm_initResponse := Some p, dm_initPhase := 1\<rparr> else d
           | _ \<Rightarrow> d)"

definition daemon_routeResponse :: "(nat \<Rightarrow> bool) \<Rightarrow> 'r payload \<Rightarrow> raw_id \<Rightarrow> 'r daemonRuntime \<Rightarrow> 'r daemonRuntime" where
  "daemon_routeResponse client_ok p responseID d =
     (case parseResponseID responseID of
        None \<Rightarrow> d
      | Some daemonID \<Rightarrow>
          (case dm_pending d daemonID of
             None \<Rightarrow> d
           | Some (c, clientID) \<Rightarrow>
               snd (writeToClient client_ok c (rewriteJSONID p clientID)
                 (d\<lparr>dm_pending := (dm_pending d)(daemonID := None)\<rparr>))))"

definition rejectServerRequest :: "bool \<Rightarrow> 'r payload \<Rightarrow> 'r daemonRuntime \<Rightarrow> 'r daemonRuntime" where
  "rejectServerRequest server_ok p d =
     (case envelope p of
        Some (Some rid, m) \<Rightarrow>
          if m = [] then d else if server_ok then d\<lparr>dm_toServer := dm_toServer d @ [Reject rid]\<rparr> else d
      | _ \<Rightarrow> d)"

text \<open>\<open>pick\<close> is the client that the iteration over the map of clients meets first.\<close>

definition routeServerRequest ::
  "bool \<Rightarrow> (nat \<Rightarrow> bool) \<Rightarrow> (nat list \<Rightarrow> nat) \<Rightarrow> 'r payload \<Rightarrow> 'r daemonRuntime \<Rightarrow> 'r daemonRuntime" where
  "routeServerRequest server_ok client_ok pick p d =
     (if dm_clients d = [] then rejectServerRequest server_ok p d
      else snd (writeToClient client_ok (pick (dm_clients d)) p d))"

definition broadcastToClients :: "(nat \<Rightarrow> bool) \<Rightarrow> 'r payload \<Rightarrow> 'r daemonRuntime \<Rightarrow> 'r daemonRuntime" where
  "broadcastToClients client_ok p d = fold (\<lambda>c d. snd (writeToClient client_ok c p d)) (dm_clients d) d"

definition forwardToClient ::
  "bool \<Rightarrow> (nat \<Rightarrow> bool) \<Rightarrow> (nat list \<Rightarrow> nat) \<Rightarrow> 'r payload \<Rightarrow> 'r daemonRuntime \<Rightarrow> 'r daemonRuntime" where
  "forwardToClient server_ok client_ok pick p d =
     (case envelope p of
        None \<Rightarrow> d
      | Some (Some rid, []) \<Rightarrow> daemon_routeResponse client_ok p rid d
      | Some (Some rid, _) \<Rightarrow> routeServerRequest server_ok client_ok pick p d
      | Some (None, _) \<Rightarrow> broadcastToClients client_ok p d)"

text \<open>One turn of \<open>serverReadLoop\<close>.\<close>

definition server_turn ::
  "bool \<Rightarrow> (nat \<Rightarrow> bool) \<Rightarrow> (nat list \<Rightarrow> nat) \<Rightarrow> 'r payload \<Rightarrow> 'r daemonRuntime \<Rightarrow> 'r daemonRuntime" where
  "server_turn server_ok client_ok pick p d =
     forwardToClient server_ok client_ok pick p (cacheInitializeResponse p (observeShutdownResponse p d))"

text \<open>
  The shutdown when no client is connected and the daemon has been idle: the request, and after the
  response the exit notification. The channel holds at most one signal.
\<close>

definition begin_shutdown :: "bool \<Rightarrow> 'r daemonRuntime \<Rightarrow> bool \<times> 'r daemonRuntime" where
  "begin_shutdown server_ok d =
     (if server_ok then (True, d\<lparr>dm_toServer := dm_toServer d @ [ShutdownRequest]\<rparr>) else (False, d))"

definition finish_shutdown :: "bool \<Rightarrow> 'r daemonRuntime \<Rightarrow> bool \<times> 'r daemonRuntime" where
  "finish_shutdown server_ok d =
     (if \<not> dm_shutdownResponse d then (False, d)
      else if server_ok then (True, d\<lparr>dm_shutdownResponse := False, dm_toServer := dm_toServer d @ [ExitNotification]\<rparr>)
      else (False, d\<lparr>dm_shutdownResponse := False\<rparr>))"

section \<open>Runs\<close>

text \<open>The messages of clients that become requests of the daemon.\<close>

definition is_remapped :: "'r daemonRuntime \<Rightarrow> 'r payload \<Rightarrow> bool" where
  "is_remapped d p \<longleftrightarrow>
     extractRequestID p \<noteq> None \<and> extractMethod p \<noteq> [] \<and> extractMethod p \<noteq> MethodInitialized \<and>
     (extractMethod p = MethodInitialize \<longrightarrow> dm_initPhase d = 0)"

text \<open>The number of the request to which a message of the server is the response.\<close>

definition response_number :: "'r payload \<Rightarrow> int option" where
  "response_number p = (case envelope p of Some (Some rid, []) \<Rightarrow> parseResponseID rid | _ \<Rightarrow> None)"

text \<open>
  A run of the daemon with its history: the requests of clients in the order in which they were
  forwarded, each with its client and the client's identifier, and the numbers of those answered.
\<close>

inductive daemon_run :: "'r daemonRuntime \<Rightarrow> (nat \<times> raw_id) list \<Rightarrow> int set \<Rightarrow> bool" where
  run_start: "daemon_run new_daemon [] {}"
| run_connect: "daemon_run d reqs answered \<Longrightarrow> daemon_run (snd (addClient d)) reqs answered"
| run_disconnect: "daemon_run d reqs answered \<Longrightarrow> daemon_run (removeClient c d) reqs answered"
| run_message: "daemon_run d reqs answered \<Longrightarrow> c \<in> set (dm_clients d) \<Longrightarrow>
    daemon_run (handle_turn server_ok client_ok decodes c p d)
      (if is_remapped d p then reqs @ [(c, the (extractRequestID p))] else reqs) answered"
| run_server: "daemon_run d reqs answered \<Longrightarrow> (\<And>cs. cs \<noteq> [] \<Longrightarrow> pick cs \<in> set cs) \<Longrightarrow>
    daemon_run (server_turn server_ok client_ok pick p d) reqs
      (answered \<union> {i. response_number p = Some i \<and> 1 \<le> i \<and> i \<le> int (length reqs)})"
| run_begin_shutdown: "daemon_run d reqs answered \<Longrightarrow> dm_clients d = [] \<Longrightarrow>
    daemon_run (snd (begin_shutdown server_ok d)) reqs answered"
| run_finish_shutdown: "daemon_run d reqs answered \<Longrightarrow> daemon_run (snd (finish_shutdown server_ok d)) reqs answered"

text \<open>The steps without the history.\<close>

inductive daemon_step :: "'r daemonRuntime \<Rightarrow> 'r daemonRuntime \<Rightarrow> bool" where
  step_connect: "daemon_step d (snd (addClient d))"
| step_disconnect: "daemon_step d (removeClient c d)"
| step_message: "c \<in> set (dm_clients d) \<Longrightarrow> daemon_step d (handle_turn server_ok client_ok decodes c p d)"
| step_server: "daemon_step d (server_turn server_ok client_ok pick p d)"
| step_begin_shutdown: "daemon_step d (snd (begin_shutdown server_ok d))"
| step_finish_shutdown: "daemon_step d (snd (finish_shutdown server_ok d))"

section \<open>The effect of the steps\<close>

lemma method_names: "MethodInitialize \<noteq> MethodInitialized" "MethodInitialize \<noteq> []" "MethodInitialized \<noteq> []"
  by (simp_all add: MethodInitialize_def MethodInitialized_def)

lemma writeToServer_fields [simp]:
  "dm_clients (snd (writeToServer ok m d)) = dm_clients d"
  "dm_nextClientID (snd (writeToServer ok m d)) = dm_nextClientID d"
  "dm_nextReqID (snd (writeToServer ok m d)) = dm_nextReqID d"
  "dm_pending (snd (writeToServer ok m d)) = dm_pending d"
  "dm_initPhase (snd (writeToServer ok m d)) = dm_initPhase d"
  "dm_initResponse (snd (writeToServer ok m d)) = dm_initResponse d"
  "fst (writeToServer ok m d) = ok"
  by (simp_all add: writeToServer_def)

lemma writeToClient_fields [simp]:
  "dm_clients (snd (writeToClient ok c m d)) = dm_clients d"
  "dm_nextClientID (snd (writeToClient ok c m d)) = dm_nextClientID d"
  "dm_nextReqID (snd (writeToClient ok c m d)) = dm_nextReqID d"
  "dm_pending (snd (writeToClient ok c m d)) = dm_pending d"
  "dm_initPhase (snd (writeToClient ok c m d)) = dm_initPhase d"
  "dm_initResponse (snd (writeToClient ok c m d)) = dm_initResponse d"
  "dm_toServer (snd (writeToClient ok c m d)) = dm_toServer d"
  "dm_toClient (snd (writeToClient ok c m d)) = dm_toClient d @ (if ok c then [(c, m)] else [])"
  by (simp_all add: writeToClient_def)

lemma broadcast_log:
  "broadcastToClients client_ok p d =
    d\<lparr>dm_toClient := dm_toClient d @ map (\<lambda>c. (c, p)) (filter client_ok (dm_clients d))\<rparr>"
proof -
  have "fold (\<lambda>c d. snd (writeToClient client_ok c p d)) cs d =
      d\<lparr>dm_toClient := dm_toClient d @ map (\<lambda>c. (c, p)) (filter client_ok cs)\<rparr>" for cs
    by (induction cs arbitrary: d) (simp_all add: writeToClient_def)
  then show ?thesis by (simp add: broadcastToClients_def)
qed

lemma rewrite_id: "extractRequestID (rewriteJSONID p i) = (case p of NotObject s \<Rightarrow> None | Message j m r \<Rightarrow> Some i)"
  by (cases p) (simp_all add: rewriteJSONID_def extractRequestID_def)

lemma client_message_effect:
  assumes "client_message server_ok client_ok decodes c p d = (b, d')"
  shows "dm_clients d' = dm_clients d \<and> dm_nextClientID d' = dm_nextClientID d \<and>
    dm_nextReqID d' = (if is_remapped d p then dm_nextReqID d + 1 else dm_nextReqID d) \<and>
    dm_pending d' = (if is_remapped d p then (dm_pending d)(dm_nextReqID d + 1 \<mapsto> (c, the (extractRequestID p)))
      else dm_pending d)"
proof -
  let ?m = "extractMethod p" and ?i = "extractRequestID p"
  have d': "d' = snd (client_message server_ok client_ok decodes c p d)" using assms by simp
  consider (cached) "?m = MethodInitialize" "1 \<le> dm_initPhase d"
    | (first) "?m = MethodInitialize" "dm_initPhase d = 0" "?i \<noteq> None"
    | (bare) "?m = MethodInitialize" "dm_initPhase d = 0" "?i = None"
    | (initialized) "?m = MethodInitialized"
    | (other) "?m \<noteq> MethodInitialize" "?m \<noteq> MethodInitialized"
    by linarith
  then show ?thesis
  proof cases
    case cached
    then show ?thesis
      by (auto simp: d' client_message_def replyInitializeFromCache_def is_remapped_def Let_def split: option.splits)
  next
    case first
    then show ?thesis
      by (auto simp: d' client_message_def remapRequest_def is_remapped_def Let_def method_names split: option.splits)
  next
    case bare
    then show ?thesis by (auto simp: d' client_message_def is_remapped_def Let_def method_names)
  next
    case initialized
    then show ?thesis
      using method_names by (auto simp: d' client_message_def is_remapped_def writeToServer_def Let_def)
  next
    case other
    then show ?thesis by (auto simp: d' client_message_def remapRequest_def is_remapped_def Let_def)
  qed
qed

lemma observe_fields [simp]:
  "dm_clients (observeShutdownResponse p d) = dm_clients d"
  "dm_nextClientID (observeShutdownResponse p d) = dm_nextClientID d"
  "dm_nextReqID (observeShutdownResponse p d) = dm_nextReqID d"
  "dm_pending (observeShutdownResponse p d) = dm_pending d"
  "dm_initPhase (observeShutdownResponse p d) = dm_initPhase d"
  "dm_initResponse (observeShutdownResponse p d) = dm_initResponse d"
  "dm_toClient (observeShutdownResponse p d) = dm_toClient d"
  by (auto simp: observeShutdownResponse_def split: option.splits prod.splits list.splits)

lemma cache_fields [simp]:
  "dm_clients (cacheInitializeResponse p d) = dm_clients d"
  "dm_nextClientID (cacheInitializeResponse p d) = dm_nextClientID d"
  "dm_nextReqID (cacheInitializeResponse p d) = dm_nextReqID d"
  "dm_pending (cacheInitializeResponse p d) = dm_pending d"
  "dm_toClient (cacheInitializeResponse p d) = dm_toClient d"
  by (auto simp: cacheInitializeResponse_def split: option.splits prod.splits list.splits)

lemma reject_fields [simp]:
  "dm_clients (rejectServerRequest ok p d) = dm_clients d"
  "dm_nextClientID (rejectServerRequest ok p d) = dm_nextClientID d"
  "dm_nextReqID (rejectServerRequest ok p d) = dm_nextReqID d"
  "dm_pending (rejectServerRequest ok p d) = dm_pending d"
  "dm_initPhase (rejectServerRequest ok p d) = dm_initPhase d"
  "dm_initResponse (rejectServerRequest ok p d) = dm_initResponse d"
  by (auto simp: rejectServerRequest_def split: option.splits prod.splits)

lemma server_turn_effect:
  "dm_clients (server_turn server_ok client_ok pick p d) = dm_clients d \<and>
   dm_nextClientID (server_turn server_ok client_ok pick p d) = dm_nextClientID d \<and>
   dm_nextReqID (server_turn server_ok client_ok pick p d) = dm_nextReqID d \<and>
   dm_pending (server_turn server_ok client_ok pick p d) =
     (case response_number p of None \<Rightarrow> dm_pending d | Some i \<Rightarrow> (dm_pending d)(i := None))"
  by (auto simp: server_turn_def forwardToClient_def daemon_routeResponse_def routeServerRequest_def broadcast_log
      response_number_def fun_eq_iff split: option.splits prod.splits list.splits)

section \<open>Pending requests\<close>

text \<open>What the map of pending requests holds, by the history alone.\<close>

definition outstanding :: "(nat \<times> raw_id) list \<Rightarrow> int set \<Rightarrow> nat list \<Rightarrow> int \<Rightarrow> (nat \<times> raw_id) option" where
  "outstanding reqs answered clients i =
     (if 1 \<le> i \<and> i \<le> int (length reqs) \<and> i \<notin> answered \<and> fst (reqs ! nat (i - 1)) \<in> set clients
      then Some (reqs ! nat (i - 1)) else None)"

definition daemon_inv :: "'r daemonRuntime \<Rightarrow> (nat \<times> raw_id) list \<Rightarrow> int set \<Rightarrow> bool" where
  "daemon_inv d reqs answered \<longleftrightarrow>
     dm_nextReqID d = int (length reqs) \<and> dm_pending d = outstanding reqs answered (dm_clients d) \<and>
     answered \<subseteq> {1 .. int (length reqs)} \<and> distinct (dm_clients d) \<and>
     (\<forall>c \<in> set (dm_clients d) \<union> fst ` set reqs. c \<le> dm_nextClientID d)"

lemma nth_client: "1 \<le> i \<Longrightarrow> i \<le> int (length reqs) \<Longrightarrow> fst (reqs ! nat (i - 1)) \<in> fst ` set reqs"
  by (intro imageI nth_mem) linarith

lemma outstanding_connect:
  assumes "c \<notin> fst ` set reqs"
  shows "outstanding reqs answered (cs @ [c]) = outstanding reqs answered cs"
  using nth_client [of _ reqs] assms by (fastforce simp: outstanding_def fun_eq_iff)

lemma outstanding_disconnect:
  "(\<lambda>i. case outstanding reqs answered cs i of None \<Rightarrow> None | Some (c', rid) \<Rightarrow> if c' = c then None else Some (c', rid)) =
    outstanding reqs answered (filter (\<lambda>x. x \<noteq> c) cs)"
  by (rule ext) (auto simp: outstanding_def split: prod.splits)

lemma outstanding_request:
  assumes "c \<in> set cs" "answered \<subseteq> {1 .. int (length reqs)}"
  shows "(outstanding reqs answered cs)(int (length reqs) + 1 \<mapsto> (c, rid)) = outstanding (reqs @ [(c, rid)]) answered cs"
  using assms by (auto simp: outstanding_def fun_eq_iff nth_append)

lemma outstanding_answer:
  "(outstanding reqs answered cs)(i := None) =
    outstanding reqs (answered \<union> {j. i = j \<and> 1 \<le> j \<and> j \<le> int (length reqs)}) cs"
  by (rule ext) (auto simp: outstanding_def)

lemma removeClient_inv: "daemon_inv d reqs answered \<Longrightarrow> daemon_inv (removeClient c d) reqs answered"
  by (auto simp: daemon_inv_def removeClient_def outstanding_disconnect)

lemma daemon_run_inv: "daemon_run d reqs answered \<Longrightarrow> daemon_inv d reqs answered"
proof (induction rule: daemon_run.induct)
  case run_start
  then show ?case by (auto simp: daemon_inv_def new_daemon_def outstanding_def fun_eq_iff)
next
  case (run_connect d reqs answered)
  let ?known = "set (dm_clients d) \<union> fst ` set reqs"
  have "\<forall>c \<in> ?known. c \<le> dm_nextClientID d" using run_connect.IH unfolding daemon_inv_def by (elim conjE)
  then have known: "c \<le> dm_nextClientID d" if "c \<in> ?known" for c using that by blast
  have "dm_nextClientID d + 1 \<notin> ?known"
  proof
    assume "dm_nextClientID d + 1 \<in> ?known"
    from known [OF this] show False by simp
  qed
  then have fresh: "dm_nextClientID d + 1 \<notin> fst ` set reqs" "dm_nextClientID d + 1 \<notin> set (dm_clients d)" by simp_all
  have le: "\<forall>c \<in> ?known. c \<le> dm_nextClientID d + 1" using known by (intro ballI trans_le_add1)
  have "daemon_inv d reqs answered" by (rule run_connect.IH)
  then show ?case using fresh le by (simp add: daemon_inv_def addClient_def Let_def outstanding_connect)
next
  case (run_disconnect d reqs answered c)
  then show ?case by (simp add: removeClient_inv)
next
  case (run_message d reqs answered c server_ok client_ok decodes p)
  obtain b d' where m: "client_message server_ok client_ok decodes c p d = (b, d')" by fastforce
  have "daemon_inv d' (if is_remapped d p then reqs @ [(c, the (extractRequestID p))] else reqs) answered"
    using client_message_effect [OF m] run_message.IH run_message.hyps(2)
    by (auto simp: daemon_inv_def outstanding_request)
  then show ?case by (cases b) (simp_all add: handle_turn_def m removeClient_inv)
next
  case (run_server d reqs answered pick server_ok client_ok p)
  then show ?case
    using server_turn_effect [of server_ok client_ok pick p d]
    by (cases "response_number p") (auto simp: daemon_inv_def outstanding_answer)
next
  case (run_begin_shutdown d reqs answered server_ok)
  then show ?case by (simp add: begin_shutdown_def daemon_inv_def)
next
  case (run_finish_shutdown d reqs answered server_ok)
  then show ?case by (simp add: finish_shutdown_def daemon_inv_def)
qed

section \<open>Properties\<close>

text \<open>
  C13. Responses go back to the client that asked. In every run, however clients connect, leave and send,
  a response of the server with the number \<open>i\<close> is written to one client, that of the \<open>i\<close>-th
  forwarded request, under the identifier that this client had given it, if it is still connected
  and no response with that number was seen before; otherwise it is written to nobody.
\<close>

theorem daemon_routes_responses:
  assumes "daemon_run d reqs answered" and "response_number p = Some i"
  shows "dm_toClient (server_turn server_ok client_ok pick p d) = dm_toClient d @
    (if 1 \<le> i \<and> i \<le> int (length reqs) \<and> i \<notin> answered \<and> fst (reqs ! nat (i - 1)) \<in> set (dm_clients d) \<and>
        client_ok (fst (reqs ! nat (i - 1)))
     then [(fst (reqs ! nat (i - 1)), rewriteJSONID p (snd (reqs ! nat (i - 1))))] else [])"
proof -
  have pending: "dm_pending d i = outstanding reqs answered (dm_clients d) i"
    using daemon_run_inv [OF assms(1)] by (simp add: daemon_inv_def)
  obtain rid where e: "envelope p = Some (Some rid, [])" "parseResponseID rid = Some i"
    using assms(2) by (auto simp: response_number_def split: option.splits prod.splits list.splits)
  show ?thesis
    using pending e
    by (cases "outstanding reqs answered (dm_clients d) i")
      (auto simp: server_turn_def forwardToClient_def daemon_routeResponse_def outstanding_def split: if_splits)
qed

definition request :: "int \<Rightarrow> string \<Rightarrow> unit payload" where
  "request i method = Message (Some (IdInt i)) (Method method) ()"

definition response :: "int \<Rightarrow> unit payload" where
  "response i = Message (Some (IdInt i)) NoMethod ()"

definition notification :: "string \<Rightarrow> unit payload" where
  "notification method = Message None (Method method) ()"

text \<open>Turns in which every write succeeds and every response decodes.\<close>

definition send :: "nat \<Rightarrow> unit payload \<Rightarrow> unit daemonRuntime \<Rightarrow> unit daemonRuntime" where
  "send c p d = handle_turn True (\<lambda>c. True) (\<lambda>p. True) c p d"

definition receive :: "unit payload \<Rightarrow> unit daemonRuntime \<Rightarrow> unit daemonRuntime" where
  "receive p d = server_turn True (\<lambda>c. True) hd p d"

definition connect :: "unit daemonRuntime \<Rightarrow> unit daemonRuntime" where
  "connect d = snd (addClient d)"

text \<open>Two clients that ask with the same identifier.\<close>

definition two_requests :: "unit daemonRuntime" where
  "two_requests = send 2 (request 7 ''m'') (send 1 (request 7 ''m'') (connect (connect new_daemon)))"

lemma two_requests_run: "daemon_run two_requests [(1, IdInt 7), (2, IdInt 7)] {}"
proof -
  let ?d0 = "connect (connect new_daemon)"
  let ?d1 = "send 1 (request 7 ''m'') ?d0"
  have r0: "daemon_run ?d0 [] {}" unfolding connect_def by (intro run_connect run_start)
  have c: "1 \<in> set (dm_clients ?d0)" "is_remapped ?d0 (request 7 ''m'')"
    "2 \<in> set (dm_clients ?d1)" "is_remapped ?d1 (request 7 ''m'')" by code_simp+
  have "daemon_run ?d1 [(1, IdInt 7)] {}"
    using run_message [OF r0 c(1), of True "\<lambda>c. True" "\<lambda>p. True" "request 7 ''m''"] c(2)
    by (simp add: send_def request_def extractRequestID_def)
  from run_message [OF this c(3), of True "\<lambda>c. True" "\<lambda>p. True" "request 7 ''m''"] c(4)
  show ?thesis by (simp add: send_def request_def extractRequestID_def two_requests_def)
qed

theorem daemon_routes_responses_witness:
  "dm_toClient (receive (response 2) two_requests) = [(2, response 7)]"
proof -
  have "response_number (response 2) = Some 2" by code_simp
  note routed = daemon_routes_responses [OF two_requests_run this, of True "\<lambda>c. True" hd]
  have "dm_toClient two_requests = []" "dm_clients two_requests = [1, 2]" by code_simp+
  then show ?thesis using routed by (simp add: receive_def) (simp add: response_def rewriteJSONID_def)
qed

text \<open>
  An \<open>initialize\<close> after the first phase is answered from the kept response, under the identifier of
  the client, or ends its connection; the server does not see it.
\<close>

lemma late_initialize:
  assumes "extractMethod p = MethodInitialize" "extractRequestID p = Some rid" "1 \<le> dm_initPhase d"
  shows "handle_turn server_ok client_ok decodes c p d =
    (case dm_initResponse d of
       Some cached \<Rightarrow>
         if decodes cached \<and> client_ok c
         then d\<lparr>dm_toClient := dm_toClient d @ [(c, rewriteJSONID cached rid)]\<rparr> else removeClient c d
     | None \<Rightarrow> removeClient c d)"
  using assms
  by (auto simp: handle_turn_def client_message_def replyInitializeFromCache_def writeToClient_def Let_def
      split: option.splits)

text \<open>The end of the initialization without a kept response.\<close>

definition uncached :: "'r daemonRuntime \<Rightarrow> bool" where
  "uncached d \<longleftrightarrow> dm_initPhase d = 2 \<and> dm_initResponse d = None"

lemma uncached_removeClient [simp]: "uncached (removeClient c d) = uncached d"
  by (simp add: uncached_def removeClient_def)

lemma uncached_message: "uncached d \<Longrightarrow> uncached (handle_turn server_ok client_ok decodes c p d)"
  using method_names
  by (auto simp: handle_turn_def client_message_def replyInitializeFromCache_def remapRequest_def writeToServer_def
      uncached_def removeClient_def Let_def split: option.splits bool.splits prod.splits)

lemma uncached_server: "uncached d \<Longrightarrow> uncached (server_turn server_ok client_ok pick p d)"
proof -
  assume u: "uncached d"
  let ?e = "cacheInitializeResponse p (observeShutdownResponse p d)"
  have "uncached ?e" using u by (simp add: uncached_def cacheInitializeResponse_def)
  then show ?thesis
    by (auto simp: uncached_def server_turn_def forwardToClient_def daemon_routeResponse_def routeServerRequest_def
        broadcast_log split: option.splits prod.splits list.splits)
qed

lemma uncached_step: "daemon_step d d' \<Longrightarrow> uncached d \<Longrightarrow> uncached d'"
proof (induction rule: daemon_step.induct)
  case (step_connect d)
  then show ?case by (simp add: uncached_def addClient_def Let_def)
next
  case (step_begin_shutdown d server_ok)
  then show ?case by (simp add: uncached_def begin_shutdown_def)
next
  case (step_finish_shutdown d server_ok)
  then show ?case by (simp add: uncached_def finish_shutdown_def)
qed (simp_all add: uncached_message uncached_server)

text \<open>
  C14. A daemon can lock out every new client for good. If the initialization is over and no response
  was kept, then after any number of steps every \<open>initialize\<close> of a client ends the connection of
  that client, and nothing is written to it. Two clients that start at the same time bring this about:
  the second request replaces the number that the first is waited for with, the first client ends
  the initialization before the second response arrives, and that one is not kept any more.
\<close>

theorem daemon_refuses_clients:
  assumes "dm_initPhase d = 2" "dm_initResponse d = None" "daemon_step\<^sup>*\<^sup>* d d'"
    and "extractMethod p = MethodInitialize"
  shows "handle_turn server_ok client_ok decodes c p d' = removeClient c d'"
proof -
  have "uncached d'"
    using assms(3,1,2) by (induction rule: rtranclp_induct) (simp_all add: uncached_def uncached_step [unfolded uncached_def])
  then show ?thesis
    using assms(4)
    by (simp add: handle_turn_def client_message_def replyInitializeFromCache_def uncached_def Let_def split: option.splits)
qed

definition locked_out :: "unit daemonRuntime" where
  "locked_out =
     receive (response 2) (send 1 (notification ''initialized'') (receive (response 1)
       (send 2 (request 1 ''initialize'') (send 1 (request 1 ''initialize'') (connect (connect new_daemon))))))"

theorem daemon_refuses_clients_witness:
  "send 3 (request 1 ''initialize'') (connect locked_out) = removeClient 3 (connect locked_out) \<and>
   dm_toClient locked_out = [(1, response 1), (2, response 1)]"
proof -
  have "dm_initPhase locked_out = 2" "dm_initResponse locked_out = None" "dm_toClient locked_out = [(1, response 1), (2, response 1)]"
    "extractMethod (request 1 ''initialize'') = MethodInitialize"
    by code_simp+
  moreover have "daemon_step\<^sup>*\<^sup>* locked_out (connect locked_out)" using step_connect by (auto simp: connect_def)
  ultimately show ?thesis
    using daemon_refuses_clients [of locked_out "connect locked_out" "request 1 ''initialize''" True "\<lambda>c. True" "\<lambda>p. True" 3]
    by (simp add: send_def)
qed

text \<open>
  An error response to the first \<open>initialize\<close> is kept like any other, so that all later clients get it.
\<close>

lemma error_response_kept:
  "dm_initResponse (receive (Message (Some (IdInt 1)) NoMethod ()) (send 1 (request 5 ''initialize'') (connect new_daemon))) =
    Some (response 1)"
  by code_simp

end
