(* ===== verification/LspState.thy ===== *)
theory LspState
  imports LspImplements LspDaemon
begin

text \<open>
  The state files of the daemons: \<open>pkg/lsp/daemon_state.go\<close>, \<open>daemon.go\<close> and \<open>process_identity.go\<close>. A
  file is what its JSON text decodes to. Times are nanoseconds.
\<close>

section \<open>Records\<close>

record JavaGradleBuildFile =
  gf_Path :: string
  gf_Exists :: bool
  gf_ModTimeUnixNano :: int
  gf_SizeBytes :: int
  gf_ContentSHA256 :: string

record JavaGradleBuildBaseline =
  gb_Fingerprint :: string
  gb_Files :: "JavaGradleBuildFile list"

record lifecycleState =
  st_WorkspaceRoot :: string
  st_Language :: string
  st_StateKey :: string
  st_SocketPath :: string
  st_PID :: int
  st_Binary :: string
  st_Args :: "string list"
  st_ServerEnv :: "string list"
  st_DaemonProcessStartID :: string
  st_StartedUnixNano :: int
  st_LastUsedUnixNano :: int
  st_JavaGradleBuildBaseline :: "JavaGradleBuildBaseline option"

record daemonProcessConfig =
  dc_WorkspaceRoot :: string
  dc_Language :: string
  dc_StateKey :: string
  dc_StatePath :: string
  dc_SocketPath :: string
  dc_Binary :: string
  dc_Args :: "string list"
  dc_ServerEnv :: "string list"
  dc_IdleTimeoutNS :: int
  dc_JavaGradleBuildBaseline :: "JavaGradleBuildBaseline option"

section \<open>The configuration of a daemon\<close>

datatype config_error = Required string | IdleTimeoutNotPositive int | ConfigUndecodable

definition validate :: "daemonProcessConfig \<Rightarrow> config_error option" where
  "validate c =
     (if trim_space (dc_WorkspaceRoot c) = [] then Some (Required ''workspace root'')
      else if trim_space (dc_Language c) = [] then Some (Required ''language'')
      else if trim_space (dc_StateKey c) = [] then Some (Required ''state key'')
      else if trim_space (dc_StatePath c) = [] then Some (Required ''state path'')
      else if trim_space (dc_SocketPath c) = [] then Some (Required ''socket path'')
      else if trim_space (dc_Binary c) = [] then Some (Required ''language-server binary'')
      else if dc_IdleTimeoutNS c \<le> 0 then Some (IdleTimeoutNotPositive (dc_IdleTimeoutNS c))
      else case dc_JavaGradleBuildBaseline c of
             None \<Rightarrow> None
           | Some b \<Rightarrow>
               if trim_space (gb_Fingerprint b) = [] then Some (Required ''java gradle build baseline fingerprint'') else None)"

text \<open>\<open>decode\<close> is base64 followed by JSON.\<close>

definition decodeDaemonProcessConfig ::
  "(string \<Rightarrow> daemonProcessConfig option) \<Rightarrow> string \<Rightarrow> config_error + daemonProcessConfig" where
  "decodeDaemonProcessConfig decode raw =
     (if trim_space raw = [] then Inl (Required ''config payload'')
      else case decode raw of
             None \<Rightarrow> Inl ConfigUndecodable
           | Some c \<Rightarrow> (case validate c of Some err \<Rightarrow> Inl err | None \<Rightarrow> Inr c))"

section \<open>Environments\<close>

definition env_name :: "string \<Rightarrow> string" where
  "env_name entry = takeWhile (\<lambda>c. c \<noteq> CHR ''='') entry"

text \<open>The name and the text of an override, unless it has no equals sign or no name.\<close>

definition env_override :: "string \<Rightarrow> (string \<times> string) option" where
  "env_override entry0 =
     (let entry = trim_space entry0; name = trim_space (env_name entry)
      in if CHR ''='' \<notin> set entry \<or> name = [] then None
         else Some (name, name @ ''='' @ trim_prefix entry (name @ ''='')))"

definition normalizeEnvOverrides :: "string list \<Rightarrow> string list" where
  "normalizeEnvOverrides env =
     (let entries = List.map_filter env_override env;
          byName = fold (\<lambda>(n, v) m. m(n \<mapsto> v)) entries Map.empty
      in map (\<lambda>n. the (byName n)) (sort (remdups (map fst entries))))"

definition overridden :: "string list \<Rightarrow> string \<Rightarrow> bool" where
  "overridden overrides entry =
     (CHR ''='' \<in> set entry \<and> env_name entry \<in> set (map env_name (filter (\<lambda>e. CHR ''='' \<in> set e) overrides)))"

definition mergeEnvOverrides :: "string list \<Rightarrow> string list \<Rightarrow> string list" where
  "mergeEnvOverrides base_env overrides =
     (let normalized = normalizeEnvOverrides overrides
      in if normalized = [] then base_env
         else filter (\<lambda>e. \<not> overridden normalized e) base_env @ normalized)"

definition daemonModeEnvVar :: string where "daemonModeEnvVar = ''CODESIGHT_LSP_INTERNAL_DAEMON_MODE''"
definition daemonConfigEnvVar :: string where "daemonConfigEnvVar = ''CODESIGHT_LSP_INTERNAL_DAEMON_CONFIG''"

definition scrubInternalDaemonEnv :: "string list \<Rightarrow> string list" where
  "scrubInternalDaemonEnv env =
     filter (\<lambda>e. \<not> has_prefix e (daemonModeEnvVar @ ''='') \<and> \<not> has_prefix e (daemonConfigEnvVar @ ''='')) env"

section \<open>Names of files\<close>

definition lifecycleStateFileExtension :: string where "lifecycleStateFileExtension = ''.json''"
definition lifecycleSocketFileExtension :: string where "lifecycleSocketFileExtension = ''.sock''"
definition javaGradleBaselineExtension :: string where "javaGradleBaselineExtension = ''.java-gradle.json''"
definition daemonLogFileExtension :: string where "daemonLogFileExtension = ''.log''"

definition stateKeyFromStatePath :: "string \<Rightarrow> string" where
  "stateKeyFromStatePath path = (let filename = path_base path in trim_suffix filename (path_ext filename))"

definition socketPathForState :: "string \<Rightarrow> string \<Rightarrow> string" where
  "socketPathForState statePath stateKey =
     (let key = (if trim_space stateKey = [] then stateKeyFromStatePath statePath else trim_space stateKey)
      in path_join [path_dir statePath, key @ lifecycleSocketFileExtension])"

definition normalizeStateKey :: "string \<Rightarrow> string \<Rightarrow> string" where
  "normalizeStateKey statePath persistedStateKey =
     (let stateKey = trim_space (stateKeyFromStatePath statePath)
      in if stateKey \<noteq> [] then stateKey else trim_space persistedStateKey)"

definition hex_byte :: "char \<Rightarrow> string" where
  "hex_byte c = map (\<lambda>n. char_of (if n < 10 then 48 + n else 87 + n)) [byte_of c div 16, byte_of c mod 16]"

text \<open>\<open>sha256\<close> gives the 32 bytes of the sum.\<close>

definition StateKey :: "(string \<Rightarrow> string) \<Rightarrow> string \<Rightarrow> string \<Rightarrow> string" where
  "StateKey sha256 workspaceRoot language =
     concat (map hex_byte
       (take 8 (sha256 (path_clean (trim_space workspaceRoot) @ [CHR 0x00] @ normalizeLanguage language))))"

section \<open>State files\<close>

text \<open>What a file holds: a state, a baseline, or something that is no JSON object of these shapes.\<close>

datatype state_file = StateDoc lifecycleState | BaselineDoc JavaGradleBuildBaseline | Unreadable

text \<open>Fields that an object does not have keep their zero value.\<close>

definition zero_state :: lifecycleState where
  "zero_state =
     \<lparr>st_WorkspaceRoot = [], st_Language = [], st_StateKey = [], st_SocketPath = [], st_PID = 0, st_Binary = [],
      st_Args = [], st_ServerEnv = [], st_DaemonProcessStartID = [], st_StartedUnixNano = 0, st_LastUsedUnixNano = 0,
      st_JavaGradleBuildBaseline = None\<rparr>"

definition decode_state :: "state_file \<Rightarrow> lifecycleState option" where
  "decode_state f = (case f of StateDoc s \<Rightarrow> Some s | BaselineDoc b \<Rightarrow> Some zero_state | Unreadable \<Rightarrow> None)"

definition decode_baseline :: "state_file \<Rightarrow> JavaGradleBuildBaseline option" where
  "decode_baseline f =
     (case f of StateDoc s \<Rightarrow> Some \<lparr>gb_Fingerprint = [], gb_Files = []\<rparr> | BaselineDoc b \<Rightarrow> Some b | Unreadable \<Rightarrow> None)"

text \<open>Files with the same path stay in the order of the list; the code leaves that open.\<close>

definition normalizeJavaGradleBuildBaseline :: "JavaGradleBuildBaseline \<Rightarrow> JavaGradleBuildBaseline" where
  "normalizeJavaGradleBuildBaseline b =
     \<lparr>gb_Fingerprint = trim_space (gb_Fingerprint b),
      gb_Files = sort_key gf_Path
        (map (\<lambda>f. f\<lparr>gf_Path := trim_space (gf_Path f), gf_ContentSHA256 := trim_space (gf_ContentSHA256 f)\<rparr>) (gb_Files b))\<rparr>"

definition normalize_state :: "string \<Rightarrow> lifecycleState \<Rightarrow> lifecycleState" where
  "normalize_state path s =
     (let key = normalizeStateKey path (st_StateKey s)
      in s\<lparr>st_StateKey := key, st_SocketPath := socketPathForState path key,
           st_ServerEnv := normalizeEnvOverrides (st_ServerEnv s),
           st_DaemonProcessStartID := trim_space (st_DaemonProcessStartID s),
           st_JavaGradleBuildBaseline := map_option normalizeJavaGradleBuildBaseline (st_JavaGradleBuildBaseline s)\<rparr>)"

type_synonym state_files = "string \<rightharpoonup> state_file"

datatype state_read_error = NotExist | Undecodable

definition readStateFile :: "state_files \<Rightarrow> string \<Rightarrow> state_read_error + lifecycleState" where
  "readStateFile files path =
     (case files path of
        None \<Rightarrow> Inl NotExist
      | Some f \<Rightarrow>
          (case decode_state f of None \<Rightarrow> Inl Undecodable | Some s \<Rightarrow> Inr (normalize_state path s)))"

text \<open>The file is written to a temporary file and renamed; \<open>write_ok\<close> says whether all of that succeeds.\<close>

definition writeStateFile :: "bool \<Rightarrow> string \<Rightarrow> lifecycleState \<Rightarrow> state_files \<Rightarrow> bool \<times> state_files" where
  "writeStateFile write_ok path s files =
     (if write_ok then (True, files(path \<mapsto> StateDoc (normalize_state path s))) else (False, files))"

text \<open>The state file, the socket, the log and the baseline; that a file is missing is no error.\<close>

definition removeStateArtifacts :: "string \<Rightarrow> string \<Rightarrow> state_files \<Rightarrow> state_files" where
  "removeStateArtifacts statePath socketPath files =
     (let artifactBase = trim_suffix statePath lifecycleStateFileExtension;
          gone = [statePath] @ (if trim_space socketPath \<noteq> [] then [socketPath] else []) @
            [artifactBase @ daemonLogFileExtension, artifactBase @ javaGradleBaselineExtension]
      in (\<lambda>p. if p \<in> set gone then None else files p))"

section \<open>Baselines\<close>

definition ReadJavaGradleBuildBaseline :: "state_files \<Rightarrow> string \<Rightarrow> string \<Rightarrow> state_read_error + JavaGradleBuildBaseline" where
  "ReadJavaGradleBuildBaseline files statePath baselinePath =
     (let from_file =
        (case files baselinePath of
           None \<Rightarrow> Inl NotExist
         | Some f \<Rightarrow>
             (case decode_baseline f of None \<Rightarrow> Inl Undecodable | Some b \<Rightarrow> Inr (normalizeJavaGradleBuildBaseline b)))
      in case readStateFile files statePath of
           Inr s \<Rightarrow>
             (case st_JavaGradleBuildBaseline s of
                Some b \<Rightarrow> Inr (normalizeJavaGradleBuildBaseline b) | None \<Rightarrow> from_file)
         | Inl NotExist \<Rightarrow> from_file
         | Inl Undecodable \<Rightarrow> Inl Undecodable)"

datatype baseline_error = FingerprintRequired | BaselineWriteFailed | StateUpdateFailed

definition WriteJavaGradleBuildBaseline ::
  "bool \<Rightarrow> bool \<Rightarrow> string \<Rightarrow> string \<Rightarrow> JavaGradleBuildBaseline \<Rightarrow> state_files \<Rightarrow> baseline_error option \<times> state_files" where
  "WriteJavaGradleBuildBaseline write_ok state_ok statePath baselinePath b files =
     (let normalized = normalizeJavaGradleBuildBaseline b
      in if gb_Fingerprint normalized = [] then (Some FingerprintRequired, files)
         else if \<not> write_ok then (Some BaselineWriteFailed, files)
         else let files1 = files(baselinePath \<mapsto> BaselineDoc normalized)
              in case readStateFile files1 statePath of
                   Inr s \<Rightarrow>
                     (case writeStateFile state_ok statePath (s\<lparr>st_JavaGradleBuildBaseline := Some normalized\<rparr>) files1 of
                        (True, files2) \<Rightarrow> (None, files2) | (False, files2) \<Rightarrow> (Some StateUpdateFailed, files2))
                 | Inl NotExist \<Rightarrow> (None, files1)
                 | Inl Undecodable \<Rightarrow> (Some StateUpdateFailed, files1))"

section \<open>The identity of a process\<close>

text \<open>What the system knows of a process: nothing, no identities at all, or when it was started.\<close>

datatype start_id = NoProcess | IdentityUnsupported | StartID string

text \<open>On Linux the identity is the field with the start time in \<open>/proc/PID/stat\<close>, after the command in parentheses.\<close>

definition linux_processStartID :: "(string \<Rightarrow> string option) \<Rightarrow> int \<Rightarrow> start_id" where
  "linux_processStartID read_file pid =
     (if pid \<le> 0 then NoProcess
      else case read_file (path_join [''/proc'', int_str pid, ''stat'']) of
             None \<Rightarrow> NoProcess
           | Some content \<Rightarrow>
               let raw = trim_space content; after_comm = rev (takeWhile (\<lambda>c. c \<noteq> CHR '')'') (rev raw))
               in if CHR '')'' \<notin> set raw \<or> \<not> has_prefix after_comm '' '' then NoProcess
                  else let fields = str_fields (tl after_comm)
                       in if length fields \<le> 19 then NoProcess else StartID (fields ! 19))"

definition hasStrongProcessIdentity :: "lifecycleState \<Rightarrow> bool" where
  "hasStrongProcessIdentity s = (trim_space (st_DaemonProcessStartID s) \<noteq> [])"

definition processMatchesState :: "(int \<Rightarrow> start_id) \<Rightarrow> lifecycleState \<Rightarrow> bool" where
  "processMatchesState processStartID s =
     (let expected = trim_space (st_DaemonProcessStartID s)
      in st_PID s > 0 \<and> expected \<noteq> [] \<and> processStartID (st_PID s) = StartID expected)"

text \<open>\<open>None\<close> is an error.\<close>

definition refreshProcessStartID :: "(int \<Rightarrow> start_id) \<Rightarrow> lifecycleState \<Rightarrow> lifecycleState option" where
  "refreshProcessStartID processStartID s =
     (if st_PID s \<le> 0 then Some s
      else case processStartID (st_PID s) of
             NoProcess \<Rightarrow> None
           | IdentityUnsupported \<Rightarrow> Some s
           | StartID i \<Rightarrow> Some (s\<lparr>st_DaemonProcessStartID := i\<rparr>))"

section \<open>Environments, once more\<close>

lemma env_override_examples:
  "env_override '' A=1 '' = Some (''A'', ''A=1'') \<and> env_override ''A'' = None \<and> env_override ''=1'' = None"
  by code_simp

text \<open>A space before the equals sign makes the whole entry the value.\<close>

lemma env_override_space: "normalizeEnvOverrides [''A =1''] = [''A=A =1'']"
  by code_simp

text \<open>
  Normalizing is done when a state is written and again when it is read; the second time changes
  nothing. A string is trimmed if no space is at either end of it.
\<close>

definition trimmed :: "string \<Rightarrow> bool" where
  "trimmed s \<longleftrightarrow> (\<forall>p \<in> set space_runes. \<not> has_prefix s p \<and> \<not> has_suffix s p)"

lemma space_runes_equals: "p \<in> set space_runes \<Longrightarrow> CHR ''='' \<notin> set p"
  by (auto simp: space_runes_def)

lemma trimmed_id: "trimmed s \<Longrightarrow> trim_space s = s"
  by (simp add: trim_space_def trim_by_id trimmed_def has_suffix_def)

lemma trimmed_trim_space: "trimmed (trim_space s)"
proof -
  let ?l = "trim_by space_runes s"
  have "suffix (trim_by (map rev space_runes) (rev ?l)) (rev ?l)" by (rule trim_by_suffix)
  then obtain u where u: "?l = trim_space s @ u"
    by (metis prefix_def rev_rev_ident suffix_to_prefix trim_space_def)
  have "\<not> has_prefix (trim_space s) p" if "p \<in> set space_runes" for p
    using trim_by_stuck [OF that space_runes_nonempty [OF that], of s] unfolding u by (auto simp: has_prefix_iff)
  then show ?thesis by (simp add: trimmed_def trim_space_end space_runes_nonempty)
qed

lemma trimmed_assignment:
  assumes "trimmed n" "n \<noteq> []" "trimmed e" "CHR ''='' \<in> set e"
  shows "trimmed (n @ ''='' @ e)"
  unfolding trimmed_def
proof (intro ballI conjI)
  fix p assume p: "p \<in> set space_runes"
  show "\<not> has_prefix (n @ ''='' @ e) p"
  proof
    assume "has_prefix (n @ ''='' @ e) p"
    then consider "has_prefix n p" | "CHR ''='' \<in> set p"
      by (auto simp: has_prefix_iff append_eq_append_conv2 Cons_eq_append_conv)
    then show False using assms(1) p space_runes_equals by cases (auto simp: trimmed_def)
  qed
  show "\<not> has_suffix (n @ ''='' @ e) p"
  proof
    assume "has_suffix (n @ ''='' @ e) p"
    then have "suffix p ((n @ ''='') @ e)" by (simp add: has_suffix_iff suffix_def)
    moreover have "suffix e ((n @ ''='') @ e)" by (simp add: suffix_def)
    ultimately have "suffix p e \<or> suffix e p" by (rule suffix_same_cases)
    moreover have "\<not> suffix p e"
      using assms(3) p by (auto simp: trimmed_def has_suffix_iff suffix_def)
    ultimately show False using space_runes_equals [OF p] assms(4) set_mono_suffix [of e p] by blast
  qed
qed

lemma env_override_again:
  assumes "env_override entry = Some (n, v)"
  shows "env_override v = Some (n, v)"
proof -
  let ?e = "trim_space entry" and ?eq = "CHR ''=''"
  have e: "?eq \<in> set ?e" "n = trim_space (env_name ?e)" "n \<noteq> []" "v = n @ ''='' @ trim_prefix ?e (n @ ''='')"
    using assms by (auto simp: env_override_def Let_def split: if_splits)
  have free: "?eq \<notin> set n"
    using set_trim_space [of "env_name ?e"] unfolding e(2) by (auto simp: env_name_def dest: set_takeWhileD)
  have "trimmed v"
  proof (cases "has_prefix ?e (n @ ''='')")
    case True
    then have "v = ?e" using e(4) by (auto simp: trim_prefix_def has_prefix_iff)
    then show ?thesis by (simp add: trimmed_trim_space)
  next
    case False
    then have "v = n @ ''='' @ ?e" using e(4) by (simp add: trim_prefix_def)
    then show ?thesis using trimmed_assignment [of n ?e] trimmed_trim_space e by metis
  qed
  moreover have "env_name v = n" "trim_space n = n"
    using free unfolding e(4) by (simp_all add: env_name_def takeWhile_append) (simp add: e(2))
  ultimately show ?thesis
    using e(3) by (simp add: env_override_def Let_def trimmed_id) (simp add: e(4) trim_prefix_def has_prefix_iff)
qed

lemma fold_updates: "fold (\<lambda>(n, v) m. m(n \<mapsto> v)) xs m = m ++ map_of (rev xs)"
  by (induction xs arbitrary: m) (auto simp: map_add_assoc [symmetric] split: prod.splits)

lemma normalizeEnvOverrides_map_of:
  "normalizeEnvOverrides env =
    (let entries = List.map_filter env_override env
     in map (\<lambda>n. the (map_of (rev entries) n)) (sort (remdups (map fst entries))))"
  by (simp add: normalizeEnvOverrides_def fold_updates Let_def)

text \<open>Every entry of the result is an override of its own, in the order of the names.\<close>

lemma normalizeEnvOverrides_idem [simp]: "normalizeEnvOverrides (normalizeEnvOverrides env) = normalizeEnvOverrides env"
proof -
  let ?es = "List.map_filter env_override env"
  let ?ns = "sort (remdups (map fst ?es))" and ?v = "\<lambda>n. the (map_of (rev ?es) n)"
  have v: "env_override (?v n) = Some (n, ?v n)" if "n \<in> set ?ns" for n
  proof -
    obtain v where v: "map_of (rev ?es) n = Some v"
      using \<open>n \<in> set ?ns\<close> by (cases "map_of (rev ?es) n") (auto simp: map_of_eq_None_iff)
    then have "(n, v) \<in> set ?es" by (auto dest: map_of_SomeD)
    then show ?thesis using v env_override_again by (auto simp: List.map_filter_def)
  qed
  have out: "normalizeEnvOverrides env = map ?v ?ns" by (simp add: normalizeEnvOverrides_map_of Let_def)
  have es: "List.map_filter env_override (map ?v ns) = map (\<lambda>n. (n, ?v n)) ns" if "set ns \<subseteq> set ?ns" for ns
    using that by (induction ns) (simp_all add: v)
  have "map_of (rev (map (\<lambda>n. (n, ?v n)) ?ns)) n = Some (?v n)" if "n \<in> set ?ns" for n
    using that by (intro map_of_is_SomeI) (auto simp: comp_def rev_map [symmetric])
  then show ?thesis unfolding out
    by (subst normalizeEnvOverrides_map_of) (simp add: es Let_def comp_def sorted_sort_id distinct_remdups_id)
qed

lemma normalizeJavaGradleBuildBaseline_idem [simp]:
  "normalizeJavaGradleBuildBaseline (normalizeJavaGradleBuildBaseline b) = normalizeJavaGradleBuildBaseline b"
proof -
  let ?f = "\<lambda>f. f\<lparr>gf_Path := trim_space (gf_Path f), gf_ContentSHA256 := trim_space (gf_ContentSHA256 f)\<rparr>"
  let ?fs = "sort_key gf_Path (map ?f (gb_Files b))"
  have "map ?f ?fs = ?fs" by (intro map_idI) auto
  then show ?thesis by (simp add: normalizeJavaGradleBuildBaseline_def sort_key_id_if_sorted)
qed

lemma normalize_state_idem [simp]: "normalize_state path (normalize_state path s) = normalize_state path s"
proof -
  have "map_option normalizeJavaGradleBuildBaseline (map_option normalizeJavaGradleBuildBaseline b) =
      map_option normalizeJavaGradleBuildBaseline b" for b
    by (cases b) simp_all
  moreover have "normalizeStateKey path (normalizeStateKey path k) = normalizeStateKey path k" for k
    by (simp add: normalizeStateKey_def Let_def)
  ultimately show ?thesis by (simp add: normalize_state_def Let_def)
qed

text \<open>What is written is read.\<close>

lemma read_written: "readStateFile (files(path \<mapsto> StateDoc (normalize_state path s))) path = Inr (normalize_state path s)"
  by (simp add: readStateFile_def decode_state_def)

lemma read_normalized: "readStateFile files path = Inr s \<Longrightarrow> normalize_state path s = s"
  by (auto simp: readStateFile_def split: option.splits)

end
