(* ===== verification/LspLifecycle.thy ===== *)
theory LspLifecycle
  imports LspState
begin

text \<open>
  \<open>pkg/lsp/lifecycle.go\<close>: which daemon serves a workspace and a language. The model threads the files
  of the state directory and a log of what is done to processes; what the system reports of
  processes, sockets and the clock while an operation runs is an argument. One operation holds the
  lock of its state key from reading the state to writing it, so that it is one step here.
\<close>

section \<open>The surroundings\<close>

datatype action = ShutdownSocket string | KillGroup int | Launch daemonProcessConfig

record lsp_world =
  lw_files :: state_files
  lw_log :: "action list"

text \<open>
  \<open>lv_launch\<close> is the process id and the start identity of a daemon that was started and got ready;
  \<open>lv_readDir\<close> lists the entries of a directory with a flag for directories; \<open>lv_done_at\<close> says whether the
  context is done when the loop over them gets to an entry.
\<close>

record lifecycle_env =
  lv_cwd :: string
  lv_stateDirVar :: string
  lv_home :: "string option"
  lv_sha256 :: "string \<Rightarrow> string"
  lv_now :: int
  lv_cancelled :: bool
  lv_cancelled_later :: bool
  lv_done_at :: "string \<Rightarrow> bool"
  lv_alive :: "int \<Rightarrow> bool"
  lv_startID :: "int \<Rightarrow> start_id"
  lv_healthy :: "string \<Rightarrow> bool"
  lv_lookPath :: "string \<Rightarrow> bool"
  lv_launch :: "daemonProcessConfig \<Rightarrow> (int \<times> string) option"
  lv_kill_ok :: "int \<Rightarrow> bool"
  lv_pid :: int
  lv_pgrp :: int
  lv_mkdir_ok :: "string \<Rightarrow> bool"
  lv_write_ok :: bool
  lv_readDir :: "string \<Rightarrow> (string \<times> bool) list option"

record Lifecycle =
  lf_registry :: registry_entries
  lf_idleTimeout :: int
  lf_stateDirResolver :: "string option"
  lf_serverEnvResolver :: "(ServerSpec \<Rightarrow> string list) option"

record Lease =
  ls_WorkspaceRoot :: string
  ls_Language :: string
  ls_StateKey :: string
  ls_SocketPath :: string
  ls_PID :: int
  ls_Binary :: string
  ls_Args :: "string list"
  ls_Reused :: bool

datatype lifecycle_error =
    ContextDone | RootRequired | RegistryError registry_error | NoStateDir | EmptyStateDir | MkdirFailed
  | WriteStateFailed | ServerMissing string string | LaunchFailed | IdentityFailed | KillFailed | NoHome

definition DefaultIdleTimeout :: int where "DefaultIdleTimeout = 10 * 60 * 1000000000"

text \<open>The options of the constructor, and the constructor.\<close>

definition WithIdleTimeout :: "int \<Rightarrow> Lifecycle \<Rightarrow> Lifecycle" where
  "WithIdleTimeout timeout l = (if timeout > 0 then l\<lparr>lf_idleTimeout := timeout\<rparr> else l)"

definition WithStateDirResolver :: "string option \<Rightarrow> Lifecycle \<Rightarrow> Lifecycle" where
  "WithStateDirResolver resolver l = (if resolver = None then l else l\<lparr>lf_stateDirResolver := resolver\<rparr>)"

definition WithServerEnvResolver :: "(ServerSpec \<Rightarrow> string list) option \<Rightarrow> Lifecycle \<Rightarrow> Lifecycle" where
  "WithServerEnvResolver resolver l = (if resolver = None then l else l\<lparr>lf_serverEnvResolver := resolver\<rparr>)"

definition NewLifecycle :: "registry_entries option \<Rightarrow> (Lifecycle \<Rightarrow> Lifecycle) list \<Rightarrow> Lifecycle" where
  "NewLifecycle registry opts =
     fold (\<lambda>opt. opt) opts
       \<lparr>lf_registry = (case registry of None \<Rightarrow> NewRegistry [] | Some r \<Rightarrow> r), lf_idleTimeout = DefaultIdleTimeout,
        lf_stateDirResolver = None, lf_serverEnvResolver = None\<rparr>"

section \<open>Paths\<close>

definition ResolveStateDir :: "lifecycle_env \<Rightarrow> lifecycle_error + string" where
  "ResolveStateDir env =
     (let explicit = trim_space (lv_stateDirVar env)
      in if explicit \<noteq> [] then Inr (path_clean (path_abs (lv_cwd env) explicit))
         else case lv_home env of None \<Rightarrow> Inl NoHome | Some home \<Rightarrow> Inr (path_join [home, ''.codesight'']))"

definition canonicalWorkspaceRoot :: "string \<Rightarrow> string \<Rightarrow> lifecycle_error + string" where
  "canonicalWorkspaceRoot cwd workspaceRoot =
     (let trimmed = trim_space workspaceRoot
      in if trimmed = [] then Inl RootRequired else Inr (path_clean (path_abs cwd trimmed)))"

text \<open>A lifecycle whose resolver is not replaced takes the state directory from the environment.\<close>

definition stateRoot :: "lifecycle_env \<Rightarrow> Lifecycle \<Rightarrow> lifecycle_error + string" where
  "stateRoot env l =
     (case (case lf_stateDirResolver l of Some d \<Rightarrow> Inr d | None \<Rightarrow> ResolveStateDir env) of
        Inl err \<Rightarrow> Inl err
      | Inr stateDir \<Rightarrow>
          if trim_space stateDir = [] then Inl EmptyStateDir
          else let r = path_join [stateDir, ''lsp''] in if lv_mkdir_ok env r then Inr r else Inl MkdirFailed)"

definition statePathForKey :: "lifecycle_env \<Rightarrow> Lifecycle \<Rightarrow> string \<Rightarrow> lifecycle_error + string" where
  "statePathForKey env l stateKey =
     (case stateRoot env l of
        Inl err \<Rightarrow> Inl err | Inr r \<Rightarrow> Inr (path_join [r, stateKey @ lifecycleStateFileExtension]))"

definition isIdle :: "Lifecycle \<Rightarrow> lifecycleState \<Rightarrow> int \<Rightarrow> bool" where
  "isIdle l s now =
     (let reference = (if st_LastUsedUnixNano s \<noteq> 0 then st_LastUsedUnixNano s else st_StartedUnixNano s)
      in lf_idleTimeout l > 0 \<and> reference \<noteq> 0 \<and> now - reference \<ge> lf_idleTimeout l)"

definition serverEnv :: "Lifecycle \<Rightarrow> ServerSpec \<Rightarrow> string list" where
  "serverEnv l spec = (case lf_serverEnvResolver l of None \<Rightarrow> [] | Some f \<Rightarrow> normalizeEnvOverrides (f spec))"

definition leaseFromState :: "lifecycleState \<Rightarrow> bool \<Rightarrow> Lease" where
  "leaseFromState s reused =
     \<lparr>ls_WorkspaceRoot = st_WorkspaceRoot s, ls_Language = st_Language s, ls_StateKey = st_StateKey s,
      ls_SocketPath = st_SocketPath s, ls_PID = st_PID s, ls_Binary = st_Binary s, ls_Args = st_Args s, ls_Reused = reused\<rparr>"

section \<open>Stopping\<close>

definition log_action :: "action \<Rightarrow> lsp_world \<Rightarrow> lsp_world" where
  "log_action a w = w\<lparr>lw_log := lw_log w @ [a]\<rparr>"

text \<open>
  \<open>killProcessGroup\<close>: never the init process, the own process or the own group. The result says
  whether there was an error.
\<close>

definition killProcessGroup :: "lifecycle_env \<Rightarrow> int \<Rightarrow> lsp_world \<Rightarrow> bool \<times> lsp_world" where
  "killProcessGroup env pid w =
     (if pid \<le> 1 \<or> pid = lv_pid env \<or> lv_pgrp env = pid then (False, w)
      else (\<not> lv_kill_ok env pid, log_action (KillGroup pid) w))"

definition stopStateProcess :: "lifecycle_env \<Rightarrow> string \<Rightarrow> lifecycleState \<Rightarrow> lsp_world \<Rightarrow> lifecycle_error option \<times> lsp_world" where
  "stopStateProcess env statePath s w =
     (let socketPath = socketPathForState statePath (st_StateKey s);
          w1 = log_action (ShutdownSocket socketPath) w;
          (failed, w2) =
            (if hasStrongProcessIdentity s \<and> lv_alive env (st_PID s) \<and> processMatchesState (lv_startID env) s
             then killProcessGroup env (st_PID s) w1 else (False, w1))
      in (if failed then Some KillFailed else None,
          w2\<lparr>lw_files := removeStateArtifacts statePath socketPath (lw_files w2)\<rparr>))"

definition clear_artifacts :: "string \<Rightarrow> string \<Rightarrow> lsp_world \<Rightarrow> lsp_world" where
  "clear_artifacts statePath socketPath w = w\<lparr>lw_files := removeStateArtifacts statePath socketPath (lw_files w)\<rparr>"

text \<open>What \<open>Stop\<close> and \<open>StopByKey\<close> do for a state key.\<close>

definition stop_state :: "lifecycle_env \<Rightarrow> string \<Rightarrow> string \<Rightarrow> lsp_world \<Rightarrow> lifecycle_error option \<times> lsp_world" where
  "stop_state env stateKey statePath w =
     (case readStateFile (lw_files w) statePath of
        Inl NotExist \<Rightarrow> (None, w)
      | Inl Undecodable \<Rightarrow> (None, clear_artifacts statePath (socketPathForState statePath stateKey) w)
      | Inr s \<Rightarrow> stopStateProcess env statePath s w)"

definition StopByKey :: "lifecycle_env \<Rightarrow> Lifecycle \<Rightarrow> string \<Rightarrow> lsp_world \<Rightarrow> lifecycle_error option \<times> lsp_world" where
  "StopByKey env l stateKey w =
     (case statePathForKey env l stateKey of
        Inl err \<Rightarrow> (Some err, w) | Inr statePath \<Rightarrow> stop_state env stateKey statePath w)"

definition Stop :: "lifecycle_env \<Rightarrow> Lifecycle \<Rightarrow> string \<Rightarrow> string \<Rightarrow> lsp_world \<Rightarrow> lifecycle_error option \<times> lsp_world" where
  "Stop env l workspaceRoot language w =
     (case canonicalWorkspaceRoot (lv_cwd env) workspaceRoot of
        Inl err \<Rightarrow> (Some err, w)
      | Inr canonicalRoot \<Rightarrow> StopByKey env l (StateKey (lv_sha256 env) canonicalRoot language) w)"

section \<open>Ensure\<close>

text \<open>
  A readable state: the lease if the daemon is used again, an error, or nothing when a new daemon is
  to be started after the old one was stopped or its files were removed.
\<close>

definition reuse_state ::
  "lifecycle_env \<Rightarrow> Lifecycle \<Rightarrow> ServerSpec \<Rightarrow> string \<Rightarrow> lifecycleState \<Rightarrow> lsp_world \<Rightarrow>
   (lifecycle_error + Lease) option \<times> lsp_world" where
  "reuse_state env l spec statePath s w =
     (let stop = (None, snd (stopStateProcess env statePath s w));
          clear = (None, clear_artifacts statePath (socketPathForState statePath (st_StateKey s)) w);
          used = (\<lambda>s. case writeStateFile (lv_write_ok env) statePath s (lw_files w) of
                        (True, files) \<Rightarrow> (Some (Inr (leaseFromState s True)), w\<lparr>lw_files := files\<rparr>)
                      | (False, files) \<Rightarrow> (Some (Inl WriteStateFailed), w));
          now_used = s\<lparr>st_LastUsedUnixNano := lv_now env\<rparr>
      in if st_ServerEnv s \<noteq> serverEnv l spec then stop
         else if st_Args s \<noteq> ss_Args spec then stop
         else if isIdle l s (lv_now env) then stop
         else if hasStrongProcessIdentity s
         then (if processMatchesState (lv_startID env) s
               then (if lv_healthy env (st_SocketPath s) then used now_used else stop)
               else clear)
         else if lv_alive env (st_PID s)
         then (if lv_healthy env (st_SocketPath s)
               then (case refreshProcessStartID (lv_startID env) now_used of
                       None \<Rightarrow> (Some (Inl IdentityFailed), w) | Some s' \<Rightarrow> used s')
               else clear)
         else clear)"

definition is_jdtls :: "ServerSpec \<Rightarrow> bool" where
  "is_jdtls spec = (trim_space (to_lower (ss_Binary spec)) = ''jdtls'')"

definition daemon_config ::
  "Lifecycle \<Rightarrow> ServerSpec \<Rightarrow> string \<Rightarrow> string \<Rightarrow> string \<Rightarrow> string \<Rightarrow> daemonProcessConfig" where
  "daemon_config l spec canonicalRoot stateKey statePath socketPath =
     \<lparr>dc_WorkspaceRoot = canonicalRoot, dc_Language = ss_Language spec, dc_StateKey = stateKey, dc_StatePath = statePath,
      dc_SocketPath = socketPath, dc_Binary = ss_Binary spec,
      dc_Args = ss_Args spec @ (if is_jdtls spec
        then [''-data'', path_join [path_dir statePath, ''jdtls-data-'' @ stateKey]] else []),
      dc_ServerEnv = serverEnv l spec, dc_IdleTimeoutNS = lf_idleTimeout l, dc_JavaGradleBuildBaseline = None\<rparr>"

definition started_state :: "lifecycle_env \<Rightarrow> Lifecycle \<Rightarrow> ServerSpec \<Rightarrow> daemonProcessConfig \<Rightarrow> int \<Rightarrow> string \<Rightarrow> lifecycleState" where
  "started_state env l spec c pid startID =
     \<lparr>st_WorkspaceRoot = dc_WorkspaceRoot c, st_Language = ss_Language spec, st_StateKey = dc_StateKey c,
      st_SocketPath = dc_SocketPath c, st_PID = pid, st_Binary = ss_Binary spec, st_Args = ss_Args spec,
      st_ServerEnv = serverEnv l spec, st_DaemonProcessStartID = trim_space startID, st_StartedUnixNano = lv_now env,
      st_LastUsedUnixNano = lv_now env, st_JavaGradleBuildBaseline = None\<rparr>"

definition start_daemon ::
  "lifecycle_env \<Rightarrow> Lifecycle \<Rightarrow> ServerSpec \<Rightarrow> string \<Rightarrow> string \<Rightarrow> string \<Rightarrow> string \<Rightarrow> lsp_world \<Rightarrow>
   (lifecycle_error + Lease) \<times> lsp_world" where
  "start_daemon env l spec canonicalRoot stateKey statePath socketPath w =
     (let c = daemon_config l spec canonicalRoot stateKey statePath socketPath
      in if lv_cancelled_later env then (Inl ContextDone, w)
         else if \<not> lv_lookPath env (ss_Binary spec) then (Inl (ServerMissing (ss_Binary spec) (ss_InstallHint spec)), w)
         else if is_jdtls spec \<and> \<not> lv_mkdir_ok env (path_join [path_dir statePath, ''jdtls-data-'' @ stateKey])
         then (Inl MkdirFailed, w)
         else if validate c \<noteq> None then (Inl LaunchFailed, w)
         else case lv_launch env c of
                None \<Rightarrow> (Inl LaunchFailed, log_action (Launch c) w)
              | Some (pid, startID) \<Rightarrow>
                  let s = started_state env l spec c pid startID; w1 = log_action (Launch c) w
                  in case writeStateFile (lv_write_ok env) statePath s (lw_files w1) of
                       (True, files) \<Rightarrow> (Inr (leaseFromState s False), w1\<lparr>lw_files := files\<rparr>)
                     | (False, files) \<Rightarrow> (Inl WriteStateFailed, snd (killProcessGroup env pid w1)))"

definition Ensure ::
  "lifecycle_env \<Rightarrow> Lifecycle \<Rightarrow> string \<Rightarrow> string \<Rightarrow> lsp_world \<Rightarrow> (lifecycle_error + Lease) \<times> lsp_world" where
  "Ensure env l workspaceRoot language w =
     (if lv_cancelled env then (Inl ContextDone, w)
      else case canonicalWorkspaceRoot (lv_cwd env) workspaceRoot of
             Inl err \<Rightarrow> (Inl err, w)
           | Inr canonicalRoot \<Rightarrow>
               (case registry_Lookup default_languages (Some (lf_registry l)) language of
                  Inl err \<Rightarrow> (Inl (RegistryError err), w)
                | Inr spec \<Rightarrow>
                    let stateKey = StateKey (lv_sha256 env) canonicalRoot (ss_Language spec)
                    in case statePathForKey env l stateKey of
                         Inl err \<Rightarrow> (Inl err, w)
                       | Inr statePath \<Rightarrow>
                           let socketPath = socketPathForState statePath stateKey
                           in case (case readStateFile (lw_files w) statePath of
                                      Inr s \<Rightarrow> reuse_state env l spec statePath s w
                                    | Inl NotExist \<Rightarrow> (None, w)
                                    | Inl Undecodable \<Rightarrow> (None, clear_artifacts statePath socketPath w)) of
                                (Some r, w1) \<Rightarrow> (r, w1)
                              | (None, w1) \<Rightarrow> start_daemon env l spec canonicalRoot stateKey statePath socketPath w1))"

section \<open>The operations on all state files\<close>

text \<open>The entries that are looked at: files with the extension of state files.\<close>

definition is_state_entry :: "string \<times> bool \<Rightarrow> bool" where
  "is_state_entry e \<longleftrightarrow> \<not> snd e \<and> path_ext (fst e) = lifecycleStateFileExtension"

definition state_entries :: "(string \<times> bool) list \<Rightarrow> string list" where
  "state_entries entries = map fst (filter is_state_entry entries)"

definition daemon_running :: "lifecycle_env \<Rightarrow> lifecycleState \<Rightarrow> bool" where
  "daemon_running env s =
     (if hasStrongProcessIdentity s then processMatchesState (lv_startID env) s else lv_alive env (st_PID s))"

record DaemonStatus =
  ds_WorkspaceRoot :: string
  ds_Language :: string
  ds_StateKey :: string
  ds_PID :: int
  ds_Binary :: string
  ds_Running :: bool
  ds_SocketHealthy :: bool
  ds_StartedAt :: "int option"
  ds_LastUsedAt :: "int option"
  ds_LogPath :: string

definition status_of :: "lifecycle_env \<Rightarrow> string \<Rightarrow> lifecycleState \<Rightarrow> DaemonStatus" where
  "status_of env statePath s =
     \<lparr>ds_WorkspaceRoot = st_WorkspaceRoot s, ds_Language = st_Language s, ds_StateKey = st_StateKey s, ds_PID = st_PID s,
      ds_Binary = st_Binary s, ds_Running = daemon_running env s,
      ds_SocketHealthy = (daemon_running env s \<and> lv_healthy env (st_SocketPath s)),
      ds_StartedAt = (if st_StartedUnixNano s \<noteq> 0 then Some (st_StartedUnixNano s) else None),
      ds_LastUsedAt = (if st_LastUsedUnixNano s \<noteq> 0 then Some (st_LastUsedUnixNano s) else None),
      ds_LogPath = trim_suffix statePath (path_ext statePath) @ daemonLogFileExtension\<rparr>"

definition Status :: "lifecycle_env \<Rightarrow> Lifecycle \<Rightarrow> string \<Rightarrow> lsp_world \<Rightarrow> lifecycle_error + DaemonStatus list" where
  "Status env l workspaceRoot w =
     (if lv_cancelled env then Inl ContextDone
      else case canonicalWorkspaceRoot (lv_cwd env) workspaceRoot of
             Inl err \<Rightarrow> Inl err
           | Inr canonicalRoot \<Rightarrow>
               (case stateRoot env l of
                  Inl err \<Rightarrow> Inl err
                | Inr state_root \<Rightarrow>
                    (case lv_readDir env state_root of
                       None \<Rightarrow> Inr []
                     | Some entries \<Rightarrow>
                         Inr (List.map_filter
                           (\<lambda>n. let statePath = path_join [state_root, n]
                                in case readStateFile (lw_files w) statePath of
                                     Inl err \<Rightarrow> None
                                   | Inr s \<Rightarrow>
                                       if st_WorkspaceRoot s \<noteq> canonicalRoot then None
                                       else Some (status_of env statePath s))
                           (state_entries entries)))))"

text \<open>The loop of \<open>Cleanup\<close>: the names of what was cleaned, in order. Removing files does not fail here.\<close>

fun cleanup_loop :: "lifecycle_env \<Rightarrow> string \<Rightarrow> string list \<Rightarrow> lsp_world \<Rightarrow> string list \<times> lsp_world" where
  "cleanup_loop env state_root [] w = ([], w)"
| "cleanup_loop env state_root (n # names) w =
     (let statePath = path_join [state_root, n]
      in case readStateFile (lw_files w) statePath of
           Inl err \<Rightarrow>
             (case cleanup_loop env state_root names (clear_artifacts statePath [] w) of (cleaned, w') \<Rightarrow> (n # cleaned, w'))
         | Inr s \<Rightarrow>
             if daemon_running env s then cleanup_loop env state_root names w
             else (case cleanup_loop env state_root names
                          (clear_artifacts statePath (socketPathForState statePath (st_StateKey s)) w) of
                     (cleaned, w') \<Rightarrow> (n # cleaned, w')))"

definition Cleanup :: "lifecycle_env \<Rightarrow> Lifecycle \<Rightarrow> lsp_world \<Rightarrow> (lifecycle_error + string list) \<times> lsp_world" where
  "Cleanup env l w =
     (case stateRoot env l of
        Inl err \<Rightarrow> (Inl err, w)
      | Inr state_root \<Rightarrow>
          (case lv_readDir env state_root of
             None \<Rightarrow> (Inr [], w)
           | Some entries \<Rightarrow>
               (case cleanup_loop env state_root (state_entries entries) w of (cleaned, w') \<Rightarrow> (Inr cleaned, w'))))"

text \<open>
  The loop of \<open>ShutdownIdle\<close>: the errors are collected, and dropped when the context is done before an
  entry is looked at.
\<close>

fun shutdown_loop ::
  "lifecycle_env \<Rightarrow> Lifecycle \<Rightarrow> string \<Rightarrow> (string \<times> bool) list \<Rightarrow> lsp_world \<Rightarrow>
   (lifecycle_error + lifecycle_error list) \<times> lsp_world" where
  "shutdown_loop env l state_root [] w = (Inr [], w)"
| "shutdown_loop env l state_root (e # entries) w =
     (let n = fst e; statePath = path_join [state_root, n]; stateKey = trim_suffix n (path_ext n)
      in if lv_done_at env n then (Inl ContextDone, w)
         else if \<not> is_state_entry e then shutdown_loop env l state_root entries w
         else case readStateFile (lw_files w) statePath of
                Inl err \<Rightarrow>
                  shutdown_loop env l state_root entries (clear_artifacts statePath (socketPathForState statePath stateKey) w)
              | Inr s \<Rightarrow>
                  if \<not> isIdle l s (lv_now env) then shutdown_loop env l state_root entries w
                  else (case stopStateProcess env statePath s w of
                          (e, w1) \<Rightarrow>
                            (case shutdown_loop env l state_root entries w1 of
                               (Inl err, w2) \<Rightarrow> (Inl err, w2)
                             | (Inr errs, w2) \<Rightarrow> (Inr ((case e of None \<Rightarrow> [] | Some err \<Rightarrow> [err]) @ errs), w2))))"

definition ShutdownIdle :: "lifecycle_env \<Rightarrow> Lifecycle \<Rightarrow> lsp_world \<Rightarrow> (lifecycle_error + lifecycle_error list) \<times> lsp_world" where
  "ShutdownIdle env l w =
     (if lv_cancelled env then (Inl ContextDone, w)
      else case stateRoot env l of
             Inl err \<Rightarrow> (Inl err, w)
           | Inr state_root \<Rightarrow>
               (case lv_readDir env state_root of
                  None \<Rightarrow> (Inr [], w)
                | Some entries \<Rightarrow> shutdown_loop env l state_root entries w))"

text \<open>The files of the baseline of a Java workspace: that of the daemon's state and its own.\<close>

definition javaGradleBaselinePaths :: "lifecycle_env \<Rightarrow> string \<Rightarrow> lifecycle_error + (string \<times> string)" where
  "javaGradleBaselinePaths env workspaceRoot =
     (case canonicalWorkspaceRoot (lv_cwd env) workspaceRoot of
        Inl err \<Rightarrow> Inl err
      | Inr canonicalRoot \<Rightarrow>
          (case ResolveStateDir env of
             Inl err \<Rightarrow> Inl err
           | Inr stateDir \<Rightarrow>
               let state_root = path_join [stateDir, ''lsp'']; stateKey = StateKey (lv_sha256 env) canonicalRoot ''java''
               in if \<not> lv_mkdir_ok env state_root then Inl MkdirFailed
                  else Inr (path_join [state_root, stateKey @ lifecycleStateFileExtension],
                            path_join [state_root, stateKey @ javaGradleBaselineExtension])))"

section \<open>Which processes are killed\<close>

text \<open>The process is the one that a state file records, by its number and its start.\<close>

definition recorded_daemon :: "lifecycle_env \<Rightarrow> state_files \<Rightarrow> int \<Rightarrow> bool" where
  "recorded_daemon env files pid \<longleftrightarrow>
     1 < pid \<and> pid \<noteq> lv_pid env \<and> pid \<noteq> lv_pgrp env \<and>
     (\<exists>path s. readStateFile files path = Inr s \<and> st_PID s = pid \<and> processMatchesState (lv_startID env) s)"

definition launched_daemon :: "lifecycle_env \<Rightarrow> int \<Rightarrow> bool" where
  "launched_daemon env pid \<longleftrightarrow> (\<exists>c startID. lv_launch env c = Some (pid, startID))"

definition kill_justified :: "lifecycle_env \<Rightarrow> state_files \<Rightarrow> action \<Rightarrow> bool" where
  "kill_justified env files a \<longleftrightarrow>
     (case a of KillGroup pid \<Rightarrow> recorded_daemon env files pid \<or> launched_daemon env pid | _ \<Rightarrow> True)"

text \<open>An operation may remove files and act on justified processes.\<close>

definition careful :: "lifecycle_env \<Rightarrow> lsp_world \<Rightarrow> lsp_world \<Rightarrow> bool" where
  "careful env w w' \<longleftrightarrow>
     lw_files w' \<subseteq>\<^sub>m lw_files w \<and>
     (\<exists>acts. lw_log w' = lw_log w @ acts \<and> list_all (kill_justified env (lw_files w)) acts)"

lemma careful_refl [simp]: "careful env w w"
  by (simp add: careful_def)

lemma readStateFile_subset: "files' \<subseteq>\<^sub>m files \<Longrightarrow> readStateFile files' path = Inr s \<Longrightarrow> readStateFile files path = Inr s"
  by (auto simp: readStateFile_def map_le_def dom_def split: option.splits)

lemma kill_justified_subset: "files' \<subseteq>\<^sub>m files \<Longrightarrow> kill_justified env files' a \<Longrightarrow> kill_justified env files a"
  by (cases a) (auto simp: kill_justified_def recorded_daemon_def dest: readStateFile_subset)

lemma careful_trans: "careful env w w' \<Longrightarrow> careful env w' w'' \<Longrightarrow> careful env w w''"
  unfolding careful_def list_all_iff
  by (elim conjE exE, intro conjI, erule (1) map_le_trans) (auto dest: kill_justified_subset)

lemma careful_acts: "careful env w w' \<Longrightarrow> \<exists>acts. lw_log w' = lw_log w @ acts \<and> list_all (kill_justified env (lw_files w)) acts"
  by (simp add: careful_def)

lemma careful_clear [simp]: "careful env w (clear_artifacts statePath socketPath w)"
  by (auto simp: careful_def clear_artifacts_def removeStateArtifacts_def Let_def map_le_def)

lemma careful_stop:
  assumes "readStateFile (lw_files w) statePath = Inr s"
  shows "careful env w (snd (stopStateProcess env statePath s w))"
proof -
  have "removeStateArtifacts statePath p files \<subseteq>\<^sub>m files" for p files
    by (auto simp: removeStateArtifacts_def Let_def map_le_def)
  then show ?thesis
    using assms
    by (auto simp: careful_def stopStateProcess_def killProcessGroup_def log_action_def kill_justified_def
        recorded_daemon_def Let_def)
qed

lemma careful_stop_state: "careful env w (snd (stop_state env stateKey statePath w))"
  by (auto simp: stop_state_def careful_stop split: sum.splits state_read_error.splits)

lemma careful_cleanup: "careful env w (snd (cleanup_loop env state_root names w))"
proof (induction names arbitrary: w)
  case (Cons n names)
  note clear = careful_trans [OF careful_clear Cons.IH]
  show ?case by (simp add: Let_def case_prod_unfold clear Cons.IH split: sum.split)
qed simp

lemma careful_shutdown: "careful env w (snd (shutdown_loop env l state_root entries w))"
proof (induction entries arbitrary: w)
  case (Cons e entries)
  let ?path = "path_join [state_root, fst e]"
  show ?case
  proof (cases "readStateFile (lw_files w) ?path")
    case (Inl err)
    then show ?thesis by (simp add: Let_def Cons.IH careful_trans [OF careful_clear Cons.IH])
  next
    case (Inr s)
    obtain stopped w1 where stop: "stopStateProcess env ?path s w = (stopped, w1)" by fastforce
    obtain r w2 where rest: "shutdown_loop env l state_root entries w1 = (r, w2)" by fastforce
    have "careful env w w2"
      using careful_trans [OF careful_stop [OF Inr, of env] Cons.IH [of "snd (stopStateProcess env ?path s w)"]] stop rest
      by simp
    then show ?thesis using Inr stop rest by (cases r) (simp_all add: Let_def Cons.IH)
  qed
qed simp

text \<open>Writing a state leaves the log as it is; starting a daemon may kill the one it started.\<close>

lemma start_daemon_log:
  "\<exists>acts. lw_log (snd (start_daemon env l spec canonicalRoot stateKey statePath socketPath w)) = lw_log w @ acts \<and>
     list_all (kill_justified env files) acts"
  by (auto simp: start_daemon_def writeStateFile_def killProcessGroup_def log_action_def kill_justified_def
      launched_daemon_def Let_def split: option.splits)

lemma reuse_state_log:
  assumes "readStateFile (lw_files w) statePath = Inr s"
  shows "\<exists>acts. lw_log (snd (reuse_state env l spec statePath s w)) = lw_log w @ acts \<and>
     list_all (kill_justified env (lw_files w)) acts"
  using careful_stop [OF assms, of env]
  by (auto simp: reuse_state_def writeStateFile_def careful_def clear_artifacts_def Let_def split: option.splits)

lemma Ensure_log:
  "\<exists>acts. lw_log (snd (Ensure env l workspaceRoot language w)) = lw_log w @ acts \<and>
     list_all (kill_justified env (lw_files w)) acts"
proof -
  have start: "\<exists>acts. lw_log (snd (start_daemon env l spec cr key path sock w1)) = lw_log w @ acts \<and>
      list_all (kill_justified env (lw_files w)) acts"
    if "\<exists>acts. lw_log w1 = lw_log w @ acts \<and> list_all (kill_justified env (lw_files w)) acts" for spec cr key path sock w1
    using that start_daemon_log [of env l spec cr key path sock w1 "lw_files w"] by fastforce
  have state: "\<exists>acts. lw_log w1 = lw_log w @ acts \<and> list_all (kill_justified env (lw_files w)) acts"
    if "(case readStateFile (lw_files w) path of
          Inr s \<Rightarrow> reuse_state env l spec path s w
        | Inl NotExist \<Rightarrow> (None, w)
        | Inl Undecodable \<Rightarrow> (None, clear_artifacts path sock w)) = (r, w1)" for r w1 path spec sock
    using that reuse_state_log [of w path _ env l spec]
    by (auto simp: clear_artifacts_def split: sum.splits state_read_error.splits)
  show ?thesis
    using start state by (fastforce simp: Ensure_def Let_def split: sum.splits prod.splits option.splits)
qed

section \<open>Properties\<close>

text \<open>
  C16. No other process is killed. Whatever the state files say, \<open>Ensure\<close>, \<open>Stop\<close>, \<open>Cleanup\<close> and
  \<open>ShutdownIdle\<close> only kill a process that is the daemon a state file records, by its number and by
  the time it was started, and never the init process, the own process or its group; \<open>Ensure\<close> may
  also kill the daemon that it has just started.
\<close>

theorem lifecycle_kills:
  "list_all (\<lambda>a. a \<in> set (lw_log w) \<or> kill_justified env (lw_files w) a)
     (lw_log (snd (Ensure env l workspaceRoot language w)) @ lw_log (snd (Stop env l workspaceRoot language w)) @
      lw_log (snd (Cleanup env l w)) @ lw_log (snd (ShutdownIdle env l w)))"
proof -
  have careful: "list_all (\<lambda>a. a \<in> set (lw_log w) \<or> kill_justified env (lw_files w) a) (lw_log w')" if "careful env w w'" for w'
    using that by (auto simp: careful_def list_all_iff)
  have "careful env w (snd (Stop env l workspaceRoot language w))"
    by (auto simp: Stop_def StopByKey_def careful_stop_state split: sum.splits)
  moreover have "careful env w (snd (Cleanup env l w))"
    using careful_cleanup [of env w] by (auto simp: Cleanup_def case_prod_unfold split: sum.splits option.splits)
  moreover have "careful env w (snd (ShutdownIdle env l w))"
    using careful_shutdown [of env w l] by (auto simp: ShutdownIdle_def case_prod_unfold split: sum.splits option.splits)
  moreover have "list_all (\<lambda>a. a \<in> set (lw_log w) \<or> kill_justified env (lw_files w) a)
      (lw_log (snd (Ensure env l workspaceRoot language w)))"
    using Ensure_log [of env l workspaceRoot language w] by (auto simp: list_all_iff)
  ultimately show ?thesis using careful by (simp add: list_all_append)
qed

text \<open>The state file of a workspace and a language.\<close>

definition state_path :: "lifecycle_env \<Rightarrow> Lifecycle \<Rightarrow> string \<Rightarrow> string \<Rightarrow> string option" where
  "state_path env l workspaceRoot language =
     (case canonicalWorkspaceRoot (lv_cwd env) workspaceRoot of
        Inl err \<Rightarrow> None
      | Inr canonicalRoot \<Rightarrow>
          (case registry_Lookup default_languages (Some (lf_registry l)) language of
             Inl err \<Rightarrow> None
           | Inr spec \<Rightarrow>
               (case statePathForKey env l (StateKey (lv_sha256 env) canonicalRoot (ss_Language spec)) of
                  Inl err \<Rightarrow> None | Inr path \<Rightarrow> Some path)))"

text \<open>A state whose daemon may serve a specification.\<close>

definition serves :: "lifecycle_env \<Rightarrow> Lifecycle \<Rightarrow> ServerSpec \<Rightarrow> lifecycleState \<Rightarrow> bool" where
  "serves env l spec s \<longleftrightarrow>
     st_ServerEnv s = serverEnv l spec \<and> st_Args s = ss_Args spec \<and> \<not> isIdle l s (lv_now env) \<and>
     daemon_running env s \<and> lv_healthy env (st_SocketPath s)"

lemma serverEnv_normal [simp]: "normalizeEnvOverrides (serverEnv l spec) = serverEnv l spec"
proof (cases "lf_serverEnvResolver l")
  case None
  then show ?thesis by (simp add: serverEnv_def normalizeEnvOverrides_def)
qed (simp add: serverEnv_def)

text \<open>The state that the file of a daemon in use holds.\<close>

definition in_use :: "lifecycle_env \<Rightarrow> Lifecycle \<Rightarrow> ServerSpec \<Rightarrow> Lease \<Rightarrow> lifecycleState \<Rightarrow> bool" where
  "in_use env l spec lease s \<longleftrightarrow>
     st_ServerEnv s = serverEnv l spec \<and> st_Args s = ss_Args spec \<and> st_LastUsedUnixNano s = lv_now env \<and>
     st_PID s = ls_PID lease \<and> ls_Args lease = ss_Args spec"

lemma writeStateFile_Some:
  "writeStateFile ok path s files = (True, files') \<Longrightarrow> files' = files(path \<mapsto> StateDoc (normalize_state path s))"
  by (simp add: writeStateFile_def split: if_splits)

lemma normalize_state_fields [simp]:
  "st_ServerEnv (normalize_state path s) = normalizeEnvOverrides (st_ServerEnv s)"
  "st_Args (normalize_state path s) = st_Args s"
  "st_LastUsedUnixNano (normalize_state path s) = st_LastUsedUnixNano s"
  "st_PID (normalize_state path s) = st_PID s"
  by (simp_all add: normalize_state_def Let_def)

lemma reuse_state_lease:
  assumes "reuse_state env l spec path s w = (Some (Inr lease), w')" "normalize_state path s = s"
  shows "serves env l spec s \<and> lw_log w' = lw_log w \<and> ls_Reused lease \<and> ls_PID lease = st_PID s \<and>
    (\<exists>s'. readStateFile (lw_files w') path = Inr s' \<and> in_use env l spec lease s')"
  using assms(1)
  by (auto simp: reuse_state_def serves_def daemon_running_def refreshProcessStartID_def Let_def in_use_def leaseFromState_def
      read_written dest!: writeStateFile_Some
      split: if_splits option.splits bool.splits prod.splits start_id.splits)

lemma start_daemon_lease:
  assumes "start_daemon env l spec canonicalRoot key path sock w = (Inr lease, w')"
  shows "\<exists>startID. lv_launch env (daemon_config l spec canonicalRoot key path sock) = Some (ls_PID lease, startID) \<and>
    validate (daemon_config l spec canonicalRoot key path sock) = None \<and>
    lw_log w' = lw_log w @ [Launch (daemon_config l spec canonicalRoot key path sock)] \<and> \<not> ls_Reused lease \<and>
    (\<exists>s'. readStateFile (lw_files w') path = Inr s' \<and> in_use env l spec lease s')"
  using assms
  by (auto simp: start_daemon_def Let_def in_use_def leaseFromState_def started_state_def log_action_def
      read_written dest!: writeStateFile_Some
      split: if_splits option.splits bool.splits prod.splits)

text \<open>Before a daemon is started no other one is.\<close>

lemma no_launch_stop:
  "\<exists>acts. lw_log (snd (stopStateProcess env path s w)) = lw_log w @ acts \<and> list_all (\<lambda>a. \<forall>c. a \<noteq> Launch c) acts"
  by (auto simp: stopStateProcess_def killProcessGroup_def log_action_def Let_def)

lemma no_launch_reuse:
  assumes "reuse_state env l spec path s w = (r, w')"
  shows "\<exists>acts. lw_log w' = lw_log w @ acts \<and> list_all (\<lambda>a. \<forall>c. a \<noteq> Launch c) acts"
proof -
  have "w' = snd (stopStateProcess env path s w) \<or> lw_log w' = lw_log w"
    using assms by (auto simp: reuse_state_def clear_artifacts_def Let_def split: if_splits option.splits bool.splits prod.splits)
  then show ?thesis using no_launch_stop [of env path s w] by auto
qed

text \<open>
  C15. A lease is for a running daemon of the right kind. When \<open>Ensure\<close> succeeds, the state file names the
  daemon of the lease, with the arguments and the environment that the workspace asks for and with the
  present time. Either no process was touched, and the daemon is the one that the file named before,
  with the same arguments and environment, used recently, running, and answering; or a daemon was
  started last, and only that one, from a valid configuration for the workspace.
\<close>

theorem Ensure_lease:
  assumes "Ensure env l workspaceRoot language w = (Inr lease, w')"
  shows "\<exists>path spec s. state_path env l workspaceRoot language = Some path \<and>
    registry_Lookup default_languages (Some (lf_registry l)) language = Inr spec \<and>
    readStateFile (lw_files w') path = Inr s \<and> in_use env l spec lease s \<and>
    (if ls_Reused lease
     then lw_log w' = lw_log w \<and>
       (\<exists>old. readStateFile (lw_files w) path = Inr old \<and> serves env l spec old \<and> st_PID old = ls_PID lease)
     else \<exists>c startID acts. lv_launch env c = Some (ls_PID lease, startID) \<and> validate c = None \<and>
       Inr (dc_WorkspaceRoot c) = canonicalWorkspaceRoot (lv_cwd env) workspaceRoot \<and> dc_Binary c = ss_Binary spec \<and>
       dc_ServerEnv c = serverEnv l spec \<and> dc_StatePath c = path \<and>
       lw_log w' = lw_log w @ acts @ [Launch c] \<and> list_all (\<lambda>a. \<forall>c. a \<noteq> Launch c) acts)"
proof -
  obtain cr where cr: "canonicalWorkspaceRoot (lv_cwd env) workspaceRoot = Inr cr"
    using assms by (auto simp: Ensure_def split: if_splits sum.splits)
  obtain spec where spec: "registry_Lookup default_languages (Some (lf_registry l)) language = Inr spec"
    using assms cr by (auto simp: Ensure_def split: if_splits sum.splits)
  define key where "key = StateKey (lv_sha256 env) cr (ss_Language spec)"
  obtain path where path: "statePathForKey env l key = Inr path"
    using assms cr spec
    by (cases "statePathForKey env l key") (auto simp: Ensure_def key_def [symmetric] Let_def split: if_splits)
  define sock where "sock = socketPathForState path key"
  define first where "first =
    (case readStateFile (lw_files w) path of
       Inr s \<Rightarrow> reuse_state env l spec path s w
     | Inl NotExist \<Rightarrow> (None, w)
     | Inl Undecodable \<Rightarrow> (None, clear_artifacts path sock w))"
  have "Ensure env l workspaceRoot language w =
      (case first of (Some r, w1) \<Rightarrow> (r, w1) | (None, w1) \<Rightarrow> start_daemon env l spec cr key path sock w1)"
  proof -
    have "\<not> lv_cancelled env" using assms by (auto simp: Ensure_def)
    then show ?thesis unfolding first_def sock_def by (simp add: Ensure_def cr spec path key_def [symmetric] Let_def)
  qed
  then consider "first = (Some (Inr lease), w')"
    | w1 where "first = (None, w1)" "start_daemon env l spec cr key path sock w1 = (Inr lease, w')"
    using assms by (cases first) (auto split: option.splits)
  note cases = this
  have state: "state_path env l workspaceRoot language = Some path"
    by (simp add: state_path_def cr spec path key_def [symmetric])
  from cases show ?thesis
  proof cases
    case 1
    then obtain old where old: "readStateFile (lw_files w) path = Inr old" "reuse_state env l spec path old w = (Some (Inr lease), w')"
      by (auto simp: first_def split: sum.splits state_read_error.splits)
    show ?thesis
      using reuse_state_lease [OF old(2) read_normalized [OF old(1)]] state spec old(1) by auto
  next
    case 2
    have "\<exists>acts. lw_log w1 = lw_log w @ acts \<and> list_all (\<lambda>a. \<forall>c. a \<noteq> Launch c) acts"
      using 2(1) no_launch_reuse [of env l spec path _ w None w1]
      by (auto simp: first_def clear_artifacts_def split: sum.splits state_read_error.splits)
    then show ?thesis
      using start_daemon_lease [OF 2(2)] state spec cr by (fastforce simp: daemon_config_def)
  qed
qed

text \<open>Two moments at which the system resolves paths in the same way.\<close>

definition same_place :: "lifecycle_env \<Rightarrow> lifecycle_env \<Rightarrow> bool" where
  "same_place env env' \<longleftrightarrow>
     lv_cwd env = lv_cwd env' \<and> lv_stateDirVar env = lv_stateDirVar env' \<and> lv_home env = lv_home env' \<and>
     lv_sha256 env = lv_sha256 env' \<and> lv_mkdir_ok env = lv_mkdir_ok env'"

lemma same_place_path:
  "same_place env env' \<Longrightarrow> statePathForKey env' l key = statePathForKey env l key"
  "same_place env env' \<Longrightarrow> state_path env' l workspaceRoot language = state_path env l workspaceRoot language"
proof -
  assume "same_place env env'"
  then have eqs: "lv_cwd env' = lv_cwd env" "lv_stateDirVar env' = lv_stateDirVar env" "lv_home env' = lv_home env"
    "lv_sha256 env' = lv_sha256 env" "lv_mkdir_ok env' = lv_mkdir_ok env"
    by (simp_all add: same_place_def)
  have keys: "statePathForKey env' l k = statePathForKey env l k" for k
    unfolding statePathForKey_def stateRoot_def ResolveStateDir_def eqs by (rule refl)
  then show "statePathForKey env' l key = statePathForKey env l key" .
  show "state_path env' l workspaceRoot language = state_path env l workspaceRoot language"
    unfolding state_path_def eqs keys by (rule refl)
qed

lemma reuse_running:
  assumes "st_ServerEnv s = serverEnv l spec" "st_Args s = ss_Args spec" "\<not> isIdle l s (lv_now env)"
    and "processMatchesState (lv_startID env) s" "lv_healthy env (st_SocketPath s)" "lv_write_ok env"
  shows "\<exists>files. reuse_state env l spec path s w =
    (Some (Inr (leaseFromState (s\<lparr>st_LastUsedUnixNano := lv_now env\<rparr>) True)), w\<lparr>lw_files := files\<rparr>)"
proof -
  have "hasStrongProcessIdentity s" using assms(4) by (simp add: processMatchesState_def hasStrongProcessIdentity_def Let_def)
  then show ?thesis using assms by (auto simp: reuse_state_def writeStateFile_def Let_def intro!: exI)
qed

text \<open>
  A daemon is used again. If after a successful \<open>Ensure\<close> the daemon still runs, answers and has not
  been idle for too long, then a later \<open>Ensure\<close> for the same workspace and language gives a lease for
  the same process, and starts and stops nothing.
\<close>

theorem Ensure_again:
  assumes "Ensure env l workspaceRoot language w = (Inr lease, w')" and "same_place env env'"
    and "state_path env l workspaceRoot language = Some path" "readStateFile (lw_files w') path = Inr s"
    and "processMatchesState (lv_startID env') s" "lv_healthy env' (st_SocketPath s)"
    and "0 < lv_now env" "lf_idleTimeout l \<le> 0 \<or> lv_now env' - lv_now env < lf_idleTimeout l"
    and "lv_write_ok env'" "\<not> lv_cancelled env'"
  shows "\<exists>lease' w''. Ensure env' l workspaceRoot language w' = (Inr lease', w'') \<and>
    ls_PID lease' = ls_PID lease \<and> ls_Reused lease' \<and> lw_log w'' = lw_log w'"
proof -
  obtain spec where spec: "registry_Lookup default_languages (Some (lf_registry l)) language = Inr spec"
    and used: "in_use env l spec lease s"
    using Ensure_lease [OF assms(1)] assms(3,4) by auto
  obtain cr where cr: "canonicalWorkspaceRoot (lv_cwd env) workspaceRoot = Inr cr"
    and path: "statePathForKey env l (StateKey (lv_sha256 env) cr (ss_Language spec)) = Inr path"
    using assms(3) spec by (auto simp: state_path_def split: sum.splits)
  have "\<not> isIdle l s (lv_now env')"
    using used assms(7,8) by (auto simp: isIdle_def in_use_def Let_def)
  then obtain files where reuse: "reuse_state env' l spec path s w' =
      (Some (Inr (leaseFromState (s\<lparr>st_LastUsedUnixNano := lv_now env'\<rparr>) True)), w'\<lparr>lw_files := files\<rparr>)"
    using reuse_running [of s l spec env' path w'] used assms(5,6,9) by (auto simp: in_use_def)
  have "Ensure env' l workspaceRoot language w' =
      (Inr (leaseFromState (s\<lparr>st_LastUsedUnixNano := lv_now env'\<rparr>) True), w'\<lparr>lw_files := files\<rparr>)"
    using assms(2,4,10) cr path spec reuse same_place_path(1) [OF assms(2)]
    by (simp add: Ensure_def same_place_def Let_def)
  then show ?thesis using used by (simp add: leaseFromState_def in_use_def)
qed

text \<open>A place in which starting a daemon succeeds.\<close>

definition sample_spec :: ServerSpec where
  "sample_spec = \<lparr>ss_Language = ''go'', ss_Binary = ''gopls'', ss_Args = [''serve''], ss_InstallHint = []\<rparr>"

definition sample_lifecycle :: Lifecycle where
  "sample_lifecycle =
     \<lparr>lf_registry = [''go'' \<mapsto> sample_spec], lf_idleTimeout = DefaultIdleTimeout, lf_stateDirResolver = Some ''/s'',
      lf_serverEnvResolver = Some (\<lambda>spec. ['' B=2'', ''A=1''])\<rparr>"

definition sample_env :: "int \<Rightarrow> lifecycle_env" where
  "sample_env now =
     \<lparr>lv_cwd = ''/w'', lv_stateDirVar = [], lv_home = None, lv_sha256 = (\<lambda>s. replicate 32 CHR 0xAB), lv_now = now,
      lv_cancelled = False, lv_cancelled_later = False, lv_done_at = (\<lambda>n. False), lv_alive = (\<lambda>p. p = 7),
      lv_startID = (\<lambda>p. if p = 7 then StartID ''t'' else NoProcess), lv_healthy = (\<lambda>p. True), lv_lookPath = (\<lambda>b. True),
      lv_launch = (\<lambda>c. Some (7, ''t '')), lv_kill_ok = (\<lambda>p. True), lv_pid = 2, lv_pgrp = 2, lv_mkdir_ok = (\<lambda>d. True),
      lv_write_ok = True, lv_readDir = (\<lambda>d. None)\<rparr>"

definition empty_world :: lsp_world where "empty_world = \<lparr>lw_files = Map.empty, lw_log = []\<rparr>"

definition sample_path :: string where "sample_path = ''/s/lsp/abababababababab.json''"

definition sample_config :: daemonProcessConfig where
  "sample_config =
     daemon_config sample_lifecycle sample_spec ''/w'' ''abababababababab'' sample_path ''/s/lsp/abababababababab.sock''"

definition sample_started :: lifecycleState where
  "sample_started = started_state (sample_env 1000) sample_lifecycle sample_spec sample_config 7 ''t ''"

definition sample_world :: lsp_world where
  "sample_world = \<lparr>lw_files = [sample_path \<mapsto> StateDoc (normalize_state sample_path sample_started)], lw_log = [Launch sample_config]\<rparr>"

lemma sample_paths:
  "canonicalWorkspaceRoot ''/w'' ''.'' = Inr ''/w''"
  "registry_Lookup default_languages (Some [''go'' \<mapsto> sample_spec]) ''Go'' = Inr sample_spec"
  "StateKey (\<lambda>s. replicate 32 CHR 0xAB) ''/w'' ''go'' = ''abababababababab''"
  "statePathForKey (sample_env 1000) sample_lifecycle ''abababababababab'' = Inr sample_path"
  "socketPathForState sample_path ''abababababababab'' = ''/s/lsp/abababababababab.sock''"
  "is_jdtls sample_spec = False"
  "validate sample_config = None"
  "processMatchesState (lv_startID (sample_env 2000)) (normalize_state sample_path sample_started)"
  by code_simp+

lemma sample_Ensure:
  "Ensure (sample_env 1000) sample_lifecycle ''.'' ''Go'' empty_world = (Inr (leaseFromState sample_started False), sample_world)"
proof -
  have env: "lv_cwd (sample_env 1000) = ''/w''" "lv_sha256 (sample_env 1000) = (\<lambda>s. replicate 32 CHR 0xAB)"
    "lf_registry sample_lifecycle = [''go'' \<mapsto> sample_spec]" "ss_Language sample_spec = ''go''"
    "lv_cancelled (sample_env 1000) = False" "lv_cancelled_later (sample_env 1000) = False"
    "lv_lookPath (sample_env 1000) = (\<lambda>b. True)" "lv_launch (sample_env 1000) = (\<lambda>c. Some (7, ''t ''))"
    "lv_write_ok (sample_env 1000) = True"
    by (simp_all add: sample_env_def sample_lifecycle_def sample_spec_def)
  note paths = sample_paths(1-7)
  show ?thesis
    unfolding Ensure_def env paths(1) sum.case Let_def
    by (simp add: env paths empty_world_def readStateFile_def start_daemon_def writeStateFile_def log_action_def Let_def
        sample_started_def sample_world_def sample_config_def [symmetric])
qed

lemma sample_file:
  "state_path (sample_env 1000) sample_lifecycle ''.'' ''Go'' = Some sample_path"
  "readStateFile (lw_files sample_world) sample_path = Inr (normalize_state sample_path sample_started)"
proof -
  have env: "lv_cwd (sample_env 1000) = ''/w''" "lv_sha256 (sample_env 1000) = (\<lambda>s. replicate 32 CHR 0xAB)"
    "lf_registry sample_lifecycle = [''go'' \<mapsto> sample_spec]" "ss_Language sample_spec = ''go''"
    by (simp_all add: sample_env_def sample_lifecycle_def sample_spec_def)
  show "state_path (sample_env 1000) sample_lifecycle ''.'' ''Go'' = Some sample_path"
    unfolding state_path_def env sample_paths(1,2) sum.case by (simp add: env sample_paths)
  show "readStateFile (lw_files sample_world) sample_path = Inr (normalize_state sample_path sample_started)"
    by (simp add: sample_world_def read_written)
qed

lemma sample_lease_pid: "ls_PID (leaseFromState sample_started False) = 7" "ls_Reused (leaseFromState sample_started False) = False"
  by (simp_all add: leaseFromState_def sample_started_def started_state_def)

theorem Ensure_lease_witness:
  "\<exists>c startID. lv_launch (sample_env 1000) c = Some (7, startID) \<and> Inr (dc_WorkspaceRoot c) = canonicalWorkspaceRoot ''/w'' ''.'' \<and>
     lw_log sample_world = [Launch c]"
proof -
  obtain c startID acts where c: "lv_launch (sample_env 1000) c = Some (7, startID)"
    "Inr (dc_WorkspaceRoot c) = canonicalWorkspaceRoot (lv_cwd (sample_env 1000)) ''.''"
    "lw_log sample_world = lw_log empty_world @ acts @ [Launch c]"
    using Ensure_lease [OF sample_Ensure] unfolding sample_lease_pid by auto
  then have "acts = [] \<and> c = sample_config" by (simp add: sample_world_def empty_world_def append_eq_Cons_conv)
  then show ?thesis using c by (auto simp: empty_world_def sample_env_def)
qed

theorem Ensure_again_witness:
  "\<exists>lease' w''. Ensure (sample_env 2000) sample_lifecycle ''.'' ''Go'' sample_world = (Inr lease', w'') \<and>
    ls_PID lease' = 7 \<and> ls_Reused lease' \<and> lw_log w'' = lw_log sample_world"
proof -
  have "same_place (sample_env 1000) (sample_env 2000)" by (simp add: same_place_def sample_env_def)
  from Ensure_again [OF sample_Ensure this sample_file sample_paths(8)]
  show ?thesis unfolding sample_lease_pid by (simp add: sample_env_def sample_lifecycle_def DefaultIdleTimeout_def)
qed

section \<open>What Cleanup removes\<close>

lemma baseline_not_running:
  "readStateFile files path = Inr s \<Longrightarrow> files path = Some (BaselineDoc b) \<Longrightarrow> \<not> lv_alive env 0 \<Longrightarrow> \<not> daemon_running env s"
  by (auto simp: readStateFile_def decode_state_def normalize_state_def zero_state_def daemon_running_def
      hasStrongProcessIdentity_def Let_def)

lemma cleanup_subset: "lw_files (snd (cleanup_loop env state_root names w)) \<subseteq>\<^sub>m lw_files w"
  using careful_cleanup [of env w state_root names] by (simp add: careful_def)

lemma cleanup_baseline:
  assumes "lw_files w (path_join [state_root, n]) \<in> {None, Some (BaselineDoc b)}" "n \<in> set names" "\<not> lv_alive env 0"
  shows "n \<in> set (fst (cleanup_loop env state_root names w)) \<and>
    lw_files (snd (cleanup_loop env state_root names w)) (path_join [state_root, n]) = None"
  using assms(1,2)
proof (induction names arbitrary: w)
  case (Cons m names)
  let ?p = "path_join [state_root, n]"
  have gone: "lw_files (snd (cleanup_loop env state_root names (clear_artifacts ?p sock w))) ?p = None" for sock
    using cleanup_subset [of env state_root names "clear_artifacts ?p sock w"]
    by (auto simp: map_le_def dom_def clear_artifacts_def removeStateArtifacts_def Let_def)
  have kept: "lw_files (clear_artifacts q sock w) ?p \<in> {None, Some (BaselineDoc b)}" for q sock
    using Cons.prems(1) by (auto simp: clear_artifacts_def removeStateArtifacts_def Let_def)
  show ?case
  proof (cases "m = n")
    case True
    show ?thesis
    proof (cases "readStateFile (lw_files w) ?p")
      case (Inl err)
      then show ?thesis using gone True by (simp add: Let_def case_prod_unfold)
    next
      case (Inr s)
      then have "lw_files w ?p = Some (BaselineDoc b)" using Cons.prems(1) by (auto simp: readStateFile_def)
      then have "\<not> daemon_running env s" using Inr baseline_not_running assms(3) by blast
      then show ?thesis using gone True Inr by (simp add: Let_def case_prod_unfold)
    qed
  next
    case False
    then have "n \<in> set names" using Cons.prems(2) by simp
    then show ?thesis using Cons.IH kept Cons.prems(1) by (auto simp: Let_def case_prod_unfold split: sum.split)
  qed
qed simp

text \<open>
  C1. The baseline of a running daemon is cleaned up. The file with the baseline of a Java workspace has
  the extension of a state file too, is read as a state without a process, and is removed and
  reported by every \<open>Cleanup\<close> that lists it, whichever daemons run.
\<close>

theorem Cleanup_baseline:
  assumes "stateRoot env l = Inr state_root" "lv_readDir env state_root = Some entries" "\<not> lv_alive env 0"
    and "(key @ javaGradleBaselineExtension, False) \<in> set entries"
    and "lw_files w (path_join [state_root, key @ javaGradleBaselineExtension]) = Some (BaselineDoc b)"
  shows "\<exists>cleaned w'. Cleanup env l w = (Inr cleaned, w') \<and> key @ javaGradleBaselineExtension \<in> set cleaned \<and>
    lw_files w' (path_join [state_root, key @ javaGradleBaselineExtension]) = None"
proof -
  have "path_ext (key @ javaGradleBaselineExtension) = lifecycleStateFileExtension"
    by (simp add: path_ext_def javaGradleBaselineExtension_def lifecycleStateFileExtension_def Let_def)
  then have "key @ javaGradleBaselineExtension \<in> set (state_entries entries)"
    using assms(4) by (force simp: state_entries_def is_state_entry_def)
  then show ?thesis
    using cleanup_baseline [of w state_root "key @ javaGradleBaselineExtension" b "state_entries entries" env] assms
    by (simp add: Cleanup_def case_prod_unfold)
qed

theorem Cleanup_baseline_witness:
  "\<exists>cleaned w'. Cleanup (sample_env 2000\<lparr>lv_readDir := \<lambda>d. Some [(''k.java-gradle.json'', False)]\<rparr>) sample_lifecycle
     (sample_world\<lparr>lw_files := (lw_files sample_world)(''/s/lsp/k.java-gradle.json'' \<mapsto>
        BaselineDoc \<lparr>gb_Fingerprint = ''f'', gb_Files = []\<rparr>)\<rparr>) = (Inr cleaned, w') \<and>
   ''k.java-gradle.json'' \<in> set cleaned"
proof -
  let ?env = "sample_env 2000\<lparr>lv_readDir := \<lambda>d. Some [(''k.java-gradle.json'', False)]\<rparr>"
  let ?w = "sample_world\<lparr>lw_files := (lw_files sample_world)(''/s/lsp/k.java-gradle.json'' \<mapsto>
        BaselineDoc \<lparr>gb_Fingerprint = ''f'', gb_Files = []\<rparr>)\<rparr>"
  have facts: "stateRoot ?env sample_lifecycle = Inr ''/s/lsp''" "\<not> lv_alive ?env 0"
    "path_join [''/s/lsp'', ''k.java-gradle.json''] = ''/s/lsp/k.java-gradle.json''" "''k'' @ javaGradleBaselineExtension = ''k.java-gradle.json''"
    by code_simp+
  show ?thesis
    using Cleanup_baseline [OF facts(1), of "[(''k.java-gradle.json'', False)]" "''k''" ?w "\<lparr>gb_Fingerprint = ''f'', gb_Files = []\<rparr>"]
      facts(2-) by auto
qed

text \<open>The name of a socket stays short: at most 16 characters for the key.\<close>

lemma StateKey_length: "length (StateKey sha256 workspaceRoot language) \<le> 16"
proof -
  have "length (concat (map hex_byte xs)) = 2 * length xs" for xs by (induction xs) (simp_all add: hex_byte_def)
  then show ?thesis by (simp add: StateKey_def)
qed

end
