(* ===== verification/LspCheck.thy ===== *)
theory LspCheck
  imports LspImplements
begin

text \<open>
  \<open>pkg/lsp/check.go\<close> and \<open>pkg/lsp/workspace_prime.go\<close>: the diagnostics of a language server for the
  files below a path, and the document opened to make a server load its project. The channel of
  notifications and the timers are a list of events, in the order in which the \<open>select\<close> statements
  take them; a wait that is still going on at the end of the list is \<open>None\<close>. A wait has at most two
  timers and ends with either of them, so they are one event.
\<close>

section \<open>Data\<close>

type_synonym DiagnosticSeverity = int

definition DiagnosticSeverityError :: DiagnosticSeverity where "DiagnosticSeverityError = 1"

text \<open>The fields \<open>Code\<close> and \<open>Source\<close> of a diagnostic are not used; a severity left out is 0.\<close>

record Diagnostic =
  dg_Range :: Range
  dg_Severity :: DiagnosticSeverity
  dg_Message :: string

record PublishDiagnosticsParams =
  pd_URI :: string
  pd_Diagnostics :: "Diagnostic list"

record CheckOptions =
  ck_WorkspaceRoot :: string
  ck_TargetPath :: string
  ck_Language :: string
  ck_MaxFiles :: int

record CheckDiagnostic =
  cd_Path :: string
  cd_Line :: int
  cd_Column :: int
  cd_Message :: string

definition defaultCheckMaxFiles :: int where "defaultCheckMaxFiles = 50"

datatype check_error =
    CheckClientRequired
  | CheckLanguageRequired
  | TargetFailed string
  | TargetNotRegular string
  | CheckWalkFailed string
  | TooManyFiles nat string string int
  | SubscribeFailed string
  | CheckReadFailed string
  | OpenFailed string string
  | CloseFailed string string
  | WaitCancelled string

text \<open>What the engine asks of the client, on the state \<open>'w\<close> of the connection.\<close>

datatype check_message = DidOpen string string int string | DidClose string

record 'w checkClient =
  cc_notify :: "check_message \<Rightarrow> 'w \<Rightarrow> string option \<times> 'w"
  cc_subscribe :: "'w \<Rightarrow> string option \<times> 'w"
  cc_unsubscribe :: "'w \<Rightarrow> 'w"

datatype check_event = Cancelled_by string | Published PublishDiagnosticsParams | TimerFired

section \<open>The files\<close>

text \<open>What \<open>os.Stat\<close> says of a path, links followed.\<close>

datatype target_kind = TargetMissing string | TargetDir | TargetFile bool

text \<open>
  The walk visits the files of the accepted languages, which \<open>collect_node\<close> gives. The last test of its
  callback, on the relative path, concerns files only and comes after the others.
\<close>

definition language_accepts :: "string \<Rightarrow> string \<Rightarrow> bool" where
  "language_accepts language ext = (normalizeLanguage (LanguageFromExtension ext) = language)"

definition collectCheckFiles ::
  "lsp_env \<Rightarrow> (string \<Rightarrow> target_kind) \<Rightarrow> string \<Rightarrow> string \<Rightarrow> string \<Rightarrow> Matcher \<Rightarrow> check_error + string list" where
  "collectCheckFiles env stat workspaceRoot targetPath language matcher =
     (case stat targetPath of
        TargetMissing err \<Rightarrow> Inl (TargetFailed err)
      | TargetFile regular \<Rightarrow>
          if \<not> regular then Inl (TargetNotRegular targetPath)
          else if language_accepts language (path_ext targetPath) then Inr [targetPath]
          else Inr []
      | TargetDir \<Rightarrow>
          (case collect_node (le_cwd env) matcher (language_accepts language) targetPath targetPath (le_tree env targetPath) of
             None \<Rightarrow> Inl (CheckWalkFailed targetPath)
           | Some paths \<Rightarrow>
               Inr (sort (map path_clean (filter (\<lambda>p. \<not> has_prefix (relativePath workspaceRoot p) ''..'') paths)))))"

section \<open>Diagnostics\<close>

definition normalizeDiagnosticMessage :: "string \<Rightarrow> string" where
  "normalizeDiagnosticMessage message = join '' '' (str_fields (trim_space message))"

definition counts_as_error :: "Diagnostic \<Rightarrow> bool" where
  "counts_as_error d \<longleftrightarrow> dg_Severity d = 0 \<or> dg_Severity d = DiagnosticSeverityError"

definition check_line :: "string \<Rightarrow> string \<Rightarrow> Diagnostic \<Rightarrow> CheckDiagnostic" where
  "check_line workspaceRoot path d =
     \<lparr>cd_Path = relativePath workspaceRoot path,
      cd_Line = pos_Line (rng_Start (dg_Range d)) + 1,
      cd_Column = pos_Character (rng_Start (dg_Range d)) + 1,
      cd_Message = normalizeDiagnosticMessage (dg_Message d)\<rparr>"

definition diagnosticsToCheckLines :: "lsp_env \<Rightarrow> string \<Rightarrow> string \<Rightarrow> Diagnostic list \<Rightarrow> CheckDiagnostic list" where
  "diagnosticsToCheckLines env workspaceRoot uri diagnostics =
     (case documentURIToPath (le_authority_ok env) uri of
        Inl err \<Rightarrow> []
      | Inr path \<Rightarrow> map (check_line workspaceRoot path) (filter counts_as_error diagnostics))"

definition check_sort_key :: "CheckDiagnostic \<Rightarrow> string \<times> int \<times> int \<times> string" where
  "check_sort_key d = (cd_Path d, cd_Line d, cd_Column d, cd_Message d)"

definition check_text_key :: "CheckDiagnostic \<Rightarrow> string" where
  "check_text_key d =
     cd_Path d @ '':'' @ int_str (cd_Line d) @ '':'' @ int_str (cd_Column d) @ '':'' @ cd_Message d"

definition dedupeAndSortCheckDiagnostics :: "CheckDiagnostic list \<Rightarrow> CheckDiagnostic list" where
  "dedupeAndSortCheckDiagnostics diagnostics = keep_first check_text_key [] (sort_key check_sort_key diagnostics)"

text \<open>The output: a heading whenever the path changes, starting from the empty path.\<close>

fun output_lines :: "string \<Rightarrow> CheckDiagnostic list \<Rightarrow> string list" where
  "output_lines currentPath [] = []"
| "output_lines currentPath (d # ds) =
     (if cd_Path d \<noteq> currentPath then [cd_Path d] else []) @
     (''  '' @ int_str (cd_Line d) @ '':'' @ int_str (cd_Column d) @ ''  '' @
       normalizeDiagnosticMessage (cd_Message d)) # output_lines (cd_Path d) ds"

definition formatCheckOutput :: "CheckDiagnostic list \<Rightarrow> string" where
  "formatCheckOutput diagnostics =
     (if diagnostics = [] then ''No syntax errors found''
      else join [newline]
        (output_lines [] diagnostics @
         [int_str (int (length diagnostics)) @ '' '' @
          (if length diagnostics = 1 then ''syntax error'' else ''syntax errors'') @ '' found'']))"

section \<open>Waiting\<close>

type_synonym pending_map = "string \<Rightarrow> PublishDiagnosticsParams option"
type_synonym wait_result = "((check_error + PublishDiagnosticsParams) \<times> pending_map \<times> check_event list) option"

text \<open>After the first publication for the document; a later one replaces it.\<close>

fun settleDiagnostics ::
  "pending_map \<Rightarrow> string \<Rightarrow> PublishDiagnosticsParams \<Rightarrow> check_event list \<Rightarrow> wait_result" where
  "settleDiagnostics pending uri latest [] = None"
| "settleDiagnostics pending uri latest (Cancelled_by err # es) = Some (Inl (WaitCancelled err), pending, es)"
| "settleDiagnostics pending uri latest (Published p # es) =
     (if pd_URI p = uri then settleDiagnostics pending uri p es
      else settleDiagnostics (pending(pd_URI p \<mapsto> p)) uri latest es)"
| "settleDiagnostics pending uri latest (TimerFired # es) = Some (Inr latest, pending, es)"

fun wait_loop :: "pending_map \<Rightarrow> string \<Rightarrow> check_event list \<Rightarrow> wait_result" where
  "wait_loop pending uri [] = None"
| "wait_loop pending uri (Cancelled_by err # es) = Some (Inl (WaitCancelled err), pending, es)"
| "wait_loop pending uri (Published p # es) =
     (if pd_URI p = uri then settleDiagnostics pending uri p es
      else wait_loop (pending(pd_URI p \<mapsto> p)) uri es)"
| "wait_loop pending uri (TimerFired # es) = Some (Inr \<lparr>pd_URI = uri, pd_Diagnostics = []\<rparr>, pending, es)"

definition waitForDiagnostics :: "pending_map \<Rightarrow> string \<Rightarrow> check_event list \<Rightarrow> wait_result" where
  "waitForDiagnostics pending uri es =
     (case pending uri of
        Some p \<Rightarrow> settleDiagnostics (pending(uri := None)) uri p es
      | None \<Rightarrow> wait_loop pending uri es)"

section \<open>The engine\<close>

text \<open>The loop of \<open>Run\<close> over the files.\<close>

fun check_files ::
  "lsp_env \<Rightarrow> string \<Rightarrow> string \<Rightarrow> 'w checkClient \<Rightarrow> pending_map \<Rightarrow> CheckDiagnostic list \<Rightarrow> string list \<Rightarrow>
   check_event list \<Rightarrow> 'w \<Rightarrow> ((check_error + CheckDiagnostic list) \<times> 'w) option" where
  "check_files env workspaceRoot language C pending acc [] es w = Some (Inr acc, w)"
| "check_files env workspaceRoot language C pending acc (f # fs) es w =
     (case le_read_file env f of
        None \<Rightarrow> Some (Inl (CheckReadFailed f), w)
      | Some content \<Rightarrow>
          (let uri = documentURI (le_cwd env) f
           in case cc_notify C (DidOpen uri language 1 content) w of
                (Some err, w1) \<Rightarrow> Some (Inl (OpenFailed f err), w1)
              | (None, w1) \<Rightarrow>
                  (case waitForDiagnostics (pending(uri := None)) uri es of
                     None \<Rightarrow> None
                   | Some (answer, pending2, es2) \<Rightarrow>
                       (case cc_notify C (DidClose uri) w1 of
                          (closeErr, w2) \<Rightarrow>
                            (case answer of
                               Inl err \<Rightarrow> Some (Inl err, w2)
                             | Inr params \<Rightarrow>
                                 (case closeErr of
                                    Some err \<Rightarrow> Some (Inl (CloseFailed f err), w2)
                                  | None \<Rightarrow>
                                      check_files env workspaceRoot language C pending2
                                        (acc @ diagnosticsToCheckLines env workspaceRoot (pd_URI params) (pd_Diagnostics params))
                                        fs es2 w2))))))"

definition check_target :: "lsp_env \<Rightarrow> string \<Rightarrow> CheckOptions \<Rightarrow> string" where
  "check_target env workspaceRoot opts =
     (let targetPath = trim_space (ck_TargetPath opts)
      in path_clean (path_abs (le_cwd env) (if targetPath = [] then workspaceRoot else targetPath)))"

definition check_max_files :: "CheckOptions \<Rightarrow> int" where
  "check_max_files opts = (if ck_MaxFiles opts \<le> 0 then defaultCheckMaxFiles else ck_MaxFiles opts)"

definition check_Run ::
  "lsp_env \<Rightarrow> (string \<Rightarrow> target_kind) \<Rightarrow> 'w checkClient option \<Rightarrow> CheckOptions \<Rightarrow> check_event list \<Rightarrow> 'w \<Rightarrow>
   ((check_error + CheckDiagnostic list) \<times> 'w) option" where
  "check_Run env stat client opts es w =
     (case client of
        None \<Rightarrow> Some (Inl CheckClientRequired, w)
      | Some C \<Rightarrow>
          (let workspaceRoot = resolveWorkspaceRoot (le_cwd env) (ck_WorkspaceRoot opts);
               targetPath = check_target env workspaceRoot opts;
               language = normalizeLanguage (ck_Language opts)
           in if language = [] then Some (Inl CheckLanguageRequired, w)
              else case collectCheckFiles env stat workspaceRoot targetPath language
                          (newWorkspaceIgnoreMatcher env workspaceRoot) of
                Inl err \<Rightarrow> Some (Inl err, w)
              | Inr files \<Rightarrow>
                  if int (length files) > check_max_files opts
                  then Some (Inl (TooManyFiles (length files) language targetPath (check_max_files opts)), w)
                  else case cc_subscribe C w of
                    (Some err, w1) \<Rightarrow> Some (Inl (SubscribeFailed err), w1)
                  | (None, w1) \<Rightarrow>
                      (case check_files env workspaceRoot language C Map.empty [] files es w1 of
                         None \<Rightarrow> None
                       | Some (Inl err, w2) \<Rightarrow> Some (Inl err, cc_unsubscribe C w2)
                       | Some (Inr found, w2) \<Rightarrow>
                           Some (Inr (dedupeAndSortCheckDiagnostics found), cc_unsubscribe C w2))))"

section \<open>What a wait takes\<close>

text \<open>The answer to a document when it was published in these notifications.\<close>

definition last_published :: "string \<Rightarrow> PublishDiagnosticsParams list \<Rightarrow> PublishDiagnosticsParams" where
  "last_published uri ps =
     (let hits = filter (\<lambda>p. pd_URI p = uri) ps
      in if hits = [] then \<lparr>pd_URI = uri, pd_Diagnostics = []\<rparr> else last hits)"

lemma settle_timer:
  "\<exists>pending2. settleDiagnostics pending uri latest (map Published ps @ TimerFired # es) =
     Some (Inr (last (latest # filter (\<lambda>p. pd_URI p = uri) ps)), pending2, es)"
  by (induction ps arbitrary: pending latest) auto

lemma wait_timer:
  assumes "pending uri = None"
  shows "\<exists>pending2. waitForDiagnostics pending uri (map Published ps @ TimerFired # es) =
     Some (Inr (last_published uri ps), pending2, es)"
proof -
  have "\<exists>pending2. wait_loop pending uri (map Published ps @ TimerFired # es) =
      Some (Inr (last_published uri ps), pending2, es)"
  proof (induction ps arbitrary: pending)
    case Nil
    then show ?case by (simp add: last_published_def)
  next
    case (Cons p ps)
    show ?case
    proof (cases "pd_URI p = uri")
      case True
      then show ?thesis using settle_timer [of pending uri p ps es] by (simp add: last_published_def)
    next
      case False
      then show ?thesis using Cons.IH by (simp add: last_published_def)
    qed
  qed
  then show ?thesis using assms by (simp add: waitForDiagnostics_def)
qed

text \<open>Whatever a wait puts aside has no effect on its answer.\<close>

definition outcome :: "wait_result \<Rightarrow> ((check_error + PublishDiagnosticsParams) \<times> check_event list) option" where
  "outcome r = (case r of None \<Rightarrow> None | Some (a, pending, es) \<Rightarrow> Some (a, es))"

lemma outcome_simps [simp]: "outcome None = None" "outcome (Some (a, pending, es)) = Some (a, es)"
  by (simp_all add: outcome_def)

lemma settle_pending:
  "outcome (settleDiagnostics pending uri latest es) = outcome (settleDiagnostics pending' uri latest es)"
proof (induction es arbitrary: pending pending' latest)
  case Nil
  then show ?case by simp
next
  case (Cons e es)
  show ?case by (cases e) (simp_all, (intro conjI impI; rule Cons.IH))
qed

lemma wait_loop_pending: "outcome (wait_loop pending uri es) = outcome (wait_loop pending' uri es)"
proof (induction es arbitrary: pending pending')
  case Nil
  then show ?case by simp
next
  case (Cons e es)
  show ?case by (cases e) (simp_all, (intro conjI impI; rule Cons.IH settle_pending))
qed

lemma wait_pending:
  assumes "pending uri = None" "pending' uri = None"
  shows "outcome (waitForDiagnostics pending uri es) = outcome (waitForDiagnostics pending' uri es)"
  using assms wait_loop_pending [of pending uri es pending'] by (simp add: waitForDiagnostics_def)

text \<open>A wait ends if there is a timer or a cancellation among the events.\<close>

definition ends_wait :: "check_event \<Rightarrow> bool" where
  "ends_wait e = (case e of Published p \<Rightarrow> False | _ \<Rightarrow> True)"

lemma ends_wait_simps [simp]:
  "\<not> ends_wait (Published p)" "ends_wait TimerFired" "ends_wait (Cancelled_by err)"
  by (simp_all add: ends_wait_def)

lemma settle_ends:
  "length (filter ends_wait es) = Suc n \<Longrightarrow>
    \<exists>a pending2 es2. settleDiagnostics pending uri latest es = Some (a, pending2, es2) \<and> length (filter ends_wait es2) = n"
  by (induction pending uri latest es rule: settleDiagnostics.induct) auto

lemma wait_loop_ends:
  "length (filter ends_wait es) = Suc n \<Longrightarrow>
    \<exists>a pending2 es2. wait_loop pending uri es = Some (a, pending2, es2) \<and> length (filter ends_wait es2) = n"
  by (induction pending uri es rule: wait_loop.induct) (auto simp: settle_ends)

lemma wait_ends:
  "length (filter ends_wait es) = Suc n \<Longrightarrow>
    \<exists>a pending2 es2. waitForDiagnostics pending uri es = Some (a, pending2, es2) \<and> length (filter ends_wait es2) = n"
  by (simp add: waitForDiagnostics_def settle_ends wait_loop_ends split: option.split)

section \<open>The loop over the files\<close>

text \<open>
  The notifications put aside in \<open>pending\<close> are never used: the loop deletes the entry of a document
  just before it waits for it.
\<close>

lemma check_files_pending:
  "check_files env workspaceRoot language C pending acc fs es w =
   check_files env workspaceRoot language C pending' acc fs es w"
proof (induction fs arbitrary: pending pending' acc es w)
  case Nil
  then show ?case by simp
next
  case (Cons f fs)
  let ?uri = "documentURI (le_cwd env) f"
  have same: "outcome (waitForDiagnostics (pending(?uri := None)) ?uri es) =
      outcome (waitForDiagnostics (pending'(?uri := None)) ?uri es)"
    by (rule wait_pending) simp_all
  show ?case
    using same Cons.IH
    by (cases "waitForDiagnostics (pending(?uri := None)) ?uri es";
        cases "waitForDiagnostics (pending'(?uri := None)) ?uri es")
      (auto simp: Let_def split: option.split prod.split sum.split)
qed

lemma check_files_returns:
  "length fs \<le> length (filter ends_wait es) \<Longrightarrow>
    check_files env workspaceRoot language C pending acc fs es w \<noteq> None"
proof (induction fs arbitrary: pending acc es w)
  case Nil
  then show ?case by simp
next
  case (Cons f fs)
  let ?uri = "documentURI (le_cwd env) f"
  from Cons.prems obtain n where n: "length (filter ends_wait es) = Suc n" "length fs \<le> n"
    by (cases "length (filter ends_wait es)") auto
  obtain a p2 es2 where "waitForDiagnostics (pending(?uri := None)) ?uri es = Some (a, p2, es2)"
    "length (filter ends_wait es2) = n" using wait_ends [OF n(1)] by blast
  then show ?case using Cons.IH [of es2] n(2) by (auto simp: Let_def split: option.split prod.split sum.split)
qed

text \<open>The lines of one file, and the state after its two notifications.\<close>

definition file_lines :: "lsp_env \<Rightarrow> string \<Rightarrow> string \<times> PublishDiagnosticsParams list \<Rightarrow> CheckDiagnostic list" where
  "file_lines env workspaceRoot fp =
     (let answer = last_published (documentURI (le_cwd env) (fst fp)) (snd fp)
      in diagnosticsToCheckLines env workspaceRoot (pd_URI answer) (pd_Diagnostics answer))"

definition open_close :: "lsp_env \<Rightarrow> string \<Rightarrow> 'w checkClient \<Rightarrow> string \<Rightarrow> 'w \<Rightarrow> 'w" where
  "open_close env language C f w =
     (let uri = documentURI (le_cwd env) f
      in snd (cc_notify C (DidClose uri)
           (snd (cc_notify C (DidOpen uri language 1 (the (le_read_file env f))) w))))"

definition wait_segments :: "PublishDiagnosticsParams list list \<Rightarrow> check_event list" where
  "wait_segments pss = concat (map (\<lambda>ps. map Published ps @ [TimerFired]) pss)"

lemma check_files_exact:
  assumes "\<And>m w. fst (cc_notify C m w) = None"
  shows "\<forall>f \<in> set fs. le_read_file env f \<noteq> None \<Longrightarrow> length pss = length fs \<Longrightarrow>
    check_files env workspaceRoot language C pending acc fs (wait_segments pss @ rest) w =
      Some (Inr (acc @ concat (map (file_lines env workspaceRoot) (zip fs pss))),
            fold (open_close env language C) fs w)"
proof (induction fs arbitrary: pending acc pss w)
  case Nil
  then show ?case by simp
next
  case (Cons f fs)
  obtain ps pss' where pss: "pss = ps # pss'" "length pss' = length fs" using Cons.prems(2) by (cases pss) auto
  obtain content where content: "le_read_file env f = Some content" using Cons.prems(1) by auto
  let ?uri = "documentURI (le_cwd env) f"
  obtain p2 where wait: "waitForDiagnostics (pending(?uri := None)) ?uri (map Published ps @ TimerFired # wait_segments pss' @ rest) =
      Some (Inr (last_published ?uri ps), p2, wait_segments pss' @ rest)"
    using wait_timer [of "pending(?uri := None)" ?uri ps] by auto
  have "wait_segments pss @ rest = map Published ps @ TimerFired # wait_segments pss' @ rest"
    by (simp add: pss wait_segments_def)
  moreover obtain w1 where w1: "cc_notify C (DidOpen ?uri language 1 content) w = (None, w1)"
    using assms [of "DidOpen ?uri language 1 content" w] by (cases "cc_notify C (DidOpen ?uri language 1 content) w") simp
  moreover obtain w2 where w2: "cc_notify C (DidClose ?uri) w1 = (None, w2)"
    using assms [of "DidClose ?uri" w1] by (cases "cc_notify C (DidClose ?uri) w1") simp
  ultimately show ?case
    using Cons.prems(1) wait content Cons.IH [OF _ pss(2)]
    by (simp add: pss(1) file_lines_def open_close_def w1 w2 Let_def)
qed

section \<open>Sorting and deduplication\<close>

lemma check_text_key_inj:
  assumes "CHR '':'' \<notin> set (cd_Path d)" "CHR '':'' \<notin> set (cd_Path e)" "check_text_key d = check_text_key e"
  shows "d = e"
proof -
  have p: "cd_Path d = cd_Path e"
    and rest: "int_str (cd_Line d) @ CHR '':'' # int_str (cd_Column d) @ CHR '':'' # cd_Message d =
      int_str (cd_Line e) @ CHR '':'' # int_str (cd_Column e) @ CHR '':'' # cd_Message e"
    using cut_at_colon [OF assms(1,2)] assms(3) by (auto simp: check_text_key_def)
  from cut_at_colon [OF int_str_no_colon int_str_no_colon rest]
  have l: "cd_Line d = cd_Line e"
    and rest2: "int_str (cd_Column d) @ CHR '':'' # cd_Message d = int_str (cd_Column e) @ CHR '':'' # cd_Message e"
    by auto
  from cut_at_colon [OF int_str_no_colon int_str_no_colon rest2] p l show ?thesis by simp
qed

lemma check_sort_key_inj: "check_sort_key d = check_sort_key e \<Longrightarrow> d = e"
  by (simp add: check_sort_key_def)

lemma dedupe_check_sorted:
  "sorted_wrt (\<lambda>d e. check_sort_key d < check_sort_key e) (dedupeAndSortCheckDiagnostics ds)"
  unfolding dedupeAndSortCheckDiagnostics_def by (rule keep_first_sorted_strict) (rule check_sort_key_inj)

lemma dedupe_check_set:
  "\<forall>d \<in> set ds. CHR '':'' \<notin> set (cd_Path d) \<Longrightarrow> set (dedupeAndSortCheckDiagnostics ds) = set ds"
  unfolding dedupeAndSortCheckDiagnostics_def by (rule keep_first_all) (use check_text_key_inj in blast)

lemma dedupe_check_subset: "set (dedupeAndSortCheckDiagnostics ds) \<subseteq> set ds"
  by (auto simp: dedupeAndSortCheckDiagnostics_def dest!: keep_first_set)

section \<open>Properties\<close>

lemma error_lines_path: "d \<in> set (diagnosticsToCheckLines env root_dir uri ds) \<Longrightarrow>
    documentURIToPath (le_authority_ok env) uri = Inr path \<Longrightarrow> cd_Path d = relativePath root_dir path"
  by (auto simp: diagnosticsToCheckLines_def check_line_def)

lemma last_published_URI [simp]: "pd_URI (last_published uri ps) = uri"
proof (cases "filter (\<lambda>p. pd_URI p = uri) ps = []")
  case False
  then have "last (filter (\<lambda>p. pd_URI p = uri) ps) \<in> set (filter (\<lambda>p. pd_URI p = uri) ps)" by (rule last_in_set)
  then show ?thesis using False by (simp add: last_published_def)
qed (simp add: last_published_def)

lemma file_lines_plain:
  assumes "path_is_abs (le_cwd env)" "path_abs (le_cwd env) f = f" "CHR ''%'' \<notin> set f"
  shows "file_lines env workspaceRoot (f, ps) =
    map (check_line workspaceRoot f) (filter counts_as_error (pd_Diagnostics (last_published (documentURI (le_cwd env) f) ps)))"
proof -
  have "documentURIToPath (le_authority_ok env) (documentURI (le_cwd env) f) = Inr f"
    using documentURI_roundtrip [OF assms(1), of "le_authority_ok env" f] assms(2,3) by metis
  then show ?thesis by (simp add: file_lines_def diagnosticsToCheckLines_def Let_def)
qed

lemma timers_of_segments [simp]: "length (filter ends_wait (wait_segments pss)) = length pss"
proof -
  have "filter ends_wait (map Published ps @ [TimerFired]) = [TimerFired]" for ps by (induction ps) simp_all
  then show ?thesis by (induction pss) (simp_all add: wait_segments_def)
qed

text \<open>
  C27. What a check reports. When the files of the target can be read, the server takes the
  notifications and every wait ends by its timer, the check reports exactly the errors of the last
  diagnostics published for each file while the check waited for this file: strictly sorted by path,
  line, column and message, so each once, and nothing else. Paths are those of files whose names hold
  no percent sign and whose relative paths hold no colon. Anything published for a file earlier, while
  the check waited for another one, is ignored. The server sees each document opened and closed once.
\<close>

theorem check_Run_exact:
  assumes "path_is_abs (le_cwd env)" "normalizeLanguage (ck_Language opts) \<noteq> []"
    and "workspaceRoot = resolveWorkspaceRoot (le_cwd env) (ck_WorkspaceRoot opts)"
    and "collectCheckFiles env stat workspaceRoot (check_target env workspaceRoot opts)
      (normalizeLanguage (ck_Language opts)) (newWorkspaceIgnoreMatcher env workspaceRoot) = Inr files"
    and "int (length files) \<le> check_max_files opts"
    and "\<forall>f \<in> set files. le_read_file env f \<noteq> None \<and> path_abs (le_cwd env) f = f \<and>
      CHR ''%'' \<notin> set f \<and> CHR '':'' \<notin> set (relativePath workspaceRoot f)"
    and "fst (cc_subscribe C w) = None" "\<And>m w. fst (cc_notify C m w) = None"
    and "length pss = length files"
  shows "\<exists>found. check_Run env stat (Some C) opts (wait_segments pss @ rest) w =
      Some (Inr found, cc_unsubscribe C
        (fold (open_close env (normalizeLanguage (ck_Language opts)) C) files (snd (cc_subscribe C w)))) \<and>
    sorted_wrt (\<lambda>d e. check_sort_key d < check_sort_key e) found \<and>
    set found = {check_line workspaceRoot f d | f ps d. (f, ps) \<in> set (zip files pss) \<and>
      d \<in> set (pd_Diagnostics (last_published (documentURI (le_cwd env) f) ps)) \<and> counts_as_error d}"
proof -
  let ?lines = "concat (map (file_lines env workspaceRoot) (zip files pss))"
  have plain: "file_lines env workspaceRoot fp = map (check_line workspaceRoot (fst fp))
      (filter counts_as_error (pd_Diagnostics (last_published (documentURI (le_cwd env) (fst fp)) (snd fp))))"
    if "fp \<in> set (zip files pss)" for fp
    using file_lines_plain [OF assms(1), of "fst fp" workspaceRoot "snd fp"] assms(6) that
    by (cases fp) (auto dest: set_zip_leftD)
  have lines: "set ?lines = {check_line workspaceRoot f d | f ps d. (f, ps) \<in> set (zip files pss) \<and>
      d \<in> set (pd_Diagnostics (last_published (documentURI (le_cwd env) f) ps)) \<and> counts_as_error d}"
    using plain by force
  have colon: "\<forall>d \<in> set ?lines. CHR '':'' \<notin> set (cd_Path d)"
    unfolding lines using assms(6) by (auto simp: check_line_def dest: set_zip_leftD)
  obtain w1 where w1: "cc_subscribe C w = (None, w1)" using assms(7) by (cases "cc_subscribe C w") simp
  have "check_Run env stat (Some C) opts (wait_segments pss @ rest) w =
      Some (Inr (dedupeAndSortCheckDiagnostics ?lines),
        cc_unsubscribe C (fold (open_close env (normalizeLanguage (ck_Language opts)) C) files (snd (cc_subscribe C w))))"
    using assms(2,4,5) check_files_exact [OF assms(8) _ assms(9), of env workspaceRoot _ Map.empty "[]" rest w1] assms(6)
    by (simp add: check_Run_def assms(3) [symmetric] Let_def w1)
  then show ?thesis using dedupe_check_sorted dedupe_check_set [OF colon] lines by blast
qed


text \<open>The client that keeps the messages it is given.\<close>

definition recording_client :: "check_message list checkClient" where
  "recording_client = \<lparr>cc_notify = (\<lambda>m ms. (None, ms @ [m])), cc_subscribe = (\<lambda>ms. (None, ms)), cc_unsubscribe = (\<lambda>ms. ms)\<rparr>"

definition demo_diagnostic :: "int \<Rightarrow> int \<Rightarrow> string \<Rightarrow> Diagnostic" where
  "demo_diagnostic line severity message =
     \<lparr>dg_Range = \<lparr>rng_Start = \<lparr>pos_Line = line, pos_Character = 0\<rparr>, rng_End = \<lparr>pos_Line = line, pos_Character = 1\<rparr>\<rparr>,
      dg_Severity = severity, dg_Message = message\<rparr>"

definition demo_check_env :: lsp_env where
  "demo_check_env =
     \<lparr>le_cwd = ''/w'', le_sha256 = (\<lambda>s. s), le_open_file = (\<lambda>p. None), le_read_file = (\<lambda>p. Some ''x''),
      le_tree = (\<lambda>p. FsDir [(''b.go'', FsFile 1 True), (''a.go'', FsFile 1 True), (''c.py'', FsFile 1 True)]),
      le_authority_ok = (\<lambda>a. False)\<rparr>"

definition demo_check_opts :: CheckOptions where
  "demo_check_opts = \<lparr>ck_WorkspaceRoot = ''/w'', ck_TargetPath = '''', ck_Language = '' Go '', ck_MaxFiles = 0\<rparr>"

text \<open>While the check waits for the first file the second is published too; its errors are not shown.\<close>

definition demo_publications :: "PublishDiagnosticsParams list list" where
  "demo_publications =
     [[\<lparr>pd_URI = ''file:///w/b.go'', pd_Diagnostics = [demo_diagnostic 1 1 ''lost'']\<rparr>,
       \<lparr>pd_URI = ''file:///w/a.go'', pd_Diagnostics = []\<rparr>,
       \<lparr>pd_URI = ''file:///w/a.go'', pd_Diagnostics = [demo_diagnostic 7 0 ''expected  }'', demo_diagnostic 2 2 ''unused'']\<rparr>],
      []]"

lemma demo_check_parts:
  "normalizeLanguage (ck_Language demo_check_opts) = ''go''"
  "resolveWorkspaceRoot (le_cwd demo_check_env) (ck_WorkspaceRoot demo_check_opts) = ''/w''"
  "collectCheckFiles demo_check_env (\<lambda>p. TargetDir) ''/w'' (check_target demo_check_env ''/w'' demo_check_opts) ''go''
     (newWorkspaceIgnoreMatcher demo_check_env ''/w'') = Inr [''/w/a.go'', ''/w/b.go'']"
  "map (path_abs ''/w'') [''/w/a.go'', ''/w/b.go''] = [''/w/a.go'', ''/w/b.go'']"
  "map (relativePath ''/w'') [''/w/a.go'', ''/w/b.go''] = [''a.go'', ''b.go'']"
  "map (documentURI ''/w'') [''/w/a.go'', ''/w/b.go''] = [''file:///w/a.go'', ''file:///w/b.go'']"
  by code_simp+

lemma distinct_single: "set xs = {x} \<Longrightarrow> distinct xs \<Longrightarrow> xs = [x]"
  by (cases xs; cases "tl xs") auto

theorem check_Run_exact_witness:
  "\<exists>ms. check_Run demo_check_env (\<lambda>p. TargetDir) (Some recording_client) demo_check_opts
      (wait_segments demo_publications) [] =
    Some (Inr [\<lparr>cd_Path = ''a.go'', cd_Line = 8, cd_Column = 1, cd_Message = ''expected }''\<rparr>], ms)"
proof -
  let ?files = "[''/w/a.go'', ''/w/b.go'']"
  have parts: "path_abs ''/w'' ''/w/a.go'' = ''/w/a.go''" "path_abs ''/w'' ''/w/b.go'' = ''/w/b.go''"
    "relativePath ''/w'' ''/w/a.go'' = ''a.go''" "relativePath ''/w'' ''/w/b.go'' = ''b.go''"
    "documentURI ''/w'' ''/w/a.go'' = ''file:///w/a.go''" "documentURI ''/w'' ''/w/b.go'' = ''file:///w/b.go''"
    using demo_check_parts(4-6) by simp_all
  have env: "le_cwd demo_check_env = ''/w''" "\<And>f. le_read_file demo_check_env f = Some ''x''"
    by (simp_all add: demo_check_env_def)
  have "path_is_abs (le_cwd demo_check_env)" by code_simp
  moreover have "int (length ?files) \<le> check_max_files demo_check_opts" by code_simp
  moreover have "\<forall>f \<in> set ?files. le_read_file demo_check_env f \<noteq> None \<and> path_abs (le_cwd demo_check_env) f = f \<and>
      CHR ''%'' \<notin> set f \<and> CHR '':'' \<notin> set (relativePath ''/w'' f)"
    by (simp add: env parts)
  ultimately obtain found ms where run: "check_Run demo_check_env (\<lambda>p. TargetDir) (Some recording_client) demo_check_opts
        (wait_segments demo_publications @ []) [] = Some (Inr found, ms)"
      "sorted_wrt (\<lambda>d e. check_sort_key d < check_sort_key e) found"
    and found: "set found = {check_line ''/w'' f d | f ps d. (f, ps) \<in> set (zip ?files demo_publications) \<and>
        d \<in> set (pd_Diagnostics (last_published (documentURI (le_cwd demo_check_env) f) ps)) \<and> counts_as_error d}"
    using check_Run_exact [of demo_check_env demo_check_opts "''/w''" "\<lambda>p. TargetDir" ?files recording_client "[]"
        demo_publications "[]"] demo_check_parts(1-3)
    by (auto simp: recording_client_def demo_publications_def)
  have "set found = {\<lparr>cd_Path = ''a.go'', cd_Line = 8, cd_Column = 1, cd_Message = ''expected }''\<rparr>}"
  proof -
    have "normalizeDiagnosticMessage ''expected  }'' = ''expected }''" by code_simp
    moreover have "set found = set (concat (map (\<lambda>fp. map (check_line ''/w'' (fst fp)) (filter counts_as_error
        (pd_Diagnostics (last_published (documentURI (le_cwd demo_check_env) (fst fp)) (snd fp))))) (zip ?files demo_publications)))"
      unfolding found by force
    ultimately show ?thesis
      by (simp add: demo_publications_def demo_diagnostic_def env parts last_published_def check_line_def counts_as_error_def
          DiagnosticSeverityError_def)
  qed
  moreover have "distinct found"
  proof -
    have "sorted_wrt (<) (map check_sort_key found)" using run(2) by (simp add: sorted_wrt_map)
    then have "distinct (map check_sort_key found)" by (simp only: strict_sorted_iff)
    then show ?thesis by (simp add: distinct_map)
  qed
  ultimately have "found = [\<lparr>cd_Path = ''a.go'', cd_Line = 8, cd_Column = 1, cd_Message = ''expected }''\<rparr>]"
    by (rule distinct_single)
  then show ?thesis using run(1) by simp
qed

text \<open>A check ends when every wait can end.\<close>

lemma check_Run_returns:
  assumes "collectCheckFiles env stat (resolveWorkspaceRoot (le_cwd env) (ck_WorkspaceRoot opts))
      (check_target env (resolveWorkspaceRoot (le_cwd env) (ck_WorkspaceRoot opts)) opts) (normalizeLanguage (ck_Language opts))
      (newWorkspaceIgnoreMatcher env (resolveWorkspaceRoot (le_cwd env) (ck_WorkspaceRoot opts))) = Inr files"
    and "length files \<le> length (filter ends_wait es)"
  shows "check_Run env stat client opts es w \<noteq> None"
  using assms(1)
  by (auto simp: check_Run_def Let_def check_files_returns [OF assms(2)] split: option.split prod.split sum.split)


text \<open>
  The test of the relative path never excludes a file: outside the workspace \<open>relativePath\<close> gives the
  absolute path, which does not start with dots.
\<close>

lemma strip_common_suffix: "\<exists>xs. b = xs @ snd (strip_common a b)"
proof (induction a b rule: strip_common.induct)
  case (1 a as b bs)
  then show ?case by (cases "a = b") (auto intro: exI [of _ "b # xs" for xs])
qed simp_all

lemma relative_test_vacuous:
  assumes "names_ok ns"
  shows "\<not> has_prefix (relativePath workspaceRoot (abs_path ns)) ''..''"
proof -
  have abs: "path_clean (abs_path ns) = abs_path ns" "\<not> has_prefix (abs_path ns) ''..''"
    using abs_path_clean [OF assms] by (simp_all add: abs_path_def)
  show ?thesis
  proof (cases "\<exists>rel. path_rel workspaceRoot (abs_path ns) = Inr rel \<and> \<not> has_prefix rel ''..''")
    case False
    then show ?thesis using abs by (auto simp: relativePath_def split: sum.split)
  next
    case True
    then obtain rel where rel: "path_rel workspaceRoot (abs_path ns) = Inr rel" "\<not> has_prefix rel ''..''" by blast
    have "rel = ''.'' \<or> (\<exists>ts. names_ok ts \<and> rel = rel_path ts)"
    proof -
      obtain bs ts where s: "strip_common (rel_segs (if path_clean workspaceRoot = ''.'' then [] else path_clean workspaceRoot)) ns = (bs, ts)"
        by (metis surj_pair)
      obtain xs where "ns = xs @ ts" using strip_common_suffix [of ns] s by (metis snd_conv)
      then have "names_ok ts" using assms by simp
      moreover have "rel = ''.'' \<or> rel = join ''/'' (replicate (length bs) ''..'' @ ts)"
        using rel(1) s by (auto simp: path_rel_def abs rel_segs_abs [OF assms] Let_def split: if_splits)
      moreover have "join ''/'' (replicate (Suc n) ''..'' @ ts) = ''..'' @ drop 2 (join ''/'' (replicate (Suc n) ''..'' @ ts))" for n
        by (cases "replicate n ''..'' @ ts") simp_all
      ultimately show ?thesis using rel(2) by (cases bs) (auto simp: rel_path_def has_prefix_iff)
    qed
    moreover have "\<not> has_prefix (path_clean ''.'') ''..''" "\<not> has_prefix (path_clean (rel_path [])) ''..''" by code_simp+
    ultimately have "\<not> has_prefix (path_clean rel) ''..''" using rel(2) by (metis rel_path_clean)
    then show ?thesis using rel(1) abs by (auto simp: relativePath_def)
  qed
qed


section \<open>Priming a workspace\<close>

definition languageRequiresWorkspacePrime :: "string \<Rightarrow> bool" where
  "languageRequiresWorkspacePrime language =
     (normalizeLanguage language = ''javascript'' \<or> normalizeLanguage language = ''typescript'')"

definition workspacePrimeLanguageMatches :: "string \<Rightarrow> string \<Rightarrow> bool" where
  "workspacePrimeLanguageMatches target candidate =
     (if normalizeLanguage target = ''typescript'' then candidate = ''typescript'' \<or> candidate = ''tsx''
      else if normalizeLanguage target = ''javascript'' then candidate = ''javascript'' \<or> candidate = ''jsx''
      else normalizeLanguage candidate = normalizeLanguage target)"

definition workspacePrimeLanguageID :: "string \<Rightarrow> string \<Rightarrow> string" where
  "workspacePrimeLanguageID language filePath =
     (let l = LanguageFromExtension (path_ext filePath)
      in if l = ''tsx'' then ''typescriptreact'' else if l = ''jsx'' then ''javascriptreact''
         else normalizeLanguage language)"

definition prime_accepts :: "string \<Rightarrow> string \<Rightarrow> bool" where
  "prime_accepts language ext = workspacePrimeLanguageMatches language (LanguageFromExtension ext)"

text \<open>The first file in order, or the empty path.\<close>

definition workspacePrimeFile :: "lsp_env \<Rightarrow> string \<Rightarrow> string \<Rightarrow> check_error + string" where
  "workspacePrimeFile env workspaceRoot language =
     (case collect_node (le_cwd env) (newWorkspaceIgnoreMatcher env workspaceRoot) (prime_accepts language)
             workspaceRoot workspaceRoot (le_tree env workspaceRoot) of
        None \<Rightarrow> Inl (CheckWalkFailed workspaceRoot)
      | Some paths \<Rightarrow> (case sort (map path_clean paths) of [] \<Rightarrow> Inr [] | f # fs \<Rightarrow> Inr f))"

definition PrimeClientWorkspace ::
  "lsp_env \<Rightarrow> 'w checkClient option \<Rightarrow> string \<Rightarrow> string \<Rightarrow> 'w \<Rightarrow> check_error option \<times> 'w" where
  "PrimeClientWorkspace env client root_dir language w =
     (case client of
        None \<Rightarrow> (Some CheckClientRequired, w)
      | Some C \<Rightarrow>
          if \<not> languageRequiresWorkspacePrime language then (None, w)
          else (case workspacePrimeFile env (resolveWorkspaceRoot (le_cwd env) root_dir) language of
                  Inl err \<Rightarrow> (Some err, w)
                | Inr filePath \<Rightarrow>
                    if filePath = [] then (None, w)
                    else (case le_read_file env filePath of
                            None \<Rightarrow> (Some (CheckReadFailed filePath), w)
                          | Some content \<Rightarrow>
                              (case cc_notify C (DidOpen (documentURI (le_cwd env) filePath)
                                       (workspacePrimeLanguageID language filePath) 1 content) w of
                                 (Some err, w1) \<Rightarrow> (Some (OpenFailed filePath err), w1)
                               | (None, w1) \<Rightarrow> (None, w1)))))"

text \<open>The file is the least of the workspace's files of the language that are not ignored.\<close>

lemma all_files_names:
  "(ms, f) \<in> set (all_files ns t) \<Longrightarrow> names_ok ns \<Longrightarrow> fs_names_ok t \<Longrightarrow> names_ok ms"
proof (induction ns t rule: all_files.induct)
  case (3 ns entries)
  then obtain n c where "(n, c) \<in> set entries" "(ms, f) \<in> set (all_files (ns @ [n]) c)" by auto
  with 3 show ?case by fastforce
qed auto

lemma sort_first: "(case sort xs of [] \<Rightarrow> g d | x # rest \<Rightarrow> g x) = g (if xs = [] then d else Min (set xs))"
proof (cases "sort xs")
  case Nil
  then have "xs = []" by (metis length_0_conv length_sort)
  then show ?thesis by simp
next
  case (Cons x rest)
  then have "set xs = set (x # rest)" "sorted (x # rest)" by (metis set_sort, metis sorted_sort)
  moreover from this have "Min (set (x # rest)) = x" by (intro Min_eqI) auto
  ultimately show ?thesis using Cons by auto
qed

lemma workspacePrimeFile_first:
  assumes "names_ok rs" "fs_names_ok (le_tree env (abs_path rs))" "fs_readable (le_tree env (abs_path rs))"
    and "fits = {abs_path (rs @ ns) | ns f. (ns, f) \<in> set (all_files [] (le_tree env (abs_path rs))) \<and>
      \<not> on_the_way (walk_ignored (newWorkspaceIgnoreMatcher env (abs_path rs))) 0 ns \<and>
      collect_keep (prime_accepts language) rs (ns, f)}"
  shows "workspacePrimeFile env (abs_path rs) language = Inr (if fits = {} then [] else Min fits)"
proof -
  let ?m = "newWorkspaceIgnoreMatcher env (abs_path rs)" and ?t = "le_tree env (abs_path rs)"
  let ?ns = "pruned (walk_ignored ?m) (collect_keep (prime_accepts language) rs) [] ?t"
  have ns: "set ?ns = fst ` {f \<in> set (all_files [] ?t). \<not> on_the_way (walk_ignored ?m) 0 (fst f) \<and>
      collect_keep (prime_accepts language) rs f}"
    unfolding pruned_filter by (auto simp: image_iff)
  have c: "collect_node (le_cwd env) ?m (prime_accepts language) (abs_path rs) (abs_path rs) ?t =
      Some (map (\<lambda>ns. abs_path (rs @ ns)) ?ns)"
    using collect_node_pruned [OF assms(1) workspace_matcher_root [OF assms(1)] _ assms(2,3), of "[]"] by simp
  obtain ps where ps: "ps = map (\<lambda>ns. abs_path (rs @ ns)) ?ns" by blast
  have "map path_clean ps = ps"
  proof (rule map_idI [where f = path_clean])
    fix p assume "p \<in> set ps"
    then obtain ns f where "p = abs_path (rs @ ns)" "(ns, f) \<in> set (all_files [] ?t)" using ns ps by auto
    then show "path_clean p = p" using all_files_names [of ns f "[]" ?t] assms(1,2) by (simp add: abs_path_clean)
  qed
  moreover have "set ps = fits" unfolding ps assms(4) set_map ns by force
  ultimately show ?thesis
    using sort_first [of "Inr :: string \<Rightarrow> check_error + string" "[]" ps] by (auto simp: workspacePrimeFile_def c [folded ps])
qed

text \<open>
  A file of TypeScript with markup is opened to prime a workspace, but never checked: no server is
  registered for its language.
\<close>

lemma tsx_not_checked:
  "prime_accepts ''typescript'' ''.tsx''" "\<not> language_accepts ''typescript'' ''.tsx''"
  "registry_Lookup default_languages (Some (NewRegistry [])) (LanguageFromExtension ''.tsx'') =
     Inl (UnknownLanguage ''tsx'' default_languages)"
  by code_simp+

end
