(* ===== verification/LspConnect.thy ===== *)
theory LspConnect
  imports LspLifecycle LspCheck
begin

text \<open>
  \<open>pkg/lsp/daemon_client.go\<close>: connecting to the daemon of a workspace, with its retries. A retry goes
  through \<open>Lifecycle\<close> (theory \<open>LspLifecycle\<close>), so the files and the log of \<open>lsp_world\<close> are threaded. What
  the system reports differs from attempt to attempt: an attempt has a \<open>lifecycle_env\<close> for \<open>Ensure\<close> and one
  for \<open>Stop\<close>, and each try to connect a \<open>link\<close>.
\<close>

section \<open>Errors\<close>

text \<open>
  A Go error that the connector looks into: its text and what \<open>errors.Is\<close> and \<open>errors.As\<close> find in its chain.
\<close>

record conn_error =
  ge_Text :: string
  ge_Cancelled :: bool
  ge_Unsupported :: bool
  ge_NotExist :: bool
  ge_NoRetry :: bool
  ge_Legacy :: bool

definition plain_error :: "string \<Rightarrow> conn_error" where
  "plain_error text =
     \<lparr>ge_Text = text, ge_Cancelled = False, ge_Unsupported = False, ge_NotExist = False, ge_NoRetry = False, ge_Legacy = False\<rparr>"

text \<open>\<open>fmt.Errorf\<close> with \<open>%w\<close>, and \<open>errors.Join\<close>.\<close>

definition wrap_conn :: "string \<Rightarrow> conn_error \<Rightarrow> conn_error" where
  "wrap_conn label e = e\<lparr>ge_Text := label @ '': '' @ ge_Text e\<rparr>"

definition join_errors :: "conn_error \<Rightarrow> conn_error \<Rightarrow> conn_error" where
  "join_errors e f =
     \<lparr>ge_Text = ge_Text e @ [newline] @ ge_Text f, ge_Cancelled = (ge_Cancelled e \<or> ge_Cancelled f),
      ge_Unsupported = (ge_Unsupported e \<or> ge_Unsupported f), ge_NotExist = (ge_NotExist e \<or> ge_NotExist f),
      ge_NoRetry = (ge_NoRetry e \<or> ge_NoRetry f), ge_Legacy = (ge_Legacy e \<or> ge_Legacy f)\<rparr>"

definition daemonConnectorNoRetryError :: "conn_error \<Rightarrow> conn_error" where
  "daemonConnectorNoRetryError e = e\<lparr>ge_NoRetry := True\<rparr>"

definition DaemonLegacyFallbackError :: "string \<Rightarrow> conn_error" where
  "DaemonLegacyFallbackError goos =
     (plain_error (''lsp daemon requires legacy startup fallback'' @ (if trim_space goos = [] then [] else '': '' @ goos)))
       \<lparr>ge_Legacy := True\<rparr>"

definition ErrDaemonDisabled :: conn_error where
  "ErrDaemonDisabled = plain_error ''lsp daemon disabled on windows''"

definition daemonBusyMessage :: string where "daemonBusyMessage = ''lsp daemon busy''"

definition shouldRetry :: "conn_error \<Rightarrow> bool \<Rightarrow> bool" where
  "shouldRetry e ctx_done \<longleftrightarrow>
     \<not> ctx_done \<and> \<not> ge_Cancelled e \<and> \<not> ge_Unsupported e \<and> \<not> ge_NoRetry e \<and> \<not> contains (ge_Text e) ''LSP required but ''"

definition shouldRetryEnsure :: "conn_error \<Rightarrow> bool \<Rightarrow> bool" where
  "shouldRetryEnsure e ctx_done \<longleftrightarrow>
     shouldRetry e ctx_done \<and> (ge_NotExist e \<or> contains (ge_Text e) ''rename lifecycle state'')"

definition isTransientConnectError :: "conn_error \<Rightarrow> bool" where
  "isTransientConnectError e \<longleftrightarrow>
     contains (ge_Text e) daemonBusyMessage \<or> contains (ge_Text e) ''broken pipe'' \<or>
     contains (ge_Text e) ''connection reset by peer'' \<or> contains (ge_Text e) ''missing Content-Length header''"

section \<open>The connector\<close>

text \<open>
  The options for the server of Java: the JDK for Gradle and whether the import of Gradle projects is
  disabled; together with them the option that symbols include the declarations of methods is sent.
\<close>

record jdtls_options =
  jo_GradleHome :: "string option"
  jo_GradleDisabled :: bool

record InitializeParams =
  ip_RootURI :: string
  ip_ClientName :: string
  ip_FolderURI :: string
  ip_FolderName :: string
  ip_InitializationOptions :: "jdtls_options option"

record DaemonConnector =
  dc_registry :: "registry_entries option"
  dc_lifecycle :: "Lifecycle option"
  dc_initializeParamsBuilder :: "(string \<Rightarrow> ServerSpec \<Rightarrow> conn_error + InitializeParams) option"
  dc_requestTimeoutResolver :: "(ServerSpec \<Rightarrow> int) option"
  dc_goos :: string
  dc_retryBudget :: int
  dc_connectRetryBudget :: int

definition defaultDaemonConnectorReqTimeout :: int where
  "defaultDaemonConnectorReqTimeout = 10 * 1000000000"

definition defaultDaemonConnectorJavaReqTimeout :: int where
  "defaultDaemonConnectorJavaReqTimeout = 60 * 1000000000"

definition defaultDaemonConnectorRequestTimeout :: "ServerSpec \<Rightarrow> int" where
  "defaultDaemonConnectorRequestTimeout spec =
     (if trim_space (to_lower (ss_Binary spec)) = ''jdtls'' then defaultDaemonConnectorJavaReqTimeout
      else defaultDaemonConnectorReqTimeout)"

definition daemonWorkspaceURI :: "string \<Rightarrow> string \<Rightarrow> string" where
  "daemonWorkspaceURI cwd workspaceRoot =
     (let normalized = path_abs cwd workspaceRoot
      in file_url (if has_prefix normalized ''/'' then normalized else slash # normalized))"

definition defaultDaemonConnectorInitializeParams ::
  "string \<Rightarrow> string \<Rightarrow> ServerSpec \<Rightarrow> conn_error + InitializeParams" where
  "defaultDaemonConnectorInitializeParams cwd workspaceRoot spec =
     (let rootURI = daemonWorkspaceURI cwd workspaceRoot;
          base = path_base workspaceRoot;
          workspaceName = (if trim_space base = [] \<or> base = ''/'' then ''workspace'' else base)
      in Inr \<lparr>ip_RootURI = rootURI, ip_ClientName = ''cs'', ip_FolderURI = rootURI, ip_FolderName = workspaceName,
              ip_InitializationOptions = None\<rparr>)"

text \<open>The options, and the connector that the constructor returns.\<close>

definition WithDaemonConnectorLifecycle :: "Lifecycle \<Rightarrow> DaemonConnector \<Rightarrow> DaemonConnector" where
  "WithDaemonConnectorLifecycle l c = c\<lparr>dc_lifecycle := Some l, dc_registry := Some (lf_registry l)\<rparr>"

definition WithDaemonConnectorInitializeParamsBuilder ::
  "(string \<Rightarrow> ServerSpec \<Rightarrow> conn_error + InitializeParams) option \<Rightarrow> DaemonConnector \<Rightarrow> DaemonConnector" where
  "WithDaemonConnectorInitializeParamsBuilder builder c =
     (if builder = None then c else c\<lparr>dc_initializeParamsBuilder := builder\<rparr>)"

definition WithDaemonConnectorRequestTimeoutResolver :: "(ServerSpec \<Rightarrow> int) option \<Rightarrow> DaemonConnector \<Rightarrow> DaemonConnector" where
  "WithDaemonConnectorRequestTimeoutResolver resolver c =
     (if resolver = None then c else c\<lparr>dc_requestTimeoutResolver := resolver\<rparr>)"

definition withDaemonConnectorGOOS :: "string \<Rightarrow> DaemonConnector \<Rightarrow> DaemonConnector" where
  "withDaemonConnectorGOOS goos c = c\<lparr>dc_goos := trim_space (to_lower goos)\<rparr>"

definition withDaemonConnectorRetryBudget :: "int \<Rightarrow> DaemonConnector \<Rightarrow> DaemonConnector" where
  "withDaemonConnectorRetryBudget retryBudget c = c\<lparr>dc_retryBudget := retryBudget\<rparr>"

definition or_default :: "'a \<Rightarrow> 'a option \<Rightarrow> 'a option" where
  "or_default d x = (if x = None then Some d else x)"

definition NewDaemonConnector ::
  "string \<Rightarrow> string \<Rightarrow> registry_entries option \<Rightarrow> (DaemonConnector \<Rightarrow> DaemonConnector) list \<Rightarrow> DaemonConnector" where
  "NewDaemonConnector cwd goos registry opts =
     (let r = the (or_default (NewRegistry []) registry);
          c = fold (\<lambda>opt. opt) opts
            \<lparr>dc_registry = Some r, dc_lifecycle = Some (NewLifecycle (Some r) []),
             dc_initializeParamsBuilder = Some (defaultDaemonConnectorInitializeParams cwd),
             dc_requestTimeoutResolver = Some defaultDaemonConnectorRequestTimeout,
             dc_goos = goos, dc_retryBudget = 1, dc_connectRetryBudget = 1\<rparr>;
          registry1 = or_default (NewRegistry []) (dc_registry c)
      in c\<lparr>dc_registry := registry1,
           dc_lifecycle := or_default (NewLifecycle registry1 []) (dc_lifecycle c),
           dc_initializeParamsBuilder :=
             or_default (defaultDaemonConnectorInitializeParams cwd) (dc_initializeParamsBuilder c),
           dc_requestTimeoutResolver := or_default defaultDaemonConnectorRequestTimeout (dc_requestTimeoutResolver c),
           dc_goos := (if trim_space (dc_goos c) = [] then goos else dc_goos c),
           dc_retryBudget := max 0 (dc_retryBudget c),
           dc_connectRetryBudget := max 0 (dc_connectRetryBudget c)\<rparr>)"

section \<open>One connection\<close>

text \<open>
  What happens to one try: dialling, the initialize handshake (an error or nothing), the client and the
  files for the priming of the workspace, and whether the context is done when the try has failed.
\<close>

record link =
  kl_dial :: "string \<Rightarrow> conn_error option"
  kl_initialize :: "InitializeParams \<Rightarrow> conn_error option"
  kl_client :: "unit checkClient"
  kl_files :: lsp_env
  kl_describe :: "check_error \<Rightarrow> conn_error"
  kl_ctx_done :: bool

text \<open>What is done on the socket.\<close>

datatype link_event = Dialled string | ClosedSocket

definition defaultDaemonConnectorDialSocket :: "link \<Rightarrow> string \<Rightarrow> conn_error option \<times> link_event list" where
  "defaultDaemonConnectorDialSocket k socketPath =
     (let trimmed = trim_space socketPath
      in if trimmed = [] then (Some (plain_error ''daemon socket path is required''), [])
         else case kl_dial k trimmed of
                Some err \<Rightarrow> (Some (wrap_conn (''dial daemon socket '' @ trimmed) err), [])
              | None \<Rightarrow> (None, [Dialled trimmed]))"

definition connectLease ::
  "DaemonConnector \<Rightarrow> link \<Rightarrow> Lease \<Rightarrow> string \<Rightarrow> ServerSpec \<Rightarrow> conn_error option \<times> link_event list" where
  "connectLease c k lease workspaceRoot spec =
     (case defaultDaemonConnectorDialSocket k (ls_SocketPath lease) of
        (Some err, ev) \<Rightarrow> (Some (wrap_conn ''dial daemon socket'' err), ev)
      | (None, ev) \<Rightarrow>
          (let requestTimeout = the (dc_requestTimeoutResolver c) spec
           in if requestTimeout \<le> 0
              then (Some (daemonConnectorNoRetryError (plain_error ''request timeout must be > 0'')), ev @ [ClosedSocket])
              else case the (dc_initializeParamsBuilder c) workspaceRoot spec of
                     Inl err \<Rightarrow> (Some (daemonConnectorNoRetryError (wrap_conn ''build initialize params'' err)), ev @ [ClosedSocket])
                   | Inr params \<Rightarrow>
                       (case kl_initialize k params of
                          Some err \<Rightarrow> (Some (wrap_conn ''initialize daemon client'' err), ev @ [ClosedSocket])
                        | None \<Rightarrow>
                            (case PrimeClientWorkspace (kl_files k) (Some (kl_client k)) workspaceRoot (ss_Language spec) () of
                               (Some err, u) \<Rightarrow>
                                 (Some (wrap_conn ''prime daemon client workspace'' (kl_describe k err)), ev @ [ClosedSocket])
                             | (None, u) \<Rightarrow> (None, ev)))))"

text \<open>\<open>budget\<close> is the number of tries left, \<open>k\<close> gives the links of this and the later tries.\<close>

fun connectLeaseWithRetry ::
  "DaemonConnector \<Rightarrow> (nat \<Rightarrow> link) \<Rightarrow> nat \<Rightarrow> nat \<Rightarrow> Lease \<Rightarrow> string \<Rightarrow> ServerSpec \<Rightarrow> conn_error option \<times> link_event list" where
  "connectLeaseWithRetry c k budget attempt lease workspaceRoot spec =
     (case connectLease c (k attempt) lease workspaceRoot spec of
        (None, ev) \<Rightarrow> (None, ev)
      | (Some err, ev) \<Rightarrow>
          (case budget of
             0 \<Rightarrow> (Some err, ev)
           | Suc budget' \<Rightarrow>
               if kl_ctx_done (k attempt) \<or> \<not> isTransientConnectError err then (Some err, ev)
               else (case connectLeaseWithRetry c k budget' (Suc attempt) lease workspaceRoot spec of
                       (r, ev') \<Rightarrow> (r, ev @ ev'))))"

section \<open>Connect\<close>

text \<open>
  What an attempt meets: the surroundings of \<open>Ensure\<close> and \<open>Stop\<close>, the links, and whether the context is done
  after a failure of either.
\<close>

record attempt_env =
  at_ensure :: lifecycle_env
  at_stop :: lifecycle_env
  at_links :: "nat \<Rightarrow> link"
  at_done_ensure :: bool
  at_done_connect :: bool

text \<open>The text of an error of the lifecycle is a parameter.\<close>

type_synonym describe_lifecycle = "lifecycle_error \<Rightarrow> conn_error"

fun connect_attempts ::
  "DaemonConnector \<Rightarrow> describe_lifecycle \<Rightarrow> (nat \<Rightarrow> attempt_env) \<Rightarrow> string \<Rightarrow> ServerSpec \<Rightarrow> nat \<Rightarrow> nat \<Rightarrow> lsp_world \<Rightarrow>
   (conn_error + Lease) \<times> link_event list \<times> lsp_world" where
  "connect_attempts c describe at_env canonicalRoot spec budget attempt w =
     (let l = the (dc_lifecycle c); a = at_env attempt
      in case Ensure (at_ensure a) l canonicalRoot (ss_Language spec) w of
           (Inl err, w1) \<Rightarrow>
             (if \<not> shouldRetryEnsure (describe err) (at_done_ensure a) then (Inl (wrap_conn ''ensure daemon lease'' (describe err)), [], w1)
              else case budget of
                     0 \<Rightarrow> (Inl (wrap_conn ''ensure daemon lease'' (describe err)), [], w1)
                   | Suc budget' \<Rightarrow> connect_attempts c describe at_env canonicalRoot spec budget' (Suc attempt) w1)
         | (Inr lease, w1) \<Rightarrow>
             (case connectLeaseWithRetry c (at_links a) (nat (dc_connectRetryBudget c)) 0 lease canonicalRoot spec of
                (None, ev) \<Rightarrow> (Inr lease, ev, w1)
              | (Some err, ev) \<Rightarrow>
                  (if \<not> shouldRetry err (at_done_connect a) then (Inl (wrap_conn ''connect daemon client'' err), ev, w1)
                   else case budget of
                     0 \<Rightarrow> (Inl (wrap_conn ''connect daemon client'' err), ev, w1)
                   | Suc budget' \<Rightarrow>
                       (case Stop (at_stop a) l canonicalRoot (ss_Language spec) w1 of
                          (Some stopErr, w2) \<Rightarrow>
                            (Inl (join_errors (wrap_conn ''connect daemon client'' err)
                               (wrap_conn ''cleanup stale daemon state'' (describe stopErr))), ev, w2)
                        | (None, w2) \<Rightarrow>
                            (case connect_attempts c describe at_env canonicalRoot spec budget' (Suc attempt) w2 of
                               (r, ev', w3) \<Rightarrow> (r, ev @ ev', w3))))))"

definition connector_Connect ::
  "DaemonConnector option \<Rightarrow> describe_lifecycle \<Rightarrow> (registry_error \<Rightarrow> conn_error) \<Rightarrow> conn_error option \<Rightarrow> string \<Rightarrow>
   (nat \<Rightarrow> attempt_env) \<Rightarrow> string \<Rightarrow> string \<Rightarrow> lsp_world \<Rightarrow> (conn_error + Lease) \<times> link_event list \<times> lsp_world" where
  "connector_Connect connector describe describe_registry ctx_err cwd at_env workspaceRoot language w =
     (case connector of
        None \<Rightarrow> (Inl (plain_error ''daemon connector is nil''), [], w)
      | Some c \<Rightarrow>
          (case ctx_err of
             Some err \<Rightarrow> (Inl err, [], w)
           | None \<Rightarrow>
               if dc_goos c = ''windows''
               then (Inl (join_errors (DaemonLegacyFallbackError (dc_goos c)) ErrDaemonDisabled), [], w)
               else case registry_Lookup default_languages (dc_registry c) language of
                 Inl err \<Rightarrow> (Inl (describe_registry err), [], w)
               | Inr spec \<Rightarrow>
                   (case canonicalWorkspaceRoot cwd workspaceRoot of
                      Inl err \<Rightarrow> (Inl (describe err), [], w)
                    | Inr canonicalRoot \<Rightarrow>
                        if dc_retryBudget c < 0
                        then (Inl (wrap_conn ''connect daemon client'' (plain_error ''unknown daemon connector error'')), [], w)
                        else connect_attempts c describe at_env canonicalRoot spec (nat (dc_retryBudget c)) 0 w)))"

section \<open>What a connection leaves open\<close>

definition dialled :: "link_event list \<Rightarrow> nat" where
  "dialled ev = length (filter (\<lambda>e. e \<noteq> ClosedSocket) ev)"

definition hung_up :: "link_event list \<Rightarrow> nat" where
  "hung_up ev = length (filter (\<lambda>e. e = ClosedSocket) ev)"

lemma count_events [simp]:
  "dialled [] = 0" "dialled (ev @ ev') = dialled ev + dialled ev'" "dialled [Dialled s] = 1" "dialled [ClosedSocket] = 0"
  "dialled [Dialled s, ClosedSocket] = 1" "hung_up [Dialled s, ClosedSocket] = 1"
  "hung_up [] = 0" "hung_up (ev @ ev') = hung_up ev + hung_up ev'" "hung_up [Dialled s] = 0" "hung_up [ClosedSocket] = 1"
  by (simp_all add: dialled_def hung_up_def)

lemma dial_events:
  "defaultDaemonConnectorDialSocket k socketPath = (r, ev) \<Longrightarrow>
    ev = (if r = None then [Dialled (trim_space socketPath)] else [])"
  by (auto simp: defaultDaemonConnectorDialSocket_def Let_def split: if_splits option.splits)

lemma connectLease_events:
  assumes "connectLease c k lease workspaceRoot spec = (r, ev)"
  shows "dialled ev = hung_up ev + (if r = None then 1 else 0) \<and> dialled ev \<le> 1"
proof -
  obtain r0 ev0 where d: "defaultDaemonConnectorDialSocket k (ls_SocketPath lease) = (r0, ev0)" by (metis surj_pair)
  show ?thesis
    using assms dial_events [OF d]
    by (cases r0) (auto simp: connectLease_def d Let_def split: if_splits sum.splits option.splits prod.splits)
qed

declare connectLeaseWithRetry.simps [simp del] connect_attempts.simps [simp del]

lemma connectLeaseWithRetry_events:
  assumes "connectLeaseWithRetry c k budget attempt lease workspaceRoot spec = (r, ev)"
  shows "dialled ev = hung_up ev + (if r = None then 1 else 0) \<and> dialled ev \<le> Suc budget \<and>
    (r = None \<longrightarrow> (\<exists>j \<le> budget. fst (connectLease c (k (attempt + j)) lease workspaceRoot spec) = None))"
  using assms
proof (induction budget arbitrary: attempt r ev)
  case 0
  obtain r0 ev0 where one: "connectLease c (k attempt) lease workspaceRoot spec = (r0, ev0)" by (metis surj_pair)
  with 0 have "r = r0" "ev = ev0" by (auto simp: connectLeaseWithRetry.simps split: option.splits)
  then show ?case using connectLease_events [OF one] one by auto
next
  case (Suc budget)
  obtain r0 ev0 where one: "connectLease c (k attempt) lease workspaceRoot spec = (r0, ev0)" by (metis surj_pair)
  note first = connectLease_events [OF one]
  obtain r1 ev1 where more: "connectLeaseWithRetry c k budget (Suc attempt) lease workspaceRoot spec = (r1, ev1)" by (metis surj_pair)
  note later = Suc.IH [OF more]
  consider "r = r0" "ev = ev0" | "r0 \<noteq> None" "r = r1" "ev = ev0 @ ev1"
    using Suc.prems one more by (auto simp: connectLeaseWithRetry.simps [of _ _ "Suc budget"] split: option.splits if_splits)
  then show ?case
  proof cases
    case 1
    then show ?thesis using first one by (auto intro: exI [of _ 0])
  next
    case 2
    have "\<exists>j \<le> Suc budget. fst (connectLease c (k (attempt + j)) lease workspaceRoot spec) = None"
      if "\<exists>j \<le> budget. fst (connectLease c (k (Suc attempt + j)) lease workspaceRoot spec) = None"
      using that by (metis Suc_le_mono add_Suc_shift)
    then show ?thesis using 2 first later by auto
  qed
qed

text \<open>The log only grows.\<close>

lemma Stop_careful: "careful env w (snd (Stop env l workspaceRoot language w))"
  by (auto simp: Stop_def StopByKey_def careful_stop_state split: sum.splits)

lemma Stop_log: "\<exists>acts. lw_log (snd (Stop env l workspaceRoot language w)) = lw_log w @ acts"
  using Stop_careful careful_def by blast

lemma connect_attempts_outcome:
  assumes "connect_attempts c describe at_env canonicalRoot spec budget attempt w = (r, ev, w')"
  shows "dialled ev = hung_up ev + (if isl r then 0 else 1) \<and>
    dialled ev \<le> Suc budget * Suc (nat (dc_connectRetryBudget c)) \<and>
    (\<exists>acts. lw_log w' = lw_log w @ acts) \<and>
    (\<forall>lease. r = Inr lease \<longrightarrow>
      (\<exists>i \<le> budget. \<exists>j \<le> nat (dc_connectRetryBudget c). \<exists>w0.
        Ensure (at_ensure (at_env (attempt + i))) (the (dc_lifecycle c)) canonicalRoot (ss_Language spec) w0 = (Inr lease, w') \<and>
        fst (connectLease c (at_links (at_env (attempt + i)) j) lease canonicalRoot spec) = None))"
  using assms
proof (induction budget arbitrary: attempt w r ev w')
  case 0
  let ?l = "the (dc_lifecycle c)" and ?a = "at_env attempt"
  obtain e w1 where ensure: "Ensure (at_ensure ?a) ?l canonicalRoot (ss_Language spec) w = (e, w1)" by (metis surj_pair)
  have log1: "\<exists>acts. lw_log w1 = lw_log w @ acts" using Ensure_log [of "at_ensure ?a" ?l canonicalRoot "ss_Language spec" w] ensure by auto
  show ?case
  proof (cases e)
    case (Inl err)
    then show ?thesis using 0 ensure log1 by (auto simp: connect_attempts.simps Let_def split: if_splits)
  next
    case (Inr lease)
    obtain r1 ev1 where conn: "connectLeaseWithRetry c (at_links ?a) (nat (dc_connectRetryBudget c)) 0 lease canonicalRoot spec = (r1, ev1)"
      by (metis surj_pair)
    show ?thesis
      using 0 ensure Inr log1 conn connectLeaseWithRetry_events [OF conn]
      by (cases r1) (auto simp: connect_attempts.simps Let_def split: if_splits)
  qed
next
  case (Suc budget)
  let ?l = "the (dc_lifecycle c)" and ?a = "at_env attempt" and ?n = "Suc (nat (dc_connectRetryBudget c))"
  obtain e w1 where ensure: "Ensure (at_ensure ?a) ?l canonicalRoot (ss_Language spec) w = (e, w1)" by (metis surj_pair)
  have log1: "\<exists>acts. lw_log w1 = lw_log w @ acts" using Ensure_log [of "at_ensure ?a" ?l canonicalRoot "ss_Language spec" w] ensure by auto
  have again: "dialled ev2 = hung_up ev2 + (if isl r then 0 else 1) \<and> dialled ev2 \<le> Suc budget * ?n \<and>
      (\<exists>acts. lw_log w' = lw_log w2 @ acts) \<and>
      (\<forall>lease. r = Inr lease \<longrightarrow>
        (\<exists>i \<le> Suc budget. \<exists>j \<le> nat (dc_connectRetryBudget c). \<exists>w0.
          Ensure (at_ensure (at_env (attempt + i))) ?l canonicalRoot (ss_Language spec) w0 = (Inr lease, w') \<and>
          fst (connectLease c (at_links (at_env (attempt + i)) j) lease canonicalRoot spec) = None))"
    if "connect_attempts c describe at_env canonicalRoot spec budget (Suc attempt) w2 = (r, ev2, w')" for w2 ev2
    using Suc.IH [OF that] by (metis Suc_le_mono add_Suc_shift)
  show ?case
  proof (cases e)
    case (Inl err)
    show ?thesis
    proof (cases "shouldRetryEnsure (describe err) (at_done_ensure ?a)")
      case True
      then have "connect_attempts c describe at_env canonicalRoot spec budget (Suc attempt) w1 = (r, ev, w')"
        using Suc.prems ensure Inl by (simp add: connect_attempts.simps [of _ _ _ _ _ "Suc budget"] Let_def)
      from again [OF this] log1 show ?thesis by auto
    next
      case False
      then show ?thesis using Suc.prems ensure Inl log1 by (auto simp: connect_attempts.simps [of _ _ _ _ _ "Suc budget"] Let_def)
    qed
  next
    case (Inr lease)
    obtain r1 ev1 where conn: "connectLeaseWithRetry c (at_links ?a) (nat (dc_connectRetryBudget c)) 0 lease canonicalRoot spec = (r1, ev1)"
      by (metis surj_pair)
    note ev1 = connectLeaseWithRetry_events [OF conn]
    obtain s w2 where stop: "Stop (at_stop ?a) ?l canonicalRoot (ss_Language spec) w1 = (s, w2)" by (metis surj_pair)
    have log2: "\<exists>acts. lw_log w2 = lw_log w @ acts"
      using Stop_log [of "at_stop ?a" ?l canonicalRoot "ss_Language spec" w1] stop log1 by auto
    note step = Suc.prems [unfolded connect_attempts.simps [of _ _ _ _ _ "Suc budget"] Let_def ensure Inr prod.case sum.case conn]
    consider "r = Inr lease" "ev = ev1" "w' = w1" "r1 = None"
      | "isl r" "ev = ev1" "r1 \<noteq> None" "w' = w1 \<or> w' = w2"
      | ev2 where "r1 \<noteq> None" "ev = ev1 @ ev2"
          "connect_attempts c describe at_env canonicalRoot spec budget (Suc attempt) w2 = (r, ev2, w')"
      using step stop by (auto split: option.splits if_splits prod.splits)
    then show ?thesis
    proof cases
      case 1
      then have "\<exists>j \<le> nat (dc_connectRetryBudget c). fst (connectLease c (at_links (at_env attempt) j) lease canonicalRoot spec) = None"
        using ev1 by simp
      moreover have "Ensure (at_ensure (at_env (attempt + 0))) ?l canonicalRoot (ss_Language spec) w = (Inr lease, w')"
        using ensure Inr 1 by simp
      ultimately show ?thesis using ev1 log1 1 by (fastforce intro: exI [of _ 0])
    next
      case 2
      then show ?thesis using ev1 log1 log2 by (cases r) auto
    next
      case 3
      then show ?thesis using again [OF 3(3)] ev1 log2 by auto
    qed
  qed
qed


section \<open>Properties\<close>

text \<open>
  C28. Connecting to a daemon ends and leaves nothing open. At most one more than the budget of attempts
  is made, each with at most one more dial than its budget; every socket that was dialled is closed again,
  but for the one of a connection that is returned. That connection goes with the lease that \<open>Ensure\<close>
  gave in the last attempt, and its handshake and the priming of the workspace went well.
\<close>

theorem Connect_outcome:
  assumes "connector_Connect (Some c) describe describe_registry ctx_err cwd at_env workspaceRoot language w = (r, ev, w')"
    and "dc_retryBudget c \<ge> 0"
  shows "dialled ev = hung_up ev + (if isl r then 0 else 1) \<and>
    dialled ev \<le> (nat (dc_retryBudget c) + 1) * (nat (dc_connectRetryBudget c) + 1) \<and>
    (\<forall>lease. r = Inr lease \<longrightarrow>
      (\<exists>i j w0 spec canonicalRoot. i \<le> nat (dc_retryBudget c) \<and> j \<le> nat (dc_connectRetryBudget c) \<and>
        registry_Lookup default_languages (dc_registry c) language = Inr spec \<and>
        canonicalWorkspaceRoot cwd workspaceRoot = Inr canonicalRoot \<and>
        Ensure (at_ensure (at_env i)) (the (dc_lifecycle c)) canonicalRoot (ss_Language spec) w0 = (Inr lease, w') \<and>
        fst (connectLease c (at_links (at_env i) j) lease canonicalRoot spec) = None))"
proof -
  consider "isl r" "ev = []"
    | spec canonicalRoot where "registry_Lookup default_languages (dc_registry c) language = Inr spec"
        "canonicalWorkspaceRoot cwd workspaceRoot = Inr canonicalRoot"
        "connect_attempts c describe at_env canonicalRoot spec (nat (dc_retryBudget c)) 0 w = (r, ev, w')"
    using assms by (auto simp: connector_Connect_def split: option.splits if_splits sum.splits)
  then show ?thesis
  proof cases
    case 1
    then show ?thesis by (cases r) simp_all
  next
    case 2
    from connect_attempts_outcome [OF 2(3)] show ?thesis using 2(1,2) by (fastforce simp: add_0)
  qed
qed


text \<open>The first initialize request meets a daemon that goes away; the second try succeeds.\<close>

definition sample_connector :: DaemonConnector where
  "sample_connector = NewDaemonConnector ''/w'' ''linux'' None [WithDaemonConnectorLifecycle sample_lifecycle]"

definition idle_client :: "unit checkClient" where
  "idle_client = \<lparr>cc_notify = (\<lambda>m u. (None, u)), cc_subscribe = (\<lambda>u. (None, u)), cc_unsubscribe = (\<lambda>u. u)\<rparr>"

definition sample_link :: "nat \<Rightarrow> link" where
  "sample_link j =
     \<lparr>kl_dial = (\<lambda>s. None),
      kl_initialize = (\<lambda>p. if j = 0 then Some (plain_error ''write: broken pipe'') else None), kl_client = idle_client,
      kl_files = demo_check_env, kl_describe = (\<lambda>e. plain_error ''check''), kl_ctx_done = False\<rparr>"

definition sample_attempt :: "nat \<Rightarrow> attempt_env" where
  "sample_attempt i =
     \<lparr>at_ensure = sample_env 1000, at_stop = sample_env 1000, at_links = sample_link, at_done_ensure = False, at_done_connect = False\<rparr>"

lemma sample_connector_fields:
  "dc_registry sample_connector = Some [''go'' \<mapsto> sample_spec]" "dc_lifecycle sample_connector = Some sample_lifecycle"
  "dc_goos sample_connector = ''linux''" "dc_retryBudget sample_connector = 1" "dc_connectRetryBudget sample_connector = 1"
  "dc_requestTimeoutResolver sample_connector = Some defaultDaemonConnectorRequestTimeout"
  "dc_initializeParamsBuilder sample_connector = Some (defaultDaemonConnectorInitializeParams ''/w'')"
proof -
  have "trim_space ''linux'' = ''linux''" by code_simp
  then show "dc_registry sample_connector = Some [''go'' \<mapsto> sample_spec]" "dc_lifecycle sample_connector = Some sample_lifecycle"
    "dc_goos sample_connector = ''linux''" "dc_retryBudget sample_connector = 1" "dc_connectRetryBudget sample_connector = 1"
    "dc_requestTimeoutResolver sample_connector = Some defaultDaemonConnectorRequestTimeout"
    "dc_initializeParamsBuilder sample_connector = Some (defaultDaemonConnectorInitializeParams ''/w'')"
    by (simp_all add: sample_connector_def NewDaemonConnector_def WithDaemonConnectorLifecycle_def or_default_def
        sample_lifecycle_def Let_def)
qed

lemma sample_canonical_Ensure:
  "Ensure (sample_env 1000) sample_lifecycle ''/w'' ''go'' empty_world = (Inr (leaseFromState sample_started False), sample_world)"
proof -
  have env: "lv_cwd (sample_env 1000) = ''/w''" "lf_registry sample_lifecycle = [''go'' \<mapsto> sample_spec]"
    by (simp_all add: sample_env_def sample_lifecycle_def)
  have canon: "canonicalWorkspaceRoot ''/w'' ''/w'' = Inr ''/w''"
    "registry_Lookup default_languages (Some [''go'' \<mapsto> sample_spec]) ''go'' = Inr sample_spec" by code_simp+
  have "Ensure (sample_env 1000) sample_lifecycle ''/w'' ''go'' empty_world =
      Ensure (sample_env 1000) sample_lifecycle ''.'' ''Go'' empty_world"
    unfolding Ensure_def env canon sample_paths(1,2) sum.case ..
  then show ?thesis by (simp add: sample_Ensure)
qed

theorem Connect_outcome_witness:
  "\<exists>ev. connector_Connect (Some sample_connector) (\<lambda>e. plain_error ''lifecycle'') (\<lambda>e. plain_error ''registry'') None ''/w''
      sample_attempt ''.'' ''Go'' empty_world = (Inr (leaseFromState sample_started False), ev, sample_world) \<and>
    dialled ev = hung_up ev + 1 \<and> dialled ev \<le> 4"
proof -
  let ?lease = "leaseFromState sample_started False"
  have at: "at_ensure (sample_attempt 0) = sample_env 1000" "at_links (sample_attempt 0) = sample_link"
    by (simp_all add: sample_attempt_def)
  have lang: "ss_Language sample_spec = ''go''" "ss_Binary sample_spec = ''gopls''" by (simp_all add: sample_spec_def)
  have timeout: "\<not> defaultDaemonConnectorRequestTimeout sample_spec \<le> 0" by code_simp
  have prime: "languageRequiresWorkspacePrime ''go'' = False" by code_simp
  have socket: "trim_space (ls_SocketPath ?lease) = ''/s/lsp/abababababababab.sock''" by code_simp
  have first: "connectLease sample_connector (sample_link 0) ?lease ''/w'' sample_spec =
      (Some (wrap_conn ''initialize daemon client'' (plain_error ''write: broken pipe'')),
       [Dialled ''/s/lsp/abababababababab.sock'', ClosedSocket])"
    using timeout by (simp add: connectLease_def defaultDaemonConnectorDialSocket_def socket sample_link_def Let_def
        sample_connector_fields defaultDaemonConnectorInitializeParams_def)
  have second: "connectLease sample_connector (sample_link (Suc 0)) ?lease ''/w'' sample_spec =
      (None, [Dialled ''/s/lsp/abababababababab.sock''])"
    using timeout by (simp add: connectLease_def defaultDaemonConnectorDialSocket_def socket sample_link_def Let_def
        sample_connector_fields defaultDaemonConnectorInitializeParams_def PrimeClientWorkspace_def lang prime)
  have transient: "isTransientConnectError (wrap_conn ''initialize daemon client'' (plain_error ''write: broken pipe''))"
    by code_simp
  have conn: "connectLeaseWithRetry sample_connector sample_link (Suc 0) 0 ?lease ''/w'' sample_spec =
      (None, [Dialled ''/s/lsp/abababababababab.sock'', ClosedSocket, Dialled ''/s/lsp/abababababababab.sock''])"
    by (simp add: connectLeaseWithRetry.simps first second transient) (simp add: sample_link_def)
  obtain ev where run: "connector_Connect (Some sample_connector) (\<lambda>e. plain_error ''lifecycle'') (\<lambda>e. plain_error ''registry'') None ''/w''
      sample_attempt ''.'' ''Go'' empty_world = (Inr ?lease, ev, sample_world)"
    by (simp add: connector_Connect_def sample_connector_fields sample_paths(1,2) lang connect_attempts.simps Let_def at
        sample_canonical_Ensure conn)
  have "0 \<le> dc_retryBudget sample_connector" by (simp add: sample_connector_fields)
  from Connect_outcome [OF run this] run show ?thesis by (auto simp: sample_connector_fields)
qed

text \<open>
  A failure after the handshake that has nothing to do with the daemon counts like any other: the daemon,
  which other commands may use, is stopped. The file that primes a workspace of TypeScript may be such a one.
\<close>

lemma unreadable_prime_file:
  assumes "kl_dial k (trim_space (ls_SocketPath lease)) = None" "trim_space (ls_SocketPath lease) \<noteq> []"
    and "the (dc_requestTimeoutResolver c) spec > 0" "the (dc_initializeParamsBuilder c) workspaceRoot spec = Inr params"
    and "kl_initialize k params = None" "languageRequiresWorkspacePrime (ss_Language spec)"
    and "workspacePrimeFile (kl_files k) (resolveWorkspaceRoot (le_cwd (kl_files k)) workspaceRoot) (ss_Language spec) = Inr f"
    and "f \<noteq> []" "le_read_file (kl_files k) f = None"
  shows "fst (connectLease c k lease workspaceRoot spec) =
    Some (wrap_conn ''prime daemon client workspace'' (kl_describe k (CheckReadFailed f)))"
  using assms by (simp add: connectLease_def defaultDaemonConnectorDialSocket_def PrimeClientWorkspace_def Let_def)

lemma failed_connection_stops_daemon:
  assumes "Ensure (at_ensure (at_env 0)) (the (dc_lifecycle c)) canonicalRoot (ss_Language spec) w = (Inr lease, w1)"
    and "fst (connectLease c (at_links (at_env 0) 0) lease canonicalRoot spec) = Some err"
    and "\<not> isTransientConnectError err" "shouldRetry err (at_done_connect (at_env 0))"
    and "canonicalWorkspaceRoot (lv_cwd (at_stop (at_env 0))) canonicalRoot = Inr canonicalRoot"
    and "statePathForKey (at_stop (at_env 0)) (the (dc_lifecycle c))
      (StateKey (lv_sha256 (at_stop (at_env 0))) canonicalRoot (ss_Language spec)) = Inr path"
    and "readStateFile (lw_files w1) path = Inr s"
    and "connect_attempts c describe at_env canonicalRoot spec (Suc budget) 0 w = (r, ev, w')"
  shows "ShutdownSocket (socketPathForState path (st_StateKey s)) \<in> set (lw_log w')"
proof -
  let ?a = "at_env 0" and ?l = "the (dc_lifecycle c)"
  obtain ev0 where one: "connectLease c (at_links ?a 0) lease canonicalRoot spec = (Some err, ev0)"
    using assms(2) by (metis prod.collapse)
  have conn: "connectLeaseWithRetry c (at_links ?a) n 0 lease canonicalRoot spec = (Some err, ev0)" for n
    using assms(3) by (simp add: connectLeaseWithRetry.simps one split: nat.split)
  obtain e w2 where stop: "Stop (at_stop ?a) ?l canonicalRoot (ss_Language spec) w1 = (e, w2)" by (metis surj_pair)
  have "w2 = snd (stopStateProcess (at_stop ?a) path s w1)"
    using stop assms(5-7) by (simp add: Stop_def StopByKey_def stop_state_def)
  then have logged: "ShutdownSocket (socketPathForState path (st_StateKey s)) \<in> set (lw_log w2)"
    by (auto simp: stopStateProcess_def Let_def killProcessGroup_def log_action_def split: prod.splits if_splits)
  note step = assms(8) [unfolded connect_attempts.simps [of _ _ _ _ _ "Suc budget"] Let_def assms(1) prod.case sum.case conn]
  consider "w' = w2" | ev2 where "connect_attempts c describe at_env canonicalRoot spec budget (Suc 0) w2 = (r, ev2, w')"
    using step stop assms(4) by (auto split: option.splits prod.splits)
  then show ?thesis
  proof cases
    case 2
    from connect_attempts_outcome [OF 2] logged show ?thesis by auto
  qed (use logged in simp)
qed

end
