(* ===== verification/GoDuration.thy ===== *)
theory GoDuration
  imports GoFloat LspTransport
begin

text \<open>
  \<open>time.ParseDuration\<close> of the standard library: a sequence of numbers with units, summed up in
  nanoseconds in 64 bits. A fraction is scaled in \<open>float64\<close>. \<open>None\<close> is an error.
\<close>

definition digit_value :: "char \<Rightarrow> int" where
  "digit_value c = int (of_char c) - 48"

text \<open>The units; the micro sign and the Greek letter mu are both taken.\<close>

definition unit_ns :: "string \<Rightarrow> int option" where
  "unit_ns u =
     map_of [(''ns'', 1), (''us'', 10 ^ 3), ([CHR 0xC2, CHR 0xB5, CHR ''s''], 10 ^ 3), ([CHR 0xCE, CHR 0xBC, CHR ''s''], 10 ^ 3),
             (''ms'', 10 ^ 6), (''s'', 10 ^ 9), (''m'', 60 * 10 ^ 9), (''h'', 3600 * 10 ^ 9)] u"

fun leading_int :: "int \<Rightarrow> string \<Rightarrow> int option" where
  "leading_int x [] = Some x"
| "leading_int x (c # cs) =
     (if x > 2 ^ 63 div 10 then None
      else let y = x * 10 + digit_value c in if y > 2 ^ 63 then None else leading_int y cs)"

text \<open>Digits that do not fit any more are dropped.\<close>

fun leading_fraction :: "int \<Rightarrow> rat \<Rightarrow> string \<Rightarrow> int \<times> rat" where
  "leading_fraction x scale [] = (x, scale)"
| "leading_fraction x scale (c # cs) =
     (if x > (2 ^ 63 - 1) div 10 then (x, scale)
      else let y = x * 10 + digit_value c in if y > 2 ^ 63 then (x, scale) else leading_fraction y (f64_mul scale 10) cs)"

definition unit_char :: "char \<Rightarrow> bool" where
  "unit_char c \<longleftrightarrow> c \<noteq> CHR ''.'' \<and> \<not> is_digit_char c"

text \<open>One number with its unit, and the rest.\<close>

definition duration_item :: "string \<Rightarrow> (int \<times> string) option" where
  "duration_item s =
     (let digits = takeWhile is_digit_char s; s1 = dropWhile is_digit_char s;
          dotted = (s1 \<noteq> [] \<and> hd s1 = CHR ''.'');
          decimals = (if dotted then takeWhile is_digit_char (tl s1) else []);
          s2 = (if dotted then dropWhile is_digit_char (tl s1) else s1);
          u = takeWhile unit_char s2
      in if s = [] \<or> unit_char (hd s) then None
         else case leading_int 0 digits of
                None \<Rightarrow> None
              | Some v \<Rightarrow>
                  if digits = [] \<and> decimals = [] then None
                  else if u = [] then None
                  else case unit_ns u of
                         None \<Rightarrow> None
                       | Some n \<Rightarrow>
                           if v > 2 ^ 63 div n then None
                           else case leading_fraction 0 1 decimals of
                                  (f, scale) \<Rightarrow>
                                    let v1 = v * n + (if f > 0
                                      then f64_to_int (f64_mul (f64 (of_int f)) (f64_div (of_int n) scale)) else 0)
                                    in if v1 > 2 ^ 63 then None else Some (v1, dropWhile unit_char s2))"

lemma length_dropWhile_le: "length (dropWhile P xs) \<le> length xs"
  by (induction xs) auto

lemma length_dropWhile_less: "takeWhile P xs \<noteq> [] \<Longrightarrow> length (dropWhile P xs) < length xs"
  by (cases xs) (auto simp: less_Suc_eq_le length_dropWhile_le split: if_splits)

lemma duration_item_rest:
  assumes "duration_item s = Some (v, rest)"
  shows "\<exists>s2. rest = dropWhile unit_char s2 \<and> takeWhile unit_char s2 \<noteq> [] \<and> length s2 \<le> length s"
proof -
  define s1 where "s1 = dropWhile is_digit_char s"
  define s2 where "s2 = (if s1 \<noteq> [] \<and> hd s1 = CHR ''.'' then dropWhile is_digit_char (tl s1) else s1)"
  have "rest = dropWhile unit_char s2 \<and> takeWhile unit_char s2 \<noteq> []"
    using assms unfolding duration_item_def Let_def s1_def [symmetric] s2_def [symmetric]
    by (simp split: if_split_asm option.split_asm prod.split_asm)
  moreover have "length s2 \<le> length s"
    using length_dropWhile_le [of is_digit_char s] length_dropWhile_le [of is_digit_char "tl s1"]
    unfolding s2_def s1_def by auto
  ultimately show ?thesis by blast
qed

lemma duration_item_shorter: "duration_item s = Some (v, rest) \<Longrightarrow> length rest < length s"
  using duration_item_rest [of s v rest] length_dropWhile_less [of unit_char] by fastforce

text \<open>The sum wraps: two items of \<open>2 ^ 63\<close> nanoseconds add up to nothing.\<close>

function duration_sum :: "int \<Rightarrow> string \<Rightarrow> int option" where
  "duration_sum d s =
     (if s = [] then Some d
      else case duration_item s of
             None \<Rightarrow> None
           | Some (v, rest) \<Rightarrow>
               let d1 = (d + v) mod 2 ^ 64 in if d1 > 2 ^ 63 then None else duration_sum d1 rest)"
  by pat_completeness auto
termination
  by (relation "measure (\<lambda>(d, s). length s)") (auto dest: duration_item_shorter)

declare duration_sum.simps [simp del]

definition ParseDuration :: "string \<Rightarrow> int option" where
  "ParseDuration s0 =
     (let neg = has_prefix s0 ''-''; s = (if neg \<or> has_prefix s0 ''+'' then tl s0 else s0)
      in if s = ''0'' then Some 0
         else if s = [] then None
         else case duration_sum 0 s of
                None \<Rightarrow> None
              | Some d \<Rightarrow> if neg then Some (- d) else if d > 2 ^ 63 - 1 then None else Some d)"

lemma ParseDuration_examples:
  "ParseDuration ''10m'' = Some (600 * 10 ^ 9)" "ParseDuration ''60s'' = Some (60 * 10 ^ 9)"
  "ParseDuration ''-1h30m'' = Some (- (5400 * 10 ^ 9))" "ParseDuration ''1'' = None" "ParseDuration '''' = None"
  by code_simp+

text \<open>A duration is a 64-bit integer.\<close>

lemma duration_sum_range: "duration_sum d s = Some e \<Longrightarrow> 0 \<le> d \<Longrightarrow> d \<le> 2 ^ 63 \<Longrightarrow> 0 \<le> e \<and> e \<le> 2 ^ 63"
proof (induction d s rule: duration_sum.induct)
  case (1 d s)
  show ?case
  proof (cases "duration_item s")
    case None
    then show ?thesis using "1.prems" by (simp add: duration_sum.simps [of d s] split: if_splits)
  next
    case (Some item)
    obtain v rest where item: "item = (v, rest)" by fastforce
    show ?thesis
      using "1.prems" "1.IH" [OF _ Some item [symmetric] refl] Some item
      by (simp add: duration_sum.simps [of d s] Let_def split: if_splits)
  qed
qed

lemma ParseDuration_range: "ParseDuration s = Some d \<Longrightarrow> - (2 ^ 63) \<le> d \<and> d < 2 ^ 63"
  by (auto simp: ParseDuration_def Let_def dest!: duration_sum_range split: if_splits option.splits)

end
