(* ===== verification/CsConfig.thy ===== *)
theory CsConfig
  imports GoDuration Ignore
begin

text \<open>
  \<open>pkg/config/config.go\<close>: the configuration from its layers (defaults, the user's file, the project's
  file, the environment), where each value came from, the search for the project's file, and the
  project root. Reading TOML is a parameter: a file decodes to a layer and the keys that no field
  takes. Files, symbolic links and variables are what the system reports.
\<close>

section \<open>Records\<close>

record DBConfig =
  db_Type :: string
  db_Address :: string
  db_Token :: string
  db_CollectionName :: string

record EmbeddingConfig =
  emb_OllamaHost :: string
  emb_Model :: string
  emb_MaxInputChars :: int

record JavaLSPConfig =
  java_GradleJavaHome :: string
  java_RuntimeJavaHome :: string
  java_Timeout :: string
  java_Args :: "string list"
  java_Lombok :: string

record DaemonLSPConfig =
  dmn_IdleTimeout :: string
  dmn_WarmupProbeTimeout :: string

record LSPConfig =
  lsp_Java :: JavaLSPConfig
  lsp_GoBuildFlags :: "string list"
  lsp_Daemon :: DaemonLSPConfig

text \<open>The constants of the keys, with their names.\<close>

datatype config_key =
    KeyDBType | KeyDBAddress | KeyDBToken | KeyDBCollectionName | KeyEmbeddingOllama | KeyEmbeddingModel
  | KeyEmbeddingMaxInput | KeyStateDir | KeyLSPJavaGradleHome | KeyLSPJavaRuntimeHome | KeyLSPJavaTimeout
  | KeyLSPJavaArgs | KeyLSPJavaLombok | KeyLSPGoBuildFlags | KeyLSPDaemonTimeout | KeyLSPWarmupProbeTimeout
  | KeyIndexWarmLSP | KeyProjectRoot

fun key_name :: "config_key \<Rightarrow> string" where
  "key_name KeyDBType = ''db.type''"
| "key_name KeyDBAddress = ''db.address''"
| "key_name KeyDBToken = ''db.token''"
| "key_name KeyDBCollectionName = ''db.collection_name''"
| "key_name KeyEmbeddingOllama = ''embedding.ollama_host''"
| "key_name KeyEmbeddingModel = ''embedding.model''"
| "key_name KeyEmbeddingMaxInput = ''embedding.max_input_chars''"
| "key_name KeyStateDir = ''state_dir''"
| "key_name KeyLSPJavaGradleHome = ''lsp.java.gradle_java_home''"
| "key_name KeyLSPJavaRuntimeHome = ''lsp.java.runtime_java_home''"
| "key_name KeyLSPJavaTimeout = ''lsp.java.timeout''"
| "key_name KeyLSPJavaArgs = ''lsp.java.args''"
| "key_name KeyLSPJavaLombok = ''lsp.java.lombok''"
| "key_name KeyLSPGoBuildFlags = ''lsp.go.build_flags''"
| "key_name KeyLSPDaemonTimeout = ''lsp.daemon.idle_timeout''"
| "key_name KeyLSPWarmupProbeTimeout = ''lsp.daemon.warmup_probe_timeout''"
| "key_name KeyIndexWarmLSP = ''index.warm_lsp''"
| "key_name KeyProjectRoot = ''project_root''"

text \<open>\<open>cf_ConfigDir\<close> is empty without a project's file; the map of the provenance has every key.\<close>

record Config =
  cf_DB :: DBConfig
  cf_Embedding :: EmbeddingConfig
  cf_StateDir :: string
  cf_LSP :: LSPConfig
  cf_WarmLSP :: bool
  cf_ProjectRoot :: string
  cf_ConfigDir :: string
  cf_Provenance :: "config_key \<Rightarrow> string"

text \<open>A layer: the fields that a file sets.\<close>

record layerConfig =
  ly_DBType :: "string option"
  ly_DBAddress :: "string option"
  ly_DBToken :: "string option"
  ly_DBCollectionName :: "string option"
  ly_OllamaHost :: "string option"
  ly_Model :: "string option"
  ly_MaxInputChars :: "int option"
  ly_StateDir :: "string option"
  ly_GradleJavaHome :: "string option"
  ly_RuntimeJavaHome :: "string option"
  ly_JavaTimeout :: "string option"
  ly_JavaArgs :: "string list option"
  ly_Lombok :: "string option"
  ly_BuildFlags :: "string list option"
  ly_IdleTimeout :: "string option"
  ly_WarmupProbeTimeout :: "string option"
  ly_WarmLSP :: "bool option"
  ly_ProjectRoot :: "string option"

datatype stat_result = StatMissing | StatFailed | StatDir | StatFile

record config_env =
  ce_cwd :: string
  ce_home :: "string option"
  ce_getenv :: "string \<Rightarrow> string option"
  ce_stat :: "string \<Rightarrow> stat_result"
  ce_evalSymlinks :: "string \<Rightarrow> string option"
  ce_decode :: "string \<Rightarrow> (layerConfig \<times> string list list) option"

datatype load_error =
    HomeUnknown | StatError string | ParseError string | InvalidDuration config_key string
  | NotPositive config_key string | NoConfigured | NoConfigDir | RootMissing string | RootNotDir string

datatype config_warning =
    UnknownSection string string | UnknownKey string string | InvalidValue string string

definition userConfigSource :: string where "userConfigSource = ''~/.codesight/config.toml''"
definition projectConfigSource :: string where "projectConfigSource = ''.codesight/config.toml''"
definition maxProjectConfigSearchParents :: nat where "maxProjectConfigSearchParents = 12"

definition Defaults :: Config where
  "Defaults =
     \<lparr>cf_DB = \<lparr>db_Type = ''milvus'', db_Address = ''localhost:19530'', db_Token = [], db_CollectionName = []\<rparr>,
      cf_Embedding = \<lparr>emb_OllamaHost = ''http://127.0.0.1:11434'', emb_Model = ''bge-m3'', emb_MaxInputChars = 0\<rparr>,
      cf_StateDir = [],
      cf_LSP = \<lparr>lsp_Java = \<lparr>java_GradleJavaHome = [], java_RuntimeJavaHome = [], java_Timeout = ''60s'', java_Args = [],
                              java_Lombok = []\<rparr>,
                lsp_GoBuildFlags = [],
                lsp_Daemon = \<lparr>dmn_IdleTimeout = ''10m'', dmn_WarmupProbeTimeout = []\<rparr>\<rparr>,
      cf_WarmLSP = False, cf_ProjectRoot = [], cf_ConfigDir = [], cf_Provenance = (\<lambda>k. ''default'')\<rparr>"

section \<open>Durations\<close>

definition parsePositiveDuration :: "string \<Rightarrow> config_key \<Rightarrow> load_error + int" where
  "parsePositiveDuration raw key =
     (case ParseDuration (trim_space raw) of
        None \<Rightarrow> Inl (InvalidDuration key raw)
      | Some d \<Rightarrow> if d \<le> 0 then Inl (NotPositive key raw) else Inr d)"

definition LSPDaemonIdleTimeoutDuration :: "Config option \<Rightarrow> load_error + int" where
  "LSPDaemonIdleTimeoutDuration cfg =
     parsePositiveDuration (dmn_IdleTimeout (lsp_Daemon (cf_LSP (case cfg of None \<Rightarrow> Defaults | Some c \<Rightarrow> c)))) KeyLSPDaemonTimeout"

definition LSPWarmupProbeTimeoutDuration :: "Config option \<Rightarrow> load_error + int" where
  "LSPWarmupProbeTimeoutDuration cfg =
     (case cfg of
        None \<Rightarrow> Inr 0
      | Some c \<Rightarrow>
          let t = dmn_WarmupProbeTimeout (lsp_Daemon (cf_LSP c))
          in if t = [] then Inr 0 else parsePositiveDuration t KeyLSPWarmupProbeTimeout)"

section \<open>Assignments\<close>

text \<open>One assignment to each field.\<close>

definition set_DB :: "(DBConfig \<Rightarrow> DBConfig) \<Rightarrow> Config \<Rightarrow> Config" where
  "set_DB f c = c\<lparr>cf_DB := f (cf_DB c)\<rparr>"
definition set_Embedding :: "(EmbeddingConfig \<Rightarrow> EmbeddingConfig) \<Rightarrow> Config \<Rightarrow> Config" where
  "set_Embedding f c = c\<lparr>cf_Embedding := f (cf_Embedding c)\<rparr>"
definition set_Java :: "(JavaLSPConfig \<Rightarrow> JavaLSPConfig) \<Rightarrow> Config \<Rightarrow> Config" where
  "set_Java f c = c\<lparr>cf_LSP := (cf_LSP c)\<lparr>lsp_Java := f (lsp_Java (cf_LSP c))\<rparr>\<rparr>"
definition set_Daemon :: "(DaemonLSPConfig \<Rightarrow> DaemonLSPConfig) \<Rightarrow> Config \<Rightarrow> Config" where
  "set_Daemon f c = c\<lparr>cf_LSP := (cf_LSP c)\<lparr>lsp_Daemon := f (lsp_Daemon (cf_LSP c))\<rparr>\<rparr>"

text \<open>The values that a setting can have.\<close>

datatype setting = Text string | Texts "string list" | Number int | Flag bool

fun assign :: "config_key \<Rightarrow> setting \<Rightarrow> Config \<Rightarrow> Config" where
  "assign KeyDBType (Text v) c = set_DB (db_Type_update (\<lambda>x. v)) c"
| "assign KeyDBAddress (Text v) c = set_DB (db_Address_update (\<lambda>x. v)) c"
| "assign KeyDBToken (Text v) c = set_DB (db_Token_update (\<lambda>x. v)) c"
| "assign KeyDBCollectionName (Text v) c = set_DB (db_CollectionName_update (\<lambda>x. v)) c"
| "assign KeyEmbeddingOllama (Text v) c = set_Embedding (emb_OllamaHost_update (\<lambda>x. v)) c"
| "assign KeyEmbeddingModel (Text v) c = set_Embedding (emb_Model_update (\<lambda>x. v)) c"
| "assign KeyEmbeddingMaxInput (Number v) c = set_Embedding (emb_MaxInputChars_update (\<lambda>x. v)) c"
| "assign KeyStateDir (Text v) c = c\<lparr>cf_StateDir := v\<rparr>"
| "assign KeyLSPJavaGradleHome (Text v) c = set_Java (java_GradleJavaHome_update (\<lambda>x. v)) c"
| "assign KeyLSPJavaRuntimeHome (Text v) c = set_Java (java_RuntimeJavaHome_update (\<lambda>x. v)) c"
| "assign KeyLSPJavaTimeout (Text v) c = set_Java (java_Timeout_update (\<lambda>x. v)) c"
| "assign KeyLSPJavaArgs (Texts v) c = set_Java (java_Args_update (\<lambda>x. v)) c"
| "assign KeyLSPJavaLombok (Text v) c = set_Java (java_Lombok_update (\<lambda>x. v)) c"
| "assign KeyLSPGoBuildFlags (Texts v) c = c\<lparr>cf_LSP := (cf_LSP c)\<lparr>lsp_GoBuildFlags := v\<rparr>\<rparr>"
| "assign KeyLSPDaemonTimeout (Text v) c = set_Daemon (dmn_IdleTimeout_update (\<lambda>x. v)) c"
| "assign KeyLSPWarmupProbeTimeout (Text v) c = set_Daemon (dmn_WarmupProbeTimeout_update (\<lambda>x. v)) c"
| "assign KeyIndexWarmLSP (Flag v) c = c\<lparr>cf_WarmLSP := v\<rparr>"
| "assign KeyProjectRoot (Text v) c = c\<lparr>cf_ProjectRoot := v\<rparr>"
| "assign k v c = c"

text \<open>An assignment of a value, if there is one, together with its source.\<close>

definition put :: "config_key \<Rightarrow> string \<Rightarrow> setting option \<Rightarrow> Config \<Rightarrow> Config" where
  "put k source v c =
     (case v of
        None \<Rightarrow> c
      | Some x \<Rightarrow> let c' = assign k x c in c'\<lparr>cf_Provenance := (cf_Provenance c')(k := source)\<rparr>)"

section \<open>A layer\<close>

text \<open>The checks of a layer, in order.\<close>

definition java_timeout_error :: "string option \<Rightarrow> load_error option" where
  "java_timeout_error t =
     (case t of
        None \<Rightarrow> None
      | Some raw \<Rightarrow> if ParseDuration raw = None then Some (InvalidDuration KeyLSPJavaTimeout raw) else None)"

definition positive_error :: "config_key \<Rightarrow> string option \<Rightarrow> load_error option" where
  "positive_error key t =
     (case t of
        None \<Rightarrow> None
      | Some raw \<Rightarrow> (case parsePositiveDuration raw key of Inl err \<Rightarrow> Some err | Inr d \<Rightarrow> None))"

definition mergeLayer :: "Config \<Rightarrow> layerConfig \<Rightarrow> string \<Rightarrow> load_error + Config" where
  "mergeLayer c0 l source =
     (let c1 = put KeyDBType source (map_option Text (ly_DBType l)) c0;
          c2 = put KeyDBAddress source (map_option Text (ly_DBAddress l)) c1;
          c3 = put KeyDBToken source (map_option Text (ly_DBToken l)) c2;
          c4 = put KeyDBCollectionName source (map_option Text (ly_DBCollectionName l)) c3;
          c5 = put KeyEmbeddingOllama source (map_option Text (ly_OllamaHost l)) c4;
          c6 = put KeyEmbeddingModel source (map_option Text (ly_Model l)) c5;
          c7 = put KeyEmbeddingMaxInput source (map_option Number (ly_MaxInputChars l)) c6;
          c8 = put KeyStateDir source (map_option Text (ly_StateDir l)) c7;
          c9 = put KeyLSPJavaGradleHome source (map_option Text (ly_GradleJavaHome l)) c8;
          c10 = put KeyLSPJavaRuntimeHome source (map_option Text (ly_RuntimeJavaHome l)) c9
      in case java_timeout_error (ly_JavaTimeout l) of
           Some err \<Rightarrow> Inl err
         | None \<Rightarrow>
             let c11 = put KeyLSPJavaTimeout source (map_option Text (ly_JavaTimeout l)) c10;
                 c12 = put KeyLSPJavaArgs source (map_option Texts (ly_JavaArgs l)) c11;
                 c13 = put KeyLSPJavaLombok source (map_option (\<lambda>v. Text (trim_space v)) (ly_Lombok l)) c12;
                 c14 = put KeyLSPGoBuildFlags source (map_option Texts (ly_BuildFlags l)) c13
             in case positive_error KeyLSPDaemonTimeout (ly_IdleTimeout l) of
                  Some err \<Rightarrow> Inl err
                | None \<Rightarrow>
                    let c15 = put KeyLSPDaemonTimeout source (map_option (\<lambda>v. Text (trim_space v)) (ly_IdleTimeout l)) c14
                    in case positive_error KeyLSPWarmupProbeTimeout (ly_WarmupProbeTimeout l) of
                         Some err \<Rightarrow> Inl err
                       | None \<Rightarrow>
                           let c16 = put KeyLSPWarmupProbeTimeout source
                                 (map_option (\<lambda>v. Text (trim_space v)) (ly_WarmupProbeTimeout l)) c15;
                               c17 = put KeyIndexWarmLSP source (map_option Flag (ly_WarmLSP l)) c16;
                               c18 = put KeyProjectRoot source (map_option Text (ly_ProjectRoot l)) c17
                           in Inr c18)"

definition known_top_level :: "string list" where
  "known_top_level = [''db'', ''embedding'', ''state_dir'', ''lsp'', ''index'', ''project_root'']"

text \<open>The warnings about the keys that no field takes, each section and each key once.\<close>

fun unknown_loop :: "string list \<Rightarrow> string list \<Rightarrow> string \<Rightarrow> string list list \<Rightarrow> config_warning list" where
  "unknown_loop sections names source [] = []"
| "unknown_loop sections names source (parts # keys) =
     (case parts of
        [] \<Rightarrow> unknown_loop sections names source keys
      | t # ts \<Rightarrow>
          if t \<notin> set known_top_level
          then (if t \<in> set sections then unknown_loop sections names source keys
                else UnknownSection t source # unknown_loop (t # sections) names source keys)
          else let dotted = join ''.'' parts
               in if dotted \<in> set names then unknown_loop sections names source keys
                  else UnknownKey dotted source # unknown_loop sections (dotted # names) source keys)"

definition warnUnknownKeys :: "string list list \<Rightarrow> string \<Rightarrow> config_warning list" where
  "warnUnknownKeys undecoded source = unknown_loop [] [] source undecoded"

definition applyConfigFile ::
  "config_env \<Rightarrow> Config \<Rightarrow> string \<Rightarrow> string \<Rightarrow> (load_error + Config) \<times> config_warning list" where
  "applyConfigFile env cfg path source =
     (case ce_stat env path of
        StatMissing \<Rightarrow> (Inr cfg, [])
      | StatFailed \<Rightarrow> (Inl (StatError source), [])
      | _ \<Rightarrow>
          (case ce_decode env path of
             None \<Rightarrow> (Inl (ParseError source), [])
           | Some (layer, undecoded) \<Rightarrow> (mergeLayer cfg layer source, warnUnknownKeys undecoded source)))"

section \<open>The environment\<close>

text \<open>A variable that counts only if it is not empty, and one that counts whenever it is set.\<close>

definition nonempty_var :: "config_env \<Rightarrow> string \<Rightarrow> setting option" where
  "nonempty_var env name =
     (case ce_getenv env name of None \<Rightarrow> None | Some v \<Rightarrow> if v = [] then None else Some (Text v))"

definition set_var :: "config_env \<Rightarrow> string \<Rightarrow> setting option" where
  "set_var env name = map_option Text (ce_getenv env name)"

definition trimmed_var :: "config_env \<Rightarrow> string \<Rightarrow> string option" where
  "trimmed_var env name =
     (case ce_getenv env name of
        None \<Rightarrow> None | Some raw \<Rightarrow> if trim_space raw = [] then None else Some (trim_space raw))"

definition max_input_var :: "config_env \<Rightarrow> setting option \<times> config_warning list" where
  "max_input_var env =
     (case trimmed_var env ''CODESIGHT_OLLAMA_MAX_INPUT_CHARS'' of
        None \<Rightarrow> (None, [])
      | Some t \<Rightarrow>
          (case parse_int64 t of
             None \<Rightarrow> (None, [InvalidValue ''CODESIGHT_OLLAMA_MAX_INPUT_CHARS'' (the (ce_getenv env ''CODESIGHT_OLLAMA_MAX_INPUT_CHARS''))])
           | Some n \<Rightarrow>
               if n < 0
               then (None, [InvalidValue ''CODESIGHT_OLLAMA_MAX_INPUT_CHARS'' (the (ce_getenv env ''CODESIGHT_OLLAMA_MAX_INPUT_CHARS''))])
               else (Some (Number n), [])))"

definition applyEnv :: "config_env \<Rightarrow> Config \<Rightarrow> (load_error + Config) \<times> config_warning list" where
  "applyEnv env c0 =
     (let c1 = put KeyDBType ''CODESIGHT_DB_TYPE'' (nonempty_var env ''CODESIGHT_DB_TYPE'') c0;
          c2 = put KeyDBAddress ''CODESIGHT_DB_ADDRESS'' (nonempty_var env ''CODESIGHT_DB_ADDRESS'') c1;
          c3 = put KeyDBToken ''CODESIGHT_DB_TOKEN'' (set_var env ''CODESIGHT_DB_TOKEN'') c2;
          c4 = put KeyDBCollectionName ''CODESIGHT_DB_COLLECTION_NAME'' (set_var env ''CODESIGHT_DB_COLLECTION_NAME'') c3;
          c5 = put KeyEmbeddingOllama ''CODESIGHT_OLLAMA_HOST'' (nonempty_var env ''CODESIGHT_OLLAMA_HOST'') c4;
          c6 = put KeyEmbeddingModel ''CODESIGHT_EMBEDDING_MODEL'' (nonempty_var env ''CODESIGHT_EMBEDDING_MODEL'') c5;
          c7 = put KeyEmbeddingMaxInput ''CODESIGHT_OLLAMA_MAX_INPUT_CHARS'' (fst (max_input_var env)) c6;
          c8 = put KeyStateDir ''CODESIGHT_STATE_DIR'' (set_var env ''CODESIGHT_STATE_DIR'') c7;
          c9 = put KeyLSPJavaGradleHome ''CODESIGHT_GRADLE_JAVA_HOME'' (set_var env ''CODESIGHT_GRADLE_JAVA_HOME'') c8;
          c10 = put KeyLSPJavaRuntimeHome ''CODESIGHT_LSP_JAVA_RUNTIME_HOME'' (set_var env ''CODESIGHT_LSP_JAVA_RUNTIME_HOME'') c9;
          idle = trimmed_var env ''CODESIGHT_LSP_DAEMON_IDLE_TIMEOUT'';
          warmup = trimmed_var env ''CODESIGHT_LSP_DAEMON_WARMUP_PROBE_TIMEOUT''
      in (case positive_error KeyLSPDaemonTimeout idle of
            Some err \<Rightarrow> Inl err
          | None \<Rightarrow>
              let c11 = put KeyLSPDaemonTimeout ''CODESIGHT_LSP_DAEMON_IDLE_TIMEOUT'' (map_option Text idle) c10
              in case positive_error KeyLSPWarmupProbeTimeout warmup of
                   Some err \<Rightarrow> Inl err
                 | None \<Rightarrow>
                     let c12 = put KeyLSPWarmupProbeTimeout ''CODESIGHT_LSP_DAEMON_WARMUP_PROBE_TIMEOUT'' (map_option Text warmup) c11;
                         c13 = put KeyProjectRoot ''CODESIGHT_PROJECT_ROOT'' (nonempty_var env ''CODESIGHT_PROJECT_ROOT'') c12
                     in Inr c13,
          snd (max_input_var env)))"

section \<open>The project's file\<close>

definition config_file_in :: "string \<Rightarrow> string" where
  "config_file_in d = path_join [d, ''.codesight'', ''config.toml'']"

definition userConfigPath :: "config_env \<Rightarrow> load_error + string" where
  "userConfigPath env = (case ce_home env of None \<Rightarrow> Inl HomeUnknown | Some h \<Rightarrow> Inr (config_file_in h))"

text \<open>An absolute path with its symbolic links resolved, if they can be.\<close>

definition resolve_links :: "config_env \<Rightarrow> string \<Rightarrow> string" where
  "resolve_links env p =
     (let a = path_clean (path_abs (ce_cwd env) p)
      in case ce_evalSymlinks env a of None \<Rightarrow> a | Some r \<Rightarrow> path_clean r)"

definition resolveProjectConfigStartDir :: "config_env \<Rightarrow> string \<Rightarrow> load_error + string" where
  "resolveProjectConfigStartDir env projectPath =
     (let target = (if trim_space projectPath = [] then ''.'' else trim_space projectPath);
          a = path_abs (ce_cwd env) target;
          p = (case ce_evalSymlinks env a of None \<Rightarrow> a | Some r \<Rightarrow> r)
      in case ce_stat env p of
           StatMissing \<Rightarrow> Inl (StatError p)
         | StatFailed \<Rightarrow> Inl (StatError p)
         | StatDir \<Rightarrow> Inr (path_clean p)
         | StatFile \<Rightarrow> Inr (path_clean (path_dir p)))"

definition sameCleanPath :: "string \<Rightarrow> string \<Rightarrow> bool" where
  "sameCleanPath a b \<longleftrightarrow> path_clean a = path_clean b"

definition pathWithinRoot :: "string \<Rightarrow> string \<Rightarrow> bool" where
  "pathWithinRoot p r \<longleftrightarrow> sameCleanPath p r \<or> has_prefix (path_clean p) (path_clean r @ ''/'')"

text \<open>The search upwards, with fuel; an empty path says that there is no file. \<open>None\<close> is running out of fuel.\<close>

fun config_search ::
  "config_env \<Rightarrow> string \<Rightarrow> string \<Rightarrow> bool \<Rightarrow> nat \<Rightarrow> nat \<Rightarrow> string \<Rightarrow> (load_error + string) option" where
  "config_search env userCfg homeDir inside 0 parents current = None"
| "config_search env userCfg homeDir inside (Suc fuel) parents current =
     (let candidate = config_file_in current; git = path_join [current, ''.git''];
          rest = (case ce_stat env git of
                    StatFailed \<Rightarrow> Some (Inl (StatError git))
                  | StatMissing \<Rightarrow>
                      if inside \<and> sameCleanPath current homeDir then Some (Inr [])
                      else if \<not> inside \<and> parents \<ge> maxProjectConfigSearchParents then Some (Inr [])
                      else if path_dir current = current then Some (Inr [])
                      else config_search env userCfg homeDir inside fuel (parents + 1) (path_dir current)
                  | _ \<Rightarrow> Some (Inr []))
      in if sameCleanPath candidate userCfg then rest
         else case ce_stat env candidate of
                StatMissing \<Rightarrow> rest
              | StatFailed \<Rightarrow> Some (Inl (StatError candidate))
              | _ \<Rightarrow> Some (Inr candidate))"

definition projectConfigPath :: "config_env \<Rightarrow> string \<Rightarrow> (load_error + string) option" where
  "projectConfigPath env projectPath =
     (case resolveProjectConfigStartDir env projectPath of
        Inl err \<Rightarrow> Some (Inl err)
      | Inr startDir \<Rightarrow>
          let homeDir = (case ce_home env of None \<Rightarrow> [] | Some h \<Rightarrow> resolve_links env h)
          in case userConfigPath env of
               Inl err \<Rightarrow> Some (Inl err)
             | Inr userCfg \<Rightarrow>
                 config_search env (resolve_links env userCfg) homeDir (homeDir \<noteq> [] \<and> pathWithinRoot startDir homeDir)
                   (Suc (length startDir)) 0 startDir)"

section \<open>Loading\<close>

text \<open>The result is \<open>None\<close> if the fuel of the search did not last.\<close>

definition LoadConfig :: "config_env \<Rightarrow> string \<Rightarrow> (load_error + Config) option \<times> config_warning list" where
  "LoadConfig env projectPath =
     (case userConfigPath env of
        Inl err \<Rightarrow> (Some (Inl err), [])
      | Inr userCfg \<Rightarrow>
          (case applyConfigFile env Defaults userCfg userConfigSource of
             (Inl err, w1) \<Rightarrow> (Some (Inl err), w1)
           | (Inr cfg, w1) \<Rightarrow>
               (case projectConfigPath env projectPath of
                  None \<Rightarrow> (None, w1)
                | Some (Inl err) \<Rightarrow> (Some (Inl err), w1)
                | Some (Inr projCfg) \<Rightarrow>
                    (case (if projCfg = [] then (Inr cfg, [])
                           else case applyConfigFile env cfg projCfg projectConfigSource of
                                  (Inl err, w) \<Rightarrow> (Inl err, w)
                                | (Inr c, w) \<Rightarrow> (Inr (c\<lparr>cf_ConfigDir := path_dir projCfg\<rparr>), w)) of
                       (Inl err, w2) \<Rightarrow> (Some (Inl err), w1 @ w2)
                     | (Inr cfg2, w2) \<Rightarrow>
                         (case applyEnv env cfg2 of (r, w3) \<Rightarrow> (Some r, w1 @ w2 @ w3))))))"

definition existing_dir :: "config_env \<Rightarrow> string \<Rightarrow> load_error + string" where
  "existing_dir env a =
     (case ce_stat env a of
        StatMissing \<Rightarrow> Inl (RootMissing a) | StatFailed \<Rightarrow> Inl (RootMissing a)
      | StatFile \<Rightarrow> Inl (RootNotDir a) | StatDir \<Rightarrow> Inr a)"

definition ResolvedProjectRoot :: "config_env \<Rightarrow> Config \<Rightarrow> string \<Rightarrow> load_error + string" where
  "ResolvedProjectRoot env cfg configDir =
     (let raw = cf_ProjectRoot cfg
      in if raw = []
         then (if configDir = [] then Inl NoConfigured else Inr (path_abs (ce_cwd env) (path_dir configDir)))
         else if cf_Provenance cfg KeyProjectRoot = ''CODESIGHT_PROJECT_ROOT'' then existing_dir env (path_abs (ce_cwd env) raw)
         else if configDir = [] then Inl NoConfigDir
         else existing_dir env (path_abs (ce_cwd env) (path_join [configDir, raw])))"

section \<open>Precedence\<close>

text \<open>The value of a setting, and its source.\<close>

fun setting_of :: "Config \<Rightarrow> config_key \<Rightarrow> setting" where
  "setting_of c KeyDBType = Text (db_Type (cf_DB c))"
| "setting_of c KeyDBAddress = Text (db_Address (cf_DB c))"
| "setting_of c KeyDBToken = Text (db_Token (cf_DB c))"
| "setting_of c KeyDBCollectionName = Text (db_CollectionName (cf_DB c))"
| "setting_of c KeyEmbeddingOllama = Text (emb_OllamaHost (cf_Embedding c))"
| "setting_of c KeyEmbeddingModel = Text (emb_Model (cf_Embedding c))"
| "setting_of c KeyEmbeddingMaxInput = Number (emb_MaxInputChars (cf_Embedding c))"
| "setting_of c KeyStateDir = Text (cf_StateDir c)"
| "setting_of c KeyLSPJavaGradleHome = Text (java_GradleJavaHome (lsp_Java (cf_LSP c)))"
| "setting_of c KeyLSPJavaRuntimeHome = Text (java_RuntimeJavaHome (lsp_Java (cf_LSP c)))"
| "setting_of c KeyLSPJavaTimeout = Text (java_Timeout (lsp_Java (cf_LSP c)))"
| "setting_of c KeyLSPJavaArgs = Texts (java_Args (lsp_Java (cf_LSP c)))"
| "setting_of c KeyLSPJavaLombok = Text (java_Lombok (lsp_Java (cf_LSP c)))"
| "setting_of c KeyLSPGoBuildFlags = Texts (lsp_GoBuildFlags (cf_LSP c))"
| "setting_of c KeyLSPDaemonTimeout = Text (dmn_IdleTimeout (lsp_Daemon (cf_LSP c)))"
| "setting_of c KeyLSPWarmupProbeTimeout = Text (dmn_WarmupProbeTimeout (lsp_Daemon (cf_LSP c)))"
| "setting_of c KeyIndexWarmLSP = Flag (cf_WarmLSP c)"
| "setting_of c KeyProjectRoot = Text (cf_ProjectRoot c)"

definition sourced :: "Config \<Rightarrow> config_key \<Rightarrow> setting \<times> string" where
  "sourced c k = (setting_of c k, cf_Provenance c k)"

lemmas setter_defs = set_DB_def set_Embedding_def set_Java_def set_Daemon_def

lemma assign_provenance [simp]: "cf_Provenance (assign k v c) = cf_Provenance c"
  by (cases "(k, v, c)" rule: assign.cases) (simp_all add: setter_defs)

lemma assign_other: "k' \<noteq> k \<Longrightarrow> setting_of (assign k v c) k' = setting_of c k'"
  by (cases k'; cases "(k, v, c)" rule: assign.cases) (simp_all add: setter_defs)

lemma setting_of_provenance [simp]: "setting_of (c\<lparr>cf_Provenance := p\<rparr>) k = setting_of c k"
  by (cases k) simp_all

lemma setting_of_ConfigDir [simp]: "setting_of (c\<lparr>cf_ConfigDir := p\<rparr>) k = setting_of c k"
  by (cases k) simp_all

lemma sourced_put:
  "sourced (put k s v c) k' =
    (if k' = k then (case v of None \<Rightarrow> sourced c k | Some x \<Rightarrow> (setting_of (assign k x c) k, s)) else sourced c k')"
  by (cases v) (simp_all add: put_def sourced_def assign_other Let_def)

text \<open>What a layer and the environment set.\<close>

fun layer_setting :: "layerConfig \<Rightarrow> config_key \<Rightarrow> setting option" where
  "layer_setting l KeyDBType = map_option Text (ly_DBType l)"
| "layer_setting l KeyDBAddress = map_option Text (ly_DBAddress l)"
| "layer_setting l KeyDBToken = map_option Text (ly_DBToken l)"
| "layer_setting l KeyDBCollectionName = map_option Text (ly_DBCollectionName l)"
| "layer_setting l KeyEmbeddingOllama = map_option Text (ly_OllamaHost l)"
| "layer_setting l KeyEmbeddingModel = map_option Text (ly_Model l)"
| "layer_setting l KeyEmbeddingMaxInput = map_option Number (ly_MaxInputChars l)"
| "layer_setting l KeyStateDir = map_option Text (ly_StateDir l)"
| "layer_setting l KeyLSPJavaGradleHome = map_option Text (ly_GradleJavaHome l)"
| "layer_setting l KeyLSPJavaRuntimeHome = map_option Text (ly_RuntimeJavaHome l)"
| "layer_setting l KeyLSPJavaTimeout = map_option Text (ly_JavaTimeout l)"
| "layer_setting l KeyLSPJavaArgs = map_option Texts (ly_JavaArgs l)"
| "layer_setting l KeyLSPJavaLombok = map_option (\<lambda>v. Text (trim_space v)) (ly_Lombok l)"
| "layer_setting l KeyLSPGoBuildFlags = map_option Texts (ly_BuildFlags l)"
| "layer_setting l KeyLSPDaemonTimeout = map_option (\<lambda>v. Text (trim_space v)) (ly_IdleTimeout l)"
| "layer_setting l KeyLSPWarmupProbeTimeout = map_option (\<lambda>v. Text (trim_space v)) (ly_WarmupProbeTimeout l)"
| "layer_setting l KeyIndexWarmLSP = map_option Flag (ly_WarmLSP l)"
| "layer_setting l KeyProjectRoot = map_option Text (ly_ProjectRoot l)"

fun key_variable :: "config_key \<Rightarrow> string" where
  "key_variable KeyDBType = ''CODESIGHT_DB_TYPE''"
| "key_variable KeyDBAddress = ''CODESIGHT_DB_ADDRESS''"
| "key_variable KeyDBToken = ''CODESIGHT_DB_TOKEN''"
| "key_variable KeyDBCollectionName = ''CODESIGHT_DB_COLLECTION_NAME''"
| "key_variable KeyEmbeddingOllama = ''CODESIGHT_OLLAMA_HOST''"
| "key_variable KeyEmbeddingModel = ''CODESIGHT_EMBEDDING_MODEL''"
| "key_variable KeyEmbeddingMaxInput = ''CODESIGHT_OLLAMA_MAX_INPUT_CHARS''"
| "key_variable KeyStateDir = ''CODESIGHT_STATE_DIR''"
| "key_variable KeyLSPJavaGradleHome = ''CODESIGHT_GRADLE_JAVA_HOME''"
| "key_variable KeyLSPJavaRuntimeHome = ''CODESIGHT_LSP_JAVA_RUNTIME_HOME''"
| "key_variable KeyLSPDaemonTimeout = ''CODESIGHT_LSP_DAEMON_IDLE_TIMEOUT''"
| "key_variable KeyLSPWarmupProbeTimeout = ''CODESIGHT_LSP_DAEMON_WARMUP_PROBE_TIMEOUT''"
| "key_variable KeyProjectRoot = ''CODESIGHT_PROJECT_ROOT''"
| "key_variable _ = []"

fun env_setting :: "config_env \<Rightarrow> config_key \<Rightarrow> setting option" where
  "env_setting env KeyDBToken = set_var env (key_variable KeyDBToken)"
| "env_setting env KeyDBCollectionName = set_var env (key_variable KeyDBCollectionName)"
| "env_setting env KeyStateDir = set_var env (key_variable KeyStateDir)"
| "env_setting env KeyLSPJavaGradleHome = set_var env (key_variable KeyLSPJavaGradleHome)"
| "env_setting env KeyLSPJavaRuntimeHome = set_var env (key_variable KeyLSPJavaRuntimeHome)"
| "env_setting env KeyEmbeddingMaxInput = fst (max_input_var env)"
| "env_setting env KeyLSPDaemonTimeout = map_option Text (trimmed_var env (key_variable KeyLSPDaemonTimeout))"
| "env_setting env KeyLSPWarmupProbeTimeout = map_option Text (trimmed_var env (key_variable KeyLSPWarmupProbeTimeout))"
| "env_setting env KeyLSPJavaTimeout = None"
| "env_setting env KeyLSPJavaArgs = None"
| "env_setting env KeyLSPJavaLombok = None"
| "env_setting env KeyLSPGoBuildFlags = None"
| "env_setting env KeyIndexWarmLSP = None"
| "env_setting env k = nonempty_var env (key_variable k)"

lemma var_Text:
  "nonempty_var env n = Some v \<Longrightarrow> \<exists>t. v = Text t" "set_var env n = Some v \<Longrightarrow> \<exists>t. v = Text t"
  "fst (max_input_var env) = Some v \<Longrightarrow> \<exists>t. v = Number t"
  by (auto simp: nonempty_var_def set_var_def max_input_var_def split: option.splits if_splits)

lemma merge_sourced:
  assumes "mergeLayer c l source = Inr c'"
  shows "sourced c' k = (case layer_setting l k of None \<Rightarrow> sourced c k | Some v \<Rightarrow> (v, source))"
proof -
  have ok: "java_timeout_error (ly_JavaTimeout l) = None" "positive_error KeyLSPDaemonTimeout (ly_IdleTimeout l) = None"
    "positive_error KeyLSPWarmupProbeTimeout (ly_WarmupProbeTimeout l) = None"
    using assms by (simp_all add: mergeLayer_def Let_def split: option.split_asm)
  have c': "c' = (THE x. Inr x = mergeLayer c l source)" using assms by simp
  show ?thesis unfolding c' mergeLayer_def Let_def ok option.case
    by (cases k) (simp_all add: sourced_put setter_defs split: option.split)
qed

lemma env_sourced:
  assumes "applyEnv env c = (Inr c', ws)"
  shows "sourced c' k = (case env_setting env k of None \<Rightarrow> sourced c k | Some v \<Rightarrow> (v, key_variable k))"
proof -
  have ok: "positive_error KeyLSPDaemonTimeout (trimmed_var env ''CODESIGHT_LSP_DAEMON_IDLE_TIMEOUT'') = None"
    "positive_error KeyLSPWarmupProbeTimeout (trimmed_var env ''CODESIGHT_LSP_DAEMON_WARMUP_PROBE_TIMEOUT'') = None"
    using assms by (simp_all add: applyEnv_def Let_def split: option.split_asm)
  have c': "c' = (THE x. Inr x = fst (applyEnv env c))" using assms by simp
  show ?thesis unfolding c' applyEnv_def Let_def ok option.case fst_conv
    by (cases k) (simp_all add: sourced_put split: option.split, (auto simp: setter_defs dest!: var_Text)+)
qed

text \<open>The layer of a file that exists.\<close>

definition layer_at :: "config_env \<Rightarrow> string \<Rightarrow> config_key \<Rightarrow> setting option" where
  "layer_at env path k =
     (if path = [] \<or> ce_stat env path = StatMissing then None
      else case ce_decode env path of None \<Rightarrow> None | Some (l, undecoded) \<Rightarrow> layer_setting l k)"

lemma file_sourced:
  assumes "applyConfigFile env c path source = (Inr c', ws)" "path \<noteq> []"
  shows "sourced c' k = (case layer_at env path k of None \<Rightarrow> sourced c k | Some v \<Rightarrow> (v, source))"
proof (cases "ce_stat env path = StatMissing")
  case True
  then show ?thesis using assms(1) by (simp add: applyConfigFile_def layer_at_def)
next
  case False
  then obtain l undecoded where "ce_decode env path = Some (l, undecoded)" "mergeLayer c l source = Inr c'"
    using assms(1) by (auto simp: applyConfigFile_def split: stat_result.splits option.splits)
  then show ?thesis using False assms(2) merge_sourced [of c l source c' k] by (simp add: layer_at_def)
qed

lemma sourced_ConfigDir [simp]: "sourced (c\<lparr>cf_ConfigDir := d\<rparr>) k = sourced c k"
  by (simp add: sourced_def)

text \<open>The stages of a load that succeeds.\<close>

lemma LoadConfig_stages:
  assumes "LoadConfig env projectPath = (Some (Inr cfg), ws)"
  shows "\<exists>up pp c1 w1 c2 w2 w3. userConfigPath env = Inr up \<and> projectConfigPath env projectPath = Some (Inr pp) \<and>
    applyConfigFile env Defaults up userConfigSource = (Inr c1, w1) \<and>
    (if pp = [] then c2 = c1
     else \<exists>c. applyConfigFile env c1 pp projectConfigSource = (Inr c, w2) \<and> c2 = c\<lparr>cf_ConfigDir := path_dir pp\<rparr>) \<and>
    applyEnv env c2 = (Inr cfg, w3)"
proof -
  obtain up where up: "userConfigPath env = Inr up"
    using assms by (cases "userConfigPath env") (simp_all add: LoadConfig_def)
  obtain r1 w1 where "applyConfigFile env Defaults up userConfigSource = (r1, w1)" by fastforce
  with assms up obtain c1 where c1: "applyConfigFile env Defaults up userConfigSource = (Inr c1, w1)"
    by (cases r1) (simp_all add: LoadConfig_def)
  obtain r where r: "projectConfigPath env projectPath = Some r"
    using assms up c1 by (cases "projectConfigPath env projectPath") (simp_all add: LoadConfig_def)
  obtain pp where pp: "projectConfigPath env projectPath = Some (Inr pp)"
    using assms up c1 r by (cases r) (simp_all add: LoadConfig_def)
  obtain r2 w2 where r2: "applyConfigFile env c1 pp projectConfigSource = (r2, w2)" by fastforce
  show ?thesis
  proof (cases "pp = []")
    case True
    then show ?thesis
      using assms up c1 pp by (intro exI [of _ up] exI [of _ "[]"]) (cases "applyEnv env c1", simp add: LoadConfig_def)
  next
    case False
    then obtain c where "r2 = Inr c" using assms up c1 pp r2 by (cases r2) (simp_all add: LoadConfig_def)
    with False show ?thesis
      using assms up c1 pp r2
      by (intro exI [of _ up] exI [of _ pp]) (cases "applyEnv env (c\<lparr>cf_ConfigDir := path_dir pp\<rparr>)", simp add: LoadConfig_def)
  qed
qed

lemma config_file_nonempty: "config_file_in d \<noteq> []"
  by (auto simp: config_file_in_def path_join_def split: list.split)

text \<open>
  C29. The precedence of the layers. In a loaded configuration every setting has the value of the first
  of these that sets it, and names it as its source: its variable, the project's file, the user's
  file, the defaults. An empty variable counts for the settings that may be empty, and not for the
  others.
\<close>

theorem LoadConfig_layers:
  assumes "LoadConfig env projectPath = (Some (Inr cfg), ws)"
    and "userConfigPath env = Inr userPath" "projectConfigPath env projectPath = Some (Inr projPath)"
  shows "(setting_of cfg k, cf_Provenance cfg k) =
    (case env_setting env k of Some v \<Rightarrow> (v, key_variable k)
     | None \<Rightarrow> (case layer_at env projPath k of Some v \<Rightarrow> (v, projectConfigSource)
     | None \<Rightarrow> (case layer_at env userPath k of Some v \<Rightarrow> (v, userConfigSource)
     | None \<Rightarrow> (setting_of Defaults k, ''default''))))"
proof -
  obtain c1 w1 c2 w2 w3 where stages: "applyConfigFile env Defaults userPath userConfigSource = (Inr c1, w1)"
    "if projPath = [] then c2 = c1
     else \<exists>c. applyConfigFile env c1 projPath projectConfigSource = (Inr c, w2) \<and> c2 = c\<lparr>cf_ConfigDir := path_dir projPath\<rparr>"
    "applyEnv env c2 = (Inr cfg, w3)"
    using LoadConfig_stages [OF assms(1)] assms(2,3) by auto
  have "userPath \<noteq> []" using assms(2) config_file_nonempty by (auto simp: userConfigPath_def split: option.splits)
  note user = file_sourced [OF stages(1) this, of k]
  have "sourced c2 k = (case layer_at env projPath k of None \<Rightarrow> sourced c1 k | Some v \<Rightarrow> (v, projectConfigSource))"
    using stages(2) file_sourced [of env c1 projPath projectConfigSource _ w2 k] by (auto simp: layer_at_def split: if_splits)
  with user env_sourced [OF stages(3), of k]
  show ?thesis by (simp add: sourced_def Defaults_def split: option.splits)
qed

section \<open>Durations of a loaded configuration\<close>

definition durations_ok :: "Config \<Rightarrow> bool" where
  "durations_ok c \<longleftrightarrow>
     (\<exists>d. LSPDaemonIdleTimeoutDuration (Some c) = Inr d) \<and> (\<exists>d. LSPWarmupProbeTimeoutDuration (Some c) = Inr d) \<and>
     ParseDuration (java_Timeout (lsp_Java (cf_LSP c))) \<noteq> None"

text \<open>The two errors are about the raw text, but only the trimmed one counts.\<close>

lemma positive_trimmed: "positive_error k (Some raw) = None \<Longrightarrow> \<exists>d. parsePositiveDuration (trim_space raw) k = Inr d"
  by (auto simp: positive_error_def parsePositiveDuration_def split: option.splits sum.splits if_splits)

lemma durations_sourced:
  "durations_ok c \<longleftrightarrow>
    (\<forall>t. setting_of c KeyLSPDaemonTimeout = Text t \<longrightarrow> (\<exists>d. parsePositiveDuration t KeyLSPDaemonTimeout = Inr d)) \<and>
    (\<forall>t. setting_of c KeyLSPWarmupProbeTimeout = Text t \<longrightarrow> t = [] \<or> (\<exists>d. parsePositiveDuration t KeyLSPWarmupProbeTimeout = Inr d)) \<and>
    (\<forall>t. setting_of c KeyLSPJavaTimeout = Text t \<longrightarrow> ParseDuration t \<noteq> None)"
  by (auto simp: durations_ok_def LSPDaemonIdleTimeoutDuration_def LSPWarmupProbeTimeoutDuration_def Let_def)

lemma merge_durations:
  assumes "mergeLayer c l source = Inr c'" "durations_ok c"
  shows "durations_ok c'"
proof -
  have ok: "java_timeout_error (ly_JavaTimeout l) = None" "positive_error KeyLSPDaemonTimeout (ly_IdleTimeout l) = None"
    "positive_error KeyLSPWarmupProbeTimeout (ly_WarmupProbeTimeout l) = None"
    using assms(1) by (simp_all add: mergeLayer_def Let_def split: option.split_asm)
  note s = merge_sourced [OF assms(1), unfolded sourced_def]
  show ?thesis
    using s [of KeyLSPDaemonTimeout] s [of KeyLSPWarmupProbeTimeout] s [of KeyLSPJavaTimeout] ok assms(2)
      positive_trimmed
    unfolding durations_sourced
    by (auto simp: java_timeout_error_def split: option.splits if_splits)
qed

lemma trimmed_var_trim: "trimmed_var env n = Some t \<Longrightarrow> trim_space t = t"
  by (auto simp: trimmed_var_def split: option.splits if_splits)

lemma env_durations:
  assumes "applyEnv env c = (Inr c', ws)" "durations_ok c"
  shows "durations_ok c'"
proof -
  have ok: "positive_error KeyLSPDaemonTimeout (trimmed_var env ''CODESIGHT_LSP_DAEMON_IDLE_TIMEOUT'') = None"
    "positive_error KeyLSPWarmupProbeTimeout (trimmed_var env ''CODESIGHT_LSP_DAEMON_WARMUP_PROBE_TIMEOUT'') = None"
    using assms(1) by (simp_all add: applyEnv_def Let_def split: option.split_asm)
  note s = env_sourced [OF assms(1), unfolded sourced_def]
  show ?thesis
    using s [of KeyLSPDaemonTimeout] s [of KeyLSPWarmupProbeTimeout] s [of KeyLSPJavaTimeout] ok assms(2)
      positive_trimmed trimmed_var_trim
    unfolding durations_sourced
    by (auto split: option.splits) (metis trimmed_var_trim)+
qed

lemma loaded_durations_ok:
  assumes "LoadConfig env projectPath = (Some (Inr cfg), ws)"
  shows "durations_ok cfg"
proof -
  have merged: "durations_ok c'" if "applyConfigFile env c p source = (Inr c', ws')" "durations_ok c" for c c' p source ws'
    using that merge_durations by (auto simp: applyConfigFile_def split: stat_result.splits option.splits)
  have "LSPDaemonIdleTimeoutDuration (Some Defaults) = Inr (600 * 10 ^ 9)" "LSPWarmupProbeTimeoutDuration (Some Defaults) = Inr 0"
    "ParseDuration (java_Timeout (lsp_Java (cf_LSP Defaults))) = Some (60 * 10 ^ 9)" by code_simp+
  then have "durations_ok Defaults" by (simp add: durations_ok_def)
  moreover have "durations_ok (c\<lparr>cf_ConfigDir := d\<rparr>) = durations_ok c" for c d
    by (simp add: durations_ok_def LSPDaemonIdleTimeoutDuration_def LSPWarmupProbeTimeoutDuration_def)
  ultimately show ?thesis
    using LoadConfig_stages [OF assms] by (auto dest!: merged env_durations split: if_splits)
qed

lemma durations_ok_values:
  assumes "durations_ok cfg"
  shows "\<exists>idle probe java. LSPDaemonIdleTimeoutDuration (Some cfg) = Inr idle \<and> 0 < idle \<and> idle < 2 ^ 63 \<and>
    LSPWarmupProbeTimeoutDuration (Some cfg) = Inr probe \<and> 0 \<le> probe \<and> probe < 2 ^ 63 \<and>
    ParseDuration (java_Timeout (lsp_Java (cf_LSP cfg))) = Some java"
  using assms ParseDuration_range
  by (fastforce simp: durations_ok_def LSPDaemonIdleTimeoutDuration_def LSPWarmupProbeTimeoutDuration_def parsePositiveDuration_def
    Let_def split: option.splits if_splits)

text \<open>
  C31. The timeouts of a loaded configuration are valid. After a load that succeeds, whatever the files
  and the variables hold, reading the idle timeout gives a positive 64-bit duration, reading the
  probe timeout gives a duration that is not negative (zero when it is not set), and the timeout for
  Java parses.
\<close>

theorem LoadConfig_durations:
  assumes "LoadConfig env projectPath = (Some (Inr cfg), ws)"
  shows "\<exists>idle probe java. LSPDaemonIdleTimeoutDuration (Some cfg) = Inr idle \<and> 0 < idle \<and> idle < 2 ^ 63 \<and>
    LSPWarmupProbeTimeoutDuration (Some cfg) = Inr probe \<and> 0 \<le> probe \<and> probe < 2 ^ 63 \<and>
    ParseDuration (java_Timeout (lsp_Java (cf_LSP cfg))) = Some java"
  by (rule durations_ok_values [OF loaded_durations_ok [OF assms]])

section \<open>The nearest project file\<close>

text \<open>The directories that the search looks into: up to the first at which it stops.\<close>

fun searched :: "('a \<Rightarrow> bool) \<Rightarrow> 'a list \<Rightarrow> 'a list" where
  "searched stops [] = []"
| "searched stops (d # ds) = d # (if stops d then [] else searched stops ds)"

definition file_exists :: "config_env \<Rightarrow> string \<Rightarrow> bool" where
  "file_exists env p \<longleftrightarrow> ce_stat env p \<in> {StatDir, StatFile}"

definition has_config :: "config_env \<Rightarrow> string \<Rightarrow> string \<Rightarrow> bool" where
  "has_config env userCfg d \<longleftrightarrow> \<not> sameCleanPath (config_file_in d) userCfg \<and> file_exists env (config_file_in d)"

definition search_stops :: "config_env \<Rightarrow> string \<Rightarrow> bool \<Rightarrow> string \<Rightarrow> bool" where
  "search_stops env homeDir inside d \<longleftrightarrow> file_exists env (path_join [d, ''.git'']) \<or> (inside \<and> sameCleanPath d homeDir)"

definition nearest_config :: "config_env \<Rightarrow> string \<Rightarrow> string list \<Rightarrow> string" where
  "nearest_config env userCfg ds =
     (case find (has_config env userCfg) ds of None \<Rightarrow> [] | Some d \<Rightarrow> config_file_in d)"

lemma config_search_nearest:
  assumes "\<forall>n \<in> set ns. is_name n" "length ns < fuel" "inside \<or> parents \<le> maxProjectConfigSearchParents"
    and stat: "\<And>p. ce_stat env p \<noteq> StatFailed"
  shows "config_search env userCfg homeDir inside fuel parents (slash # rel_path ns) =
    Some (Inr (nearest_config env userCfg (searched (search_stops env homeDir inside)
      (if inside then ancestors ns else take (Suc maxProjectConfigSearchParents - parents) (ancestors ns)))))"
  using assms(1-3)
proof (induction ns arbitrary: fuel parents rule: rev_induct)
  case Nil
  then obtain f where f: "fuel = Suc f" by (cases fuel) auto
  have "take (Suc maxProjectConfigSearchParents - parents) (ancestors []) = ancestors []" if "\<not> inside"
    using Nil.prems(3) that by (simp add: ancestors_simps)
  then show ?case
    using f stat [of "config_file_in [slash]"] stat [of "path_join [[slash], ''.git'']"]
    by (cases "ce_stat env (config_file_in [slash])"; cases "ce_stat env (path_join [[slash], ''.git''])")
      (simp_all add: ancestors_simps rel_path_def dir_top nearest_config_def has_config_def search_stops_def file_exists_def Let_def)
next
  case (snoc x ns)
  let ?d = "slash # rel_path (ns @ [x])"
  obtain f where f: "fuel = Suc f" using snoc.prems(2) by (cases fuel) auto
  have names: "\<forall>n \<in> set ns. is_name n" "length ns < f" using snoc.prems f by auto
  have rest: "config_search env userCfg homeDir inside f (parents + 1) (slash # rel_path ns) =
      Some (Inr (nearest_config env userCfg (searched (search_stops env homeDir inside)
        (if inside then ancestors ns else take (maxProjectConfigSearchParents - parents) (ancestors ns)))))"
    if "inside \<or> parents < maxProjectConfigSearchParents"
  proof -
    have "inside \<or> parents + 1 \<le> maxProjectConfigSearchParents" using that by auto
    from snoc.IH [OF names this] show ?thesis by simp
  qed
  have dirs: "path_dir ?d = slash # rel_path ns" "slash # rel_path ns \<noteq> ?d"
    using dir_abs [OF snoc.prems(1)] rel_path_ne [OF snoc.prems(1)] by auto
  have here: "(if inside then ancestors (ns @ [x]) else take (Suc maxProjectConfigSearchParents - parents) (ancestors (ns @ [x]))) =
      ?d # (if inside then ancestors ns else take (maxProjectConfigSearchParents - parents) (ancestors ns))"
    using snoc.prems(3) by (auto simp: ancestors_simps Suc_diff_le)
  have bound: "\<not> inside \<Longrightarrow> maxProjectConfigSearchParents \<le> parents \<Longrightarrow> maxProjectConfigSearchParents - parents = 0" by simp
  show ?case
    unfolding f here
    using stat [of "config_file_in ?d"] stat [of "path_join [?d, ''.git'']"] dirs rest bound snoc.prems(3)
    by (cases "ce_stat env (config_file_in ?d)"; cases "ce_stat env (path_join [?d, ''.git''])")
      (auto simp: nearest_config_def has_config_def [of env userCfg ?d] search_stops_def [of env homeDir inside ?d]
        file_exists_def Let_def not_le)
qed

lemma path_dir_rooted:
  assumes "has_prefix p ''/''"
  shows "has_prefix (path_dir p) ''/''"
proof -
  let ?dw = "dropWhile (\<lambda>c. c \<noteq> slash) (rev p)"
  obtain q where p: "p = slash # q" using assms by (auto simp: has_prefix_iff)
  then have "?dw \<noteq> []" by (auto simp: dropWhile_eq_Nil_conv)
  moreover have "last (takeWhile (\<lambda>c. c \<noteq> slash) (rev p) @ ?dw) = slash" by (simp only: takeWhile_dropWhile_id) (simp add: p)
  ultimately have "last ?dw = slash" by (metis last_appendR)
  then have "hd (rev ?dw) = slash" "rev ?dw \<noteq> []" using \<open>?dw \<noteq> []\<close> by (simp_all only: hd_rev rev_is_Nil_conv) auto
  then have "has_prefix (rev ?dw) ''/''" by (cases "rev ?dw") auto
  then show ?thesis by (simp add: path_dir_def path_clean_rooted)
qed

text \<open>
  C30. The project's file is the nearest one. If all files can be looked at, the search always ends, and
  finds the nearest \<open>.codesight/config.toml\<close> that is not the user's own in the directories from the
  starting one upwards: up to the first with a \<open>.git\<close>, up to the home directory when it starts
  below it, and otherwise up to the twelfth parent.
\<close>

theorem projectConfigPath_nearest:
  assumes "has_prefix (ce_cwd env) ''/''" "\<forall>p r. ce_evalSymlinks env p = Some r \<longrightarrow> has_prefix r ''/''"
    and "\<forall>p. ce_stat env p \<noteq> StatFailed"
    and "ce_home env = Some home" "resolveProjectConfigStartDir env projectPath = Inr startDir"
  shows "\<exists>ns. startDir = slash # rel_path ns \<and> (\<forall>n \<in> set ns. is_name n) \<and>
    projectConfigPath env projectPath =
      Some (Inr (nearest_config env (resolve_links env (config_file_in home))
        (searched (search_stops env (resolve_links env home) (pathWithinRoot startDir (resolve_links env home)))
          (if pathWithinRoot startDir (resolve_links env home) then ancestors ns
           else take (Suc maxProjectConfigSearchParents) (ancestors ns)))))"
proof -
  have start: "\<exists>p. has_prefix p ''/'' \<and> (startDir = path_clean p \<or> startDir = path_clean (path_dir p))"
  proof -
    let ?t = "if trim_space projectPath = [] then ''.'' else trim_space projectPath"
    have "has_prefix (path_abs (ce_cwd env) ?t) ''/''"
      using assms(1) by (intro path_abs_slash) (simp add: path_is_abs_def)
    then show ?thesis using assms(2,5) 
      by (auto simp: resolveProjectConfigStartDir_def Let_def split: option.splits stat_result.splits)
  qed
  then obtain ns where ns: "startDir = slash # rel_path ns" "\<forall>n \<in> set ns. is_name n"
    using clean_rooted path_dir_rooted by metis
  then have len: "length ns < Suc (length startDir)" using rel_path_length [of ns] by simp
  have "resolve_links env home \<noteq> []" by (simp add: resolve_links_def Let_def split: option.split)
  then show ?thesis
    using ns config_search_nearest [OF ns(2) len, of _ 0 env] assms(3)
    by (intro exI [of _ ns]) (simp add: projectConfigPath_def assms(4,5) userConfigPath_def Let_def del: config_search.simps)
qed

section \<open>Examples\<close>

text \<open>A project below the home directory, with a file of its own and a variable.\<close>

definition empty_layer :: layerConfig where
  "empty_layer =
     \<lparr>ly_DBType = None, ly_DBAddress = None, ly_DBToken = None, ly_DBCollectionName = None, ly_OllamaHost = None,
      ly_Model = None, ly_MaxInputChars = None, ly_StateDir = None, ly_GradleJavaHome = None, ly_RuntimeJavaHome = None,
      ly_JavaTimeout = None, ly_JavaArgs = None, ly_Lombok = None, ly_BuildFlags = None, ly_IdleTimeout = None,
      ly_WarmupProbeTimeout = None, ly_WarmLSP = None, ly_ProjectRoot = None\<rparr>"

definition demo_cenv :: config_env where
  "demo_cenv =
     \<lparr>ce_cwd = ''/h/w/a'', ce_home = Some ''/h'',
      ce_getenv = (\<lambda>n. if n = ''CODESIGHT_DB_TYPE'' then Some ''lancedb'' else None),
      ce_stat = (\<lambda>p. if p \<in> {''/h/w/a'', ''/h/w/.git''} then StatDir
                      else if p = ''/h/w/.codesight/config.toml'' then StatFile else StatMissing),
      ce_evalSymlinks = (\<lambda>p. None),
      ce_decode = (\<lambda>p. Some (empty_layer\<lparr>ly_DBType := Some ''x'', ly_DBAddress := Some ''db:1'', ly_IdleTimeout := Some '' 5m ''\<rparr>, []))\<rparr>"

definition demo_cfg :: Config where
  "demo_cfg = (case fst (LoadConfig demo_cenv ''.'') of Some (Inr c) \<Rightarrow> c)"

lemma demo_paths:
  "userConfigPath demo_cenv = Inr ''/h/.codesight/config.toml''"
  "projectConfigPath demo_cenv ''.'' = Some (Inr ''/h/w/.codesight/config.toml'')"
  "resolveProjectConfigStartDir demo_cenv ''.'' = Inr ''/h/w/a''"
  by code_simp+

lemma demo_load: "LoadConfig demo_cenv ''.'' = (Some (Inr demo_cfg), [])"
proof -
  have user: "applyConfigFile demo_cenv Defaults ''/h/.codesight/config.toml'' userConfigSource = (Inr Defaults, [])"
    by (simp add: applyConfigFile_def demo_cenv_def)
  have five: "parsePositiveDuration '' 5m '' KeyLSPDaemonTimeout = Inr (300 * 10 ^ 9)" by code_simp
  obtain c where c: "applyConfigFile demo_cenv Defaults ''/h/w/.codesight/config.toml'' projectConfigSource = (Inr c, [])"
    by (simp add: applyConfigFile_def demo_cenv_def mergeLayer_def warnUnknownKeys_def empty_layer_def java_timeout_error_def
      positive_error_def five Let_def)
  obtain c' where "applyEnv demo_cenv (c\<lparr>cf_ConfigDir := path_dir ''/h/w/.codesight/config.toml''\<rparr>) = (Inr c', [])"
    by (simp add: applyEnv_def demo_cenv_def positive_error_def trimmed_var_def max_input_var_def Let_def)
  then show ?thesis by (simp add: demo_cfg_def LoadConfig_def demo_paths user c)
qed

theorem LoadConfig_layers_witness:
  "setting_of demo_cfg KeyDBType = Text ''lancedb'' \<and> cf_Provenance demo_cfg KeyDBType = ''CODESIGHT_DB_TYPE'' \<and>
   setting_of demo_cfg KeyDBAddress = Text ''db:1'' \<and> cf_Provenance demo_cfg KeyDBAddress = ''.codesight/config.toml'' \<and>
   setting_of demo_cfg KeyEmbeddingModel = Text ''bge-m3'' \<and> cf_Provenance demo_cfg KeyEmbeddingModel = ''default''"
  using LoadConfig_layers [OF demo_load demo_paths(1,2), of KeyDBType]
    LoadConfig_layers [OF demo_load demo_paths(1,2), of KeyDBAddress]
    LoadConfig_layers [OF demo_load demo_paths(1,2), of KeyEmbeddingModel]
  by (simp add: demo_cenv_def nonempty_var_def layer_at_def empty_layer_def projectConfigSource_def Defaults_def)

theorem LoadConfig_durations_witness:
  "\<exists>idle. LSPDaemonIdleTimeoutDuration (Some demo_cfg) = Inr idle \<and> 0 < idle \<and> idle < 2 ^ 63"
  using LoadConfig_durations [OF demo_load] by blast

theorem projectConfigPath_nearest_witness:
  "\<exists>ns. ''/h/w/a'' = slash # rel_path ns \<and>
    projectConfigPath demo_cenv ''.'' =
      Some (Inr (nearest_config demo_cenv ''/h/.codesight/config.toml'' (searched (search_stops demo_cenv ''/h'' True) (ancestors ns))))"
proof -
  have stat: "\<forall>p. ce_stat demo_cenv p \<noteq> StatFailed" by (simp add: demo_cenv_def)
  have links: "resolve_links demo_cenv ''/h'' = ''/h''" "pathWithinRoot ''/h/w/a'' ''/h''"
    "resolve_links demo_cenv (config_file_in ''/h'') = ''/h/.codesight/config.toml''" by code_simp+
  have env: "has_prefix (ce_cwd demo_cenv) ''/''" "\<forall>p r. ce_evalSymlinks demo_cenv p = Some r \<longrightarrow> has_prefix r ''/''"
    "ce_home demo_cenv = Some ''/h''" by (simp_all add: demo_cenv_def)
  show ?thesis using projectConfigPath_nearest [OF env(1,2) stat env(3) demo_paths(3)] links by auto
qed

text \<open>
  A user's file that is reached through a symbolic link is taken for the project's: only one of the two
  paths that are compared has its links resolved.
\<close>

lemma symlinked_user_config:
  "projectConfigPath
     (demo_cenv\<lparr>ce_cwd := ''/h'', ce_stat := (\<lambda>p. if p \<in> {''/h'', ''/h/.codesight/config.toml''} then StatDir else StatMissing),
                ce_evalSymlinks := (\<lambda>p. if p = ''/h/.codesight/config.toml'' then Some ''/dot/config.toml'' else Some p)\<rparr>) ''.'' =
   Some (Inr ''/h/.codesight/config.toml'')"
  by code_simp

text \<open>A negative limit is refused in the variable and taken from a file.\<close>

lemma negative_max_input:
  "(case mergeLayer Defaults (empty_layer\<lparr>ly_MaxInputChars := Some (- 5)\<rparr>) projectConfigSource of
      Inr c \<Rightarrow> emb_MaxInputChars (cf_Embedding c) = - 5 | Inl err \<Rightarrow> False) \<and>
   fst (max_input_var (demo_cenv\<lparr>ce_getenv := (\<lambda>n. Some ''-5'')\<rparr>)) = None"
  by code_simp

end
