(* ===== verification/CsJava.thy ===== *)
theory CsJava
  imports LspConnect CsConfig
begin

text \<open>
  \<open>cmd/cs/lsp_java_lombok.go\<close> and \<open>cmd/cs/lsp_java_init.go\<close>: what the server of Java is started with. The
  Lombok agent is looked for in the build files and the local caches; the environment and the
  initialization options come from the configuration, and the import of Gradle projects is suppressed
  when the build files are those of the recorded baseline.
\<close>

section \<open>The surroundings\<close>

text \<open>
  What the system reports: \<open>filepath.Glob\<close> (nothing for a bad pattern), the entries of a directory with a
  flag for directories, the attributes of a file (directory, modification time, size), its contents.
\<close>

datatype file_info = InfoMissing | InfoFailed | InfoOf bool int int

record java_env =
  jv_home :: "string option"
  jv_glob :: "string \<Rightarrow> string list option"
  jv_readDir :: "string \<Rightarrow> (string \<times> bool) list option"
  jv_stat :: "string \<Rightarrow> file_info"
  jv_read :: "string \<Rightarrow> string option"
  jv_evalSymlinks :: "string \<Rightarrow> string option"
  jv_cwd :: string
  jv_sha256 :: "string \<Rightarrow> string"

definition jv_exists :: "java_env \<Rightarrow> string \<Rightarrow> bool" where
  "jv_exists env p = (case jv_stat env p of InfoOf d m n \<Rightarrow> True | _ \<Rightarrow> False)"

text \<open>
  \<open>strings.EqualFold\<close> with an ASCII text: besides the capital letters, the long s and the Kelvin sign
  fold to ASCII.
\<close>

definition fold_rune :: "nat \<Rightarrow> nat" where
  "fold_rune r = (if 65 \<le> r \<and> r \<le> 90 then r + 32 else if r = 0x17F then 115 else if r = 0x212A then 107 else r)"

definition equal_fold :: "string \<Rightarrow> string \<Rightarrow> bool" where
  "equal_fold s t \<longleftrightarrow> map fold_rune (runes s) = map fold_rune (runes t)"

section \<open>Lombok\<close>

definition lombokConfigOff :: string where "lombokConfigOff = ''off''"

definition javaLombokBuildFileGlobs :: "string list" where
  "javaLombokBuildFileGlobs =
     [''pom.xml'', ''build.gradle'', ''build.gradle.kts'', ''settings.gradle'', ''settings.gradle.kts'',
      ''gradle/libs.versions.toml'', ''buildSrc/build.gradle'', ''buildSrc/build.gradle.kts'',
      ''*/pom.xml'', ''*/build.gradle'', ''*/build.gradle.kts'']"

definition javaArgsContainLombokAgent :: "string list \<Rightarrow> bool" where
  "javaArgsContainLombokAgent args =
     list_ex (\<lambda>arg. contains (to_lower arg) ''-javaagent'' \<and> contains (to_lower arg) ''lombok'') args"

definition mentions_lombok :: "java_env \<Rightarrow> string \<Rightarrow> bool" where
  "mentions_lombok env path =
     (case jv_read env path of None \<Rightarrow> False | Some content \<Rightarrow> contains (to_lower content) ''lombok'')"

definition javaProjectUsesLombok :: "java_env \<Rightarrow> string \<Rightarrow> bool" where
  "javaProjectUsesLombok env workspaceRoot =
     (let root_dir = trim_space workspaceRoot
      in root_dir \<noteq> [] \<and>
         list_ex (\<lambda>pattern. case jv_glob env (path_join [root_dir, pattern]) of
             None \<Rightarrow> False | Some paths \<Rightarrow> list_ex (mentions_lombok env) paths) javaLombokBuildFileGlobs)"

text \<open>A version is a list of numbers; splitting never gives an empty list.\<close>

definition parseLombokVersion :: "string \<Rightarrow> int list option" where
  "parseLombokVersion version = those (map parse_int64 (split_on (CHR ''.'') version))"

definition first_number :: "int list \<Rightarrow> int" where
  "first_number v = (case v of [] \<Rightarrow> 0 | n # ns \<Rightarrow> n)"

function compareLombokVersions :: "int list \<Rightarrow> int list \<Rightarrow> int" where
  "compareLombokVersions a b =
     (if a = [] \<and> b = [] then 0
      else if first_number a \<noteq> first_number b then (if first_number a > first_number b then 1 else - 1)
      else compareLombokVersions (tl a) (tl b))"
  by pat_completeness auto
termination
  by (relation "measure (\<lambda>(a, b). length a + length b)") (auto simp: neq_Nil_conv)

declare compareLombokVersions.simps [simp del]

text \<open>The closure \<open>consider\<close>: the best jar so far with its version; the empty path is no jar.\<close>

definition consider_jar :: "string \<times> string \<Rightarrow> string \<times> int list \<Rightarrow> string \<times> int list" where
  "consider_jar candidate best =
     (case candidate of (version, jar) \<Rightarrow>
        if jar = [] then best
        else case parseLombokVersion version of
               None \<Rightarrow> best
             | Some parsed \<Rightarrow>
                 if fst best = [] \<or> compareLombokVersions parsed (snd best) > 0 then (jar, parsed) else best)"

definition listSubdirectories :: "java_env \<Rightarrow> string \<Rightarrow> string list" where
  "listSubdirectories env base =
     (case jv_readDir env base of
        None \<Rightarrow> [] | Some entries \<Rightarrow> map (\<lambda>e. path_join [base, fst e]) (filter snd entries))"

definition gradle_candidates :: "java_env \<Rightarrow> string \<Rightarrow> (string \<times> string) list" where
  "gradle_candidates env home =
     List.map_filter
       (\<lambda>versionDir. let version = path_base versionDir
          in case jv_glob env (path_join [versionDir, ''*'', ''lombok-'' @ version @ ''.jar'']) of
               Some (jar # rest) \<Rightarrow> Some (version, jar) | _ \<Rightarrow> None)
       (listSubdirectories env
         (path_join [home, ''.gradle'', ''caches'', ''modules-2'', ''files-2.1'', ''org.projectlombok'', ''lombok'']))"

definition maven_candidates :: "java_env \<Rightarrow> string \<Rightarrow> (string \<times> string) list" where
  "maven_candidates env home =
     List.map_filter
       (\<lambda>versionDir. let version = path_base versionDir; jar = path_join [versionDir, ''lombok-'' @ version @ ''.jar'']
          in if jv_exists env jar then Some (version, jar) else None)
       (listSubdirectories env (path_join [home, ''.m2'', ''repository'', ''org'', ''projectlombok'', ''lombok'']))"

definition findLombokJar :: "java_env \<Rightarrow> string" where
  "findLombokJar env =
     (case jv_home env of
        None \<Rightarrow> []
      | Some home \<Rightarrow> fst (fold consider_jar (gradle_candidates env home @ maven_candidates env home) ([], [])))"

definition javaLombokAgentArgs :: "java_env \<Rightarrow> string \<Rightarrow> Config option \<Rightarrow> string list" where
  "javaLombokAgentArgs env workspaceRoot cfg =
     (let mode = (case cfg of None \<Rightarrow> [] | Some c \<Rightarrow> trim_space (java_Lombok (lsp_Java (cf_LSP c))));
          skip = (case cfg of
                    None \<Rightarrow> False
                  | Some c \<Rightarrow> equal_fold mode lombokConfigOff \<or> javaArgsContainLombokAgent (java_Args (lsp_Java (cf_LSP c))))
      in if skip then []
         else let jar = (if mode \<noteq> [] then mode
                         else if javaProjectUsesLombok env workspaceRoot then findLombokJar env else [])
              in if jar = [] \<or> \<not> jv_exists env jar then [] else [''--jvm-arg=-javaagent:'' @ jar])"

section \<open>The environment of the server\<close>

definition javaLSPServerEnv :: "ServerSpec \<Rightarrow> Config option \<Rightarrow> string list" where
  "javaLSPServerEnv spec cfg =
     (if \<not> equal_fold (trim_space (ss_Binary spec)) ''jdtls'' then []
      else case cfg of
             None \<Rightarrow> []
           | Some c \<Rightarrow>
               let runtimeJavaHome = trim_space (java_RuntimeJavaHome (lsp_Java (cf_LSP c)))
               in if runtimeJavaHome = [] then [] else [''JAVA_HOME='' @ runtimeJavaHome])"

definition process_override :: "string \<Rightarrow> (string \<times> string) option" where
  "process_override entry0 =
     (let entry = trim_space entry0; name = trim_space (env_name entry)
      in if CHR ''='' \<notin> set entry \<or> name = [] then None
         else Some (name, name @ ''='' @ drop (length (env_name entry) + 1) entry))"

definition normalizeProcessEnvOverrides :: "string list \<Rightarrow> string list" where
  "normalizeProcessEnvOverrides env =
     (let entries = List.map_filter process_override env;
          byName = fold (\<lambda>(n, v) m. m(n \<mapsto> v)) entries Map.empty
      in map (\<lambda>n. the (byName n)) (sort (remdups (map fst entries))))"

definition mergeProcessEnv :: "string list \<Rightarrow> string list \<Rightarrow> string list" where
  "mergeProcessEnv base overrides =
     (let normalizedOverrides = normalizeProcessEnvOverrides overrides
      in if normalizedOverrides = [] then base
         else filter (\<lambda>e. \<not> overridden normalizedOverrides e) base @ normalizedOverrides)"

section \<open>The baseline of the Gradle build\<close>

definition javaGradleTrackedBuildFiles :: "string list" where
  "javaGradleTrackedBuildFiles = [''build.gradle.kts'', ''build.gradle'', ''settings.gradle.kts'', ''settings.gradle'']"

datatype java_error =
    StatBuildFile string | BuildFileIsDir string | ReadBuildFile string | BaselinePaths lifecycle_error
  | ReadBaseline | WriteBaseline baseline_error

definition hex_digest :: "java_env \<Rightarrow> string \<Rightarrow> string" where
  "hex_digest env s = concat (map hex_byte (jv_sha256 env s))"

definition detectJavaGradleBuildFile :: "java_env \<Rightarrow> string \<Rightarrow> string \<Rightarrow> java_error + JavaGradleBuildFile" where
  "detectJavaGradleBuildFile env workspaceRoot rel =
     (let fullPath = path_join [workspaceRoot, rel]
      in case jv_stat env fullPath of
           InfoMissing \<Rightarrow>
             Inr \<lparr>gf_Path = rel, gf_Exists = False, gf_ModTimeUnixNano = 0, gf_SizeBytes = 0, gf_ContentSHA256 = []\<rparr>
         | InfoFailed \<Rightarrow> Inl (StatBuildFile fullPath)
         | InfoOf isDir modTime fileSize \<Rightarrow>
             if isDir then Inl (BuildFileIsDir fullPath)
             else case jv_read env fullPath of
                    None \<Rightarrow> Inl (ReadBuildFile fullPath)
                  | Some contents \<Rightarrow>
                      Inr \<lparr>gf_Path = rel, gf_Exists = True, gf_ModTimeUnixNano = modTime, gf_SizeBytes = fileSize,
                           gf_ContentSHA256 = hex_digest env contents\<rparr>)"

text \<open>The format \<open>%t\<close>.\<close>

definition bool_str :: "bool \<Rightarrow> string" where
  "bool_str b = (if b then ''true'' else ''false'')"

definition writeJavaGradleFingerprintPart :: "JavaGradleBuildFile \<Rightarrow> string" where
  "writeJavaGradleFingerprintPart s =
     gf_Path s @ [CHR 0x00] @ bool_str (gf_Exists s) @ [CHR 0x00] @ gf_ContentSHA256 s @ [CHR 0x00]"

fun detect_build_files :: "java_env \<Rightarrow> string \<Rightarrow> string list \<Rightarrow> java_error + JavaGradleBuildFile list" where
  "detect_build_files env canonicalRoot [] = Inr []"
| "detect_build_files env canonicalRoot (p # ps) =
     (case detectJavaGradleBuildFile env canonicalRoot p of
        Inl err \<Rightarrow> Inl err
      | Inr f \<Rightarrow> (case detect_build_files env canonicalRoot ps of Inl err \<Rightarrow> Inl err | Inr fs \<Rightarrow> Inr (f # fs)))"

definition resolveProjectPath :: "string \<Rightarrow> (string \<Rightarrow> string option) \<Rightarrow> string \<Rightarrow> string" where
  "resolveProjectPath cwd evalSymlinks path =
     (let abs = path_abs cwd path in case evalSymlinks abs of None \<Rightarrow> abs | Some resolved \<Rightarrow> resolved)"

definition detectJavaGradleBuildBaseline :: "java_env \<Rightarrow> string \<Rightarrow> java_error + JavaGradleBuildBaseline" where
  "detectJavaGradleBuildBaseline env workspaceRoot =
     (case detect_build_files env (resolveProjectPath (jv_cwd env) (jv_evalSymlinks env) workspaceRoot) javaGradleTrackedBuildFiles of
        Inl err \<Rightarrow> Inl err
      | Inr files \<Rightarrow>
          Inr \<lparr>gb_Fingerprint = hex_digest env (concat (map writeJavaGradleFingerprintPart files)), gb_Files = files\<rparr>)"

text \<open>The two writes may fail: \<open>write_ok\<close> and \<open>state_ok\<close> as in \<open>WriteJavaGradleBuildBaseline\<close>.\<close>

definition shouldSuppressJDTLSGradleImport ::
  "java_env \<Rightarrow> lifecycle_env \<Rightarrow> bool \<Rightarrow> bool \<Rightarrow> string \<Rightarrow> state_files \<Rightarrow> (java_error + bool) \<times> state_files" where
  "shouldSuppressJDTLSGradleImport env lenv write_ok state_ok workspaceRoot files =
     (case detectJavaGradleBuildBaseline env workspaceRoot of
        Inl err \<Rightarrow> (Inl err, files)
      | Inr current \<Rightarrow>
          (case javaGradleBaselinePaths lenv workspaceRoot of
             Inl err \<Rightarrow> (Inl (BaselinePaths err), files)
           | Inr (statePath, baselinePath) \<Rightarrow>
               (let previous = ReadJavaGradleBuildBaseline files statePath baselinePath
                in if previous = Inl Undecodable then (Inl ReadBaseline, files)
                   else case WriteJavaGradleBuildBaseline write_ok state_ok statePath baselinePath current files of
                          (Some err, files') \<Rightarrow> (Inl (WriteBaseline err), files')
                        | (None, files') \<Rightarrow>
                            (Inr (case previous of
                                    Inl err \<Rightarrow> False
                                  | Inr b \<Rightarrow> gb_Fingerprint b \<noteq> [] \<and> gb_Fingerprint b = gb_Fingerprint current), files'))))"

section \<open>Initialization options\<close>

definition buildJDTLSInitOptions :: "string \<Rightarrow> bool \<Rightarrow> jdtls_options option" where
  "buildJDTLSInitOptions gradleJavaHome suppressGradleImport =
     (if trim_space gradleJavaHome = [] \<and> \<not> suppressGradleImport then None
      else Some \<lparr>jo_GradleHome = (if trim_space gradleJavaHome = [] then None else Some (trim_space gradleJavaHome)),
                 jo_GradleDisabled = suppressGradleImport\<rparr>)"

definition jdtlsInitOptions :: "Config option \<Rightarrow> jdtls_options option" where
  "jdtlsInitOptions cfg =
     (case cfg of None \<Rightarrow> None | Some c \<Rightarrow> buildJDTLSInitOptions (java_GradleJavaHome (lsp_Java (cf_LSP c))) False)"

definition jdtlsInitOptionsForWorkspace ::
  "java_env \<Rightarrow> lifecycle_env \<Rightarrow> bool \<Rightarrow> bool \<Rightarrow> string \<Rightarrow> Config option \<Rightarrow> state_files \<Rightarrow>
   (java_error + jdtls_options option) \<times> state_files" where
  "jdtlsInitOptionsForWorkspace env lenv write_ok state_ok workspaceRoot cfg files =
     (case shouldSuppressJDTLSGradleImport env lenv write_ok state_ok workspaceRoot files of
        (Inl err, files') \<Rightarrow> (Inl err, files')
      | (Inr suppressGradleImport, files') \<Rightarrow>
          (if \<not> suppressGradleImport then (Inr (jdtlsInitOptions cfg), files')
           else let gradleJavaHome =
                      (case cfg of None \<Rightarrow> [] | Some c \<Rightarrow> trim_space (java_GradleJavaHome (lsp_Java (cf_LSP c))))
                in (Inr (buildJDTLSInitOptions gradleJavaHome True), files')))"

definition refsInitializeParams ::
  "java_env \<Rightarrow> lifecycle_env \<Rightarrow> bool \<Rightarrow> bool \<Rightarrow> Config option \<Rightarrow> string \<Rightarrow> ServerSpec \<Rightarrow> state_files \<Rightarrow>
   (java_error + InitializeParams) \<times> state_files" where
  "refsInitializeParams env lenv write_ok state_ok cfg workspaceRoot spec files =
     (let rootURI = daemonWorkspaceURI (jv_cwd env) workspaceRoot;
          base = path_base workspaceRoot;
          params = \<lparr>ip_RootURI = rootURI, ip_ClientName = ''cs'', ip_FolderURI = rootURI,
            ip_FolderName = (if trim_space base = [] \<or> base = ''/'' then ''workspace'' else base),
            ip_InitializationOptions = None\<rparr>
      in if ss_Binary spec \<noteq> ''jdtls'' then (Inr params, files)
         else case jdtlsInitOptionsForWorkspace env lenv write_ok state_ok workspaceRoot cfg files of
                (Inl err, files') \<Rightarrow> (Inl err, files')
              | (Inr opts, files') \<Rightarrow> (Inr (params\<lparr>ip_InitializationOptions := opts\<rparr>), files'))"


section \<open>Versions\<close>

text \<open>The comparison is a linear preorder: lexicographic, missing numbers being zero.\<close>

lemma compare_le_step:
  "compareLombokVersions a b \<le> 0 \<longleftrightarrow>
    first_number a < first_number b \<or> (first_number a = first_number b \<and> compareLombokVersions (tl a) (tl b) \<le> 0)"
  by (subst compareLombokVersions.simps) (auto simp: first_number_def compareLombokVersions.simps [of "[]" "[]"])

lemma compare_antisym: "compareLombokVersions b a = - compareLombokVersions a b"
proof (induction a b rule: compareLombokVersions.induct)
  case (1 a b)
  then show ?case
    by (subst compareLombokVersions.simps, subst (2) compareLombokVersions.simps) auto
qed

lemma compare_refl [simp]: "compareLombokVersions a a = 0"
  using compare_antisym [of a a] by simp

lemma compare_trans:
  "compareLombokVersions a b \<le> 0 \<Longrightarrow> compareLombokVersions b c \<le> 0 \<Longrightarrow> compareLombokVersions a c \<le> 0"
proof (induction a c arbitrary: b rule: compareLombokVersions.induct)
  case (1 a c)
  show ?case
  proof (cases "a = [] \<and> c = []")
    case False
    from "1.prems" have "first_number a < first_number c \<or> (first_number a = first_number c \<and>
        compareLombokVersions (tl a) (tl b) \<le> 0 \<and> compareLombokVersions (tl b) (tl c) \<le> 0)"
      by (auto simp: compare_le_step [of a] compare_le_step [of b])
    then show ?thesis using "1.IH" [OF False] by (auto simp: compare_le_step [of a])
  qed simp
qed

lemma consider_step:
  "consider_jar (version, jar) best =
    (if jar = [] \<or> parseLombokVersion version = None then best
     else if fst best = [] \<or> compareLombokVersions (the (parseLombokVersion version)) (snd best) > 0
     then (jar, the (parseLombokVersion version)) else best)"
  by (auto simp: consider_jar_def split: option.split)

lemma consider_best:
  "fst best \<noteq> [] \<Longrightarrow>
    fst (fold consider_jar cs best) \<noteq> [] \<and> compareLombokVersions (snd best) (snd (fold consider_jar cs best)) \<le> 0"
proof (induction cs arbitrary: best)
  case (Cons c cs)
  obtain version jar where c: "c = (version, jar)" by (cases c)
  have step: "fst (consider_jar c best) \<noteq> []" "compareLombokVersions (snd best) (snd (consider_jar c best)) \<le> 0"
    using Cons.prems compare_antisym [of "snd best"] by (auto simp: c consider_step)
  from Cons.IH [OF step(1)] step(2) show ?case using compare_trans by auto
qed simp

text \<open>What may be chosen: a jar with a version.\<close>

definition jar_of :: "string \<times> string \<Rightarrow> (string \<times> int list) option" where
  "jar_of candidate =
     (if snd candidate = [] then None else map_option (Pair (snd candidate)) (parseLombokVersion (fst candidate)))"

lemma consider_jar_of:
  "consider_jar c best =
    (case jar_of c of None \<Rightarrow> best
     | Some (jar, v) \<Rightarrow> if fst best = [] \<or> compareLombokVersions v (snd best) > 0 then (jar, v) else best)"
  by (cases c) (auto simp: consider_jar_def jar_of_def split: option.split)

lemma jar_of_jar: "jar_of c = Some (jar, v) \<Longrightarrow> jar \<noteq> []"
  by (auto simp: jar_of_def split: if_splits)

lemma consider_newest:
  assumes "c \<in> set cs" "jar_of c = Some (jar, v)"
  shows "fst (fold consider_jar cs best) \<noteq> [] \<and> compareLombokVersions v (snd (fold consider_jar cs best)) \<le> 0"
  using assms(1)
proof (induction cs arbitrary: best)
  case (Cons d cs)
  show ?case
  proof (cases "d = c")
    case True
    have step: "fst (consider_jar c best) \<noteq> []" "compareLombokVersions v (snd (consider_jar c best)) \<le> 0"
      using assms(2) jar_of_jar [OF assms(2)] by (auto simp: consider_jar_of)
    from consider_best [OF step(1), of cs] step(2) show ?thesis using True compare_trans by auto
  next
    case False
    then show ?thesis using Cons by simp
  qed
qed simp

lemma consider_source:
  "fold consider_jar cs best = best \<or> (\<exists>c \<in> set cs. jar_of c = Some (fold consider_jar cs best))"
proof (induction cs arbitrary: best)
  case (Cons c cs)
  have "consider_jar c best = best \<or> jar_of c = Some (consider_jar c best)"
    by (auto simp: consider_jar_of split: option.split)
  then show ?case using Cons.IH [of "consider_jar c best"] by auto
qed simp

text \<open>
  The Lombok jar is the newest one: if one of the caches holds a jar whose directory is a version,
  a jar is found, its version is not older than that of any other, and it is one of the jars found;
  otherwise there is none. Versions are compared number by number, missing ones counting as zero.
\<close>

theorem findLombokJar_newest:
  assumes "jv_home env = Some home" "jars = List.map_filter jar_of (gradle_candidates env home @ maven_candidates env home)"
  shows "(jars = [] \<longrightarrow> findLombokJar env = []) \<and>
    (jars \<noteq> [] \<longrightarrow> (\<exists>v. (findLombokJar env, v) \<in> set jars \<and> (\<forall>(jar, v') \<in> set jars. compareLombokVersions v' v \<le> 0)))"
proof -
  let ?cs = "gradle_candidates env home @ maven_candidates env home"
  let ?best = "fold consider_jar ?cs ([], [])"
  have jars: "set jars = {r. \<exists>c \<in> set ?cs. jar_of c = Some r}"
    unfolding assms(2) by (auto simp: List.map_filter_def image_iff) (metis Un_iff option.sel set_append)+
  have found: "findLombokJar env = fst ?best" by (simp add: findLombokJar_def assms(1))
  have source: "?best = ([], []) \<or> ?best \<in> set jars"
    using consider_source [of ?cs "([], [])"] unfolding jars by (simp only: mem_Collect_eq)
  show ?thesis
  proof (cases "jars = []")
    case True
    then have "?best = ([], [])" using source by (metis list.set(1) empty_iff)
    then show ?thesis using True found by simp
  next
    case False
    then obtain r where r: "r \<in> set jars" by (meson list.set_sel(1))
    then obtain c where c: "c \<in> set ?cs" "jar_of c = Some r" using jars by blast
    obtain jar v where "r = (jar, v)" by (cases r)
    then have "fst ?best \<noteq> []" using consider_newest [OF c(1), of jar v "([], [])"] c(2) by simp
    then have "?best \<in> set jars" using source by (metis fst_conv)
    moreover have "\<forall>(jar, v') \<in> set jars. compareLombokVersions v' (snd ?best) \<le> 0"
      using consider_newest jars by blast
    ultimately show ?thesis using False found by (metis prod.collapse)
  qed
qed


definition demo_java_env :: java_env where
  "demo_java_env =
     \<lparr>jv_home = Some ''/h'',
      jv_glob = (\<lambda>p. if contains p ''1.18.9'' then Some [''/g/9.jar''] else if contains p ''1.18.30'' then Some [''/g/30.jar''] else Some []),
      jv_readDir = (\<lambda>d. if contains d ''.gradle'' then Some [(''1.18.9'', True), (''1.18.30'', True), (''edge'', True), (''1.20'', False)]
                        else Some [(''1.18.28'', True)]),
      jv_stat = (\<lambda>p. if contains p ''/.m2'' then InfoOf False 0 0 else InfoMissing), jv_read = (\<lambda>p. None),
      jv_evalSymlinks = (\<lambda>p. Some p), jv_cwd = ''/w'', jv_sha256 = (\<lambda>s. s)\<rparr>"

theorem findLombokJar_newest_witness: "findLombokJar demo_java_env = ''/g/30.jar''"
proof -
  have home: "jv_home demo_java_env = Some ''/h''" by (simp add: demo_java_env_def)
  have jars: "List.map_filter jar_of (gradle_candidates demo_java_env ''/h'' @ maven_candidates demo_java_env ''/h'') =
      [(''/g/9.jar'', [1, 18, 9]), (''/g/30.jar'', [1, 18, 30]),
       (''/h/.m2/repository/org/projectlombok/lombok/1.18.28/lombok-1.18.28.jar'', [1, 18, 28])]"
    by code_simp
  have older: "compareLombokVersions [1, 18, 30] [1, 18, 9] = 1" "compareLombokVersions [1, 18, 30] [1, 18, 28] = 1" by code_simp+
  from findLombokJar_newest [OF home refl] show ?thesis unfolding jars by (auto simp: older)
qed

section \<open>Environments\<close>

text \<open>The value of a variable: that of its last entry.\<close>

definition env_lookup :: "string list \<Rightarrow> string \<Rightarrow> string option" where
  "env_lookup env n =
     (let hits = filter (\<lambda>e. CHR ''='' \<in> set e \<and> env_name e = n) env
      in if hits = [] then None else Some (drop (length n + 1) (last hits)))"

lemma process_override_name:
  assumes "process_override e = Some (n, val)"
  shows "env_name val = n \<and> CHR ''='' \<in> set val"
proof -
  have n: "n = trim_space (env_name (trim_space e))" and val: "\<exists>v. val = n @ CHR ''='' # v"
    using assms by (auto simp: process_override_def Let_def split: if_splits)
  have "CHR ''='' \<notin> set (env_name (trim_space e))" by (auto simp: env_name_def dest: set_takeWhileD)
  then have "CHR ''='' \<notin> set n" using set_trim_space [of "env_name (trim_space e)"] n by blast
  then show ?thesis using val by (auto simp: env_name_def takeWhile_append)
qed

lemma normalizeProcessEnvOverrides_map_of:
  "normalizeProcessEnvOverrides env =
    (let entries = List.map_filter process_override env
     in map (\<lambda>n. the (map_of (rev entries) n)) (sort (remdups (map fst entries))))"
  by (simp add: normalizeProcessEnvOverrides_def fold_updates Let_def)

lemma filter_unique: "distinct ns \<Longrightarrow> filter (\<lambda>m. m = n) ns = (if n \<in> set ns then [n] else [])"
  by (induction ns) auto

text \<open>
  The environment of a language server. A variable that the overrides name, in whatever form the
  entries have, has the value of its last override; every other variable keeps the value of the base,
  and no entry without an equals sign is lost.
\<close>

theorem mergeProcessEnv_lookup:
  "env_lookup (mergeProcessEnv base overrides) n =
     (case map_of (rev (List.map_filter process_override overrides)) n of
        Some val \<Rightarrow> Some (drop (length n + 1) val) | None \<Rightarrow> env_lookup base n) \<and>
   filter (\<lambda>e. CHR ''='' \<notin> set e) (mergeProcessEnv base overrides) = filter (\<lambda>e. CHR ''='' \<notin> set e) base"
proof -
  let ?es = "List.map_filter process_override overrides"
  let ?v = "\<lambda>m. the (map_of (rev ?es) m)" and ?ns = "sort (remdups (map fst ?es))"
  let ?norm = "normalizeProcessEnvOverrides overrides"
  have norm: "?norm = map ?v ?ns" by (simp add: normalizeProcessEnvOverrides_map_of Let_def)
  have entry: "env_name (?v m) = m \<and> CHR ''='' \<in> set (?v m) \<and> map_of (rev ?es) m = Some (?v m)" if "m \<in> set ?ns" for m
  proof -
    have "m \<in> fst ` set (rev ?es)" using that by auto
    then obtain val where t: "map_of (rev ?es) m = Some val" by (metis map_of_eq_None_iff not_None_eq)
    then have "(m, val) \<in> set ?es" using map_of_SomeD by fastforce
    then obtain e where "process_override e = Some (m, val)" by (auto simp: List.map_filter_def)
    then show ?thesis using t process_override_name by simp
  qed
  have hits: "filter (\<lambda>e. CHR ''='' \<in> set e \<and> env_name e = n) ?norm = (if n \<in> set ?ns then [?v n] else [])"
  proof -
    have "filter (\<lambda>e. CHR ''='' \<in> set e \<and> env_name e = n) ?norm = map ?v (filter (\<lambda>m. m = n) ?ns)"
      unfolding norm filter_map comp_def using entry by (auto intro!: arg_cong [where f = "map ?v"] filter_cong)
    then show ?thesis by (simp add: filter_unique)
  qed
  have other: "map_of (rev ?es) n = None" if "n \<notin> set ?ns"
    using that by (auto simp: map_of_eq_None_iff)
  have names: "overridden ?norm e \<longleftrightarrow> CHR ''='' \<in> set e \<and> env_name e \<in> set ?ns" for e
  proof -
    have "set (map env_name (filter (\<lambda>e. CHR ''='' \<in> set e) ?norm)) = set ?ns"
      unfolding norm using entry by (auto simp: image_iff)
    then show ?thesis by (simp add: overridden_def)
  qed
  have merged: "mergeProcessEnv base overrides = filter (\<lambda>e. \<not> overridden ?norm e) base @ ?norm"
    by (auto simp: mergeProcessEnv_def Let_def overridden_def)
  have "env_lookup (mergeProcessEnv base overrides) n =
     (case map_of (rev ?es) n of Some val \<Rightarrow> Some (drop (length n + 1) val) | None \<Rightarrow> env_lookup base n)"
  proof (cases "n \<in> set ?ns")
    case True
    then obtain val where "map_of (rev ?es) n = Some val" using entry by blast
    then show ?thesis using True by (simp add: env_lookup_def merged hits Let_def)
  next
    case False
    then have "filter (\<lambda>e. CHR ''='' \<in> set e \<and> env_name e = n) (mergeProcessEnv base overrides) =
        filter (\<lambda>e. CHR ''='' \<in> set e \<and> env_name e = n) base"
      by (auto simp: merged hits names intro!: filter_cong)
    then show ?thesis using other [OF False] by (simp add: env_lookup_def Let_def)
  qed
  moreover have "filter (\<lambda>e. CHR ''='' \<notin> set e) ?norm = []" unfolding norm using entry by (auto simp: filter_empty_conv)
  ultimately show ?thesis by (auto simp: merged names intro!: filter_cong)
qed

text \<open>The daemon's own normalization differs when there is space before the equals sign.\<close>

lemma overrides_differ:
  "normalizeProcessEnvOverrides [''A =1''] = [''A=1'']" "normalizeEnvOverrides [''A =1''] = [''A=A =1'']"
  by code_simp+

lemma overrides_agree:
  assumes "trim_space (env_name (trim_space e)) = env_name (trim_space e)"
  shows "process_override e = env_override e"
proof -
  have "trim_prefix s (env_name s @ ''='') = drop (length (env_name s) + 1) s" if eq: "CHR ''='' \<in> set s" for s
  proof -
    obtain u v where "s = u @ CHR ''='' # v" "CHR ''='' \<notin> set u" using split_list_first [OF eq] by blast
    then have "env_name s = u" "s = (u @ ''='') @ v" by (auto simp: env_name_def takeWhile_append)
    then show ?thesis by (auto simp: trim_prefix_def has_prefix_iff)
  qed
  then show ?thesis using assms by (auto simp: process_override_def env_override_def Let_def)
qed


section \<open>Fingerprints\<close>

text \<open>The contents of a build file, if there is one.\<close>

definition build_file :: "java_env \<Rightarrow> string \<Rightarrow> string \<Rightarrow> string option" where
  "build_file env canonicalRoot p =
     (if jv_stat env (path_join [canonicalRoot, p]) = InfoMissing then None else jv_read env (path_join [canonicalRoot, p]))"

lemma hex_char_byte: "n < 16 \<Longrightarrow> byte_of (char_of (if n < 10 then 48 + n else 87 + n)) = (if n < 10 then 48 + n else 87 + n)"
  by (simp add: byte_of_def)

lemma byte_div_less: "byte_of c div 16 < 16"
  using byte_less [of c] by (simp add: less_mult_imp_div_less)

lemma hex_byte_bytes:
  "map byte_of (hex_byte c) =
    [(if byte_of c div 16 < 10 then 48 + byte_of c div 16 else 87 + byte_of c div 16),
     (if byte_of c mod 16 < 10 then 48 + byte_of c mod 16 else 87 + byte_of c mod 16)]"
  using hex_char_byte [OF byte_div_less, of c] hex_char_byte [of "byte_of c mod 16"] by (simp add: hex_byte_def)

lemma hex_byte_inj:
  assumes "hex_byte c = hex_byte d"
  shows "c = d"
proof -
  have "map byte_of (hex_byte c) = map byte_of (hex_byte d)" by (simp only: assms)
  then have "byte_of c div 16 = byte_of d div 16" "byte_of c mod 16 = byte_of d mod 16"
    unfolding hex_byte_bytes using byte_div_less [of c] byte_div_less [of d]
    by (simp_all split: if_splits)
  then have "byte_of c = byte_of d" by (metis div_mult_mod_eq)
  then show ?thesis by (metis char_of_byte)
qed

lemma hex_inj: "concat (map hex_byte s) = concat (map hex_byte t) \<Longrightarrow> s = t"
proof (induction s arbitrary: t)
  case Nil
  then show ?case by (cases t) (auto simp: hex_byte_def)
next
  case (Cons c s)
  then obtain d t' where t: "t = d # t'" by (cases t) (auto simp: hex_byte_def)
  have "hex_byte c @ concat (map hex_byte s) = hex_byte d @ concat (map hex_byte t')" using Cons.prems t by simp
  moreover have "length (hex_byte c) = length (hex_byte d)" by (simp add: hex_byte_def)
  ultimately show ?case using Cons.IH [of t'] hex_byte_inj t by auto
qed

lemma hex_no_nul: "CHR 0x00 \<notin> set (hex_byte c)"
proof
  assume "CHR 0x00 \<in> set (hex_byte c)"
  then have "byte_of (CHR 0x00) \<in> set (map byte_of (hex_byte c))" by simp
  then show False unfolding hex_byte_bytes by (simp add: byte_of_def split: if_splits)
qed

lemma digest_no_nul: "CHR 0x00 \<notin> set (hex_digest env s)"
  using hex_no_nul by (auto simp: hex_digest_def)

lemma cut_at_nul:
  "CHR 0x00 \<notin> set a \<Longrightarrow> CHR 0x00 \<notin> set b \<Longrightarrow> a @ CHR 0x00 # u = b @ CHR 0x00 # v \<Longrightarrow> a = b \<and> u = v"
proof (induction a arbitrary: b)
  case Nil
  then show ?case by (cases b) auto
next
  case (Cons c a)
  then show ?case by (cases b) auto
qed

lemma bool_str_nul: "CHR 0x00 \<notin> set (bool_str b)"
  by (simp add: bool_str_def)

lemma bool_str_inj: "bool_str a = bool_str b \<longleftrightarrow> a = b"
  by (simp add: bool_str_def)

lemma fingerprint_part_inj:
  assumes "writeJavaGradleFingerprintPart f @ u = writeJavaGradleFingerprintPart g @ v"
    and "gf_Path f = gf_Path g"
    and "CHR 0x00 \<notin> set (gf_ContentSHA256 f)" "CHR 0x00 \<notin> set (gf_ContentSHA256 g)"
  shows "gf_Exists f = gf_Exists g \<and> gf_ContentSHA256 f = gf_ContentSHA256 g \<and> u = v"
proof -
  have "bool_str (gf_Exists f) @ CHR 0x00 # gf_ContentSHA256 f @ CHR 0x00 # u =
      bool_str (gf_Exists g) @ CHR 0x00 # gf_ContentSHA256 g @ CHR 0x00 # v"
    using assms(1) unfolding writeJavaGradleFingerprintPart_def assms(2) by simp
  from cut_at_nul [OF bool_str_nul bool_str_nul this]
  have "gf_Exists f = gf_Exists g" and rest: "gf_ContentSHA256 f @ CHR 0x00 # u = gf_ContentSHA256 g @ CHR 0x00 # v"
    unfolding bool_str_inj by blast+
  then show ?thesis using cut_at_nul [OF assms(3,4) rest] by blast
qed

lemma fingerprint_part_same:
  "gf_Path f = gf_Path g \<Longrightarrow> gf_Exists f = gf_Exists g \<Longrightarrow> gf_ContentSHA256 f = gf_ContentSHA256 g \<Longrightarrow>
    writeJavaGradleFingerprintPart f = writeJavaGradleFingerprintPart g"
  by (simp add: writeJavaGradleFingerprintPart_def)

lemma detect_build_file:
  assumes "detectJavaGradleBuildFile env canonicalRoot p = Inr f"
  shows "gf_Path f = p \<and> gf_Exists f = (build_file env canonicalRoot p \<noteq> None) \<and>
    gf_ContentSHA256 f = (case build_file env canonicalRoot p of None \<Rightarrow> [] | Some c \<Rightarrow> hex_digest env c)"
  using assms
  by (auto simp: detectJavaGradleBuildFile_def build_file_def Let_def split: file_info.splits if_splits option.splits)

lemma fingerprint_files:
  assumes "\<And>p s t. build_file e r p = Some s \<Longrightarrow> build_file e' r' p = Some t \<Longrightarrow> hex_digest e s = hex_digest e' t \<longleftrightarrow> s = t"
  shows "detect_build_files e r ps = Inr fs \<Longrightarrow> detect_build_files e' r' ps = Inr gs \<Longrightarrow>
    concat (map writeJavaGradleFingerprintPart fs) = concat (map writeJavaGradleFingerprintPart gs) \<longleftrightarrow>
    (\<forall>p \<in> set ps. build_file e r p = build_file e' r' p)"
proof (induction ps arbitrary: fs gs)
  case Nil
  then show ?case by simp
next
  case (Cons p ps)
  obtain f fs' where f: "detectJavaGradleBuildFile e r p = Inr f" "detect_build_files e r ps = Inr fs'" "fs = f # fs'"
    using Cons.prems(1) by (auto split: sum.splits)
  obtain g gs' where g: "detectJavaGradleBuildFile e' r' p = Inr g" "detect_build_files e' r' ps = Inr gs'" "gs = g # gs'"
    using Cons.prems(2) by (auto split: sum.splits)
  note ff = detect_build_file [OF f(1)] and gg = detect_build_file [OF g(1)]
  have nul: "CHR 0x00 \<notin> set (gf_ContentSHA256 f)" "CHR 0x00 \<notin> set (gf_ContentSHA256 g)"
    using ff gg digest_no_nul by (auto split: option.splits)
  have same: "gf_Exists f = gf_Exists g \<and> gf_ContentSHA256 f = gf_ContentSHA256 g \<longleftrightarrow> build_file e r p = build_file e' r' p"
    using ff gg assms by (auto split: option.splits)
  have "concat (map writeJavaGradleFingerprintPart fs) = concat (map writeJavaGradleFingerprintPart gs) \<longleftrightarrow>
      gf_Exists f = gf_Exists g \<and> gf_ContentSHA256 f = gf_ContentSHA256 g \<and>
      concat (map writeJavaGradleFingerprintPart fs') = concat (map writeJavaGradleFingerprintPart gs')"
    (is "?l \<longleftrightarrow> ?r")
  proof
    assume ?l
    then have "writeJavaGradleFingerprintPart f @ concat (map writeJavaGradleFingerprintPart fs') =
        writeJavaGradleFingerprintPart g @ concat (map writeJavaGradleFingerprintPart gs')" using f(3) g(3) by simp
    from fingerprint_part_inj [OF this _ nul] ff gg show ?r by simp
  next
    assume ?r
    then show ?l using fingerprint_part_same [of f g] ff gg f(3) g(3) by simp
  qed
  then show ?case using Cons.IH [OF f(2) g(2)] same unfolding list.set ball_simps by blast
qed


text \<open>
  What the fingerprint of a Gradle build says. Two baselines have the same fingerprint exactly when
  each of the four tracked files is missing in both or has the same contents in both, unless SHA-256
  gives two of the texts involved the same sum. Times and sizes do not matter.
\<close>

theorem baseline_fingerprint:
  assumes "detectJavaGradleBuildBaseline e workspaceRoot = Inr b" "detectJavaGradleBuildBaseline e' workspaceRoot' = Inr b'"
    and "r = resolveProjectPath (jv_cwd e) (jv_evalSymlinks e) workspaceRoot"
    and "r' = resolveProjectPath (jv_cwd e') (jv_evalSymlinks e') workspaceRoot'"
    and "jv_sha256 e' = jv_sha256 e"
    and "inj_on (jv_sha256 e)
      ({s. \<exists>p. build_file e r p = Some s \<or> build_file e' r' p = Some s} \<union>
       {concat (map writeJavaGradleFingerprintPart (gb_Files b)), concat (map writeJavaGradleFingerprintPart (gb_Files b'))})"
  shows "gb_Fingerprint b = gb_Fingerprint b' \<longleftrightarrow>
    (\<forall>p \<in> set javaGradleTrackedBuildFiles. build_file e r p = build_file e' r' p)"
proof -
  obtain fs where fs: "detect_build_files e r javaGradleTrackedBuildFiles = Inr fs"
      "b = \<lparr>gb_Fingerprint = hex_digest e (concat (map writeJavaGradleFingerprintPart fs)), gb_Files = fs\<rparr>"
    using assms(1,3) by (auto simp: detectJavaGradleBuildBaseline_def split: sum.splits)
  obtain gs where gs: "detect_build_files e' r' javaGradleTrackedBuildFiles = Inr gs"
      "b' = \<lparr>gb_Fingerprint = hex_digest e' (concat (map writeJavaGradleFingerprintPart gs)), gb_Files = gs\<rparr>"
    using assms(2,4) by (auto simp: detectJavaGradleBuildBaseline_def split: sum.splits)
  have digest: "hex_digest e s = hex_digest e' t \<longleftrightarrow> jv_sha256 e s = jv_sha256 e t" for s t
    using hex_inj by (auto simp: hex_digest_def assms(5))
  have contents: "hex_digest e s = hex_digest e' t \<longleftrightarrow> s = t"
    if "build_file e r p = Some s" "build_file e' r' p = Some t" for p s t
    unfolding digest using inj_onD [OF assms(6)] that by blast
  have "gb_Fingerprint b = gb_Fingerprint b' \<longleftrightarrow>
      concat (map writeJavaGradleFingerprintPart fs) = concat (map writeJavaGradleFingerprintPart gs)"
    using inj_onD [OF assms(6), of "concat (map writeJavaGradleFingerprintPart fs)" "concat (map writeJavaGradleFingerprintPart gs)"]
    by (auto simp: fs(2) gs(2) digest)
  then show ?thesis using fingerprint_files [of e r e' r', OF _ fs(1) gs(1)] contents by blast
qed

text \<open>The same project before and after a change of a build file; the sum of a text is the text itself.\<close>

definition gradle_env :: "string \<Rightarrow> int \<Rightarrow> java_env" where
  "gradle_env contents modTime =
     demo_java_env\<lparr>jv_stat := (\<lambda>p. if p = ''/w/build.gradle'' then InfoOf False modTime 3 else InfoMissing),
                   jv_read := (\<lambda>p. Some contents)\<rparr>"

theorem baseline_fingerprint_witness:
  "\<exists>b1 b2 b3. detectJavaGradleBuildBaseline (gradle_env ''old'' 1) ''.'' = Inr b1 \<and>
    detectJavaGradleBuildBaseline (gradle_env ''new'' 1) ''.'' = Inr b2 \<and>
    detectJavaGradleBuildBaseline (gradle_env ''old'' 2) ''.'' = Inr b3 \<and>
    gb_Fingerprint b1 \<noteq> gb_Fingerprint b2 \<and> gb_Fingerprint b1 = gb_Fingerprint b3"
proof -
  have found: "\<exists>b. detectJavaGradleBuildBaseline (gradle_env c m) ''.'' = Inr b" for c m
    by (simp add: detectJavaGradleBuildBaseline_def javaGradleTrackedBuildFiles_def detectJavaGradleBuildFile_def gradle_env_def Let_def)
  obtain b1 b2 b3 where b: "detectJavaGradleBuildBaseline (gradle_env ''old'' 1) ''.'' = Inr b1"
      "detectJavaGradleBuildBaseline (gradle_env ''new'' 1) ''.'' = Inr b2"
      "detectJavaGradleBuildBaseline (gradle_env ''old'' 2) ''.'' = Inr b3" using found by meson
  have cwd: "resolveProjectPath (jv_cwd (gradle_env c m)) (jv_evalSymlinks (gradle_env c m)) ''.'' = ''/w''" for c m
  proof -
    have "path_abs ''/w'' ''.'' = ''/w''" by code_simp
    then show ?thesis by (simp add: resolveProjectPath_def gradle_env_def demo_java_env_def)
  qed
  have sha: "jv_sha256 (gradle_env c m) = (\<lambda>s. s)" for c m by (simp add: gradle_env_def demo_java_env_def)
  have held: "build_file (gradle_env c m) ''/w'' ''build.gradle'' = Some c" for c m
  proof -
    have "path_join [''/w'', ''build.gradle''] = ''/w/build.gradle''" by code_simp
    then show ?thesis by (simp add: build_file_def gradle_env_def)
  qed
  have same: "build_file (gradle_env c m) ''/w'' p = build_file (gradle_env c m') ''/w'' p" for c m m' p
    by (simp add: build_file_def gradle_env_def)
  note fp = baseline_fingerprint [OF _ _ cwd [symmetric] cwd [symmetric], simplified sha, simplified]
  have "gb_Fingerprint b1 \<noteq> gb_Fingerprint b2"
    using fp [OF b(1,2)] held [of "''old''" 1] held [of "''new''" 1] by (auto simp: javaGradleTrackedBuildFiles_def)
  moreover have "gb_Fingerprint b1 = gb_Fingerprint b3"
    using fp [OF b(1,3)] same [of "''old''" 1 _ 2] by blast
  ultimately show ?thesis using b by blast
qed

text \<open>
  Asking whether the import may be suppressed records the current build files at once. When the connection
  for which it was asked fails, the next one suppresses an import that never took place.
\<close>

lemma suppressed_after_failure:
  assumes "detectJavaGradleBuildBaseline env workspaceRoot = Inr current"
    and "javaGradleBaselinePaths lenv workspaceRoot = Inr (statePath, baselinePath)" "statePath \<noteq> baselinePath"
    and "gb_Fingerprint (normalizeJavaGradleBuildBaseline current) = gb_Fingerprint current" "gb_Fingerprint current \<noteq> []"
    and "shouldSuppressJDTLSGradleImport env lenv True True workspaceRoot files = (Inr False, files')"
  shows "\<exists>files''. shouldSuppressJDTLSGradleImport env lenv True True workspaceRoot files' = (Inr True, files'')"
proof -
  let ?n = "normalizeJavaGradleBuildBaseline current"
  have w: "WriteJavaGradleBuildBaseline True True statePath baselinePath current files = (None, files')"
    using assms(1,2,6) by (auto simp: shouldSuppressJDTLSGradleImport_def Let_def split: prod.splits if_splits option.splits)
  have read: "ReadJavaGradleBuildBaseline files' statePath baselinePath = Inr ?n"
    using w assms(3-5)
    by (auto simp: WriteJavaGradleBuildBaseline_def ReadJavaGradleBuildBaseline_def writeStateFile_def readStateFile_def
        decode_state_def decode_baseline_def normalize_state_def Let_def split: option.splits sum.splits state_read_error.splits
        state_file.splits if_splits)
  have "\<exists>files''. WriteJavaGradleBuildBaseline True True statePath baselinePath current files' = (None, files'')"
    using w assms(3-5)
    by (auto simp: WriteJavaGradleBuildBaseline_def writeStateFile_def readStateFile_def
        decode_state_def Let_def split: option.splits sum.splits state_read_error.splits state_file.splits if_splits)
  then show ?thesis using assms(1,2,4,5) read by (auto simp: shouldSuppressJDTLSGradleImport_def)
qed

text \<open>Without an option for Gradle the option on the symbols is not sent either.\<close>

lemma symbols_option_lost: "buildJDTLSInitOptions '' '' False = None" by code_simp

end
