(* ===== verification/CsPaths.thy ===== *)
theory CsPaths
  imports CsJava
begin

text \<open>
  What the commands of \<open>cmd/cs\<close> share: the target directory and the project root (\<open>path_resolution.go\<close>),
  the configuration that is loaded before a command runs and the dispatch to \<open>query\<close> (\<open>main.go\<close>), the
  registry with the configured arguments (\<open>lsp_runtime.go\<close>), and the language of a workspace or a target
  (\<open>detectRefsLanguage\<close>, \<open>detectCheckLanguage\<close>).
\<close>

section \<open>The command line\<close>

datatype cs_command =
    QueryCmd | SearchCmd | RefsCmd | CallersCmd | ImplementsCmd | ListCmd | CheckCmd | IndexCmd | StatusCmd
  | ClearCmd | ConfigCmd | LspWarmupCmd | LspStatusCmd | LspRestartCmd | LspCleanupCmd | LspCmd | ExtractCmd
  | InitCmd | RootCmd

text \<open>The names of the subcommands, in the order in which they are added; Cobra adds two of its own.\<close>

definition subcommand_names :: "string list" where
  "subcommand_names =
     [''query'', ''check'', ''index'', ''search'', ''extract'', ''list'', ''refs'', ''callers'', ''implements'', ''lsp'',
      ''status'', ''clear'', ''config'', ''init'']"

definition isSubcommand :: "string \<Rightarrow> bool" where
  "isSubcommand name \<longleftrightarrow> name \<in> {''help'', ''completion''} \<or> name \<in> set subcommand_names"

text \<open>The arguments after the program's name, as \<open>main\<close> passes them on.\<close>

definition main_args :: "string list \<Rightarrow> string list" where
  "main_args args =
     (case args of
        [] \<Rightarrow> []
      | first # rest \<Rightarrow>
          if first \<noteq> [] \<and> \<not> has_prefix first ''-'' \<and> \<not> isSubcommand first then ''query'' # args else args)"

text \<open>An invocation: the command, its arguments, and the flags \<open>path\<close> and \<open>file\<close> where they exist.\<close>

record invocation =
  iv_cmd :: "cs_command option"
  iv_args :: "string list"
  iv_path :: "string option"
  iv_file :: "string option"

datatype path_error = NoSuchFlag string | TargetStat string | ConfigFailed load_error | SearchUnfinished

definition flag_value :: "string \<Rightarrow> string option \<Rightarrow> path_error + string" where
  "flag_value name v = (case v of None \<Rightarrow> Inl (NoSuchFlag name) | Some s \<Rightarrow> Inr s)"

definition first_arg :: "string list \<Rightarrow> string" where
  "first_arg args = (case args of [] \<Rightarrow> [] | a # rest \<Rightarrow> a)"

definition commandTargetPath :: "invocation \<Rightarrow> path_error + string" where
  "commandTargetPath iv =
     (case iv_cmd iv of
        None \<Rightarrow> Inr []
      | Some c \<Rightarrow>
          if c \<in> {QueryCmd, SearchCmd, RefsCmd, CallersCmd, ImplementsCmd} then flag_value ''path'' (iv_path iv)
          else if c = ListCmd then flag_value ''file'' (iv_file iv)
          else if c \<in> {CheckCmd, IndexCmd, StatusCmd, ClearCmd, ConfigCmd} then Inr (first_arg (iv_args iv))
          else if c \<in> {LspWarmupCmd, LspStatusCmd, LspRestartCmd} then Inr (first_arg (iv_args iv))
          else (case iv_path iv of Some p \<Rightarrow> if p \<noteq> [] then Inr p else Inr [] | None \<Rightarrow> Inr []))"

section \<open>Directories\<close>

definition resolve_project_path :: "config_env \<Rightarrow> string \<Rightarrow> string" where
  "resolve_project_path env path = resolveProjectPath (ce_cwd env) (ce_evalSymlinks env) path"

definition resolveCommandTargetDir :: "config_env \<Rightarrow> string \<Rightarrow> path_error + string" where
  "resolveCommandTargetDir env path =
     (let target = (if trim_space path = [] then ce_cwd env else trim_space path);
          absPath = resolve_project_path env target
      in case ce_stat env absPath of
           StatMissing \<Rightarrow> Inl (TargetStat absPath)
         | StatFailed \<Rightarrow> Inl (TargetStat absPath)
         | StatDir \<Rightarrow> Inr (path_clean absPath)
         | StatFile \<Rightarrow> Inr (path_clean (path_dir absPath)))"

text \<open>The two variables of the process.\<close>

record runtime_state =
  rs_targetDir :: string
  rs_config :: "Config option"

definition currentConfig :: "runtime_state \<Rightarrow> Config" where
  "currentConfig rs = (case rs_config rs of None \<Rightarrow> Defaults | Some c \<Rightarrow> c)"

definition currentTargetDir :: "config_env \<Rightarrow> runtime_state \<Rightarrow> string" where
  "currentTargetDir env rs =
     (if trim_space (rs_targetDir rs) \<noteq> [] then rs_targetDir rs
      else case resolveCommandTargetDir env [] of Inl err \<Rightarrow> ''.'' | Inr d \<Rightarrow> d)"

definition resolvedProjectRootForTarget :: "config_env \<Rightarrow> runtime_state \<Rightarrow> string \<Rightarrow> string" where
  "resolvedProjectRootForTarget env rs targetDir =
     (let resolvedTarget = (if trim_space targetDir = [] then currentTargetDir env rs else trim_space targetDir);
          cfg = currentConfig rs
      in if cf_ConfigDir cfg = [] then resolvedTarget
         else case ResolvedProjectRoot env cfg (cf_ConfigDir cfg) of Inl err \<Rightarrow> resolvedTarget | Inr r \<Rightarrow> r)"

definition runtimeConfigForTarget :: "config_env \<Rightarrow> string \<Rightarrow> path_error + Config" where
  "runtimeConfigForTarget env targetDir =
     (case fst (LoadConfig env targetDir) of
        None \<Rightarrow> Inl SearchUnfinished | Some (Inl err) \<Rightarrow> Inl (ConfigFailed err) | Some (Inr c) \<Rightarrow> Inr c)"

definition configProjectPath :: "config_env \<Rightarrow> invocation \<Rightarrow> path_error + string" where
  "configProjectPath env iv =
     (case commandTargetPath iv of Inl err \<Rightarrow> Inl err | Inr path \<Rightarrow> resolveCommandTargetDir env path)"

definition loadRuntimeConfig :: "config_env \<Rightarrow> invocation \<Rightarrow> runtime_state \<Rightarrow> path_error option \<times> runtime_state" where
  "loadRuntimeConfig env iv rs =
     (let rs1 = rs\<lparr>rs_targetDir := []\<rparr>
      in case configProjectPath env iv of
           Inl err \<Rightarrow> (Some err, rs1)
         | Inr projectPath \<Rightarrow>
             (case runtimeConfigForTarget env projectPath of
                Inl err \<Rightarrow> (Some err, rs1)
              | Inr cfg \<Rightarrow> (None, \<lparr>rs_targetDir = projectPath, rs_config = Some cfg\<rparr>)))"

text \<open>What runs before every command: only \<open>init\<close> does without a configuration.\<close>

definition shouldSkipRuntimeConfigLoad :: "cs_command option \<Rightarrow> bool" where
  "shouldSkipRuntimeConfigLoad c \<longleftrightarrow> c = Some InitCmd"

definition persistent_pre_run :: "config_env \<Rightarrow> invocation \<Rightarrow> runtime_state \<Rightarrow> path_error option \<times> runtime_state" where
  "persistent_pre_run env iv rs =
     (if shouldSkipRuntimeConfigLoad (iv_cmd iv) then (None, \<lparr>rs_targetDir = [], rs_config = Some Defaults\<rparr>)
      else loadRuntimeConfig env iv rs)"

definition resolveRefsWorkspaceRoot :: "config_env \<Rightarrow> string \<Rightarrow> path_error + string" where
  "resolveRefsWorkspaceRoot env pathFlag = resolveCommandTargetDir env pathFlag"

section \<open>The registry\<close>

definition newLSPRegistry :: "java_env \<Rightarrow> Config \<Rightarrow> string \<Rightarrow> registry_entries" where
  "newLSPRegistry jenv cfg workspaceRoot =
     (let javaArgs = java_Args (lsp_Java (cf_LSP cfg)) @ javaLombokAgentArgs jenv workspaceRoot (Some cfg)
      in NewRegistry [WithExtraServerArgs ''java'' javaArgs])"

section \<open>The language of a workspace\<close>

datatype detect_error = NoSupportedLanguage | DetectWalkFailed | DetectStat string | UnsupportedTarget string

definition supported :: "registry_entries \<Rightarrow> string \<Rightarrow> bool" where
  "supported servers language =
     (case registry_Lookup default_languages (Some servers) language of Inl err \<Rightarrow> False | Inr spec \<Rightarrow> True)"

text \<open>
  The files of supported languages below a directory. The callback looks at the extension of the entry's
  name, which is that of the path.
\<close>

definition counts_language :: "registry_entries \<Rightarrow> (string \<Rightarrow> string) \<Rightarrow> string \<Rightarrow> bool" where
  "counts_language servers language_of ext = (language_of ext \<noteq> [] \<and> supported servers (language_of ext))"

definition language_count :: "(string \<Rightarrow> string) \<Rightarrow> string list \<Rightarrow> string \<Rightarrow> int" where
  "language_count language_of paths l = int (length (filter (\<lambda>p. language_of (path_ext p) = l) paths))"

text \<open>The loop over the counts, in the order in which the map is visited.\<close>

fun best_language :: "(string \<Rightarrow> int) \<Rightarrow> string list \<Rightarrow> string \<times> int \<Rightarrow> string \<times> int" where
  "best_language n_of [] best = best"
| "best_language n_of (l # ls) best =
     best_language n_of ls
       (if n_of l > snd best \<or> (n_of l = snd best \<and> (fst best = [] \<or> l < fst best)) then (l, n_of l) else best)"

definition most_frequent :: "(string list \<Rightarrow> string list) \<Rightarrow> (string \<Rightarrow> string) \<Rightarrow> string list \<Rightarrow> string" where
  "most_frequent visit language_of paths =
     fst (best_language (language_count language_of paths) (visit (remdups (map (\<lambda>p. language_of (path_ext p)) paths))) ([], - 1))"

text \<open>\<open>visit\<close> is the order in which Go visits the map of the counts.\<close>

definition detectRefsLanguage ::
  "lsp_env \<Rightarrow> (string list \<Rightarrow> string list) \<Rightarrow> registry_entries \<Rightarrow> string \<Rightarrow> detect_error + string" where
  "detectRefsLanguage env visit servers workspaceRoot =
     (case collect_node (le_cwd env) (newWorkspaceIgnoreMatcher env workspaceRoot)
             (counts_language servers LanguageFromExtension) workspaceRoot workspaceRoot (le_tree env workspaceRoot) of
        None \<Rightarrow> Inl DetectWalkFailed
      | Some paths \<Rightarrow>
          if paths = [] then Inl NoSupportedLanguage else Inr (most_frequent visit LanguageFromExtension paths))"

definition normalizeCheckLanguage :: "string \<Rightarrow> string" where
  "normalizeCheckLanguage language = to_lower (trim_space language)"

definition unsupportedCheckLanguageError :: "string \<Rightarrow> detect_error" where
  "unsupportedCheckLanguageError targetPath = UnsupportedTarget (path_clean (trim_space targetPath))"

definition check_language_of :: "string \<Rightarrow> string" where
  "check_language_of ext = normalizeCheckLanguage (LanguageFromExtension ext)"

definition detectCheckLanguage ::
  "lsp_env \<Rightarrow> config_env \<Rightarrow> (string \<Rightarrow> target_kind) \<Rightarrow> (string list \<Rightarrow> string list) \<Rightarrow> registry_entries \<Rightarrow> string \<Rightarrow> string \<Rightarrow>
   detect_error + string" where
  "detectCheckLanguage env cenv stat visit servers workspaceRoot targetPath =
     (let resolvedTarget = resolve_project_path cenv targetPath
      in case stat resolvedTarget of
           TargetMissing err \<Rightarrow> Inl (DetectStat err)
         | TargetFile regular \<Rightarrow>
             (let language = check_language_of (path_ext resolvedTarget)
              in if language = [] \<or> \<not> supported servers language then Inl (unsupportedCheckLanguageError resolvedTarget)
                 else Inr language)
         | TargetDir \<Rightarrow>
             (case collect_node (le_cwd env) (newWorkspaceIgnoreMatcher env workspaceRoot)
                     (counts_language servers check_language_of) resolvedTarget resolvedTarget (le_tree env resolvedTarget) of
                None \<Rightarrow> Inl DetectWalkFailed
              | Some paths \<Rightarrow>
                  if paths = [] then Inl (unsupportedCheckLanguageError resolvedTarget)
                  else Inr (most_frequent visit check_language_of paths)))"


section \<open>Properties\<close>

text \<open>More files, or as many and an earlier name.\<close>

definition no_better :: "(string \<Rightarrow> int) \<Rightarrow> string \<Rightarrow> string \<Rightarrow> bool" where
  "no_better n_of best l \<longleftrightarrow> n_of l < n_of best \<or> (n_of l = n_of best \<and> best \<le> l)"

lemma no_better_refl [simp]: "no_better n_of l l"
  by (simp add: no_better_def)

lemma no_better_trans: "no_better n_of a b \<Longrightarrow> no_better n_of b c \<Longrightarrow> no_better n_of a c"
  by (auto simp: no_better_def)

lemma best_language_step:
  "b \<noteq> [] \<Longrightarrow> [] \<notin> set ls \<Longrightarrow>
    \<exists>r. best_language n_of ls (b, n_of b) = (r, n_of r) \<and> r \<in> insert b (set ls) \<and> (\<forall>l \<in> insert b (set ls). no_better n_of r l)"
proof (induction ls arbitrary: b)
  case Nil
  then show ?case by simp
next
  case (Cons l ls)
  let ?c = "if n_of l > n_of b \<or> (n_of l = n_of b \<and> l < b) then l else b"
  have c: "?c \<noteq> []" "no_better n_of ?c l" "no_better n_of ?c b" "?c \<in> {l, b}"
    using Cons.prems by (auto simp: no_better_def)
  obtain r where r: "best_language n_of ls (?c, n_of ?c) = (r, n_of r)" "r \<in> insert ?c (set ls)"
      "\<forall>l \<in> insert ?c (set ls). no_better n_of r l"
    using Cons.IH [OF c(1)] Cons.prems by auto
  have "best_language n_of (l # ls) (b, n_of b) = best_language n_of ls (?c, n_of ?c)"
    using Cons.prems by auto
  moreover have "no_better n_of r l" "no_better n_of r b"
    using r(3) c(2,3) no_better_trans by blast+
  ultimately show ?case using r c(4) by auto
qed

lemma best_language_found:
  assumes "ls \<noteq> []" "[] \<notin> set ls" "\<forall>l \<in> set ls. 0 \<le> n_of l"
  shows "fst (best_language n_of ls ([], - 1)) \<in> set ls \<and>
    (\<forall>l \<in> set ls. no_better n_of (fst (best_language n_of ls ([], - 1))) l)"
proof -
  obtain l ls' where ls: "ls = l # ls'" using assms(1) by (cases ls) auto
  have "0 \<le> n_of l" using assms(3) ls by simp
  then have "best_language n_of ls ([], - 1) = best_language n_of ls' (l, n_of l)" by (simp add: ls)
  then show ?thesis using best_language_step [of l ls' n_of] assms(2) ls by auto
qed

lemma most_frequent_found:
  assumes "paths \<noteq> []" "\<forall>p \<in> set paths. language_of (path_ext p) \<noteq> []" "\<And>ls. set (visit ls) = set ls"
  shows "most_frequent visit language_of paths \<in> (\<lambda>p. language_of (path_ext p)) ` set paths \<and>
    (\<forall>l \<in> (\<lambda>p. language_of (path_ext p)) ` set paths.
      no_better (language_count language_of paths) (most_frequent visit language_of paths) l)"
proof -
  let ?ls = "visit (remdups (map (\<lambda>p. language_of (path_ext p)) paths))"
  have set: "set ?ls = (\<lambda>p. language_of (path_ext p)) ` set paths" by (simp add: assms(3))
  have "set ?ls \<noteq> {}" unfolding set using assms(1) by simp
  then have "?ls \<noteq> []" by (metis list.set(1))
  moreover have "[] \<notin> set ?ls" unfolding set using assms(2) by force
  moreover have "\<forall>l \<in> set ?ls. 0 \<le> language_count language_of paths l" by (simp add: language_count_def)
  ultimately show ?thesis unfolding most_frequent_def using best_language_found set by metis
qed

text \<open>
  The language of a workspace. It is that of most of the regular files which no ignore rule excludes,
  among the languages a server is registered for, and of several with equally many the first by name;
  so it does not depend on the order in which the counts are visited. Without such a file there is none.
\<close>

theorem detectRefsLanguage_most:
  assumes "names_ok rs" "fs_names_ok (le_tree env (abs_path rs))" "fs_readable (le_tree env (abs_path rs))"
    and "\<And>ls. set (visit ls) = set ls"
    and "files = filter (\<lambda>f. \<not> on_the_way (walk_ignored (newWorkspaceIgnoreMatcher env (abs_path rs))) 0 (fst f) \<and>
        fs_regular (snd f) \<and> supported servers (LanguageFromExtension (path_ext (abs_path (rs @ fst f)))) \<and>
        LanguageFromExtension (path_ext (abs_path (rs @ fst f))) \<noteq> []) (all_files [] (le_tree env (abs_path rs)))"
    and "langs = map (\<lambda>f. LanguageFromExtension (path_ext (abs_path (rs @ fst f)))) files"
  shows "(langs = [] \<longrightarrow> detectRefsLanguage env visit servers (abs_path rs) = Inl NoSupportedLanguage) \<and>
    (langs \<noteq> [] \<longrightarrow> (\<exists>best \<in> set langs. detectRefsLanguage env visit servers (abs_path rs) = Inr best \<and>
      (\<forall>l \<in> set langs. count_list langs l < count_list langs best \<or>
        (count_list langs l = count_list langs best \<and> best \<le> l))))"
proof -
  let ?m = "newWorkspaceIgnoreMatcher env (abs_path rs)" and ?t = "le_tree env (abs_path rs)"
  let ?paths = "map (\<lambda>f. abs_path (rs @ fst f)) files"
  have "filter (\<lambda>f. \<not> on_the_way (walk_ignored ?m) 0 (fst f) \<and>
      collect_keep (counts_language servers LanguageFromExtension) rs f) (all_files [] ?t) = files"
    unfolding assms(5) by (rule filter_cong) (auto simp: collect_keep_def counts_language_def)
  then have walk: "collect_node (le_cwd env) ?m (counts_language servers LanguageFromExtension) (abs_path rs) (abs_path rs) ?t =
      Some ?paths"
    using collect_node_pruned [OF assms(1) workspace_matcher_root [OF assms(1)] _ assms(2,3), of "[]"]
    by (simp add: pruned_filter comp_def)
  have langs: "langs = map (\<lambda>p. LanguageFromExtension (path_ext p)) ?paths" by (simp add: assms(6) comp_def)
  have counted: "language_count LanguageFromExtension ?paths l = int (count_list langs l)" for l
    unfolding langs language_count_def by (induction files) auto
  have named: "\<forall>p \<in> set ?paths. LanguageFromExtension (path_ext p) \<noteq> []" by (auto simp: assms(5))
  show ?thesis
  proof (cases "langs = []")
    case True
    then show ?thesis using walk by (simp add: detectRefsLanguage_def assms(6))
  next
    case False
    then have "?paths \<noteq> []" by (simp add: assms(6))
    from most_frequent_found [of ?paths LanguageFromExtension visit, OF this named assms(4)] show ?thesis
      using walk False \<open>?paths \<noteq> []\<close>
      by (auto simp: detectRefsLanguage_def langs no_better_def counted [unfolded langs])
  qed
qed

theorem detectRefsLanguage_most_witness:
  "detectRefsLanguage demo_check_env rev (NewRegistry []) ''/w'' = Inr ''go''"
proof -
  let ?m = "newWorkspaceIgnoreMatcher demo_check_env ''/w''" and ?S = "NewRegistry []"
  have root: "abs_path [''w''] = ''/w''" by (simp add: abs_path_def rel_path_def)
  have ok: "names_ok [''w'']" "fs_names_ok (le_tree demo_check_env (abs_path [''w'']))" "fs_readable (le_tree demo_check_env (abs_path [''w'']))"
    by (simp_all add: names_ok_def is_name_def demo_check_env_def)
  have files: "filter (\<lambda>f. \<not> list_ex (\<lambda>j. walk_ignored ?m (take j (fst f))) [0..<Suc (length (fst f))] \<and>
      fs_regular (snd f) \<and> supported ?S (LanguageFromExtension (path_ext (abs_path ([''w''] @ fst f)))) \<and>
      LanguageFromExtension (path_ext (abs_path ([''w''] @ fst f))) \<noteq> []) (all_files [] (le_tree demo_check_env ''/w'')) =
    [([''b.go''], FsFile 1 True), ([''a.go''], FsFile 1 True), ([''c.py''], FsFile 1 True)]"
    by code_simp
  have langs: "LanguageFromExtension (path_ext (abs_path [''w'', ''b.go''])) = ''go''"
    "LanguageFromExtension (path_ext (abs_path [''w'', ''a.go''])) = ''go''"
    "LanguageFromExtension (path_ext (abs_path [''w'', ''c.py''])) = ''python''" by code_simp+
  have "set (rev ls) = set ls" for ls :: "string list" by simp
  from detectRefsLanguage_most [OF ok this refl refl, of ?S]
  show ?thesis unfolding root on_the_way_code files [unfolded root] by (auto simp: langs)
qed

lemma check_language_same: "check_language_of ext = LanguageFromExtension ext"
proof -
  have fixed: "check_language_of ext = LanguageFromExtension ext" if "normalizeCheckLanguage (LanguageFromExtension ext) = LanguageFromExtension ext"
    using that by (simp add: check_language_of_def)
  have "normalizeCheckLanguage [] = []" by code_simp
  moreover have "\<forall>l \<in> {''go'', ''typescript'', ''tsx'', ''javascript'', ''jsx'', ''python'', ''java'', ''rust'', ''c'', ''cpp'',
      ''ruby'', ''php'', ''csharp'', ''swift'', ''kotlin'', ''scala'', ''shell'', ''yaml'', ''json'', ''markdown'', ''sql''}.
      normalizeCheckLanguage l = l" by code_simp
  ultimately show ?thesis
    by (intro fixed) (auto simp: LanguageFromExtension_def dest!: map_of_SomeD split: option.split)
qed

text \<open>The two detections agree on a directory.\<close>

lemma detect_agree:
  assumes "stat (resolve_project_path cenv workspaceRoot) = TargetDir" "resolve_project_path cenv workspaceRoot = workspaceRoot"
    and "detectRefsLanguage env visit servers workspaceRoot = Inr l"
  shows "detectCheckLanguage env cenv stat visit servers workspaceRoot workspaceRoot = Inr l"
proof -
  have "check_language_of = LanguageFromExtension" using check_language_same by (rule ext)
  then show ?thesis using assms by (auto simp: detectCheckLanguage_def detectRefsLanguage_def split: option.splits if_splits)
qed

text \<open>
  A workspace root that is a symbolic link, as a configured project root may be, is walked as a single
  irregular file: no language is found.
\<close>

lemma linked_root:
  assumes "le_tree env workspaceRoot = FsFile n False"
  shows "detectRefsLanguage env visit servers workspaceRoot = Inl NoSupportedLanguage"
  using assms by (simp add: detectRefsLanguage_def)

end
