(* ===== verification/CsCommands.thy ===== *)
theory CsCommands
  imports CsPaths
begin

text \<open>
  The commands that use a language server: \<open>lsp_runtime.go\<close>, \<open>check_command.go\<close>, \<open>lsp_command.go\<close> and the
  handlers \<open>runRefs\<close>, \<open>runCallers\<close>, \<open>runImplements\<close> of \<open>main.go\<close>. The connector to the daemon (theory
  \<open>LspConnect\<close>) and the start of a server without daemon are functions of the runtime over the state \<open>'w\<close>
  of servers and connections; so is what closing a connection does to it.
\<close>

section \<open>Connections\<close>

record 'w connection =
  cn_client :: "'w lsp_client"
  cn_check :: "'w checkClient"

record lspClientConnectionMetadata =
  md_UsedDaemon :: bool
  md_DaemonLeaseReused :: bool
  md_ConnectDuration :: int

text \<open>The function with which a caller gives a client back: it closes it, or shuts the server down too.\<close>

datatype release = CloseClient | ShutdownClient

type_synonym 'w daemon_connector = "string \<Rightarrow> string \<Rightarrow> 'w \<Rightarrow> (conn_error + 'w connection option \<times> Lease) \<times> 'w"
type_synonym 'w legacy_starter = "ServerSpec \<Rightarrow> string \<Rightarrow> 'w \<Rightarrow> (conn_error + 'w connection) \<times> 'w"

record 'w lspCommandRuntime =
  rt_registry :: registry_entries
  rt_goos :: string
  rt_factory :: "(registry_entries \<Rightarrow> 'w daemon_connector option) option"
  rt_legacy :: "'w legacy_starter option"
  rt_connector :: "'w daemon_connector option"

text \<open>
  What the commands get from outside besides: the platform, the two starters, whether a binary is in the
  path (and when not, whether it was not found or the search failed), the time that a connection took.
\<close>

datatype look_path = BinaryFound | BinaryNotFound | LookFailed conn_error

record 'w command_env =
  ce_lsp :: lsp_env
  ce_config :: config_env
  ce_java :: java_env
  ce_goos :: string
  ce_goos_default :: string
  ce_factory :: "(registry_entries \<Rightarrow> 'w daemon_connector option) option"
  ce_legacy :: "'w legacy_starter option"
  ce_lookPath :: "string \<Rightarrow> look_path"
  ce_elapsed :: int
  ce_release :: "release \<Rightarrow> 'w \<Rightarrow> 'w"
  ce_visit :: "string list \<Rightarrow> string list"
  ce_not_found :: "conn_error \<Rightarrow> bool"

definition newLSPCommandRuntime :: "'w command_env \<Rightarrow> registry_entries \<Rightarrow> 'w lspCommandRuntime" where
  "newLSPCommandRuntime env registry =
     \<lparr>rt_registry = registry, rt_goos = to_lower (trim_space (ce_goos env)), rt_factory = ce_factory env,
      rt_legacy = ce_legacy env, rt_connector = None\<rparr>"

text \<open>The connector of a runtime: its own, or the one that its factory makes.\<close>

definition runtime_connector :: "'w lspCommandRuntime \<Rightarrow> conn_error + 'w daemon_connector" where
  "runtime_connector r =
     (case rt_connector r of
        Some c \<Rightarrow> Inr c
      | None \<Rightarrow>
          (case rt_factory r of
             None \<Rightarrow> Inl (plain_error ''daemon connector factory is nil'')
           | Some factory \<Rightarrow>
               (case factory (rt_registry r) of
                  None \<Rightarrow> Inl (plain_error ''daemon connector is nil'') | Some c \<Rightarrow> Inr c)))"

definition connectClientWithMetadata ::
  "'w command_env \<Rightarrow> 'w lspCommandRuntime option \<Rightarrow> string \<Rightarrow> ServerSpec \<Rightarrow> 'w \<Rightarrow>
   (conn_error + 'w connection \<times> release \<times> lspClientConnectionMetadata) \<times> 'w" where
  "connectClientWithMetadata env runtime workspaceRoot spec w =
     (case runtime of
        None \<Rightarrow> (Inl (plain_error ''lsp command runtime is nil''), w)
      | Some r \<Rightarrow>
          (let goos = (if trim_space (rt_goos r) = [] then ce_goos_default env else rt_goos r)
           in case rt_legacy r of
                None \<Rightarrow> (Inl (plain_error ''legacy lsp starter is nil''), w)
              | Some legacy \<Rightarrow>
                  if equal_fold goos ''windows''
                  then (case legacy spec workspaceRoot w of
                          (Inl err, w1) \<Rightarrow> (Inl err, w1)
                        | (Inr c, w1) \<Rightarrow>
                            (Inr (c, ShutdownClient,
                               \<lparr>md_UsedDaemon = False, md_DaemonLeaseReused = False, md_ConnectDuration = ce_elapsed env\<rparr>), w1))
                  else case runtime_connector r of
                         Inl err \<Rightarrow> (Inl err, w)
                       | Inr connector \<Rightarrow>
                           (case connector workspaceRoot (ss_Language spec) w of
                              (Inl err, w1) \<Rightarrow> (Inl err, w1)
                            | (Inr (None, lease), w1) \<Rightarrow> (Inl (plain_error ''daemon connector returned nil client''), w1)
                            | (Inr (Some c, lease), w1) \<Rightarrow>
                                (Inr (c, CloseClient,
                                   \<lparr>md_UsedDaemon = True, md_DaemonLeaseReused = ls_Reused lease,
                                    md_ConnectDuration = ce_elapsed env\<rparr>), w1))))"

definition connectClient ::
  "'w command_env \<Rightarrow> 'w lspCommandRuntime option \<Rightarrow> string \<Rightarrow> ServerSpec \<Rightarrow> 'w \<Rightarrow>
   (conn_error + 'w connection \<times> release) \<times> 'w" where
  "connectClient env runtime workspaceRoot spec w =
     (case connectClientWithMetadata env runtime workspaceRoot spec w of
        (Inl err, w1) \<Rightarrow> (Inl err, w1) | (Inr (c, r, m), w1) \<Rightarrow> (Inr (c, r), w1))"

section \<open>References, callers, implementations\<close>

datatype command_error =
    CommandDetect detect_error | CommandLookup registry_error | CommandLook conn_error | CommandConnect conn_error
  | CommandEngine lsp_error | CommandCheck check_error | CommandMissing string string | CommandLifecycle lifecycle_error
  | CommandProbe string | CommandWarmupCancelled string | CommandNoSymbols int | SyntaxErrorsFound

definition refsColdStartHintThreshold :: int where "refsColdStartHintThreshold = 5 * 1000000000"

definition shouldEmitRefsColdStartHint :: "string \<Rightarrow> lspClientConnectionMetadata \<Rightarrow> bool" where
  "shouldEmitRefsColdStartHint language m =
     (if \<not> md_UsedDaemon m \<or> md_DaemonLeaseReused m then False
      else if \<not> equal_fold (trim_space language) ''java'' then False
      else md_ConnectDuration m > refsColdStartHintThreshold)"

definition cold_start_tip :: string where
  "cold_start_tip = ''Tip: run '' @ [CHR 0x27] @ ''cs lsp warmup .'' @ [CHR 0x27] @ '' to pre-start the language server''"

definition appendRefsColdStartHint :: "string \<Rightarrow> string" where
  "appendRefsColdStartHint output =
     (let trimmed = trim_space output in if trimmed = [] then cold_start_tip else trimmed @ [newline] @ cold_start_tip)"

record refsCommandOptions =
  rc_WorkspaceRoot :: string
  rc_FilterPath :: string
  rc_Symbol :: string
  rc_Kind :: string

text \<open>The connection for \<open>refs\<close>: the binary for the note, and the client with its hint unless something failed.\<close>

definition refs_connection ::
  "'w command_env \<Rightarrow> registry_entries \<Rightarrow> string \<Rightarrow> 'w \<Rightarrow>
   (command_error + string \<times> ('w connection \<times> release \<times> bool) option) \<times> 'w" where
  "refs_connection env registry workspaceRoot w =
     (case detectRefsLanguage (ce_lsp env) (ce_visit env) registry workspaceRoot of
        Inl NoSupportedLanguage \<Rightarrow> (Inr ([], None), w)
      | Inl err \<Rightarrow> (Inl (CommandDetect err), w)
      | Inr language \<Rightarrow>
          (case registry_Lookup default_languages (Some registry) language of
             Inl err \<Rightarrow> (Inr ([], None), w)
           | Inr spec \<Rightarrow>
               (case connectClientWithMetadata env (Some (newLSPCommandRuntime env registry)) workspaceRoot spec w of
                  (Inl err, w1) \<Rightarrow> (Inr (ss_Binary spec, None), w1)
                | (Inr (c, r, m), w1) \<Rightarrow>
                    (Inr (ss_Binary spec, Some (c, r, shouldEmitRefsColdStartHint language m)), w1))))"

text \<open>\<open>cancelled\<close> says before which file the text search is stopped, if it runs.\<close>

definition executeRefsCommand ::
  "'w command_env \<Rightarrow> (string \<Rightarrow> bool) \<Rightarrow> Config \<Rightarrow> refsCommandOptions \<Rightarrow> 'w \<Rightarrow> (command_error + string) \<times> 'w" where
  "executeRefsCommand env cancelled cfg opts w =
     (let registry = newLSPRegistry (ce_java env) cfg (rc_WorkspaceRoot opts)
      in case refs_connection env registry (rc_WorkspaceRoot opts) w of
           (Inl err, w1) \<Rightarrow> (Inl err, w1)
         | (Inr (binary, conn), w1) \<Rightarrow>
             (let engine = NewRefsEngine (grepFallbackSearcher (ce_lsp env) cancelled)
                    (map_option (\<lambda>(c, r, hint). cn_client c) conn) None
              in case refs_Find (ce_lsp env) engine
                       \<lparr>ro_WorkspaceRoot = rc_WorkspaceRoot opts, ro_FilterPath = rc_FilterPath opts,
                        ro_Symbol = rc_Symbol opts, ro_Kind = rc_Kind opts, ro_FallbackLSP = binary\<rparr> w1 of
                   (found, w2) \<Rightarrow>
                     (let w3 = (case conn of None \<Rightarrow> w2 | Some (c, r, hint) \<Rightarrow> ce_release env r w2)
                      in case found of
                           Inl err \<Rightarrow> (Inl (CommandEngine err), w3)
                         | Inr output \<Rightarrow>
                             (Inr (case conn of Some (c, r, True) \<Rightarrow> appendRefsColdStartHint output | _ \<Rightarrow> output), w3))))"

text \<open>
  \<open>callers\<close> and \<open>implements\<close> need a server. Without its binary the engine is asked without a client, which
  gives its error for a missing server; the same when connecting says that the binary was not found.
\<close>

definition with_server ::
  "'w command_env \<Rightarrow> Config \<Rightarrow> string \<Rightarrow>
   (ServerSpec \<Rightarrow> 'w connection option \<Rightarrow> 'w \<Rightarrow> (lsp_error + string) \<times> 'w) \<Rightarrow> 'w \<Rightarrow> (command_error + string) \<times> 'w" where
  "with_server env cfg workspaceRoot ask w =
     (let registry = newLSPRegistry (ce_java env) cfg workspaceRoot;
          missing = (\<lambda>spec w. case ask spec None w of
             (Inl err, w1) \<Rightarrow> (Inl (CommandEngine err), w1) | (Inr output, w1) \<Rightarrow> (Inr [], w1))
      in case detectRefsLanguage (ce_lsp env) (ce_visit env) registry workspaceRoot of
           Inl err \<Rightarrow> (Inl (CommandDetect err), w)
         | Inr language \<Rightarrow>
             (case registry_Lookup default_languages (Some registry) language of
                Inl err \<Rightarrow> (Inl (CommandLookup err), w)
              | Inr spec \<Rightarrow>
                  (case ce_lookPath env (ss_Binary spec) of
                     BinaryNotFound \<Rightarrow> missing spec w
                   | LookFailed err \<Rightarrow> (Inl (CommandLook err), w)
                   | BinaryFound \<Rightarrow>
                       (case connectClient env (Some (newLSPCommandRuntime env registry)) workspaceRoot spec w of
                          (Inl err, w1) \<Rightarrow>
                            (if ce_not_found env err then missing spec w1 else (Inl (CommandConnect err), w1))
                        | (Inr (c, r), w1) \<Rightarrow>
                            (case ask spec (Some c) w1 of
                               (Inl err, w2) \<Rightarrow> (Inl (CommandEngine err), ce_release env r w2)
                             | (Inr output, w2) \<Rightarrow> (Inr output, ce_release env r w2))))))"

definition executeCallersCommand ::
  "'w command_env \<Rightarrow> Config \<Rightarrow> string \<Rightarrow> string \<Rightarrow> string \<Rightarrow> int \<Rightarrow> 'w \<Rightarrow> (command_error + string) \<times> 'w" where
  "executeCallersCommand env cfg workspaceRoot filterPath symbol depth w =
     with_server env cfg workspaceRoot
       (\<lambda>spec c. callers_Find (ce_lsp env) (map_option cn_client c)
          \<lparr>co_WorkspaceRoot = workspaceRoot, co_FilterPath = (if c = None then [] else filterPath), co_Symbol = symbol,
           co_Depth = depth, co_LSPBinary = ss_Binary spec, co_LSPInstall = ss_InstallHint spec\<rparr>) w"

definition executeImplementsCommand ::
  "'w command_env \<Rightarrow> Config \<Rightarrow> string \<Rightarrow> string \<Rightarrow> string \<Rightarrow> 'w \<Rightarrow> (command_error + string) \<times> 'w" where
  "executeImplementsCommand env cfg workspaceRoot filterPath symbol w =
     with_server env cfg workspaceRoot
       (\<lambda>spec c. implements_Find (ce_lsp env) (map_option cn_client c)
          \<lparr>ip_WorkspaceRoot = workspaceRoot, ip_FilterPath = (if c = None then [] else filterPath), ip_Symbol = symbol,
           ip_LSPBinary = ss_Binary spec, ip_LSPInstall = ss_InstallHint spec\<rparr>) w"

text \<open>The handlers: the target directory is the filter, the project root the workspace.\<close>

definition runRefs ::
  "'w command_env \<Rightarrow> (string \<Rightarrow> bool) \<Rightarrow> runtime_state \<Rightarrow> string \<Rightarrow> string \<Rightarrow> 'w \<Rightarrow> (command_error + string) \<times> 'w" where
  "runRefs env cancelled rs kindFlag symbol w =
     (case NormalizeRefKind kindFlag of
        Inl err \<Rightarrow> (Inl (CommandEngine err), w)
      | Inr kind \<Rightarrow>
          (let targetDir = currentTargetDir (ce_config env) rs
           in executeRefsCommand env cancelled (currentConfig rs)
                \<lparr>rc_WorkspaceRoot = resolvedProjectRootForTarget (ce_config env) rs targetDir, rc_FilterPath = targetDir,
                 rc_Symbol = symbol, rc_Kind = kind\<rparr> w))"

definition runCallers ::
  "'w command_env \<Rightarrow> runtime_state \<Rightarrow> int \<Rightarrow> string \<Rightarrow> 'w \<Rightarrow> (command_error + string) \<times> 'w" where
  "runCallers env rs depth symbol w =
     (if depth \<le> 0 then (Inl (CommandEngine DepthNotPositive), w)
      else let targetDir = currentTargetDir (ce_config env) rs
           in executeCallersCommand env (currentConfig rs) (resolvedProjectRootForTarget (ce_config env) rs targetDir)
                targetDir symbol depth w)"

definition runImplements :: "'w command_env \<Rightarrow> runtime_state \<Rightarrow> string \<Rightarrow> 'w \<Rightarrow> (command_error + string) \<times> 'w" where
  "runImplements env rs symbol w =
     (let targetDir = currentTargetDir (ce_config env) rs
      in executeImplementsCommand env (currentConfig rs) (resolvedProjectRootForTarget (ce_config env) rs targetDir)
           targetDir symbol w)"

end
