(* ===== verification/CsServers.thy ===== *)
theory CsServers
  imports CsCommands
begin

text \<open>
  \<open>check_command.go\<close>, the warmup of \<open>lsp_runtime.go\<close>, and \<open>lsp_command.go\<close>: the commands that use the
  diagnostics of the servers, wait for their index, and look at and stop the daemons.
\<close>

section \<open>The check command\<close>

definition formatMissingCheckLSPError :: "string \<Rightarrow> string \<Rightarrow> command_error" where
  "formatMissingCheckLSPError binary install =
     (let trimmedBinary = trim_space binary; trimmedInstall = trim_space install
      in CommandMissing (if trimmedBinary = [] then ''lsp'' else trimmedBinary)
           (if trimmedInstall = [] then ''install language server'' else trimmedInstall))"

text \<open>The first loop of \<open>executeCheckCommand\<close>: the language and the path of every target, in order.\<close>

fun group_targets ::
  "'w command_env \<Rightarrow> (string \<Rightarrow> target_kind) \<Rightarrow> registry_entries \<Rightarrow> string \<Rightarrow> string list \<Rightarrow>
   detect_error + (string \<times> string) list" where
  "group_targets env stat servers workspaceRoot [] = Inr []"
| "group_targets env stat servers workspaceRoot (t # ts) =
     (let resolved = (if trim_space t = [] then workspaceRoot else trim_space t);
          resolvedTarget = resolve_project_path (ce_config env) resolved
      in case detectCheckLanguage (ce_lsp env) (ce_config env) stat (ce_visit env) servers workspaceRoot resolvedTarget of
           Inl err \<Rightarrow> Inl err
         | Inr language \<Rightarrow>
             (case group_targets env stat servers workspaceRoot ts of
                Inl err \<Rightarrow> Inl err | Inr gs \<Rightarrow> Inr ((language, resolvedTarget) # gs)))"

definition paths_of :: "(string \<times> string) list \<Rightarrow> string \<Rightarrow> string list" where
  "paths_of gs language = map snd (filter (\<lambda>g. fst g = language) gs)"

text \<open>
  The runs of the engine for the targets of one language. The events of the servers are a list per run: what
  a client sends is subscribed to at the start of a run.
\<close>

definition next_events :: "check_event list list \<Rightarrow> check_event list" where
  "next_events ess = (case ess of [] \<Rightarrow> [] | es # rest \<Rightarrow> es)"

fun run_targets ::
  "lsp_env \<Rightarrow> (string \<Rightarrow> target_kind) \<Rightarrow> 'w checkClient \<Rightarrow> string \<Rightarrow> string \<Rightarrow> CheckDiagnostic list \<Rightarrow> string list \<Rightarrow>
   check_event list list \<Rightarrow> 'w \<Rightarrow> ((check_error + CheckDiagnostic list \<times> check_event list list) \<times> 'w) option" where
  "run_targets env stat C workspaceRoot language acc [] ess w = Some (Inr (acc, ess), w)"
| "run_targets env stat C workspaceRoot language acc (t # ts) ess w =
     (case check_Run env stat (Some C)
             \<lparr>ck_WorkspaceRoot = workspaceRoot, ck_TargetPath = t, ck_Language = language, ck_MaxFiles = 0\<rparr>
             (next_events ess) w of
        None \<Rightarrow> None
      | Some (Inl err, w1) \<Rightarrow> Some (Inl err, w1)
      | Some (Inr found, w1) \<Rightarrow> run_targets env stat C workspaceRoot language (acc @ found) ts (tl ess) w1)"

fun check_languages ::
  "'w command_env \<Rightarrow> (string \<Rightarrow> target_kind) \<Rightarrow> registry_entries \<Rightarrow> string \<Rightarrow> (string \<Rightarrow> string list) \<Rightarrow> CheckDiagnostic list \<Rightarrow>
   string list \<Rightarrow> check_event list list \<Rightarrow> 'w \<Rightarrow> ((command_error + CheckDiagnostic list) \<times> 'w) option" where
  "check_languages env stat servers workspaceRoot paths acc [] ess w = Some (Inr acc, w)"
| "check_languages env stat servers workspaceRoot paths acc (language # ls) ess w =
     (case registry_Lookup default_languages (Some servers) language of
        Inl err \<Rightarrow> Some (Inl (CommandLookup err), w)
      | Inr spec \<Rightarrow>
          (case ce_lookPath env (ss_Binary spec) of
             BinaryNotFound \<Rightarrow> Some (Inl (formatMissingCheckLSPError (ss_Binary spec) (ss_InstallHint spec)), w)
           | LookFailed err \<Rightarrow> Some (Inl (CommandLook err), w)
           | BinaryFound \<Rightarrow>
               (case connectClient env (Some (newLSPCommandRuntime env servers)) workspaceRoot spec w of
                  (Inl err, w1) \<Rightarrow>
                    Some (Inl (if ce_not_found env err then formatMissingCheckLSPError (ss_Binary spec) (ss_InstallHint spec)
                               else CommandConnect err), w1)
                | (Inr (c, r), w1) \<Rightarrow>
                    (case run_targets (ce_lsp env) stat (cn_check c) workspaceRoot language acc (paths language) ess w1 of
                       None \<Rightarrow> None
                     | Some (Inl err, w2) \<Rightarrow> Some (Inl (CommandCheck err), ce_release env r w2)
                     | Some (Inr (acc2, ess2), w2) \<Rightarrow>
                         check_languages env stat servers workspaceRoot paths acc2 ls ess2 (ce_release env r w2)))))"

definition executeCheckCommand ::
  "'w command_env \<Rightarrow> (string \<Rightarrow> target_kind) \<Rightarrow> Config \<Rightarrow> string \<Rightarrow> string list \<Rightarrow> check_event list list \<Rightarrow> 'w \<Rightarrow>
   ((command_error + CheckDiagnostic list) \<times> 'w) option" where
  "executeCheckCommand env stat cfg workspaceRoot targetPaths ess w =
     (let servers = newLSPRegistry (ce_java env) cfg workspaceRoot
      in case group_targets env stat servers workspaceRoot targetPaths of
           Inl err \<Rightarrow> Some (Inl (CommandDetect err), w)
         | Inr gs \<Rightarrow>
             check_languages env stat servers workspaceRoot (paths_of gs) [] (ce_visit env (remdups (map fst gs))) ess w)"

text \<open>What is printed, and the error of the command.\<close>

definition runCheck ::
  "'w command_env \<Rightarrow> (string \<Rightarrow> target_kind) \<Rightarrow> runtime_state \<Rightarrow> string list \<Rightarrow> check_event list list \<Rightarrow> 'w \<Rightarrow>
   (string \<times> command_error option \<times> 'w) option" where
  "runCheck env stat rs args ess w =
     (let targetPaths = map (resolve_project_path (ce_config env)) args;
          workspaceRoot = resolvedProjectRootForTarget (ce_config env) rs (currentTargetDir (ce_config env) rs)
      in case executeCheckCommand env stat (currentConfig rs) workspaceRoot targetPaths ess w of
           None \<Rightarrow> None
         | Some (Inl err, w1) \<Rightarrow> Some ([], Some err, w1)
         | Some (Inr found, w1) \<Rightarrow>
             Some (formatCheckOutput found, if found = [] then None else Some SyntaxErrorsFound, w1))"

section \<open>Warmup\<close>

definition warmupProbeTimeout :: int where "warmupProbeTimeout = 90 * 1000000000"

definition resolvedWarmupProbeTimeout :: "Config option \<Rightarrow> int" where
  "resolvedWarmupProbeTimeout cfg =
     (case cfg of
        None \<Rightarrow> warmupProbeTimeout
      | Some c \<Rightarrow>
          (case LSPWarmupProbeTimeoutDuration (Some c) of
             Inl err \<Rightarrow> warmupProbeTimeout | Inr d \<Rightarrow> if d > 0 then d else warmupProbeTimeout))"

definition resolvedLSPDaemonIdleTimeout :: "Config option \<Rightarrow> int" where
  "resolvedLSPDaemonIdleTimeout cfg =
     (case cfg of
        None \<Rightarrow> DefaultIdleTimeout
      | Some c \<Rightarrow>
          (case LSPDaemonIdleTimeoutDuration (Some c) of Inl err \<Rightarrow> DefaultIdleTimeout | Inr d \<Rightarrow> d))"

text \<open>What the \<open>select\<close> after a probe without symbols takes; a warmup that still waits is \<open>None\<close>.\<close>

datatype warmup_event = WarmupCancelled string | DeadlinePassed | Ticked

fun probe_loop ::
  "'w lsp_client \<Rightarrow> int \<Rightarrow> warmup_event list \<Rightarrow> 'w \<Rightarrow> (command_error option \<times> 'w) option" where
  "probe_loop client probeTimeout es w =
     (case lc_symbols client ''*'' w of
        (Inl err, w1) \<Rightarrow> Some (Some (CommandProbe err), w1)
      | (Inr symbols, w1) \<Rightarrow>
          if symbols \<noteq> [] then Some (None, w1)
          else (case es of
                  [] \<Rightarrow> None
                | WarmupCancelled err # rest \<Rightarrow> Some (Some (CommandWarmupCancelled err), w1)
                | DeadlinePassed # rest \<Rightarrow> Some (Some (CommandNoSymbols probeTimeout), w1)
                | Ticked # rest \<Rightarrow> probe_loop client probeTimeout rest w1))"

declare probe_loop.simps [simp del]

definition executeLSPWarmupWithRegistry ::
  "'w command_env \<Rightarrow> registry_entries \<Rightarrow> string \<Rightarrow> string \<Rightarrow> Config option \<Rightarrow> warmup_event list \<Rightarrow> 'w \<Rightarrow>
   (command_error option \<times> 'w) option" where
  "executeLSPWarmupWithRegistry env servers workspaceRoot language cfg es w =
     (case registry_Lookup default_languages (Some servers) language of
        Inl err \<Rightarrow> Some (Some (CommandLookup err), w)
      | Inr spec \<Rightarrow>
          (case connectClientWithMetadata env (Some (newLSPCommandRuntime env servers)) workspaceRoot spec w of
             (Inl err, w1) \<Rightarrow> Some (Some (CommandConnect err), w1)
           | (Inr (c, r, m), w1) \<Rightarrow>
               (case probe_loop (cn_client c) (resolvedWarmupProbeTimeout cfg) es w1 of
                  None \<Rightarrow> None | Some (e, w2) \<Rightarrow> Some (e, ce_release env r w2))))"

section \<open>The daemons\<close>

record lspCommandResult =
  lr_WorkspaceRoot :: string
  lr_Language :: string
  lr_Supported :: bool
  lr_Statuses :: "DaemonStatus list option"
  lr_Restarted :: bool

definition plain_result :: "string \<Rightarrow> lspCommandResult" where
  "plain_result workspaceRoot =
     \<lparr>lr_WorkspaceRoot = workspaceRoot, lr_Language = [], lr_Supported = False, lr_Statuses = None, lr_Restarted = False\<rparr>"

fun stop_all :: "lifecycle_env \<Rightarrow> Lifecycle \<Rightarrow> DaemonStatus list \<Rightarrow> lsp_world \<Rightarrow> lsp_world" where
  "stop_all lenv l [] w = w"
| "stop_all lenv l (s # ss) w = stop_all lenv l ss (snd (StopByKey lenv l (ds_StateKey s) w))"

text \<open>
  \<open>executeLSPCommand\<close> by its options: the status, a restart, or a warmup. The servers act on the files and
  the log of the lifecycle;
\<close>

definition lsp_status ::
  "lifecycle_env \<Rightarrow> registry_entries \<Rightarrow> string \<Rightarrow> lsp_world \<Rightarrow> command_error + lspCommandResult" where
  "lsp_status lenv servers workspaceRoot w =
     (case Status lenv (NewLifecycle (Some servers) []) workspaceRoot w of
        Inl err \<Rightarrow> Inl (CommandLifecycle err)
      | Inr statuses \<Rightarrow> Inr ((plain_result workspaceRoot)\<lparr>lr_Statuses := Some statuses\<rparr>))"

definition lsp_restart ::
  "lsp_world command_env \<Rightarrow> lifecycle_env \<Rightarrow> registry_entries \<Rightarrow> string \<Rightarrow> lsp_world \<Rightarrow>
   (command_error + lspCommandResult) \<times> lsp_world" where
  "lsp_restart env lenv servers workspaceRoot w =
     (case detectRefsLanguage (ce_lsp env) (ce_visit env) servers workspaceRoot of
        Inl NoSupportedLanguage \<Rightarrow> (Inr (plain_result workspaceRoot), w)
      | Inl err \<Rightarrow> (Inl (CommandDetect err), w)
      | Inr language \<Rightarrow>
          (let l = NewLifecycle (Some servers) []
           in case Status lenv l workspaceRoot w of
                Inl err \<Rightarrow> (Inl (CommandLifecycle err), w)
              | Inr statuses \<Rightarrow>
                  (let w1 = stop_all lenv l statuses w
                   in case registry_Lookup default_languages (Some servers) language of
                        Inl err \<Rightarrow> (Inl (CommandLookup err), w1)
                      | Inr spec \<Rightarrow>
                          (case connectClientWithMetadata env (Some (newLSPCommandRuntime env servers)) workspaceRoot spec w1 of
                             (Inl err, w2) \<Rightarrow> (Inl (CommandConnect err), w2)
                           | (Inr (c, r, m), w2) \<Rightarrow>
                               (Inr ((plain_result workspaceRoot)
                                  \<lparr>lr_Language := language, lr_Supported := True, lr_Restarted := True\<rparr>),
                                ce_release env r w2)))))"

definition lsp_warmup ::
  "'w command_env \<Rightarrow> registry_entries \<Rightarrow> string \<Rightarrow> warmup_event list \<Rightarrow> 'w \<Rightarrow>
   ((command_error + lspCommandResult) \<times> 'w) option" where
  "lsp_warmup env servers workspaceRoot es w =
     (case detectRefsLanguage (ce_lsp env) (ce_visit env) servers workspaceRoot of
        Inl NoSupportedLanguage \<Rightarrow> Some (Inr (plain_result workspaceRoot), w)
      | Inl err \<Rightarrow> Some (Inl (CommandDetect err), w)
      | Inr language \<Rightarrow>
          (let cfg = (case fst (LoadConfig (ce_config env) workspaceRoot) of Some (Inr c) \<Rightarrow> Some c | _ \<Rightarrow> None)
           in case executeLSPWarmupWithRegistry env servers workspaceRoot language cfg es w of
                None \<Rightarrow> None
              | Some (Some err, w1) \<Rightarrow> Some (Inl err, w1)
              | Some (None, w1) \<Rightarrow>
                  Some (Inr ((plain_result workspaceRoot)\<lparr>lr_Language := language, lr_Supported := True\<rparr>), w1)))"

record lspCommandOptions =
  lo_WorkspaceRoot :: string
  lo_Status :: bool
  lo_Restart :: bool

definition executeLSPCommand ::
  "lsp_world command_env \<Rightarrow> lifecycle_env \<Rightarrow> Config \<Rightarrow> lspCommandOptions \<Rightarrow> warmup_event list \<Rightarrow> lsp_world \<Rightarrow>
   ((command_error + lspCommandResult) \<times> lsp_world) option" where
  "executeLSPCommand env lenv cfg opts es w =
     (let workspaceRoot = lo_WorkspaceRoot opts; servers = newLSPRegistry (ce_java env) cfg workspaceRoot
      in if lo_Status opts then Some (lsp_status lenv servers workspaceRoot w, w)
         else if lo_Restart opts then Some (lsp_restart env lenv servers workspaceRoot w)
         else lsp_warmup env servers workspaceRoot es w)"

text \<open>The text of the handlers. \<open>d\<close> is a duration in nanoseconds, rounded to seconds half away from zero,
  far from the limits of the type.\<close>

definition formatDaemonHealth :: "DaemonStatus \<Rightarrow> string" where
  "formatDaemonHealth s =
     (if \<not> ds_Running s then ''not running''
      else if ds_SocketHealthy s then ''running, socket healthy'' else ''running, socket unhealthy'')"

definition formatDuration :: "int \<Rightarrow> string" where
  "formatDuration d =
     (let s = (if d < 0 then - ((- d + 500000000) div 1000000000) else (d + 500000000) div 1000000000)
      in if s < 60 then int_str s @ ''s''
         else if s < 3600 then int_str (s div 60) @ ''m''
         else let h = s div 3600; m = s div 60 mod 60
              in if m = 0 then int_str h @ ''h'' else int_str h @ ''h '' @ int_str m @ ''m'')"

definition shortenHome :: "string option \<Rightarrow> string \<Rightarrow> string" where
  "shortenHome home path =
     (case home of
        None \<Rightarrow> path
      | Some h \<Rightarrow> (case path_rel h path of Inl err \<Rightarrow> path | Inr r \<Rightarrow> if length r < length path then ''~/'' @ r else path))"

text \<open>The lines that \<open>runLSPStatus\<close> prints; \<open>now\<close> is the time.\<close>

definition daemon_lines :: "int \<Rightarrow> string option \<Rightarrow> DaemonStatus \<Rightarrow> string list" where
  "daemon_lines now home s =
     [''LSP daemon ('' @ ds_Language s @ ''): '' @ ds_WorkspaceRoot s,
      ''  PID:       '' @ int_str (ds_PID s) @ '' ('' @ formatDaemonHealth s @ '')'',
      ''  Binary:    '' @ ds_Binary s] @
     (case ds_StartedAt s of None \<Rightarrow> [] | Some t \<Rightarrow> [''  Uptime:    '' @ formatDuration (now - t)]) @
     (case ds_LastUsedAt s of None \<Rightarrow> [] | Some t \<Rightarrow> [''  Last used: '' @ formatDuration (now - t) @ '' ago'']) @
     [''  Log:       '' @ shortenHome home (ds_LogPath s)]"

definition status_lines :: "int \<Rightarrow> string option \<Rightarrow> string \<Rightarrow> lspCommandResult \<Rightarrow> string list" where
  "status_lines now home workspaceRoot result =
     (case lr_Statuses result of
        None \<Rightarrow> []
      | Some [] \<Rightarrow> [''No LSP daemon found for '' @ workspaceRoot]
      | Some statuses \<Rightarrow> concat (map (daemon_lines now home) statuses))"

definition runLSPStatus ::
  "lsp_world command_env \<Rightarrow> lifecycle_env \<Rightarrow> int \<Rightarrow> string option \<Rightarrow> runtime_state \<Rightarrow>
   lsp_world \<Rightarrow> command_error + string list" where
  "runLSPStatus env lenv now home rs w =
     (let workspaceRoot = resolvedProjectRootForTarget (ce_config env) rs (currentTargetDir (ce_config env) rs)
      in case executeLSPCommand env lenv (currentConfig rs)
                \<lparr>lo_WorkspaceRoot = workspaceRoot, lo_Status = True, lo_Restart = False\<rparr> [] w of
           None \<Rightarrow> Inr []
         | Some (Inl err, w1) \<Rightarrow> Inl err
         | Some (Inr result, w1) \<Rightarrow> Inr (status_lines now home workspaceRoot result))"

definition runLSPWarmup ::
  "lsp_world command_env \<Rightarrow> lifecycle_env \<Rightarrow> runtime_state \<Rightarrow> warmup_event list \<Rightarrow> lsp_world \<Rightarrow>
   ((command_error + string list) \<times> lsp_world) option" where
  "runLSPWarmup env lenv rs es w =
     (let workspaceRoot = resolvedProjectRootForTarget (ce_config env) rs (currentTargetDir (ce_config env) rs)
      in case executeLSPCommand env lenv (currentConfig rs)
                \<lparr>lo_WorkspaceRoot = workspaceRoot, lo_Status = False, lo_Restart = False\<rparr> es w of
           None \<Rightarrow> None
         | Some (Inl err, w1) \<Rightarrow> Some (Inl err, w1)
         | Some (Inr result, w1) \<Rightarrow>
             Some (Inr [if \<not> lr_Supported result then ''No supported LSP language detected for warmup''
                        else ''LSP warmup ready ('' @ lr_Language result @ ''): '' @ lr_WorkspaceRoot result], w1))"

definition runLSPRestart ::
  "lsp_world command_env \<Rightarrow> lifecycle_env \<Rightarrow> runtime_state \<Rightarrow> lsp_world \<Rightarrow>
   ((command_error + string list) \<times> lsp_world) option" where
  "runLSPRestart env lenv rs w =
     (let workspaceRoot = resolvedProjectRootForTarget (ce_config env) rs (currentTargetDir (ce_config env) rs)
      in case executeLSPCommand env lenv (currentConfig rs)
                \<lparr>lo_WorkspaceRoot = workspaceRoot, lo_Status = False, lo_Restart = True\<rparr> [] w of
           None \<Rightarrow> None
         | Some (Inl err, w1) \<Rightarrow> Some (Inl err, w1)
         | Some (Inr result, w1) \<Rightarrow>
             Some (Inr (if lr_Restarted result
                        then [''LSP daemon restarted ('' @ lr_Language result @ ''): '' @ lr_WorkspaceRoot result]
                        else if \<not> lr_Supported result then [''No supported LSP language detected''] else []), w1))"

definition runLSPCleanup ::
  "java_env \<Rightarrow> lifecycle_env \<Rightarrow> Config \<Rightarrow> lsp_world \<Rightarrow> (command_error + string list) \<times> lsp_world" where
  "runLSPCleanup jenv lenv cfg w =
     (case Cleanup lenv (NewLifecycle (Some (newLSPRegistry jenv cfg [])) [WithIdleTimeout 0]) w of
        (Inl err, w1) \<Rightarrow> (Inl (CommandLifecycle err), w1)
      | (Inr cleaned, w1) \<Rightarrow>
          (Inr (if cleaned = [] then [''No orphaned LSP artifacts found'']
                else (''Cleaned up artifacts for '' @ int_str (int (length cleaned)) @ '' orphaned daemons:'') #
                     map (\<lambda>c. ''  - '' @ c) cleaned), w1))"

section \<open>The connector of the commands\<close>

text \<open>
  What \<open>init\<close> of \<open>lsp_java_init.go\<close> puts in place as the factory: a connector with the configured idle
  timeout, the environment of the server and the parameters for it. The builder of the parameters reads and
  writes the recorded build files; \<open>files\<close> are those that it finds.
\<close>

definition refsLSPServerEnv :: "runtime_state \<Rightarrow> ServerSpec \<Rightarrow> string list" where
  "refsLSPServerEnv rs spec = javaLSPServerEnv spec (Some (currentConfig rs))"

definition cs_lifecycle :: "runtime_state \<Rightarrow> registry_entries \<Rightarrow> Lifecycle" where
  "cs_lifecycle rs servers =
     NewLifecycle (Some servers)
       [WithIdleTimeout (resolvedLSPDaemonIdleTimeout (Some (currentConfig rs))), WithServerEnvResolver (Some (refsLSPServerEnv rs))]"

definition cs_params_builder ::
  "java_env \<Rightarrow> lifecycle_env \<Rightarrow> bool \<Rightarrow> bool \<Rightarrow> (java_error \<Rightarrow> conn_error) \<Rightarrow> state_files \<Rightarrow> runtime_state \<Rightarrow>
   string \<Rightarrow> ServerSpec \<Rightarrow> conn_error + InitializeParams" where
  "cs_params_builder jenv lenv write_ok state_ok describe files rs workspaceRoot spec =
     (case fst (refsInitializeParams jenv lenv write_ok state_ok (Some (currentConfig rs)) workspaceRoot spec files) of
        Inl err \<Rightarrow> Inl (describe err) | Inr params \<Rightarrow> Inr params)"

definition cs_daemon_connector ::
  "java_env \<Rightarrow> lifecycle_env \<Rightarrow> bool \<Rightarrow> bool \<Rightarrow> (java_error \<Rightarrow> conn_error) \<Rightarrow> state_files \<Rightarrow> runtime_state \<Rightarrow> string \<Rightarrow>
   registry_entries option \<Rightarrow> DaemonConnector" where
  "cs_daemon_connector jenv lenv write_ok state_ok describe files rs goos registry =
     (let servers = (case registry of None \<Rightarrow> newLSPRegistry jenv (currentConfig rs) [] | Some r \<Rightarrow> r)
      in NewDaemonConnector (jv_cwd jenv) goos (Some servers)
           [WithDaemonConnectorLifecycle (cs_lifecycle rs servers),
            WithDaemonConnectorInitializeParamsBuilder
              (Some (cs_params_builder jenv lenv write_ok state_ok describe files rs))])"

section \<open>Lemmas\<close>

text \<open>The targets of a check are checked one after the other and their results appended.\<close>

lemma run_targets_twice:
  assumes "check_Run env stat (Some C) \<lparr>ck_WorkspaceRoot = ws, ck_TargetPath = t, ck_Language = l, ck_MaxFiles = 0\<rparr> es w = Some (Inr ds, w1)"
    and "check_Run env stat (Some C) \<lparr>ck_WorkspaceRoot = ws, ck_TargetPath = t, ck_Language = l, ck_MaxFiles = 0\<rparr> es2 w1 = Some (Inr ds, w2)"
  shows "run_targets env stat C ws l [] [t, t] [es, es2] w = Some (Inr (ds @ ds, []), w2)"
  using assms by (simp add: next_events_def)

text \<open>A warmup ends: an error, symbols, the deadline or the end of the context, whichever comes first.\<close>

lemma probe_loop_returns: "\<exists>e \<in> set es. e \<noteq> Ticked \<Longrightarrow> \<exists>r. probe_loop c t es w = Some r"
proof (induction es arbitrary: w)
  case Nil
  then show ?case by simp
next
  case (Cons e es)
  then show ?case
    by (subst probe_loop.simps) (cases e; auto split: prod.split sum.split)
qed

text \<open>It succeeds as soon as one probe has symbols, if those before had none and were followed by a tick.\<close>

lemma probe_loop_ready:
  "(\<And>i. i < k \<Longrightarrow> lc_symbols c ''*'' (ws i) = (Inr [], ws (Suc i))) \<Longrightarrow>
   lc_symbols c ''*'' (ws k) = (Inr (s # ss), w') \<Longrightarrow> probe_loop c t (replicate k Ticked @ es) (ws 0) = Some (None, w')"
proof (induction k arbitrary: ws)
  case 0
  then show ?case by (simp add: probe_loop.simps)
next
  case (Suc k)
  have "probe_loop c t (replicate k Ticked @ es) (ws (Suc 0)) = Some (None, w')"
    using Suc.IH [of "\<lambda>i. ws (Suc i)"] Suc.prems by simp
  then show ?case using Suc.prems(1) [of 0] by (simp add: probe_loop.simps)
qed

text \<open>
  A configuration that was loaded gives its idle timeout to the lifecycle of the daemons, and the probe of
  a warmup always has a positive time: the defaults of the two resolvers are never taken for an error.
\<close>

lemma loaded_timeouts_used:
  assumes "LoadConfig cenv projectPath = (Some (Inr cfg), ws)"
  shows "\<exists>idle. LSPDaemonIdleTimeoutDuration (Some cfg) = Inr idle \<and> 0 < idle \<and>
      lf_idleTimeout (cs_lifecycle \<lparr>rs_targetDir = t, rs_config = Some cfg\<rparr> servers) = idle" (is ?idle)
    and "0 < resolvedWarmupProbeTimeout (Some cfg)"
proof -
  obtain idle probe where d: "LSPDaemonIdleTimeoutDuration (Some cfg) = Inr idle" "0 < idle"
      "LSPWarmupProbeTimeoutDuration (Some cfg) = Inr probe"
    using durations_ok_values [OF loaded_durations_ok [OF assms]] by blast
  then show ?idle
    by (simp add: cs_lifecycle_def NewLifecycle_def currentConfig_def resolvedLSPDaemonIdleTimeout_def WithIdleTimeout_def
        WithServerEnvResolver_def)
  show "0 < resolvedWarmupProbeTimeout (Some cfg)"
    using d(3) by (simp add: resolvedWarmupProbeTimeout_def warmupProbeTimeout_def)
qed

end
