(* ===== verification/CsConnections.thy ===== *)
theory CsConnections
  imports CsServers
begin

text \<open>
  What the commands that use a language server have in common: whatever happens, the connection that a command
  opened is given back. The state of the servers is arbitrary; \<open>n\<close> counts the open connections in it.
\<close>

section \<open>Operations that keep the count\<close>

definition keeps :: "('w \<Rightarrow> int) \<Rightarrow> ('w \<Rightarrow> 'r \<times> 'w) \<Rightarrow> bool" where
  "keeps n f \<longleftrightarrow> (\<forall>w. n (snd (f w)) = n w)"

lemma keepsD [simp]: "keeps n f \<Longrightarrow> n (snd (f w)) = n w"
  unfolding keeps_def by blast

text \<open>The requests of a client, and the messages and the subscription of a check.\<close>

definition client_keeps :: "('w \<Rightarrow> int) \<Rightarrow> 'w lsp_client \<Rightarrow> bool" where
  "client_keeps n c \<longleftrightarrow>
     (\<forall>q. keeps n (lc_symbols c q)) \<and> (\<forall>u p d. keeps n (lc_references c u p d)) \<and>
     (\<forall>u p. keeps n (lc_prepareCalls c u p)) \<and> (\<forall>i. keeps n (lc_incomingCalls c i)) \<and>
     (\<forall>u p. keeps n (lc_prepareTypes c u p)) \<and> (\<forall>i. keeps n (lc_subtypes c i)) \<and>
     (\<forall>u p. keeps n (lc_implementation c u p))"

definition check_keeps :: "('w \<Rightarrow> int) \<Rightarrow> 'w checkClient \<Rightarrow> bool" where
  "check_keeps n c \<longleftrightarrow>
     (\<forall>m. keeps n (cc_notify c m)) \<and> keeps n (cc_subscribe c) \<and> (\<forall>w. n (cc_unsubscribe c w) = n w)"

lemma client_keepsD [simp]:
  assumes "client_keeps n c"
  shows "keeps n (lc_symbols c q)" "keeps n (lc_references c u p d)" "keeps n (lc_prepareCalls c u p)"
    "keeps n (lc_incomingCalls c i)" "keeps n (lc_prepareTypes c u p)" "keeps n (lc_subtypes c t)"
    "keeps n (lc_implementation c u p)"
  using assms unfolding client_keeps_def by blast+

lemma check_keepsD [simp]:
  assumes "check_keeps n c"
  shows "keeps n (cc_notify c m)" "keeps n (cc_subscribe c)" "n (cc_unsubscribe c w) = n w"
  using assms unfolding check_keeps_def by blast+

section \<open>The engines\<close>

lemma refs_lookup_keeps [simp]: "client_keeps n c \<Longrightarrow> keeps n (references_lookup env c ws fp s k)"
  unfolding keeps_def by (simp add: references_lookup_def Let_def case_prod_unfold split: sum.split)

lemma findWithLSP_keeps [simp]: "client_keeps n c \<Longrightarrow> keeps n (findWithLSP env engine c ws fp s k)"
  unfolding keeps_def by (simp add: findWithLSP_def Let_def case_prod_unfold split: sum.split)

lemma refs_Find_keeps:
  assumes "pred_option (client_keeps n) (re_client engine)"
  shows "keeps n (refs_Find env engine opts)"
  using assms unfolding keeps_def
  by (auto simp: refs_Find_def Let_def case_prod_unfold split: sum.split option.split)

lemma lookupIncomingCalls_keeps [simp]: "client_keeps n c \<Longrightarrow> keeps n (lookupIncomingCalls c item)"
  unfolding keeps_def by (simp add: lookupIncomingCalls_def case_prod_unfold split: sum.split)

lemma walk_keeps:
  "client_keeps n c \<Longrightarrow> n (snd (snd (snd (walkIncoming env c m ws maxDepth depth item parents seen ls w)))) = n w"
  "client_keeps n c \<Longrightarrow> n (snd (snd (snd (walk_level env c m ws maxDepth depth nodes parents seen ls w)))) = n w"
proof (induction env c m ws maxDepth depth item parents seen ls w and
    env c m ws maxDepth depth nodes parents seen ls w rule: walkIncoming_walk_level.induct)
  case (1 env c m ws maxDepth depth item parents seen ls w)
  then show ?case
    by (subst walkIncoming.simps)
      (simp add: case_prod_unfold lookupIncomingCalls_keeps [THEN keepsD] prod_eq_iff split: sum.split)
next
  case (2 env c m ws maxDepth depth parents seen ls w)
  then show ?case by simp
next
  case (3 env c m ws maxDepth depth node nodes parents seen ls w)
  then show ?case by (auto simp: walk_level.simps case_prod_unfold prod_eq_iff split: sum.split)
qed

lemma callers_walk_keeps [simp]: "client_keeps n c \<Longrightarrow> keeps n (callers_walk env c ws m depth item)"
  unfolding keeps_def by (simp add: callers_walk_def case_prod_unfold walk_keeps split: sum.split)

lemma callers_lookup_keeps [simp]: "client_keeps n c \<Longrightarrow> keeps n (callers_lookup env c ws fp s depth)"
  unfolding keeps_def
  by (simp add: callers_lookup_def prepareCallHierarchy_def Let_def case_prod_unfold split: sum.split option.split)

lemma callers_Find_keeps:
  "pred_option (client_keeps n) engine \<Longrightarrow> keeps n (callers_Find env engine opts)"
  unfolding keeps_def
  by (auto simp: callers_Find_def Let_def case_prod_unfold split: sum.split option.split)

lemma implementations_lookup_keeps [simp]:
  "client_keeps n c \<Longrightarrow> keeps n (implementations_lookup env c ws fp s)"
  unfolding keeps_def
  by (simp add: implementations_lookup_def hierarchy_implementations_def prepareTypeHierarchy_def
      location_implementations_def Let_def case_prod_unfold split: sum.split option.split)

lemma implements_Find_keeps:
  "pred_option (client_keeps n) engine \<Longrightarrow> keeps n (implements_Find env engine opts)"
  unfolding keeps_def
  by (auto simp: implements_Find_def Let_def case_prod_unfold split: sum.split option.split)

lemma check_files_keeps:
  "check_keeps n C \<Longrightarrow> pred_option (\<lambda>r. n (snd r) = n w) (check_files env ws language C pending acc fs es w)"
proof (induction env ws language C pending acc fs es w rule: check_files.induct)
  case (1 env ws language C pending acc es w)
  then show ?case by simp
next
  case (2 env ws language C pending acc f fs es w)
  then show ?case
    by (auto simp: Let_def case_prod_unfold prod_eq_iff split: sum.split option.split)
qed

lemma check_Run_keeps:
  assumes "check_keeps n C"
  shows "pred_option (\<lambda>r. n (snd r) = n w) (check_Run env stat (Some C) opts es w)"
proof -
  have "n w2 = n w1" if "check_files env ws l C p acc fs es w1 = Some (r, w2)" for ws l p acc fs w1 w2 r
    using check_files_keeps [OF assms, of w1 env ws l p acc fs es] that by simp
  then show ?thesis
    using assms by (auto simp: check_Run_def Let_def case_prod_unfold split: sum.split option.split)
qed

section \<open>Opening and closing\<close>

definition good_connection :: "('w \<Rightarrow> int) \<Rightarrow> 'w connection \<Rightarrow> bool" where
  "good_connection n c \<longleftrightarrow> client_keeps n (cn_client c) \<and> check_keeps n (cn_check c)"

text \<open>The result of a start: one more open connection with its client, or an error and none.\<close>

definition opens :: "('w \<Rightarrow> int) \<Rightarrow> 'w \<Rightarrow> 'w connection option \<Rightarrow> 'w \<Rightarrow> bool" where
  "opens n w c w1 \<longleftrightarrow> (case c of None \<Rightarrow> n w1 = n w | Some c \<Rightarrow> n w1 = n w + 1 \<and> good_connection n c)"

definition result_connection :: "'e + 'c \<Rightarrow> 'c option" where
  "result_connection r = (case r of Inl err \<Rightarrow> None | Inr c \<Rightarrow> Some c)"

definition lease_connection :: "'e + 'c option \<times> 'l \<Rightarrow> 'c option" where
  "lease_connection r = (case r of Inl err \<Rightarrow> None | Inr (c, lease) \<Rightarrow> c)"

text \<open>The surroundings count correctly: both ways to start count what they open, a release counts it back.\<close>

definition counted :: "('w \<Rightarrow> int) \<Rightarrow> 'w command_env \<Rightarrow> bool" where
  "counted n env \<longleftrightarrow>
     (\<forall>legacy spec ws w. ce_legacy env = Some legacy \<longrightarrow>
        opens n w (result_connection (fst (legacy spec ws w))) (snd (legacy spec ws w))) \<and>
     (\<forall>factory servers connector ws language w. ce_factory env = Some factory \<longrightarrow> factory servers = Some connector \<longrightarrow>
        opens n w (lease_connection (fst (connector ws language w))) (snd (connector ws language w))) \<and>
     (\<forall>r w. n (ce_release env r w) = n w - 1)"

lemma counted_release [simp]: "counted n env \<Longrightarrow> n (ce_release env r w) = n w - 1"
  by (simp add: counted_def)

lemma connect_opens:
  assumes "counted n env"
    and "connectClientWithMetadata env (Some (newLSPCommandRuntime env servers)) ws spec w = (r, w1)"
  shows "opens n w (map_option fst (result_connection r)) w1"
proof -
  let ?r = "newLSPCommandRuntime env servers"
  let ?windows = "equal_fold (if trim_space (rt_goos ?r) = [] then ce_goos_default env else rt_goos ?r) ''windows''"
  have none: "opens n w None w" by (simp add: opens_def)
  show ?thesis
  proof (cases "ce_legacy env")
    case None
    then show ?thesis
      using assms(2) none
      by (auto simp: connectClientWithMetadata_def newLSPCommandRuntime_def Let_def result_connection_def)
  next
    case (Some f)
    obtain r0 w0 where f: "f spec ws w = (r0, w0)" by fastforce
    have rt: "rt_legacy ?r = Some f" using Some by (simp add: newLSPCommandRuntime_def)
    have started: "opens n w (result_connection r0) w0"
      using assms(1) Some f unfolding counted_def by (metis fst_conv snd_conv)
    show ?thesis
    proof (cases "?windows")
      case True
      then show ?thesis
        using assms(2) rt f started
        by (cases r0) (auto simp: connectClientWithMetadata_def Let_def result_connection_def)
    next
      case False
      show ?thesis
      proof (cases "runtime_connector ?r")
        case (Inl err)
        then show ?thesis
          using assms(2) rt False none by (auto simp: connectClientWithMetadata_def Let_def result_connection_def)
      next
        case (Inr g)
        obtain r1 w' where g: "g ws (ss_Language spec) w = (r1, w')" by fastforce
        have "opens n w (lease_connection r1) w'"
          using assms(1) Inr g unfolding counted_def runtime_connector_def newLSPCommandRuntime_def
          by (auto split: option.splits) (metis fst_conv snd_conv)
        then show ?thesis
          using assms(2) rt False Inr g
          by (auto simp: connectClientWithMetadata_def Let_def result_connection_def lease_connection_def
              split: sum.splits prod.splits option.splits)
      qed
    qed
  qed
qed

text \<open>What follows for the two outcomes of a connection.\<close>

lemma connect_cases:
  assumes "counted n env"
  obtains (failed) err w1 where
      "connectClientWithMetadata env (Some (newLSPCommandRuntime env servers)) ws spec w = (Inl err, w1)" "n w1 = n w"
  | (connected) c rel m w1 where
      "connectClientWithMetadata env (Some (newLSPCommandRuntime env servers)) ws spec w = (Inr (c, rel, m), w1)"
      "n w1 = n w + 1" "client_keeps n (cn_client c)" "check_keeps n (cn_check c)"
proof -
  obtain r w1 where r: "connectClientWithMetadata env (Some (newLSPCommandRuntime env servers)) ws spec w = (r, w1)"
    by fastforce
  show ?thesis
    using connect_opens [OF assms r] r that
    by (cases r) (auto simp: opens_def result_connection_def good_connection_def)
qed

section \<open>The commands\<close>

lemma refs_connection_opens:
  assumes "counted n env" and "refs_connection env servers ws w = (r, w1)"
  shows "case r of Inr (binary, Some (c, rel, hint)) \<Rightarrow> n w1 = n w + 1 \<and> client_keeps n (cn_client c) | _ \<Rightarrow> n w1 = n w"
proof (cases "detectRefsLanguage (ce_lsp env) (ce_visit env) servers ws")
  case (Inl err)
  then show ?thesis using assms(2) by (cases err) (auto simp: refs_connection_def)
next
  case (Inr language)
  show ?thesis
  proof (cases "registry_Lookup default_languages (Some servers) language")
    case (Inl err)
    then show ?thesis using assms(2) Inr by (auto simp: refs_connection_def)
  next
    case (Inr spec)
    show ?thesis
      using assms(2) Inr \<open>detectRefsLanguage _ _ _ _ = _\<close>
      by (cases rule: connect_cases [OF assms(1), of servers ws spec w, case_names failed connected]) (auto simp: refs_connection_def)
  qed
qed

lemma executeRefsCommand_keeps:
  assumes "counted n env"
  shows "keeps n (executeRefsCommand env cancelled cfg opts)"
  unfolding keeps_def
proof
  fix w
  let ?servers = "newLSPRegistry (ce_java env) cfg (rc_WorkspaceRoot opts)"
  obtain r w1 where r: "refs_connection env ?servers (rc_WorkspaceRoot opts) w = (r, w1)" by fastforce
  note opened = refs_connection_opens [OF assms r]
  show "n (snd (executeRefsCommand env cancelled cfg opts w)) = n w"
  proof (cases r)
    case (Inl err)
    then show ?thesis using r opened by (simp add: executeRefsCommand_def)
  next
    case (Inr p)
    obtain binary conn where p: "p = (binary, conn)" by fastforce
    have keep: "keeps n (refs_Find (ce_lsp env)
        (NewRefsEngine (grepFallbackSearcher (ce_lsp env) cancelled) (map_option (\<lambda>(c, r, hint). cn_client c) conn) None) o')" for o'
      using opened Inr p by (intro refs_Find_keeps) (auto simp: NewRefsEngine_def split: option.splits)
    then show ?thesis
      using r opened Inr p assms
      by (auto simp: executeRefsCommand_def Let_def case_prod_unfold split: sum.split option.splits)
  qed
qed

lemma with_server_keeps:
  assumes "counted n env"
    and ask: "\<And>spec c. pred_option (\<lambda>c. client_keeps n (cn_client c)) c \<Longrightarrow> keeps n (ask spec c)"
  shows "keeps n (with_server env cfg ws ask)"
  unfolding keeps_def
proof
  fix w
  let ?servers = "newLSPRegistry (ce_java env) cfg ws"
  have missing: "n (snd (ask spec None w')) = n w'" for spec w' using ask [of None] by simp
  show "n (snd (with_server env cfg ws ask w)) = n w"
  proof (cases "detectRefsLanguage (ce_lsp env) (ce_visit env) ?servers ws")
    case (Inl err)
    then show ?thesis by (simp add: with_server_def)
  next
    case lang: (Inr language)
    show ?thesis
    proof (cases "registry_Lookup default_languages (Some ?servers) language")
      case (Inl err)
      then show ?thesis using lang by (simp add: with_server_def)
    next
      case (Inr spec)
      show ?thesis
      proof (cases rule: connect_cases [OF assms(1), of ?servers ws spec w, case_names failed connected])
        case (failed err w1)
        then show ?thesis
          using lang Inr missing
          by (auto simp: with_server_def Let_def connectClient_def case_prod_unfold split: look_path.split sum.split)
      next
        case (connected c rel m w1)
        moreover have "n (snd (ask spec (Some c) w1)) = n w1" using ask [of "Some c"] connected by simp
        ultimately show ?thesis
          using lang Inr missing assms(1)
          by (auto simp: with_server_def Let_def connectClient_def case_prod_unfold split: look_path.split sum.split)
      qed
    qed
  qed
qed

lemma executeCallersCommand_keeps:
  "counted n env \<Longrightarrow> keeps n (executeCallersCommand env cfg ws filterPath symbol depth)"
  unfolding executeCallersCommand_def [abs_def]
  by (rule with_server_keeps, assumption) (rule callers_Find_keeps, simp add: option.pred_map comp_def)

lemma executeImplementsCommand_keeps:
  "counted n env \<Longrightarrow> keeps n (executeImplementsCommand env cfg ws filterPath symbol)"
  unfolding executeImplementsCommand_def [abs_def]
  by (rule with_server_keeps, assumption) (rule implements_Find_keeps, simp add: option.pred_map comp_def)

lemma run_targets_keeps:
  "check_keeps n C \<Longrightarrow> pred_option (\<lambda>r. n (snd r) = n w) (run_targets env stat C ws language acc ts ess w)"
proof (induction env stat C ws language acc ts ess w rule: run_targets.induct)
  case (1 env stat C ws language acc ess w)
  then show ?case by simp
next
  case (2 env stat C ws language acc t ts ess w)
  let ?opts = "\<lparr>ck_WorkspaceRoot = ws, ck_TargetPath = t, ck_Language = language, ck_MaxFiles = 0\<rparr>"
  show ?case
    using 2 check_Run_keeps [OF 2(2), of w env stat ?opts "next_events ess"]
    by (auto split: option.split sum.split)
qed

lemma check_languages_keeps:
  "counted n env \<Longrightarrow> pred_option (\<lambda>r. n (snd r) = n w) (check_languages env stat servers ws paths acc ls ess w)"
proof (induction env stat servers ws paths acc ls ess w rule: check_languages.induct)
  case (1 env stat servers ws paths acc ess w)
  then show ?case by simp
next
  case (2 env stat servers ws paths acc language ls ess w)
  show ?case
  proof (cases "registry_Lookup default_languages (Some servers) language")
    case (Inl err)
    then show ?thesis by simp
  next
    case (Inr spec)
    show ?thesis
    proof (cases rule: connect_cases [OF 2(2), of servers ws spec w, case_names failed connected])
      case (failed err w1)
      then show ?thesis using Inr by (simp add: connectClient_def split: look_path.split)
    next
      case (connected c rel m w1)
      show ?thesis
      proof (cases "ce_lookPath env (ss_Binary spec) = BinaryFound")
        case True
        have go: "connectClient env (Some (newLSPCommandRuntime env servers)) ws spec w = (Inr (c, rel), w1)"
          using connected by (simp add: connectClient_def)
        note run = run_targets_keeps [OF connected(4), of w1 "ce_lsp env" stat ws language acc "paths language" ess]
        show ?thesis
        proof (cases "run_targets (ce_lsp env) stat (cn_check c) ws language acc (paths language) ess w1")
          case None
          then show ?thesis using Inr True go by simp
        next
          case (Some out)
          then obtain res w2 where out: "run_targets (ce_lsp env) stat (cn_check c) ws language acc (paths language) ess w1 = Some (res, w2)"
            by (cases out) auto
          show ?thesis
          proof (cases res)
            case (Inl err)
            then show ?thesis using out run connected Inr True go 2(2) \<open>registry_Lookup _ _ _ = _\<close> by simp
          next
            case res: (Inr p)
            obtain acc2 ess2 where p: "p = (acc2, ess2)" by fastforce
            show ?thesis
              using out run connected Inr True go 2(2) res p
                2(1) [OF Inr True go [symmetric] refl refl out refl res p [symmetric] 2(2)] by simp
          qed
        qed
      next
        case False
        then show ?thesis using Inr by (auto split: look_path.split)
      qed
    qed
  qed
qed

lemma executeCheckCommand_keeps:
  "counted n env \<Longrightarrow> pred_option (\<lambda>r. n (snd r) = n w) (executeCheckCommand env stat cfg ws targets ess w)"
  by (simp add: executeCheckCommand_def Let_def check_languages_keeps split: sum.split)

lemma probe_loop_keeps:
  "client_keeps n c \<Longrightarrow> pred_option (\<lambda>r. n (snd r) = n w) (probe_loop c t es w)"
proof (induction c t es w rule: probe_loop.induct)
  case (1 c t es w)
  obtain r w1 where r: "lc_symbols c ''*'' w = (r, w1)" by fastforce
  have "n w1 = n w" using client_keepsD(1) [OF 1(2), THEN keepsD, of "''*''" w] r by simp
  then show ?case
    using 1 r by (subst probe_loop.simps) (auto split: sum.split list.split warmup_event.split)
qed

lemma executeLSPWarmup_keeps:
  assumes "counted n env"
  shows "pred_option (\<lambda>r. n (snd r) = n w) (executeLSPWarmupWithRegistry env servers ws language cfg es w)"
proof (cases "registry_Lookup default_languages (Some servers) language")
  case (Inl err)
  then show ?thesis by (simp add: executeLSPWarmupWithRegistry_def)
next
  case (Inr spec)
  show ?thesis
  proof (cases rule: connect_cases [OF assms, of servers ws spec w, case_names failed connected])
    case (failed err w1)
    then show ?thesis using Inr by (simp add: executeLSPWarmupWithRegistry_def)
  next
    case (connected c rel m w1)
    then show ?thesis
      using Inr assms probe_loop_keeps [OF connected(3), of w1 "resolvedWarmupProbeTimeout cfg" es]
      by (auto simp: executeLSPWarmupWithRegistry_def split: option.split)
  qed
qed


text \<open>A server that refuses every request, and starters and a release that count on a number.\<close>

definition refusing_client :: "int lsp_client" where
  "refusing_client =
     \<lparr>lc_symbols = (\<lambda>q w. (Inl ''refused'', w)), lc_references = (\<lambda>u p d w. (Inl ''refused'', w)),
      lc_prepareCalls = (\<lambda>u p w. (Inl ''refused'', w)), lc_incomingCalls = (\<lambda>i w. (Inl ''refused'', w)),
      lc_prepareTypes = (\<lambda>u p w. (Inl ''refused'', w)), lc_subtypes = (\<lambda>i w. (Inl ''refused'', w)),
      lc_implementation = (\<lambda>u p w. (Inl ''refused'', w))\<rparr>"

definition refused_connection :: "int connection" where
  "refused_connection =
     \<lparr>cn_client = refusing_client,
      cn_check = \<lparr>cc_notify = (\<lambda>m w. (Some ''refused'', w)), cc_subscribe = (\<lambda>w. (None, w)), cc_unsubscribe = (\<lambda>w. w)\<rparr>\<rparr>"

definition counting_env :: "int command_env" where
  "counting_env =
     \<lparr>ce_lsp = demo_lsp_env, ce_config = demo_cenv, ce_java = demo_java_env, ce_goos = ''windows'', ce_goos_default = ''linux'',
      ce_factory = None, ce_legacy = Some (\<lambda>spec ws w. (Inr refused_connection, w + 1)),
      ce_lookPath = (\<lambda>b. BinaryFound), ce_elapsed = 0, ce_release = (\<lambda>r w. w - 1), ce_visit = (\<lambda>ls. ls),
      ce_not_found = (\<lambda>e. False)\<rparr>"


end
