(* ===== verification/CsIndex.thy ===== *)
theory CsIndex
  imports CsServers Indexer Searcher
begin

text \<open>
  The commands \<open>index\<close>, \<open>search\<close>, \<open>status\<close> and \<open>clear\<close> of \<open>cmd/cs/main.go\<close>: how they put the store, the
  embedding client, the splitter, the indexer and the searcher together. A command opens its own connection
  to the vector store; closing it at the end and the log are left out.
\<close>

section \<open>Errors of the network\<close>

text \<open>
  What the handlers look for in the chain of an error: \<open>context.DeadlineExceeded\<close>, a \<open>net.Error\<close> that is a
  timeout, a \<open>url.Error\<close>, a \<open>net.OpError\<close>. Wrapping with \<open>%w\<close> keeps them.
\<close>

record net_error =
  ne_text :: string
  ne_deadline :: bool
  ne_net_timeout :: bool
  ne_url :: bool
  ne_op :: bool

definition isTimeoutError :: "net_error \<Rightarrow> bool" where
  "isTimeoutError e \<longleftrightarrow> ne_deadline e \<or> ne_net_timeout e"

definition isEmbedderConnectError :: "net_error option \<Rightarrow> bool" where
  "isEmbedderConnectError err =
     (case err of None \<Rightarrow> False | Some e \<Rightarrow> isTimeoutError e \<or> ne_url e \<or> ne_op e)"

definition interactiveNetworkTimeout :: int where "interactiveNetworkTimeout = 1 * 1000000000"
definition interactiveSearchTimeout :: int where "interactiveSearchTimeout = 15 * 1000000000"

text \<open>The format \<open>%s\<close> of a duration of whole seconds below a minute.\<close>

definition seconds_str :: "int \<Rightarrow> string" where
  "seconds_str d = int_str (d div 1000000000) @ ''s''"

definition wrap_text :: "string \<Rightarrow> net_error \<Rightarrow> net_error" where
  "wrap_text msg e = e\<lparr>ne_text := msg @ '': '' @ ne_text e\<rparr>"

definition wrapTimeoutError :: "string \<Rightarrow> int \<Rightarrow> net_error \<Rightarrow> net_error" where
  "wrapTimeoutError action timeout e =
     (if \<not> isTimeoutError e then e
      else wrap_text (action @ '' timed out after '' @ seconds_str timeout @
        ''; network access may be blocked in this sandbox or the configured service may be unreachable'') e)"

definition wrapVectorStoreConnectErrorForConfig :: "Config \<Rightarrow> net_error option \<Rightarrow> net_error option" where
  "wrapVectorStoreConnectErrorForConfig cfg err =
     map_option (wrap_text (''cs: Milvus not reachable at '' @ db_Address (cf_DB cfg) @
       ''. Set CODESIGHT_DB_ADDRESS or start Milvus'')) err"

definition wrapEmbedderConnectErrorForConfig :: "Config \<Rightarrow> net_error option \<Rightarrow> net_error option" where
  "wrapEmbedderConnectErrorForConfig cfg err =
     (if \<not> isEmbedderConnectError err then err
      else map_option (wrap_text (''cs: Ollama not reachable at '' @ emb_OllamaHost (cf_Embedding cfg) @ '' (model '' @
        emb_Model (cf_Embedding cfg) @ ''). Set CODESIGHT_OLLAMA_HOST or start Ollama'')) err)"

section \<open>The surroundings\<close>

text \<open>
  The services (a new client of Milvus and its operations, the two requests to Ollama), the repository
  (\<open>git rev-parse HEAD\<close> in a directory), the parser, the files and the clock of the run; \<open>xc_kind\<close> and
  \<open>xc_search_kind\<close> say what the chain of an error holds, \<open>xc_time\<close> formats a time.
\<close>

record ('m, 'w) index_cmd_env =
  xc_config :: config_env
  xc_new_client :: "string \<Rightarrow> string option \<Rightarrow> go_error + 'm"
  xc_milvus :: "'m milvus"
  xc_server :: "'w embed_server"
  xc_show :: "'w \<Rightarrow> (string \<times> rat option) list http_reply \<times> 'w"
  xc_git :: "string \<Rightarrow> string option"
  xc_parser :: ts_parser
  xc_run :: index_env
  xc_kind :: "go_error \<Rightarrow> net_error"
  xc_search_kind :: "search_error \<Rightarrow> net_error"
  xc_time :: "int \<Rightarrow> string"

datatype index_cmd_error =
    UnsupportedDB string | Unreachable net_error | CheckingCollection string | ReadingMetadata string
  | SearchRun net_error | ClearRun string

definition newStore :: "Config \<Rightarrow> index_cmd_error + MilvusStore" where
  "newStore cfg =
     (if db_Type (cf_DB cfg) = ''milvus'' then Inr (NewMilvusStore (db_Address (cf_DB cfg)) (db_Token (cf_DB cfg)))
      else Inl (UnsupportedDB (db_Type (cf_DB cfg))))"

definition newEmbedder :: "Config \<Rightarrow> OllamaClient" where
  "newEmbedder cfg = NewOllamaClient (emb_OllamaHost (cf_Embedding cfg)) (emb_Model (cf_Embedding cfg)) []"

text \<open>Making the store and connecting it, as all four commands begin.\<close>

definition open_store :: "('m, 'w) index_cmd_env \<Rightarrow> Config \<Rightarrow> index_cmd_error + 'm store_state" where
  "open_store env cfg =
     (case newStore cfg of
        Inl err \<Rightarrow> Inl err
      | Inr store \<Rightarrow>
          (case Connect (xc_new_client env) (xc_milvus env) store of
             (None, Some m) \<Rightarrow> Inr (store, m)
           | (err, m) \<Rightarrow>
               Inl (Unreachable (the (wrapVectorStoreConnectErrorForConfig cfg
                 (Some (wrapTimeoutError ''connecting to the vector store'' interactiveNetworkTimeout
                   (xc_kind env (case err of None \<Rightarrow> [] | Some e \<Rightarrow> e)))))))))"

section \<open>The index command\<close>

text \<open>The smaller of two limits, where a number that is not positive is none.\<close>

definition capMaxInputChars :: "int \<Rightarrow> int \<Rightarrow> int" where
  "capMaxInputChars base cap =
     (if base \<le> 0 then cap else if cap \<le> 0 then base else if cap < base then cap else base)"

definition command_path :: "config_env \<Rightarrow> string list \<Rightarrow> string" where
  "command_path cenv args = resolve_project_path cenv (case args of [] \<Rightarrow> ''.'' | a # rest \<Rightarrow> a)"

definition detectGitCommit :: "('m, 'w) index_cmd_env \<Rightarrow> string \<Rightarrow> string option" where
  "detectGitCommit env path =
     (case xc_git env (resolve_project_path (xc_config env) path) of
        None \<Rightarrow> None
      | Some out \<Rightarrow> let commit = trim_space out in if commit = [] then None else Some commit)"

definition index_commit :: "('m, 'w) index_cmd_env \<Rightarrow> string \<Rightarrow> string \<Rightarrow> string" where
  "index_commit env flagCommit path =
     (let commit = trim_space flagCommit
      in if commit \<noteq> [] then commit else case detectGitCommit env path of None \<Rightarrow> [] | Some c \<Rightarrow> c)"

text \<open>
  The embedding client with its limit: the context length of the model if the server tells it, the default
  otherwise, and at most what the configuration says. A failure to find it is only logged.
\<close>

definition limited_embedder :: "('m, 'w) index_cmd_env \<Rightarrow> Config \<Rightarrow> 'w \<Rightarrow> OllamaClient \<times> int \<times> 'w" where
  "limited_embedder env cfg w =
     (case DetectContextLength (xc_show env) (newEmbedder cfg) w of
        (r, oc, w1) \<Rightarrow>
          let effectiveMaxInputChars = capMaxInputChars (MaxInputChars oc) (emb_MaxInputChars (cf_Embedding cfg))
          in (SetMaxInputChars effectiveMaxInputChars oc, effectiveMaxInputChars, w1))"

text \<open>The run's splitter cuts chunks to the limit of the embedding client.\<close>

definition run_env :: "('m, 'w) index_cmd_env \<Rightarrow> int \<Rightarrow> index_env" where
  "run_env env n =
     (xc_run env)\<lparr>ie_split := (\<lambda>code language path. Inr (treesitter_Split (xc_parser env)
        (NewTreeSitterSplitter [WithMaxChunkChars n]) code language path))\<rparr>"

record index_flags =
  xf_Branch :: string
  xf_Commit :: string
  xf_Force :: bool

definition run_options :: "('m, 'w) index_cmd_env \<Rightarrow> Config \<Rightarrow> index_flags \<Rightarrow> string \<Rightarrow> IndexOptions" where
  "run_options env cfg flags path =
     \<lparr>io_Path = path, io_CollectionName = db_CollectionName (cf_DB cfg), io_Branch = xf_Branch flags,
      io_CommitSHA = index_commit env (xf_Commit flags) path, io_Force = xf_Force flags, io_Walk = None\<rparr>"

text \<open>
  The result is the outcome of the run with the state of the store after it, or the error before it. The
  warmup in the background, whose outcome is only logged, is \<open>executeIndexWarmup\<close> below.
\<close>

definition runIndex ::
  "('m, 'w) index_cmd_env \<Rightarrow> Config \<Rightarrow> index_flags \<Rightarrow> string list \<Rightarrow> 'w \<Rightarrow>
   index_cmd_error + index_outcome \<times> 'm store_state \<times> 'w" where
  "runIndex env cfg flags args w =
     (let path = command_path (xc_config env) args; opts = run_options env cfg flags path
      in case open_store env cfg of
           Inl err \<Rightarrow> Inl err
         | Inr s \<Rightarrow>
             (case limited_embedder env cfg w of
                (oc, n, w1) \<Rightarrow>
                  (case Index (run_env env n) (ollama_provider (xc_server env)) (milvus_store (ie_sha256 (xc_run env)) (xc_milvus env))
                          opts (oc, w1) s of
                     (ended, (oc2, w2), s2) \<Rightarrow> Inr (ended, s2, w2))))"

text \<open>The warmup of \<open>index.warm_lsp\<close>, only for a workspace of Java.\<close>

definition shouldWarmLSPOnIndex :: "Config option \<Rightarrow> bool" where
  "shouldWarmLSPOnIndex cfg = (case cfg of None \<Rightarrow> False | Some c \<Rightarrow> cf_WarmLSP c)"

definition executeLSPWarmup ::
  "'w command_env \<Rightarrow> Config \<Rightarrow> string \<Rightarrow> string \<Rightarrow> Config option \<Rightarrow> warmup_event list \<Rightarrow> 'w \<Rightarrow> (command_error option \<times> 'w) option" where
  "executeLSPWarmup env current workspaceRoot language cfg es w =
     executeLSPWarmupWithRegistry env (newLSPRegistry (ce_java env) current workspaceRoot) workspaceRoot language cfg es w"

definition executeIndexWarmup ::
  "'w command_env \<Rightarrow> runtime_state \<Rightarrow> Config option \<Rightarrow> string \<Rightarrow> warmup_event list \<Rightarrow> 'w \<Rightarrow> (command_error option \<times> 'w) option" where
  "executeIndexWarmup env rs cfg workspaceRoot es w =
     (if \<not> shouldWarmLSPOnIndex cfg then Some (None, w)
      else case detectRefsLanguage (ce_lsp env) (ce_visit env) (newLSPRegistry (ce_java env) (currentConfig rs) workspaceRoot) workspaceRoot of
             Inl NoSupportedLanguage \<Rightarrow> Some (None, w)
           | Inl err \<Rightarrow> Some (Some (CommandDetect err), w)
           | Inr language \<Rightarrow>
               if language \<noteq> ''java'' then Some (None, w)
               else executeLSPWarmup env (currentConfig rs) workspaceRoot language (rs_config rs) es w)"

section \<open>The search command\<close>

text \<open>The extensions of the flag: separated by commas, with a dot in front.\<close>

definition parse_extensions :: "string \<Rightarrow> string list" where
  "parse_extensions flagExt =
     (if flagExt = [] then []
      else List.map_filter
        (\<lambda>e. let ext = trim_space e
             in if ext = [] then None else Some (if has_prefix ext ''.'' then ext else CHR ''.'' # ext))
        (split_on (CHR '','') flagExt))"

record search_flags =
  sf_Path :: string
  sf_Limit :: int
  sf_Ext :: string

text \<open>The result is what is printed; \<open>None\<close> is a panic of the search.\<close>

definition runSearch ::
  "('m, 'w) index_cmd_env \<Rightarrow> Config \<Rightarrow> search_flags \<Rightarrow> string list \<Rightarrow> 'w \<Rightarrow> (index_cmd_error + string) option" where
  "runSearch env cfg flags args w =
     (case open_store env cfg of
        Inl err \<Rightarrow> Some (Inl err)
      | Inr s \<Rightarrow>
          (case Search (ie_sha256 (xc_run env)) (ie_read_file (xc_run env)) (ie_cwd (xc_run env))
                  (ollama_provider (xc_server env)) (milvus_store (ie_sha256 (xc_run env)) (xc_milvus env))
                  \<lparr>so_Path = resolve_project_path (xc_config env) (sf_Path flags), so_CollectionName = db_CollectionName (cf_DB cfg),
                   so_Query = join '' '' args, so_Limit = sf_Limit flags, so_Extensions = parse_extensions (sf_Ext flags)\<rparr>
                  (newEmbedder cfg, w) s of
             (None, r) \<Rightarrow> None
           | (Some (Inl err), r) \<Rightarrow>
               Some (Inl (SearchRun (the (wrapEmbedderConnectErrorForConfig cfg
                 (Some (wrapTimeoutError ''running search'' interactiveSearchTimeout (xc_search_kind env err)))))))
           | (Some (Inr output), r) \<Rightarrow> Some (Inr (FormatResults (Some output)))))"

section \<open>The status and clear commands\<close>

definition status_report :: "('m, 'w) index_cmd_env \<Rightarrow> string \<Rightarrow> string \<Rightarrow> IndexMetadata \<Rightarrow> string list" where
  "status_report env collection path meta =
     (let absPath = resolve_project_path (xc_config env) path;
          currentCommit = (case detectGitCommit env path of None \<Rightarrow> [] | Some c \<Rightarrow> c);
          matcher = NewMatcher (ie_sha256 (xc_run env)) (ie_read_file (xc_run env)) (ie_cwd (xc_run env)) absPath []
      in [''Collection: '' @ collection,
          ''Status:     '' @ StalenessInfo (ie_now (xc_run env)) (Some meta) currentCommit (mt_fingerprint matcher),
          ''Branch:     '' @ im_Branch meta, ''Commit:     '' @ im_CommitSHA meta,
          ''Indexed:    '' @ xc_time env (im_IndexedAt meta),
          ''Files:      '' @ int_str (im_FileCount meta), ''Chunks:     '' @ int_str (im_ChunkCount meta)])"

definition runStatus :: "('m, 'w) index_cmd_env \<Rightarrow> Config \<Rightarrow> string list \<Rightarrow> index_cmd_error + string list" where
  "runStatus env cfg args =
     (let path = (case args of [] \<Rightarrow> ''.'' | a # rest \<Rightarrow> a);
          S = milvus_store (ie_sha256 (xc_run env)) (xc_milvus env)
      in case open_store env cfg of
           Inl err \<Rightarrow> Inl err
         | Inr s \<Rightarrow>
             (let absPath = resolve_project_path (xc_config env) path;
                  collection = ResolveCollectionName (ie_sha256 (xc_run env)) absPath (db_CollectionName (cf_DB cfg))
              in case st_CollectionExists S collection s of
                   (Inl e, s1) \<Rightarrow>
                     Inl (CheckingCollection (ne_text (wrapTimeoutError ''checking index status'' interactiveNetworkTimeout (xc_kind env e))))
                 | (Inr False, s1) \<Rightarrow> Inr [''Status: not indexed'']
                 | (Inr True, s1) \<Rightarrow>
                     (case st_GetMetadata S collection s1 of
                        (Inl e, s2) \<Rightarrow>
                          Inl (ReadingMetadata (ne_text (wrapTimeoutError ''reading index metadata'' interactiveNetworkTimeout (xc_kind env e))))
                      | (Inr None, s2) \<Rightarrow> Inr [''Status: indexed (no metadata)'']
                      | (Inr (Some meta), s2) \<Rightarrow> Inr (status_report env collection path meta))))"

text \<open>The line printed by \<open>clear\<close>, and the state of the store. The errors of the calls are wrapped twice.\<close>

definition clear_error :: "('m, 'w) index_cmd_env \<Rightarrow> index_error \<Rightarrow> string" where
  "clear_error env err =
     (case err of
        StoreFailed what e \<Rightarrow>
          what @ '': '' @ ne_text (wrapTimeoutError
            (if what = ''checking collection'' then ''checking whether an index exists'' else ''clearing the index'')
            interactiveNetworkTimeout (xc_kind env e))
      | _ \<Rightarrow> [])"

definition runClear :: "('m, 'w) index_cmd_env \<Rightarrow> Config \<Rightarrow> string list \<Rightarrow> index_cmd_error + string \<times> 'm store_state" where
  "runClear env cfg args =
     (let absPath = command_path (xc_config env) args; sha256 = ie_sha256 (xc_run env); S = milvus_store sha256 (xc_milvus env);
          collection = ResolveCollectionName sha256 absPath (db_CollectionName (cf_DB cfg))
      in case open_store env cfg of
           Inl err \<Rightarrow> Inl err
         | Inr s \<Rightarrow>
             (case clear_index S collection s of
                (Some err, s1) \<Rightarrow> Inl (ClearRun (clear_error env err))
              | (None, s1) \<Rightarrow>
                  Inr (if fst (st_CollectionExists S collection s) = Inr False then ''No index found.''
                       else ''Cleared index for '' @ absPath, s1)))"

section \<open>Limits and extensions\<close>

lemma capMaxInputChars_min:
  "0 < base \<Longrightarrow> capMaxInputChars base cap = (if 0 < cap then min base cap else base)"
  by (auto simp: capMaxInputChars_def)

lemma limited_embedder_limit:
  assumes "limited_embedder env cfg w = (oc, n, w')"
  shows "0 < n \<and> oc_maxInputChars oc = n \<and> (0 < emb_MaxInputChars (cf_Embedding cfg) \<longrightarrow> n \<le> emb_MaxInputChars (cf_Embedding cfg))"
proof -
  obtain r c w1 where d: "DetectContextLength (xc_show env) (newEmbedder cfg) w = (r, c, w1)" by (cases "DetectContextLength (xc_show env) (newEmbedder cfg) w") auto
  have "0 < MaxInputChars c" by (simp add: MaxInputChars_def defaultMaxInputChars_def)
  then show ?thesis
    using assms d by (auto simp: limited_embedder_def Let_def capMaxInputChars_min SetMaxInputChars_def)
qed

lemma parse_extensions_dotted: "e \<in> set (parse_extensions s) \<Longrightarrow> \<exists>r. e = CHR ''.'' # r"
  by (auto simp: parse_extensions_def List.map_filter_def Let_def has_prefix_iff split: if_splits)

section \<open>What the status says after a run\<close>

lemma run_fresh:
  assumes "meta = Some (run_meta env opts)" "commit = io_CommitSHA opts" "fp = mt_fingerprint (index_matcher env opts)"
    and "json_string commit = commit" "json_string fp = fp" "trim_space commit \<noteq> []" "trim_space fp \<noteq> []"
  shows "\<not> IsStale meta commit fp"
  using assms by (simp add: not_stale_iff run_meta_def json_metadata_def run_metadata_def)


text \<open>A first run on an empty service in memory, and the status on a new connection an hour later.\<close>

definition index_demo :: "memory \<Rightarrow> int \<Rightarrow> (memory, unit) index_cmd_env" where
  "index_demo m now =
     \<lparr>xc_config = demo_cenv\<lparr>ce_cwd := ''/w''\<rparr>, xc_new_client = (\<lambda>a k. Inr m), xc_milvus = mem_milvus False,
      xc_server = (\<lambda>ts w. (Reply 200 [] (Inr (map (\<lambda>t. [1]) ts)), w)), xc_show = (\<lambda>w. (NoReply ''down'', w)),
      xc_git = (\<lambda>p. Some (''abc'' @ [newline])), xc_parser = (\<lambda>l c. None), xc_run = demo_env\<lparr>ie_now := now\<rparr>,
      xc_kind = (\<lambda>e. \<lparr>ne_text = e, ne_deadline = False, ne_net_timeout = False, ne_url = False, ne_op = False\<rparr>),
      xc_search_kind = (\<lambda>e. \<lparr>ne_text = [], ne_deadline = False, ne_net_timeout = False, ne_url = False, ne_op = False\<rparr>),
      xc_time = (\<lambda>t. [])\<rparr>"

definition demo_memory :: memory where
  "demo_memory = \<lparr>mem_rows = (\<lambda>n. None), mem_faults = []\<rparr>"

definition demo_flags :: index_flags where
  "demo_flags = \<lparr>xf_Branch = ''b'', xf_Commit = [], xf_Force = False\<rparr>"

definition demo_indexed :: "memory store_state" where
  "demo_indexed = (case runIndex (index_demo demo_memory 0) Defaults demo_flags [] () of Inr (r, s, w) \<Rightarrow> s)"

lemma index_demo_path: "command_path (xc_config (index_demo demo_memory 0)) [] = ''/w''"
  by code_simp

lemma index_demo_returns:
  "case runIndex (index_demo demo_memory 0) Defaults demo_flags [] () of Inr (r, s, w) \<Rightarrow> r = Returned None | _ \<Rightarrow> False"
  by code_simp

lemma index_demo_reports:
  "case runStatus (index_demo (snd demo_indexed) 3600000000000) Defaults [] of
     Inr ls \<Rightarrow> ls \<noteq> [''Status: indexed (no metadata)''] | _ \<Rightarrow> False"
  by code_simp

lemma index_demo_faults: "mem_faults (snd demo_indexed) = []"
  by code_simp

lemma index_demo_facts:
  "detectGitCommit (index_demo m t) ''/w'' = Some ''abc''" "json_string ''abc'' = ''abc''"
  "mt_fingerprint (NewMatcher (\<lambda>t. ''h'') (ie_read_file demo_env) ''/w'' ''/w'' []) = ''h''"
  "json_string ''h'' = ''h''" "trim_space ''h'' \<noteq> []"
  "path_abs ''/w'' ''/w'' = ''/w''" "resolve_project_path (demo_cenv\<lparr>ce_cwd := ''/w''\<rparr>) ''/w'' = ''/w''" 
  by code_simp+

lemma index_demo_fields:
  "ie_sha256 (xc_run (index_demo m t)) = (\<lambda>t. ''h'')" "ie_read_file (xc_run (index_demo m t)) = ie_read_file demo_env"
  "ie_cwd (xc_run (index_demo m t)) = ''/w''" "xc_config (index_demo m t) = demo_cenv\<lparr>ce_cwd := ''/w''\<rparr>"
  "xc_milvus (index_demo m t) = mem_milvus False" "trim_space (xf_Commit demo_flags) = []"
  by (simp_all add: index_demo_def demo_env_def demo_flags_def)

lemma index_demo_run: "\<exists>w'. runIndex (index_demo demo_memory 0) Defaults demo_flags [] () = Inr (Returned None, demo_indexed, w')"
  using index_demo_returns unfolding demo_indexed_def
  by (cases "runIndex (index_demo demo_memory 0) Defaults demo_flags [] ()") auto

lemma index_demo_opens:
  "open_store (index_demo m now) Defaults = Inr (NewMilvusStore (db_Address (cf_DB Defaults)) (db_Token (cf_DB Defaults)), m)"
  if "mem_faults m = []"
  using that
  by (simp add: open_store_def newStore_def Defaults_def index_demo_def Connect_def mem_milvus_def mem_ask_def mem_call_def)


end
