(* ===== verification/CsQuery.thy ===== *)
theory CsQuery
  imports CsConnections CsIndex EngineAdapters EngineRender ListSymbols
begin

text \<open>
  The commands \<open>query\<close>, \<open>extract\<close> and \<open>list\<close>: which providers the query engine gets, and the paths and
  checks of the other two.
\<close>

section \<open>Extracting and listing\<close>

text \<open>
  The surroundings that the two share: the parser, the files, the tree below a path (\<open>os.Stat\<close>), and the
  matcher and the project root for a path.
\<close>

record symbol_env =
  sy_parser :: ts_parser
  sy_read :: "string \<Rightarrow> string option"
  sy_stat :: "string \<Rightarrow> fs_node option"
  sy_matcher :: "string \<Rightarrow> Matcher"
  sy_project_root :: "string \<Rightarrow> string option"

definition runExtract :: "config_env \<Rightarrow> symbol_env \<Rightarrow> string \<Rightarrow> string \<Rightarrow> string \<Rightarrow> extract_error + extract_output" where
  "runExtract cenv env file_flag symbol format =
     Extract (sy_parser env) (sy_read env) (sy_stat env) (sy_matcher env) (sy_project_root env) (ce_cwd cenv)
       (resolve_project_path cenv file_flag) symbol format"

datatype list_command_result =
  SymbolsListed ListResult | SummaryListed OutputFormat ListSummaryResult

datatype list_command_error = ListFailed extract_error | SummaryStat string | SummaryNotDir

definition runList ::
  "config_env \<Rightarrow> symbol_env \<Rightarrow> string \<Rightarrow> string \<Rightarrow> string \<Rightarrow> string \<Rightarrow> bool \<Rightarrow> list_command_error + list_command_result" where
  "runList cenv env file_flag language format symbolType summary =
     (let targetPath = resolve_project_path cenv file_flag
      in if summary
         then (case sy_stat env targetPath of
                 None \<Rightarrow> Inl (SummaryStat targetPath)
               | Some (FsDir entries) \<Rightarrow>
                   (case ListSymbolsSummary (sy_parser env) (sy_read env) (sy_stat env) (sy_matcher env) (ce_cwd cenv)
                           targetPath language format symbolType of
                      Inl err \<Rightarrow> Inl (ListFailed err) | Inr (fmt, result) \<Rightarrow> Inr (SummaryListed fmt result))
               | Some _ \<Rightarrow> Inl SummaryNotDir)
         else (case ListSymbols (sy_parser env) (sy_read env) (sy_stat env) (sy_matcher env) (sy_project_root env) (ce_cwd cenv)
                      targetPath language format symbolType of
                 Inl err \<Rightarrow> Inl (ListFailed err) | Inr result \<Rightarrow> Inr (SymbolsListed result)))"

section \<open>The query command\<close>

text \<open>
  The client for the query, if the server of the workspace's language is installed and can be connected to;
  any failure leaves the query without it.
\<close>

definition query_connection ::
  "'w command_env \<Rightarrow> registry_entries \<Rightarrow> string \<Rightarrow> 'w \<Rightarrow> ('w connection \<times> release) option \<times> 'w" where
  "query_connection env servers workspaceRoot w =
     (case detectRefsLanguage (ce_lsp env) (ce_visit env) servers workspaceRoot of
        Inl err \<Rightarrow> (None, w)
      | Inr language \<Rightarrow>
          (case registry_Lookup default_languages (Some servers) language of
             Inl err \<Rightarrow> (None, w)
           | Inr spec \<Rightarrow>
               if ce_lookPath env (ss_Binary spec) \<noteq> BinaryFound then (None, w)
               else (case connectClient env (Some (newLSPCommandRuntime env servers)) workspaceRoot spec w of
                       (Inl err, w1) \<Rightarrow> (None, w1) | (Inr conn, w1) \<Rightarrow> (Some conn, w1))))"

text \<open>
  A nil \<open>*Client\<close>, which the references engine gets when there is no connection: every request fails with
  ``client is nil'' and does nothing.
\<close>

definition nil_client :: "'w lsp_client" where
  "nil_client =
     \<lparr>lc_symbols = (\<lambda>q w. (Inl ''client is nil'', w)), lc_references = (\<lambda>u p d w. (Inl ''client is nil'', w)),
      lc_prepareCalls = (\<lambda>u p w. (Inl ''client is nil'', w)), lc_incomingCalls = (\<lambda>i w. (Inl ''client is nil'', w)),
      lc_prepareTypes = (\<lambda>u p w. (Inl ''client is nil'', w)), lc_subtypes = (\<lambda>i w. (Inl ''client is nil'', w)),
      lc_implementation = (\<lambda>u p w. (Inl ''client is nil'', w))\<rparr>"

text \<open>
  The engine of the query. The providers on the server are asked concurrently over one connection; each of
  them is asked here in the state \<open>w\<close> in which the query begins. \<open>describe\<close> is the text of an error;
  \<open>search\<close> is the semantic search, if the vector store can be connected to.
\<close>

definition described :: "(lsp_error \<Rightarrow> string) \<Rightarrow> (lsp_error + 'a) \<times> 'w \<Rightarrow> 'a go_result" where
  "described describe r = (case fst r of Inl err \<Rightarrow> Inl (describe err) | Inr x \<Rightarrow> Inr x)"

definition query_engine ::
  "lsp_env \<Rightarrow> (string \<Rightarrow> bool) \<Rightarrow> (lsp_error \<Rightarrow> string) \<Rightarrow> string \<Rightarrow> 'w lsp_client option \<Rightarrow>
   (string \<Rightarrow> string \<Rightarrow> SymDefinition option list go_result) \<Rightarrow>
   (string \<Rightarrow> string \<Rightarrow> int \<Rightarrow> SymReference list go_result) option \<Rightarrow> 'w \<Rightarrow> Engine" where
  "query_engine env cancelled describe workspaceRoot client extract search w =
     (let refs = NewRefsEngine (grepFallbackSearcher env cancelled) (Some (case client of None \<Rightarrow> nil_client | Some c \<Rightarrow> c)) None
      in \<lparr>eng_WorkspaceRoot = workspaceRoot,
          eng_Refs = Some (\<lambda>ws fp sym kind. described describe (adapter_FindRefs env refs [] ws fp sym kind w)),
          eng_Callers = map_option (\<lambda>c ws fp sym depth. described describe (adapter_FindCallers env (Some c) ws fp sym depth w)) client,
          eng_Implements = map_option (\<lambda>c ws fp sym. described describe (adapter_FindImplementations env (Some c) ws fp sym w)) client,
          eng_Extractor = Some extract, eng_Search = search\<rparr>)"

text \<open>
  The semantic search over a store and an embedding client in their states at the start. A panic of the
  embedding client, which would end the program, counts as an error of the search.
\<close>

definition query_search ::
  "('m, 'v) index_cmd_env \<Rightarrow> Config \<Rightarrow> (search_error \<Rightarrow> string) \<Rightarrow> 'v \<Rightarrow>
   (string \<Rightarrow> string \<Rightarrow> int \<Rightarrow> SymReference list go_result) option" where
  "query_search xenv cfg describe_search v =
     (case newStore cfg of
        Inl err \<Rightarrow> None
      | Inr store \<Rightarrow>
          (case Connect (xc_new_client xenv) (xc_milvus xenv) store of
             (None, Some m) \<Rightarrow>
               Some (\<lambda>ws query limit.
                 case fst (SemanticSearch (ie_sha256 (xc_run xenv)) (ie_read_file (xc_run xenv)) (ie_cwd (xc_run xenv))
                        (ollama_provider (xc_server xenv)) (milvus_store (ie_sha256 (xc_run xenv)) (xc_milvus xenv))
                        (db_CollectionName (cf_DB cfg)) ws query limit (newEmbedder cfg, v) (store, m)) of
                   None \<Rightarrow> Inl ''panic'' | Some (Inl err) \<Rightarrow> Inl (describe_search err) | Some (Inr refs) \<Rightarrow> Inr refs)
           | _ \<Rightarrow> None))"

text \<open>The command: \<open>sched\<close> is the order in which the engine's goroutines end; the connection is released at the end.\<close>

definition executeQueryCommand ::
  "'w command_env \<Rightarrow> ('m, 'v) index_cmd_env \<Rightarrow> query_env \<Rightarrow> fetch_task list \<Rightarrow> (string \<Rightarrow> bool) \<Rightarrow> (lsp_error \<Rightarrow> string) \<Rightarrow>
   (search_error \<Rightarrow> string) \<Rightarrow> (string \<Rightarrow> string \<Rightarrow> SymDefinition option list go_result) \<Rightarrow> runtime_state \<Rightarrow> QueryOptions \<Rightarrow>
   bool \<Rightarrow> 'v \<Rightarrow> 'w \<Rightarrow> string \<times> 'w" where
  "executeQueryCommand env xenv qenv sched cancelled describe describe_search extract rs opts verbose v w =
     (let cfg = currentConfig rs;
          workspaceRoot = resolvedProjectRootForTarget (ce_config env) rs (currentTargetDir (ce_config env) rs);
          servers = newLSPRegistry (ce_java env) cfg workspaceRoot
      in case query_connection env servers workspaceRoot w of
           (conn, w1) \<Rightarrow>
             let e = query_engine (ce_lsp env) cancelled describe workspaceRoot (map_option (\<lambda>(c, r). cn_client c) conn) extract
                       (query_search xenv cfg describe_search v) w1;
                 result = Query sched qenv e (opts\<lparr>opt_Depth := (if opt_Depth opts \<le> 0 then 1 else opt_Depth opts)\<rparr>)
             in (RenderMarkdown (Some result) verbose, case conn of None \<Rightarrow> w1 | Some (c, r) \<Rightarrow> ce_release env r w1))"

section \<open>Without a server\<close>

text \<open>A nil client changes nothing: the references are those of an engine without a client.\<close>

lemma nil_client_refs:
  "FindReferencesRaw env (NewRefsEngine fb (Some nil_client) None) opts w =
   FindReferencesRaw env (NewRefsEngine fb None None) opts w"
  by (simp add: FindReferencesRaw_def findRefsRawLSP_def references_lookup_def NewRefsEngine_def nil_client_def
      falls_back_def Let_def split: sum.split)

lemma query_connection_opens:
  assumes "counted n env" and "query_connection env servers ws w = (conn, w1)"
  shows "n w1 = n w + (if conn = None then 0 else 1)"
proof (cases "detectRefsLanguage (ce_lsp env) (ce_visit env) servers ws")
  case (Inl err)
  then show ?thesis using assms(2) by (auto simp: query_connection_def)
next
  case lang: (Inr language)
  show ?thesis
  proof (cases "registry_Lookup default_languages (Some servers) language")
    case (Inl err)
    then show ?thesis using assms(2) lang by (auto simp: query_connection_def)
  next
    case (Inr spec)
    then show ?thesis
      using assms(2) lang
      by (cases rule: connect_cases [OF assms(1), of servers ws spec w, case_names failed connected])
        (auto simp: query_connection_def connectClient_def split: if_splits)
  qed
qed

lemma executeQueryCommand_keeps:
  "counted n env \<Longrightarrow> keeps n (executeQueryCommand env xenv qenv sched cancelled describe describe_search extract rs opts verbose v)"
  unfolding keeps_def
  by (auto simp: executeQueryCommand_def Let_def split: prod.split option.split dest: query_connection_opens)

text \<open>
  So a query without a server has no callers and implementations, and its references are those of the text
  search, although the engine is given a client.
\<close>

lemma query_without_server:
  "eng_Callers (query_engine env cancelled describe ws None extract search w) = None"
  "eng_Implements (query_engine env cancelled describe ws None extract search w) = None"
  "eng_Refs (query_engine env cancelled describe ws None extract search w) =
     Some (\<lambda>root fp sym kind. described describe
       (adapter_FindRefs env (NewRefsEngine (grepFallbackSearcher env cancelled) None None) [] root fp sym kind w))"
  by (simp_all add: query_engine_def adapter_FindRefs_def nil_client_refs Let_def)

end
