(* ===== verification/LspServe.thy ===== *)
theory LspServe
  imports LspLifecycle
begin

text \<open>
  The life of a daemon (\<open>pkg/lsp/daemon_unix.go\<close>) around the messages of theory \<open>LspDaemon\<close>: when it was last
  active and what it saves of that, the loop that accepts clients and ends the daemon, the shutdown of the language
  server and the cleanup. Other processes work on the same state files meanwhile.
\<close>

section \<open>Activity\<close>

record 'r daemon_process =
  dp_config :: daemonProcessConfig
  dp_runtime :: "'r daemonRuntime"
  dp_activity :: int
  dp_lastPersist :: int
  dp_files :: state_files

definition daemonStatePersistInterval :: int where "daemonStatePersistInterval = 5 * 1000000000"

definition clientCount :: "'r daemon_process \<Rightarrow> nat" where
  "clientCount p = length (dm_clients (dp_runtime p))"

definition idleExpired :: "int \<Rightarrow> 'r daemon_process \<Rightarrow> bool" where
  "idleExpired now p = (dp_activity p \<noteq> 0 \<and> now - dp_activity p \<ge> dc_IdleTimeoutNS (dp_config p))"

definition dp_statePath :: "'r daemon_process \<Rightarrow> string" where
  "dp_statePath p = dc_StatePath (dp_config p)"

text \<open>The time is always noted, and saved when the last time was saved some seconds ago.\<close>

definition touchActivity :: "bool \<Rightarrow> int \<Rightarrow> 'r daemon_process \<Rightarrow> 'r daemon_process" where
  "touchActivity write_ok now p0 =
     (let p = p0\<lparr>dp_activity := now\<rparr>
      in if dp_lastPersist p \<noteq> 0 \<and> now - dp_lastPersist p < daemonStatePersistInterval then p
         else case readStateFile (dp_files p) (dp_statePath p) of
                Inl err \<Rightarrow> p
              | Inr s \<Rightarrow>
                  (case writeStateFile write_ok (dp_statePath p) (s\<lparr>st_LastUsedUnixNano := now\<rparr>) (dp_files p) of
                     (True, files) \<Rightarrow> p\<lparr>dp_files := files, dp_lastPersist := now\<rparr> | (False, files) \<Rightarrow> p))"

text \<open>A message of a client or of the server is an activity before it is handled.\<close>

definition client_turn ::
  "bool \<Rightarrow> int \<Rightarrow> bool \<Rightarrow> (nat \<Rightarrow> bool) \<Rightarrow> ('r payload \<Rightarrow> bool) \<Rightarrow> nat \<Rightarrow> 'r payload \<Rightarrow> 'r daemon_process \<Rightarrow> 'r daemon_process" where
  "client_turn write_ok now server_ok client_ok decodes c m p =
     (let p1 = touchActivity write_ok now p
      in p1\<lparr>dp_runtime := handle_turn server_ok client_ok decodes c m (dp_runtime p1)\<rparr>)"

definition reply_turn ::
  "bool \<Rightarrow> int \<Rightarrow> bool \<Rightarrow> (nat \<Rightarrow> bool) \<Rightarrow> (nat list \<Rightarrow> nat) \<Rightarrow> 'r payload \<Rightarrow> 'r daemon_process \<Rightarrow> 'r daemon_process" where
  "reply_turn write_ok now server_ok client_ok pick m p =
     (let p1 = touchActivity write_ok now p
      in p1\<lparr>dp_runtime := server_turn server_ok client_ok pick m (dp_runtime p1)\<rparr>)"

definition client_leaves :: "nat \<Rightarrow> 'r daemon_process \<Rightarrow> 'r daemon_process" where
  "client_leaves c p = p\<lparr>dp_runtime := removeClient c (dp_runtime p)\<rparr>"

text \<open>The process when the language server has been started.\<close>

definition serving :: "bool \<Rightarrow> int \<Rightarrow> daemonProcessConfig \<Rightarrow> state_files \<Rightarrow> 'r daemon_process" where
  "serving write_ok now config files =
     touchActivity write_ok now
       \<lparr>dp_config = config, dp_runtime = new_daemon, dp_activity = now, dp_lastPersist = 0, dp_files = files\<rparr>"

section \<open>Accepting clients\<close>

datatype exit_signal = StillRunning | ExitedCleanly | ExitedWithError

datatype accept_result = AcceptTimedOut | AcceptClosed | AcceptFailed | AcceptedClient

datatype loop_end = IdleEnd | ServerGone | ServerExitFailed | DeadlineFailed | ListenerGone | AcceptBroke

text \<open>What one turn of the loop meets; the exit of a server that was already done is a clean one.\<close>

record accept_turn_env =
  ac_now :: int
  ac_exit :: exit_signal
  ac_deadline_ok :: bool
  ac_result :: accept_result
  ac_accept_now :: int
  ac_write_ok :: bool

definition accept_turn :: "accept_turn_env \<Rightarrow> 'r daemon_process \<Rightarrow> loop_end option \<times> 'r daemon_process" where
  "accept_turn a p =
     (if clientCount p = 0 \<and> idleExpired (ac_now a) p then (Some IdleEnd, p)
      else if ac_exit a = ExitedWithError then (Some ServerExitFailed, p)
      else if ac_exit a = ExitedCleanly then (Some ServerGone, p)
      else if \<not> ac_deadline_ok a then (Some DeadlineFailed, p)
      else case ac_result a of
             AcceptTimedOut \<Rightarrow> (None, p)
           | AcceptClosed \<Rightarrow> (Some ListenerGone, p)
           | AcceptFailed \<Rightarrow> (Some AcceptBroke, p)
           | AcceptedClient \<Rightarrow>
               (None, touchActivity (ac_write_ok a) (ac_accept_now a) (p\<lparr>dp_runtime := snd (addClient (dp_runtime p))\<rparr>)))"

text \<open>The loop alone, when nothing else happens between its turns.\<close>

fun acceptLoop :: "accept_turn_env list \<Rightarrow> 'r daemon_process \<Rightarrow> loop_end option \<times> 'r daemon_process" where
  "acceptLoop [] p = (None, p)"
| "acceptLoop (a # turns) p =
     (case accept_turn a p of (Some e, p1) \<Rightarrow> (Some e, p1) | (None, p1) \<Rightarrow> acceptLoop turns p1)"

section \<open>Shutting down\<close>

text \<open>
  What the shutdown meets: whether the two messages can be written, the messages of the server while the daemon waits
  for the response, and whether the server exits in time and can be killed.
\<close>

record 'r stop_env =
  so_request_ok :: bool
  so_messages :: "'r payload list"
  so_exit_ok :: bool
  so_exits :: bool
  so_kill_ok :: bool
  so_alive :: bool

datatype shutdown_error = RequestNotWritten | NoShutdownResponse | ExitNotWritten

definition sendShutdownAndExit :: "'r stop_env \<Rightarrow> 'r daemonRuntime \<Rightarrow> shutdown_error option \<times> 'r daemonRuntime" where
  "sendShutdownAndExit so d =
     (case begin_shutdown (so_request_ok so) d of
        (False, d1) \<Rightarrow> (Some RequestNotWritten, d1)
      | (True, d1) \<Rightarrow>
          let d2 = fold (server_turn (so_request_ok so) (\<lambda>c. True) hd) (so_messages so) d1
          in case finish_shutdown (so_exit_ok so) d2 of
               (True, d3) \<Rightarrow> (None, d3)
             | (False, d3) \<Rightarrow> (Some (if dm_shutdownResponse d2 then ExitNotWritten else NoShutdownResponse), d3))"

text \<open>The errors of the two messages and of the kill; a server that has not exited in time is killed.\<close>

definition shutdownLanguageServer ::
  "'r stop_env \<Rightarrow> 'r daemonRuntime \<Rightarrow> (shutdown_error option \<times> bool) \<times> 'r daemonRuntime" where
  "shutdownLanguageServer so d =
     (case sendShutdownAndExit so d of
        (err, d1) \<Rightarrow> if so_exits so then ((err, False), d1) else ((err, \<not> so_kill_ok so), d1\<lparr>dm_serverKilled := True\<rparr>))"

definition daemon_cleanup :: "'r stop_env \<Rightarrow> 'r daemon_process \<Rightarrow> 'r daemon_process" where
  "daemon_cleanup so p =
     (let d = dp_runtime p; d1 = d\<lparr>dm_clients := []\<rparr>; d2 = (if so_alive so then d1\<lparr>dm_serverKilled := True\<rparr> else d1)
      in p\<lparr>dp_runtime := d2,
           dp_files := removeStateArtifacts (dp_statePath p) (dc_SocketPath (dp_config p)) (dp_files p)\<rparr>)"

text \<open>What follows the end of the loop, and whether the daemon then reports an error.\<close>

definition finish_daemon :: "'r stop_env \<Rightarrow> loop_end \<Rightarrow> 'r daemon_process \<Rightarrow> bool \<times> 'r daemon_process" where
  "finish_daemon so e p =
     (let p1 = (if e = IdleEnd then p\<lparr>dp_runtime := snd (shutdownLanguageServer so (dp_runtime p))\<rparr> else p)
      in (e \<in> {ServerExitFailed, DeadlineFailed, AcceptBroke}, daemon_cleanup so p1))"

section \<open>Runs\<close>

text \<open>
  A run of the daemon among other processes, with the times of its activity and the time of the last step. The clock
  does not go back and is some seconds after 1970. Other processes take the daemon from its state file (\<open>Ensure\<close>), record a baseline, or remove
  files; \<open>write_ok\<close> says whether the daemon can write its file.
\<close>

inductive serve_run :: "bool \<Rightarrow> 'r daemon_process \<Rightarrow> int list \<Rightarrow> int \<Rightarrow> bool" for write_ok :: bool where
  serve_start: "daemonStatePersistInterval \<le> now \<Longrightarrow> serve_run write_ok (serving write_ok now config files) [now] now"
| serve_accept: "serve_run write_ok p ts clock \<Longrightarrow> clock \<le> ac_now a \<Longrightarrow> ac_now a \<le> ac_accept_now a \<Longrightarrow>
    ac_write_ok a = write_ok \<Longrightarrow> accept_turn a p = (None, p') \<Longrightarrow>
    serve_run write_ok p' (if ac_result a = AcceptedClient then ts @ [ac_accept_now a] else ts) (ac_accept_now a)"
| serve_client: "serve_run write_ok p ts clock \<Longrightarrow> clock \<le> now \<Longrightarrow> c \<in> set (dm_clients (dp_runtime p)) \<Longrightarrow>
    serve_run write_ok (client_turn write_ok now server_ok client_ok decodes c m p) (ts @ [now]) now"
| serve_leave: "serve_run write_ok p ts clock \<Longrightarrow> serve_run write_ok (client_leaves c p) ts clock"
| serve_reply: "serve_run write_ok p ts clock \<Longrightarrow> clock \<le> now \<Longrightarrow>
    serve_run write_ok (reply_turn write_ok now server_ok client_ok pick m p) (ts @ [now]) now"
| serve_ensure: "serve_run write_ok p ts clock \<Longrightarrow> clock \<le> lv_now env \<Longrightarrow>
    Ensure env l root_dir language \<lparr>lw_files = dp_files p, lw_log = acts\<rparr> = (r, w) \<Longrightarrow>
    serve_run write_ok (p\<lparr>dp_files := lw_files w\<rparr>) ts (lv_now env)"
| serve_baseline: "serve_run write_ok p ts clock \<Longrightarrow> baselinePath \<noteq> dp_statePath p \<Longrightarrow>
    WriteJavaGradleBuildBaseline ok1 ok2 path baselinePath b (dp_files p) = (e, files) \<Longrightarrow>
    serve_run write_ok (p\<lparr>dp_files := files\<rparr>) ts clock"
| serve_removed: "serve_run write_ok p ts clock \<Longrightarrow> files \<subseteq>\<^sub>m dp_files p \<Longrightarrow> serve_run write_ok (p\<lparr>dp_files := files\<rparr>) ts clock"

section \<open>The time of the last activity\<close>

lemma touch_fields [simp]:
  "dp_config (touchActivity ok now p) = dp_config p" "dp_runtime (touchActivity ok now p) = dp_runtime p"
  "dp_activity (touchActivity ok now p) = now"
  by (simp_all add: touchActivity_def Let_def split: sum.split prod.split bool.split)

lemma turn_fields [simp]:
  "dp_activity (client_turn ok now server_ok client_ok decodes c m p) = now"
  "dp_activity (reply_turn ok now server_ok client_ok pick m p) = now"
  "dp_activity (client_leaves c p) = dp_activity p"
  "dp_activity (serving ok now config files) = now"
  by (simp_all add: client_turn_def reply_turn_def client_leaves_def serving_def Let_def)

lemma accept_activity:
  assumes "accept_turn a p = (None, p')"
  shows "dp_activity p' = (if ac_result a = AcceptedClient then ac_accept_now a else dp_activity p)"
  using assms by (auto simp: accept_turn_def split: if_splits accept_result.splits)

lemma le_last: "sorted ts \<Longrightarrow> t \<in> set ts \<Longrightarrow> t \<le> (last ts :: int)"
  by (induction ts) auto

lemma sorted_later: "sorted ts \<Longrightarrow> last ts \<le> now \<Longrightarrow> sorted (ts @ [now :: int])"
  using le_last by (fastforce simp: sorted_append)

lemma serve_activity:
  "serve_run ok p ts clock \<Longrightarrow>
    ts \<noteq> [] \<and> dp_activity p = last ts \<and> sorted ts \<and> last ts \<le> clock \<and> daemonStatePersistInterval \<le> hd ts"
proof (induction rule: serve_run.induct)
  case (serve_accept p ts clock a p')
  then show ?case using accept_activity [OF serve_accept.hyps(5)] by (auto simp: sorted_later)
qed (auto simp: sorted_later)

lemma serve_positive:
  assumes "serve_run ok p ts clock"
  shows "daemonStatePersistInterval \<le> dp_activity p"
proof -
  have "ts \<noteq> []" "dp_activity p = last ts" "sorted ts" "daemonStatePersistInterval \<le> hd ts"
    using serve_activity [OF assms] by simp_all
  then show ?thesis using le_last [of ts "hd ts"] by simp
qed


section \<open>The state file\<close>

text \<open>Changes of files that leave no state behind that was last used before \<open>now\<close>.\<close>

definition renewed :: "int \<Rightarrow> state_files \<Rightarrow> state_files \<Rightarrow> bool" where
  "renewed now files files' \<longleftrightarrow>
     (\<forall>path. files' path = None \<or> files' path = files path \<or>
        (\<exists>s. files' path = Some (StateDoc s) \<and> st_LastUsedUnixNano s = now))"

lemma renewed_refl [simp]: "renewed now files files"
  by (simp add: renewed_def)

lemma renewed_trans: "renewed now f1 f2 \<Longrightarrow> renewed now f2 f3 \<Longrightarrow> renewed now f1 f3"
  unfolding renewed_def by metis

lemma renewed_remove [simp]: "renewed now files (removeStateArtifacts statePath socketPath files)"
  by (simp add: renewed_def removeStateArtifacts_def Let_def)

lemma renewed_write: "st_LastUsedUnixNano s = now \<Longrightarrow> renewed now files (snd (writeStateFile ok path s files))"
  by (simp add: renewed_def writeStateFile_def)

lemma renewed_log [simp]: "lw_files (log_action a w) = lw_files w" "lw_files (snd (killProcessGroup env pid w)) = lw_files w"
  by (simp_all add: log_action_def killProcessGroup_def)

lemma renewed_stop: "renewed now (lw_files w) (lw_files (snd (stopStateProcess env statePath s w)))"
  by (auto simp: stopStateProcess_def Let_def case_prod_unfold)

lemma renewed_clear [simp]: "renewed now (lw_files w) (lw_files (clear_artifacts statePath socketPath w))"
  by (simp add: clear_artifacts_def)

lemma renewed_reuse: "renewed (lv_now env) (lw_files w) (lw_files (snd (reuse_state env l spec statePath s w)))"
proof -
  have used: "renewed (lv_now env) (lw_files w) (lw_files (snd
      (case writeStateFile ok statePath s' (lw_files w) of (True, files) \<Rightarrow> (Some (Inr (leaseFromState s' True)), w\<lparr>lw_files := files\<rparr>)
        | (False, files) \<Rightarrow> (Some (Inl WriteStateFailed), w))))" if "st_LastUsedUnixNano s' = lv_now env" for s' ok
    using renewed_write [OF that, of "lw_files w" ok statePath] by (auto split: prod.splits bool.splits)
  show ?thesis
    using renewed_stop used
    by (auto simp: reuse_state_def Let_def refreshProcessStartID_def split: option.splits start_id.splits)
qed

lemma renewed_start: "renewed (lv_now env) (lw_files w) (lw_files (snd (start_daemon env l spec r k statePath socketPath w)))"
proof -
  let ?c = "daemon_config l spec r k statePath socketPath"
  have used: "renewed (lv_now env) (lw_files w)
      (snd (writeStateFile ok statePath (started_state env l spec ?c pid i) (lw_files w)))" for ok pid i
    by (rule renewed_write) (simp add: started_state_def)
  show ?thesis
    using used by (auto simp: start_daemon_def Let_def split: option.splits prod.splits bool.splits) (metis snd_conv)+
qed

lemma renewed_ensure:
  assumes "Ensure env l workspaceRoot language w = (r, w')"
  shows "renewed (lv_now env) (lw_files w) (lw_files w')"
proof -
  have "renewed (lv_now env) (lw_files w) (lw_files (snd (Ensure env l workspaceRoot language w)))"
    using renewed_reuse renewed_start
    by (auto simp: Ensure_def Let_def split: sum.splits state_read_error.splits prod.splits option.splits)
      (metis renewed_trans snd_conv renewed_clear)+
  then show ?thesis using assms by simp
qed

lemma read_renewed:
  assumes "renewed now files files'" "readStateFile files' path = Inr s"
  shows "st_LastUsedUnixNano s = now \<or> readStateFile files path = Inr s"
proof -
  have "files' path = None \<or> files' path = files path \<or>
      (\<exists>s0. files' path = Some (StateDoc s0) \<and> st_LastUsedUnixNano s0 = now)"
    using assms(1) by (simp add: renewed_def)
  then show ?thesis using assms(2) by (auto simp: readStateFile_def decode_state_def)
qed

lemma baseline_read:
  assumes "WriteJavaGradleBuildBaseline ok1 ok2 statePath baselinePath b files = (e, files')" "baselinePath \<noteq> path"
    and "readStateFile files' path = Inr s"
  shows "\<exists>s0. readStateFile files path = Inr s0 \<and> st_LastUsedUnixNano s = st_LastUsedUnixNano s0"
proof -
  have other: "readStateFile (files(baselinePath \<mapsto> d)) path = readStateFile files path" for d
    using assms(2) by (simp add: readStateFile_def)
  show ?thesis
    using assms other
    by (cases "statePath = path")
      (auto simp: WriteJavaGradleBuildBaseline_def Let_def writeStateFile_def readStateFile_def decode_state_def
        split: if_splits sum.splits state_read_error.splits option.splits)
qed

text \<open>What is saved of the activity: at most some seconds are missing.\<close>

definition saved_inv :: "'r daemon_process \<Rightarrow> bool" where
  "saved_inv p \<longleftrightarrow> 0 \<le> dp_lastPersist p \<and> dp_lastPersist p \<le> dp_activity p \<and>
     (\<forall>s. readStateFile (dp_files p) (dp_statePath p) = Inr s \<longrightarrow>
        dp_lastPersist p \<le> st_LastUsedUnixNano s \<and> dp_activity p - st_LastUsedUnixNano s < daemonStatePersistInterval)"

lemma statePath_touch [simp]: "dp_statePath (touchActivity ok now p) = dp_statePath p"
  by (simp add: dp_statePath_def)

lemma saved_touch:
  assumes "0 \<le> dp_lastPersist p" "dp_lastPersist p \<le> now"
    and "dp_lastPersist p \<noteq> 0 \<Longrightarrow> \<forall>s. readStateFile (dp_files p) (dp_statePath p) = Inr s \<longrightarrow> dp_lastPersist p \<le> st_LastUsedUnixNano s"
  shows "saved_inv (touchActivity True now p)"
proof (cases "dp_lastPersist p \<noteq> 0 \<and> now - dp_lastPersist p < daemonStatePersistInterval")
  case True
  then have "touchActivity True now p = p\<lparr>dp_activity := now\<rparr>" by (simp add: touchActivity_def Let_def)
  then show ?thesis using assms True by (force simp: saved_inv_def dp_statePath_def)
next
  case False
  show ?thesis
  proof (cases "readStateFile (dp_files p) (dp_statePath p)")
    case (Inl err)
    then have "touchActivity True now p = p\<lparr>dp_activity := now\<rparr>" using False by (auto simp: touchActivity_def Let_def dp_statePath_def)
    then show ?thesis using assms Inl by (simp add: saved_inv_def dp_statePath_def)
  next
    case (Inr s)
    let ?s = "normalize_state (dp_statePath p) (s\<lparr>st_LastUsedUnixNano := now\<rparr>)"
    have "touchActivity True now p =
      p\<lparr>dp_activity := now, dp_files := (dp_files p)(dp_statePath p \<mapsto> StateDoc ?s), dp_lastPersist := now\<rparr>"
      using False Inr by (auto simp: touchActivity_def Let_def dp_statePath_def writeStateFile_def)
    then show ?thesis
      using assms read_written [of "dp_files p" "dp_statePath p"] by (simp add: saved_inv_def dp_statePath_def daemonStatePersistInterval_def)
  qed
qed

lemma saved_touch_again: "saved_inv p \<Longrightarrow> dp_activity p \<le> now \<Longrightarrow> saved_inv (touchActivity True now p)"
  by (rule saved_touch) (auto simp: saved_inv_def)

lemma saved_runtime [simp]: "saved_inv (p\<lparr>dp_runtime := d\<rparr>) = saved_inv p"
  by (simp add: saved_inv_def dp_statePath_def)

lemma saved_files:
  assumes "saved_inv p"
    and "\<And>s. readStateFile files (dp_statePath p) = Inr s \<Longrightarrow> dp_activity p \<le> st_LastUsedUnixNano s \<or>
      (\<exists>s0. readStateFile (dp_files p) (dp_statePath p) = Inr s0 \<and> st_LastUsedUnixNano s = st_LastUsedUnixNano s0)"
  shows "saved_inv (p\<lparr>dp_files := files\<rparr>)"
  using assms by (fastforce simp: saved_inv_def dp_statePath_def daemonStatePersistInterval_def)

lemma serve_saved: "serve_run ok p ts clock \<Longrightarrow> ok \<Longrightarrow> saved_inv p"
proof (induction rule: serve_run.induct)
  case (serve_start now config files)
  then have "saved_inv (touchActivity True now
      \<lparr>dp_config = config, dp_runtime = new_daemon, dp_activity = now, dp_lastPersist = 0, dp_files = files\<rparr>)"
    by (intro saved_touch) (simp_all add: daemonStatePersistInterval_def)
  then show ?case using serve_start.prems by (simp add: serving_def)
next
  case (serve_accept p ts clock a p')
  have "dp_activity p \<le> ac_accept_now a"
    using serve_activity [OF serve_accept.hyps(1)] serve_accept.hyps(2,3) by simp
  then show ?case
    using serve_accept by (auto simp: accept_turn_def saved_touch_again split: if_splits accept_result.splits)
next
  case (serve_client p ts clock now c server_ok client_ok decodes m)
  have "dp_activity p \<le> now" using serve_activity [OF serve_client.hyps(1)] serve_client.hyps(2) by simp
  then show ?case using serve_client by (simp add: client_turn_def Let_def saved_touch_again)
next
  case (serve_leave p ts clock c)
  then show ?case by (simp add: client_leaves_def)
next
  case (serve_reply p ts clock now server_ok client_ok pick m)
  have "dp_activity p \<le> now" using serve_activity [OF serve_reply.hyps(1)] serve_reply.hyps(2) by simp
  then show ?case using serve_reply by (simp add: reply_turn_def Let_def saved_touch_again)
next
  case (serve_ensure p ts clock env l root_dir language acts r w)
  have "dp_activity p \<le> lv_now env" using serve_activity [OF serve_ensure.hyps(1)] serve_ensure.hyps(2) by simp
  moreover have "renewed (lv_now env) (dp_files p) (lw_files w)" using renewed_ensure [OF serve_ensure.hyps(3)] by simp
  ultimately show ?case
    using serve_ensure.IH [OF serve_ensure.prems] read_renewed [of "lv_now env" "dp_files p" "lw_files w"] by (intro saved_files) force+
next
  case (serve_baseline p ts clock baselinePath ok1 ok2 path b e files)
  then show ?case using baseline_read [OF serve_baseline.hyps(3,2)] by (intro saved_files) auto
next
  case (serve_removed p ts clock files)
  then show ?case using readStateFile_subset [of files "dp_files p"] by (intro saved_files) auto
qed


section \<open>The end of a daemon\<close>

lemma acceptLoop_stays:
  assumes "fst (accept_turn a p) = None" "ac_result a \<noteq> AcceptedClient"
  shows "snd (accept_turn a p) = p"
  using assms by (auto simp: accept_turn_def split: if_splits accept_result.splits)

text \<open>An unused daemon does end: one turn after the timeout is enough, if nobody connects until then.\<close>

lemma acceptLoop_ends:
  assumes "dm_clients (dp_runtime p) = []" "dp_activity p \<noteq> 0" "\<forall>a \<in> set turns. ac_result a \<noteq> AcceptedClient"
    and "a \<in> set turns" "dc_IdleTimeoutNS (dp_config p) \<le> ac_now a - dp_activity p"
  shows "fst (acceptLoop turns p) \<noteq> None"
  using assms(3,4)
proof (induction turns)
  case (Cons b turns)
  obtain r p1 where turn: "accept_turn b p = (r, p1)" by (meson surj_pair)
  show ?case
  proof (cases r)
    case None
    then have "p1 = p" using acceptLoop_stays [of b p] turn Cons.prems(1) by simp
    moreover have "b \<noteq> a" using None turn assms(1,2,5) by (auto simp: accept_turn_def clientCount_def idleExpired_def)
    ultimately show ?thesis using Cons turn None by simp
  qed (simp add: turn)
qed simp

lemma shutdown_response_stays:
  "dm_shutdownResponse (server_turn server_ok client_ok pick p d) \<longleftrightarrow>
    dm_shutdownResponse d \<or> response_number p = Some daemonInternalShutdownReqID"
proof -
  have keep: "dm_shutdownResponse (snd (writeToClient ok c q e)) = dm_shutdownResponse e" for ok c q and e :: "'a daemonRuntime"
    by (simp add: writeToClient_def)
  have "dm_shutdownResponse (fold (\<lambda>c d. snd (writeToClient client_ok c q d)) cs e) = dm_shutdownResponse e"
    for q cs and e :: "'a daemonRuntime"
    by (induction cs arbitrary: e) (simp_all add: keep)
  then have "dm_shutdownResponse (forwardToClient server_ok client_ok pick p e) = dm_shutdownResponse e" for e
    by (auto simp: forwardToClient_def daemon_routeResponse_def routeServerRequest_def rejectServerRequest_def
        broadcastToClients_def keep split: option.splits prod.splits list.splits)
  then show ?thesis
    by (auto simp: server_turn_def cacheInitializeResponse_def observeShutdownResponse_def response_number_def
        split: option.splits prod.splits list.splits)
qed

lemma shutdown_response_fold:
  "dm_shutdownResponse (fold (server_turn server_ok client_ok pick) ms d) \<longleftrightarrow>
    dm_shutdownResponse d \<or> (\<exists>m \<in> set ms. response_number m = Some daemonInternalShutdownReqID)"
  by (induction ms arbitrary: d) (auto simp: shutdown_response_stays)

text \<open>The exit notification follows a response to the request, and only that.\<close>

lemma orderly_shutdown:
  assumes "\<not> dm_shutdownResponse d"
  shows "fst (sendShutdownAndExit so d) = None \<longleftrightarrow>
    so_request_ok so \<and> (\<exists>m \<in> set (so_messages so). response_number m = Some daemonInternalShutdownReqID) \<and> so_exit_ok so"
  using assms shutdown_response_fold [of "so_request_ok so" "\<lambda>c. True" hd "so_messages so"]
  by (auto simp: sendShutdownAndExit_def begin_shutdown_def finish_shutdown_def Let_def split: prod.splits bool.splits)

lemma shutdown_exit_last:
  assumes "sendShutdownAndExit so d = (None, d1)"
  shows "\<exists>ms. dm_toServer d1 = ms @ [ExitNotification]"
  using assms by (auto simp: sendShutdownAndExit_def finish_shutdown_def Let_def split: prod.splits bool.splits if_splits)

text \<open>
  A daemon leaves nothing behind. However its loop has ended, no client stays connected, a server that is
  still alive is killed, the state file, the socket, the log and the baseline are gone, and no other file is touched.
  When the end is not an error, it is because the daemon was idle, the server exited or the listener was closed.
\<close>

theorem finish_leaves_nothing:
  assumes "finish_daemon so e p = (failed, p')"
  shows "dm_clients (dp_runtime p') = [] \<and> (so_alive so \<longrightarrow> dm_serverKilled (dp_runtime p')) \<and>
    (failed \<longleftrightarrow> e \<notin> {IdleEnd, ServerGone, ListenerGone}) \<and>
    (\<forall>path. let base = trim_suffix (dp_statePath p) lifecycleStateFileExtension; socket = dc_SocketPath (dp_config p)
       in if path \<in> {dp_statePath p, base @ daemonLogFileExtension, base @ javaGradleBaselineExtension} \<or>
             path = socket \<and> trim_space socket \<noteq> []
          then dp_files p' path = None else dp_files p' path = dp_files p path)"
proof -
  let ?p1 = "if e = IdleEnd then p\<lparr>dp_runtime := snd (shutdownLanguageServer so (dp_runtime p))\<rparr> else p"
  have fields: "dp_config ?p1 = dp_config p" "dp_files ?p1 = dp_files p" "dp_statePath ?p1 = dp_statePath p"
    by (simp_all add: dp_statePath_def)
  have p': "p' = daemon_cleanup so ?p1" and "failed \<longleftrightarrow> e \<notin> {IdleEnd, ServerGone, ListenerGone}"
    using assms by (cases e; auto simp: finish_daemon_def Let_def)+
  moreover have "dm_clients (dp_runtime p') = [] \<and> (so_alive so \<longrightarrow> dm_serverKilled (dp_runtime p'))"
    unfolding p' by (simp add: daemon_cleanup_def Let_def)
  moreover have "dp_files p' = removeStateArtifacts (dp_statePath p) (dc_SocketPath (dp_config p)) (dp_files p)"
    unfolding p' daemon_cleanup_def Let_def by (simp add: fields del: if_split)
  ultimately show ?thesis by (auto simp: removeStateArtifacts_def Let_def)
qed

section \<open>An example\<close>

definition demo_config :: daemonProcessConfig where
  "demo_config =
     \<lparr>dc_WorkspaceRoot = ''/w'', dc_Language = ''go'', dc_StateKey = ''k'', dc_StatePath = ''/s/k.json'',
      dc_SocketPath = ''/s/k.sock'', dc_Binary = ''gopls'', dc_Args = [], dc_ServerEnv = [],
      dc_IdleTimeoutNS = 600000000000, dc_JavaGradleBuildBaseline = None\<rparr>"

text \<open>The state file is there when the daemon starts, as after a takeover.\<close>

definition demo_daemon :: "unit daemon_process" where
  "demo_daemon = serving True 5000000000 demo_config [''/s/k.json'' \<mapsto> StateDoc zero_state]"

definition demo_turn :: "int \<Rightarrow> accept_result \<Rightarrow> accept_turn_env" where
  "demo_turn now r =
     \<lparr>ac_now = now, ac_exit = StillRunning, ac_deadline_ok = True, ac_result = r, ac_accept_now = now, ac_write_ok = True\<rparr>"

lemma demo_run: "serve_run True demo_daemon [5000000000] 5000000000"
  unfolding demo_daemon_def by (rule serve_start) (simp add: daemonStatePersistInterval_def)


definition demo_lifecycle :: Lifecycle where
  "demo_lifecycle = NewLifecycle None []"


definition demo_stop :: "unit stop_env" where
  "demo_stop =
     \<lparr>so_request_ok = True, so_messages = [response 2000000000], so_exit_ok = True, so_exits = True, so_kill_ok = True,
      so_alive = False\<rparr>"

theorem finish_leaves_nothing_witness:
  "\<exists>p'. finish_daemon demo_stop IdleEnd demo_daemon = (False, p') \<and> dp_files p' ''/s/k.json'' = None"
proof -
  obtain failed p' where run: "finish_daemon demo_stop IdleEnd demo_daemon = (failed, p')" by (meson surj_pair)
  have "dp_statePath demo_daemon = ''/s/k.json''" by code_simp
  then show ?thesis using finish_leaves_nothing [OF run] run by (auto simp: Let_def)
qed

text \<open>The server gets the request and then the notification, and is not killed.\<close>

lemma demo_shutdown:
  "case shutdownLanguageServer demo_stop new_daemon of (r, d) \<Rightarrow>
     r = (None, False) \<and> dm_toServer d = [ShutdownRequest, ExitNotification] \<and> \<not> dm_serverKilled d"
  by code_simp

text \<open>
  A client that waits a long time for a response is no activity. The daemon never ends while it is connected, but a
  lifecycle of another process takes the daemon for idle, and \<open>Ensure\<close> stops it.
\<close>

definition waiting_daemon :: "unit daemon_process" where
  "waiting_daemon = snd (accept_turn (demo_turn 5000000000 AcceptedClient) demo_daemon)"

lemma connected_daemon_idle:
  "dm_clients (dp_runtime waiting_daemon) = [1] \<and>
   fst (accept_turn (demo_turn 605000000000 AcceptTimedOut) waiting_daemon) = None \<and>
   (case readStateFile (dp_files waiting_daemon) (dp_statePath waiting_daemon) of Inr s \<Rightarrow> isIdle demo_lifecycle s 605000000000 | _ \<Rightarrow> False)"
  by code_simp

text \<open>
  The daemon reads its state file, changes the time and writes it back, with a lock of its own process only. A
  baseline that another process writes in between is lost.
\<close>

lemma touch_loses_baseline:
  assumes "readStateFile files path = Inr s"
    and "WriteJavaGradleBuildBaseline True True path baselinePath b files = (None, files1)"
    and "writeStateFile True path (s\<lparr>st_LastUsedUnixNano := now\<rparr>) files1 = (True, files2)" "readStateFile files2 path = Inr s2"
  shows "st_JavaGradleBuildBaseline s2 = st_JavaGradleBuildBaseline s"
proof -
  have "s2 = normalize_state path (s\<lparr>st_LastUsedUnixNano := now\<rparr>)" using assms(3,4) read_written by (auto simp: writeStateFile_def)
  moreover have "st_JavaGradleBuildBaseline (normalize_state path s) = st_JavaGradleBuildBaseline s"
    using read_normalized [OF assms(1)] by simp
  ultimately show ?thesis by (simp add: normalize_state_def Let_def)
qed

end
