(* ===== verification/LspLaunch.thy ===== *)
theory LspLaunch
  imports LspServe
begin

text \<open>
  How a daemon is started and stopped from outside (\<open>pkg/lsp/daemon_unix.go\<close>, \<open>daemon.go\<close>): the process with its
  configuration in the environment, the socket, the language server, the wait until the socket is there, and the
  shutdown over the socket. What the operating system answers is an argument; what is opened, started and killed is a
  list of events.
\<close>

section \<open>Processes\<close>

datatype errno = ESRCH | EPERM | ProcessDone | OtherErrno

definition isNoSuchProcess :: "errno \<Rightarrow> bool" where
  "isNoSuchProcess e = (e = ESRCH)"

text \<open>\<open>signal\<close> is what the system answers to a signal for a process; the result is the error.\<close>

definition killProcess :: "int \<Rightarrow> (int \<Rightarrow> errno option) \<Rightarrow> int \<Rightarrow> errno option" where
  "killProcess own signal pid =
     (if pid \<le> 1 \<or> pid = own then None
      else case signal pid of
             None \<Rightarrow> None
           | Some e \<Rightarrow> if \<not> isNoSuchProcess e \<and> e \<noteq> ProcessDone then Some e else None)"

definition processAlive :: "(int \<Rightarrow> errno option) \<Rightarrow> int \<Rightarrow> bool" where
  "processAlive signal pid =
     (if pid \<le> 0 then False
      else case signal pid of
             None \<Rightarrow> True
           | Some e \<Rightarrow> if e = ProcessDone \<or> isNoSuchProcess e then False else e = EPERM)"

section \<open>The socket\<close>

datatype socket_stat = NoSocketFile | StatBroken | IsDirectory | IsSocket | IsOtherFile

record socket_env =
  sk_stat :: "string \<Rightarrow> socket_stat"
  sk_dial :: "string \<Rightarrow> bool"
  sk_remove_ok :: "string \<Rightarrow> bool"

datatype socket_error =
    SocketPathRequired | DialFailed string | SocketStatFailed | SocketIsDirectory string | SocketActive string
  | SocketRemoveFailed string

definition dialDaemonSocket :: "socket_env \<Rightarrow> string \<Rightarrow> socket_error option" where
  "dialDaemonSocket env path =
     (if trim_space path = [] then Some SocketPathRequired else if sk_dial env path then None else Some (DialFailed path))"

text \<open>The connection is closed at once.\<close>

definition daemonSocketHealthy :: "socket_env \<Rightarrow> string \<Rightarrow> socket_error option" where
  "daemonSocketHealthy env path = dialDaemonSocket env path"

text \<open>The error, and the file that is removed.\<close>

definition removeStaleSocket :: "socket_env \<Rightarrow> string \<Rightarrow> socket_error option \<times> string option" where
  "removeStaleSocket env path =
     (let trimmed = trim_space path
      in if trimmed = [] then (Some SocketPathRequired, None)
         else case sk_stat env trimmed of
                NoSocketFile \<Rightarrow> (None, None)
              | StatBroken \<Rightarrow> (Some SocketStatFailed, None)
              | IsDirectory \<Rightarrow> (Some (SocketIsDirectory trimmed), None)
              | _ \<Rightarrow>
                  if daemonSocketHealthy env trimmed = None then (Some (SocketActive trimmed), None)
                  else if sk_remove_ok env trimmed then (None, Some trimmed)
                  else (Some (SocketRemoveFailed trimmed), None))"

text \<open>What each poll finds: the context, the process, the socket. No result means that it still waits.\<close>

record ready_poll =
  rd_ctx_done :: bool
  rd_alive :: bool
  rd_stat :: socket_stat

datatype ready_error = ReadyTimedOut | ExitedBeforeReady | ReadyStatFailed

fun waitForDaemonReady :: "ready_poll list \<Rightarrow> ready_error option option" where
  "waitForDaemonReady [] = None"
| "waitForDaemonReady (q # qs) =
     (if rd_ctx_done q then Some (Some ReadyTimedOut)
      else if \<not> rd_alive q then Some (Some ExitedBeforeReady)
      else case rd_stat q of
             IsSocket \<Rightarrow> Some None
           | StatBroken \<Rightarrow> Some (Some ReadyStatFailed)
           | _ \<Rightarrow> waitForDaemonReady qs)"

definition daemonLogPath :: "string \<Rightarrow> string" where
  "daemonLogPath statePath = trim_suffix statePath (path_ext statePath) @ daemonLogFileExtension"

text \<open>The file that is written to, or nothing.\<close>

definition daemonLogWriter :: "(string \<Rightarrow> bool) \<Rightarrow> string \<Rightarrow> string option" where
  "daemonLogWriter open_ok statePath = (if open_ok (daemonLogPath statePath) then Some (daemonLogPath statePath) else None)"

section \<open>Starting the language server\<close>

record start_env =
  sr_mkdir_ok :: "string \<Rightarrow> bool"
  sr_socket :: socket_env
  sr_listen_ok :: bool
  sr_chmod_ok :: bool
  sr_stdin_ok :: bool
  sr_stdout_ok :: bool
  sr_start_ok :: bool
  sr_environ :: "string list"
  sr_now :: int
  sr_write_ok :: bool
  sr_files :: state_files

datatype daemon_start_error =
    BadConfig config_error | SocketDirFailed | StaleSocket socket_error | ListenFailed | ChmodFailed | StdinFailed | StdoutFailed
  | ServerStartFailed string

datatype resource = Listener | ServerStdin | ServerStdout

text \<open>A server is started with a binary, arguments, a directory and an environment.\<close>

datatype resource_event =
    SocketRemoved string
  | Opened resource
  | Closed resource
  | ServerStarted string "string list" string "string list"

definition server_environment :: "string list \<Rightarrow> daemonProcessConfig \<Rightarrow> string list" where
  "server_environment environ c = mergeEnvOverrides (scrubInternalDaemonEnv environ) (dc_ServerEnv c)"

text \<open>From the listener to the started server.\<close>

definition start_server :: "start_env \<Rightarrow> daemonProcessConfig \<Rightarrow> daemon_start_error option \<times> resource_event list" where
  "start_server env c =
     (if \<not> sr_listen_ok env then (Some ListenFailed, [])
      else if \<not> sr_chmod_ok env then (Some ChmodFailed, [Opened Listener, Closed Listener])
      else if \<not> sr_stdin_ok env then (Some StdinFailed, [Opened Listener, Closed Listener])
      else if \<not> sr_stdout_ok env
      then (Some StdoutFailed, [Opened Listener, Opened ServerStdin, Closed Listener, Closed ServerStdin])
      else if \<not> sr_start_ok env
      then (Some (ServerStartFailed (dc_Binary c)),
            [Opened Listener, Opened ServerStdin, Opened ServerStdout, Closed Listener, Closed ServerStdin, Closed ServerStdout])
      else (None,
            [Opened Listener, Opened ServerStdin, Opened ServerStdout,
             ServerStarted (dc_Binary c) (dc_Args c) (dc_WorkspaceRoot c) (server_environment (sr_environ env) c)]))"

definition start_serving ::
  "start_env \<Rightarrow> daemonProcessConfig \<Rightarrow> (daemon_start_error + 'r daemon_process) \<times> resource_event list" where
  "start_serving env c =
     (case validate c of
        Some err \<Rightarrow> (Inl (BadConfig err), [])
      | None \<Rightarrow>
          if \<not> sr_mkdir_ok env (path_dir (dc_SocketPath c)) then (Inl SocketDirFailed, [])
          else case removeStaleSocket (sr_socket env) (dc_SocketPath c) of
                 (Some err, removed) \<Rightarrow> (Inl (StaleSocket err), [])
               | (None, removed) \<Rightarrow>
                   let gone = (case removed of None \<Rightarrow> [] | Some s \<Rightarrow> [SocketRemoved s])
                   in case start_server env c of
                        (Some err, ev) \<Rightarrow> (Inl err, gone @ ev)
                      | (None, ev) \<Rightarrow> (Inr (serving (sr_write_ok env) (sr_now env) c (sr_files env)), gone @ ev))"

text \<open>
  The daemon: \<open>life\<close> is what happens between the start and the end of its loop. At the end the listener and the
  pipes are closed. The result of a daemon that was started says whether it ended with an error.
\<close>

definition runDaemon ::
  "start_env \<Rightarrow> ('r daemon_process \<Rightarrow> loop_end \<times> 'r daemon_process) \<Rightarrow> 'r stop_env \<Rightarrow> daemonProcessConfig \<Rightarrow>
   (daemon_start_error + bool \<times> 'r daemon_process) \<times> resource_event list" where
  "runDaemon env life so c =
     (case start_serving env c of
        (Inl err, ev) \<Rightarrow> (Inl err, ev)
      | (Inr p, ev) \<Rightarrow>
          (case life p of
             (e, p1) \<Rightarrow> (Inr (finish_daemon so e p1), ev @ [Closed Listener, Closed ServerStdin, Closed ServerStdout])))"

section \<open>The process of the daemon\<close>

text \<open>A variable of the environment of a process that was started with a list of entries: the last one counts.\<close>

definition child_getenv :: "string list \<Rightarrow> string \<Rightarrow> string" where
  "child_getenv environ name =
     (case filter (\<lambda>e. has_prefix e (name @ ''='')) (rev environ) of [] \<Rightarrow> [] | e # es \<Rightarrow> drop (length name + 1) e)"

definition daemonModeEnvValue :: string where "daemonModeEnvValue = ''1''"

definition daemonConfigFromEnv ::
  "(string \<Rightarrow> daemonProcessConfig option) \<Rightarrow> string list \<Rightarrow> config_error + daemonProcessConfig" where
  "daemonConfigFromEnv decode environ = decodeDaemonProcessConfig decode (trim_space (child_getenv environ daemonConfigEnvVar))"

text \<open>
  What every process of the program does first: nothing unless the mode is set; else it is a daemon with the
  configuration that it finds, or ends with an error.
\<close>

definition daemon_mode ::
  "(string \<Rightarrow> daemonProcessConfig option) \<Rightarrow> string list \<Rightarrow> (config_error + daemonProcessConfig) option" where
  "daemon_mode decode environ =
     (if trim_space (child_getenv environ daemonModeEnvVar) \<noteq> daemonModeEnvValue then None
      else Some (daemonConfigFromEnv decode environ))"

definition runDaemonFromEnv ::
  "(string \<Rightarrow> daemonProcessConfig option) \<Rightarrow> string list \<Rightarrow> start_env \<Rightarrow> ('r daemon_process \<Rightarrow> loop_end \<times> 'r daemon_process) \<Rightarrow>
   'r stop_env \<Rightarrow> config_error + (daemon_start_error + bool \<times> 'r daemon_process) \<times> resource_event list" where
  "runDaemonFromEnv decode environ env life so =
     (case daemonConfigFromEnv decode environ of Inl err \<Rightarrow> Inl err | Inr c \<Rightarrow> Inr (runDaemon env life so c))"

text \<open>
  The launch: \<open>la_encode\<close> is JSON and base64, \<open>la_start\<close> the number of the new process.
\<close>

record launch_env =
  la_encode :: "daemonProcessConfig \<Rightarrow> string option"
  la_executable :: "string option"
  la_environ :: "string list"
  la_start :: "int option"
  la_startID :: "int \<Rightarrow> start_id"
  la_polls :: "ready_poll list"

datatype launch_error =
    LaunchConfig config_error | EncodeFailed | NoExecutable | StartFailed | CaptureFailed | NotReady ready_error

datatype launch_event = Spawned string "string list" int | Killed int

definition encodeDaemonProcessConfig :: "launch_env \<Rightarrow> daemonProcessConfig \<Rightarrow> string option" where
  "encodeDaemonProcessConfig env c = la_encode env c"

definition daemon_environment :: "string list \<Rightarrow> string \<Rightarrow> string list" where
  "daemon_environment environ encoded =
     environ @ [daemonModeEnvVar @ ''='' @ daemonModeEnvValue, daemonConfigEnvVar @ ''='' @ encoded]"

text \<open>The number and the start identity of the daemon; no result when it waits for longer than the polls.\<close>

definition launchDaemonProcess ::
  "launch_env \<Rightarrow> daemonProcessConfig \<Rightarrow> (launch_error + int \<times> string) option \<times> launch_event list" where
  "launchDaemonProcess env c =
     (case validate c of
        Some err \<Rightarrow> (Some (Inl (LaunchConfig err)), [])
      | None \<Rightarrow>
          (case encodeDaemonProcessConfig env c of
             None \<Rightarrow> (Some (Inl EncodeFailed), [])
           | Some encoded \<Rightarrow>
               (case la_executable env of
                  None \<Rightarrow> (Some (Inl NoExecutable), [])
                | Some exe \<Rightarrow>
                    (case la_start env of
                       None \<Rightarrow> (Some (Inl StartFailed), [])
                     | Some pid \<Rightarrow>
                         let spawned = Spawned exe (daemon_environment (la_environ env) encoded) pid;
                             ready = (\<lambda>startID.
                               case waitForDaemonReady (la_polls env) of
                                 None \<Rightarrow> (None, [spawned])
                               | Some (Some err) \<Rightarrow> (Some (Inl (NotReady err)), [spawned, Killed pid])
                               | Some None \<Rightarrow> (Some (Inr (pid, startID)), [spawned]))
                         in case la_startID env pid of
                              NoProcess \<Rightarrow> (Some (Inl CaptureFailed), [spawned, Killed pid])
                            | IdentityUnsupported \<Rightarrow> ready []
                            | StartID i \<Rightarrow> ready i))))"

section \<open>The shutdown over the socket\<close>

text \<open>What is written: a message as JSON in a frame; \<open>marshal\<close> may fail.\<close>

definition writeJSONRPCMessage :: "('m \<Rightarrow> string option) \<Rightarrow> 'm \<Rightarrow> string option" where
  "writeJSONRPCMessage marshal m = map_option writeLSPMessage (marshal m)"

definition shutdown_request :: "'r \<Rightarrow> 'r payload" where
  "shutdown_request no_params = Message (Some (IdInt daemonInternalShutdownReqID)) (Method ''shutdown'') no_params"

definition exit_notification :: "'r \<Rightarrow> 'r payload" where
  "exit_notification no_params = Message None (Method ''exit'') no_params"

text \<open>The loop over what arrives, up to the response or the end of the stream; \<open>decodes\<close> says what unmarshals.\<close>

fun read_shutdown_response :: "('r payload \<Rightarrow> bool) \<Rightarrow> 'r payload list \<Rightarrow> bool" where
  "read_shutdown_response decodes [] = False"
| "read_shutdown_response decodes (p # ps) =
     (if decodes p \<and> (case extractRequestID p of None \<Rightarrow> False | Some rid \<Rightarrow> parseResponseID rid = Some daemonInternalShutdownReqID)
      then True else read_shutdown_response decodes ps)"

datatype socket_shutdown_error = ShutdownDial socket_error | SendShutdownFailed | ReadShutdownFailed | SendExitFailed

definition shutdownDaemonViaSocket ::
  "socket_env \<Rightarrow> bool \<Rightarrow> bool \<Rightarrow> ('r payload \<Rightarrow> bool) \<Rightarrow> 'r payload list \<Rightarrow> 'r \<Rightarrow> string \<Rightarrow>
   socket_shutdown_error option \<times> 'r payload list" where
  "shutdownDaemonViaSocket env request_ok exit_ok decodes incoming no_params path =
     (case dialDaemonSocket env path of
        Some err \<Rightarrow> (Some (ShutdownDial err), [])
      | None \<Rightarrow>
          if \<not> request_ok then (Some SendShutdownFailed, [])
          else if \<not> read_shutdown_response decodes incoming then (Some ReadShutdownFailed, [shutdown_request no_params])
          else if \<not> exit_ok then (Some SendExitFailed, [shutdown_request no_params])
          else (None, [shutdown_request no_params, exit_notification no_params]))"

section \<open>Resources\<close>

text \<open>How often something was opened and not closed.\<close>

definition left_open :: "resource \<Rightarrow> resource_event list \<Rightarrow> int" where
  "left_open r ev = int (length (filter (\<lambda>e. e = Opened r) ev)) - int (length (filter (\<lambda>e. e = Closed r) ev))"

lemma left_open_simps [simp]:
  "left_open r [] = 0" "left_open r (Opened r' # ev) = (if r' = r then 1 else 0) + left_open r ev"
  "left_open r (Closed r' # ev) = left_open r ev - (if r' = r then 1 else 0)"
  "left_open r (SocketRemoved s # ev) = left_open r ev" "left_open r (ServerStarted b a d v # ev) = left_open r ev"
  by (simp_all add: left_open_def)

lemma left_open_append [simp]: "left_open r (ev @ ev') = left_open r ev + left_open r ev'"
  by (simp add: left_open_def)

definition server_starts :: "resource_event list \<Rightarrow> resource_event list" where
  "server_starts ev = filter (\<lambda>e. case e of ServerStarted b a d v \<Rightarrow> True | _ \<Rightarrow> False) ev"

lemma start_server_events:
  assumes "start_server env c = (err, ev)"
  shows "left_open x ev = (if err = None then 1 else 0) \<and>
    server_starts ev = (if err = None
      then [ServerStarted (dc_Binary c) (dc_Args c) (dc_WorkspaceRoot c) (server_environment (sr_environ env) c)] else []) \<and>
    SocketRemoved path \<notin> set ev"
  using assms by (cases x) (auto simp: start_server_def server_starts_def split: if_splits)

lemma removed_stale:
  "removeStaleSocket env path = (err, Some gone) \<Longrightarrow> err = None \<and> gone = trim_space path \<and> \<not> sk_dial env gone"
  by (auto simp: removeStaleSocket_def daemonSocketHealthy_def dialDaemonSocket_def Let_def split: if_splits socket_stat.splits)

lemma start_serving_events:
  assumes "start_serving env c = (r, ev)"
  shows "left_open x ev = (case r of Inl err \<Rightarrow> 0 | Inr p \<Rightarrow> 1) \<and>
    server_starts ev = (case r of Inl err \<Rightarrow> []
      | Inr p \<Rightarrow> [ServerStarted (dc_Binary c) (dc_Args c) (dc_WorkspaceRoot c) (server_environment (sr_environ env) c)]) \<and>
    (\<forall>path. SocketRemoved path \<in> set ev \<longrightarrow> path = trim_space (dc_SocketPath c) \<and> \<not> sk_dial (sr_socket env) path)"
proof -
  obtain err gone where stale: "removeStaleSocket (sr_socket env) (dc_SocketPath c) = (err, gone)" by (meson surj_pair)
  obtain e ev1 where server: "start_server env c = (e, ev1)" by (meson surj_pair)
  have removed: "\<forall>g. gone = Some g \<longrightarrow> g = trim_space (dc_SocketPath c) \<and> \<not> sk_dial (sr_socket env) g"
    using removed_stale [of "sr_socket env" "dc_SocketPath c" err] stale by auto
  show ?thesis
    using assms removed start_server_events [OF server, of x]
    by (cases e; cases gone; cases err)
      (auto simp: start_serving_def stale server server_starts_def Let_def split: option.splits if_splits)
qed

text \<open>
  C24. A daemon gives back what it takes. Whatever fails at the start and however the daemon ends, the listener and
  the pipes of the server are closed as often as they were opened; the server is started once, as the
  configuration says and without the internal variables, or not at all when the result is an error of the start;
  and a socket that answers is never removed.
\<close>

theorem runDaemon_releases:
  fixes so :: "'r stop_env"
  assumes "runDaemon env life so c = (r, ev)"
  shows "left_open x ev = 0 \<and>
    server_starts ev = (case r of Inl err \<Rightarrow> []
      | Inr d \<Rightarrow> [ServerStarted (dc_Binary c) (dc_Args c) (dc_WorkspaceRoot c) (server_environment (sr_environ env) c)]) \<and>
    (\<forall>path. SocketRemoved path \<in> set ev \<longrightarrow> path = trim_space (dc_SocketPath c) \<and> \<not> sk_dial (sr_socket env) path)"
proof -
  obtain s :: "daemon_start_error + 'r daemon_process" and ev0 where start: "start_serving env c = (s, ev0)" by (meson surj_pair)
  have ends: "left_open x [Closed Listener, Closed ServerStdin, Closed ServerStdout] = - 1" by (cases x) simp_all
  show ?thesis
    using assms start_serving_events [OF start, of x] ends
    by (cases s) (auto simp: runDaemon_def start server_starts_def split: prod.splits)
qed

definition demo_start :: start_env where
  "demo_start =
     \<lparr>sr_mkdir_ok = (\<lambda>p. True),
      sr_socket = \<lparr>sk_stat = (\<lambda>p. IsSocket), sk_dial = (\<lambda>p. False), sk_remove_ok = (\<lambda>p. True)\<rparr>,
      sr_listen_ok = True, sr_chmod_ok = True, sr_stdin_ok = True, sr_stdout_ok = True, sr_start_ok = True,
      sr_environ = [''A=1'', daemonModeEnvVar @ ''=1''], sr_now = 5000000000, sr_write_ok = True, sr_files = Map.empty\<rparr>"

theorem runDaemon_releases_witness:
  "\<exists>d ev. runDaemon demo_start (\<lambda>p. (IdleEnd, p)) demo_stop demo_config = (Inr d, ev) \<and> left_open Listener ev = 0 \<and>
    server_starts ev = [ServerStarted ''gopls'' [] ''/w'' [''A=1'']]"
proof -
  let ?run = "runDaemon demo_start (\<lambda>p. (IdleEnd, p)) demo_stop demo_config"
  obtain r ev where run: "?run = (r, ev)" by (meson surj_pair)
  have "case ?run of (Inr d, ev) \<Rightarrow> True | _ \<Rightarrow> False" by code_simp
  then obtain d where r: "r = Inr d" unfolding run by (auto split: sum.splits)
  have "dc_Binary demo_config = ''gopls''" "dc_Args demo_config = []" "dc_WorkspaceRoot demo_config = ''/w''"
    "server_environment (sr_environ demo_start) demo_config = [''A=1'']" by code_simp+
  then show ?thesis using runDaemon_releases [OF run, of Listener] run r by auto
qed

section \<open>From the launch to the daemon\<close>

lemma child_getenv_last: "child_getenv (environ @ [name @ ''='' @ v]) name = v"
  by (simp add: child_getenv_def has_prefix_iff)

lemma other_variable: "\<not> has_prefix (daemonConfigEnvVar @ ''='' @ v) (daemonModeEnvVar @ ''='')"
  by (simp add: daemonConfigEnvVar_def daemonModeEnvVar_def has_prefix_iff)

lemma child_mode: "child_getenv (daemon_environment environ encoded) daemonModeEnvVar = daemonModeEnvValue"
proof -
  have "child_getenv (daemon_environment environ encoded) daemonModeEnvVar =
      child_getenv (environ @ [daemonModeEnvVar @ ''='' @ daemonModeEnvValue]) daemonModeEnvVar"
    using other_variable [of encoded] by (simp add: daemon_environment_def child_getenv_def)
  then show ?thesis by (simp only: child_getenv_last)
qed

lemma child_config: "child_getenv (daemon_environment environ encoded) daemonConfigEnvVar = encoded"
  using child_getenv_last [of "environ @ [daemonModeEnvVar @ ''='' @ daemonModeEnvValue]" daemonConfigEnvVar encoded]
  by (simp add: daemon_environment_def)

text \<open>
  C23. A launch starts a daemon with the configuration that it was given, or leaves no process behind. If the coding
  of the configuration loses nothing, the process that is started is in the mode of a daemon and reads exactly the given
  configuration, whatever else is in the environment; a launch that fails has killed what it started; and one
  that succeeds returns the process that it started, which runs and has a socket.
\<close>

theorem launch_roundtrip:
  assumes "launchDaemonProcess env c = (result, ev)"
    and coding: "\<And>e. la_encode env c = Some e \<Longrightarrow> decode e = Some c \<and> e \<noteq> [] \<and> trim_space e = e"
  shows "(\<forall>exe environ pid. Spawned exe environ pid \<in> set ev \<longrightarrow> daemon_mode decode environ = Some (Inr c)) \<and>
    (\<forall>err. result = Some (Inl err) \<longrightarrow> (\<forall>exe environ pid. Spawned exe environ pid \<in> set ev \<longrightarrow> Killed pid \<in> set ev)) \<and>
    (\<forall>pid startID. result = Some (Inr (pid, startID)) \<longrightarrow>
       (\<exists>exe environ. ev = [Spawned exe environ pid]) \<and> (\<exists>q \<in> set (la_polls env). rd_alive q \<and> rd_stat q = IsSocket))"
proof -
  have mode: "daemon_mode decode (daemon_environment environ encoded) = Some (Inr c)"
    if "la_encode env c = Some encoded" "validate c = None" for environ encoded
  proof -
    have "trim_space daemonModeEnvValue = daemonModeEnvValue" by code_simp
    then show ?thesis
      using coding [OF that(1)] that(2)
      by (simp add: daemon_mode_def child_mode daemonConfigFromEnv_def child_config decodeDaemonProcessConfig_def)
  qed
  have ready: "\<exists>q \<in> set qs. rd_alive q \<and> rd_stat q = IsSocket" if "waitForDaemonReady qs = Some None" for qs
    using that by (induction qs) (auto split: if_splits socket_stat.splits)
  show ?thesis
    using assms(1) mode ready
    by (auto simp: launchDaemonProcess_def encodeDaemonProcessConfig_def Let_def
        split: option.splits start_id.splits)
qed

definition demo_launch :: launch_env where
  "demo_launch =
     \<lparr>la_encode = (\<lambda>c. if c = demo_config then Some ''e30'' else None), la_executable = Some ''/bin/cs'',
      la_environ = [daemonConfigEnvVar @ ''=old''], la_start = Some 7, la_startID = (\<lambda>pid. StartID ''99''),
      la_polls = [\<lparr>rd_ctx_done = False, rd_alive = True, rd_stat = NoSocketFile\<rparr>,
        \<lparr>rd_ctx_done = False, rd_alive = True, rd_stat = IsSocket\<rparr>]\<rparr>"

theorem launch_roundtrip_witness:
  "\<exists>exe environ. launchDaemonProcess demo_launch demo_config = (Some (Inr (7, ''99'')), [Spawned exe environ 7]) \<and>
    daemon_mode (\<lambda>e. if e = ''e30'' then Some demo_config else None) environ = Some (Inr demo_config)"
proof -
  let ?run = "launchDaemonProcess demo_launch demo_config" and ?decode = "\<lambda>e. if e = ''e30'' then Some demo_config else None"
  obtain r ev where run: "?run = (r, ev)" by (meson surj_pair)
  have "case ?run of (Some (Inr (pid, i)), ev) \<Rightarrow> pid = 7 \<and> i = ''99'' | _ \<Rightarrow> False" by code_simp
  then have r: "r = Some (Inr (7, ''99''))" unfolding run by (auto split: option.splits sum.splits)
  have "trim_space ''e30'' = ''e30''" by code_simp
  then have "\<And>e. la_encode demo_launch demo_config = Some e \<Longrightarrow> ?decode e = Some demo_config \<and> e \<noteq> [] \<and> trim_space e = e"
    by (auto simp: demo_launch_def split: if_splits)
  from launch_roundtrip [OF run this] show ?thesis using run r by auto
qed

text \<open>A program that the language server starts is no daemon, unless the configuration makes it one.\<close>

lemma server_not_daemon:
  assumes "\<forall>e \<in> set (normalizeEnvOverrides (dc_ServerEnv c)). \<not> has_prefix e (daemonModeEnvVar @ ''='')"
  shows "daemon_mode decode (server_environment environ c) = None"
proof -
  have "\<not> has_prefix e (daemonModeEnvVar @ ''='')" if "e \<in> set (server_environment environ c)" for e
    using that assms by (auto simp: server_environment_def mergeEnvOverrides_def scrubInternalDaemonEnv_def Let_def split: if_splits)
  then have "filter (\<lambda>e. has_prefix e (daemonModeEnvVar @ ''='')) (rev (server_environment environ c)) = []"
    by (simp add: filter_empty_conv)
  moreover have "trim_space [] \<noteq> daemonModeEnvValue" by code_simp
  ultimately show ?thesis by (simp add: daemon_mode_def child_getenv_def)
qed

text \<open>
  The daemon listens before it starts the server. A launch that waits for the socket alone can succeed although
  the server cannot be started.
\<close>

lemma listens_first:
  "\<not> sr_start_ok env \<Longrightarrow> sr_listen_ok env \<Longrightarrow> sr_chmod_ok env \<Longrightarrow> sr_stdin_ok env \<Longrightarrow> sr_stdout_ok env \<Longrightarrow>
    fst (start_server env c) = Some (ServerStartFailed (dc_Binary c)) \<and> hd (snd (start_server env c)) = Opened Listener"
  by (simp add: start_server_def)

section \<open>From the socket to the server\<close>

lemma read_finds:
  "read_shutdown_response decodes ps \<longleftrightarrow>
    (\<exists>p \<in> set ps. decodes p \<and> (\<exists>rid. extractRequestID p = Some rid \<and> parseResponseID rid = Some daemonInternalShutdownReqID))"
  by (induction ps) (auto split: option.splits)

lemma server_turns_pending:
  assumes "\<forall>m \<in> set ms. response_number m \<noteq> Some n"
  shows "dm_pending (fold (server_turn server_ok client_ok pick) ms d) n = dm_pending d n"
  using assms
proof (induction ms arbitrary: d)
  case (Cons m ms)
  then show ?case using server_turn_effect [of server_ok client_ok pick m d] by (auto split: option.splits)
qed simp

lemma shutdown_forwarded:
  assumes "d2 = handle_turn True client_ok decodes c (shutdown_request no_params) d"
  shows "dm_pending d2 (dm_nextReqID d + 1) = Some (c, IdInt daemonInternalShutdownReqID) \<and>
    dm_toServer d2 = dm_toServer d @ [Forward (Message (Some (IdInt (dm_nextReqID d + 1))) (Method ''shutdown'') no_params)]"
  using assms
  by (auto simp: handle_turn_def client_message_def shutdown_request_def extractMethod_def envelope_def extractRequestID_def
      MethodInitialize_def MethodInitialized_def remapRequest_def rewriteJSONID_def writeToServer_def Let_def)

lemma exit_forwarded:
  "dm_toServer (handle_turn True client_ok decodes c (exit_notification no_params) d) = dm_toServer d @ [Forward (exit_notification no_params)]"
  by (simp add: handle_turn_def client_message_def exit_notification_def extractMethod_def envelope_def extractRequestID_def
      MethodInitialize_def MethodInitialized_def writeToServer_def Let_def)

text \<open>
  C25. The shutdown over the socket reaches the server. A new client of a daemon that sends the request gets, when the
  server has answered the request under its number there, whatever else the server sends meanwhile, a response under
  the number that it waits for: the shutdown succeeds, and the server gets the exit notification after the request.
\<close>

theorem shutdown_via_socket:
  assumes client: "addClient d = (c, d1)" "client_ok c"
    and d2: "d2 = handle_turn True client_ok decodes c (shutdown_request no_params) d1"
    and d3: "d3 = fold (server_turn True client_ok pick) ms d2" "\<forall>m \<in> set ms. response_number m \<noteq> Some (dm_nextReqID d + 1)"
    and d4: "d4 = server_turn True client_ok pick answer d3" "response_number answer = Some (dm_nextReqID d + 1)" "\<forall>p. decodes p"
    and socket: "trim_space path \<noteq> []" "sk_dial env path"
    and result: "shutdownDaemonViaSocket env True True decodes (map snd (filter (\<lambda>(c', p). c' = c) (dm_toClient d4))) no_params path =
      (err, sent)"
    and d5: "d5 = handle_turn True client_ok decodes c (last sent) d4"
  shows "err = None \<and> sent = [shutdown_request no_params, exit_notification no_params] \<and>
    dm_toServer d2 = dm_toServer d @ [Forward (Message (Some (IdInt (dm_nextReqID d + 1))) (Method ''shutdown'') no_params)] \<and>
    dm_toServer d5 = dm_toServer d4 @ [Forward (exit_notification no_params)]"
proof -
  have d1: "dm_nextReqID d1 = dm_nextReqID d" "dm_toServer d1 = dm_toServer d"
    using client(1) by (auto simp: addClient_def Let_def)
  note forwarded = shutdown_forwarded [OF d2, unfolded d1]
  have pending: "dm_pending d3 (dm_nextReqID d + 1) = Some (c, IdInt daemonInternalShutdownReqID)"
    unfolding d3(1) server_turns_pending [OF d3(2)] using forwarded by simp
  obtain rid where e: "envelope answer = Some (Some rid, [])" "parseResponseID rid = Some (dm_nextReqID d + 1)"
    using d4(2) by (auto simp: response_number_def split: option.splits prod.splits list.splits)
  have "dm_toClient d4 = dm_toClient d3 @ [(c, rewriteJSONID answer (IdInt daemonInternalShutdownReqID))]"
    using pending e client(2) unfolding d4(1) by (simp add: server_turn_def forwardToClient_def daemon_routeResponse_def writeToClient_def)
  moreover have "extractRequestID (rewriteJSONID answer (IdInt daemonInternalShutdownReqID)) = Some (IdInt daemonInternalShutdownReqID)"
    using e(1) by (cases answer) (simp_all add: envelope_def extractRequestID_def rewriteJSONID_def)
  moreover have "parseResponseID (IdInt daemonInternalShutdownReqID) = Some daemonInternalShutdownReqID" by code_simp
  ultimately have "read_shutdown_response decodes (map snd (filter (\<lambda>(c', p). c' = c) (dm_toClient d4)))"
    using d4(3) by (auto simp: read_finds)
  then have "err = None" "sent = [shutdown_request no_params, exit_notification no_params]"
    using result socket by (simp_all add: shutdownDaemonViaSocket_def dialDaemonSocket_def)
  then show ?thesis using forwarded d5 by (simp add: exit_forwarded)
qed

text \<open>The server logs something before it answers.\<close>

definition demo_asked :: "unit daemonRuntime" where
  "demo_asked = handle_turn True (\<lambda>c. True) (\<lambda>p. True) 1 (shutdown_request ()) (snd (addClient new_daemon))"

definition demo_answered :: "unit daemonRuntime" where
  "demo_answered =
     server_turn True (\<lambda>c. True) hd (response 1) (fold (server_turn True (\<lambda>c. True) hd) [notification ''log''] demo_asked)"

definition demo_socket :: socket_env where
  "demo_socket = \<lparr>sk_stat = (\<lambda>p. IsSocket), sk_dial = (\<lambda>p. True), sk_remove_ok = (\<lambda>p. True)\<rparr>"

theorem shutdown_via_socket_witness:
  "shutdownDaemonViaSocket demo_socket True True (\<lambda>p. True) (map snd (filter (\<lambda>(c', p). c' = 1) (dm_toClient demo_answered))) ()
     ''/s/k.sock'' = (None, [shutdown_request (), exit_notification ()])"
proof -
  obtain err sent where result: "shutdownDaemonViaSocket demo_socket True True (\<lambda>p. True)
      (map snd (filter (\<lambda>(c', p). c' = 1) (dm_toClient demo_answered))) () ''/s/k.sock'' = (err, sent)"
    by (meson surj_pair)
  have client: "addClient (new_daemon :: unit daemonRuntime) = (1, snd (addClient new_daemon))" by (simp add: addClient_def new_daemon_def)
  have "\<forall>m \<in> set [notification ''log'']. response_number m \<noteq> Some (dm_nextReqID (new_daemon :: unit daemonRuntime) + 1)"
    "response_number (response 1) = Some (dm_nextReqID (new_daemon :: unit daemonRuntime) + 1)" "trim_space ''/s/k.sock'' \<noteq> []"
    "sk_dial demo_socket ''/s/k.sock''"
    by code_simp+
  from shutdown_via_socket [OF client TrueI demo_asked_def refl this(1) demo_answered_def this(2) _ this(3,4) result refl]
  have "err = None \<and> sent = [shutdown_request (), exit_notification ()]" by simp
  then show ?thesis using result by simp
qed

end
