(* ===== verification/LspPlatforms.thy ===== *)
theory LspPlatforms
  imports LspLaunch
begin

text \<open>
  The identity of a process on the systems besides Linux (\<open>pkg/lsp/process_identity_darwin.go\<close>,
  \<open>process_identity_windows.go\<close>, \<open>process_identity_other.go\<close>), and that an identity which was recorded is
  recognized.
\<close>

section \<open>Start identities\<close>

text \<open>What macOS says of a process: its number and the time of its start.\<close>

record kinfo_proc =
  ki_pid :: int
  ki_sec :: int
  ki_usec :: int

definition darwin_processStartID :: "(int \<Rightarrow> kinfo_proc option) \<Rightarrow> int \<Rightarrow> start_id" where
  "darwin_processStartID sysctl pid =
     (if pid \<le> 0 then NoProcess
      else case sysctl pid of
             None \<Rightarrow> NoProcess
           | Some k \<Rightarrow> if ki_pid k \<noteq> pid then NoProcess else StartID (int_str (ki_sec k) @ '':'' @ int_str (ki_usec k)))"

definition windows_processStartID :: "int \<Rightarrow> start_id" where
  "windows_processStartID pid = IdentityUnsupported"

definition other_processStartID :: "int \<Rightarrow> start_id" where
  "other_processStartID pid = IdentityUnsupported"

section \<open>Recorded identities\<close>

lemma word_len_le: "word_len s \<le> length s"
  by (induction s) auto

lemma word_len_free: "i < word_len s \<Longrightarrow> p \<in> set space_runes \<Longrightarrow> \<not> has_prefix (drop i s) p"
proof (induction s arbitrary: i)
  case (Cons c s)
  then show ?case by (cases i) (auto simp: list_ex_iff split: if_splits)
qed simp

lemma word_trimmed:
  assumes "0 < word_len s"
  shows "trimmed (take (word_len s) s)"
  unfolding trimmed_def
proof (intro ballI conjI)
  fix p assume p: "p \<in> set space_runes"
  then have ne: "p \<noteq> []" by (rule space_runes_nonempty)
  have prefix: "has_prefix (drop i s) p" if "has_prefix (drop i (take (word_len s) s)) p" for i
    using that by (metis append.assoc append_take_drop_id drop_take has_prefix_iff)
  show "\<not> has_prefix (take (word_len s) s) p"
    using prefix [of 0] word_len_free [OF assms p] by auto
  show "\<not> has_suffix (take (word_len s) s) p"
  proof
    assume "has_suffix (take (word_len s) s) p"
    then obtain t where t: "take (word_len s) s = t @ p" by (auto simp: has_suffix_iff)
    then have "has_prefix (drop (length t) (take (word_len s) s)) p" by (simp add: has_prefix_iff)
    moreover have "length t + length p = word_len s"
      using arg_cong [OF t, of length] word_len_le [of s] by simp
    then have "length t < word_len s" using ne by (cases p) simp_all
    ultimately show False using prefix word_len_free [OF _ p] by blast
  qed
qed

lemma field_trimmed: "f \<in> set (str_fields s) \<Longrightarrow> trimmed f \<and> f \<noteq> []"
proof (induction s rule: str_fields.induct)
  case (1 s)
  let ?t = "trim_by space_runes s"
  show ?case
  proof (cases "?t = [] \<or> word_len ?t = 0")
    case True
    then show ?thesis using 1(2) by (subst (asm) str_fields.simps) (simp add: Let_def)
  next
    case False
    then consider "f = take (word_len ?t) ?t" | "f \<in> set (str_fields (drop (word_len ?t) ?t))"
      using 1(2) by (subst (asm) str_fields.simps) (auto simp: Let_def)
    then show ?thesis using 1(1) [OF refl refl False] word_trimmed [of ?t] False by cases auto
  qed
qed

lemma linux_identity_trimmed:
  assumes "linux_processStartID read_file pid = StartID i"
  shows "trimmed i \<and> i \<noteq> []"
proof -
  obtain line where "19 < length (str_fields line)" "i = str_fields line ! 19"
    using assms by (auto simp: linux_processStartID_def Let_def not_le split: if_splits option.splits)
  then show ?thesis by (auto dest: field_trimmed [OF nth_mem])
qed

lemma int_str_url: "c \<in> set (int_str i) \<Longrightarrow> url_byte c"
  using nat_str_url by (auto simp: int_str_def url_byte_def byte_of_def split: if_splits)

lemma darwin_identity_trimmed:
  assumes "darwin_processStartID sysctl pid = StartID i"
  shows "trimmed i \<and> i \<noteq> []"
proof -
  obtain k :: kinfo_proc where "StartID i = StartID (int_str (ki_sec k) @ '':'' @ int_str (ki_usec k))"
  proof (cases "sysctl pid")
    case None
    then show thesis using assms by (simp add: darwin_processStartID_def split: if_splits)
  next
    case (Some k)
    then show thesis using assms that [of k] by (simp only: darwin_processStartID_def option.case split: if_splits) simp_all
  qed
  then have i: "i = int_str (ki_sec k) @ '':'' @ int_str (ki_usec k)" by simp
  have "url_byte c" if "c \<in> set i" for c
    using that int_str_url by (auto simp: i url_byte_def byte_of_def)
  then have "trim_space i = i" by (intro trim_space_url) simp
  then show ?thesis using trimmed_trim_space [of i] by (simp add: i)
qed

text \<open>
  A daemon whose identity was recorded is recognized for as long as the system gives its process the same identity, on
  Linux and on macOS; on the other systems a daemon has none.
\<close>

lemma recorded_identity_matches:
  assumes p: "p = linux_processStartID read_file \<or> p = darwin_processStartID sysctl"
    and some: "refreshProcessStartID p s = Some s'" "0 < st_PID s"
  shows "hasStrongProcessIdentity s' \<and> processMatchesState p s'"
proof -
  have "p (st_PID s) \<noteq> IdentityUnsupported"
    using p by (auto simp: linux_processStartID_def darwin_processStartID_def Let_def split: option.splits if_splits)
  then obtain i where i: "p (st_PID s) = StartID i" "s' = s\<lparr>st_DaemonProcessStartID := i\<rparr>"
    using some by (auto simp: refreshProcessStartID_def split: start_id.splits)
  have "trimmed i \<and> i \<noteq> []" using p i(1) linux_identity_trimmed darwin_identity_trimmed by blast
  then show ?thesis
    using i some(2) by (simp add: hasStrongProcessIdentity_def processMatchesState_def Let_def trimmed_id)
qed

lemma no_identity_elsewhere:
  "refreshProcessStartID windows_processStartID s = Some s \<and> \<not> processMatchesState windows_processStartID s"
  "refreshProcessStartID other_processStartID s = Some s \<and> \<not> processMatchesState other_processStartID s"
  by (simp_all add: refreshProcessStartID_def processMatchesState_def windows_processStartID_def other_processStartID_def Let_def)

end
