(* ===== verification/LspClient.thy ===== *)
theory LspClient
  imports LspTransport
begin

text \<open>
  Whole operations of the client of \<open>pkg/lsp/client.go\<close>: a call from the request to its end, notifications, the
  handshake, shutting down and closing, with contexts and timeouts. What happens while a call waits is a list of
  events; the turns of the reading loop are those of theory \<open>LspTransport\<close>.
\<close>

section \<open>Contexts\<close>

record go_context =
  cx_deadline :: "int option"
  cx_cancelled :: bool

definition context_done :: "go_context \<Rightarrow> int \<Rightarrow> bool" where
  "context_done ctx now = (cx_cancelled ctx \<or> (case cx_deadline ctx of None \<Rightarrow> False | Some d \<Rightarrow> d \<le> now))"

section \<open>The client with its options\<close>

record rpc_client =
  rp_client :: Client
  rp_requestTimeout :: int
  rp_closed :: bool

definition defaultClientRequestTimeout :: int where
  "defaultClientRequestTimeout = 10 * 1000000000"

text \<open>An option that is no positive timeout is an error with the timeout.\<close>

definition WithRequestTimeout :: "int \<Rightarrow> rpc_client \<Rightarrow> int + rpc_client" where
  "WithRequestTimeout timeout rp = (if timeout \<le> 0 then Inl timeout else Inr (rp\<lparr>rp_requestTimeout := timeout\<rparr>))"

fun apply_client_options :: "(rpc_client \<Rightarrow> int + rpc_client) list \<Rightarrow> rpc_client \<Rightarrow> int + rpc_client" where
  "apply_client_options [] rp = Inr rp"
| "apply_client_options (opt # opts) rp =
     (case opt rp of Inl err \<Rightarrow> Inl err | Inr rp1 \<Rightarrow> apply_client_options opts rp1)"

definition new_rpc_client :: "(rpc_client \<Rightarrow> int + rpc_client) list \<Rightarrow> int + rpc_client" where
  "new_rpc_client opts =
     apply_client_options opts
       \<lparr>rp_client = NewClient, rp_requestTimeout = defaultClientRequestTimeout, rp_closed = False\<rparr>"

text \<open>The context of a call: its own deadline, or else one after the timeout of the client.\<close>

definition withRequestTimeout :: "int \<Rightarrow> go_context \<Rightarrow> rpc_client \<Rightarrow> go_context" where
  "withRequestTimeout now ctx rp =
     (if rp_requestTimeout rp \<le> 0 then ctx
      else if cx_deadline ctx \<noteq> None then ctx
      else ctx\<lparr>cx_deadline := Some (now + rp_requestTimeout rp)\<rparr>)"

section \<open>Waiting for a response\<close>

text \<open>
  What can happen while a call waits: a message arrives (with the two arguments of \<open>read_turn\<close>), the stream
  ends, time passes, the context is cancelled, and other callers start calls or give theirs up.
\<close>

datatype 'r client_event =
    Arrives bool bool "'r payload"
  | StreamEnds frame_error
  | Clock int
  | ContextCancelled
  | OtherCall string 'r
  | OtherGivesUp int

datatype 'r call_end = GotResponse "'r payload" | ContextOver | ConnectionOver

text \<open>
  The \<open>select\<close> of \<open>Call\<close>: how the waiting ends, or \<open>None\<close> when the events do not end it, and the later events.
\<close>

fun wait_response ::
  "go_context \<Rightarrow> int \<Rightarrow> 'r client_event list \<Rightarrow> Client \<Rightarrow> 'r call_end option \<times> 'r client_event list \<times> Client" where
  "wait_response ctx i [] c = (None, [], c)"
| "wait_response ctx i (Arrives write_ok response_ok p # es) c =
     (case read_turn write_ok response_ok p c of
        (out, c1) \<Rightarrow>
          if out = Deliver i p then (Some (GotResponse p), es, c1)
          else if cl_done c1 then (Some ConnectionOver, es, removePending i c1)
          else wait_response ctx i es c1)"
| "wait_response ctx i (StreamEnds e # es) c = (Some ConnectionOver, es, removePending i (fail_loop (ReadFailed e) c))"
| "wait_response ctx i (Clock now # es) c =
     (if context_done ctx now then (Some ContextOver, es, removePending i c) else wait_response ctx i es c)"
| "wait_response ctx i (ContextCancelled # es) c = (Some ContextOver, es, removePending i c)"
| "wait_response ctx i (OtherCall method params # es) c = wait_response ctx i es (snd (start_call method params c))"
| "wait_response ctx i (OtherGivesUp j # es) c = wait_response ctx i es (removePending j c)"

section \<open>Calls and notifications\<close>

record ResponseError =
  re_Method :: string
  re_ID :: int
  re_Code :: int
  re_Message :: string

datatype call_failure =
    CallMethodRequired
  | CallAborted
  | FailedBeforeSend call_error
  | SendFailed
  | Answered ResponseError
  | ResultUndecodable
  | CallTimedOut
  | CallFailed "read_error option"

text \<open>
  The time and the context of an operation, whether its message can be written, and what a response says:
  \<open>op_error\<close> is the code and the message of an error in it.
\<close>

record 'r operation =
  op_now :: int
  op_ctx :: go_context
  op_write_ok :: bool
  op_error :: "'r \<Rightarrow> (int \<times> string) option"

definition call_result ::
  "'r operation \<Rightarrow> ('r \<Rightarrow> 'a option) \<Rightarrow> string \<Rightarrow> int \<Rightarrow> Client \<Rightarrow> 'r call_end \<Rightarrow> call_failure + 'a" where
  "call_result op decode method i c ended =
     (case ended of
        GotResponse p \<Rightarrow>
          (case op_error op (msg_rest p) of
             Some (code, message) \<Rightarrow>
               Inl (Answered \<lparr>re_Method = method, re_ID = i, re_Code = code, re_Message = message\<rparr>)
           | None \<Rightarrow> (case decode (msg_rest p) of None \<Rightarrow> Inl ResultUndecodable | Some x \<Rightarrow> Inr x))
      | ContextOver \<Rightarrow> Inl CallTimedOut
      | ConnectionOver \<Rightarrow> Inl (CallFailed (cl_readErr c)))"

text \<open>The result, what was sent, the events after the call, and the client; \<open>decode\<close> reads the result of a response.\<close>

definition Call ::
  "'r operation \<Rightarrow> ('r \<Rightarrow> 'a option) \<Rightarrow> 'r client_event list \<Rightarrow> string \<Rightarrow> 'r \<Rightarrow> rpc_client \<Rightarrow>
   (call_failure + 'a) option \<times> 'r payload list \<times> 'r client_event list \<times> rpc_client" where
  "Call op decode es method0 params rp =
     (let method = trim_space method0; ctx = withRequestTimeout (op_now op) (op_ctx op) rp
      in if method = [] then (Some (Inl CallMethodRequired), [], es, rp)
         else if context_done ctx (op_now op) then (Some (Inl CallAborted), [], es, rp)
         else case start_call method params (rp_client rp) of
                (Inl err, c1) \<Rightarrow> (Some (Inl (FailedBeforeSend err)), [], es, rp\<lparr>rp_client := c1\<rparr>)
              | (Inr (i, message), c1) \<Rightarrow>
                  if \<not> op_write_ok op then (Some (Inl SendFailed), [], es, rp\<lparr>rp_client := removePending i c1\<rparr>)
                  else (case wait_response ctx i es c1 of
                          (ended, es1, c2) \<Rightarrow>
                            (map_option (call_result op decode method i c2) ended, [message], es1, rp\<lparr>rp_client := c2\<rparr>)))"

definition Notify :: "'r operation \<Rightarrow> string \<Rightarrow> 'r \<Rightarrow> rpc_client \<Rightarrow> call_failure option \<times> 'r payload list" where
  "Notify op method0 params rp =
     (let method = trim_space method0
      in if method = [] then (Some CallMethodRequired, [])
         else if context_done (op_ctx op) (op_now op) then (Some CallAborted, [])
         else if cl_done (rp_client rp) then (Some (CallFailed (cl_readErr (rp_client rp))), [])
         else if \<not> op_write_ok op then (Some SendFailed, [])
         else (None, [Message None (Method method) params]))"

section \<open>The handshake\<close>

datatype init_failure =
    InitRefused call_error | InitRequestFailed call_failure | InitNotificationFailed call_failure

text \<open>The lock is held to the end: two initializations do not overlap. \<open>op2\<close> is what the notification meets.\<close>

definition Initialize ::
  "'r operation \<Rightarrow> 'r operation \<Rightarrow> ('r \<Rightarrow> 'a option) \<Rightarrow> 'r client_event list \<Rightarrow> 'r \<Rightarrow> 'r \<Rightarrow> rpc_client \<Rightarrow>
   (init_failure + 'a) option \<times> 'r payload list \<times> 'r client_event list \<times> rpc_client" where
  "Initialize op op2 decode es params no_params rp =
     (if cl_initialized (rp_client rp) then (Some (Inl (InitRefused AlreadyInitialized)), [], es, rp)
      else case Call op decode es ''initialize'' params rp of
             (None, sent, es1, rp1) \<Rightarrow> (None, sent, es1, rp1)
           | (Some (Inl err), sent, es1, rp1) \<Rightarrow> (Some (Inl (InitRequestFailed err)), sent, es1, rp1)
           | (Some (Inr result), sent, es1, rp1) \<Rightarrow>
               (case Notify op2 ''initialized'' no_params rp1 of
                  (Some err, sent2) \<Rightarrow> (Some (Inl (InitNotificationFailed err)), sent @ sent2, es1, rp1)
                | (None, sent2) \<Rightarrow>
                    (Some (Inr result), sent @ sent2, es1, rp1\<lparr>rp_client := (rp_client rp1)\<lparr>cl_initialized := True\<rparr>\<rparr>)))"

section \<open>Closing\<close>

text \<open>
  The first \<open>Close\<close> closes the transport and waits for the end of the reading loop: \<open>ended\<close> is the error that
  the loop then gets; with \<open>None\<close> the loop does not end, and neither does \<open>Close\<close>. The result says whether there
  was an error, \<open>io.EOF\<close> being none.
\<close>

definition rpc_Close :: "bool \<Rightarrow> frame_error option \<Rightarrow> rpc_client \<Rightarrow> bool option \<times> rpc_client" where
  "rpc_Close close_failed ended rp =
     (if rp_closed rp then (Some False, rp)
      else if cl_done (rp_client rp) then (Some close_failed, rp\<lparr>rp_closed := True\<rparr>)
      else case ended of
             None \<Rightarrow> (None, rp)
           | Some e \<Rightarrow> (Some close_failed, rp\<lparr>rp_client := fail_loop (ReadFailed e) (rp_client rp), rp_closed := True\<rparr>))"

record shutdown_errors =
  se_Shutdown :: "call_failure option"
  se_Exit :: "call_failure option"
  se_Close :: bool

definition Shutdown ::
  "'r operation \<Rightarrow> 'r operation \<Rightarrow> 'r client_event list \<Rightarrow> bool \<Rightarrow> frame_error option \<Rightarrow> 'r \<Rightarrow> rpc_client \<Rightarrow>
   shutdown_errors option \<times> 'r payload list \<times> rpc_client" where
  "Shutdown op op2 es close_failed ended no_params rp =
     (case Call op (\<lambda>r. Some ()) es ''shutdown'' no_params rp of
        (None, sent, es1, rp1) \<Rightarrow> (None, sent, rp1)
      | (Some r, sent, es1, rp1) \<Rightarrow>
          (case Notify op2 ''exit'' no_params rp1 of
             (exitErr, sent2) \<Rightarrow>
               (case rpc_Close close_failed ended rp1 of
                  (None, rp2) \<Rightarrow> (None, sent @ sent2, rp2)
                | (Some closeErr, rp2) \<Rightarrow>
                    (Some \<lparr>se_Shutdown = (case r of Inl err \<Rightarrow> Some err | Inr u \<Rightarrow> None), se_Exit = exitErr, se_Close = closeErr\<rparr>,
                     sent @ sent2, rp2))))"

section \<open>Operations are runs of the client's steps\<close>

lemma wait_runs:
  fixes es :: "'r client_event list" and out :: "'r client_output"
  assumes "wait_response ctx i es c = (ended, es1, c1)" "\<not> cl_done c"
  shows "\<exists>out1. client_step\<^sup>*\<^sup>* (out, c) (out1, c1)"
  using assms
proof (induction ctx i es c arbitrary: out rule: wait_response.induct)
  case (2 ctx i write_ok response_ok p es c)
  obtain out0 c0 where turn: "read_turn write_ok response_ok p c = (out0, c0)" by (meson surj_pair)
  have step: "client_step (out, c) (out0, c0)" using step_read [OF 2(3) turn] .
  have give_up: "client_step (out0, c0) (Nothing, removePending i c0)" by (rule step_give_up)
  consider "out0 = Deliver i p" | "out0 \<noteq> Deliver i p" "cl_done c0" | "out0 \<noteq> Deliver i p" "\<not> cl_done c0" by blast
  then show ?case
  proof cases
    case 1
    then have "c1 = c0" using 2(2) turn by simp
    then show ?thesis using step by blast
  next
    case 2
    then have "c1 = removePending i c0" using \<open>wait_response ctx i (Arrives write_ok response_ok p # es) c = _\<close> turn by simp
    then show ?thesis using step give_up by (meson converse_rtranclp_into_rtranclp rtranclp.rtrancl_refl)
  next
    case 3
    then have "wait_response ctx i es c0 = (ended, es1, c1)" using 2(2) turn by simp
    then obtain out1 where "client_step\<^sup>*\<^sup>* (out0, c0) (out1, c1)" using 2(1) [OF turn [symmetric] 3] 3(2) by blast
    then show ?thesis using step by (meson converse_rtranclp_into_rtranclp)
  qed
next
  case (3 ctx i e es c)
  have "client_step (out, c) (Nothing, fail_loop (ReadFailed e) c)" using step_end [OF 3(2)] .
  moreover have "client_step (Nothing :: 'r client_output, fail_loop (ReadFailed e) c) (Nothing, removePending i (fail_loop (ReadFailed e) c))"
    by (rule step_give_up)
  ultimately show ?case using 3(1) by (auto intro!: exI [of _ Nothing] elim: converse_rtranclp_into_rtranclp)
next
  case (4 ctx i now es c)
  have "client_step (out, c) (Nothing, removePending i c)" by (rule step_give_up)
  then show ?case using 4 by (cases "context_done ctx now") auto
next
  case (5 ctx i es c)
  have "client_step (out, c) (Nothing, removePending i c)" by (rule step_give_up)
  then show ?case using 5 by auto
next
  case (6 ctx i meth params es c)
  obtain r c0 where s: "start_call meth params c = (r, c0)" by (meson surj_pair)
  have step: "client_step (out, c) (Nothing, c0)" by (rule step_call [OF s])
  have "\<not> cl_done c0"
    using s 6(3) by (auto simp: start_call_def registerPending_def Let_def split: if_splits)
  then obtain out1 :: "'r client_output" where "client_step\<^sup>*\<^sup>* (Nothing, c0) (out1, c1)" using 6(1) [of Nothing] 6(2) s by auto
  then show ?case using step by (meson converse_rtranclp_into_rtranclp)
next
  case (7 ctx i j es c)
  have step: "client_step (out, c) (Nothing, removePending j c)" by (rule step_give_up)
  obtain out1 :: "'r client_output" where "client_step\<^sup>*\<^sup>* (Nothing, removePending j c) (out1, c1)"
    using 7(1) [of Nothing] 7(2,3) by (auto simp: removePending_def)
  then show ?case using step by (meson converse_rtranclp_into_rtranclp)
qed auto

text \<open>When the waiting ends, the number is free.\<close>

lemma wait_frees:
  "wait_response ctx i es c = (Some e, es1, c1) \<Longrightarrow> i \<notin> cl_pending c1"
proof (induction ctx i es c rule: wait_response.induct)
  case (2 ctx i write_ok response_ok p es c)
  obtain out0 c0 where turn: "read_turn write_ok response_ok p c = (out0, c0)" by (meson surj_pair)
  have "i \<notin> cl_pending c0" if "out0 = Deliver i p"
    using turn that
    by (auto simp: read_turn_def routeResponse_def removePending_def fail_loop_def split: option.splits prod.splits if_splits)
  then show ?case using 2 turn by (auto simp: removePending_def split: if_splits)
qed (auto simp: removePending_def split: if_splits)

text \<open>A waiting that the context can end is ended by the clock.\<close>

lemma wait_clock:
  assumes "Clock now \<in> set es" "context_done ctx now"
  shows "fst (wait_response ctx i es c) \<noteq> None"
  using assms
proof (induction ctx i es c rule: wait_response.induct)
  case (2 ctx i write_ok response_ok p es c)
  then show ?case by (cases "read_turn write_ok response_ok p c") auto
qed auto

lemma start_call_cases:
  assumes "start_call method params c = (r, c1)" "trim_space method \<noteq> []" "cl_nextID c \<notin> cl_pending c"
  obtains (gone) "cl_done c" "r = Inl (Transport (cl_readErr c))" "c1 = c\<lparr>cl_nextID := cl_nextID c + 1\<rparr>"
  | (begun) "\<not> cl_done c" "r = Inr (cl_nextID c, Message (Some (IdInt (cl_nextID c))) (Method (trim_space method)) params)"
      "c1 = c\<lparr>cl_nextID := cl_nextID c + 1, cl_pending := insert (cl_nextID c) (cl_pending c)\<rparr>"
  using assms by (auto simp: start_call_def registerPending_def Let_def split: if_splits)

text \<open>An event that neither answers the call with the number \<open>i\<close> nor ends the waiting.\<close>

definition passes_by :: "go_context \<Rightarrow> int \<Rightarrow> 'r client_event \<Rightarrow> bool" where
  "passes_by ctx i e =
     (case e of
        Arrives write_ok response_ok p \<Rightarrow>
          (case envelope p of
             None \<Rightarrow> False
           | Some (None, m) \<Rightarrow> True
           | Some (Some rid, m) \<Rightarrow> if m \<noteq> [] then write_ok else response_ok \<and> parseResponseID rid \<noteq> Some i)
      | StreamEnds err \<Rightarrow> False
      | Clock now \<Rightarrow> \<not> context_done ctx now
      | ContextCancelled \<Rightarrow> False
      | OtherCall m r \<Rightarrow> True
      | OtherGivesUp j \<Rightarrow> j \<noteq> i)"

lemma turn_passes:
  assumes "passes_by ctx i (Arrives write_ok response_ok p)" "\<not> cl_done c" "i \<in> cl_pending c"
    and "read_turn write_ok response_ok p c = (out, c1)"
  shows "out \<noteq> Deliver i p \<and> \<not> cl_done c1 \<and> i \<in> cl_pending c1"
  using assms
  by (auto simp: passes_by_def read_turn_def routeResponse_def removePending_def split: option.splits prod.splits if_splits)

lemma other_call_passes:
  assumes "\<not> cl_done c" "i \<in> cl_pending c"
  shows "\<not> cl_done (snd (start_call method params c)) \<and> i \<in> cl_pending (snd (start_call method params c))"
  using assms by (auto simp: start_call_def registerPending_def Let_def)

lemma wait_passes:
  assumes "passes_by ctx i e" "\<not> cl_done c" "i \<in> cl_pending c"
  shows "\<exists>c1. \<not> cl_done c1 \<and> i \<in> cl_pending c1 \<and> wait_response ctx i (e # es) c = wait_response ctx i es c1"
proof (cases e)
  case (Arrives write_ok response_ok p)
  obtain out c1 where turn: "read_turn write_ok response_ok p c = (out, c1)" by (meson surj_pair)
  then show ?thesis using turn_passes [OF assms(1) [unfolded Arrives] assms(2,3) turn] Arrives by auto
next
  case (OtherCall meth params)
  then show ?thesis
    using other_call_passes [OF assms(2,3), of meth params] by (intro exI [of _ "snd (start_call meth params c)"]) simp
next
  case (OtherGivesUp j)
  then show ?thesis
    using assms by (intro exI [of _ "removePending j c"]) (simp add: passes_by_def removePending_def)
qed (use assms in \<open>auto simp: passes_by_def\<close>)

lemma wait_skips:
  assumes "list_all (passes_by ctx i) pre" "\<not> cl_done c" "i \<in> cl_pending c"
  shows "\<exists>c1. \<not> cl_done c1 \<and> i \<in> cl_pending c1 \<and> wait_response ctx i (pre @ es) c = wait_response ctx i es c1"
  using assms
proof (induction pre arbitrary: c)
  case (Cons e pre)
  then obtain c0 where "\<not> cl_done c0" "i \<in> cl_pending c0" "wait_response ctx i (e # pre @ es) c = wait_response ctx i (pre @ es) c0"
    using wait_passes [of ctx i e c "pre @ es"] by auto
  then show ?case using Cons.IH [of c0] Cons.prems(1) by auto
qed auto

lemma wait_answered:
  assumes "\<not> cl_done c" "i \<in> cl_pending c" "envelope p = Some (Some rid, [])" "parseResponseID rid = Some i"
  shows "wait_response ctx i (Arrives write_ok True p # es) c = (Some (GotResponse p), es, removePending i c)"
  using assms by (simp add: read_turn_def routeResponse_def)

section \<open>Properties\<close>

definition call_response :: "'r operation \<Rightarrow> ('r \<Rightarrow> 'a option) \<Rightarrow> string \<Rightarrow> int \<Rightarrow> 'r payload \<Rightarrow> call_failure + 'a" where
  "call_response op decode method i p =
     (case op_error op (msg_rest p) of
        Some (code, message) \<Rightarrow> Inl (Answered \<lparr>re_Method = method, re_ID = i, re_Code = code, re_Message = message\<rparr>)
      | None \<Rightarrow> (case decode (msg_rest p) of None \<Rightarrow> Inl ResultUndecodable | Some x \<Rightarrow> Inr x))"

lemma call_result_response [simp]: "call_result op decode method i c (GotResponse p) = call_response op decode method i p"
  by (simp add: call_result_def call_response_def)

lemma inv_fresh: "client_inv c \<Longrightarrow> cl_nextID c \<notin> cl_pending c"
  by (force simp: client_inv_def)

text \<open>What a call does that gets to its request.\<close>

lemma Call_sent:
  assumes "trim_space method \<noteq> []" "\<not> context_done (withRequestTimeout (op_now op) (op_ctx op) rp) (op_now op)"
    and "\<not> cl_done (rp_client rp)" "client_inv (rp_client rp)" "op_write_ok op"
    and "i = cl_nextID (rp_client rp)"
  obtains c1 where "i \<in> cl_pending c1" "\<not> cl_done c1"
    "start_call (trim_space method) params (rp_client rp) =
      (Inr (i, Message (Some (IdInt i)) (Method (trim_space method)) params), c1)"
    "Call op decode es method params rp =
      (case wait_response (withRequestTimeout (op_now op) (op_ctx op) rp) i es c1 of
         (ended, es1, c2) \<Rightarrow>
           (map_option (call_result op decode (trim_space method) i c2) ended,
            [Message (Some (IdInt i)) (Method (trim_space method)) params], es1, rp\<lparr>rp_client := c2\<rparr>))"
proof -
  let ?m = "trim_space method" and ?c = "rp_client rp"
  obtain r c1 where s: "start_call ?m params ?c = (r, c1)" by (meson surj_pair)
  have twice: "trim_space ?m = ?m" by simp
  show ?thesis
    by (rule start_call_cases [OF s _ inv_fresh [OF assms(4)]])
      (use assms s twice that [of c1] in \<open>auto simp: Call_def Let_def\<close>)
qed

lemma Call_refused:
  assumes "trim_space method = [] \<or> context_done (withRequestTimeout (op_now op) (op_ctx op) rp) (op_now op)"
  shows "\<exists>err. Call op decode es method params rp = (Some (Inl err), [], es, rp)"
  using assms by (cases "trim_space method = []") (simp_all add: Call_def)

lemma Call_unsent:
  assumes "trim_space method \<noteq> []" "\<not> context_done (withRequestTimeout (op_now op) (op_ctx op) rp) (op_now op)"
    and "start_call (trim_space method) params (rp_client rp) = (r, c1)"
    and "case r of Inl err \<Rightarrow> True | Inr (i, message) \<Rightarrow> \<not> op_write_ok op"
  shows "\<exists>err. Call op decode es method params rp =
    (Some (Inl err), [], es, rp\<lparr>rp_client := (case r of Inl err \<Rightarrow> c1 | Inr (i, message) \<Rightarrow> removePending i c1)\<rparr>)"
  using assms by (cases r) (auto simp: Call_def)

lemma Call_waits:
  assumes "trim_space method \<noteq> []" "\<not> context_done (withRequestTimeout (op_now op) (op_ctx op) rp) (op_now op)"
    and "start_call (trim_space method) params (rp_client rp) = (Inr (i, message), c1)" "op_write_ok op"
    and "wait_response (withRequestTimeout (op_now op) (op_ctx op) rp) i es c1 = (ended, es2, c2)"
  shows "Call op decode es method params rp =
    (map_option (call_result op decode (trim_space method) i c2) ended, [message], es2, rp\<lparr>rp_client := c2\<rparr>)"
  using assms by (simp add: Call_def Let_def)

text \<open>
  C19. A call returns the first response with its number. Whatever else arrives or happens while it waits, other
  calls and other responses, requests and notifications of the server, as long as none of it ends the connection or
  the context, the result is what that response says: its error, the decoded result, or that it does not decode.
\<close>

theorem Call_answered:
  assumes steps: "client_step\<^sup>*\<^sup>* (Nothing, NewClient) (out :: 'r client_output, rp_client rp)"
    and ready: "\<not> cl_done (rp_client rp)" "trim_space method \<noteq> []" "op_write_ok op"
      "ctx = withRequestTimeout (op_now op) (op_ctx op) rp" "\<not> context_done ctx (op_now op)"
    and before: "list_all (passes_by ctx (cl_nextID (rp_client rp))) pre"
    and response: "envelope p = Some (Some rid, [])" "parseResponseID rid = Some (cl_nextID (rp_client rp))"
  shows "\<exists>rp1. Call op decode (pre @ Arrives write_ok True p # post) method (params :: 'r) rp =
    (Some (call_response op decode (trim_space method) (cl_nextID (rp_client rp)) p),
     [Message (Some (IdInt (cl_nextID (rp_client rp)))) (Method (trim_space method)) params], post, rp1)"
proof -
  have inv: "client_inv (rp_client rp)" using client_reach_inv [OF steps] by simp
  let ?es = "pre @ Arrives write_ok True p # post" and ?i = "cl_nextID (rp_client rp)"
  obtain c1 where c1: "?i \<in> cl_pending c1" "\<not> cl_done c1"
    and call: "Call op decode ?es method params rp =
      (case wait_response ctx ?i ?es c1 of
         (ended, es1, c2) \<Rightarrow>
           (map_option (call_result op decode (trim_space method) ?i c2) ended,
            [Message (Some (IdInt ?i)) (Method (trim_space method)) params], es1, rp\<lparr>rp_client := c2\<rparr>))"
    unfolding ready(4) by (rule Call_sent [OF ready(2) ready(5) [unfolded ready(4)] ready(1) inv ready(3) refl, of params decode ?es])
  obtain c2 where "\<not> cl_done c2" "?i \<in> cl_pending c2" "wait_response ctx ?i ?es c1 = wait_response ctx ?i (Arrives write_ok True p # post) c2"
    using wait_skips [OF before c1(2,1)] by blast
  then show ?thesis using call wait_answered [OF _ _ response] by simp
qed

text \<open>The number of a call that has returned is free, and a call is a run of the steps.\<close>

lemma Call_runs:
  assumes steps: "client_step\<^sup>*\<^sup>* (Nothing, NewClient) (out :: 'r client_output, rp_client rp)"
    and call: "Call op decode es method (params :: 'r) rp = (result, sent, es1, rp1)"
  shows "(result \<noteq> None \<longrightarrow> cl_nextID (rp_client rp) \<notin> cl_pending (rp_client rp1)) \<and>
    (\<exists>out1 :: 'r client_output. client_step\<^sup>*\<^sup>* (Nothing, NewClient) (out1, rp_client rp1))"
proof -
  let ?m = "trim_space method" and ?c = "rp_client rp" and ?ctx = "withRequestTimeout (op_now op) (op_ctx op) rp"
  have inv: "client_inv ?c" using client_reach_inv [OF steps] by simp
  note fresh = inv_fresh [OF inv]
  show ?thesis
  proof (cases "?m = [] \<or> context_done ?ctx (op_now op)")
    case True
    then obtain err where "Call op decode es method params rp = (Some (Inl err), [], es, rp)"
      using Call_refused [of "method" op rp decode es params] by blast
    then show ?thesis using call steps fresh by auto
  next
    case False
    obtain r c1 where s: "start_call ?m params ?c = (r, c1)" by (meson surj_pair)
    have step: "client_step\<^sup>*\<^sup>* (Nothing, NewClient) (Nothing :: 'r client_output, c1)"
      using steps step_call [OF s] by (rule rtranclp.rtrancl_into_rtrancl)
    have m: "trim_space ?m \<noteq> []" "?m \<noteq> []" and d: "\<not> context_done ?ctx (op_now op)" using False by simp_all
    show ?thesis
    proof (cases rule: start_call_cases [OF s m(1) fresh, case_names gone begun])
      case gone
      then obtain err where "Call op decode es method params rp = (Some (Inl err), [], es, rp\<lparr>rp_client := c1\<rparr>)"
        using Call_unsent [OF m(2) d s, of decode es] by auto
      then show ?thesis using call step gone(3) fresh by auto
    next
      case begun
      let ?i = "cl_nextID ?c"
      show ?thesis
      proof (cases "op_write_ok op")
        case False
        then obtain err where "Call op decode es method params rp = (Some (Inl err), [], es, rp\<lparr>rp_client := removePending ?i c1\<rparr>)"
          using Call_unsent [OF m(2) d s, of decode es] begun(2) by auto
        moreover have "client_step (Nothing :: 'r client_output, c1) (Nothing, removePending ?i c1)" by (rule step_give_up)
        then have "client_step\<^sup>*\<^sup>* (Nothing, NewClient) (Nothing :: 'r client_output, removePending ?i c1)"
          by (rule rtranclp.rtrancl_into_rtrancl [OF step])
        ultimately show ?thesis using call by (auto simp: removePending_def)
      next
        case True
        obtain ended es2 c2 where w: "wait_response ?ctx ?i es c1 = (ended, es2, c2)" by (metis prod_cases3)
        have "\<not> cl_done c1" using begun by simp
        then obtain out1 :: "'r client_output" where "client_step\<^sup>*\<^sup>* (Nothing, c1) (out1, c2)" using wait_runs [OF w] by blast
        then have "client_step\<^sup>*\<^sup>* (Nothing, NewClient) (out1, c2)" by (rule rtranclp_trans [OF step])
        moreover have "?i \<notin> cl_pending c2" if "ended \<noteq> None" using w wait_frees that by fastforce
        ultimately show ?thesis using call Call_waits [OF m(2) d s [unfolded begun(2)] True w, of decode] by auto
      qed
    qed
  qed
qed

lemma Call_ends:
  assumes "Clock now \<in> set es" "context_done (withRequestTimeout (op_now op) (op_ctx op) rp) now"
  shows "fst (Call op decode es method params rp) \<noteq> None"
proof (cases "trim_space method = [] \<or> context_done (withRequestTimeout (op_now op) (op_ctx op) rp) (op_now op)")
  case True
  then show ?thesis using Call_refused [of "method" op rp decode es params] by auto
next
  case False
  obtain r c1 where s: "start_call (trim_space method) params (rp_client rp) = (r, c1)" by (meson surj_pair)
  obtain i where i: "fst (wait_response (withRequestTimeout (op_now op) (op_ctx op) rp) (case r of Inl err \<Rightarrow> 0 | Inr (i, m) \<Rightarrow> i) es c1) = Some i"
    using wait_clock [OF assms] by blast
  then show ?thesis
    using False s by (cases r) (auto simp: Call_def Let_def split: prod.splits)
qed


definition demo_operation :: "string operation" where
  "demo_operation =
     \<lparr>op_now = 0, op_ctx = \<lparr>cx_deadline = None, cx_cancelled = False\<rparr>, op_write_ok = True,
      op_error = (\<lambda>r. if r = ''no'' then Some (1, r) else None)\<rparr>"

definition fresh_client :: rpc_client where
  "fresh_client = \<lparr>rp_client = NewClient, rp_requestTimeout = defaultClientRequestTimeout, rp_closed = False\<rparr>"

lemma fresh_client_new: "new_rpc_client [] = Inr fresh_client"
  by (simp add: new_rpc_client_def fresh_client_def)

lemma fresh_steps: "client_step\<^sup>*\<^sup>* (Nothing, NewClient) (Nothing :: string client_output, rp_client fresh_client)"
  by (simp add: fresh_client_def)

text \<open>A notification of the server and another call come before the response.\<close>

theorem Call_answered_witness:
  "\<exists>rp1. Call demo_operation Some
      [Arrives True True (Message None (Method ''log'') ''x''), OtherCall ''other'' ''y'',
       Arrives True True (Message (Some (IdInt 1)) NoMethod ''yes''), ContextCancelled] ''ask'' ''z'' fresh_client =
    (Some (Inr ''yes''), [Message (Some (IdInt 1)) (Method ''ask'') ''z''], [ContextCancelled], rp1)"
proof -
  let ?ctx = "withRequestTimeout (op_now demo_operation) (op_ctx demo_operation) fresh_client"
  let ?pre = "[Arrives True True (Message None (Method ''log'') ''x''), OtherCall ''other'' ''y'']"
  let ?p = "Message (Some (IdInt 1)) NoMethod ''yes''"
  have facts: "\<not> cl_done (rp_client fresh_client)" "trim_space ''ask'' \<noteq> []" "op_write_ok demo_operation"
    "\<not> context_done ?ctx (op_now demo_operation)" "list_all (passes_by ?ctx (cl_nextID (rp_client fresh_client))) ?pre"
    "envelope ?p = Some (Some (IdInt 1), [])" "parseResponseID (IdInt 1) = Some (cl_nextID (rp_client fresh_client))"
    by code_simp+
  have "trim_space ''ask'' = ''ask''" "cl_nextID (rp_client fresh_client) = 1"
    "call_response demo_operation Some ''ask'' 1 ?p = Inr ''yes''" by code_simp+
  then show ?thesis
    using Call_answered [OF fresh_steps facts(1-3) refl facts(4-7), of Some True "[ContextCancelled]" "''z''"] by simp
qed


section \<open>The handshake and the end\<close>

lemma wait_keeps: "cl_initialized (snd (snd (wait_response ctx i es c))) = cl_initialized c"
proof (induction ctx i es c rule: wait_response.induct)
  case (2 ctx i write_ok response_ok p es c)
  obtain out c1 where turn: "read_turn write_ok response_ok p c = (out, c1)" by (meson surj_pair)
  have "cl_initialized c1 = cl_initialized c"
    using turn by (auto simp: read_turn_def routeResponse_def removePending_def fail_loop_def
        split: option.splits prod.splits if_splits)
  then show ?case using 2 turn by (auto simp: removePending_def)
qed (auto simp: removePending_def fail_loop_def start_call_def registerPending_def Let_def)

lemma start_call_keeps [simp]: "cl_initialized (snd (start_call method params c)) = cl_initialized c"
  by (auto simp: start_call_def registerPending_def Let_def)

lemma Call_keeps:
  assumes "Call op decode es method params rp = (r, sent, es1, rp1)"
  shows "cl_initialized (rp_client rp1) = cl_initialized (rp_client rp) \<and> rp_closed rp1 = rp_closed rp \<and>
    rp_requestTimeout rp1 = rp_requestTimeout rp \<and> (r \<noteq> None \<longrightarrow> sent = [] \<or> (\<exists>i. sent = [Message (Some (IdInt i)) (Method (trim_space method)) params])) \<and>
    (\<forall>x. r = Some (Inr x) \<longrightarrow> sent \<noteq> [])"
proof (cases "trim_space method = [] \<or> context_done (withRequestTimeout (op_now op) (op_ctx op) rp) (op_now op)")
  case True
  then show ?thesis using assms Call_refused [of "method" op rp decode es params] by auto
next
  case False
  then have head: "trim_space method \<noteq> []" "\<not> context_done (withRequestTimeout (op_now op) (op_ctx op) rp) (op_now op)"
    by simp_all
  obtain s c1 where s: "start_call (trim_space method) params (rp_client rp) = (s, c1)" by (meson surj_pair)
  have c1: "cl_initialized c1 = cl_initialized (rp_client rp)" using start_call_keeps [of "trim_space method" params "rp_client rp"] s by simp
  show ?thesis
  proof (cases "case s of Inl err \<Rightarrow> True | Inr (i, message) \<Rightarrow> \<not> op_write_ok op")
    case True
    then show ?thesis
      using assms Call_unsent [OF head s True, of decode es] c1 by (auto simp: removePending_def split: sum.splits)
  next
    case sent: False
    then obtain i message where r: "s = Inr (i, message)" and ok: "op_write_ok op" by (auto split: sum.splits prod.splits)
    have m: "message = Message (Some (IdInt i)) (Method (trim_space method)) params"
      using s r by (auto simp: start_call_def Let_def split: if_splits prod.splits option.splits)
    obtain ended es2 c2 where w: "wait_response (withRequestTimeout (op_now op) (op_ctx op) rp) i es c1 = (ended, es2, c2)"
      by (metis prod_cases3)
    then have "cl_initialized c2 = cl_initialized c1" using wait_keeps [of "withRequestTimeout (op_now op) (op_ctx op) rp" i es c1] by simp
    then show ?thesis using assms Call_waits [OF head s [unfolded r] ok w, of decode] m c1 by auto
  qed
qed

text \<open>The handshake of a client that is not initialized yet.\<close>

lemma Initialize_fresh:
  assumes "Initialize op op2 decode es params no_params rp = (Some r, sent, es1, rp1)" "\<not> cl_initialized (rp_client rp)"
  shows "(cl_initialized (rp_client rp1) \<longleftrightarrow> (\<exists>x. r = Inr x)) \<and> rp_requestTimeout rp1 = rp_requestTimeout rp \<and>
    (\<forall>x. r = Inr x \<longrightarrow> (\<exists>i. sent = [Message (Some (IdInt i)) (Method ''initialize'') params,
       Message None (Method ''initialized'') no_params]))"
proof -
  obtain rc sent0 es0 rp0 where call: "Call op decode es ''initialize'' params rp = (rc, sent0, es0, rp0)" by (metis prod_cases4)
  have "trim_space ''initialize'' = ''initialize''" by code_simp
  note keeps = Call_keeps [OF call, unfolded this]
  have "trim_space ''initialized'' = ''initialized''" by code_simp
  then have note_sent: "sent2 = [Message None (Method ''initialized'') no_params]"
    if "Notify op2 ''initialized'' no_params rp0 = (None, sent2)" for sent2
    using that by (auto simp: Notify_def Let_def split: if_splits)
  show ?thesis
    using assms keeps note_sent by (auto simp: Initialize_def call split: option.splits sum.splits prod.splits)
qed

text \<open>
  The handshake takes place at most once. On a client that is initialized nothing is sent; otherwise the
  client is initialized afterwards exactly when the result is one, and then the request and after it the
  notification have been sent; after an error it may be tried again.
\<close>

theorem Initialize_once:
  assumes "Initialize op op2 decode es params no_params rp = (Some r, sent, es1, rp1)"
  shows "(cl_initialized (rp_client rp) \<longrightarrow> r = Inl (InitRefused AlreadyInitialized) \<and> sent = [] \<and> rp1 = rp) \<and>
    (\<not> cl_initialized (rp_client rp) \<longrightarrow>
       (cl_initialized (rp_client rp1) \<longleftrightarrow> (\<exists>x. r = Inr x)) \<and>
       (\<forall>x. r = Inr x \<longrightarrow> (\<exists>i. sent = [Message (Some (IdInt i)) (Method ''initialize'') params,
          Message None (Method ''initialized'') no_params])))"
proof (cases "cl_initialized (rp_client rp)")
  case True
  then show ?thesis using assms by (simp add: Initialize_def)
next
  case False
  then show ?thesis using Initialize_fresh [OF assms] by simp
qed

theorem Initialize_once_witness:
  "\<exists>es1 rp1. Initialize demo_operation demo_operation Some [Arrives True True (Message (Some (IdInt 1)) NoMethod ''ok'')] ''p'' [] fresh_client =
      (Some (Inr ''ok''), [Message (Some (IdInt 1)) (Method ''initialize'') ''p'', Message None (Method ''initialized'') []], es1, rp1) \<and>
    cl_initialized (rp_client rp1)"
proof -
  let ?init = "Initialize demo_operation demo_operation Some [Arrives True True (Message (Some (IdInt 1)) NoMethod ''ok'')] ''p'' [] fresh_client"
  obtain r sent es1 rp1 where init: "?init = (r, sent, es1, rp1)" by (metis prod_cases4)
  have "case ?init of (Some (Inr x), Message i m r # rest, _) \<Rightarrow> x = ''ok'' \<and> i = Some (IdInt 1) | _ \<Rightarrow> False" by code_simp
  then obtain i m rest p where r: "r = Some (Inr ''ok'')" and sent: "sent = Message (Some (IdInt 1)) m p # rest"
    unfolding init by (auto split: option.splits sum.splits list.splits payload.splits)
  have "\<not> cl_initialized (rp_client fresh_client)" by code_simp
  then show ?thesis using Initialize_once [OF init [unfolded r]] init r sent by auto
qed

lemma Close_final:
  assumes "rpc_Close close_failed ended rp = (Some e, rp1)" "rp_closed rp \<longrightarrow> cl_done (rp_client rp)"
    and steps: "client_step\<^sup>*\<^sup>* (Nothing, NewClient) (out :: 'r client_output, rp_client rp)"
  shows "cl_done (rp_client rp1) \<and> rp_closed rp1 \<and> cl_pending (rp_client rp1) = {}"
proof -
  have inv: "client_inv (rp_client rp)" using client_reach_inv [OF steps] by simp
  show ?thesis
    using assms(1,2) inv by (auto simp: rpc_Close_def fail_loop_def client_inv_def split: if_splits option.splits)
qed

text \<open>After the end of the loop no call gets to its request, so it returns at once.\<close>

lemma Call_after_end:
  assumes "cl_done (rp_client rp)"
  shows "\<exists>err rp1. Call op decode es method params rp = (Some (Inl err), [], es, rp1)"
proof -
  obtain r c1 where s: "start_call (trim_space method) params (rp_client rp) = (r, c1)" by (meson surj_pair)
  then have "\<exists>err. r = Inl err" using assms by (auto simp: start_call_def registerPending_def Let_def split: if_splits)
  then show ?thesis using s by (auto simp: Call_def Let_def)
qed

text \<open>
  Whatever the server answers, a shutdown that returns has closed the client: the request and the exit
  notification went out at most once and in this order, the reading loop has ended, no call waits, and every
  later call returns an error at once and sends nothing.
\<close>

theorem Shutdown_final:
  assumes steps: "client_step\<^sup>*\<^sup>* (Nothing, NewClient) (out :: 'r client_output, rp_client rp)"
    and "rp_closed rp \<longrightarrow> cl_done (rp_client rp)"
    and "Shutdown op op2 es close_failed ended (no_params :: 'r) rp = (Some errors, sent, rp1)"
  shows "(\<exists>i. subseq sent [Message (Some (IdInt i)) (Method ''shutdown'') no_params, Message None (Method ''exit'') no_params]) \<and>
    cl_done (rp_client rp1) \<and> rp_closed rp1 \<and> cl_pending (rp_client rp1) = {} \<and>
    (\<exists>err rp2. Call op3 decode es3 method (params :: 'r) rp1 = (Some (Inl err), [], es3, rp2))"
proof -
  obtain r sent0 es0 rp0 where call: "Call op (\<lambda>r. Some ()) es ''shutdown'' no_params rp = (r, sent0, es0, rp0)" by (metis prod_cases4)
  obtain exitErr sent2 where notify: "Notify op2 ''exit'' no_params rp0 = (exitErr, sent2)" by (meson surj_pair)
  obtain c rp2 where close: "rpc_Close close_failed ended rp0 = (c, rp2)" by (meson surj_pair)
  have parts: "r \<noteq> None" "c \<noteq> None" "rp1 = rp2" "sent = sent0 @ sent2"
    using assms(3) by (auto simp: Shutdown_def call notify close split: option.splits)
  have "trim_space ''shutdown'' = ''shutdown''" by code_simp
  then have s0: "sent0 = [] \<or> (\<exists>i. sent0 = [Message (Some (IdInt i)) (Method ''shutdown'') no_params])" and closed: "rp_closed rp0 = rp_closed rp"
    using Call_keeps [OF call] parts(1) by auto
  have "trim_space ''exit'' = ''exit''" by code_simp
  then have s2: "sent2 = [] \<or> sent2 = [Message None (Method ''exit'') no_params]"
    using notify by (auto simp: Notify_def Let_def split: if_splits)
  have sub: "\<exists>i. subseq sent [Message (Some (IdInt i)) (Method ''shutdown'') no_params, Message None (Method ''exit'') no_params]"
    using s0 s2 parts(4) by auto
  obtain out1 :: "'r client_output" where reach: "client_step\<^sup>*\<^sup>* (Nothing, NewClient) (out1, rp_client rp0)"
    using Call_runs [OF steps call] by blast
  have "cl_done (rp_client rp0)" if "rp_closed rp0"
  proof -
    have d: "cl_done (rp_client rp)" using assms(2) closed that by simp
    obtain s c1 where s: "start_call ''shutdown'' no_params (rp_client rp) = (s, c1)" by (meson surj_pair)
    have "cl_done c1 \<and> (\<exists>err. s = Inl err)" using s d by (auto simp: start_call_def registerPending_def Let_def split: if_splits)
    then show ?thesis
      using call s d \<open>trim_space ''shutdown'' = ''shutdown''\<close>
      by (auto simp: Call_def Let_def split: if_splits)
  qed
  then have "cl_done (rp_client rp1) \<and> rp_closed rp1 \<and> cl_pending (rp_client rp1) = {}"
    using Close_final [OF _ _ reach, of close_failed ended _ rp2] close parts by auto
  then show ?thesis using sub Call_after_end [of rp1 op3 decode es3 "method" params] by blast
qed

text \<open>A server that does not answer: the shutdown still sends both messages and closes the client.\<close>

theorem Shutdown_final_witness:
  "\<exists>errors sent rp1. Shutdown demo_operation demo_operation [Clock 10000000000] False (Some EndOfStream) [] fresh_client =
      (Some errors, sent, rp1) \<and> length sent = 2 \<and> cl_pending (rp_client rp1) = {}"
proof -
  let ?run = "Shutdown demo_operation demo_operation [Clock 10000000000] False (Some EndOfStream) [] fresh_client"
  obtain e sent rp1 where run: "?run = (e, sent, rp1)" by (metis prod_cases3)
  have "case ?run of (Some errors, sent, rp1) \<Rightarrow> length sent = 2 | _ \<Rightarrow> False" by code_simp
  then obtain errors where e: "e = Some errors" "length sent = 2" unfolding run by (auto split: option.splits)
  have "rp_closed fresh_client \<longrightarrow> cl_done (rp_client fresh_client)" by code_simp
  then show ?thesis
    using Shutdown_final [OF fresh_steps _ run [unfolded e(1)], of demo_operation Some "[]" "[]" "[]"] run e by auto
qed

end
