(* ===== verification/LspWire.thy ===== *)
theory LspWire
  imports LspClient LspCheck
begin

text \<open>
  The engines on the wire: what \<open>lookupSymbols\<close>, \<open>lookupReferences\<close> and the other lookups of \<open>pkg/lsp\<close> send through
  the client of \<open>client.go\<close>, with the parameters of \<open>protocol_types.go\<close>. This makes of a connection an
  \<open>lsp_client\<close> and a \<open>checkClient\<close>, so that all results on the engines hold of it.
\<close>

section \<open>Parameters\<close>

record TextDocumentIdentifier =
  ti_URI :: string

record TextDocumentItem =
  td_URI :: string
  td_LanguageID :: string
  td_Version :: int
  td_Text :: string

record DidOpenTextDocumentParams =
  do_TextDocument :: TextDocumentItem

record DidCloseTextDocumentParams =
  dx_TextDocument :: TextDocumentIdentifier

record TextDocumentPositionParams =
  tp_TextDocument :: TextDocumentIdentifier
  tp_Position :: Position

record WorkspaceSymbolParams =
  wp_Query :: string

record ReferenceContext =
  rx_IncludeDeclaration :: bool

record ReferenceParams = TextDocumentPositionParams +
  rf_Context :: ReferenceContext

text \<open>The embedded parameters are all the fields.\<close>

type_synonym CallHierarchyPrepareParams = TextDocumentPositionParams
type_synonym typeHierarchyPrepareParams = TextDocumentPositionParams

record CallHierarchyIncomingCallsParams =
  cp_Item :: CallHierarchyItem

record typeHierarchySubtypesParams =
  tq_Item :: typeHierarchyItem

text \<open>The parameters that are encoded as JSON.\<close>

datatype wire_params =
    SymbolParams WorkspaceSymbolParams
  | ReferencesParams ReferenceParams
  | PrepareCallsParams CallHierarchyPrepareParams
  | IncomingCallsParams CallHierarchyIncomingCallsParams
  | PrepareTypesParams typeHierarchyPrepareParams
  | SubtypesParams typeHierarchySubtypesParams
  | ImplementationParams TextDocumentPositionParams
  | OpenParams DidOpenTextDocumentParams
  | CloseParams DidCloseTextDocumentParams

text \<open>
  The encoding of parameters, the decoding of results, the error in a response, and the text of a failure. A result
  that is absent decodes to the empty list.
\<close>

record 'r wire_codec =
  wc_encode :: "wire_params \<Rightarrow> 'r"
  wc_symbols :: "'r \<Rightarrow> SymbolInformation list option"
  wc_locations :: "'r \<Rightarrow> Location list option"
  wc_items :: "'r \<Rightarrow> CallHierarchyItem list option"
  wc_incoming :: "'r \<Rightarrow> CallHierarchyIncomingCall list option"
  wc_error :: "'r \<Rightarrow> (int \<times> string) option"
  wc_describe :: "call_failure \<Rightarrow> string"
  wc_describe_subscribe :: "call_error \<Rightarrow> string"

section \<open>The connection\<close>

text \<open>
  A connection: the client, the time, the context of the command, whether messages can be written, what will happen on
  it, what was sent, and the subscription of the diagnostics.
\<close>

record 'r wire =
  wi_client :: rpc_client
  wi_now :: int
  wi_ctx :: go_context
  wi_write_ok :: bool
  wi_events :: "'r client_event list"
  wi_sent :: "'r payload list"
  wi_subscription :: "int option"

definition wire_operation :: "'r wire_codec \<Rightarrow> 'r wire \<Rightarrow> 'r operation" where
  "wire_operation codec w =
     \<lparr>op_now = wi_now w, op_ctx = wi_ctx w, op_write_ok = wi_write_ok w, op_error = wc_error codec\<rparr>"

text \<open>When nothing else happens, the time of the call passes; a call without a deadline waits for the user's interrupt.\<close>

definition at_last :: "'r wire \<Rightarrow> 'r client_event" where
  "at_last w =
     (case cx_deadline (withRequestTimeout (wi_now w) (wi_ctx w) (wi_client w)) of None \<Rightarrow> ContextCancelled | Some d \<Rightarrow> Clock d)"

definition clock_after :: "int \<Rightarrow> 'r client_event list \<Rightarrow> int" where
  "clock_after now es = fold (\<lambda>e t. case e of Clock n \<Rightarrow> max n t | _ \<Rightarrow> t) es now"

definition wire_call ::
  "'r wire_codec \<Rightarrow> ('r \<Rightarrow> 'a option) \<Rightarrow> string \<Rightarrow> wire_params \<Rightarrow> 'r wire \<Rightarrow> 'a go_result \<times> 'r wire" where
  "wire_call codec decode method params w =
     (let es = wi_events w @ [at_last w]
      in case Call (wire_operation codec w) decode es method (wc_encode codec params) (wi_client w) of
           (r, sent, es1, c1) \<Rightarrow>
             (case r of
                Some (Inr x) \<Rightarrow> Inr x
              | Some (Inl err) \<Rightarrow> Inl (wc_describe codec err)
              | None \<Rightarrow> Inl (wc_describe codec CallTimedOut),
              w\<lparr>wi_client := c1, wi_now := clock_after (wi_now w) (take (length es - length es1) es),
                wi_events := butlast es1, wi_sent := wi_sent w @ sent\<rparr>))"

section \<open>The lookups\<close>

definition symbols_call :: "'r wire_codec \<Rightarrow> string \<Rightarrow> 'r wire \<Rightarrow> SymbolInformation list go_result \<times> 'r wire" where
  "symbols_call codec symbol = wire_call codec (wc_symbols codec) ''workspace/symbol'' (SymbolParams \<lparr>wp_Query = symbol\<rparr>)"

definition references_call ::
  "'r wire_codec \<Rightarrow> string \<Rightarrow> Position \<Rightarrow> bool \<Rightarrow> 'r wire \<Rightarrow> Location list go_result \<times> 'r wire" where
  "references_call codec uri position include_declaration =
     wire_call codec (wc_locations codec) ''textDocument/references''
       (ReferencesParams \<lparr>tp_TextDocument = \<lparr>ti_URI = uri\<rparr>, tp_Position = position,
         rf_Context = \<lparr>rx_IncludeDeclaration = include_declaration\<rparr>\<rparr>)"

definition prepareCalls_call :: "'r wire_codec \<Rightarrow> string \<Rightarrow> Position \<Rightarrow> 'r wire \<Rightarrow> CallHierarchyItem list go_result \<times> 'r wire" where
  "prepareCalls_call codec uri position =
     wire_call codec (wc_items codec) ''textDocument/prepareCallHierarchy''
       (PrepareCallsParams \<lparr>tp_TextDocument = \<lparr>ti_URI = uri\<rparr>, tp_Position = position\<rparr>)"

definition incomingCalls_call ::
  "'r wire_codec \<Rightarrow> CallHierarchyItem \<Rightarrow> 'r wire \<Rightarrow> CallHierarchyIncomingCall list go_result \<times> 'r wire" where
  "incomingCalls_call codec item =
     wire_call codec (wc_incoming codec) ''callHierarchy/incomingCalls'' (IncomingCallsParams \<lparr>cp_Item = item\<rparr>)"

definition prepareTypes_call :: "'r wire_codec \<Rightarrow> string \<Rightarrow> Position \<Rightarrow> 'r wire \<Rightarrow> typeHierarchyItem list go_result \<times> 'r wire" where
  "prepareTypes_call codec uri position =
     wire_call codec (wc_items codec) ''textDocument/prepareTypeHierarchy''
       (PrepareTypesParams \<lparr>tp_TextDocument = \<lparr>ti_URI = uri\<rparr>, tp_Position = position\<rparr>)"

definition subtypes_call :: "'r wire_codec \<Rightarrow> typeHierarchyItem \<Rightarrow> 'r wire \<Rightarrow> typeHierarchyItem list go_result \<times> 'r wire" where
  "subtypes_call codec item = wire_call codec (wc_items codec) ''typeHierarchy/subtypes'' (SubtypesParams \<lparr>tq_Item = item\<rparr>)"

definition implementation_call :: "'r wire_codec \<Rightarrow> string \<Rightarrow> Position \<Rightarrow> 'r wire \<Rightarrow> Location list go_result \<times> 'r wire" where
  "implementation_call codec uri position =
     wire_call codec (wc_locations codec) ''textDocument/implementation''
       (ImplementationParams \<lparr>tp_TextDocument = \<lparr>ti_URI = uri\<rparr>, tp_Position = position\<rparr>)"

definition wire_client :: "'r wire_codec \<Rightarrow> 'r wire lsp_client" where
  "wire_client codec =
     \<lparr>lc_symbols = symbols_call codec, lc_references = references_call codec, lc_prepareCalls = prepareCalls_call codec,
      lc_incomingCalls = incomingCalls_call codec, lc_prepareTypes = prepareTypes_call codec,
      lc_subtypes = subtypes_call codec, lc_implementation = implementation_call codec\<rparr>"

section \<open>Notifications\<close>

definition wire_notify :: "'r wire_codec \<Rightarrow> check_message \<Rightarrow> 'r wire \<Rightarrow> string option \<times> 'r wire" where
  "wire_notify codec m w =
     (let (method, params) =
        (case m of
           DidOpen uri language version content \<Rightarrow>
             (''textDocument/didOpen'',
              OpenParams \<lparr>do_TextDocument = \<lparr>td_URI = uri, td_LanguageID = language, td_Version = version, td_Text = content\<rparr>\<rparr>)
         | DidClose uri \<Rightarrow> (''textDocument/didClose'', CloseParams \<lparr>dx_TextDocument = \<lparr>ti_URI = uri\<rparr>\<rparr>))
      in case Notify (wire_operation codec w) method (wc_encode codec params) (wi_client w) of
           (err, sent) \<Rightarrow> (map_option (wc_describe codec) err, w\<lparr>wi_sent := wi_sent w @ sent\<rparr>))"

definition wire_subscribe :: "'r wire_codec \<Rightarrow> 'r wire \<Rightarrow> string option \<times> 'r wire" where
  "wire_subscribe codec w =
     (case SubscribeNotification ''textDocument/publishDiagnostics'' (rp_client (wi_client w)) of
        (Inl err, c) \<Rightarrow> (Some (wc_describe_subscribe codec err), w)
      | (Inr h, c) \<Rightarrow> (None, w\<lparr>wi_client := (wi_client w)\<lparr>rp_client := c\<rparr>, wi_subscription := Some h\<rparr>))"

definition wire_unsubscribe :: "'r wire \<Rightarrow> 'r wire" where
  "wire_unsubscribe w =
     (case wi_subscription w of
        None \<Rightarrow> w
      | Some h \<Rightarrow>
          w\<lparr>wi_client := (wi_client w)\<lparr>rp_client := unsubscribe ''textDocument/publishDiagnostics'' h (rp_client (wi_client w))\<rparr>,
            wi_subscription := None\<rparr>)"

definition wire_check_client :: "'r wire_codec \<Rightarrow> 'r wire checkClient" where
  "wire_check_client codec =
     \<lparr>cc_notify = wire_notify codec, cc_subscribe = wire_subscribe codec, cc_unsubscribe = wire_unsubscribe\<rparr>"

section \<open>Calls on the wire\<close>

lemma at_last_ends:
  assumes "\<not> context_done (withRequestTimeout (wi_now w) (wi_ctx w) (wi_client w)) (wi_now w)"
  shows "fst (wait_response (withRequestTimeout (wi_now w) (wi_ctx w) (wi_client w)) i (wi_events w @ [at_last w]) c) \<noteq> None"
proof -
  have "fst (wait_response ctx i (es @ [ContextCancelled]) c) \<noteq> None" for ctx i c and es :: "'a client_event list"
  proof (induction ctx i es c rule: wait_response.induct)
    case (2 ctx i write_ok response_ok p es c)
    then show ?case by (cases "read_turn write_ok response_ok p c") auto
  qed auto
  moreover have "fst (wait_response ctx i (es @ [Clock d]) c) \<noteq> None" if "cx_deadline ctx = Some d" for ctx i c d and es :: "'a client_event list"
    using wait_clock [of d "es @ [Clock d]" ctx i c] that by (auto simp: context_done_def)
  ultimately show ?thesis by (auto simp: at_last_def split: option.split)
qed

text \<open>Without a message of the server no call has a result.\<close>

definition silent :: "'r client_event list \<Rightarrow> bool" where
  "silent es \<longleftrightarrow> list_all (\<lambda>e. case e of Arrives write_ok response_ok p \<Rightarrow> False | _ \<Rightarrow> True) es"

lemma wait_silent: "silent es \<Longrightarrow> fst (wait_response ctx i es c) = Some (GotResponse p) \<Longrightarrow> False"
  by (induction ctx i es c rule: wait_response.induct) (auto simp: silent_def split: if_splits)

lemma call_silent:
  assumes "silent es"
  shows "\<nexists>x. fst (Call op decode es method params rp) = Some (Inr x)"
proof (cases "trim_space method = [] \<or> context_done (withRequestTimeout (op_now op) (op_ctx op) rp) (op_now op)")
  case True
  then show ?thesis using Call_refused [of "method" op rp decode es params] by auto
next
  case False
  then have head: "trim_space method \<noteq> []" "\<not> context_done (withRequestTimeout (op_now op) (op_ctx op) rp) (op_now op)"
    by simp_all
  obtain r c1 where s: "start_call (trim_space method) params (rp_client rp) = (r, c1)" by (meson surj_pair)
  show ?thesis
  proof (cases "case r of Inl err \<Rightarrow> True | Inr (i, message) \<Rightarrow> \<not> op_write_ok op")
    case True
    then show ?thesis using Call_unsent [OF head s True, of decode es] by auto
  next
    case sent: False
    then obtain i message where r: "r = Inr (i, message)" and ok: "op_write_ok op" by (auto split: sum.splits prod.splits)
    obtain ended es2 c2 where w: "wait_response (withRequestTimeout (op_now op) (op_ctx op) rp) i es c1 = (ended, es2, c2)"
      by (metis prod_cases3)
    have "ended \<noteq> Some (GotResponse p)" for p using wait_silent [OF assms] w by (metis fst_conv)
    then have "map_option (call_result op decode (trim_space method) i c2) ended \<noteq> Some (Inr x)" for x
      by (cases ended) (auto simp: call_result_def split: call_end.split)
    then show ?thesis using Call_waits [OF head s [unfolded r] ok w, of decode] by simp
  qed
qed

lemma wire_silent:
  assumes "silent (wi_events w)"
  shows "\<exists>err w1. wire_call codec decode method params w = (Inl err, w1)"
proof -
  have "silent (wi_events w @ [at_last w])" using assms by (simp add: silent_def at_last_def split: option.split)
  from call_silent [OF this, of "wire_operation codec w" decode "method" "wc_encode codec params" "wi_client w"]
  show ?thesis by (auto simp: wire_call_def Let_def split: prod.split option.split sum.split)
qed

section \<open>Numbers\<close>

lemma start_call_numbers:
  assumes "start_call method params c = (r, c1)"
  shows "cl_nextID c \<le> cl_nextID c1 \<and>
    (\<forall>i m. r = Inr (i, m) \<longrightarrow> i = cl_nextID c \<and> cl_nextID c < cl_nextID c1 \<and> msg_id m = Some (IdInt i))"
  using assms by (auto simp: start_call_def registerPending_def Let_def split: if_splits prod.splits option.splits)

lemma wait_numbers: "cl_nextID c \<le> cl_nextID (snd (snd (wait_response ctx i es c)))"
proof (induction ctx i es c rule: wait_response.induct)
  case (2 ctx i write_ok response_ok p es c)
  obtain out c1 where turn: "read_turn write_ok response_ok p c = (out, c1)" by (meson surj_pair)
  have "cl_nextID c1 = cl_nextID c"
    using turn by (auto simp: read_turn_def routeResponse_def removePending_def fail_loop_def
        split: option.splits prod.splits if_splits)
  then show ?case using 2 turn by (auto simp: removePending_def)
next
  case (6 ctx i meth params es c)
  then show ?case using start_call_numbers [of "meth" params c] by (cases "start_call meth params c") auto
qed (auto simp: removePending_def fail_loop_def)

lemma Call_numbers:
  assumes "Call op decode es method params rp = (r, sent, es1, rp1)"
  shows "cl_nextID (rp_client rp) \<le> cl_nextID (rp_client rp1) \<and>
    (sent = [] \<or> cl_nextID (rp_client rp) < cl_nextID (rp_client rp1) \<and> map msg_id sent = [Some (IdInt (cl_nextID (rp_client rp)))])"
proof (cases "trim_space method = [] \<or> context_done (withRequestTimeout (op_now op) (op_ctx op) rp) (op_now op)")
  case True
  then show ?thesis using assms Call_refused [of "method" op rp decode es params] by auto
next
  case False
  then have head: "trim_space method \<noteq> []" "\<not> context_done (withRequestTimeout (op_now op) (op_ctx op) rp) (op_now op)"
    by simp_all
  obtain s c1 where s: "start_call (trim_space method) params (rp_client rp) = (s, c1)" by (meson surj_pair)
  show ?thesis
  proof (cases "case s of Inl err \<Rightarrow> True | Inr (i, message) \<Rightarrow> \<not> op_write_ok op")
    case True
    then show ?thesis
      using assms Call_unsent [OF head s True, of decode es] start_call_numbers [OF s]
      by (auto simp: removePending_def split: sum.splits)
  next
    case sent: False
    then obtain i message where r: "s = Inr (i, message)" and ok: "op_write_ok op" by (auto split: sum.splits prod.splits)
    obtain ended es2 c2 where w: "wait_response (withRequestTimeout (op_now op) (op_ctx op) rp) i es c1 = (ended, es2, c2)"
      by (metis prod_cases3)
    have "cl_nextID c1 \<le> cl_nextID c2"
      using wait_numbers [of c1 "withRequestTimeout (op_now op) (op_ctx op) rp" i es] w by simp
    then show ?thesis using assms Call_waits [OF head s [unfolded r] ok w, of decode] start_call_numbers [OF s] r by auto
  qed
qed

text \<open>The numbers of the requests that were sent.\<close>

definition sent_numbers :: "'r wire \<Rightarrow> int list" where
  "sent_numbers w = List.map_filter (\<lambda>m. case msg_id m of Some (IdInt i) \<Rightarrow> Some i | _ \<Rightarrow> None) (wi_sent w)"

text \<open>Any use of a connection by the engines: lookups, notifications, and the subscription.\<close>

inductive wire_step :: "'r wire_codec \<Rightarrow> 'r wire \<Rightarrow> 'r wire \<Rightarrow> bool" for codec :: "'r wire_codec" where
  wire_symbols: "wire_step codec w (snd (symbols_call codec symbol w))"
| wire_references: "wire_step codec w (snd (references_call codec uri position include_declaration w))"
| wire_prepareCalls: "wire_step codec w (snd (prepareCalls_call codec uri position w))"
| wire_incoming: "wire_step codec w (snd (incomingCalls_call codec item w))"
| wire_prepareTypes: "wire_step codec w (snd (prepareTypes_call codec uri position w))"
| wire_subtypes: "wire_step codec w (snd (subtypes_call codec item w))"
| wire_implementation: "wire_step codec w (snd (implementation_call codec uri position w))"
| wire_notifies: "wire_step codec w (snd (wire_notify codec m w))"
| wire_subscribes: "wire_step codec w (snd (wire_subscribe codec w))"
| wire_unsubscribes: "wire_step codec w (wire_unsubscribe w)"

definition numbered :: "'r wire \<Rightarrow> bool" where
  "numbered w \<longleftrightarrow> sorted_wrt (<) (sent_numbers w) \<and> (\<forall>i \<in> set (sent_numbers w). i < cl_nextID (rp_client (wi_client w)))"

lemma Notify_no_number: "Notify op method params rp = (err, sent) \<Longrightarrow> \<forall>m \<in> set sent. msg_id m = None"
  by (auto simp: Notify_def Let_def split: if_splits)

lemma sent_append: "sent_numbers (w\<lparr>wi_sent := wi_sent w @ sent\<rparr>) =
    sent_numbers w @ List.map_filter (\<lambda>m. case msg_id m of Some (IdInt i) \<Rightarrow> Some i | _ \<Rightarrow> None) sent"
  by (simp add: sent_numbers_def map_filter_def)

lemma wire_call_numbered:
  assumes "numbered w"
  shows "numbered (snd (wire_call codec decode method params w))"
proof -
  obtain r sent es1 c1 where call: "Call (wire_operation codec w) decode (wi_events w @ [at_last w]) method (wc_encode codec params)
      (wi_client w) = (r, sent, es1, c1)" by (metis prod_cases4)
  let ?w = "snd (wire_call codec decode method params w)" and ?n = "cl_nextID (rp_client (wi_client w))"
  have fields: "wi_client ?w = c1" "sent_numbers ?w = sent_numbers (w\<lparr>wi_sent := wi_sent w @ sent\<rparr>)"
    by (simp_all add: wire_call_def call Let_def sent_numbers_def)
  consider "sent = []" "?n \<le> cl_nextID (rp_client c1)"
    | m where "sent = [m]" "msg_id m = Some (IdInt ?n)" "?n < cl_nextID (rp_client c1)"
    using Call_numbers [OF call] by auto
  then show ?thesis
  proof cases
    case 1
    then show ?thesis using assms by (force simp: numbered_def fields sent_append map_filter_simps)
  next
    case 2
    then show ?thesis using assms by (force simp: numbered_def fields sent_append map_filter_simps sorted_wrt_append)
  qed
qed

lemma wire_step_numbered: "wire_step codec w w' \<Longrightarrow> numbered w \<Longrightarrow> numbered w'"
proof (induction rule: wire_step.induct)
  case (wire_notifies w m)
  have "numbered (w\<lparr>wi_sent := wi_sent w @ sent\<rparr>)" if "\<forall>m \<in> set sent. msg_id m = None" for sent
  proof -
    have "List.map_filter (\<lambda>m. case msg_id m of Some (IdInt i) \<Rightarrow> Some i | _ \<Rightarrow> None) sent = []"
      using that by (induction sent) (simp_all add: map_filter_simps)
    then show ?thesis using wire_notifies.prems by (simp add: numbered_def sent_append)
  qed
  then show ?case by (auto simp: wire_notify_def Let_def split: check_message.split prod.split dest: Notify_no_number)
next
  case (wire_subscribes w)
  then show ?case
    by (auto simp: wire_subscribe_def SubscribeNotification_def numbered_def sent_numbers_def Let_def split: if_splits)
next
  case (wire_unsubscribes w)
  then show ?case by (auto simp: wire_unsubscribe_def unsubscribe_def numbered_def sent_numbers_def split: option.splits)
qed (simp_all add: wire_call_numbered symbols_call_def references_call_def prepareCalls_call_def incomingCalls_call_def
    prepareTypes_call_def subtypes_call_def implementation_call_def)

text \<open>
  No two requests of a connection have the same number. However the engines use a connection, whatever the server
  sends and whichever calls fail or are given up, the numbers of the requests on the wire increase.
\<close>

theorem wire_numbers_increase:
  assumes "(wire_step codec)\<^sup>*\<^sup>* w w'" "wi_sent w = []"
  shows "sorted_wrt (<) (sent_numbers w') \<and> distinct (sent_numbers w')"
proof -
  have "numbered w" using assms(2) by (simp add: numbered_def sent_numbers_def map_filter_simps)
  with assms(1) have "numbered w'" by (induction rule: rtranclp_induct) (simp_all add: wire_step_numbered)
  then show ?thesis by (simp add: numbered_def strict_sorted_iff)
qed

section \<open>A silent server\<close>


definition demo_codec :: "string wire_codec" where
  "demo_codec =
     \<lparr>wc_encode = (\<lambda>p. []), wc_symbols = (\<lambda>r. Some []), wc_locations = (\<lambda>r. Some []), wc_items = (\<lambda>r. Some []),
      wc_incoming = (\<lambda>r. Some []), wc_error = (\<lambda>r. None), wc_describe = (\<lambda>e. ''failed''), wc_describe_subscribe = (\<lambda>e. ''failed'')\<rparr>"

definition demo_wire :: "string client_event list \<Rightarrow> string wire" where
  "demo_wire es =
     \<lparr>wi_client = fresh_client, wi_now = 0, wi_ctx = \<lparr>cx_deadline = None, cx_cancelled = False\<rparr>, wi_write_ok = True, wi_events = es,
      wi_sent = [], wi_subscription = None\<rparr>"

definition wire_env :: lsp_env where
  "wire_env =
     \<lparr>le_cwd = ''/w'', le_sha256 = (\<lambda>s. ''h''), le_open_file = (\<lambda>p. None), le_read_file = (\<lambda>p. None), le_tree = (\<lambda>p. FsDir []),
      le_authority_ok = (\<lambda>a. True)\<rparr>"

definition wire_hit :: referenceLine where
  "wire_hit = \<lparr>rl_Path = ''a.go'', rl_Line = 1, rl_Snippet = ''f()''\<rparr>"


text \<open>A call that times out and two that are answered.\<close>

definition wire_use :: "string wire" where
  "wire_use =
     snd (symbols_call demo_codec ''c'' (snd (symbols_call demo_codec ''b'' (snd (symbols_call demo_codec ''a'' (demo_wire
       [Clock 20000000000, Arrives True True (Message (Some (IdInt 1)) NoMethod ''late''),
        Arrives True True (Message (Some (IdInt 2)) NoMethod []), Arrives True True (Message (Some (IdInt 3)) NoMethod [])]))))))"

theorem wire_numbers_increase_witness:
  "sent_numbers wire_use = [1, 2, 3] \<and> distinct (sent_numbers wire_use)"
proof -
  let ?w = "demo_wire [Clock 20000000000, Arrives True True (Message (Some (IdInt 1)) NoMethod ''late''),
    Arrives True True (Message (Some (IdInt 2)) NoMethod []), Arrives True True (Message (Some (IdInt 3)) NoMethod [])]"
  have step: "wire_step demo_codec w (snd (symbols_call demo_codec q w))" for q w
    by (rule wire_symbols)
  have "(wire_step demo_codec)\<^sup>*\<^sup>* ?w wire_use"
    unfolding wire_use_def
    by (rule rtranclp.rtrancl_into_rtrancl, rule rtranclp.rtrancl_into_rtrancl, rule rtranclp.rtrancl_into_rtrancl,
        rule rtranclp.rtrancl_refl, rule step, rule step, rule step)
  moreover have "wi_sent ?w = []" by (simp add: demo_wire_def)
  moreover have "sent_numbers wire_use = [1, 2, 3]" by code_simp
  ultimately show ?thesis using wire_numbers_increase by blast
qed

end
