(* ===== verification/CsSetup.thy ===== *)
theory CsSetup
  imports CsServers
begin

text \<open>
  The commands \<open>init\<close> and \<open>config\<close> (\<open>init_command.go\<close>, \<open>config_command.go\<close>) and the data directory of the
  server of Java with its entry in \<open>.codesight/.gitignore\<close> (\<open>main.go\<close>). The files written are a map that
  the operations thread; what else the file system reports, and what fails, is an argument.
\<close>

section \<open>The surroundings\<close>

type_synonym text_files = "string \<Rightarrow> string option"

text \<open>
  \<open>su_stat\<close> reports what the operations do not write; \<open>su_unreadable\<close> says for which of the files that they
  write a stat or a read fails. A write succeeds or leaves the file as it was.
\<close>

record setup_env =
  su_cwd :: string
  su_stat :: "string \<Rightarrow> stat_result"
  su_unreadable :: "string \<Rightarrow> bool"
  su_write_ok :: "string \<Rightarrow> bool"
  su_mkdir_ok :: "string \<Rightarrow> bool"

datatype setup_error =
    TargetUnknown string | TargetNotDir string | MkdirDenied string | ConfigUnknown | CheckFailed string
  | ConfigUnwritable | GitignoreUnreadable | GitignoreUnwritable | DirMissing string | DirNotDir string
  | DirReadOnly string | NoStateRoot lifecycle_error

section \<open>The ignore file\<close>

definition gitignore_entry :: string where "gitignore_entry = ''lsp/''"

definition gitignoreContainsLine :: "string \<Rightarrow> string \<Rightarrow> bool" where
  "gitignoreContainsLine content entry \<longleftrightarrow> list_ex (\<lambda>line. trim_space line = entry) (split_on newline content)"

definition with_entry :: "string option \<Rightarrow> string" where
  "with_entry content =
     (case content of
        None \<Rightarrow> gitignore_entry @ [newline]
      | Some c \<Rightarrow>
          if gitignoreContainsLine c gitignore_entry then c
          else (if c \<noteq> [] \<and> c ! (length c - 1) \<noteq> newline then c @ [newline] else c) @ gitignore_entry @ [newline])"

definition ensureCodesightGitignore :: "setup_env \<Rightarrow> string \<Rightarrow> text_files \<Rightarrow> setup_error option \<times> text_files" where
  "ensureCodesightGitignore env codesightDir files =
     (let gitignorePath = path_join [codesightDir, ''.gitignore'']
      in if su_unreadable env gitignorePath then (Some GitignoreUnreadable, files)
         else if (case files gitignorePath of None \<Rightarrow> False | Some c \<Rightarrow> gitignoreContainsLine c gitignore_entry) then (None, files)
         else if \<not> su_write_ok env gitignorePath then (Some GitignoreUnwritable, files)
         else (None, files(gitignorePath \<mapsto> with_entry (files gitignorePath))))"

section \<open>The data directory of jdtls\<close>

text \<open>A temporary file is made and removed again.\<close>

definition ensureDirWritable :: "setup_env \<Rightarrow> string \<Rightarrow> setup_error option" where
  "ensureDirWritable env dir = (if su_write_ok env dir then None else Some (DirReadOnly dir))"

definition projectJdtlsDataDir :: "setup_env \<Rightarrow> string \<Rightarrow> text_files \<Rightarrow> (setup_error + string) \<times> text_files" where
  "projectJdtlsDataDir env workspaceRoot files =
     (let codesightDir = path_join [workspaceRoot, ''.codesight''];
          dir = path_join [codesightDir, ''lsp'', ''java'', ''jdtls-data'']
      in case su_stat env codesightDir of
           StatMissing \<Rightarrow> (Inl (DirMissing codesightDir), files)
         | StatFailed \<Rightarrow> (Inl (DirMissing codesightDir), files)
         | StatFile \<Rightarrow> (Inl (DirNotDir codesightDir), files)
         | StatDir \<Rightarrow>
             (case ensureDirWritable env codesightDir of
                Some err \<Rightarrow> (Inl err, files)
              | None \<Rightarrow>
                  if \<not> su_mkdir_ok env dir then (Inl (MkdirDenied dir), files)
                  else (case ensureCodesightGitignore env codesightDir files of
                          (Some err, files1) \<Rightarrow> (Inl err, files1) | (None, files1) \<Rightarrow> (Inr dir, files1))))"

definition fallbackJdtlsDataDir :: "setup_env \<Rightarrow> lifecycle_env \<Rightarrow> java_env \<Rightarrow> string \<Rightarrow> setup_error + string" where
  "fallbackJdtlsDataDir env lenv jenv workspaceRoot =
     (case ResolveStateDir lenv of
        Inl err \<Rightarrow> Inl (NoStateRoot err)
      | Inr stateDir \<Rightarrow>
          let dir = path_join [stateDir, ''jdtls-data'', take 16 (hex_digest jenv workspaceRoot)]
          in if su_mkdir_ok env dir then Inr dir else Inl (MkdirDenied dir))"

definition jdtlsDataDir ::
  "setup_env \<Rightarrow> lifecycle_env \<Rightarrow> java_env \<Rightarrow> string \<Rightarrow> text_files \<Rightarrow> (setup_error + string) \<times> text_files" where
  "jdtlsDataDir env lenv jenv workspaceRoot files =
     (case projectJdtlsDataDir env workspaceRoot files of
        (Inr projectDir, files1) \<Rightarrow>
          (if projectDir \<noteq> [] then Inr projectDir else fallbackJdtlsDataDir env lenv jenv workspaceRoot, files1)
      | (Inl err, files1) \<Rightarrow> (fallbackJdtlsDataDir env lenv jenv workspaceRoot, files1))"

section \<open>The init command\<close>

record projectTypeDetection =
  pt_java :: bool
  pt_goLang :: bool

definition fileExists :: "setup_env \<Rightarrow> string \<Rightarrow> setup_error + bool" where
  "fileExists env path =
     (case su_stat env path of
        StatMissing \<Rightarrow> Inr False | StatFailed \<Rightarrow> Inl (CheckFailed path) | StatDir \<Rightarrow> Inr False | StatFile \<Rightarrow> Inr True)"

fun anyFilesExist :: "setup_env \<Rightarrow> string \<Rightarrow> string list \<Rightarrow> setup_error + bool" where
  "anyFilesExist env targetPath [] = Inr False"
| "anyFilesExist env targetPath (fileName # fileNames) =
     (case fileExists env (path_join [targetPath, fileName]) of
        Inl err \<Rightarrow> Inl err
      | Inr True \<Rightarrow> Inr True
      | Inr False \<Rightarrow> anyFilesExist env targetPath fileNames)"

definition detectProjectTypes :: "setup_env \<Rightarrow> string \<Rightarrow> setup_error + projectTypeDetection" where
  "detectProjectTypes env targetPath =
     (case anyFilesExist env targetPath [''build.gradle.kts'', ''build.gradle'', ''pom.xml''] of
        Inl err \<Rightarrow> Inl err
      | Inr java \<Rightarrow>
          (case anyFilesExist env targetPath [''go.mod''] of
             Inl err \<Rightarrow> Inl err | Inr goLang \<Rightarrow> Inr \<lparr>pt_java = java, pt_goLang = goLang\<rparr>))"

text \<open>The template; the dash of the comment on Lombok is the em dash. The name of the model needs no escapes.\<close>

definition dquote :: char where "dquote = CHR 0x22"

definition init_template_head :: "string list" where
  "init_template_head =
     [''# Codesight project configuration.'', ''# Environment variables (CODESIGHT_*) override these values.'', [],
      ''# Project root relative to this directory (default: parent of .codesight/).'',
      ''# project_root = '' @ [dquote] @ ''..'' @ [dquote], [], ''[embedding]'',
      ''# Embedding model used for semantic indexing and search.'',
      ''model = '' @ [dquote] @ emb_Model (cf_Embedding Defaults) @ [dquote]]"

definition init_template_java :: "string list" where
  "init_template_java =
     [[], ''[lsp.java]'', ''# Optional JDK home used to run jdtls itself (Java 21+ may be required).'',
      ''runtime_java_home = '' @ [dquote, dquote], ''# Optional JDK home used for Gradle import/build tooling.'',
      ''gradle_java_home = '' @ [dquote, dquote], ''# Extra jdtls launch arguments.'', ''# args = []'',
      ''# Lombok javaagent for jdtls '' @ [CHR 0xE2, CHR 0x80, CHR 0x94] @ '' auto-detected by default; without it,'',
      ''# cross-file method references silently return 0 results.'',
      ''# lombok = '' @ [dquote, dquote] @ ''  # '' @ [dquote, dquote] @ '' = auto-detect, '' @ [dquote] @ ''off'' @ [dquote] @
        '' = disable, or /path/to/lombok.jar'']"

definition init_template_go :: "string list" where
  "init_template_go = [[], ''[lsp.go]'', ''# Additional build flags passed to gopls.'', ''build_flags = []'']"

definition renderInitConfigTemplate :: "projectTypeDetection \<Rightarrow> string" where
  "renderInitConfigTemplate detected =
     concat (map (\<lambda>line. line @ [newline])
       (init_template_head @ (if pt_java detected then init_template_java else []) @
        (if pt_goLang detected then init_template_go else [])))"

text \<open>The lines that are printed, or an error; files written before an error stay.\<close>

definition runInit :: "setup_env \<Rightarrow> string list \<Rightarrow> text_files \<Rightarrow> (setup_error + string list) \<times> text_files" where
  "runInit env args files =
     (let targetPath = (case args of [a] \<Rightarrow> a | _ \<Rightarrow> ''.''); absTargetPath = path_abs (su_cwd env) targetPath;
          codesightDir = path_join [absTargetPath, ''.codesight''];
          configPath = path_join [codesightDir, ''config.toml'']; gitignorePath = path_join [codesightDir, ''.gitignore'']
      in case su_stat env absTargetPath of
           StatMissing \<Rightarrow> (Inl (TargetUnknown absTargetPath), files)
         | StatFailed \<Rightarrow> (Inl (TargetUnknown absTargetPath), files)
         | StatFile \<Rightarrow> (Inl (TargetNotDir targetPath), files)
         | StatDir \<Rightarrow>
             if \<not> su_mkdir_ok env codesightDir then (Inl (MkdirDenied codesightDir), files)
             else if su_unreadable env configPath then (Inl ConfigUnknown, files)
             else if files configPath \<noteq> None then (Inr [''.codesight/config.toml already exists, skipping''], files)
             else (case detectProjectTypes env absTargetPath of
                     Inl err \<Rightarrow> (Inl err, files)
                   | Inr detected \<Rightarrow>
                       if \<not> su_write_ok env configPath then (Inl ConfigUnwritable, files)
                       else let files1 = files(configPath \<mapsto> renderInitConfigTemplate detected);
                                created = ''Created .codesight/config.toml''
                            in if su_unreadable env gitignorePath then (Inl GitignoreUnreadable, files1)
                               else case ensureCodesightGitignore env codesightDir files1 of
                                      (Some err, files2) \<Rightarrow> (Inl err, files2)
                                    | (None, files2) \<Rightarrow>
                                        (Inr (if files1 gitignorePath \<noteq> None then [created]
                                              else [created, ''Created .codesight/.gitignore'']), files2)))"

section \<open>The config command\<close>

definition configValueSource :: "Config \<Rightarrow> config_key \<Rightarrow> string" where
  "configValueSource cfg key = (if cf_Provenance cfg key = [] then ''default'' else cf_Provenance cfg key)"

definition shown_root :: "config_env \<Rightarrow> Config \<Rightarrow> string \<Rightarrow> string" where
  "shown_root env cfg workspaceRoot =
     (let v = (if trim_space workspaceRoot = [] then cf_ProjectRoot cfg else trim_space workspaceRoot)
      in if v = [] \<and> cf_ConfigDir cfg \<noteq> []
         then case ResolvedProjectRoot env cfg (cf_ConfigDir cfg) of Inl err \<Rightarrow> v | Inr resolved \<Rightarrow> resolved
         else v)"

text \<open>The entries, a key with its text; \<open>bool_str\<close> is \<open>strconv.FormatBool\<close>.\<close>

definition config_values :: "Config \<Rightarrow> string \<Rightarrow> (config_key \<times> string) list" where
  "config_values cfg shownRoot =
     [(KeyDBAddress, db_Address (cf_DB cfg)), (KeyDBCollectionName, db_CollectionName (cf_DB cfg)),
      (KeyDBToken, db_Token (cf_DB cfg)), (KeyDBType, db_Type (cf_DB cfg)),
      (KeyEmbeddingMaxInput, int_str (emb_MaxInputChars (cf_Embedding cfg))),
      (KeyEmbeddingModel, emb_Model (cf_Embedding cfg)), (KeyEmbeddingOllama, emb_OllamaHost (cf_Embedding cfg)),
      (KeyIndexWarmLSP, bool_str (cf_WarmLSP cfg)), (KeyLSPDaemonTimeout, dmn_IdleTimeout (lsp_Daemon (cf_LSP cfg))),
      (KeyLSPGoBuildFlags, join '','' (lsp_GoBuildFlags (cf_LSP cfg))),
      (KeyLSPJavaArgs, join '','' (java_Args (lsp_Java (cf_LSP cfg)))),
      (KeyLSPJavaGradleHome, java_GradleJavaHome (lsp_Java (cf_LSP cfg))),
      (KeyLSPJavaLombok, java_Lombok (lsp_Java (cf_LSP cfg))),
      (KeyLSPJavaRuntimeHome, java_RuntimeJavaHome (lsp_Java (cf_LSP cfg))),
      (KeyLSPJavaTimeout, java_Timeout (lsp_Java (cf_LSP cfg))), (KeyProjectRoot, shownRoot),
      (KeyStateDir, cf_StateDir cfg)]"

definition buildConfigDisplayEntries :: "config_env \<Rightarrow> Config option \<Rightarrow> string \<Rightarrow> (string \<times> string \<times> string) list" where
  "buildConfigDisplayEntries env cfg0 workspaceRoot =
     (let cfg = (case cfg0 of None \<Rightarrow> Defaults | Some c \<Rightarrow> c)
      in sort_key fst
           (map (\<lambda>(k, v). (key_name k, v, configValueSource cfg k)) (config_values cfg (shown_root env cfg workspaceRoot))))"

definition runConfig :: "config_env \<Rightarrow> runtime_state \<Rightarrow> string list" where
  "runConfig env rs =
     map (\<lambda>(k, v, source). k @ '' = '' @ v @ '' ('' @ source @ '')'')
       (buildConfigDisplayEntries env (Some (currentConfig rs)) (resolvedProjectRootForTarget env rs (currentTargetDir env rs)))"

section \<open>The ignore file gets its entry once\<close>

lemma split_on_append: "split_on c (u @ c # v) = split_on c u @ split_on c v"
  by (induction u) (auto split: list.splits)

lemma trim_entry: "trim_space gitignore_entry = gitignore_entry"
  unfolding gitignore_entry_def by code_simp

lemma entry_free: "newline \<notin> set gitignore_entry"
  by code_simp

lemma with_entry_contains: "gitignoreContainsLine (with_entry content) gitignore_entry"
proof -
  have e: "split_on newline (gitignore_entry @ [newline]) = [gitignore_entry, []]"
    using split_on_append [of newline gitignore_entry "[]"] entry_free by (simp add: split_on_free)
  show ?thesis
  proof (cases content)
    case None
    then show ?thesis using e trim_entry by (simp add: with_entry_def gitignoreContainsLine_def)
  next
    case (Some c)
    have last: "c = take (length c - 1) c @ [newline]" if "c \<noteq> []" "c ! (length c - 1) = newline"
      using that by (metis append_butlast_last_id butlast_conv_take last_conv_nth)
    show ?thesis
    proof (cases "gitignoreContainsLine c gitignore_entry \<or> c = []")
      case True
      then show ?thesis using Some e trim_entry by (auto simp: with_entry_def gitignoreContainsLine_def)
    next
      case False
      then have "with_entry content = (if c ! (length c - 1) = newline then take (length c - 1) c else c) @
          newline # gitignore_entry @ [newline]"
        using Some last by (simp add: with_entry_def)
      then obtain u where "with_entry content = u @ newline # gitignore_entry @ [newline]" by blast
      then have "split_on newline (with_entry content) = split_on newline u @ [gitignore_entry, []]"
        using split_on_append [of newline u "gitignore_entry @ [newline]"] e by simp
      then show ?thesis using trim_entry by (simp add: gitignoreContainsLine_def)
    qed
  qed
qed

lemma with_entry_extends: "\<exists>t. with_entry (Some c) = c @ t"
  by (simp add: with_entry_def)

lemma ensure_cases:
  assumes "ensureCodesightGitignore env dir files = (r, files')"
  shows "(r \<noteq> None \<longrightarrow> files' = files) \<and>
    (r = None \<longrightarrow> files' = files(path_join [dir, ''.gitignore''] \<mapsto> with_entry (files (path_join [dir, ''.gitignore'']))))"
proof -
  have "files (path_join [dir, ''.gitignore'']) = Some c \<Longrightarrow> gitignoreContainsLine c gitignore_entry \<Longrightarrow>
      files = files(path_join [dir, ''.gitignore''] \<mapsto> with_entry (Some c))" for c
    by (auto simp: with_entry_def)
  then show ?thesis using assms by (auto simp: ensureCodesightGitignore_def Let_def split: if_splits option.splits)
qed

section \<open>What init may change\<close>

lemma init_paths:
  assumes "names_ok rs"
  shows "path_join [path_join [abs_path rs, ''.codesight''], ''config.toml''] = abs_path (rs @ [''.codesight'', ''config.toml''])"
    and "path_join [path_join [abs_path rs, ''.codesight''], ''.gitignore''] = abs_path (rs @ [''.codesight'', ''.gitignore''])"
    and "abs_path (rs @ [''.codesight'', ''config.toml'']) \<noteq> abs_path (rs @ [''.codesight'', ''.gitignore''])"
proof -
  have n: "is_name ''.codesight''" "is_name ''config.toml''" "is_name ''.gitignore''" by code_simp+
  then have ok: "names_ok (rs @ [''.codesight''])" "names_ok (rs @ [''.codesight'', f])" if "is_name f" for f
    using assms that by (simp_all add: names_ok_def)
  show "path_join [path_join [abs_path rs, ''.codesight''], ''config.toml''] = abs_path (rs @ [''.codesight'', ''config.toml''])"
    "path_join [path_join [abs_path rs, ''.codesight''], ''.gitignore''] = abs_path (rs @ [''.codesight'', ''.gitignore''])"
    using abs_path_join [OF assms n(1)] abs_path_join [OF ok(1) [OF n(1)]] n by simp_all
  show "abs_path (rs @ [''.codesight'', ''config.toml'']) \<noteq> abs_path (rs @ [''.codesight'', ''.gitignore''])"
    using abs_path_inj [OF ok(2) ok(2)] n by simp
qed

text \<open>
  C34. \<open>init\<close> is safe to run at any time. It touches no file but \<open>.codesight/config.toml\<close> and
  \<open>.codesight/.gitignore\<close>; an existing configuration stays as it is, and then nothing changes at all; an
  existing ignore file only grows at its end. When it succeeds on a project without a configuration, the ignore
  file has the entry for the data of the servers, and running it again changes nothing.
\<close>

theorem runInit_safe:
  assumes "path_abs (su_cwd env) target = abs_path rs" "names_ok rs"
    and "config = abs_path (rs @ [''.codesight'', ''config.toml''])" "ignore = abs_path (rs @ [''.codesight'', ''.gitignore''])"
    and "runInit env [target] files = (r, files')"
  shows "(\<forall>p. p \<noteq> config \<longrightarrow> p \<noteq> ignore \<longrightarrow> files' p = files p) \<and> (files config \<noteq> None \<longrightarrow> files' = files) \<and>
    (\<forall>c. files ignore = Some c \<longrightarrow> (\<exists>t. files' ignore = Some (c @ t))) \<and>
    (\<forall>lines. r = Inr lines \<longrightarrow>
       (files config = None \<longrightarrow> (\<exists>g. files' ignore = Some g \<and> gitignoreContainsLine g gitignore_entry)) \<and>
       runInit env [target] files' = (Inr [''.codesight/config.toml already exists, skipping''], files'))"
proof -
  let ?dir = "path_join [abs_path rs, ''.codesight'']" and ?skip = "[''.codesight/config.toml already exists, skipping'']"
  note paths = init_paths [OF assms(2)]
  show ?thesis
  proof (cases "su_stat env (abs_path rs) = StatDir \<and> su_mkdir_ok env ?dir \<and> \<not> su_unreadable env config")
    case False
    then have "files' = files" "\<nexists>lines. r = Inr lines"
      using assms(1,3,5) paths by (auto simp: runInit_def Let_def split: stat_result.splits if_splits)
    then show ?thesis by simp
  next
    case ready: True
    have again: "runInit env [target] f = (Inr ?skip, f)" if "f config \<noteq> None" for f
      using ready that assms(1,3) paths by (simp add: runInit_def Let_def)
    show ?thesis
    proof (cases "files config")
      case (Some c)
      then have "files' = files" using again [of files] assms(5) by simp
      then show ?thesis using Some again by auto
    next
      case None
      show ?thesis
      proof (cases "files' = files \<and> (\<nexists>lines. r = Inr lines)")
        case True
        then show ?thesis by simp
      next
        case False
        then obtain detected where detected: "detectProjectTypes env (abs_path rs) = Inr detected"
          and ok: "su_write_ok env config"
          using assms(1,3,5) paths ready None by (auto simp: runInit_def Let_def split: sum.splits if_splits)
        let ?files1 = "files(config \<mapsto> renderInitConfigTemplate detected)"
        obtain er files2 where ensured: "ensureCodesightGitignore env ?dir ?files1 = (er, files2)" by fastforce
        have run: "files' = ?files1 \<and> (\<nexists>lines. r = Inr lines) \<or>
            files' = files2 \<and> (er = None \<longleftrightarrow> (\<exists>lines. r = Inr lines))"
          using assms(1,3,4,5) paths ready None detected ok ensured
          by (auto simp: runInit_def Let_def split: if_splits option.splits)
        have two: "config \<noteq> ignore" using paths(3) assms(3,4) by simp
        have "files2 = ?files1 \<and> er \<noteq> None \<or> er = None \<and> files2 = ?files1(ignore \<mapsto> with_entry (files ignore))"
          using ensure_cases [OF ensured] paths(2) assms(4) two by (cases er) auto
        then show ?thesis
          using run two None with_entry_extends with_entry_contains again [of files'] by auto
      qed
    qed
  qed
qed

text \<open>A Go project with an ignore file that does not end in a newline.\<close>

definition init_demo :: setup_env where
  "init_demo =
     \<lparr>su_cwd = ''/p'', su_stat = (\<lambda>p. if p = ''/p'' then StatDir else if p = ''/p/go.mod'' then StatFile else StatMissing),
      su_unreadable = (\<lambda>p. False), su_write_ok = (\<lambda>p. True), su_mkdir_ok = (\<lambda>p. True)\<rparr>"

definition init_demo_files :: text_files where
  "init_demo_files = [''/p/.codesight/.gitignore'' \<mapsto> ''tmp/'']"

theorem runInit_safe_witness:
  "\<exists>lines files' t. runInit init_demo [''.''] init_demo_files = (Inr lines, files') \<and>
    files' ''/p/.codesight/.gitignore'' = Some (''tmp/'' @ t) \<and>
    runInit init_demo [''.''] files' = (Inr [''.codesight/config.toml already exists, skipping''], files')"
proof -
  obtain r files' where run: "runInit init_demo [''.''] init_demo_files = (r, files')" by fastforce
  have "case fst (runInit init_demo [''.''] init_demo_files) of Inr lines \<Rightarrow> True | Inl err \<Rightarrow> False" by code_simp
  then obtain lines where lines: "r = Inr lines" using run by (auto split: sum.splits)
  have facts: "path_abs (su_cwd init_demo) ''.'' = abs_path [''p'']" "names_ok [''p'']"
    "abs_path ([''p''] @ [''.codesight'', ''.gitignore'']) = ''/p/.codesight/.gitignore''" by code_simp+
  from runInit_safe [OF facts(1,2) refl refl run, unfolded facts(3)] show ?thesis
    using run lines by (simp add: init_demo_files_def)
qed

section \<open>What config shows\<close>

definition shown_config_keys :: "config_key list" where
  "shown_config_keys =
    [KeyDBAddress, KeyDBCollectionName, KeyDBToken, KeyDBType, KeyEmbeddingMaxInput, KeyEmbeddingModel,
      KeyEmbeddingOllama, KeyIndexWarmLSP, KeyLSPDaemonTimeout, KeyLSPGoBuildFlags, KeyLSPJavaArgs,
      KeyLSPJavaGradleHome, KeyLSPJavaLombok, KeyLSPJavaRuntimeHome, KeyLSPJavaTimeout, KeyProjectRoot, KeyStateDir]"

lemma shown_keys:
  "map (\<lambda>e. key_name (fst e)) (config_values cfg root_text) =
    map key_name shown_config_keys"
  by (simp add: config_values_def shown_config_keys_def)

lemma shown_fst: "map fst (buildConfigDisplayEntries env cfg ws) =
    sort (map (\<lambda>e. key_name (fst e)) (config_values (case cfg of None \<Rightarrow> Defaults | Some c \<Rightarrow> c)
      (shown_root env (case cfg of None \<Rightarrow> Defaults | Some c \<Rightarrow> c) ws)))"
proof -
  have "map fst (sort_key fst xs) = sort (map fst xs)" for xs :: "(string \<times> string \<times> string) list"
  proof -
    have "mset (map fst (sort_key fst xs)) = mset (map fst xs)" unfolding mset_map by simp
    then show ?thesis using properties_for_sort [of "map fst (sort_key fst xs)" "map fst xs"] by simp
  qed
  then show ?thesis by (simp add: buildConfigDisplayEntries_def Let_def comp_def case_prod_unfold)
qed

lemma shown_sorted: "sorted (map fst (buildConfigDisplayEntries env cfg ws)) \<and> distinct (map fst (buildConfigDisplayEntries env cfg ws))"
proof -
  have "distinct (map (\<lambda>e. key_name (fst e)) (config_values c r))" for c r unfolding shown_keys by code_simp
  then show ?thesis by (simp add: shown_fst)
qed

text \<open>Every setting has its line but the timeout of the probe of a warmup, which can be configured all the same.\<close>

lemma warmup_timeout_not_shown:
  "fst ` set (buildConfigDisplayEntries env cfg ws) = key_name ` (UNIV - {KeyLSPWarmupProbeTimeout})"
proof -
  have "fst ` set (buildConfigDisplayEntries env cfg ws) = set (map fst (buildConfigDisplayEntries env cfg ws))" by simp
  also have "\<dots> = key_name ` set shown_config_keys"
    unfolding shown_fst shown_keys set_sort by (simp only: set_map)
  also have "set shown_config_keys = UNIV - {KeyLSPWarmupProbeTimeout}"
  proof (rule set_eqI)
    fix k
    show "k \<in> set shown_config_keys \<longleftrightarrow> k \<in> UNIV - {KeyLSPWarmupProbeTimeout}"
      by (cases k) (simp_all add: shown_config_keys_def)
  qed
  finally show ?thesis .
qed

end
