(* ===== verification/CsStart.thy ===== *)
theory CsStart
  imports LspWire CsSetup
begin

text \<open>
  A language server without a daemon (\<open>cmd/cs/main.go\<close>): the process with its pipes, the client on top of them, the
  handshake and the priming of the workspace, and the closing of it all.
\<close>

section \<open>The workspace\<close>

definition refsWorkspaceURI :: "string \<Rightarrow> string \<Rightarrow> string" where
  "refsWorkspaceURI cwd workspaceRoot =
     (let normalized = path_abs cwd workspaceRoot
      in file_url (if \<not> has_prefix normalized ''/'' then slash # normalized else normalized))"

lemma refsWorkspaceURI_daemon: "refsWorkspaceURI cwd workspaceRoot = daemonWorkspaceURI cwd workspaceRoot"
  by (simp add: refsWorkspaceURI_def daemonWorkspaceURI_def Let_def)

section \<open>The process\<close>

datatype pipe_close = PipeClosed | PipeWasClosed | PipeCloseFailed

datatype process_end = EndOk | EndDone | EndFailed

datatype close_error = StdinCloseFailed | StdoutCloseFailed | KillProcessFailed | WaitProcessFailed

text \<open>What the system answers when the transport is closed.\<close>

record close_env =
  ce_stdin :: pipe_close
  ce_stdout :: pipe_close
  ce_kill :: process_end
  ce_wait :: process_end

text \<open>A transport is closed once; later calls give the errors of the first.\<close>

record refsProcessTransport =
  pt_closed :: bool
  pt_closeErr :: "close_error list"

definition transport_Close :: "close_env \<Rightarrow> refsProcessTransport \<Rightarrow> close_error list \<times> refsProcessTransport" where
  "transport_Close env t =
     (if pt_closed t then (pt_closeErr t, t)
      else let errs =
             (if ce_stdin env = PipeCloseFailed then [StdinCloseFailed] else []) @
             (if ce_stdout env = PipeCloseFailed then [StdoutCloseFailed] else []) @
             (if ce_kill env = EndFailed then [KillProcessFailed] else []) @
             (if ce_wait env = EndFailed then [WaitProcessFailed] else [])
           in (errs, t\<lparr>pt_closed := True, pt_closeErr := errs\<rparr>))"

datatype server_pipe = StdinPipe | StdoutPipe

datatype transport_event =
    PipeOpened server_pipe
  | PipeGone server_pipe
  | ServerSpawned string "string list" "string list option"
  | ServerKilled

definition close_events :: "transport_event list" where
  "close_events = [PipeGone StdinPipe, PipeGone StdoutPipe, ServerKilled]"

datatype spawn_result = SpawnOk | SpawnNotFound | SpawnFailed

record spawn_env =
  sp_stdin_ok :: bool
  sp_stdout_ok :: bool
  sp_start :: spawn_result
  sp_environ :: "string list"

datatype start_failure =
    StdinPipeFailed
  | StdoutPipeFailed
  | ServerNotFound string string
  | ServerNotStarted string
  | TimeoutRefused int
  | ParamsFailed java_error
  | HandshakeFailed init_failure
  | PrimeFailed check_error

text \<open>The arguments of a Java server name its data directory, when there is one.\<close>

definition server_args ::
  "setup_env \<Rightarrow> lifecycle_env \<Rightarrow> java_env \<Rightarrow> string \<Rightarrow> ServerSpec \<Rightarrow> text_files \<Rightarrow> string list \<times> text_files" where
  "server_args senv lenv jenv workspaceRoot spec files =
     (if ss_Binary spec = ''jdtls''
      then (case jdtlsDataDir senv lenv jenv workspaceRoot files of
              (Inr dataDir, files1) \<Rightarrow> (ss_Args spec @ [''-data'', dataDir], files1)
            | (Inl err, files1) \<Rightarrow> (ss_Args spec, files1))
      else (ss_Args spec, files))"

text \<open>Without overrides the server inherits the environment.\<close>

definition spawn_environment :: "string list \<Rightarrow> string list \<Rightarrow> string list option" where
  "spawn_environment environ server_env = (if server_env = [] then None else Some (mergeProcessEnv environ server_env))"

definition startRefsLSPTransport ::
  "spawn_env \<Rightarrow> string list \<Rightarrow> string list \<Rightarrow> ServerSpec \<Rightarrow> start_failure option \<times> transport_event list" where
  "startRefsLSPTransport env server_env args spec =
     (if \<not> sp_stdin_ok env then (Some StdinPipeFailed, [])
      else if \<not> sp_stdout_ok env then (Some StdoutPipeFailed, [PipeOpened StdinPipe, PipeGone StdinPipe])
      else case sp_start env of
             SpawnOk \<Rightarrow>
               (None, [PipeOpened StdinPipe, PipeOpened StdoutPipe,
                       ServerSpawned (ss_Binary spec) args (spawn_environment (sp_environ env) server_env)])
           | SpawnNotFound \<Rightarrow>
               (Some (ServerNotFound (ss_Binary spec) (ss_InstallHint spec)),
                [PipeOpened StdinPipe, PipeOpened StdoutPipe, PipeGone StdinPipe, PipeGone StdoutPipe])
           | SpawnFailed \<Rightarrow>
               (Some (ServerNotStarted (ss_Binary spec)),
                [PipeOpened StdinPipe, PipeOpened StdoutPipe, PipeGone StdinPipe, PipeGone StdoutPipe]))"

section \<open>The client\<close>

definition refs_request_timeout :: "ServerSpec \<Rightarrow> int" where
  "refs_request_timeout spec = (if ss_Binary spec = ''jdtls'' then 60 * 1000000000 else 10 * 1000000000)"

text \<open>
  The handshake on the new connection: \<open>encode\<close> is the JSON of the parameters, \<open>decodes\<close> says whether a result is one
  of \<open>initialize\<close>, \<open>notify_now\<close> is the time of the notification. The second component is the connection after it.
\<close>

definition wire_initialize ::
  "'r wire_codec \<Rightarrow> (InitializeParams \<Rightarrow> 'r) \<Rightarrow> ('r \<Rightarrow> bool) \<Rightarrow> 'r \<Rightarrow> int \<Rightarrow> InitializeParams \<Rightarrow> 'r wire \<Rightarrow>
   init_failure option \<times> 'r wire" where
  "wire_initialize codec encode decodes no_params notify_now params w =
     (let op = wire_operation codec w; es = wi_events w @ [at_last w]
      in case Initialize op (op\<lparr>op_now := notify_now\<rparr>) (\<lambda>r. if decodes r then Some () else None) es (encode params) no_params
                (wi_client w) of
           (r, sent, es1, c1) \<Rightarrow>
             (case r of
                Some (Inr u) \<Rightarrow> None
              | Some (Inl err) \<Rightarrow> Some err
              | None \<Rightarrow> Some (InitRequestFailed CallTimedOut),
              w\<lparr>wi_client := c1, wi_now := max notify_now (clock_after (wi_now w) (take (length es - length es1) es)),
                wi_events := butlast es1, wi_sent := wi_sent w @ sent\<rparr>))"

text \<open>The wire of a new client.\<close>

definition new_wire :: "int \<Rightarrow> go_context \<Rightarrow> 'r client_event list \<Rightarrow> rpc_client \<Rightarrow> 'r wire" where
  "new_wire now ctx es rp =
     \<lparr>wi_client = rp, wi_now = now, wi_ctx = ctx, wi_write_ok = True, wi_events = es, wi_sent = [], wi_subscription = None\<rparr>"

text \<open>
  The connection begins at the time \<open>now\<close>, and \<open>es\<close> happens on it. The parameters of \<open>initialize\<close> are a result with the state files after it (\<open>refsInitializeParams\<close>), the priming a function
  on the connection (\<open>PrimeClientWorkspace\<close> with its files). Every failure closes what was opened before.
\<close>

definition connect_server ::
  "'r wire_codec \<Rightarrow> (InitializeParams \<Rightarrow> 'r) \<Rightarrow> ('r \<Rightarrow> bool) \<Rightarrow> 'r \<Rightarrow> int \<Rightarrow> lsp_env \<Rightarrow> (java_error + InitializeParams) \<Rightarrow>
   string \<Rightarrow> ServerSpec \<Rightarrow> int \<Rightarrow> go_context \<Rightarrow> 'r client_event list \<Rightarrow>
   start_failure + 'r wire" where
  "connect_server codec encode decodes no_params notify_now files params workspaceRoot spec now ctx es =
     (case new_rpc_client [WithRequestTimeout (refs_request_timeout spec)] of
        Inl t \<Rightarrow> Inl (TimeoutRefused t)
      | Inr rp \<Rightarrow>
          (case params of
             Inl err \<Rightarrow> Inl (ParamsFailed err)
           | Inr ps \<Rightarrow>
               (case wire_initialize codec encode decodes no_params notify_now ps (new_wire now ctx es rp) of
                  (Some err, w1) \<Rightarrow> Inl (HandshakeFailed err)
                | (None, w1) \<Rightarrow>
                    (case PrimeClientWorkspace files (Some (wire_check_client codec)) workspaceRoot (ss_Language spec) w1 of
                       (Some err, w2) \<Rightarrow> Inl (PrimeFailed err)
                     | (None, w2) \<Rightarrow> Inr w2))))"

definition startRefsLSPClient ::
  "'r wire_codec \<Rightarrow> (InitializeParams \<Rightarrow> 'r) \<Rightarrow> ('r \<Rightarrow> bool) \<Rightarrow> 'r \<Rightarrow> int \<Rightarrow> lsp_env \<Rightarrow> (java_error + InitializeParams) \<Rightarrow>
   spawn_env \<Rightarrow> string list \<Rightarrow> string list \<Rightarrow> string \<Rightarrow> ServerSpec \<Rightarrow> int \<Rightarrow> go_context \<Rightarrow>
   'r client_event list \<Rightarrow>    (start_failure + 'r wire) \<times> transport_event list" where
  "startRefsLSPClient codec encode decodes no_params notify_now files params env server_env args workspaceRoot spec now ctx es =
     (case startRefsLSPTransport env server_env args spec of
        (Some err, ev) \<Rightarrow> (Inl err, ev)
      | (None, ev) \<Rightarrow>
          (case connect_server codec encode decodes no_params notify_now files params workspaceRoot spec now ctx es of
             Inl err \<Rightarrow> (Inl err, ev @ close_events)
           | Inr w \<Rightarrow> (Inr w, ev)))"

text \<open>
  The whole start with what it reads and writes: the arguments, the environment and the parameters of the server. The
  parameters, which record a baseline of the build, are only made when the process has been started.
\<close>

definition start_without_daemon ::
  "'r wire_codec \<Rightarrow> (InitializeParams \<Rightarrow> 'r) \<Rightarrow> ('r \<Rightarrow> bool) \<Rightarrow> 'r \<Rightarrow> int \<Rightarrow> lsp_env \<Rightarrow> setup_env \<Rightarrow> lifecycle_env \<Rightarrow> java_env \<Rightarrow>
   bool \<Rightarrow> bool \<Rightarrow> runtime_state \<Rightarrow> spawn_env \<Rightarrow> string \<Rightarrow> ServerSpec \<Rightarrow> int \<Rightarrow> go_context \<Rightarrow> 'r client_event list \<Rightarrow>
   text_files \<Rightarrow> state_files \<Rightarrow> (start_failure + 'r wire) \<times> transport_event list \<times> text_files \<times> state_files" where
  "start_without_daemon codec encode decodes no_params notify_now lsp senv lenv jenv write_ok state_ok rs env workspaceRoot spec
     now ctx es files sfiles =
     (case server_args senv lenv jenv workspaceRoot spec files of
        (args, files1) \<Rightarrow>
          (case refsInitializeParams jenv lenv write_ok state_ok (Some (currentConfig rs)) workspaceRoot spec sfiles of
             (params, sfiles1) \<Rightarrow>
               (case startRefsLSPClient codec encode decodes no_params notify_now lsp params env (refsLSPServerEnv rs spec) args
                       workspaceRoot spec now ctx es of
                  (r, ev) \<Rightarrow>
                    (r, ev, files1,
                     if fst (startRefsLSPTransport env (refsLSPServerEnv rs spec) args spec) = None then sfiles1 else sfiles))))"

section \<open>What a start leaves behind\<close>

definition pipes_left :: "server_pipe \<Rightarrow> transport_event list \<Rightarrow> int" where
  "pipes_left p ev = int (length (filter (\<lambda>e. e = PipeOpened p) ev)) - int (length (filter (\<lambda>e. e = PipeGone p) ev))"

definition servers_left :: "transport_event list \<Rightarrow> int" where
  "servers_left ev =
     int (length (filter (\<lambda>e. case e of ServerSpawned b a v \<Rightarrow> True | _ \<Rightarrow> False) ev)) -
     int (length (filter (\<lambda>e. e = ServerKilled) ev))"

lemma left_append [simp]:
  "pipes_left p (ev @ ev') = pipes_left p ev + pipes_left p ev'" "servers_left (ev @ ev') = servers_left ev + servers_left ev'"
  by (simp_all add: pipes_left_def servers_left_def)

lemma close_left: "pipes_left p close_events = - 1" "servers_left close_events = - 1"
  by (cases p; simp add: pipes_left_def servers_left_def close_events_def)+

lemma transport_left:
  assumes "startRefsLSPTransport env server_env args spec = (err, ev)"
  shows "pipes_left p ev = (if err = None then 1 else 0) \<and> servers_left ev = (if err = None then 1 else 0)"
  using assms
  by (cases p) (auto simp: startRefsLSPTransport_def pipes_left_def servers_left_def split: if_splits spawn_result.splits)

lemma new_client_timeout:
  "new_rpc_client [WithRequestTimeout (refs_request_timeout spec)] =
    Inr \<lparr>rp_client = NewClient, rp_requestTimeout = refs_request_timeout spec, rp_closed = False\<rparr>"
  by (simp add: new_rpc_client_def WithRequestTimeout_def refs_request_timeout_def)

lemma wire_initialize_fresh:
  assumes "wire_initialize codec encode decodes no_params notify_now params (new_wire now ctx es rp) = (None, w)"
    and "\<not> cl_initialized (rp_client rp)"
  shows "cl_initialized (rp_client (wi_client w)) \<and> rp_requestTimeout (wi_client w) = rp_requestTimeout rp \<and>
    (\<exists>i. wi_sent w = [Message (Some (IdInt i)) (Method ''initialize'') (encode params), Message None (Method ''initialized'') no_params])"
proof -
  let ?w = "new_wire now ctx es rp" and ?op = "wire_operation codec (new_wire now ctx es rp)"
  obtain r sent es1 rp1 where init: "Initialize ?op (?op\<lparr>op_now := notify_now\<rparr>) (\<lambda>r. if decodes r then Some () else None)
      (es @ [at_last ?w]) (encode params) no_params rp = (r, sent, es1, rp1)" by (metis prod_cases4)
  then have "\<exists>x. r = Some (Inr x)" "wi_client w = rp1" "wi_sent w = sent"
    using assms(1) by (auto simp: wire_initialize_def new_wire_def Let_def split: option.splits sum.splits)
  then show ?thesis using Initialize_fresh [of ?op _ _ _ "encode params" no_params rp _ sent es1 rp1] init assms(2) by auto
qed

text \<open>Priming is at most one notification.\<close>

lemma prime_keeps:
  assumes "PrimeClientWorkspace files (Some (wire_check_client codec)) workspaceRoot language w = (err, w1)"
  shows "wi_client w1 = wi_client w \<and> (\<exists>sent. wi_sent w1 = wi_sent w @ sent)"
  using assms
  by (auto simp: PrimeClientWorkspace_def wire_check_client_def wire_notify_def Let_def
      split: if_splits sum.splits option.splits prod.splits)

text \<open>
  A server is started with its client or not at all. When anything fails, the pipes, the parameters, the handshake
  or the priming, both pipes are closed as often as they were opened and a process that was started is killed; when the
  start succeeds, exactly one process runs, and its client has been initialized, by the request and the notification
  before everything else, and has the timeout of its language.
\<close>

theorem startRefsLSPClient_releases:
  assumes "startRefsLSPClient codec encode decodes no_params notify_now files params env server_env args workspaceRoot spec now ctx es =
    (r, ev)"
  shows "pipes_left p ev = (case r of Inl err \<Rightarrow> 0 | Inr w \<Rightarrow> 1) \<and> servers_left ev = (case r of Inl err \<Rightarrow> 0 | Inr w \<Rightarrow> 1) \<and>
    (\<forall>w. r = Inr w \<longrightarrow> cl_initialized (rp_client (wi_client w)) \<and> rp_requestTimeout (wi_client w) = refs_request_timeout spec \<and>
       (\<exists>ps i sent. params = Inr ps \<and> wi_sent w = Message (Some (IdInt i)) (Method ''initialize'') (encode ps) #
          Message None (Method ''initialized'') no_params # sent))"
proof -
  obtain err ev0 where transport: "startRefsLSPTransport env server_env args spec = (err, ev0)" by (meson surj_pair)
  let ?conn = "connect_server codec encode decodes no_params notify_now files params workspaceRoot spec now ctx es"
  have ready: "cl_initialized (rp_client (wi_client w)) \<and> rp_requestTimeout (wi_client w) = refs_request_timeout spec \<and>
       (\<exists>ps i sent. params = Inr ps \<and> wi_sent w = Message (Some (IdInt i)) (Method ''initialize'') (encode ps) #
          Message None (Method ''initialized'') no_params # sent)" if conn: "?conn = Inr w" for w
  proof -
    let ?rp = "\<lparr>rp_client = NewClient, rp_requestTimeout = refs_request_timeout spec, rp_closed = False\<rparr>"
    obtain ps where ps: "params = Inr ps" using conn by (cases params) (simp_all add: connect_server_def new_client_timeout)
    obtain e w1 where init: "wire_initialize codec encode decodes no_params notify_now ps (new_wire now ctx es ?rp) = (e, w1)"
      by (meson surj_pair)
    obtain e2 w2 where prime: "PrimeClientWorkspace files (Some (wire_check_client codec)) workspaceRoot (ss_Language spec) w1 = (e2, w2)"
      by (meson surj_pair)
    have "e = None" "w = w2"
      using conn ps init prime by (auto simp: connect_server_def new_client_timeout split: option.splits)
    then show ?thesis
      using wire_initialize_fresh [OF init [unfolded \<open>e = None\<close>]] prime_keeps [OF prime] ps by (auto simp: NewClient_def)
  qed
  obtain c where c: "?conn = c" by blast
  note left = transport_left [OF transport, of p] close_left
  show ?thesis
  proof (cases err)
    case (Some e)
    then show ?thesis using assms left by (auto simp: startRefsLSPClient_def transport)
  next
    case None
    show ?thesis
    proof (cases c)
      case (Inl e)
      then have conn: "?conn = Inl e" using c by simp
      show ?thesis using assms left None by (auto simp: startRefsLSPClient_def transport conn)
    next
      case (Inr w)
      then have conn: "?conn = Inr w" using c by simp
      show ?thesis using assms left None ready [OF conn] by (auto simp: startRefsLSPClient_def transport conn)
    qed
  qed
qed

text \<open>
  Closing a transport whose process still runs reports an error: \<open>Wait\<close> reports a process that was killed, and no more
  than the signal of \<open>os.ErrProcessDone\<close> is left out.
\<close>

lemma close_reports_kill:
  "\<not> pt_closed t \<Longrightarrow> ce_kill env = EndOk \<Longrightarrow> ce_wait env = EndFailed \<Longrightarrow> WaitProcessFailed \<in> set (fst (transport_Close env t))"
  by (simp add: transport_Close_def Let_def)

lemma close_again: "transport_Close env2 (snd (transport_Close env t)) = transport_Close env t"
  by (simp add: transport_Close_def Let_def)

section \<open>An example\<close>

definition demo_spawn :: spawn_env where
  "demo_spawn = \<lparr>sp_stdin_ok = True, sp_stdout_ok = True, sp_start = SpawnOk, sp_environ = []\<rparr>"

definition demo_params :: InitializeParams where
  "demo_params =
     \<lparr>ip_RootURI = ''file:///w'', ip_ClientName = ''cs'', ip_FolderURI = ''file:///w'', ip_FolderName = ''w'',
      ip_InitializationOptions = None\<rparr>"

definition demo_spec :: ServerSpec where
  "demo_spec = \<lparr>ss_Language = ''go'', ss_Binary = ''gopls'', ss_Args = [], ss_InstallHint = []\<rparr>"

definition demo_connect ::
  "string client_event list \<Rightarrow> (start_failure + string wire) \<times> transport_event list" where
  "demo_connect es =
     startRefsLSPClient demo_codec (\<lambda>ps. ''p'') (\<lambda>r. True) [] 0 wire_env (Inr demo_params) demo_spawn [] [] ''/w'' demo_spec 0
       \<lparr>cx_deadline = None, cx_cancelled = False\<rparr> es"

text \<open>A server that answers, and one that does not.\<close>

theorem startRefsLSPClient_releases_witness:
  "\<exists>w ev err ev'. demo_connect [Arrives True True (Message (Some (IdInt 1)) NoMethod [])] = (Inr w, ev) \<and> servers_left ev = 1 \<and>
    rp_requestTimeout (wi_client w) = 10000000000 \<and> demo_connect [] = (Inl err, ev') \<and> servers_left ev' = 0"
proof -
  let ?es = "[Arrives True True (Message (Some (IdInt 1)) NoMethod [])] :: string client_event list"
  obtain r ev where good: "demo_connect ?es = (r, ev)" by (meson surj_pair)
  obtain r' ev' where bad: "demo_connect [] = (r', ev')" by (meson surj_pair)
  have "case demo_connect ?es of (Inr w, ev) \<Rightarrow> True | _ \<Rightarrow> False" by code_simp
  moreover have "case demo_connect [] of (Inl err, ev) \<Rightarrow> True | _ \<Rightarrow> False" by code_simp
  ultimately obtain w err where "r = Inr w" "r' = Inl err" using good bad by (auto split: sum.splits)
  moreover have "refs_request_timeout demo_spec = 10000000000" by code_simp
  ultimately show ?thesis
    using startRefsLSPClient_releases [OF good [unfolded demo_connect_def]] startRefsLSPClient_releases [OF bad [unfolded demo_connect_def]]
      good bad by auto
qed

end
